(* ===== verification/Prelude.thy ===== *)
theory Prelude
  imports Main "HOL-Library.Word"
begin

text \<open>
  Shared vocabulary of the development: the C integer types as words, byte buffers as lists
  of octets, the little-endian host view of an integer in memory, big-endian decoding and
  encoding, bounds-checked reads of a buffer, and NUL-terminated C strings.

  A buffer of the C code is the list of the octets it holds.  A read that the C code performs
  through a pointer is \<open>slice off n buf\<close>, which is \<open>None\<close> when the read leaves the
  buffer: undefined behaviour of the source is a value of the model, so that memory safety can
  be stated and proved.
\<close>

unbundle bit_operations_syntax

type_synonym u8 = "8 word"
type_synonym u16 = "16 word"
type_synonym u32 = "32 word"
type_synonym u64 = "64 word"
type_synonym bytes = "8 word list"

named_theorems mem_defs \<open>definitions of the memory images of integers\<close>

subsection \<open>Big-endian values of byte strings\<close>

fun be_nat :: "bytes \<Rightarrow> nat" where
  "be_nat [] = 0"
| "be_nat (b # bs) = unat b * 256 ^ length bs + be_nat bs"

fun to_be :: "nat \<Rightarrow> nat \<Rightarrow> bytes" where
  "to_be 0 v = []"
| "to_be (Suc n) v = word_of_nat (v div 256 ^ n) # to_be n v"

lemma length_to_be [simp]: "length (to_be n v) = n"
  by (induction n) auto

lemma be_nat_append: "be_nat (xs @ ys) = be_nat xs * 256 ^ length ys + be_nat ys"
  by (induction xs) (auto simp: algebra_simps power_add)

lemma unat_less: "unat (x :: 'a::len word) < 2 ^ LENGTH('a)"
  by (rule unsigned_less)

lemma unat_drop_bit: "unat (drop_bit n x) = unat (x :: 'a::len word) div 2 ^ n"
  by (simp only: unsigned_drop_bit_eq take_bit_nat_eq_self [OF unat_less])
    (simp only: drop_bit_eq_div)

lemma unat_push_bit:
  assumes "unat (x :: 'a::len word) * 2 ^ n < 2 ^ LENGTH('a)"
  shows "unat (push_bit n x) = unat x * 2 ^ n"
proof -
  have "unat (push_bit n x) = take_bit LENGTH('a) (push_bit n (unat x))"
    by (rule unsigned_push_bit_eq)
  also have "push_bit n (unat x) = unat x * 2 ^ n" by (rule push_bit_eq_mult)
  also have "take_bit LENGTH('a) (unat x * 2 ^ n) = unat x * 2 ^ n"
    using assms by (rule take_bit_nat_eq_self)
  finally show ?thesis .
qed

lemma unat_byte_bound: "unat (b :: u8) < 256"
  using unat_less [of b] by simp

lemma be_nat_bound: "be_nat bs < 256 ^ length bs"
proof (induction bs)
  case Nil
  show ?case by simp
next
  case (Cons b bs)
  have "unat b * 256 ^ length bs + be_nat bs < (unat b + 1) * 256 ^ length bs"
    using Cons.IH by simp
  also have "\<dots> \<le> 256 * 256 ^ length bs"
    by (rule mult_right_mono) (use unat_byte_bound [of b] in simp_all)
  finally show ?case by simp
qed

lemma be_nat_to_be: "be_nat (to_be n v) = v mod 256 ^ n"
proof (induction n)
  case 0
  show ?case by simp
next
  case (Suc n)
  have "v mod 256 ^ Suc n = 256 ^ n * (v div 256 ^ n mod 256) + v mod 256 ^ n"
    by (metis mod_mult2_eq mult.commute power_Suc)
  with Suc.IH show ?case by (simp add: unat_of_nat)
qed

lemma be_nat_inject:
  "length xs = length ys \<Longrightarrow> be_nat xs = be_nat ys \<longleftrightarrow> xs = ys"
proof (induction xs ys rule: list_induct2)
  case Nil
  show ?case by simp
next
  case (Cons x xs y ys)
  let ?m = "256 ^ length ys :: nat"
  have lt: "be_nat xs < ?m" "be_nat ys < ?m"
    using be_nat_bound [of xs] be_nat_bound [of ys] Cons.hyps by simp_all
  have "unat x * ?m + be_nat xs = unat y * ?m + be_nat ys \<longleftrightarrow>
      unat x = unat y \<and> be_nat xs = be_nat ys"
  proof
    assume eq: "unat x * ?m + be_nat xs = unat y * ?m + be_nat ys"
    from arg_cong [OF eq, of "\<lambda>v. v div ?m"] have "unat x = unat y"
      using lt by simp
    with eq show "unat x = unat y \<and> be_nat xs = be_nat ys" by simp
  qed simp
  with Cons show ?case by (simp add: word_unat_eq_iff)
qed

lemma to_be_be_nat [simp]: "to_be (length bs) (be_nat bs) = bs"
  by (rule be_nat_inject [THEN iffD1]) (simp_all add: be_nat_to_be be_nat_bound)

lemma to_be_pad: "v < 256 ^ n \<Longrightarrow> to_be (k + n) v = replicate k 0 @ to_be n v"
proof (induction k)
  case (Suc k)
  have "v < 256 ^ (k + n)"
    by (rule order_less_le_trans [OF Suc.prems]) (simp add: power_increasing)
  with Suc show ?case by simp
qed simp

subsection \<open>Integers in the memory of a little-endian host\<close>

text \<open>
  The applications are built for x64, so the octets of an integer in memory are least
  significant first; \<open>mem32 x\<close> is what a \<open>uint8_t*\<close> to a \<open>uint32_t\<close> sees, and
  \<open>load32\<close> is the value of a \<open>uint32_t\<close> laid over four octets.
\<close>

definition byte_of :: "nat \<Rightarrow> 'a::len word \<Rightarrow> u8" where
  "byte_of k x = ucast (drop_bit (8 * k) x)"

definition mem16 :: "u16 \<Rightarrow> bytes" where
  "mem16 x = map (\<lambda>k. byte_of k x) [0..<2]"

definition mem32 :: "u32 \<Rightarrow> bytes" where
  "mem32 x = map (\<lambda>k. byte_of k x) [0..<4]"

definition mem64 :: "u64 \<Rightarrow> bytes" where
  "mem64 x = map (\<lambda>k. byte_of k x) [0..<8]"

fun le_word :: "bytes \<Rightarrow> 'a::len word" where
  "le_word [] = 0"
| "le_word (b # bs) = ucast b OR push_bit 8 (le_word bs)"

definition load16 :: "bytes \<Rightarrow> u16" where
  "load16 bs = le_word (take 2 bs)"

definition load32 :: "bytes \<Rightarrow> u32" where
  "load32 bs = le_word (take 4 bs)"

definition load64 :: "bytes \<Rightarrow> u64" where
  "load64 bs = le_word (take 8 bs)"

declare mem16_def [mem_defs] mem32_def [mem_defs] mem64_def [mem_defs] byte_of_def [mem_defs]
  load16_def [mem_defs] load32_def [mem_defs] load64_def [mem_defs]

lemma length_mem [simp]:
  "length (mem16 x) = 2" "length (mem32 y) = 4" "length (mem64 z) = 8"
  by (simp_all add: mem_defs)

lemma bit_byte_of: "bit (byte_of k x) n \<longleftrightarrow> n < 8 \<and> bit x (8 * k + n)" for x :: "'a::len word"
  by (auto simp: byte_of_def bit_simps dest: bit_imp_le_length)

lemma bit_le_word:
  "bit (le_word bs :: 'a::len word) n \<longleftrightarrow>
     n < LENGTH('a) \<and> n < 8 * length bs \<and> bit (bs ! (n div 8)) (n mod 8)"
proof (induction bs arbitrary: n)
  case Nil
  show ?case by simp
next
  case (Cons b bs)
  have b: "bit b n \<Longrightarrow> n < 8" for n
    by (auto dest: bit_imp_le_length)
  show ?case
  proof (cases "n < 8")
    case True
    then show ?thesis by (auto simp: bit_simps b)
  next
    case False
    then obtain m where n: "n = 8 + m" using le_Suc_ex not_less by blast
    have "\<not> bit b (8 + m)" using b [of "8 + m"] by linarith
    moreover have "(8 + m) div 8 - Suc 0 = m div 8" by presburger
    ultimately show ?thesis by (auto simp: n bit_simps Cons.IH)
  qed
qed

lemma le_word_bytes:
  assumes "LENGTH('a) = 8 * n"
  shows "le_word (map (\<lambda>k. byte_of k x) [0..<n]) = (x :: 'a::len word)"
proof (rule bit_word_eqI)
  fix m
  assume m: "m < LENGTH('a)"
  then have "m div 8 < n" using assms by auto
  moreover have "8 * (m div 8) + m mod 8 = m" by simp
  ultimately show "bit (le_word (map (\<lambda>k. byte_of k x) [0..<n]) :: 'a word) m = bit x m"
    using m assms by (simp add: bit_le_word bit_byte_of)
qed

lemma load_mem [simp]: "load16 (mem16 x) = x" "load32 (mem32 y) = y" "load64 (mem64 z) = z"
  using le_word_bytes [of 2 x] le_word_bytes [of 4 y] le_word_bytes [of 8 z]
  by (simp_all add: load16_def load32_def load64_def mem16_def mem32_def mem64_def take_map)

lemma byte_of_le_word:
  assumes "k < length bs" "8 * length bs \<le> LENGTH('a)"
  shows "byte_of k (le_word bs :: 'a::len word) = bs ! k"
proof (rule bit_word_eqI)
  fix m
  assume "m < LENGTH(8)"
  then have m: "m < 8" by simp
  have "k < length bs" by fact
  then have "8 * k + m < 8 * length bs" using m by linarith
  moreover from m have "(8 * k + m) div 8 = k" "(8 * k + m) mod 8 = m" by simp_all
  ultimately show "bit (byte_of k (le_word bs :: 'a word)) m = bit (bs ! k) m"
    using m assms(2) by (simp add: bit_byte_of bit_le_word)
qed

lemma mem_load:
  "length bs = 2 \<Longrightarrow> mem16 (load16 bs) = bs"
  "length bs = 4 \<Longrightarrow> mem32 (load32 bs) = bs"
  "length bs = 8 \<Longrightarrow> mem64 (load64 bs) = bs"
  by (rule nth_equalityI; simp add: mem16_def mem32_def mem64_def load16_def load32_def load64_def
      byte_of_le_word)+

lemma unat_ucast_up:
  assumes "LENGTH('b) \<le> LENGTH('a)"
  shows "unat (ucast (x :: 'b::len word) :: 'a::len word) = unat x"
proof -
  have "unat x < 2 ^ LENGTH('a)"
    by (rule order_less_le_trans [OF unat_less]) (simp add: power_increasing assms)
  then show ?thesis by (simp add: unsigned_ucast_eq take_bit_nat_eq_self)
qed

lemma le_word_unat:
  assumes "8 * length bs \<le> LENGTH('a)"
  shows "unat (le_word bs :: 'a::len word) = be_nat (rev bs)"
  using assms
proof (induction bs)
  case Nil
  show ?case by simp
next
  case (Cons b bs)
  let ?r = "le_word bs :: 'a word"
  have IH: "unat ?r = be_nat (rev bs)" using Cons by simp
  have bnd: "be_nat (rev bs) < 256 ^ length bs" using be_nat_bound [of "rev bs"] by simp
  have disj: "(ucast b :: 'a word) AND push_bit 8 ?r = 0"
    by (rule bit_word_eqI) (auto simp: bit_simps dest: bit_imp_le_length)
  have "unat b + be_nat (rev bs) * 256 < 256 ^ length (b # bs)"
    using be_nat_bound [of "rev bs @ [b]"] by (simp add: be_nat_append)
  also have "(256 :: nat) ^ length (b # bs) = 2 ^ (8 * length (b # bs))"
    by (simp add: power_add power_mult)
  also have "\<dots> \<le> 2 ^ LENGTH('a)" using Cons.prems by (intro power_increasing) auto
  finally have lt: "unat b + be_nat (rev bs) * 256 < 2 ^ LENGTH('a)" .
  have "unat (push_bit 8 ?r) = take_bit LENGTH('a) (push_bit 8 (unat ?r))"
    by (rule unsigned_push_bit_eq)
  then have up: "unat (push_bit 8 ?r) = be_nat (rev bs) * 256"
    using lt by (simp only: IH push_bit_eq_mult) (simp add: take_bit_nat_eq_self)
  have ub: "unat (ucast b :: 'a word) = unat b"
    by (rule unat_ucast_up) (use Cons.prems in simp)
  have "unat (ucast b OR push_bit 8 ?r) = unat (ucast b + push_bit 8 ?r)"
    using disj by (simp add: disjunctive_add_eq_or)
  also have "\<dots> = unat b + be_nat (rev bs) * 256"
    using lt ub up by (simp add: unat_word_ariths take_bit_nat_eq_self)
  finally show ?case by (simp add: be_nat_append)
qed

lemma div_mod_split: "a = B * q + r \<Longrightarrow> r < B \<Longrightarrow> a div B = q \<and> a mod B = r" for a :: nat
  by simp

lemma div_mod_absorb:
  fixes a :: nat
  assumes "a mod B + d < B"
  shows "(a + d) div B = a div B" "(a + d) mod B = a mod B + d"
proof -
  have "a + d = B * (a div B) + (a mod B + d)" by simp
  from div_mod_split [OF this assms]
  show "(a + d) div B = a div B" "(a + d) mod B = a mod B + d" by simp_all
qed

subsection \<open>Bounds-checked reads\<close>

definition slice :: "nat \<Rightarrow> nat \<Rightarrow> 'a list \<Rightarrow> 'a list option" where
  "slice off n xs = (if off + n \<le> length xs then Some (take n (drop off xs)) else None)"

lemma slice_length: "slice off n xs = Some ys \<Longrightarrow> length ys = n"
  by (auto simp: slice_def split: if_splits)

lemma slice_Some: "off + n \<le> length xs \<Longrightarrow> slice off n xs = Some (take n (drop off xs))"
  by (simp add: slice_def)

lemma slice_None_iff: "slice off n xs = None \<longleftrightarrow> length xs < off + n"
  by (auto simp: slice_def)

text \<open>Writing a list over a part of another.\<close>

definition overwrite :: "nat \<Rightarrow> 'a list \<Rightarrow> 'a list \<Rightarrow> 'a list" where
  "overwrite off b d = take off d @ b @ drop (off + length b) d"

lemma slice_overwrite_below:
  "pos + n \<le> off \<Longrightarrow> off + length b \<le> length d \<Longrightarrow> slice pos n (overwrite off b d) = slice pos n d"
  by (cases b) (auto simp: slice_def overwrite_def drop_take min_def)

lemma slice_overwrite_same: "off + length b \<le> length d \<Longrightarrow> slice off (length b) (overwrite off b d) = Some b"
  by (auto simp: slice_def overwrite_def)

lemma length_overwrite [simp]: "off + length b \<le> length d \<Longrightarrow> length (overwrite off b d) = length d"
  by (simp add: overwrite_def)

lemma overwrite_Nil [simp]: "overwrite off [] d = d"
  by (simp add: overwrite_def)

lemma overwrite_append:
  "off + length a + length b \<le> length d \<Longrightarrow>
   overwrite (off + length a) b (overwrite off a d) = overwrite off (a @ b) d"
  by (simp add: overwrite_def ac_simps)

subsection \<open>C strings\<close>

text \<open>
  A C string is modelled by its octets up to the terminator; \<open>c_str\<close> reads the string that
  starts a buffer, and \<open>is_c_str\<close> says that a list of octets is one.
\<close>

definition c_str :: "bytes \<Rightarrow> bytes" where
  "c_str bs = takeWhile (\<lambda>b. b \<noteq> 0) bs"

definition is_c_str :: "bytes \<Rightarrow> bool" where
  "is_c_str bs = list_all (\<lambda>b. b \<noteq> 0) bs"

definition ascii :: "string \<Rightarrow> bytes" where
  "ascii s = map of_char s"

lemma is_c_str_c_str [simp]: "is_c_str (c_str bs)"
  by (auto simp: is_c_str_def c_str_def list_all_iff dest: set_takeWhileD)

lemma c_str_id: "is_c_str s \<Longrightarrow> c_str (s @ 0 # rest) = s"
  by (induction s) (auto simp: c_str_def is_c_str_def)

lemma is_c_str_append [simp]: "is_c_str (xs @ ys) \<longleftrightarrow> is_c_str xs \<and> is_c_str ys"
  by (simp add: is_c_str_def)

lemma is_c_str_Nil [simp]: "is_c_str []"
  by (simp add: is_c_str_def)

lemma is_c_str_Cons [simp]: "is_c_str (x # xs) \<longleftrightarrow> x \<noteq> 0 \<and> is_c_str xs"
  by (simp add: is_c_str_def)

end
