(* ===== verification/AvbUtil.thy ===== *)
theory AvbUtil
  imports Prelude "HOL-Library.Sublist"
begin

text \<open>
  The helpers of \<open>Application/UefiAvb/libavb/avb_util.c\<close>: byte order, constant-time
  comparison, overflow-checked addition, UTF-8 validation and the string functions.

  The functions that allocate take the allocator as a parameter: \<open>A n w\<close> says whether
  \<open>avb_malloc_(n)\<close> returns memory in the world \<open>w\<close>, and the world after the call
  (\<open>avb_malloc_\<close> is UEFI's \<open>AllocatePool\<close>).  A \<open>NULL\<close> result is \<open>None\<close>.
\<close>

type_synonym 'w alloc = "nat \<Rightarrow> 'w \<Rightarrow> bool \<times> 'w"

text \<open>
  How a call ends: it returns, it stops in \<open>avb_abort\<close> (a failed assertion), it reads
  outside the memory it was given, or its loop has used up the fuel of the model.
\<close>

datatype 'a outcome = Returned 'a | Aborted | Faulted | Unfinished

fun obind :: "'a outcome \<Rightarrow> ('a \<Rightarrow> 'b outcome) \<Rightarrow> 'b outcome" where
  "obind (Returned x) f = f x"
| "obind Aborted f = Aborted"
| "obind Faulted f = Faulted"
| "obind Unfinished f = Unfinished"

text \<open>A checked read and an assertion as outcomes.\<close>

fun checked :: "'a option \<Rightarrow> 'a outcome" where
  "checked (Some x) = Returned x"
| "checked None = Faulted"

definition avb_assert :: "bool \<Rightarrow> unit outcome" where
  "avb_assert b = (if b then Returned () else Aborted)"

lemma avb_assert_simps [simp]: "avb_assert True = Returned ()" "avb_assert False = Aborted"
  by (simp_all add: avb_assert_def)

lemma obind_Returned_iff: "obind m f = Returned y \<longleftrightarrow> (\<exists>x. m = Returned x \<and> f x = Returned y)"
  by (cases m) simp_all

lemma checked_Returned_iff [simp]: "checked v = Returned x \<longleftrightarrow> v = Some x"
  by (cases v) simp_all

lemma avb_assert_Returned_iff [simp]: "avb_assert b = Returned u \<longleftrightarrow> b"
  by (simp add: avb_assert_def)

text \<open>No read outside the memory.\<close>

fun no_fault :: "'a outcome \<Rightarrow> bool" where
  "no_fault Faulted = False"
| "no_fault _ = True"

lemma no_fault_obind:
  "no_fault m \<Longrightarrow> (\<And>x. m = Returned x \<Longrightarrow> no_fault (f x)) \<Longrightarrow> no_fault (obind m f)"
  by (cases m) simp_all

lemma no_fault_checked [simp]: "no_fault (checked v) \<longleftrightarrow> v \<noteq> None"
  by (cases v) simp_all

lemma no_fault_assert [simp]: "no_fault (avb_assert b)"
  by (simp add: avb_assert_def)

text \<open>What holds of the result of a call that returns; the rules unfold a body of calls.\<close>

definition ensures :: "('a \<Rightarrow> bool) \<Rightarrow> 'a outcome \<Rightarrow> bool" where
  "ensures P m \<longleftrightarrow> (\<forall>x. m = Returned x \<longrightarrow> P x)"

lemma ensures_simps [simp]:
  "ensures P (Returned x) = P x"
  "ensures P Aborted" "ensures P Faulted" "ensures P Unfinished"
  "ensures P (checked v) = (\<forall>x. v = Some x \<longrightarrow> P x)"
  "ensures Q (avb_assert b) = (b \<longrightarrow> Q ())"
  by (auto simp: ensures_def obind_Returned_iff)

lemma ensures_obindI: "(\<And>x. m = Returned x \<Longrightarrow> ensures P (f x)) \<Longrightarrow> ensures P (obind m f)"
  by (auto simp: ensures_def obind_Returned_iff)

lemma ensuresD: "ensures P m \<Longrightarrow> m = Returned x \<Longrightarrow> P x"
  by (simp add: ensures_def)

lemma ensuresI: "(\<And>x. m = Returned x \<Longrightarrow> P x) \<Longrightarrow> ensures P m"
  by (simp add: ensures_def)

lemma ensures_mono: "ensures P m \<Longrightarrow> (\<And>x. m = Returned x \<Longrightarrow> P x \<Longrightarrow> Q x) \<Longrightarrow> ensures Q m"
  by (auto simp: ensures_def)

subsection \<open>Byte order\<close>

definition avb_be32toh :: "u32 \<Rightarrow> u32" where
  "avb_be32toh in0 = (let d = mem32 in0 in
     push_bit 24 (ucast (d ! 0)) OR push_bit 16 (ucast (d ! 1)) OR
     push_bit 8 (ucast (d ! 2)) OR ucast (d ! 3))"

definition avb_be64toh :: "u64 \<Rightarrow> u64" where
  "avb_be64toh in0 = (let d = mem64 in0 in
     push_bit 56 (ucast (d ! 0)) OR push_bit 48 (ucast (d ! 1)) OR
     push_bit 40 (ucast (d ! 2)) OR push_bit 32 (ucast (d ! 3)) OR
     push_bit 24 (ucast (d ! 4)) OR push_bit 16 (ucast (d ! 5)) OR
     push_bit 8 (ucast (d ! 6)) OR ucast (d ! 7))"

definition avb_htobe32 :: "u32 \<Rightarrow> u32" where
  "avb_htobe32 in0 = load32
     [ucast (drop_bit 24 in0 AND 0xff), ucast (drop_bit 16 in0 AND 0xff),
      ucast (drop_bit 8 in0 AND 0xff), ucast (in0 AND 0xff)]"

definition avb_htobe64 :: "u64 \<Rightarrow> u64" where
  "avb_htobe64 in0 = load64
     [ucast (drop_bit 56 in0 AND 0xff), ucast (drop_bit 48 in0 AND 0xff),
      ucast (drop_bit 40 in0 AND 0xff), ucast (drop_bit 32 in0 AND 0xff),
      ucast (drop_bit 24 in0 AND 0xff), ucast (drop_bit 16 in0 AND 0xff),
      ucast (drop_bit 8 in0 AND 0xff), ucast (in0 AND 0xff)]"

lemma avb_be32toh_le_word: "avb_be32toh x = le_word (rev (mem32 x))"
  by (simp add: avb_be32toh_def mem32_def Let_def numeral_eq_Suc upt_rec push_bit_push_bit
      push_bit_or ac_simps)

lemma avb_be64toh_le_word: "avb_be64toh x = le_word (rev (mem64 x))"
  by (simp add: avb_be64toh_def mem64_def Let_def numeral_eq_Suc upt_rec push_bit_push_bit
      push_bit_or ac_simps)

lemma ucast_low_byte: "(ucast (drop_bit n x AND 0xff) :: u8) = ucast (drop_bit n x)"
  for x :: "'a::len word"
proof -
  have m: "(0xff :: 'a word) = mask 8" by (simp add: mask_eq_exp_minus_1)
  show ?thesis unfolding m
    by (rule bit_word_eqI) (use bit_imp_le_length in \<open>force simp: bit_simps\<close>)
qed

lemma avb_htobe32_mem: "mem32 (avb_htobe32 x) = rev (mem32 x)"
  using ucast_low_byte [of 0 x]
  by (simp add: avb_htobe32_def mem_load ucast_low_byte)
    (simp add: mem32_def byte_of_def upt_rec numeral_eq_Suc)

lemma avb_htobe64_mem: "mem64 (avb_htobe64 x) = rev (mem64 x)"
  using ucast_low_byte [of 0 x]
  by (simp add: avb_htobe64_def mem_load ucast_low_byte)
    (simp add: mem64_def byte_of_def upt_rec numeral_eq_Suc)

lemma avb_be32toh_be_nat: "unat (avb_be32toh x) = be_nat (mem32 x)"
  by (simp add: avb_be32toh_le_word le_word_unat)

lemma avb_be64toh_be_nat: "unat (avb_be64toh x) = be_nat (mem64 x)"
  by (simp add: avb_be64toh_le_word le_word_unat)

lemma be32_roundtrip [simp]: "avb_be32toh (avb_htobe32 x) = x"
  using load_mem(2) [of x] by (simp add: avb_be32toh_le_word avb_htobe32_mem load32_def)

lemma be64_roundtrip [simp]: "avb_be64toh (avb_htobe64 x) = x"
  using load_mem(3) [of x] by (simp add: avb_be64toh_le_word avb_htobe64_mem load64_def)

lemma be32_load: "length bs = 4 \<Longrightarrow> unat (avb_be32toh (load32 bs)) = be_nat bs"
  by (simp add: avb_be32toh_be_nat mem_load)

lemma be64_load: "length bs = 8 \<Longrightarrow> unat (avb_be64toh (load64 bs)) = be_nat bs"
  by (simp add: avb_be64toh_be_nat mem_load)

lemma htobe_be32_roundtrip: "avb_htobe32 (avb_be32toh x) = x"
proof -
  have "mem32 (avb_htobe32 (avb_be32toh x)) = mem32 x"
    by (simp add: avb_htobe32_mem avb_be32toh_le_word)
      (metis length_mem(2) length_rev load32_def mem_load(2) rev_rev_ident take_all order_refl)
  then show ?thesis by (metis load_mem(2))
qed

subsection \<open>Comparison and checked addition\<close>

fun memcmp_loop :: "u32 \<Rightarrow> bytes \<Rightarrow> bytes \<Rightarrow> nat \<Rightarrow> u32 option" where
  "memcmp_loop r us1 us2 0 = Some r"
| "memcmp_loop r (x # us1) (y # us2) (Suc n) =
     memcmp_loop (r OR (ucast x XOR ucast y)) us1 us2 n"
| "memcmp_loop r us1 us2 (Suc n) = None"

definition avb_safe_memcmp :: "bytes \<Rightarrow> bytes \<Rightarrow> nat \<Rightarrow> int option" where
  "avb_safe_memcmp s1 s2 n =
     (if n = 0 then Some 0
      else map_option (\<lambda>r. if r \<noteq> 0 then 1 else 0) (memcmp_loop 0 s1 s2 n))"

lemma ucast_xor_zero: "(ucast x XOR ucast y :: u32) = 0 \<longleftrightarrow> x = (y :: u8)"
proof -
  have "(ucast x XOR ucast y :: u32) = ucast (x XOR y)"
    by (rule bit_word_eqI) (simp add: bit_simps)
  moreover have "(ucast z :: u32) = 0 \<longleftrightarrow> z = 0" for z :: u8
    using unat_ucast_up [where 'a = 32, of z] by (simp flip: unat_eq_0)
  moreover have "x XOR y = 0 \<longleftrightarrow> x = y"
  proof
    assume "x XOR y = 0"
    then have "(x XOR y) XOR y = 0 XOR y" by (rule arg_cong)
    then show "x = y" by (simp add: xor.assoc)
  qed simp
  ultimately show ?thesis by simp
qed

lemma memcmp_loop_result:
  "n \<le> length s1 \<Longrightarrow> n \<le> length s2 \<Longrightarrow>
     \<exists>r'. memcmp_loop r s1 s2 n = Some r' \<and> (r' = 0 \<longleftrightarrow> r = 0 \<and> take n s1 = take n s2)"
proof (induction r s1 s2 n rule: memcmp_loop.induct)
  case (2 r x us1 y us2 n)
  then show ?case by (auto simp: or_eq_0_iff ucast_xor_zero)
qed auto

lemma avb_safe_memcmp_eq:
  assumes "n \<le> length s1" "n \<le> length s2"
  shows "avb_safe_memcmp s1 s2 n = Some (if take n s1 = take n s2 then 0 else 1)"
  using memcmp_loop_result [OF assms, of 0] by (auto simp: avb_safe_memcmp_def)

text \<open>The pointed-to value is returned beside the result, since the code modifies it in either case.\<close>

definition avb_safe_add_to :: "u64 \<Rightarrow> u64 \<Rightarrow> bool \<times> u64" where
  "avb_safe_add_to value value_to_add =
     (let value' = value + value_to_add in if value' < value then (False, value') else (True, value'))"

definition avb_safe_add :: "u64 \<Rightarrow> u64 \<Rightarrow> bool \<times> u64" where
  "avb_safe_add a b = avb_safe_add_to a b"

lemma word_add_overflow: "a + b < a \<longleftrightarrow> 2 ^ LENGTH('a) \<le> unat a + unat b"
  for a b :: "'a::len word"
proof (cases "unat a + unat b < 2 ^ LENGTH('a)")
  case True
  then show ?thesis by (simp add: word_less_nat_alt unat_word_ariths)
next
  case False
  have "unat a + unat b - 2 ^ LENGTH('a) < 2 ^ LENGTH('a)"
    using unat_less [of a] unat_less [of b] by linarith
  with False have "(unat a + unat b) mod 2 ^ LENGTH('a) = unat a + unat b - 2 ^ LENGTH('a)"
    by (metis leI le_mod_geq mod_less)
  moreover have "unat a + unat b - 2 ^ LENGTH('a) < unat a"
    using unat_less [of b] False by linarith
  ultimately show ?thesis using False by (simp add: word_less_nat_alt unat_word_ariths)
qed

lemma avb_safe_add_to_iff: "fst (avb_safe_add_to a b) \<longleftrightarrow> unat a + unat b < 2 ^ 64"
  using word_add_overflow [of a b] by (simp add: avb_safe_add_to_def Let_def not_less)

lemma avb_safe_add_to_value:
  "fst (avb_safe_add_to a b) \<Longrightarrow> unat (snd (avb_safe_add_to a b)) = unat a + unat b"
  by (subst (asm) avb_safe_add_to_iff) (simp add: avb_safe_add_to_def Let_def unat_word_ariths)

lemma avb_safe_add_iff: "fst (avb_safe_add a b) \<longleftrightarrow> unat a + unat b < 2 ^ 64"
  by (simp add: avb_safe_add_def avb_safe_add_to_iff)

lemma avb_safe_add_value:
  "fst (avb_safe_add a b) \<Longrightarrow> unat (snd (avb_safe_add a b)) = unat a + unat b"
  by (simp add: avb_safe_add_def avb_safe_add_to_value)

lemmas safe_add_simps = avb_safe_add_to_iff avb_safe_add_to_value avb_safe_add_iff avb_safe_add_value

subsection \<open>UTF-8 validation\<close>

fun utf8_loop :: "nat \<Rightarrow> bytes \<Rightarrow> bool" where
  "utf8_loop num_cc [] = (num_cc = 0)"
| "utf8_loop num_cc (c # data) =
     (if num_cc > 0 then
        (if c AND (0x80 OR 0x40) = 0x80 then utf8_loop (num_cc - 1) data else False)
      else if c < 0x80 then utf8_loop 0 data
      else if c AND (0x80 OR 0x40 OR 0x20) = (0x80 OR 0x40) then utf8_loop 1 data
      else if c AND (0x80 OR 0x40 OR 0x20 OR 0x10) = (0x80 OR 0x40 OR 0x20) then utf8_loop 2 data
      else if c AND (0x80 OR 0x40 OR 0x20 OR 0x10 OR 0x08) = (0x80 OR 0x40 OR 0x20 OR 0x10)
        then utf8_loop 3 data
      else False)"

definition avb_validate_utf8 :: "bytes \<Rightarrow> bool" where
  "avb_validate_utf8 data = utf8_loop 0 data"

text \<open>
  The encoding form the loop is meant to accept, in numeric ranges: an ASCII octet, or a lead
  octet followed by as many continuation octets as it announces.
\<close>

definition utf8_cont :: "u8 \<Rightarrow> bool" where
  "utf8_cont c \<longleftrightarrow> 0x80 \<le> c \<and> c \<le> 0xBF"

definition utf8_lead :: "u8 \<Rightarrow> nat option" where
  "utf8_lead c =
     (if c \<le> 0x7F then Some 0
      else if 0xC0 \<le> c \<and> c \<le> 0xDF then Some 1
      else if 0xE0 \<le> c \<and> c \<le> 0xEF then Some 2
      else if 0xF0 \<le> c \<and> c \<le> 0xF7 then Some 3 else None)"

inductive utf8_text :: "bytes \<Rightarrow> bool" where
  utf8_empty: "utf8_text []"
| utf8_char: "utf8_lead c = Some (length cs) \<Longrightarrow> list_all utf8_cont cs \<Longrightarrow> utf8_text rest \<Longrightarrow>
     utf8_text (c # cs @ rest)"

inductive_cases utf8_text_ConsE: "utf8_text (c # data)"

lemma unat_and_not_mask: "unat (c AND NOT (mask n)) = unat c div 2 ^ n * 2 ^ n"
  for c :: "'a::len word"
proof -
  have "c AND NOT (mask n) = push_bit n (drop_bit n c)"
    by (rule bit_word_eqI) (auto simp: bit_simps)
  then have "unat (c AND NOT (mask n)) = take_bit LENGTH('a) (push_bit n (drop_bit n (unat c)))"
    by (simp only: unsigned_push_bit_eq unsigned_drop_bit_eq take_bit_nat_eq_self [OF unat_less])
  moreover have "unat c div 2 ^ n * 2 ^ n < 2 ^ LENGTH('a)"
    by (rule order_le_less_trans [OF _ unat_less [of c]]) simp
  ultimately show ?thesis
    by (simp only: push_bit_eq_mult drop_bit_eq_div take_bit_nat_eq_self)
qed

lemma utf8_cont_unat: "utf8_cont c \<longleftrightarrow> 128 \<le> unat c \<and> unat c \<le> 191"
  by (simp add: utf8_cont_def word_le_nat_alt)

lemma utf8_lead_unat:
  "utf8_lead c = Some 0 \<longleftrightarrow> unat c \<le> 127"
  "utf8_lead c = Some 1 \<longleftrightarrow> 192 \<le> unat c \<and> unat c \<le> 223"
  "utf8_lead c = Some 2 \<longleftrightarrow> 224 \<le> unat c \<and> unat c \<le> 239"
  "utf8_lead c = Some 3 \<longleftrightarrow> 240 \<le> unat c \<and> unat c \<le> 247"
  by (simp_all add: utf8_lead_def word_le_nat_alt)

lemma div_mult_range: "0 < k \<Longrightarrow> x div k * k = q * k \<longleftrightarrow> q * k \<le> x \<and> x < q * k + k" for x :: nat
  by (metis add.commute div_nat_eqI div_times_less_eq_dividend dividend_less_div_times
      mult.commute mult_Suc_right mult_cancel1 not_gr_zero)

lemma high_bits_eq:
  fixes c :: u8
  assumes "m = NOT (mask n)" "unat v = q * 2 ^ n"
  shows "c AND m = v \<longleftrightarrow> q * 2 ^ n \<le> unat c \<and> unat c < q * 2 ^ n + 2 ^ n"
  using div_mult_range [of "2 ^ n" "unat c" q] assms(2)
  by (simp add: assms(1) word_unat_eq_iff unat_and_not_mask)

lemma utf8_masks:
  "c AND 0xC0 = 0x80 \<longleftrightarrow> utf8_cont c"
  "c < 0x80 \<longleftrightarrow> utf8_lead c = Some 0"
  "c AND 0xE0 = 0xC0 \<longleftrightarrow> utf8_lead c = Some 1"
  "c AND 0xF0 = 0xE0 \<longleftrightarrow> utf8_lead c = Some 2"
  "c AND 0xF8 = 0xF0 \<longleftrightarrow> utf8_lead c = Some 3"
proof -
  show "c AND 0xC0 = 0x80 \<longleftrightarrow> utf8_cont c"
    using high_bits_eq [of "0xC0" 6 "0x80" 2 c] by (auto simp: mask_eq_exp_minus_1 utf8_cont_unat)
  show "c < 0x80 \<longleftrightarrow> utf8_lead c = Some 0"
    by (auto simp: utf8_lead_unat word_less_nat_alt)
  show "c AND 0xE0 = 0xC0 \<longleftrightarrow> utf8_lead c = Some 1"
    unfolding utf8_lead_unat
    using high_bits_eq [of "0xE0" 5 "0xC0" 6 c] by (auto simp: mask_eq_exp_minus_1)
  show "c AND 0xF0 = 0xE0 \<longleftrightarrow> utf8_lead c = Some 2"
    using high_bits_eq [of "0xF0" 4 "0xE0" 14 c] by (auto simp: mask_eq_exp_minus_1 utf8_lead_unat)
  show "c AND 0xF8 = 0xF0 \<longleftrightarrow> utf8_lead c = Some 3"
    using high_bits_eq [of "0xF8" 3 "0xF0" 30 c] by (auto simp: mask_eq_exp_minus_1 utf8_lead_unat)
qed

lemma utf8_loop_Cons:
  "utf8_loop n (c # data) =
     (if n > 0 then utf8_cont c \<and> utf8_loop (n - 1) data
      else (case utf8_lead c of None \<Rightarrow> False | Some k \<Rightarrow> utf8_loop k data))"
  using utf8_masks [of c] by (auto simp: utf8_lead_def split: if_splits)

lemma utf8_loop_cont:
  "utf8_loop n data \<longleftrightarrow> n \<le> length data \<and> list_all utf8_cont (take n data) \<and> utf8_loop 0 (drop n data)"
proof (induction n arbitrary: data)
  case (Suc n)
  then show ?case by (cases data) (auto simp del: utf8_loop.simps(2) simp add: utf8_loop_Cons)
qed simp

lemma utf8_loop_append:
  "list_all utf8_cont cs \<Longrightarrow> utf8_loop (length cs) (cs @ rest) = utf8_loop 0 rest"
  by (simp add: utf8_loop_cont [of "length cs"])

lemma avb_validate_utf8_text: "avb_validate_utf8 data \<longleftrightarrow> utf8_text data"
proof
  show "avb_validate_utf8 data \<Longrightarrow> utf8_text data"
  proof (induction data rule: length_induct)
    case (1 data)
    show ?case
    proof (cases data)
      case Nil
      then show ?thesis by (simp add: utf8_empty)
    next
      case (Cons c data')
      with "1.prems" obtain k where k: "utf8_lead c = Some k" "utf8_loop k data'"
        by (auto simp: avb_validate_utf8_def utf8_loop_Cons simp del: utf8_loop.simps(2)
            split: option.splits)
      then have parts: "k \<le> length data'" "list_all utf8_cont (take k data')"
          "avb_validate_utf8 (drop k data')"
        by (auto simp: avb_validate_utf8_def utf8_loop_cont [of k])
      with "1.IH" Cons have "utf8_text (drop k data')" by simp
      then have "utf8_text (c # take k data' @ drop k data')"
        using k(1) parts by (intro utf8_char) simp_all
      then show ?thesis by (simp add: Cons)
    qed
  qed
next
  show "utf8_text data \<Longrightarrow> avb_validate_utf8 data"
    by (induction rule: utf8_text.induct)
      (simp_all add: avb_validate_utf8_def utf8_loop_Cons utf8_loop_append del: utf8_loop.simps(2))
qed

subsection \<open>Buffers and allocation\<close>

text \<open>
  \<open>avb_str_concat\<close> writes into the caller's buffer \<open>buf\<close> of \<open>buf_size\<close> octets; the
  sizes are the lengths of the lists, and the arithmetic on them is the code's 64-bit one.
\<close>

definition avb_str_concat :: "bytes \<Rightarrow> bytes \<Rightarrow> bytes \<Rightarrow> bool \<times> bytes" where
  "avb_str_concat buf str1 str2 =
     (let buf_size = of_nat (length buf) :: u64;
          (ok, combined_len) = avb_safe_add (of_nat (length str1)) (of_nat (length str2))
      in if \<not> ok then (False, buf)
         else if combined_len > buf_size - 1 then (False, buf)
         else (True, str1 @ str2 @ [0] @ drop (length str1 + length str2 + 1) buf))"

definition avb_malloc :: "'w alloc \<Rightarrow> nat \<Rightarrow> 'w \<Rightarrow> bool \<times> 'w" where
  "avb_malloc A size0 w = A size0 w"

definition avb_calloc :: "'w alloc \<Rightarrow> nat \<Rightarrow> 'w \<Rightarrow> bytes option \<times> 'w" where
  "avb_calloc A size0 w = (let (ret, w') = avb_malloc A size0 w in
     if \<not> ret then (None, w') else (Some (replicate size0 0), w'))"

definition avb_strdup :: "'w alloc \<Rightarrow> bytes \<Rightarrow> 'w \<Rightarrow> bytes option \<times> 'w" where
  "avb_strdup A str w = (let (ret, w') = avb_malloc A (length str + 1) w in
     if \<not> ret then (None, w') else (Some str, w'))"

definition AVB_STRDUPV_MAX_NUM_STRINGS :: nat where
  "AVB_STRDUPV_MAX_NUM_STRINGS = 32"

text \<open>
  The first loop of \<open>avb_strdupv\<close> measures the arguments and aborts on the 32nd, the second
  copies them.  \<open>avb_fatal\<close> does not return (\<open>avb_abort\<close>), which is \<open>Aborted\<close>.
\<close>

fun strdupv_measure :: "nat \<Rightarrow> u64 \<Rightarrow> bytes list \<Rightarrow> u64 outcome" where
  "strdupv_measure num_strings total_length [] = Returned total_length"
| "strdupv_measure num_strings total_length (str # strs) =
     (let (ok, total') = avb_safe_add_to total_length (of_nat (length str)) in
      if \<not> ok then Aborted
      else if num_strings + 1 = AVB_STRDUPV_MAX_NUM_STRINGS then Aborted
      else strdupv_measure (num_strings + 1) total' strs)"

definition avb_strdupv :: "'w alloc \<Rightarrow> bytes list \<Rightarrow> 'w \<Rightarrow> (bytes option \<times> 'w) outcome" where
  "avb_strdupv A strs w = obind (strdupv_measure 0 0 strs) (\<lambda>total_length.
     let (ret, w') = avb_malloc A (unat (total_length + 1)) w in
     Returned (if \<not> ret then (None, w') else (Some (concat strs), w')))"

subsection \<open>Searching and replacing\<close>

definition c_head :: "bytes \<Rightarrow> u8" where
  "c_head s = (case s of [] \<Rightarrow> 0 | c # cs \<Rightarrow> c)"

fun strstr_match :: "bytes \<Rightarrow> bytes \<Rightarrow> bool" where
  "strstr_match haystack [] = True"
| "strstr_match [] (m # needle) = False"
| "strstr_match (h # haystack) (m # needle) = (h = m \<and> strstr_match haystack needle)"

fun avb_strstr :: "bytes \<Rightarrow> bytes \<Rightarrow> nat option" where
  "avb_strstr [] needle = None"
| "avb_strstr (h # haystack) needle =
     (if h = 0 then None
      else if h \<noteq> c_head needle then map_option Suc (avb_strstr haystack needle)
      else if strstr_match haystack (tl needle) then Some 0
      else map_option Suc (avb_strstr haystack needle))"

definition avb_strv_find_str :: "bytes list \<Rightarrow> bytes \<Rightarrow> nat \<Rightarrow> bytes option" where
  "avb_strv_find_str strings str str_size =
     find (\<lambda>s. length s = str_size \<and> take str_size s = take str_size str) strings"

lemma strstr_match_prefix: "strstr_match hs ns \<longleftrightarrow> prefix ns hs"
  by (induction hs ns rule: strstr_match.induct) auto

lemma avb_strstr_Some:
  "avb_strstr hs ns = Some k \<Longrightarrow>
     ns \<noteq> [] \<and> k < length hs \<and> prefix ns (drop k hs) \<and> (\<forall>j < k. \<not> prefix ns (drop j hs))"
proof (induction hs ns arbitrary: k rule: avb_strstr.induct)
  case (2 h hs ns)
  then have neq: "h \<noteq> 0" by auto
  show ?case
  proof (cases "h = c_head ns \<and> strstr_match hs (tl ns)")
    case True
    with "2.prems" neq show ?thesis
      by (auto simp: c_head_def strstr_match_prefix split: list.splits)
  next
    case False
    with "2.prems" neq obtain k' where k: "k = Suc k'" "avb_strstr hs ns = Some k'"
      by (auto split: if_splits)
    have IH: "ns \<noteq> [] \<and> k' < length hs \<and> prefix ns (drop k' hs) \<and> (\<forall>j < k'. \<not> prefix ns (drop j hs))"
      using "2.IH" False k neq by (cases "h \<noteq> c_head ns") auto
    have "\<not> prefix ns (h # hs)"
      using False IH by (cases ns) (auto simp: c_head_def strstr_match_prefix)
    then show ?thesis using IH by (auto simp: k less_Suc_eq_0_disj)
  qed
qed simp

lemma avb_strstr_None:
  "avb_strstr hs ns = None \<Longrightarrow> is_c_str hs \<Longrightarrow> ns \<noteq> [] \<Longrightarrow> \<not> prefix ns (drop k hs)"
proof (induction hs ns arbitrary: k rule: avb_strstr.induct)
  case (2 h hs ns)
  then have no: "\<not> (h = c_head ns \<and> strstr_match hs (tl ns))" and "avb_strstr hs ns = None"
    by (auto split: if_splits)
  then have IH: "\<not> prefix ns (drop j hs)" for j
    using "2.IH" "2.prems" by (cases "h \<noteq> c_head ns") auto
  have "\<not> prefix ns (h # hs)"
    using no "2.prems" by (cases ns) (auto simp: c_head_def strstr_match_prefix)
  with IH show ?case by (cases k) auto
qed simp

lemma avb_strstr_empty_needle: "avb_strstr hs [] = None"
  by (induction hs) (auto simp: c_head_def)

lemma is_c_str_drop [simp]: "is_c_str s \<Longrightarrow> is_c_str (drop k s)"
  by (auto simp: is_c_str_def list_all_iff dest: in_set_dropD)

lemma is_c_str_take [simp]: "is_c_str s \<Longrightarrow> is_c_str (take k s)"
  by (auto simp: is_c_str_def list_all_iff dest: in_set_takeD)

text \<open>
  The loop of \<open>avb_replace\<close>.  \<open>Inl\<close> is a jump to \<open>out\<close>, with the value of \<open>ret\<close>
  there; \<open>Inr\<close> is the end of the loop, with \<open>str_after_last_replace\<close> and \<open>ret\<close>.
\<close>

function replace_loop ::
  "'w alloc \<Rightarrow> bytes \<Rightarrow> bytes \<Rightarrow> bytes \<Rightarrow> bytes option \<Rightarrow> 'w
     \<Rightarrow> (bytes option \<times> 'w) + (bytes \<times> bytes option \<times> 'w)" where
  "replace_loop A search replace0 str ret w =
     (case avb_strstr str search of
        None \<Rightarrow> Inr (str, ret, w)
      | Some num_before \<Rightarrow>
          (let old = (case ret of None \<Rightarrow> [] | Some r \<Rightarrow> r);
               num_new = length old + num_before + length replace0 + 1;
               (ok, w') = avb_malloc A num_new w
           in if \<not> ok then Inl (ret, w')
              else replace_loop A search replace0 (drop (num_before + length search) str)
                     (Some (old @ take num_before str @ replace0)) w'))"
  by pat_completeness auto
termination
  by (relation "measure (\<lambda>(A, search, replace0, str, ret, w). length str)")
    (auto dest!: avb_strstr_Some intro!: diff_less)

declare replace_loop.simps [simp del]

definition avb_replace :: "'w alloc \<Rightarrow> bytes \<Rightarrow> bytes \<Rightarrow> bytes \<Rightarrow> 'w \<Rightarrow> bytes option \<times> 'w" where
  "avb_replace A str search replace0 w =
     (case replace_loop A search replace0 str None w of
        Inl (ret, w') \<Rightarrow> (ret, w')
      | Inr (str_after_last_replace, None, w') \<Rightarrow> avb_strdup A str_after_last_replace w'
      | Inr (str_after_last_replace, Some ret, w') \<Rightarrow>
          (let (ok, w'') = avb_malloc A (length ret + length str_after_last_replace + 1) w'
           in if \<not> ok then (Some ret, w'') else (Some (ret @ str_after_last_replace), w'')))"

text \<open>What replacing every occurrence, leftmost first and without overlap, means.\<close>

function replace_spec :: "bytes \<Rightarrow> bytes \<Rightarrow> bytes \<Rightarrow> bytes" where
  "replace_spec search replace0 [] = []"
| "replace_spec search replace0 (h # hs) =
     (if search \<noteq> [] \<and> prefix search (h # hs)
      then replace0 @ replace_spec search replace0 (drop (length search) (h # hs))
      else h # replace_spec search replace0 hs)"
  by pat_completeness auto
termination
  by (relation "measure (\<lambda>(search, replace0, str). length str)") auto

declare replace_spec.simps(2) [simp del]

lemma replace_spec_skip:
  "\<forall>j < k. \<not> prefix search (drop j str) \<Longrightarrow> k \<le> length str \<Longrightarrow>
     replace_spec search repl str = take k str @ replace_spec search repl (drop k str)"
proof (induction k arbitrary: str)
  case (Suc k)
  then obtain h hs where str: "str = h # hs" by (cases str) auto
  have "\<not> prefix search (h # hs)" using Suc.prems(1) by (auto simp: str dest: spec [of _ 0])
  moreover have "replace_spec search repl hs = take k hs @ replace_spec search repl (drop k hs)"
    using Suc.prems by (intro Suc.IH) (auto simp: str)
  ultimately show ?case by (simp add: str replace_spec.simps(2))
qed simp

lemma replace_spec_none:
  "avb_strstr str search = None \<Longrightarrow> is_c_str str \<Longrightarrow> replace_spec search repl str = str"
proof (cases "search = []")
  case True
  then show "replace_spec search repl str = str"
    by (induction str) (auto simp: replace_spec.simps(2))
next
  case False
  assume "avb_strstr str search = None" "is_c_str str"
  with False avb_strstr_None have "\<forall>j < length str. \<not> prefix search (drop j str)" by blast
  from replace_spec_skip [OF this] show "replace_spec search repl str = str" by simp
qed

lemma replace_loop_spec:
  assumes "\<And>n w. fst (A n w)" "is_c_str str"
  shows "\<exists>rest ret' w'. replace_loop A search repl str ret w = Inr (rest, ret', w') \<and>
     (case ret' of None \<Rightarrow> ret = None \<and> rest = str \<and> replace_spec search repl str = str
      | Some r \<Rightarrow> r @ rest = (case ret of None \<Rightarrow> [] | Some r \<Rightarrow> r) @ replace_spec search repl str)"
  using assms
proof (induction A search repl str ret w rule: replace_loop.induct)
  case (1 A search repl str ret w)
  show ?case
  proof (cases "avb_strstr str search")
    case None
    with "1.prems"(2) replace_spec_none show ?thesis
      by (auto simp: replace_loop.simps [of A] split: option.splits)
  next
    case (Some k)
    note hit = avb_strstr_Some [OF Some]
    let ?old = "case ret of None \<Rightarrow> [] | Some r \<Rightarrow> r"
    obtain w' where w': "avb_malloc A (length ?old + k + length repl + 1) w = (True, w')"
      using "1.prems"(1) [of "length ?old + k + length repl + 1" w]
      by (cases "A (length ?old + k + length repl + 1) w") (simp add: avb_malloc_def)
    let ?str' = "drop (k + length search) str" and ?ret' = "Some (?old @ take k str @ repl)"
    have unf: "replace_loop A search repl str ret w = replace_loop A search repl ?str' ?ret' w'"
      unfolding replace_loop.simps [of A search repl str ret w]
      by (simp only: Some option.case Let_def w' split_conv not_True_eq_False if_False)
    have "?str' = drop (length search) (drop k str)" by (simp add: add.commute)
    then have "replace_spec search repl (drop k str) = repl @ replace_spec search repl ?str'"
      using hit by (cases "drop k str") (auto simp: replace_spec.simps(2) simp del: drop_drop)
    then have spec: "replace_spec search repl str = take k str @ repl @ replace_spec search repl ?str'"
      using replace_spec_skip [of k search str repl] hit by simp
    have "is_c_str ?str'" using "1.prems"(2) by simp
    then obtain rest r w'' where
      "replace_loop A search repl ?str' ?ret' w' = Inr (rest, Some r, w'')"
      "r @ rest = ?old @ take k str @ repl @ replace_spec search repl ?str'"
      using "1.IH" [OF Some refl refl w' [symmetric] refl] "1.prems"(1)
      by (auto split: option.splits)
    then show ?thesis by (simp add: unf spec)
  qed
qed

lemma avb_replace_spec:
  assumes "\<And>n w. fst (A n w)" "is_c_str str"
  shows "fst (avb_replace A str search repl w) = Some (replace_spec search repl str)"
proof -
  have ok: "avb_malloc A n w = (True, snd (A n w))" for n w
    using assms(1) [of n w] by (simp add: avb_malloc_def prod_eq_iff)
  obtain rest ret' w' where "replace_loop A search repl str None w = Inr (rest, ret', w')"
    "case ret' of None \<Rightarrow> rest = str \<and> replace_spec search repl str = str
      | Some r \<Rightarrow> r @ rest = replace_spec search repl str"
    using replace_loop_spec [where A = A and ret = None, OF assms, of search repl w]
    by (auto split: option.splits)
  then show ?thesis by (auto simp: avb_replace_def avb_strdup_def ok split: option.splits)
qed

subsection \<open>Basename, uppercase, hexadecimal\<close>

text \<open>The loop counts \<open>n\<close> down from \<open>len - 2\<close> to 0; the argument here is \<open>n + 1\<close>.\<close>

fun basename_loop :: "bytes \<Rightarrow> nat \<Rightarrow> bytes option" where
  "basename_loop str 0 = None"
| "basename_loop str (Suc n) =
     (if str ! n = 0x2F then Some (drop (n + 1) str) else basename_loop str n)"

definition avb_basename :: "bytes \<Rightarrow> bytes" where
  "avb_basename str =
     (if length str \<ge> 2 then
        (case basename_loop str (length str - 1) of Some r \<Rightarrow> r | None \<Rightarrow> str)
      else str)"

definition avb_uppercase :: "bytes \<Rightarrow> bytes" where
  "avb_uppercase str = map (\<lambda>c. if c \<le> 0x7A \<and> c \<ge> 0x61 then c - 0x20 else c) str"

definition hex_digits :: bytes where
  "hex_digits = ascii ''0123456789abcdef''"

definition avb_bin2hex :: "'w alloc \<Rightarrow> bytes \<Rightarrow> 'w \<Rightarrow> bytes option \<times> 'w" where
  "avb_bin2hex A data w =
     (let (ok, w') = avb_malloc A (length data * 2 + 1) w in
      if \<not> ok then (None, w')
      else (Some (concat (map (\<lambda>b. [hex_digits ! unat (drop_bit 4 b), hex_digits ! unat (b AND 0x0f)]) data)), w'))"

lemma basename_loop_result:
  "n \<le> length str \<Longrightarrow>
   (case basename_loop str n of
      None \<Rightarrow> 0x2F \<notin> set (take n str)
    | Some r \<Rightarrow> \<exists>dir name. take n str = dir @ [0x2F] @ name \<and> 0x2F \<notin> set name \<and> r = name @ drop n str)"
proof (induction str n rule: basename_loop.induct)
  case (2 str n)
  have t: "take (Suc n) str = take n str @ [str ! n]"
    using "2.prems" by (simp add: take_Suc_conv_app_nth)
  have d: "drop n str = str ! n # drop (Suc n) str"
    using "2.prems" by (simp add: Cons_nth_drop_Suc)
  show ?case
  proof (cases "str ! n = 0x2F")
    case True
    then show ?thesis by (auto simp: t intro!: exI [of _ "[]"])
  next
    case False
    with "2" have IH: "case basename_loop str n of
      None \<Rightarrow> 0x2F \<notin> set (take n str)
    | Some r \<Rightarrow> \<exists>dir name. take n str = dir @ [0x2F] @ name \<and> 0x2F \<notin> set name \<and> r = name @ drop n str"
      by simp
    show ?thesis
    proof (cases "basename_loop str n")
      case None
      with IH False show ?thesis by (simp add: t)
    next
      case (Some r)
      with IH obtain dir name where
        "take n str = dir @ [0x2F] @ name" "0x2F \<notin> set name" "r = name @ drop n str" by auto
      then have "take (Suc n) str = dir @ [0x2F] @ (name @ [str ! n])"
        "0x2F \<notin> set (name @ [str ! n])" "r = (name @ [str ! n]) @ drop (Suc n) str"
        using False by (simp_all add: t d)
      with False Some show ?thesis by (auto simp del: append_assoc)
    qed
  qed
qed simp

text \<open>Decoding of hexadecimal, to state that the encoding loses nothing.\<close>

definition hex_value :: "u8 \<Rightarrow> u8" where
  "hex_value c = (if c \<le> 0x39 then c - 0x30 else c - 0x57)"

fun hex_decode :: "bytes \<Rightarrow> bytes" where
  "hex_decode (a # b # cs) = (push_bit 4 (hex_value a) OR hex_value b) # hex_decode cs"
| "hex_decode cs = []"

lemma nibble_bounds: "unat (drop_bit 4 b) < 16" "unat (b AND 0x0f) < 16" for b :: u8
proof -
  show "unat (drop_bit 4 b) < 16"
    using unat_byte_bound [of b] by (simp only: unat_drop_bit) simp
  have "b AND 0x0f = take_bit 4 b" by (simp add: take_bit_eq_mask mask_eq_exp_minus_1)
  then show "unat (b AND 0x0f) < 16"
    using take_bit_nat_less_exp [of 4 "unat b"] by (simp add: unsigned_take_bit_eq)
qed

lemma hex_value_digit: "n < 16 \<Longrightarrow> hex_value (hex_digits ! n) = word_of_nat n"
proof -
  have "\<forall>n \<in> set [0..<16]. hex_value (hex_digits ! n) = word_of_nat n" by code_simp
  then show "n < 16 \<Longrightarrow> hex_value (hex_digits ! n) = word_of_nat n" by simp
qed

lemma hex_digits_chars: "n < 16 \<Longrightarrow> hex_digits ! n \<noteq> 0"
proof -
  have "\<forall>n \<in> set [0..<16]. hex_digits ! n \<noteq> 0" by code_simp
  then show "n < 16 \<Longrightarrow> hex_digits ! n \<noteq> 0" by simp
qed

lemma nibbles: "push_bit 4 (drop_bit 4 b) OR (b AND 0x0f) = b" for b :: u8
proof -
  have "b AND 0x0f = take_bit 4 b" by (simp add: take_bit_eq_mask mask_eq_exp_minus_1)
  then show ?thesis by (auto intro!: bit_word_eqI simp: bit_simps)
qed

lemma hex_decode_encode:
  "hex_decode (concat (map (\<lambda>b. [hex_digits ! unat (drop_bit 4 b), hex_digits ! unat (b AND 0x0f)]) data)) = data"
  by (induction data) (simp_all add: hex_value_digit nibble_bounds nibbles)

lemma avb_bin2hex_result:
  "avb_bin2hex A data w = (Some hex, w') \<Longrightarrow>
     hex_decode hex = data \<and> length hex = 2 * length data \<and> is_c_str hex"
proof -
  assume "avb_bin2hex A data w = (Some hex, w')"
  then have hex: "hex = concat (map (\<lambda>b. [hex_digits ! unat (drop_bit 4 b), hex_digits ! unat (b AND 0x0f)]) data)"
    by (auto simp: avb_bin2hex_def split: prod.splits if_splits)
  have "length hex = 2 * length data \<and> is_c_str hex" unfolding hex
    by (induction data) (simp_all add: hex_digits_chars nibble_bounds)
  then show ?thesis using hex_decode_encode [of data] hex by simp
qed

subsection \<open>Properties\<close>

text \<open>
  \<open>avb_validate_utf8\<close> accepts exactly the octet strings made of well-formed UTF-8
  characters: a leading octet followed by the continuation octets it announces.
\<close>
theorem validate_utf8_correct: "avb_validate_utf8 data \<longleftrightarrow> utf8_text data"
  by (rule avb_validate_utf8_text)

end
