(* ===== verification/AvbSha256.thy ===== *)
theory AvbSha256
  imports AvbUtil
begin

text \<open>
  \<open>Application/UefiAvb/libavb/avb_sha256.c\<close> as the module is built (\<open>UNROLL_LOOPS\<close> is
  not defined, so the loops are the ones of the \<open>#ifndef\<close> branches): the streaming context,
  \<open>init\<close>, \<open>update\<close>, \<open>final\<close>.  The reference is the one-shot hash of the padded
  message, and the main result is that any sequence of updates followed by \<open>final\<close> computes
  it, for messages shorter than \<open>2 ^ 29\<close> octets (the length field the code writes has 32 bits).
\<close>

subsection \<open>Functions of the compression\<close>

definition SHFR :: "'a::len word \<Rightarrow> nat \<Rightarrow> 'a word" where
  "SHFR x n = drop_bit n x"

definition ROTR :: "'a::len word \<Rightarrow> nat \<Rightarrow> 'a word" where
  "ROTR x n = drop_bit n x OR push_bit (LENGTH('a) - n) x"

definition CH :: "'a::len word \<Rightarrow> 'a word \<Rightarrow> 'a word \<Rightarrow> 'a word" where
  "CH x y z = (x AND y) XOR (NOT x AND z)"

definition MAJ :: "'a::len word \<Rightarrow> 'a word \<Rightarrow> 'a word \<Rightarrow> 'a word" where
  "MAJ x y z = (x AND y) XOR (x AND z) XOR (y AND z)"

definition SHA256_F1 :: "u32 \<Rightarrow> u32" where
  "SHA256_F1 x = ROTR x 2 XOR ROTR x 13 XOR ROTR x 22"

definition SHA256_F2 :: "u32 \<Rightarrow> u32" where
  "SHA256_F2 x = ROTR x 6 XOR ROTR x 11 XOR ROTR x 25"

definition SHA256_F3 :: "u32 \<Rightarrow> u32" where
  "SHA256_F3 x = ROTR x 7 XOR ROTR x 18 XOR SHFR x 3"

definition SHA256_F4 :: "u32 \<Rightarrow> u32" where
  "SHA256_F4 x = ROTR x 17 XOR ROTR x 19 XOR SHFR x 10"

definition UNPACK32 :: "u32 \<Rightarrow> bytes" where
  "UNPACK32 x = [ucast (drop_bit 24 x), ucast (drop_bit 16 x), ucast (drop_bit 8 x), ucast x]"

definition PACK32 :: "bytes \<Rightarrow> u32" where
  "PACK32 str = ucast (str ! 3) OR push_bit 8 (ucast (str ! 2)) OR
     push_bit 16 (ucast (str ! 1)) OR push_bit 24 (ucast (str ! 0))"

definition sha256_h0 :: "u32 list" where
  "sha256_h0 = [1779033703, 3144134277, 1013904242, 2773480762,
                1359893119, 2600822924, 528734635, 1541459225]"

definition sha256_k :: "u32 list" where
  "sha256_k = [
   1116352408, 1899447441, 3049323471, 3921009573, 961987163, 1508970993,
   2453635748, 2870763221, 3624381080, 310598401, 607225278, 1426881987,
   1925078388, 2162078206, 2614888103, 3248222580, 3835390401, 4022224774,
   264347078, 604807628, 770255983, 1249150122, 1555081692, 1996064986,
   2554220882, 2821834349, 2952996808, 3210313671, 3336571891, 3584528711,
   113926993, 338241895, 666307205, 773529912, 1294757372, 1396182291,
   1695183700, 1986661051, 2177026350, 2456956037, 2730485921, 2820302411,
   3259730800, 3345764771, 3516065817, 3600352804, 4094571909, 275423344,
   430227734, 506948616, 659060556, 883997877, 958139571, 1322822218,
   1537002063, 1747873779, 1955562222, 2024104815, 2227730452, 2361852424,
   2428436474, 2756734187, 3204031479, 3329325298]"

definition SHA256_SCR :: "nat \<Rightarrow> u32 list \<Rightarrow> u32" where
  "SHA256_SCR i w = SHA256_F4 (w ! (i - 2)) + w ! (i - 7) + SHA256_F3 (w ! (i - 15)) + w ! (i - 16)"

text \<open>The message schedule of one block: 16 words of the block, then 48 more.\<close>

definition sha256_schedule :: "bytes \<Rightarrow> u32 list" where
  "sha256_schedule sub_block =
     fold (\<lambda>j w. w @ [SHA256_SCR j w]) [16..<64] (map (\<lambda>j. PACK32 (drop (4 * j) sub_block)) [0..<16])"

definition sha256_round :: "u32 list \<Rightarrow> nat \<Rightarrow> u32 list \<Rightarrow> u32 list" where
  "sha256_round w j wv =
     (let t1 = wv ! 7 + SHA256_F2 (wv ! 4) + CH (wv ! 4) (wv ! 5) (wv ! 6) + sha256_k ! j + w ! j;
          t2 = SHA256_F1 (wv ! 0) + MAJ (wv ! 0) (wv ! 1) (wv ! 2)
      in [t1 + t2, wv ! 0, wv ! 1, wv ! 2, wv ! 3 + t1, wv ! 4, wv ! 5, wv ! 6])"

definition sha256_block :: "u32 list \<Rightarrow> bytes \<Rightarrow> u32 list" where
  "sha256_block h sub_block = map2 (+) h (fold (sha256_round (sha256_schedule sub_block)) [0..<64] h)"

definition SHA256_transform :: "u32 list \<Rightarrow> bytes \<Rightarrow> nat \<Rightarrow> u32 list" where
  "SHA256_transform h message block_nb =
     fold (\<lambda>i h. sha256_block h (take 64 (drop (64 * i) message))) [0..<block_nb] h"

subsection \<open>The streaming context\<close>

record AvbSHA256Ctx =
  sha256_h :: "u32 list"
  sha256_tot_len :: u32
  sha256_len :: u32
  sha256_blk :: bytes

lemma sha256_sel:
  "sha256_h (c\<lparr>sha256_h := a, sha256_blk := b, sha256_len := d, sha256_tot_len := e\<rparr>) = a"
  "sha256_len (c\<lparr>sha256_h := a, sha256_blk := b, sha256_len := d, sha256_tot_len := e\<rparr>) = d"
  "sha256_tot_len (c\<lparr>sha256_h := a, sha256_blk := b, sha256_len := d, sha256_tot_len := e\<rparr>) = e"
  "sha256_blk (c\<lparr>sha256_h := a, sha256_blk := b, sha256_len := d, sha256_tot_len := e\<rparr>) = b"
  by simp_all

text \<open>\<open>CopyMem\<close> and \<open>SetMem\<close> into an array of the context.\<close>

definition blit :: "nat \<Rightarrow> 'a list \<Rightarrow> 'a list \<Rightarrow> 'a list" where
  "blit off src dst = take off dst @ src @ drop (off + length src) dst"

definition avb_sha256_init :: "AvbSHA256Ctx \<Rightarrow> AvbSHA256Ctx" where
  "avb_sha256_init ctx = ctx\<lparr>sha256_h := sha256_h0, sha256_len := 0, sha256_tot_len := 0\<rparr>"

definition avb_sha256_update :: "AvbSHA256Ctx \<Rightarrow> bytes \<Rightarrow> AvbSHA256Ctx" where
  "avb_sha256_update ctx data =
     (let len = of_nat (length data) :: u32;
          tmp_len = 64 - sha256_len ctx;
          rem_len = (if len < tmp_len then len else tmp_len);
          blk = blit (unat (sha256_len ctx)) (take (unat rem_len) data) (sha256_blk ctx)
      in if sha256_len ctx + len < 64
         then ctx\<lparr>sha256_blk := blk, sha256_len := sha256_len ctx + len\<rparr>
         else
           (let new_len = len - rem_len;
                block_nb = new_len div 64;
                shifted_data = drop (unat rem_len) data;
                h1 = SHA256_transform (sha256_h ctx) blk 1;
                h2 = SHA256_transform h1 shifted_data (unat block_nb);
                rem2 = new_len mod 64
            in ctx\<lparr>sha256_h := h2,
                   sha256_blk := blit 0 (take (unat rem2) (drop (unat (push_bit 6 block_nb)) shifted_data)) blk,
                   sha256_len := rem2,
                   sha256_tot_len := sha256_tot_len ctx + push_bit 6 (block_nb + 1)\<rparr>))"

definition avb_sha256_final :: "AvbSHA256Ctx \<Rightarrow> bytes" where
  "avb_sha256_final ctx =
     (let len = sha256_len ctx;
          block_nb = (1 + (if 64 - 9 < len mod 64 then 1 else 0)) :: u32;
          len_b = push_bit 3 (sha256_tot_len ctx + len);
          pm_len = push_bit 6 block_nb;
          blk1 = blit (unat len) (replicate (unat (pm_len - len)) 0) (sha256_blk ctx);
          blk2 = blk1[unat len := 0x80];
          blk3 = blit (unat (pm_len - 4)) (UNPACK32 len_b) blk2
      in concat (map UNPACK32 (SHA256_transform (sha256_h ctx) blk3 (unat block_nb))))"

subsection \<open>The one-shot reference\<close>

definition sha256_pad :: "bytes \<Rightarrow> bytes" where
  "sha256_pad m = m @ [0x80] @ replicate ((119 - length m mod 64) mod 64) 0 @ to_be 8 (8 * length m)"

definition sha256 :: "bytes \<Rightarrow> bytes" where
  "sha256 m = concat (map UNPACK32
     (SHA256_transform sha256_h0 (sha256_pad m) (length (sha256_pad m) div 64)))"

lemma transform_0 [simp]: "SHA256_transform h m 0 = h"
  by (simp add: SHA256_transform_def)

lemma transform_append:
  assumes "length a = 64 * n"
  shows "SHA256_transform h (a @ b) (n + k) = SHA256_transform (SHA256_transform h a n) b k"
proof -
  let ?f = "\<lambda>m i h. sha256_block h (take 64 (drop (64 * i) m))"
  have up: "[0..<n + k] = [0..<n] @ map (\<lambda>i. i + n) [0..<k]"
    using upt_add_eq_append [of 0 n k] map_add_upt [of n k] by (simp add: add.commute)
  have 1: "fold (?f (a @ b)) [0..<n] h = fold (?f a) [0..<n] h" for h
  proof (rule fold_cong [OF refl refl])
    fix i
    assume "i \<in> set [0..<n]"
    then have "64 * i + 64 \<le> length a" using assms by auto
    then show "?f (a @ b) i = ?f a i" by simp
  qed
  have 2: "?f (a @ b) \<circ> (\<lambda>i. i + n) = ?f b"
    using assms by (intro ext) (simp add: algebra_simps)
  have "SHA256_transform h (a @ b) (n + k) =
      fold (?f (a @ b) \<circ> (\<lambda>i. i + n)) [0..<k] (fold (?f (a @ b)) [0..<n] h)"
    by (simp only: SHA256_transform_def up fold_append fold_map comp_apply)
  then show ?thesis by (simp only: 1 2 SHA256_transform_def)
qed

lemma transform_prefix:
  assumes "64 * n \<le> length a"
  shows "SHA256_transform h a n = SHA256_transform h (take (64 * n) a) n"
  using transform_append [of "take (64 * n) a" n h "drop (64 * n) a" 0] assms by simp

lemma length_blit [simp]: "off + length src \<le> length dst \<Longrightarrow> length (blit off src dst) = length dst"
  by (simp add: blit_def)

lemma take_blit: "off + length src \<le> length dst \<Longrightarrow> take (off + length src) (blit off src dst) = take off dst @ src"
  by (simp add: blit_def)

subsection \<open>Updates accumulate the message\<close>

text \<open>\<open>rep ctx m\<close>: the context has absorbed exactly the message \<open>m\<close>.\<close>

definition sha256_rep :: "AvbSHA256Ctx \<Rightarrow> bytes \<Rightarrow> bool" where
  "sha256_rep ctx m \<longleftrightarrow>
     sha256_h ctx = SHA256_transform sha256_h0 m (length m div 64) \<and>
     unat (sha256_len ctx) = length m mod 64 \<and>
     sha256_tot_len ctx = of_nat (64 * (length m div 64)) \<and>
     length (sha256_blk ctx) = 128 \<and>
     take (length m mod 64) (sha256_blk ctx) = drop (64 * (length m div 64)) m"

lemma sha256_rep_init: "length (sha256_blk ctx) = 128 \<Longrightarrow> sha256_rep (avb_sha256_init ctx) []"
  by (simp add: sha256_rep_def avb_sha256_init_def)

lemma unat_of_nat_u32: "n < 2 ^ 32 \<Longrightarrow> unat (of_nat n :: u32) = n"
  by (simp add: unat_of_nat)

lemma sha256_rep_update_short:
  assumes rep: "sha256_rep ctx m" and short: "length m mod 64 + length data < 64"
  shows "sha256_rep (avb_sha256_update ctx data) (m @ data)"
proof -
  let ?L = "length m mod 64" and ?q = "length m div 64" and ?D = "length data"
  note r = rep [unfolded sha256_rep_def]
  have len: "unat (sha256_len ctx) = ?L" using r by simp
  have D: "unat (of_nat ?D :: u32) = ?D" using short by (intro unat_of_nat_u32) simp
  have sum: "unat (sha256_len ctx + of_nat ?D) = ?L + ?D"
    using short by (simp add: unat_word_ariths len D)
  have sub: "unat (64 - sha256_len ctx) = 64 - ?L"
    using len short by (subst unat_sub) (simp_all add: word_le_nat_alt)
  have lt: "(of_nat ?D :: u32) < 64 - sha256_len ctx"
    using short by (simp only: word_less_nat_alt sub D)
  have small: "sha256_len ctx + of_nat ?D < 64"
    using sum short by (simp add: word_less_nat_alt)
  have upd: "avb_sha256_update ctx data = ctx\<lparr>sha256_blk := blit ?L data (sha256_blk ctx),
      sha256_len := sha256_len ctx + of_nat ?D\<rparr>"
    using lt small by (simp only: avb_sha256_update_def Let_def if_True len D take_all order_refl)
  have dm: "(length m + ?D) div 64 = ?q" "(length m + ?D) mod 64 = ?L + ?D"
    using div_mod_absorb [OF short] by simp_all
  have tr: "SHA256_transform sha256_h0 (m @ data) ?q = SHA256_transform sha256_h0 m ?q"
    by (simp add: transform_prefix [of ?q "m @ data"] transform_prefix [of ?q m])
  show ?thesis
    using r short tr sum take_blit [of ?L data "sha256_blk ctx"]
    by (simp add: sha256_rep_def upd dm)
qed

lemma sha256_rep_update_long:
  assumes rep: "sha256_rep ctx m" and long: "64 \<le> length m mod 64 + length data"
    and bound: "length data < 2 ^ 32 - 64"
  shows "sha256_rep (avb_sha256_update ctx data) (m @ data)"
proof -
  let ?L = "length m mod 64" and ?q = "length m div 64" and ?D = "length data"
  let ?R = "64 - ?L"
  let ?N = "?D - ?R"
  note r = rep [unfolded sha256_rep_def]
  have L: "?L < 64" by simp
  have len: "unat (sha256_len ctx) = ?L" using r by simp
  have D: "unat (of_nat ?D :: u32) = ?D" using bound by (intro unat_of_nat_u32) simp
  have sum: "unat (sha256_len ctx + of_nat ?D) = ?L + ?D"
    using bound L by (simp add: unat_word_ariths len D)
  have sub: "unat (64 - sha256_len ctx) = ?R"
    using len L by (subst unat_sub) (simp_all add: word_le_nat_alt)
  have rem: "(if (of_nat ?D :: u32) < 64 - sha256_len ctx then of_nat ?D else 64 - sha256_len ctx)
      = 64 - sha256_len ctx"
    using long by (auto simp: word_less_nat_alt sub D)
  have big: "\<not> sha256_len ctx + of_nat ?D < 64"
    using sum long by (simp add: word_less_nat_alt)
  have new: "unat (of_nat ?D - (64 - sha256_len ctx)) = ?N"
    using long by (subst unat_sub) (simp_all add: word_le_nat_alt sub D)
  have nb: "unat ((of_nat ?D - (64 - sha256_len ctx)) div 64) = ?N div 64"
    by (simp add: unat_div new)
  have r2: "unat ((of_nat ?D - (64 - sha256_len ctx)) mod 64) = ?N mod 64"
    by (simp add: unat_mod new)
  have sh: "unat (push_bit 6 ((of_nat ?D - (64 - sha256_len ctx)) div 64)) = 64 * (?N div 64)"
    using bound by (subst unat_push_bit) (simp_all add: nb)
  define blk where "blk = blit ?L (take ?R data) (sha256_blk ctx)"
  define sd where "sd = drop ?R data"
  have upd: "avb_sha256_update ctx data = ctx
     \<lparr>sha256_h := SHA256_transform (SHA256_transform (sha256_h ctx) blk 1) sd (?N div 64),
      sha256_blk := blit 0 (take (?N mod 64) (drop (64 * (?N div 64)) sd)) blk,
      sha256_len := (of_nat ?D - (64 - sha256_len ctx)) mod 64,
      sha256_tot_len := sha256_tot_len ctx + push_bit 6 ((of_nat ?D - (64 - sha256_len ctx)) div 64 + 1)\<rparr>"
    using big by (simp only: avb_sha256_update_def Let_def rem if_False len sub nb r2 sh blk_def sd_def)
  define m1 where "m1 = take (64 * ?q) m"
  define b1 where "b1 = drop (64 * ?q) m @ take ?R data"
  have l1: "length m1 = 64 * ?q" by (simp add: m1_def)
  have lb: "length b1 = 64 * 1" using long by (simp add: b1_def minus_mult_div_eq_mod)
  have md: "m @ data = m1 @ b1 @ sd" by (simp add: m1_def b1_def sd_def)
  have blk1: "take (64 * 1) blk = b1" and lblk: "length blk = 128"
    using take_blit [of ?L "take ?R data" "sha256_blk ctx"] r long by (simp_all add: blk_def b1_def)
  have lsd: "length sd = ?N" by (simp add: sd_def)
  have tot: "length (m @ data) = 64 * (?q + (1 + ?N div 64)) + ?N mod 64"
    using l1 lb lsd by (simp add: md)
  have dm: "length (m @ data) div 64 = ?q + (1 + ?N div 64)" "length (m @ data) mod 64 = ?N mod 64"
    using div_mod_split [OF tot] by simp_all
  have h: "SHA256_transform (SHA256_transform (sha256_h ctx) blk 1) sd (?N div 64) =
      SHA256_transform sha256_h0 (m @ data) (?q + (1 + ?N div 64))"
  proof -
    have 1: "SHA256_transform sha256_h0 m1 ?q = sha256_h ctx"
      using r transform_prefix [of ?q m sha256_h0] by (simp add: m1_def)
    have 2: "SHA256_transform h blk 1 = SHA256_transform h b1 1" for h
      using transform_prefix [of 1 blk h] lblk by (simp only: blk1)
    have "SHA256_transform sha256_h0 (m1 @ b1 @ sd) (?q + (1 + ?N div 64)) =
        SHA256_transform (SHA256_transform (SHA256_transform sha256_h0 m1 ?q) b1 1) sd (?N div 64)"
      by (simp only: transform_append [OF l1] transform_append [OF lb])
    then show ?thesis by (simp only: md 1 2)
  qed
  have nbw: "(of_nat ?D - (64 - sha256_len ctx)) div 64 = of_nat (?N div 64)"
  proof -
    have "?N div 64 \<le> ?D" by (meson diff_le_self div_le_dividend order_trans)
    with bound have "unat (of_nat (?N div 64) :: u32) = ?N div 64"
      by (intro unat_of_nat_u32) linarith
    with nb show ?thesis by (simp only: word_unat_eq_iff)
  qed
  have t: "sha256_tot_len ctx + push_bit 6 ((of_nat ?D - (64 - sha256_len ctx)) div 64 + 1) =
      of_nat (64 * (?q + (1 + ?N div 64)))"
    by (simp only: nbw r) (simp add: push_bit_eq_mult algebra_simps)
  have ld: "length (drop (64 * (?N div 64)) sd) = ?N mod 64"
    by (simp add: lsd minus_mult_div_eq_mod)
  have "drop (64 * (?q + (1 + ?N div 64))) (m @ data) = drop (64 * (?N div 64)) sd"
    using l1 lb by (simp add: md algebra_simps)
  with take_blit [of 0 "drop (64 * (?N div 64)) sd" blk]
  have bk: "take (?N mod 64) (blit 0 (drop (64 * (?N div 64)) sd) blk) =
      drop (64 * (?q + (1 + ?N div 64))) (m @ data)"
    using ld lblk by (simp add: order_trans [OF less_imp_le [OF mod_less_divisor]])
  have src: "take (?N mod 64) (drop (64 * (?N div 64)) sd) = drop (64 * (?N div 64)) sd"
    using ld by simp
  have "length (blit 0 (drop (64 * (?N div 64)) sd) blk) = 128"
    using ld lblk by (subst length_blit) (simp_all add: order_trans [OF less_imp_le [OF mod_less_divisor]])
  moreover have "sha256_h (avb_sha256_update ctx data) =
        SHA256_transform (SHA256_transform (sha256_h ctx) blk 1) sd (?N div 64)"
      "sha256_len (avb_sha256_update ctx data) = (of_nat ?D - (64 - sha256_len ctx)) mod 64"
      "sha256_tot_len (avb_sha256_update ctx data) =
        sha256_tot_len ctx + push_bit 6 ((of_nat ?D - (64 - sha256_len ctx)) div 64 + 1)"
      "sha256_blk (avb_sha256_update ctx data) = blit 0 (drop (64 * (?N div 64)) sd) blk"
    by (simp_all only: upd src sha256_sel)
  ultimately show ?thesis
    by (simp only: sha256_rep_def dm h t bk r2 simp_thms)
qed

lemma sha256_rep_update:
  assumes "sha256_rep ctx m" "length data < 2 ^ 32 - 64"
  shows "sha256_rep (avb_sha256_update ctx data) (m @ data)"
  using assms sha256_rep_update_short [of ctx m data] sha256_rep_update_long [of ctx m data]
  by (meson not_le)

lemma sha256_rep_updates:
  assumes "sha256_rep ctx m" "\<forall>d \<in> set ds. length d < 2 ^ 32 - 64"
  shows "sha256_rep (foldl avb_sha256_update ctx ds) (m @ concat ds)"
  using assms
proof (induction ds arbitrary: ctx m)
  case (Cons d ds)
  from sha256_rep_update [of ctx m d] Cons.prems
  have "sha256_rep (avb_sha256_update ctx d) (m @ d)" by simp
  from Cons.IH [OF this] Cons.prems show ?case by simp
qed simp

subsection \<open>Final\<close>

lemma UNPACK32_to_be: "UNPACK32 x = to_be 4 (unat x)"
proof -
  have "UNPACK32 x = rev (mem32 x)"
    by (simp add: UNPACK32_def mem32_def byte_of_def upt_rec numeral_eq_Suc)
  moreover have "be_nat (rev (mem32 x)) = unat x"
    using le_word_unat [where 'a = 32, of "mem32 x"] load_mem(2) [of x] by (simp add: load32_def)
  ultimately have "be_nat (UNPACK32 x) = unat x" "length (UNPACK32 x) = 4"
    by simp_all
  then show ?thesis using to_be_be_nat [of "UNPACK32 x"] by simp
qed

lemma to_be_8_small: "v < 2 ^ 32 \<Longrightarrow> to_be 8 v = replicate 4 0 @ to_be 4 v"
  using to_be_pad [of v 4 4] by simp

lemma sha256_pad_zeros:
  assumes "L = n mod (64 :: nat)" and "p = (if 55 < L then 128 else 64)"
  shows "(119 - L) mod 64 + 4 = p - L - 1 - 4"
proof -
  have "L < 64" using assms by simp
  then show ?thesis using assms(2) by (auto simp: le_mod_geq)
qed

lemma final_block:
  fixes blk :: bytes
  assumes "length blk = 128" "L < 64" "p = (if 55 < L then 128 else 64)" "length u = 4"
  shows "take p (blit (p - 4) u ((blit L (replicate (p - L) 0) blk)[L := x])) =
     take L blk @ [x] @ replicate (p - L - 1 - 4) 0 @ u"
proof -
  obtain z where z: "p - L = Suc (z + 4)" and zz: "p - L - 1 - 4 = z"
    using assms(2,3) by (intro that [of "p - L - 5"]) (auto split: if_splits)
  have p: "p = L + Suc (z + 4)" "p \<le> 128" using z assms(2,3) by (auto split: if_splits)
  have rep: "replicate (p - L) (0 :: u8) = 0 # replicate (z + 4) 0" by (simp only: z replicate_Suc)
  have "(blit L (replicate (p - L) 0) blk)[L := x] = take L blk @ x # replicate (z + 4) 0 @ drop p blk"
    unfolding rep using assms(1,2) p by (simp add: blit_def list_update_append)
  then show ?thesis
    using assms(1,2,4) p by (simp add: blit_def zz take_Cons' replicate_add min_def)
qed

lemma sha256_rep_final:
  assumes rep: "sha256_rep ctx m" and bound: "length m < 2 ^ 29"
  shows "avb_sha256_final ctx = sha256 m"
proof -
  let ?L = "length m mod 64" and ?q = "length m div 64"
  define p where "p = (if 55 < ?L then 128 else 64 :: nat)"
  note r = rep [unfolded sha256_rep_def]
  have len: "unat (sha256_len ctx) = ?L" using r by simp
  have L: "?L < 64" by simp
  have len64: "sha256_len ctx mod 64 = sha256_len ctx"
    by (simp add: word_unat_eq_iff unat_mod len)
  define nb where "nb = (1 + (if 64 - 9 < sha256_len ctx mod 64 then 1 else 0) :: u32)"
  have nb: "unat nb = p div 64" "unat (push_bit 6 nb) = p"
    using len by (auto simp: nb_def len64 p_def word_less_nat_alt)
  have pm: "unat (push_bit 6 nb - sha256_len ctx) = p - ?L" "unat (push_bit 6 nb - 4) = p - 4"
  proof -
    have "?L \<le> p" by (rule order_trans [OF less_imp_le [OF L]]) (simp add: p_def)
    moreover have "4 \<le> p" by (simp add: p_def)
    moreover have "unat (push_bit 6 nb - sha256_len ctx) = unat (push_bit 6 nb) - unat (sha256_len ctx)"
      using \<open>?L \<le> p\<close> by (intro unat_sub) (simp only: word_le_nat_alt nb(2) len)
    moreover have "unat (push_bit 6 nb - 4) = unat (push_bit 6 nb) - unat (4 :: u32)"
      using \<open>4 \<le> p\<close> by (intro unat_sub) (simp only: word_le_nat_alt nb(2), simp)
    ultimately show "unat (push_bit 6 nb - sha256_len ctx) = p - ?L" "unat (push_bit 6 nb - 4) = p - 4"
      by (simp_all only: nb(2) len) simp
  qed
  have "unat (sha256_tot_len ctx + sha256_len ctx) = length m"
  proof -
    have "unat (sha256_tot_len ctx) = 64 * ?q"
    proof -
      have "64 * ?q \<le> length m" by simp
      then have "64 * ?q < 2 ^ 32"
        by (rule order_le_less_trans [OF _ order_less_trans [OF bound]]) simp
      from unat_of_nat_u32 [OF this] r show ?thesis by simp
    qed
    then show ?thesis using bound by (simp add: unat_word_ariths len)
  qed
  then have lenb: "unat (push_bit 3 (sha256_tot_len ctx + sha256_len ctx)) = 8 * length m"
    using bound by (subst unat_push_bit) simp_all
  define blk3 where "blk3 = blit (p - 4) (UNPACK32 (push_bit 3 (sha256_tot_len ctx + sha256_len ctx)))
     ((blit ?L (replicate (p - ?L) 0) (sha256_blk ctx))[?L := 0x80])"
  have unp: "UNPACK32 (push_bit 3 (sha256_tot_len ctx + sha256_len ctx)) = to_be 4 (8 * length m)"
    by (simp only: UNPACK32_to_be lenb)
  have blk: "length (sha256_blk ctx) = 128" using r by simp
  have fin: "avb_sha256_final ctx =
      concat (map UNPACK32 (SHA256_transform (sha256_h ctx) blk3 (p div 64)))"
    by (simp only: avb_sha256_final_def Let_def nb_def [symmetric] nb pm len blk3_def)
  have "take p blk3 = take ?L (sha256_blk ctx) @ [0x80] @ replicate (p - ?L - 1 - 4) 0 @ to_be 4 (8 * length m)"
    unfolding blk3_def unp using blk L by (subst final_block) (simp_all add: p_def)
  also have "\<dots> = drop (64 * ?q) m @ [0x80] @ replicate ((119 - ?L) mod 64) 0 @ to_be 8 (8 * length m)"
    using r bound sha256_pad_zeros [OF refl p_def]
    by (simp add: to_be_8_small replicate_add [symmetric]) 
  finally have blk3: "take p blk3 = drop (64 * ?q) m @ [0x80] @ replicate ((119 - ?L) mod 64) 0 @ to_be 8 (8 * length m)" .
  define m1 where "m1 = take (64 * ?q) m"
  define tl where "tl = take p blk3"
  have l1: "length m1 = 64 * ?q" by (simp add: m1_def)
  have pad: "sha256_pad m = m1 @ tl"
    unfolding tl_def blk3 by (simp add: sha256_pad_def m1_def)
  have pb: "64 * (p div 64) = p" by (simp add: p_def)
  have "p \<le> length blk3"
    using r L by (simp add: blk3_def p_def blit_def UNPACK32_def)
  then have ltl: "length tl = 64 * (p div 64)" by (simp add: tl_def pb)
  have "SHA256_transform sha256_h0 (sha256_pad m) (?q + p div 64) =
      SHA256_transform (SHA256_transform sha256_h0 m1 ?q) tl (p div 64)"
    by (simp only: pad transform_append [OF l1])
  also have "SHA256_transform sha256_h0 m1 ?q = sha256_h ctx"
    using r transform_prefix [of ?q m sha256_h0] by (simp add: m1_def)
  also have "SHA256_transform (sha256_h ctx) tl (p div 64) = SHA256_transform (sha256_h ctx) blk3 (p div 64)"
    using transform_prefix [of "p div 64" blk3] \<open>p \<le> length blk3\<close> by (simp only: pb tl_def)
  finally have tr: "SHA256_transform sha256_h0 (sha256_pad m) (?q + p div 64) =
      SHA256_transform (sha256_h ctx) blk3 (p div 64)" .
  have "length (sha256_pad m) div 64 = ?q + p div 64"
    by (simp add: pad l1 ltl)
  then show ?thesis by (simp only: fin sha256_def tr)
qed

text \<open>
  The contract the clients use: initialise, feed any pieces, finish, and get the hash of
  their concatenation.
\<close>

lemma avb_sha256_stream:
  assumes "length (sha256_blk ctx) = 128" "length (concat ds) < 2 ^ 29"
  shows "avb_sha256_final (foldl avb_sha256_update (avb_sha256_init ctx) ds) = sha256 (concat ds)"
proof -
  have "length d < 2 ^ 32 - 64" if "d \<in> set ds" for d
    using assms(2) member_le_sum_list [of "length d" "map length ds"] that
    by (simp add: length_concat)
  then have "sha256_rep (foldl avb_sha256_update (avb_sha256_init ctx) ds) ([] @ concat ds)"
    using sha256_rep_updates [OF sha256_rep_init [OF assms(1)]] by blast
  then show ?thesis using sha256_rep_final assms(2) by simp
qed

subsection \<open>Properties\<close>

text \<open>
  C29: initialising a SHA-256 context, feeding any sequence of pieces and finishing gives the
  hash of their concatenation, for less than \<open>2 ^ 29\<close> octets.
\<close>
theorem sha256_stream_correct:
  assumes "length (sha256_blk ctx) = 128" "length (concat ds) < 2 ^ 29"
  shows "avb_sha256_final (foldl avb_sha256_update (avb_sha256_init ctx) ds) = sha256 (concat ds)"
  using assms by (rule avb_sha256_stream)

definition sha256_ctx0 :: AvbSHA256Ctx where
  "sha256_ctx0 = \<lparr>sha256_h = replicate 8 7, sha256_tot_len = 5, sha256_len = 3, sha256_blk = replicate 128 1\<rparr>"

theorem sha256_stream_correct_witness:
  "avb_sha256_final (foldl avb_sha256_update (avb_sha256_init sha256_ctx0) [[1, 2], [], replicate 100 3]) =
     sha256 ([1, 2] @ replicate 100 3)"
  using sha256_stream_correct [of sha256_ctx0 "[[1, 2], [], replicate 100 3]"]
  by (simp add: sha256_ctx0_def)

end
