(* ===== verification/AvbSha512.thy ===== *)
theory AvbSha512
  imports AvbSha256
begin

text \<open>
  \<open>Application/UefiAvb/libavb/avb_sha512.c\<close> as the module is built: \<open>UNROLL_LOOPS_SHA512\<close>
  is not defined, so the state is set up by \<open>avb_memcpy(ctx->h, sha512_h0, 8)\<close> and every
  block starts with \<open>avb_memcpy(wv, ctx->h, 8)\<close>.  Both copy eight octets, which is one of
  the eight words.  What the code then reads is memory it never wrote; the model makes that
  memory explicit: the context given to \<open>init\<close> and the stack words \<open>wv\<close> of every call of
  \<open>SHA512_transform\<close> are arguments.  The main result is how the digest depends on them.
\<close>

subsection \<open>Functions of the compression\<close>

definition SHA512_F1 :: "u64 \<Rightarrow> u64" where
  "SHA512_F1 x = ROTR x 28 XOR ROTR x 34 XOR ROTR x 39"

definition SHA512_F2 :: "u64 \<Rightarrow> u64" where
  "SHA512_F2 x = ROTR x 14 XOR ROTR x 18 XOR ROTR x 41"

definition SHA512_F3 :: "u64 \<Rightarrow> u64" where
  "SHA512_F3 x = ROTR x 1 XOR ROTR x 8 XOR SHFR x 7"

definition SHA512_F4 :: "u64 \<Rightarrow> u64" where
  "SHA512_F4 x = ROTR x 19 XOR ROTR x 61 XOR SHFR x 6"

definition UNPACK64 :: "u64 \<Rightarrow> bytes" where
  "UNPACK64 x =
     [ucast (drop_bit 56 x), ucast (drop_bit 48 x), ucast (drop_bit 40 x), ucast (drop_bit 32 x),
      ucast (drop_bit 24 x), ucast (drop_bit 16 x), ucast (drop_bit 8 x), ucast x]"

definition PACK64 :: "bytes \<Rightarrow> u64" where
  "PACK64 str = ucast (str ! 7) OR push_bit 8 (ucast (str ! 6)) OR
     push_bit 16 (ucast (str ! 5)) OR push_bit 24 (ucast (str ! 4)) OR
     push_bit 32 (ucast (str ! 3)) OR push_bit 40 (ucast (str ! 2)) OR
     push_bit 48 (ucast (str ! 1)) OR push_bit 56 (ucast (str ! 0))"

definition sha512_h0 :: "u64 list" where
  "sha512_h0 = [
   7640891576956012808, 13503953896175478587, 4354685564936845355,
   11912009170470909681, 5840696475078001361, 11170449401992604703,
   2270897969802886507, 6620516959819538809]"

definition sha512_k :: "u64 list" where
  "sha512_k = [
   4794697086780616226, 8158064640168781261, 13096744586834688815,
   16840607885511220156, 4131703408338449720, 6480981068601479193,
   10538285296894168987, 12329834152419229976, 15566598209576043074,
   1334009975649890238, 2608012711638119052, 6128411473006802146,
   8268148722764581231, 9286055187155687089, 11230858885718282805,
   13951009754708518548, 16472876342353939154, 17275323862435702243,
   1135362057144423861, 2597628984639134821, 3308224258029322869,
   5365058923640841347, 6679025012923562964, 8573033837759648693,
   10970295158949994411, 12119686244451234320, 12683024718118986047,
   13788192230050041572, 14330467153632333762, 15395433587784984357,
   489312712824947311, 1452737877330783856, 2861767655752347644,
   3322285676063803686, 5560940570517711597, 5996557281743188959,
   7280758554555802590, 8532644243296465576, 9350256976987008742,
   10552545826968843579, 11727347734174303076, 12113106623233404929,
   14000437183269869457, 14369950271660146224, 15101387698204529176,
   15463397548674623760, 17586052441742319658, 1182934255886127544,
   1847814050463011016, 2177327727835720531, 2830643537854262169,
   3796741975233480872, 4115178125766777443, 5681478168544905931,
   6601373596472566643, 7507060721942968483, 8399075790359081724,
   8693463985226723168, 9568029438360202098, 10144078919501101548,
   10430055236837252648, 11840083180663258601, 13761210420658862357,
   14299343276471374635, 14566680578165727644, 15097957966210449927,
   16922976911328602910, 17689382322260857208, 500013540394364858,
   748580250866718886, 1242879168328830382, 1977374033974150939,
   2944078676154940804, 3659926193048069267, 4368137639120453308,
   4836135668995329356, 5532061633213252278, 6448918945643986474,
   6902733635092675308, 7801388544844847127]"

definition SHA512_SCR :: "nat \<Rightarrow> u64 list \<Rightarrow> u64" where
  "SHA512_SCR i w = SHA512_F4 (w ! (i - 2)) + w ! (i - 7) + SHA512_F3 (w ! (i - 15)) + w ! (i - 16)"

definition sha512_schedule :: "bytes \<Rightarrow> u64 list" where
  "sha512_schedule sub_block =
     fold (\<lambda>j w. w @ [SHA512_SCR j w]) [16..<80] (map (\<lambda>j. PACK64 (drop (8 * j) sub_block)) [0..<16])"

definition sha512_round :: "u64 list \<Rightarrow> nat \<Rightarrow> u64 list \<Rightarrow> u64 list" where
  "sha512_round w j wv =
     (let t1 = wv ! 7 + SHA512_F2 (wv ! 4) + CH (wv ! 4) (wv ! 5) (wv ! 6) + sha512_k ! j + w ! j;
          t2 = SHA512_F1 (wv ! 0) + MAJ (wv ! 0) (wv ! 1) (wv ! 2)
      in [t1 + t2, wv ! 0, wv ! 1, wv ! 2, wv ! 3 + t1, wv ! 4, wv ! 5, wv ! 6])"

text \<open>\<open>avb_memcpy(dst, src, 8)\<close> between arrays of \<open>uint64_t\<close>: one word moves.\<close>

definition memcpy8 :: "u64 list \<Rightarrow> u64 list \<Rightarrow> u64 list" where
  "memcpy8 dst src = dst[0 := src ! 0]"

text \<open>One block: the state is \<open>(ctx->h, wv)\<close>, because \<open>wv\<close> keeps its words between blocks.\<close>

definition sha512_block :: "bytes \<Rightarrow> u64 list \<times> u64 list \<Rightarrow> u64 list \<times> u64 list" where
  "sha512_block sub_block = (\<lambda>(h, wv).
     let wv' = fold (sha512_round (sha512_schedule sub_block)) [0..<80] (memcpy8 wv h)
     in (map2 (+) h wv', wv'))"

definition SHA512_transform :: "u64 list \<Rightarrow> u64 list \<Rightarrow> bytes \<Rightarrow> nat \<Rightarrow> u64 list" where
  "SHA512_transform stack h message block_nb =
     fst (fold (\<lambda>i. sha512_block (take 128 (drop (128 * i) message))) [0..<block_nb] (h, stack))"

subsection \<open>The streaming context\<close>

record AvbSHA512Ctx =
  sha512_h :: "u64 list"
  sha512_tot_len :: u32
  sha512_len :: u32
  sha512_blk :: bytes

definition avb_sha512_init :: "AvbSHA512Ctx \<Rightarrow> AvbSHA512Ctx" where
  "avb_sha512_init ctx =
     ctx\<lparr>sha512_h := memcpy8 (sha512_h ctx) sha512_h0, sha512_len := 0, sha512_tot_len := 0\<rparr>"

definition avb_sha512_update ::
  "u64 list \<times> u64 list \<Rightarrow> AvbSHA512Ctx \<Rightarrow> bytes \<Rightarrow> AvbSHA512Ctx" where
  "avb_sha512_update stacks ctx data =
     (let len = of_nat (length data) :: u32;
          tmp_len = 128 - sha512_len ctx;
          rem_len = (if len < tmp_len then len else tmp_len);
          blk = blit (unat (sha512_len ctx)) (take (unat rem_len) data) (sha512_blk ctx)
      in if sha512_len ctx + len < 128
         then ctx\<lparr>sha512_blk := blk, sha512_len := sha512_len ctx + len\<rparr>
         else
           (let new_len = len - rem_len;
                block_nb = new_len div 128;
                shifted_data = drop (unat rem_len) data;
                h1 = SHA512_transform (fst stacks) (sha512_h ctx) blk 1;
                h2 = SHA512_transform (snd stacks) h1 shifted_data (unat block_nb);
                rem2 = new_len mod 128
            in ctx\<lparr>sha512_h := h2,
                   sha512_blk := blit 0 (take (unat rem2) (drop (unat (push_bit 7 block_nb)) shifted_data)) blk,
                   sha512_len := rem2,
                   sha512_tot_len := sha512_tot_len ctx + push_bit 7 (block_nb + 1)\<rparr>))"

definition avb_sha512_final :: "u64 list \<Rightarrow> AvbSHA512Ctx \<Rightarrow> bytes" where
  "avb_sha512_final stack ctx =
     (let len = sha512_len ctx;
          block_nb = (1 + (if 128 - 17 < len mod 128 then 1 else 0)) :: u32;
          len_b = push_bit 3 (sha512_tot_len ctx + len);
          pm_len = push_bit 7 block_nb;
          blk1 = blit (unat len) (replicate (unat (pm_len - len)) 0) (sha512_blk ctx);
          blk2 = blk1[unat len := 0x80];
          blk3 = blit (unat (pm_len - 4)) (UNPACK32 len_b) blk2
      in concat (map UNPACK64 (SHA512_transform stack (sha512_h ctx) blk3 (unat block_nb))))"

subsection \<open>What the unwritten words do to the digest\<close>

lemma length_sha512_round [simp]: "length (sha512_round w j wv) = 8"
  by (simp add: sha512_round_def Let_def)

lemma length_sha512_rounds:
  "length wv = 8 \<Longrightarrow> length (fold (sha512_round w) js wv) = 8"
  by (induction js arbitrary: wv) simp_all

text \<open>
  The compression reads only word 0 of the chaining state; the other words are only added to.
  So the words that \<open>init\<close> leaves unwritten travel to the digest.
\<close>

definition shift_h :: "nat \<Rightarrow> u64 \<Rightarrow> u64 list \<Rightarrow> u64 list" where
  "shift_h k d h = h[k := h ! k + d]"

lemma sha512_block_shift:
  assumes "0 < k" "k < 8" "length h = 8" "length wv = 8"
  shows "sha512_block b (shift_h k d h, wv) =
     (shift_h k d (fst (sha512_block b (h, wv))), snd (sha512_block b (h, wv)))"
proof -
  let ?w = "fold (sha512_round (sha512_schedule b)) [0..<80] (memcpy8 wv h)"
  have l: "length ?w = 8" using assms by (intro length_sha512_rounds) (simp add: memcpy8_def)
  have m: "memcpy8 wv (shift_h k d h) = memcpy8 wv h"
    using assms by (simp add: memcpy8_def shift_h_def)
  have "map2 (+) (shift_h k d h) ?w = shift_h k d (map2 (+) h ?w)"
    using assms l by (intro nth_equalityI) (auto simp: shift_h_def nth_list_update)
  then show ?thesis by (simp only: sha512_block_def Let_def prod.case m fst_conv snd_conv)
qed

lemma length_sha512_block:
  assumes "length h = 8" "length wv = 8"
  shows "length (fst (sha512_block b (h, wv))) = 8 \<and> length (snd (sha512_block b (h, wv))) = 8"
  using assms by (simp add: sha512_block_def Let_def length_sha512_rounds memcpy8_def)

lemma sha512_blocks_shift:
  assumes "0 < k" "k < 8" "length h = 8" "length wv = 8"
  shows "fold (\<lambda>i. sha512_block (f i)) is (shift_h k d h, wv) =
     (shift_h k d (fst (fold (\<lambda>i. sha512_block (f i)) is (h, wv))),
      snd (fold (\<lambda>i. sha512_block (f i)) is (h, wv))) \<and>
     length (fst (fold (\<lambda>i. sha512_block (f i)) is (h, wv))) = 8"
  using assms
proof (induction "is" arbitrary: h wv)
  case Nil
  then show ?case by simp
next
  case (Cons i js)
  obtain h' wv' where b: "sha512_block (f i) (h, wv) = (h', wv')" by (metis surj_pair)
  with length_sha512_block [of h wv "f i"] Cons.prems have l: "length h' = 8" "length wv' = 8"
    by simp_all
  from sha512_block_shift [of k h wv "f i" d] Cons.prems b
  have s: "sha512_block (f i) (shift_h k d h, wv) = (shift_h k d h', wv')" by simp
  from Cons.IH [OF assms(1,2) l] show ?case by (simp add: b s)
qed

lemma SHA512_transform_shift:
  assumes "0 < k" "k < 8" "length h = 8" "length stack = 8"
  shows "SHA512_transform stack (shift_h k d h) m n = shift_h k d (SHA512_transform stack h m n)"
    "length (SHA512_transform stack h m n) = 8"
  using sha512_blocks_shift [OF assms, of "\<lambda>i. take 128 (drop (128 * i) m)" "[0..<n]" d]
  by (simp_all add: SHA512_transform_def)

definition ctx_shift :: "nat \<Rightarrow> u64 \<Rightarrow> AvbSHA512Ctx \<Rightarrow> AvbSHA512Ctx" where
  "ctx_shift k d ctx = ctx\<lparr>sha512_h := shift_h k d (sha512_h ctx)\<rparr>"

definition stacks_ok :: "u64 list \<times> u64 list \<Rightarrow> bool" where
  "stacks_ok s \<longleftrightarrow> length (fst s) = 8 \<and> length (snd s) = 8"

lemma avb_sha512_init_shift:
  assumes "0 < k" "k < 8" "length (sha512_h ctx) = 8"
  shows "avb_sha512_init (ctx_shift k d ctx) = ctx_shift k d (avb_sha512_init ctx)"
    "length (sha512_h (avb_sha512_init ctx)) = 8"
  using assms by (simp_all add: avb_sha512_init_def ctx_shift_def memcpy8_def shift_h_def list_update_swap)

lemma avb_sha512_update_shift:
  assumes "0 < k" "k < 8" "length (sha512_h ctx) = 8" "stacks_ok s"
  shows "avb_sha512_update s (ctx_shift k d ctx) m = ctx_shift k d (avb_sha512_update s ctx m)"
    "length (sha512_h (avb_sha512_update s ctx m)) = 8"
  using assms
  by (simp_all add: avb_sha512_update_def ctx_shift_def Let_def SHA512_transform_shift stacks_ok_def)

text \<open>A whole computation, with the stack words each call of an update meets.\<close>

definition sha512_run ::
  "AvbSHA512Ctx \<Rightarrow> ((u64 list \<times> u64 list) \<times> bytes) list \<Rightarrow> u64 list \<Rightarrow> bytes" where
  "sha512_run ctx ds stack =
     avb_sha512_final stack (fold (\<lambda>(s, d) c. avb_sha512_update s c d) ds (avb_sha512_init ctx))"

lemma sha512_updates_shift:
  assumes "0 < k" "k < 8" "length (sha512_h ctx) = 8" "list_all (\<lambda>(s, d). stacks_ok s) ds"
  shows "fold (\<lambda>(s, d) c. avb_sha512_update s c d) ds (ctx_shift k d ctx) =
      ctx_shift k d (fold (\<lambda>(s, d) c. avb_sha512_update s c d) ds ctx) \<and>
     length (sha512_h (fold (\<lambda>(s, d) c. avb_sha512_update s c d) ds ctx)) = 8"
  using assms(3,4)
proof (induction ds arbitrary: ctx)
  case (Cons sd ds)
  obtain s m where "sd = (s, m)" by (cases sd)
  with Cons.prems avb_sha512_update_shift [OF assms(1,2), of ctx s] Cons.IH show ?case by simp
qed simp

text \<open>The words of the final state, read back from the digest.\<close>

lemma UNPACK64_inject: "UNPACK64 x = UNPACK64 y \<longleftrightarrow> x = y"
proof -
  have "UNPACK64 z = rev (mem64 z)" for z
    by (simp add: UNPACK64_def mem_defs upt_rec numeral_eq_Suc)
  then show ?thesis by (metis load_mem(3) rev_is_rev_conv)
qed

lemma digest_inject:
  "length h = length h' \<Longrightarrow> concat (map UNPACK64 h) = concat (map UNPACK64 h') \<longleftrightarrow> h = h'"
proof (induction h h' rule: list_induct2)
  case (Cons x xs y ys)
  have "length (UNPACK64 x) = length (UNPACK64 y)" by (simp add: UNPACK64_def)
  then show ?case using Cons by (simp add: UNPACK64_inject)
qed simp

lemma sha512_digest_depends:
  assumes "0 < k" "k < 8" "length (sha512_h ctx) = 8" "list_all (\<lambda>(s, d). stacks_ok s) ds"
    "length stack = 8"
  shows "sha512_run (ctx_shift k d ctx) ds stack = sha512_run ctx ds stack \<longleftrightarrow> d = 0"
proof -
  let ?c = "fold (\<lambda>(s, d) c. avb_sha512_update s c d) ds (avb_sha512_init ctx)"
  note i = avb_sha512_init_shift(1) [OF assms(1-3), of d] avb_sha512_init_shift(2) [OF assms(1-3)]
  have u: "fold (\<lambda>(s, d) c. avb_sha512_update s c d) ds (avb_sha512_init (ctx_shift k d ctx)) = ctx_shift k d ?c"
    and l: "length (sha512_h ?c) = 8"
    using sha512_updates_shift [OF assms(1,2) i(2) assms(4), of d] by (simp_all only: i(1))
  define t where "t = SHA512_transform stack (sha512_h ?c)"
  have lt: "length (t m n) = 8" for m n
    unfolding t_def by (rule SHA512_transform_shift [OF assms(1,2) l assms(5)])
  have ts: "SHA512_transform stack (sha512_h (ctx_shift k d ?c)) m n = shift_h k d (t m n)" for m n
    unfolding t_def ctx_shift_def by (simp add: SHA512_transform_shift(1) [OF assms(1,2) l assms(5)])
  have eq: "concat (map UNPACK64 (shift_h k d (t m n))) = concat (map UNPACK64 (t m n)) \<longleftrightarrow> d = 0" for m n
  proof -
    have "shift_h k d (t m n) = t m n \<longleftrightarrow> d = 0"
      using lt [of m n] assms(2)
      by (metis add.right_neutral add_left_cancel list_update_id nth_list_update_eq shift_h_def)
    then show ?thesis using digest_inject [of "shift_h k d (t m n)" "t m n"] by (simp add: shift_h_def)
  qed
  have o: "sha512_len (ctx_shift k d ?c) = sha512_len ?c" "sha512_blk (ctx_shift k d ?c) = sha512_blk ?c"
      "sha512_tot_len (ctx_shift k d ?c) = sha512_tot_len ?c"
    by (simp_all add: ctx_shift_def)
  show ?thesis
    by (simp only: sha512_run_def u avb_sha512_final_def Let_def o ts eq t_def [symmetric])
qed

subsection \<open>Properties\<close>

text \<open>
  A word of the SHA-512 state that \<open>avb_sha512_init\<close> does not write reaches the digest:
  whatever is hashed, adding a non-zero value to word 1 to 7 of the memory the context occupies
  changes the result.  The digest is therefore not a function of the message.
\<close>
theorem sha512_uninitialised_state:
  assumes "0 < k" "k < 8" "length (sha512_h ctx) = 8" "list_all (\<lambda>(s, d). stacks_ok s) ds"
    "length stack = 8"
  shows "sha512_run (ctx_shift k d ctx) ds stack = sha512_run ctx ds stack \<longleftrightarrow> d = 0"
  using assms by (rule sha512_digest_depends)

definition sha512_ctx0 :: AvbSHA512Ctx where
  "sha512_ctx0 = \<lparr>sha512_h = replicate 8 0, sha512_tot_len = 0, sha512_len = 0, sha512_blk = replicate 256 0\<rparr>"

theorem sha512_uninitialised_state_witness:
  "sha512_run (ctx_shift 7 1 sha512_ctx0) [((replicate 8 0, replicate 8 0), [1, 2, 3])] (replicate 8 0) \<noteq>
   sha512_run sha512_ctx0 [((replicate 8 0, replicate 8 0), [1, 2, 3])] (replicate 8 0)"
  using sha512_uninitialised_state [of 7 sha512_ctx0 "[((replicate 8 0, replicate 8 0), [1, 2, 3])]"
      "replicate 8 0" 1]
  by (simp add: sha512_ctx0_def stacks_ok_def)

end
