(* ===== verification/AvbRsa.thy ===== *)
theory AvbRsa
  imports AvbSha512
begin

text \<open>
  \<open>Application/UefiAvb/libavb/avb_rsa.c\<close>: RSA with the public exponent 65537 over words of 32
  bits, in Montgomery form, and the PKCS #1 v1.5 check built on it.  The arrays are lists of
  words, least significant first, and \<open>le_nat\<close> is the number such an array holds.

  The abstract specification is one line: \<open>modpowF4\<close> maps the octets of \<open>s\<close> to the octets
  of \<open>s ^ 65537 mod n\<close>.  The lemmas follow the code: the inner loop of \<open>montMulAdd\<close> adds
  two multiples and shifts by one word, \<open>montMul\<close> keeps the result below \<open>R\<close>, and the
  exponentiation is sixteen squarings and one product.
\<close>

subsection \<open>Keys\<close>

record IAvbKey =
  key_len :: u32
  key_n0inv :: u32
  key_n :: "u32 list"
  key_rr :: "u32 list"

record AvbRSAPublicKeyHeader =
  key_num_bits :: u32
  hdr_n0inv :: u32

definition avb_rsa_public_key_header_validate_and_byteswap ::
  "bytes \<Rightarrow> (bool \<times> AvbRSAPublicKeyHeader) option" where
  "avb_rsa_public_key_header_validate_and_byteswap src =
     map_option (\<lambda>d. (True, \<lparr>key_num_bits = avb_be32toh (load32 d),
                            hdr_n0inv = avb_be32toh (load32 (drop 4 d))\<rparr>))
       (slice 0 8 src)"

text \<open>
  The memory behind the key pointer is \<open>data\<close>, and \<open>length0\<close> is the length argument; the
  result is \<open>None\<close> when the code reads beyond the memory.
\<close>

definition iavb_parse_key_data ::
  "'w alloc \<Rightarrow> bytes \<Rightarrow> u64 \<Rightarrow> 'w \<Rightarrow> (IAvbKey option \<times> 'w) option" where
  "iavb_parse_key_data A data length0 w =
     (case avb_rsa_public_key_header_validate_and_byteswap data of
        None \<Rightarrow> None
      | Some (valid, h) \<Rightarrow>
          if \<not> valid then Some (None, w)
          else if \<not> (key_num_bits h = 2048 \<or> key_num_bits h = 4096 \<or> key_num_bits h = 8192)
          then Some (None, w)
          else
            (let expected_length = 8 + ucast (2 * key_num_bits h div 8)
             in if length0 \<noteq> expected_length then Some (None, w)
                else
                  (let nbytes = unat (key_num_bits h div 8);
                       len = key_num_bits h div 32;
                       (ok, w') = avb_malloc A (24 + unat (2 * key_num_bits h div 8)) w
                   in if \<not> ok then Some (None, w')
                      else (case (slice 8 nbytes data, slice (8 + nbytes) nbytes data) of
                          (Some n, Some rr) \<Rightarrow>
                            Some (Some \<lparr>key_len = len, key_n0inv = hdr_n0inv h,
                              key_n = map (\<lambda>i. avb_be32toh (load32 (drop (4 * (unat len - i - 1)) n)))
                                [0..<unat len],
                              key_rr = map (\<lambda>i. avb_be32toh (load32 (drop (4 * (unat len - i - 1)) rr)))
                                [0..<unat len]\<rparr>, w')
                        | _ \<Rightarrow> None))))"

subsection \<open>Word arithmetic\<close>

definition subM_step :: "IAvbKey \<Rightarrow> nat \<Rightarrow> u64 \<times> u32 list \<Rightarrow> u64 \<times> u32 list" where
  "subM_step key i = (\<lambda>(A, a). let A' = A + (ucast (a ! i) - ucast (key_n key ! i))
     in (signed_drop_bit 32 A', a[i := ucast A']))"

definition subM :: "IAvbKey \<Rightarrow> u32 list \<Rightarrow> u32 list" where
  "subM key a = snd (fold (subM_step key) [0..<unat (key_len key)] (0, a))"

fun geM_loop :: "IAvbKey \<Rightarrow> u32 list \<Rightarrow> nat \<Rightarrow> bool" where
  "geM_loop key a 0 = True"
| "geM_loop key a (Suc i) =
     (if a ! i < key_n key ! i then False
      else if a ! i > key_n key ! i then True
      else geM_loop key a i)"

definition geM :: "IAvbKey \<Rightarrow> u32 list \<Rightarrow> bool" where
  "geM key a = geM_loop key a (unat (key_len key))"

definition montMulAdd_step ::
  "IAvbKey \<Rightarrow> u32 \<Rightarrow> u32 \<Rightarrow> u32 list \<Rightarrow> nat \<Rightarrow> u64 \<times> u64 \<times> u32 list \<Rightarrow> u64 \<times> u64 \<times> u32 list" where
  "montMulAdd_step key a d0 b i = (\<lambda>(A, B, c).
     let A' = drop_bit 32 A + ucast a * ucast (b ! i) + ucast (c ! i);
         B' = drop_bit 32 B + ucast d0 * ucast (key_n key ! i) + ucast (ucast A' :: u32)
     in (A', B', c[i - 1 := ucast B']))"

definition montMulAdd :: "IAvbKey \<Rightarrow> u32 list \<Rightarrow> u32 \<Rightarrow> u32 list \<Rightarrow> u32 list" where
  "montMulAdd key c a b =
     (let A = ucast a * ucast (b ! 0) + ucast (c ! 0) :: u64;
          d0 = ucast A * key_n0inv key;
          B = ucast d0 * ucast (key_n key ! 0) + ucast (ucast A :: u32) :: u64;
          (A1, B1, c1) = fold (montMulAdd_step key a d0 b) [1..<unat (key_len key)] (A, B, c);
          A2 = drop_bit 32 A1 + drop_bit 32 B1;
          c2 = c1[max 1 (unat (key_len key)) - 1 := ucast A2]
      in if drop_bit 32 A2 \<noteq> 0 then subM key c2 else c2)"

definition montMul :: "IAvbKey \<Rightarrow> u32 list \<Rightarrow> u32 list \<Rightarrow> u32 list" where
  "montMul key a b =
     fold (\<lambda>i c. montMulAdd key c (a ! i) b) [0..<unat (key_len key)]
       (replicate (unat (key_len key)) 0)"

definition inout_word :: "bytes \<Rightarrow> nat \<Rightarrow> u32" where
  "inout_word inout k =
     push_bit 24 (ucast (inout ! (4 * k + 0))) OR push_bit 16 (ucast (inout ! (4 * k + 1))) OR
     push_bit 8 (ucast (inout ! (4 * k + 2))) OR ucast (inout ! (4 * k + 3))"

definition modpow_words :: "IAvbKey \<Rightarrow> u32 list \<Rightarrow> u32 list" where
  "modpow_words key a =
     (let aR0 = montMul key a (key_rr key);
          aR = fold (\<lambda>i aR. let aaR = montMul key aR aR in montMul key aaR aaR) [0..<8] aR0;
          aaa = montMul key aR a
      in if geM key aaa then subM key aaa else aaa)"

text \<open>
  The three allocations are made before the first test; when one fails the buffer is left as
  it is and the caller is not told.
\<close>

definition modpowF4 :: "'w alloc \<Rightarrow> IAvbKey \<Rightarrow> bytes \<Rightarrow> 'w \<Rightarrow> bytes \<times> 'w" where
  "modpowF4 A key inout w =
     (let n = 4 * unat (key_len key);
          (ok1, w1) = avb_malloc A n w;
          (ok2, w2) = avb_malloc A n w1;
          (ok3, w3) = avb_malloc A n w2
      in if \<not> ok1 \<or> \<not> ok2 \<or> \<not> ok3 then (inout, w3)
         else
           (let len = unat (key_len key);
                a = map (\<lambda>i. inout_word inout (len - 1 - i)) [0..<len];
                aaa = modpow_words key a
            in (concat (map UNPACK32 (rev aaa)) @ drop (4 * len) inout, w3)))"

text \<open>
  \<open>key\<close>, \<open>sig\<close>, \<open>hash\<close> and \<open>padding\<close> are the memories behind the pointers, \<open>None\<close>
  for a null pointer.
\<close>

definition avb_rsa_verify ::
  "'w alloc \<Rightarrow> bytes option \<Rightarrow> u64 \<Rightarrow> bytes option \<Rightarrow> u64 \<Rightarrow> bytes option \<Rightarrow> u64 \<Rightarrow>
   bytes option \<Rightarrow> u64 \<Rightarrow> 'w \<Rightarrow> (bool \<times> 'w) option" where
  "avb_rsa_verify A key key_num_bytes sig sig_num_bytes hash hash_num_bytes padding padding_num_bytes w =
     (case (key, sig, hash, padding) of
        (Some key, Some sig, Some hash, Some padding) \<Rightarrow>
          (case iavb_parse_key_data A key key_num_bytes w of
             None \<Rightarrow> None
           | Some (None, w1) \<Rightarrow> Some (False, w1)
           | Some (Some parsed_key, w1) \<Rightarrow>
               if sig_num_bytes \<noteq> ucast (key_len parsed_key) * 4 then Some (False, w1)
               else if padding_num_bytes \<noteq> sig_num_bytes - hash_num_bytes then Some (False, w1)
               else
                 (let (ok, w2) = avb_malloc A (unat sig_num_bytes) w1
                  in if \<not> ok then Some (False, w2)
                     else (case slice 0 (unat sig_num_bytes) sig of
                         None \<Rightarrow> None
                       | Some buf0 \<Rightarrow>
                           (let (buf, w3) = modpowF4 A parsed_key buf0 w2
                            in case avb_safe_memcmp buf padding (unat padding_num_bytes) of
                                 None \<Rightarrow> None
                               | Some r \<Rightarrow>
                                   if r \<noteq> 0 then Some (False, w3)
                                   else (case avb_safe_memcmp (drop (unat padding_num_bytes) buf) hash
                                               (unat hash_num_bytes) of
                                       None \<Rightarrow> None
                                     | Some r \<Rightarrow> Some (r = 0, w3))))))
      | _ \<Rightarrow> Some (False, w))"

subsection \<open>Numbers held by word arrays\<close>

fun le_nat :: "u32 list \<Rightarrow> nat" where
  "le_nat [] = 0"
| "le_nat (w # ws) = unat w + 2 ^ 32 * le_nat ws"

lemma le_nat_append: "le_nat (xs @ ys) = le_nat xs + 2 ^ (32 * length xs) * le_nat ys"
  by (induction xs) (simp_all add: algebra_simps power_add)

lemma le_nat_bound: "le_nat ws < 2 ^ (32 * length ws)"
proof (induction ws)
  case (Cons w ws)
  have "unat w + 2 ^ 32 * le_nat ws < 2 ^ 32 * (1 + le_nat ws)"
    using unat_less [of w] by simp
  also have "\<dots> \<le> 2 ^ 32 * 2 ^ (32 * length ws)"
    by (rule mult_left_mono) (use Cons.IH in simp_all)
  finally show ?case by (simp add: power_add)
qed simp

lemma le_nat_take_Suc:
  "k < length ws \<Longrightarrow> le_nat (take (Suc k) ws) = le_nat (take k ws) + 2 ^ (32 * k) * unat (ws ! k)"
  by (simp add: take_Suc_conv_app_nth le_nat_append)

lemma le_nat_zeros [simp]: "le_nat (replicate n 0) = 0"
  by (induction n) simp_all

lemma le_nat_be:
  assumes "\<And>b. length b = 4 \<Longrightarrow> unat (f b) = be_nat b" "length bs = 4 * n"
  shows "le_nat (map (\<lambda>i. f (take 4 (drop (4 * (n - i - 1)) bs))) [0..<n]) = be_nat bs"
  using assms(2)
proof (induction n arbitrary: bs)
  case (Suc n)
  let ?hd = "take 4 bs" and ?tl = "drop 4 bs"
  have eq: "map (\<lambda>i. f (take 4 (drop (4 * (Suc n - i - 1)) bs))) [0..<n] =
      map (\<lambda>i. f (take 4 (drop (4 * (n - i - 1)) ?tl))) [0..<n]"
  proof (rule map_cong [OF refl])
    fix i
    assume "i \<in> set [0..<n]"
    then have "4 * (Suc n - i - 1) = 4 * (n - i - 1) + 4" by auto
    then show "f (take 4 (drop (4 * (Suc n - i - 1)) bs)) = f (take 4 (drop (4 * (n - i - 1)) ?tl))"
      by (simp only: drop_drop)
  qed
  have "le_nat (map (\<lambda>i. f (take 4 (drop (4 * (Suc n - i - 1)) bs))) [0..<n]) = be_nat ?tl"
    unfolding eq by (rule Suc.IH) (use Suc.prems in simp)
  then have "le_nat (map (\<lambda>i. f (take 4 (drop (4 * (Suc n - i - 1)) bs))) [0..<Suc n]) =
      be_nat ?tl + 2 ^ (32 * n) * unat (f ?hd)"
    by (simp add: le_nat_append)
  also have "unat (f ?hd) = be_nat ?hd" using assms(1) Suc.prems by simp
  also have "be_nat ?tl + 2 ^ (32 * n) * be_nat ?hd = be_nat (?hd @ ?tl)"
  proof -
    have "(256 :: nat) ^ (4 * n) = 2 ^ (32 * n)"
      by (simp add: power_mult [of "2 :: nat" 8, symmetric, simplified] power_mult)
    then show ?thesis using Suc.prems by (simp only: be_nat_append) simp
  qed
  finally show ?case by simp
qed simp

subsection \<open>Subtraction of the modulus\<close>

lemma uint_u32: "0 \<le> uint (x :: u32)" "uint (x :: u32) < 4294967296"
  using uint_bounded [of x] by simp_all

lemma subM_step_word:
  fixes x y :: u32 and s :: int
  assumes "s = 0 \<or> s = - 1"
  defines "z \<equiv> s + uint x - uint y"
  shows "signed_drop_bit 32 (word_of_int s + (ucast x - ucast y) :: u64) = word_of_int (z div 2 ^ 32)"
    "uint (ucast (word_of_int s + (ucast x - ucast y) :: u64) :: u32) = z mod 2 ^ 32"
    "z div 2 ^ 32 = 0 \<or> z div 2 ^ 32 = - 1"
proof -
  have w: "(word_of_int s + (ucast x - ucast y) :: u64) = word_of_int z"
    by (simp only: z_def ucast_eq wi_hom_sub wi_hom_add add_diff_eq)
  have z: "- 4294967296 \<le> z" "z < 4294967296"
    unfolding z_def using assms(1) uint_u32 [of x] uint_u32 [of y] by linarith+
  have "sint (word_of_int z :: u64) = signed_take_bit 63 z" by (simp add: sint_sbintrunc')
  also have "\<dots> = z" by (rule signed_take_bit_int_eq_self) (use z in simp_all)
  finally have si: "sint (word_of_int z :: u64) = z" .
  have "sint (signed_drop_bit 32 (word_of_int z :: u64)) = z div 2 ^ 32"
    by (simp add: sint_signed_drop_bit_eq si drop_bit_eq_div)
  from arg_cong [OF this, of "word_of_int :: int \<Rightarrow> u64"]
  show "signed_drop_bit 32 (word_of_int s + (ucast x - ucast y) :: u64) = word_of_int (z div 2 ^ 32)"
    by (simp only: w of_int_sint scast_id)
  have "uint (ucast (word_of_int z :: u64) :: u32) = take_bit 32 (take_bit 64 z)"
    by (simp add: ucast_eq uint_word_of_int_eq)
  also have "\<dots> = z mod 2 ^ 32" by (simp only: take_bit_take_bit) (simp add: take_bit_eq_mod)
  finally show "uint (ucast (word_of_int s + (ucast x - ucast y) :: u64) :: u32) = z mod 2 ^ 32"
    by (simp only: w)
  show "z div 2 ^ 32 = 0 \<or> z div 2 ^ 32 = - 1"
  proof (cases "0 \<le> z")
    case False
    have "z div 2 ^ 32 = (z + 2 ^ 32) div 2 ^ 32 - 1" by simp
    also have "(z + 2 ^ 32) div 2 ^ 32 = 0" by (rule div_pos_pos_trivial) (use z False in simp_all)
    finally show ?thesis by simp
  qed (use z in simp)
qed

lemma subM_loop:
  assumes "length a = length (key_n key)" "k \<le> length a"
  shows "\<exists>s a'. fold (subM_step key) [0..<k] (0, a) = (word_of_int s, a') \<and> (s = 0 \<or> s = - 1) \<and>
     length a' = length a \<and> drop k a' = drop k a \<and>
     int (le_nat (take k a')) + 2 ^ (32 * k) * s =
       int (le_nat (take k a)) - int (le_nat (take k (key_n key)))"
  using assms(2)
proof (induction k)
  case 0
  show ?case by (intro exI [of _ 0] exI [of _ a]) simp
next
  case (Suc k)
  then obtain s a' where IH: "fold (subM_step key) [0..<k] (0, a) = (word_of_int s, a')"
      "s = 0 \<or> s = - 1" "length a' = length a" "drop k a' = drop k a"
      "int (le_nat (take k a')) + 2 ^ (32 * k) * s =
         int (le_nat (take k a)) - int (le_nat (take k (key_n key)))"
    by auto
  have nth: "a' ! k = a ! k" using IH(3,4) Suc.prems by (metis Cons_nth_drop_Suc Suc_le_eq list.sel(1))
  define z where "z = s + uint (a ! k) - uint (key_n key ! k)"
  note W = subM_step_word [OF IH(2), of "a ! k" "key_n key ! k", folded z_def]
  let ?a = "a'[k := ucast (word_of_int s + (ucast (a ! k) - ucast (key_n key ! k)) :: u64)]"
  have st: "fold (subM_step key) [0..<Suc k] (0, a) = (word_of_int (z div 2 ^ 32), ?a)"
    by (simp only: upt_Suc_append [OF le0] fold_append fold.simps comp_apply id_apply IH(1)
        subM_step_def Let_def prod.case nth W(1))
  have "int (le_nat (take (Suc k) ?a)) = int (le_nat (take k a')) + 2 ^ (32 * k) * (z mod 2 ^ 32)"
    using Suc.prems IH(3) by (simp add: le_nat_take_Suc W(2))
  moreover have "int (le_nat (take (Suc k) a)) = int (le_nat (take k a)) + 2 ^ (32 * k) * uint (a ! k)"
      "int (le_nat (take (Suc k) (key_n key))) =
         int (le_nat (take k (key_n key))) + 2 ^ (32 * k) * uint (key_n key ! k)"
    using Suc.prems assms(1) by (simp_all add: le_nat_take_Suc)
  moreover have "2 ^ (32 * Suc k) * (z div 2 ^ 32) + 2 ^ (32 * k) * (z mod 2 ^ 32) = 2 ^ (32 * k) * z"
  proof -
    have "2 ^ (32 * Suc k) = 2 ^ (32 * k) * (2 ^ 32 :: int)"
      using power_add [of "2 :: int" "32 * k" 32] by (simp only: mult_Suc_right add.commute)
    then show ?thesis by (simp only: mult.assoc distrib_left [symmetric] mult_div_mod_eq)
  qed
  ultimately have "int (le_nat (take (Suc k) ?a)) + 2 ^ (32 * Suc k) * (z div 2 ^ 32) =
      int (le_nat (take (Suc k) a)) - int (le_nat (take (Suc k) (key_n key)))"
    using IH(5) by (simp only: z_def) (simp add: algebra_simps)
  moreover have "drop (Suc k) ?a = drop (Suc k) a"
    using IH(4) by (simp add: drop_update_cancel) (metis drop_drop plus_1_eq_Suc)
  ultimately show ?case using st W(3) IH(3) by (intro exI [of _ "z div 2 ^ 32"] exI [of _ ?a]) simp
qed

lemma subM_value:
  assumes "length a = length (key_n key)" "length a = unat (key_len key)"
  shows "length (subM key a) = length a"
    "\<exists>s. (s = 0 \<or> s = 1) \<and>
       int (le_nat (subM key a)) = int (le_nat a) - int (le_nat (key_n key)) + 2 ^ (32 * length a) * s"
proof -
  have n: "take (length a) (key_n key) = key_n key" using assms(1) by simp
  from subM_loop [OF assms(1) order_refl] obtain s a'
    where l: "fold (subM_step key) [0..<length a] (0, a) = (word_of_int s, a')" "s = 0 \<or> s = - 1"
      "length a' = length a"
      "int (le_nat (take (length a) a')) + 2 ^ (32 * length a) * s =
         int (le_nat (take (length a) a)) - int (le_nat (take (length a) (key_n key)))"
    by blast
  have sub: "subM key a = a'" using l(1) assms(2) by (simp add: subM_def)
  show "length (subM key a) = length a" using l(3) sub by simp
  show "\<exists>s. (s = 0 \<or> s = 1) \<and>
       int (le_nat (subM key a)) = int (le_nat a) - int (le_nat (key_n key)) + 2 ^ (32 * length a) * s"
    using l(2-4) by (intro exI [of _ "- s"]) (auto simp: sub n)
qed

text \<open>Without a borrow the difference is exact.\<close>

lemma subM_ge:
  assumes "length a = length (key_n key)" "length a = unat (key_len key)"
    "le_nat (key_n key) \<le> le_nat a"
  shows "le_nat (subM key a) = le_nat a - le_nat (key_n key)"
proof -
  from subM_value(2) [OF assms(1,2)] obtain s where s: "s = 0 \<or> s = 1"
    "int (le_nat (subM key a)) = int (le_nat a) - int (le_nat (key_n key)) + 2 ^ (32 * length a) * s"
    by blast
  have "int (le_nat (subM key a)) < 2 ^ (32 * length a)"
    using le_nat_bound [of "subM key a"] subM_value(1) [OF assms(1,2)] by (metis of_nat_less_iff of_nat_numeral of_nat_power)
  with s assms(3) show ?thesis by auto
qed

lemma le_nat_less_hi:
  assumes "length xs = length ys" "x < y"
  shows "le_nat (xs @ [x]) < le_nat (ys @ [y])"
proof -
  have "le_nat xs + 2 ^ (32 * length xs) * unat x < 2 ^ (32 * length xs) * (unat x + 1)"
    using le_nat_bound [of xs] by simp
  also have "\<dots> \<le> 2 ^ (32 * length xs) * unat y"
    using assms(2) by (intro mult_left_mono) (simp_all add: word_less_nat_alt)
  finally show ?thesis using assms(1) by (simp add: le_nat_append)
qed

lemma geM_loop_value:
  assumes "k \<le> length a" "length a = length (key_n key)"
  shows "geM_loop key a k \<longleftrightarrow> le_nat (take k (key_n key)) \<le> le_nat (take k a)"
  using assms(1)
proof (induction k)
  case (Suc k)
  let ?n = "key_n key"
  have t: "take (Suc k) a = take k a @ [a ! k]" "take (Suc k) ?n = take k ?n @ [?n ! k]"
    using Suc.prems assms(2) by (simp_all add: take_Suc_conv_app_nth)
  have l: "length (take k a) = length (take k ?n)" using assms(2) by simp
  consider "a ! k < ?n ! k" | "?n ! k < a ! k" | "a ! k = ?n ! k" by (meson linorder_less_linear)
  then show ?case
  proof cases
    case 1
    then show ?thesis using le_nat_less_hi [OF l 1] unfolding t by simp
  next
    case 2
    then show ?thesis using le_nat_less_hi [OF l [symmetric] 2] unfolding t by simp
  next
    case 3
    then show ?thesis using Suc assms(2) unfolding t by (simp add: le_nat_append)
  qed
qed simp

lemma geM_value:
  "length a = length (key_n key) \<Longrightarrow> length a = unat (key_len key) \<Longrightarrow>
   geM key a \<longleftrightarrow> le_nat (key_n key) \<le> le_nat a"
  using geM_loop_value [of "length a" a key] by (simp add: geM_def)

subsection \<open>The multiply-and-add row\<close>

definition hi32 :: "u64 \<Rightarrow> nat" where
  "hi32 A = unat A div 2 ^ 32"

definition lo32 :: "u64 \<Rightarrow> nat" where
  "lo32 A = unat A mod 2 ^ 32"

lemma hi_lo: "unat A = 2 ^ 32 * hi32 A + lo32 A"
  by (simp only: hi32_def lo32_def mult_div_mod_eq)

lemma unat_lo: "unat (ucast (A :: u64) :: u32) = lo32 A"
  by (simp add: lo32_def unsigned_ucast_eq take_bit_eq_mod)

lemma unat_hi: "unat (drop_bit 32 (A :: u64)) = hi32 A"
  by (simp only: unat_drop_bit hi32_def)

lemma hi_lo_less: "hi32 A < 2 ^ 32" "lo32 A < 2 ^ 32"
  using unat_less [of A] by (simp_all add: hi32_def lo32_def less_mult_imp_div_less)

lemma mul_step_bound:
  fixes p q r s :: nat
  assumes "p < 4294967296" "q < 4294967296" "r < 4294967296" "s < 4294967296"
  shows "p + q * r + s < 18446744073709551616"
proof -
  have "q * r \<le> 4294967295 * 4294967295" by (rule mult_le_mono) (use assms in simp_all)
  with assms show ?thesis by simp
qed

text \<open>One multiply-accumulate of the row does not overflow 64 bits.\<close>

lemma unat_mul_step:
  fixes x y :: u32
  assumes "unat p < 4294967296" "unat s < 4294967296"
  shows "unat (p + ucast x * ucast y + s :: u64) = unat p + unat x * unat y + unat s"
proof -
  have b: "unat x < 4294967296" "unat y < 4294967296" using unat_less [of x] unat_less [of y] by simp_all
  note B = mul_step_bound [OF assms(1) b assms(2)]
  have "unat (ucast x * ucast y :: u64) = unat x * unat y"
    using B by (subst unat_mult_lem [THEN iffD1]) (simp_all add: unat_ucast_up)
  moreover from this have "unat (p + ucast x * ucast y) = unat p + unat x * unat y"
    using B by (subst unat_add_lem [THEN iffD1]) simp_all
  ultimately show ?thesis using B by (subst unat_add_lem [THEN iffD1]) simp_all
qed

lemma montMulAdd_loop:
  assumes len: "length b = L" "length c = L" "length (key_n key) = L" "0 < L"
    and n0: "key_n0inv key * key_n key ! 0 = - 1"
    and d0: "d0 = ucast A0 * key_n0inv key"
    and A0: "A0 = ucast a * ucast (b ! 0) + ucast (c ! 0)"
    and B0: "B0 = ucast d0 * ucast (key_n key ! 0) + ucast (ucast A0 :: u32)"
    and k: "k < L"
  shows "\<exists>A B c'. fold (montMulAdd_step key a d0 b) [1..<Suc k] (A0, B0, c) = (A, B, c') \<and>
     length c' = L \<and> drop k c' = drop k c \<and>
     unat a * le_nat (take (Suc k) b) + le_nat (take (Suc k) c) + unat d0 * le_nat (take (Suc k) (key_n key)) =
       2 ^ 32 * le_nat (take k c') + 2 ^ (32 * Suc k) * (hi32 A + hi32 B)"
  using k
proof (induction k)
  case 0
  have A0u: "unat A0 = unat a * unat (b ! 0) + unat (c ! 0)"
    using unat_mul_step [of 0 "ucast (c ! 0)" a "b ! 0"] unat_less [of "c ! 0"]
    by (simp add: A0 unat_ucast_up)
  have B0u: "unat B0 = unat d0 * unat (key_n key ! 0) + lo32 A0"
    using unat_mul_step [of 0 "ucast (ucast A0 :: u32)" d0 "key_n key ! 0"] hi_lo_less(2) [of A0]
    by (simp add: B0 unat_ucast_up unat_lo)
  have "unat (d0 * key_n key ! 0 + ucast A0) = lo32 B0"
    by (simp add: unat_word_ariths unat_lo lo32_def B0u mod_add_left_eq)
  moreover have "d0 * key_n key ! 0 + ucast A0 = 0"
  proof -
    have "d0 * key_n key ! 0 = ucast A0 * (key_n0inv key * key_n key ! 0)" by (simp add: d0 mult.assoc)
    then show ?thesis by (simp add: n0)
  qed
  ultimately have lo: "lo32 B0 = 0" by simp
  have t: "le_nat (take (Suc 0) ws) = unat (ws ! 0)" if "length ws = L" for ws
    using le_nat_take_Suc [of 0 ws] that len(4) by simp
  have "unat a * unat (b ! 0) + unat (c ! 0) + unat d0 * unat (key_n key ! 0) = 2 ^ 32 * (hi32 A0 + hi32 B0)"
    using A0u B0u hi_lo [of A0] hi_lo [of B0] by (simp add: lo)
  then show ?case
    by (intro exI [of _ A0] exI [of _ B0] exI [of _ c]) (simp add: t len)
next
  case (Suc k)
  then obtain A B c' where IH: "fold (montMulAdd_step key a d0 b) [1..<Suc k] (A0, B0, c) = (A, B, c')"
     "length c' = L" "drop k c' = drop k c"
     "unat a * le_nat (take (Suc k) b) + le_nat (take (Suc k) c) + unat d0 * le_nat (take (Suc k) (key_n key)) =
       2 ^ 32 * le_nat (take k c') + 2 ^ (32 * Suc k) * (hi32 A + hi32 B)"
    by auto
  let ?k = "Suc k"
  define A' where "A' = drop_bit 32 A + ucast a * ucast (b ! ?k) + ucast (c ! ?k)"
  define B' where "B' = drop_bit 32 B + ucast d0 * ucast (key_n key ! ?k) + ucast (ucast A' :: u32)"
  have nth: "c' ! ?k = c ! ?k"
    using IH(2,3) len(2) Suc.prems by (metis Suc_lessD le_add1 less_imp_le nth_drop plus_1_eq_Suc add.commute)
  have A': "unat A' = hi32 A + unat a * unat (b ! ?k) + unat (c ! ?k)"
    using unat_mul_step [of "drop_bit 32 A" "ucast (c ! ?k)" a "b ! ?k"] unat_less [of "c ! ?k"]
      hi_lo_less(1) [of A] by (simp add: A'_def unat_ucast_up unat_hi)
  have B': "unat B' = hi32 B + unat d0 * unat (key_n key ! ?k) + lo32 A'"
    using unat_mul_step [of "drop_bit 32 B" "ucast (ucast A' :: u32)" d0 "key_n key ! ?k"]
      hi_lo_less [of A'] hi_lo_less(1) [of B] by (simp add: B'_def unat_ucast_up unat_lo unat_hi)
  let ?c = "c'[k := ucast B']"
  have up: "[1..<Suc (Suc k)] = [1..<Suc k] @ [Suc k]" by simp
  have st: "fold (montMulAdd_step key a d0 b) [1..<Suc ?k] (A0, B0, c) = (A', B', ?c)"
    by (simp only: up fold_append fold.simps comp_apply id_apply IH(1) montMulAdd_step_def Let_def
        prod.case nth A'_def B'_def diff_Suc_1)
  have v: "le_nat (take ?k ?c) = le_nat (take k c') + 2 ^ (32 * k) * lo32 B'"
    using IH(2) Suc.prems by (simp add: le_nat_take_Suc unat_lo)
  have row: "hi32 A + hi32 B + unat a * unat (b ! ?k) + unat (c ! ?k) + unat d0 * unat (key_n key ! ?k) =
      2 ^ 32 * (hi32 A' + hi32 B') + lo32 B'"
    using A' B' hi_lo [of A'] hi_lo [of B'] by simp
  let ?P = "2 ^ (32 * ?k) :: nat"
  have P: "2 ^ 32 * 2 ^ (32 * k) = ?P" "2 ^ (32 * Suc ?k) = ?P * 2 ^ 32"
    using power_add [of "2 :: nat" 32 "32 * k"] power_add [of "2 :: nat" "32 * ?k" 32]
    by (simp_all only: mult_Suc_right add.commute)
  have "unat a * le_nat (take (Suc ?k) b) + le_nat (take (Suc ?k) c) + unat d0 * le_nat (take (Suc ?k) (key_n key)) =
     (unat a * le_nat (take ?k b) + le_nat (take ?k c) + unat d0 * le_nat (take ?k (key_n key))) +
     ?P * (unat a * unat (b ! ?k) + unat (c ! ?k) + unat d0 * unat (key_n key ! ?k))"
    using len Suc.prems by (simp only: le_nat_take_Suc) (simp only: algebra_simps)
  also have "\<dots> = 2 ^ 32 * le_nat (take k c') +
     ?P * (hi32 A + hi32 B + unat a * unat (b ! ?k) + unat (c ! ?k) + unat d0 * unat (key_n key ! ?k))"
    by (simp only: IH(4)) (simp only: algebra_simps)
  also have "\<dots> = 2 ^ 32 * le_nat (take ?k ?c) + 2 ^ (32 * Suc ?k) * (hi32 A' + hi32 B')"
    by (simp only: row v P(2)) (simp only: distrib_left mult.assoc [symmetric] P(1) add.commute add.left_commute)
  finally have eq: "unat a * le_nat (take (Suc ?k) b) + le_nat (take (Suc ?k) c) + unat d0 * le_nat (take (Suc ?k) (key_n key)) =
       2 ^ 32 * le_nat (take ?k ?c) + 2 ^ (32 * Suc ?k) * (hi32 A' + hi32 B')" .
  have "drop ?k ?c = drop ?k c"
    using arg_cong [OF IH(3), of "drop 1"] by simp
  then show ?case using st eq IH(2) by (intro exI [of _ A'] exI [of _ B'] exI [of _ ?c]) simp
qed

text \<open>What the code needs of a key: the sizes agree, \<open>n0inv\<close> is \<open>- 1 / n[0]\<close>.\<close>

definition mont_key :: "IAvbKey \<Rightarrow> bool" where
  "mont_key key \<longleftrightarrow> 0 < unat (key_len key) \<and>
     length (key_n key) = unat (key_len key) \<and> length (key_rr key) = unat (key_len key) \<and>
     key_n0inv key * key_n key ! 0 = - 1"

abbreviation modulus :: "IAvbKey \<Rightarrow> nat" where
  "modulus key \<equiv> le_nat (key_n key)"

abbreviation words_of :: "IAvbKey \<Rightarrow> u32 list \<Rightarrow> bool" where
  "words_of key a \<equiv> length a = unat (key_len key)"

lemma montMulAdd_total:
  assumes key: "mont_key key" and b: "words_of key b" and c: "words_of key c"
  shows "\<exists>c2 A2 d0. montMulAdd key c a b = (if drop_bit 32 A2 \<noteq> 0 then subM key c2 else c2) \<and>
     words_of key c2 \<and>
     unat a * le_nat b + le_nat c + unat (d0 :: u32) * modulus key =
       2 ^ 32 * (le_nat c2 + 2 ^ (32 * unat (key_len key)) * hi32 A2)"
proof -
  define L where "L = unat (key_len key)"
  then obtain k where k: "L = Suc k" using key by (metis mont_key_def gr0_implies_Suc)
  note l = b [folded L_def] c [folded L_def]
  have n: "length (key_n key) = L" "0 < L" "key_n0inv key * key_n key ! 0 = - 1"
    using key by (simp_all add: mont_key_def L_def)
  define A0 where "A0 = (ucast a * ucast (b ! 0) + ucast (c ! 0) :: u64)"
  define d0 where "d0 = ucast A0 * key_n0inv key"
  define B0 where "B0 = (ucast d0 * ucast (key_n key ! 0) + ucast (ucast A0 :: u32) :: u64)"
  from montMulAdd_loop [OF l n(1,2,3) d0_def A0_def B0_def, of k] k
  obtain A B c' where loop: "fold (montMulAdd_step key a d0 b) [1..<Suc k] (A0, B0, c) = (A, B, c')"
     "length c' = L"
     "unat a * le_nat (take (Suc k) b) + le_nat (take (Suc k) c) + unat d0 * le_nat (take (Suc k) (key_n key)) =
       2 ^ 32 * le_nat (take k c') + 2 ^ (32 * Suc k) * (hi32 A + hi32 B)"
    by blast
  define A2 where "A2 = drop_bit 32 A + drop_bit 32 B"
  define c2 where "c2 = c'[k := ucast A2]"
  have mx: "max 1 (Suc k) - 1 = k" by simp
  have mm: "montMulAdd key c a b = (if drop_bit 32 A2 \<noteq> 0 then subM key c2 else c2)"
    by (simp only: montMulAdd_def Let_def A0_def [symmetric] d0_def [symmetric] B0_def [symmetric]
        L_def [symmetric] k loop(1) prod.case A2_def [symmetric] mx c2_def [symmetric])
  have "unat A2 = hi32 A + hi32 B"
    using hi_lo_less(1) [of A] hi_lo_less(1) [of B]
    unfolding A2_def by (subst unat_add_lem [THEN iffD1]) (simp_all add: unat_hi)
  then have split: "hi32 A + hi32 B = 2 ^ 32 * hi32 A2 + lo32 A2" using hi_lo [of A2] by simp
  have tk: "take (Suc k) b = b" "take (Suc k) c = c" "take (Suc k) (key_n key) = key_n key"
    using l n(1) k by simp_all
  have v: "le_nat c2 = le_nat (take k c') + 2 ^ (32 * k) * lo32 A2"
    using le_nat_take_Suc [of k c2] loop(2) k by (simp add: c2_def unat_lo)
  let ?Q = "2 ^ (32 * k) :: nat"
  have P: "2 ^ (32 * Suc k) = 2 ^ 32 * ?Q" using power_add [of "2 :: nat" 32 "32 * k"] by (simp only: mult_Suc_right)
  have "2 ^ 32 * le_nat (take k c') + 2 ^ (32 * Suc k) * (hi32 A + hi32 B) =
      2 ^ 32 * (le_nat c2 + 2 ^ (32 * L) * hi32 A2)"
    by (simp only: v split P k) (simp only: distrib_left ac_simps)
  moreover have "length c2 = L" using loop(2) by (simp add: c2_def)
  ultimately show ?thesis using mm loop(3) by (simp only: tk L_def [symmetric]) blast
qed

text \<open>One row: the array stays an array of the key's length, and modulo \<open>n\<close> it is \<open>(c + a * b) / 2 ^ 32\<close>.\<close>

lemma montMulAdd_value:
  assumes key: "mont_key key" and b: "words_of key b" and c: "words_of key c"
  shows "words_of key (montMulAdd key c a b)"
    "2 ^ 32 * le_nat (montMulAdd key c a b) mod modulus key = (unat a * le_nat b + le_nat c) mod modulus key"
proof -
  let ?N = "modulus key" and ?R = "2 ^ (32 * unat (key_len key)) :: nat"
  from montMulAdd_total [OF assms, of a] obtain c2 A2 and d0 :: u32
    where mm: "montMulAdd key c a b = (if drop_bit 32 A2 \<noteq> 0 then subM key c2 else c2)"
      and l2: "words_of key c2"
      and tot: "unat a * le_nat b + le_nat c + unat d0 * ?N = 2 ^ 32 * (le_nat c2 + ?R * hi32 A2)"
    by blast
  have nl: "length (key_n key) = unat (key_len key)" using key by (simp add: mont_key_def)
  have R: "le_nat b < ?R" "le_nat c < ?R" "?N < ?R" "le_nat c2 < ?R"
    using le_nat_bound [of b] le_nat_bound [of c] le_nat_bound [of "key_n key"] le_nat_bound [of c2]
      b c nl l2 by simp_all
  have "unat a \<le> 2 ^ 32 - 1" "unat d0 \<le> 2 ^ 32 - 1"
    using unat_less [of a] unat_less [of d0] by simp_all
  then have "unat a * le_nat b + le_nat c + unat d0 * ?N \<le> (2 ^ 32 - 1) * le_nat b + le_nat c + (2 ^ 32 - 1) * ?N"
    by (intro add_mono mult_right_mono) simp_all
  also have "\<dots> < 2 ^ 32 * (?R + ?N)" using R by simp
  finally have T: "le_nat c2 + ?R * hi32 A2 < ?R + ?N" by (simp only: tot) simp
  have z: "drop_bit 32 A2 = 0 \<longleftrightarrow> hi32 A2 = 0"
    by (simp only: unat_hi [symmetric] unat_eq_0)
  have "?R * hi32 A2 < ?R * 2" using T R(3) by linarith
  then have "hi32 A2 < 2" by (simp only: mult_less_cancel1)
  then consider "hi32 A2 = 0" | "hi32 A2 = 1" by linarith
  then show "words_of key (montMulAdd key c a b)"
    "2 ^ 32 * le_nat (montMulAdd key c a b) mod ?N = (unat a * le_nat b + le_nat c) mod ?N"
  proof (atomize (full), cases)
    case 1
    then have "montMulAdd key c a b = c2" using mm z by simp
    moreover from this 1 tot have "2 ^ 32 * le_nat (montMulAdd key c a b) =
        (unat a * le_nat b + le_nat c) + unat d0 * ?N" by simp
    ultimately show "words_of key (montMulAdd key c a b) \<and>
      2 ^ 32 * le_nat (montMulAdd key c a b) mod ?N = (unat a * le_nat b + le_nat c) mod ?N"
      using l2 by (metis mod_mult_self1)
  next
    case 2
    then have m: "montMulAdd key c a b = subM key c2" using mm z by simp
    have ln: "length c2 = length (key_n key)" using l2 nl by simp
    from subM_value [OF ln l2] obtain s where s: "words_of key (subM key c2)" "s = 0 \<or> s = 1"
       "int (le_nat (subM key c2)) = int (le_nat c2) - int ?N + 2 ^ (32 * length c2) * s"
      using l2 by auto
    have "le_nat (subM key c2) < ?R" using le_nat_bound [of "subM key c2"] s(1) by simp
    moreover have "le_nat c2 < ?N" using T 2 by simp
    ultimately have "int (le_nat (subM key c2)) = int (le_nat c2) - int ?N + int ?R"
      using s(2,3) l2 by auto
    then have "le_nat (subM key c2) + ?N = le_nat c2 + ?R" by linarith
    then have "2 ^ 32 * (le_nat (subM key c2) + ?N) = unat a * le_nat b + le_nat c + unat d0 * ?N"
      using tot 2 by (simp only:) simp
    then have "2 ^ 32 * le_nat (subM key c2) + 2 ^ 32 * ?N = unat a * le_nat b + le_nat c + unat d0 * ?N"
      by (simp only: distrib_left)
    then have "2 ^ 32 * le_nat (subM key c2) mod ?N = (unat a * le_nat b + le_nat c) mod ?N"
      by (metis mod_mult_self1)
    with s(1) m show "words_of key (montMulAdd key c a b) \<and>
      2 ^ 32 * le_nat (montMulAdd key c a b) mod ?N = (unat a * le_nat b + le_nat c) mod ?N" by simp
  qed
qed

lemma montMul_value:
  assumes key: "mont_key key" and a: "words_of key a" and b: "words_of key b"
  shows "words_of key (montMul key a b)"
    "2 ^ (32 * unat (key_len key)) * le_nat (montMul key a b) mod modulus key =
       le_nat a * le_nat b mod modulus key"
proof -
  let ?f = "\<lambda>k. fold (\<lambda>i c. montMulAdd key c (a ! i) b) [0..<k] (replicate (unat (key_len key)) 0)"
  let ?N = "modulus key"
  have "words_of key (?f k) \<and> 2 ^ (32 * k) * le_nat (?f k) mod ?N = le_nat (take k a) * le_nat b mod ?N"
    if "k \<le> length a" for k
    using that
  proof (induction k)
    case (Suc k)
    let ?c = "?f k" and ?x = "a ! k"
    have IH: "words_of key ?c" "2 ^ (32 * k) * le_nat ?c mod ?N = le_nat (take k a) * le_nat b mod ?N"
      using Suc by simp_all
    note M = montMulAdd_value [OF key b IH(1), of ?x]
    have f: "?f (Suc k) = montMulAdd key ?c ?x b" by simp
    have "2 ^ (32 * Suc k) = 2 ^ 32 * (2 :: nat) ^ (32 * k)"
      using power_add [of "2 :: nat" 32 "32 * k"] by (simp only: mult_Suc_right)
    then have "2 ^ (32 * Suc k) * le_nat (?f (Suc k)) = 2 ^ (32 * k) * (2 ^ 32 * le_nat (montMulAdd key ?c ?x b))"
      by (simp only: f ac_simps)
    also have "\<dots> mod ?N = 2 ^ (32 * k) * (unat ?x * le_nat b + le_nat ?c) mod ?N"
      by (rule mod_mult_cong [OF refl M(2)])
    also have "2 ^ (32 * k) * (unat ?x * le_nat b + le_nat ?c) =
        2 ^ (32 * k) * unat ?x * le_nat b + 2 ^ (32 * k) * le_nat ?c"
      by (simp only: distrib_left ac_simps)
    also have "\<dots> mod ?N = (2 ^ (32 * k) * unat ?x * le_nat b + le_nat (take k a) * le_nat b) mod ?N"
      by (rule mod_add_cong [OF refl IH(2)])
    also have "2 ^ (32 * k) * unat ?x * le_nat b + le_nat (take k a) * le_nat b =
        le_nat (take (Suc k) a) * le_nat b"
      using Suc.prems by (simp only: le_nat_take_Suc Suc_le_eq) (simp only: algebra_simps)
    finally show ?case using M(1) f by (simp only:)
  qed simp
  from this [of "length a"] a show "words_of key (montMul key a b)"
    "2 ^ (32 * unat (key_len key)) * le_nat (montMul key a b) mod ?N = le_nat a * le_nat b mod ?N"
    by (simp_all add: montMul_def)
qed

subsection \<open>The exponentiation\<close>

text \<open>\<open>montval\<close> is a value in Montgomery form: \<open>x\<close> stands for \<open>v\<close> when \<open>x = v * R\<close> modulo \<open>n\<close>.\<close>

abbreviation mont_R :: "IAvbKey \<Rightarrow> nat" where
  "mont_R key \<equiv> 2 ^ (32 * unat (key_len key))"

definition mont_form :: "IAvbKey \<Rightarrow> u32 list \<Rightarrow> nat \<Rightarrow> bool" where
  "mont_form key x v \<longleftrightarrow> words_of key x \<and> le_nat x mod modulus key = v * mont_R key mod modulus key"

lemma mont_key_odd:
  assumes "mont_key key"
  shows "odd (modulus key)"
proof -
  obtain w ws where n: "key_n key = w # ws"
    using assms by (cases "key_n key") (auto simp: mont_key_def)
  have "odd w"
  proof
    assume "even w"
    then have "even (key_n0inv key * w)" by (rule dvd_mult)
    moreover have "key_n0inv key * w = - 1" using assms n by (simp add: mont_key_def)
    moreover have "odd (- 1 :: u32)" by simp
    ultimately show False by (simp only:)
  qed
  then have "odd (unat w)" by (simp add: bit_unsigned_iff flip: bit_0)
  then show ?thesis by (simp add: n)
qed

lemma mod_cancel:
  fixes r x y n :: nat
  assumes "coprime r n" "r * x mod n = r * y mod n"
  shows "x mod n = y mod n"
proof -
  have "int (r * x) mod int n = int (r * y) mod int n" using assms(2) by (metis zmod_int)
  then have "int n dvd int r * (int x - int y)" by (simp add: mod_eq_dvd_iff right_diff_distrib)
  then have "int n dvd int x - int y"
    using assms(1) by (simp add: coprime_dvd_mult_right_iff coprime_commute)
  then have "int x mod int n = int y mod int n" by (simp add: mod_eq_dvd_iff)
  then show ?thesis by (metis nat_int zmod_int)
qed

lemma mont_R_coprime: "mont_key key \<Longrightarrow> coprime (mont_R key) (modulus key)"
  using mont_key_odd [of key] by simp

lemma mont_form_mult:
  assumes key: "mont_key key" and x: "mont_form key x u" and y: "mont_form key y v"
  shows "mont_form key (montMul key x y) (u * v)"
proof -
  let ?R = "mont_R key" and ?N = "modulus key"
  have w: "words_of key x" "words_of key y" using x y by (simp_all add: mont_form_def)
  note M = montMul_value [OF key w]
  have "le_nat x * le_nat y mod ?N = (u * ?R) * (v * ?R) mod ?N"
    by (rule mod_mult_cong) (use x y in \<open>simp_all add: mont_form_def\<close>)
  also have "(u * ?R) * (v * ?R) = ?R * (u * v * ?R)" by (simp only: ac_simps)
  finally have "?R * le_nat (montMul key x y) mod ?N = ?R * (u * v * ?R) mod ?N" using M(2) by simp
  from mod_cancel [OF mont_R_coprime [OF key] this] M(1) show ?thesis by (simp add: mont_form_def)
qed

lemma mont_form_enter:
  assumes key: "mont_key key" and a: "words_of key a"
    and rr: "le_nat (key_rr key) mod modulus key = mont_R key ^ 2 mod modulus key"
  shows "mont_form key (montMul key a (key_rr key)) (le_nat a)"
proof -
  let ?R = "mont_R key" and ?N = "modulus key"
  have w: "words_of key (key_rr key)" using key by (simp add: mont_key_def)
  note M = montMul_value [OF key a w]
  have "le_nat a * le_nat (key_rr key) mod ?N = le_nat a * ?R ^ 2 mod ?N"
    by (rule mod_mult_cong [OF refl rr])
  also have "le_nat a * ?R ^ 2 = ?R * (le_nat a * ?R)" by (simp only: power2_eq_square ac_simps)
  finally have "?R * le_nat (montMul key a (key_rr key)) mod ?N = ?R * (le_nat a * ?R) mod ?N"
    using M(2) by simp
  from mod_cancel [OF mont_R_coprime [OF key] this] M(1) show ?thesis by (simp add: mont_form_def)
qed

lemma mont_form_leave:
  assumes key: "mont_key key" and x: "mont_form key x v" and a: "words_of key a"
  shows "le_nat (montMul key x a) mod modulus key = v * le_nat a mod modulus key"
proof -
  let ?R = "mont_R key" and ?N = "modulus key"
  have w: "words_of key x" using x by (simp add: mont_form_def)
  have "le_nat x * le_nat a mod ?N = (v * ?R) * le_nat a mod ?N"
    by (rule mod_mult_cong) (use x in \<open>simp_all add: mont_form_def\<close>)
  also have "(v * ?R) * le_nat a = ?R * (v * le_nat a)" by (simp only: ac_simps)
  finally have "?R * le_nat (montMul key x a) mod ?N = ?R * (v * le_nat a) mod ?N"
    using montMul_value(2) [OF key w a] by simp
  from mod_cancel [OF mont_R_coprime [OF key] this] show ?thesis .
qed

lemma mont_form_squarings:
  assumes key: "mont_key key" and x: "mont_form key x v"
  shows "mont_form key
     (fold (\<lambda>i aR. let aaR = montMul key aR aR in montMul key aaR aaR) [0..<k] x) (v ^ (4 ^ k))"
proof (induction k)
  case 0
  show ?case using x by simp
next
  case (Suc k)
  let ?x = "fold (\<lambda>i aR. let aaR = montMul key aR aR in montMul key aaR aaR) [0..<k] x"
  let ?u = "v ^ (4 ^ k)"
  from mont_form_mult [OF key Suc Suc] have "mont_form key (montMul key ?x ?x) (?u * ?u)" .
  from mont_form_mult [OF key this this] have "mont_form key
      (montMul key (montMul key ?x ?x) (montMul key ?x ?x)) (?u * ?u * (?u * ?u))" .
  moreover have "4 ^ k + 4 ^ k + (4 ^ k + 4 ^ k) = (4 :: nat) ^ Suc k" by simp
  then have "?u * ?u * (?u * ?u) = v ^ (4 ^ Suc k)" by (simp only: power_add [symmetric])
  ultimately show ?case by (simp add: Let_def)
qed

text \<open>
  The final comparison makes the result canonical when \<open>n\<close> has its top bit set, as an RSA
  modulus of the declared length has.
\<close>

definition rsa_key :: "IAvbKey \<Rightarrow> bool" where
  "rsa_key key \<longleftrightarrow> mont_key key \<and> mont_R key \<le> 2 * modulus key \<and>
     le_nat (key_rr key) mod modulus key = mont_R key ^ 2 mod modulus key"

lemma modpow_words_value:
  assumes key: "rsa_key key" and a: "words_of key a"
  shows "words_of key (modpow_words key a)"
    "le_nat (modpow_words key a) = le_nat a ^ 65537 mod modulus key"
proof -
  let ?N = "modulus key"
  have mk: "mont_key key" using key by (simp add: rsa_key_def)
  then have nl: "length (key_n key) = unat (key_len key)" by (simp add: mont_key_def)
  define aR where "aR = fold (\<lambda>i aR. let aaR = montMul key aR aR in montMul key aaR aaR) [0..<8]
      (montMul key a (key_rr key))"
  define aaa where "aaa = montMul key aR a"
  have m: "modpow_words key a = (if geM key aaa then subM key aaa else aaa)"
    by (simp only: modpow_words_def Let_def aR_def aaa_def)
  have "mont_form key aR (le_nat a ^ (4 ^ 8))"
    unfolding aR_def using key by (intro mont_form_squarings mk mont_form_enter a) (simp add: rsa_key_def)
  from mont_form_leave [OF mk this a] have v: "le_nat aaa mod ?N = le_nat a ^ (4 ^ 8) * le_nat a mod ?N"
    by (simp only: aaa_def)
  have w: "words_of key aaa"
    unfolding aaa_def using \<open>mont_form key aR _\<close> by (intro montMul_value(1) mk a) (simp add: mont_form_def)
  have e: "le_nat a ^ (4 ^ 8) * le_nat a = le_nat a ^ 65537"
    using power_Suc2 [of "le_nat a" "4 ^ 8"] by simp
  have l: "length aaa = length (key_n key)" using w nl by simp
  have "le_nat aaa < mont_R key" using le_nat_bound [of aaa] w by simp
  then have lt: "le_nat aaa < 2 * ?N" using key by (simp add: rsa_key_def)
  show "words_of key (modpow_words key a)"
    using w subM_value(1) [OF l w] by (simp add: m)
  show "le_nat (modpow_words key a) = le_nat a ^ 65537 mod ?N"
  proof (cases "?N \<le> le_nat aaa")
    case True
    then have "le_nat (modpow_words key a) = le_nat aaa - ?N"
      by (simp add: m geM_value [OF l w] subM_ge [OF l w True])
    also have "\<dots> = le_nat aaa mod ?N" using True lt by (simp add: le_mod_geq)
    finally show ?thesis by (simp only: v e)
  next
    case False
    then have "le_nat (modpow_words key a) = le_nat aaa mod ?N" by (simp add: m geM_value [OF l w])
    then show ?thesis by (simp only: v e)
  qed
qed

lemma inout_word_be:
  assumes "4 * k + 4 \<le> length b"
  shows "unat (inout_word b k) = be_nat (take 4 (drop (4 * k) b))"
proof -
  let ?t = "take 4 (drop (4 * k) b)"
  have l: "length ?t = 4" using assms by simp
  have "inout_word b k = avb_be32toh (load32 ?t)"
    using assms by (simp only: avb_be32toh_def mem_load(2) [OF l] Let_def inout_word_def) simp
  then show ?thesis using be32_load [OF l] by simp
qed

lemma be_nat_words: "be_nat (concat (map UNPACK32 (rev ws))) = le_nat ws"
proof (induction ws)
  case (Cons w ws)
  have "be_nat (UNPACK32 w) = unat w" "length (UNPACK32 w) = 4"
    using unat_less [of w] by (simp_all add: UNPACK32_to_be be_nat_to_be)
  then show ?case using Cons by (simp add: be_nat_append)
qed simp

lemma length_words: "length (concat (map UNPACK32 ws)) = 4 * length ws"
  by (induction ws) (simp_all add: UNPACK32_def)

definition alloc_ok :: "'w alloc \<Rightarrow> bool" where
  "alloc_ok A \<longleftrightarrow> (\<forall>n w. fst (A n w))"

lemma alloc_ok_malloc: "alloc_ok A \<Longrightarrow> avb_malloc A n w = (True, snd (A n w))"
  by (simp add: alloc_ok_def avb_malloc_def prod_eq_iff)

lemma modpowF4_value:
  assumes key: "rsa_key key" and len: "length inout = 4 * unat (key_len key)" and A: "alloc_ok A"
  shows "be_nat (fst (modpowF4 A key inout w)) = be_nat inout ^ 65537 mod modulus key"
    "length (fst (modpowF4 A key inout w)) = length inout"
proof -
  let ?L = "unat (key_len key)"
  define a where "a = map (\<lambda>i. inout_word inout (?L - 1 - i)) [0..<?L]"
  have "a = map (\<lambda>i. (\<lambda>b. avb_be32toh (load32 b)) (take 4 (drop (4 * (?L - i - 1)) inout))) [0..<?L]"
  proof (unfold a_def, rule map_cong [OF refl])
    fix i
    assume "i \<in> set [0..<?L]"
    then have k: "4 * (?L - i - 1) + 4 \<le> length inout" using len by auto
    then have "length (take 4 (drop (4 * (?L - i - 1)) inout)) = 4" by simp
    from be32_load [OF this] inout_word_be [OF k]
    have "inout_word inout (?L - i - 1) = avb_be32toh (load32 (take 4 (drop (4 * (?L - i - 1)) inout)))"
      by (simp only: word_unat_eq_iff)
    moreover have "?L - 1 - i = ?L - i - 1" by (rule diff_commute)
    ultimately show "inout_word inout (?L - 1 - i) =
        (\<lambda>b. avb_be32toh (load32 b)) (take 4 (drop (4 * (?L - i - 1)) inout))" by (simp only:)
  qed
  then have v: "le_nat a = be_nat inout" by (simp only: le_nat_be [OF be32_load len])
  have w: "words_of key a" by (simp add: a_def)
  have f: "fst (modpowF4 A key inout w) = concat (map UNPACK32 (rev (modpow_words key a)))"
    by (simp add: modpowF4_def alloc_ok_malloc [OF A] Let_def len a_def)
  note M = modpow_words_value [OF key w]
  show "be_nat (fst (modpowF4 A key inout w)) = be_nat inout ^ 65537 mod modulus key"
    by (simp only: f be_nat_words M v)
  show "length (fst (modpowF4 A key inout w)) = length inout"
    by (simp only: f length_words length_rev M len)
qed

subsection \<open>Parsing a key and verifying a signature\<close>

text \<open>A parsed key holds the numbers of the blob: header, modulus and \<open>R ^ 2\<close>, big-endian.\<close>

lemma slice_map_value:
  assumes "slice off (4 * n) data = Some bs"
  shows "le_nat (map (\<lambda>i. avb_be32toh (load32 (drop (4 * (n - i - 1)) bs))) [0..<n]) = be_nat bs"
proof -
  have l: "length bs = 4 * n" using slice_length [OF assms] .
  have "map (\<lambda>i. avb_be32toh (load32 (drop (4 * (n - i - 1)) bs))) [0..<n] =
      map (\<lambda>i. (\<lambda>b. avb_be32toh (load32 b)) (take 4 (drop (4 * (n - i - 1)) bs))) [0..<n]"
    by (simp add: load32_def)
  then show ?thesis by (simp only: le_nat_be [OF be32_load l])
qed

lemma iavb_parse_key_data_values:
  assumes "iavb_parse_key_data A data length0 w = Some (Some k, w')"
  shows "\<exists>nbits n rr. nbits \<in> {2048, 4096, 8192 :: nat} \<and> be_nat (take 4 data) = nbits \<and>
     unat (key_len k) = nbits div 32 \<and> unat length0 = 8 + nbits div 4 \<and> 8 + nbits div 4 \<le> length data \<and>
     unat (key_n0inv k) = be_nat (take 4 (drop 4 data)) \<and>
     n = take (nbits div 8) (drop 8 data) \<and> rr = take (nbits div 8) (drop (8 + nbits div 8) data) \<and>
     length (key_n k) = nbits div 32 \<and> length (key_rr k) = nbits div 32 \<and>
     modulus k = be_nat n \<and> le_nat (key_rr k) = be_nat rr"
proof -
  obtain d where d: "slice 0 8 data = Some d"
    using assms by (cases "slice 0 8 data")
      (simp_all add: iavb_parse_key_data_def avb_rsa_public_key_header_validate_and_byteswap_def)
  define kb where "kb = avb_be32toh (load32 d)"
  define n0 where "n0 = avb_be32toh (load32 (drop 4 d))"
  have hdr: "avb_rsa_public_key_header_validate_and_byteswap data = Some (True, \<lparr>key_num_bits = kb, hdr_n0inv = n0\<rparr>)"
    by (simp add: avb_rsa_public_key_header_validate_and_byteswap_def d kb_def n0_def)
  have kb: "kb = 2048 \<or> kb = 4096 \<or> kb = 8192"
    using assms by (simp add: iavb_parse_key_data_def hdr split: if_splits)
  define L where "L = unat (kb div 32)"
  have sz: "unat kb \<in> {2048, 4096, 8192}" "unat (kb div 8) = 4 * L" "L = unat kb div 32"
      "unat (8 + ucast (2 * kb div 8) :: u64) = 8 + unat kb div 4"
    using kb unfolding L_def by (elim disjE; simp)+
  have len: "length0 = 8 + ucast (2 * kb div 8)"
    using assms kb by (simp add: iavb_parse_key_data_def hdr Let_def split: if_splits)
  have al: "fst (avb_malloc A (24 + unat (2 * kb div 8)) w)"
    using assms kb len by (simp add: iavb_parse_key_data_def hdr Let_def split: if_splits prod.splits)
  then obtain w1 where al': "avb_malloc A (24 + unat (2 * kb div 8)) w = (True, w1)"
    by (cases "avb_malloc A (24 + unat (2 * kb div 8)) w") simp
  have parse: "iavb_parse_key_data A data length0 w =
      (case (slice 8 (4 * L) data, slice (8 + 4 * L) (4 * L) data) of
         (Some n, Some rr) \<Rightarrow> Some (Some \<lparr>key_len = kb div 32, key_n0inv = n0,
           key_n = map (\<lambda>i. avb_be32toh (load32 (drop (4 * (L - i - 1)) n))) [0..<L],
           key_rr = map (\<lambda>i. avb_be32toh (load32 (drop (4 * (L - i - 1)) rr))) [0..<L]\<rparr>, w1)
       | _ \<Rightarrow> None)"
    using kb by (simp only: iavb_parse_key_data_def hdr option.case prod.case if_False if_True not_True_eq_False
      AvbRSAPublicKeyHeader.select_convs len Let_def al' sz(2) L_def [symmetric] simp_thms)
  then obtain n rr where nr: "slice 8 (4 * L) data = Some n" "slice (8 + 4 * L) (4 * L) data = Some rr"
    using assms by (cases "slice 8 (4 * L) data"; cases "slice (8 + 4 * L) (4 * L) data") simp_all
  have k: "k = \<lparr>key_len = kb div 32, key_n0inv = n0,
           key_n = map (\<lambda>i. avb_be32toh (load32 (drop (4 * (L - i - 1)) n))) [0..<L],
           key_rr = map (\<lambda>i. avb_be32toh (load32 (drop (4 * (L - i - 1)) rr))) [0..<L]\<rparr>"
    using assms parse by (simp only: nr option.case prod.case option.inject prod.inject simp_thms)
  have m: "modulus k = be_nat n" "le_nat (key_rr k) = be_nat rr"
    by (simp_all only: k IAvbKey.select_convs slice_map_value [OF nr(1)] slice_map_value [OF nr(2)])
  have ld: "length d = 8" "d = take 8 data" "8 \<le> length data"
    using d by (auto simp: slice_def split: if_splits)
  have b: "unat kb = be_nat (take 4 data)" "unat n0 = be_nat (take 4 (drop 4 data))"
  proof -
    have 1: "load32 d = load32 (take 4 data)" by (simp add: load32_def ld)
    have 2: "load32 (drop 4 d) = load32 (take 4 (drop 4 data))"
      by (simp add: load32_def ld(2) drop_take)
    show "unat kb = be_nat (take 4 data)" "unat n0 = be_nat (take 4 (drop 4 data))"
      unfolding kb_def n0_def 1 2 by (rule be32_load; use ld in simp)+
  qed
  have nb: "unat kb div 8 = 4 * L" "unat kb div 4 = 4 * L + 4 * L"
    using kb unfolding L_def by (elim disjE; simp)+
  have le: "8 + unat kb div 4 \<le> length data" and nrv: "n = take (4 * L) (drop 8 data)"
      "rr = take (4 * L) (drop (8 + 4 * L) data)"
    using nr by (auto simp: slice_def nb split: if_splits)
  show ?thesis
    by (rule exI [of _ "unat kb"], rule exI [of _ n], rule exI [of _ rr])
      (simp only: m nb(1), simp only: sz(3) [symmetric], simp only: k IAvbKey.select_convs length_map length_upt,
        use sz(1,4) b le nrv in \<open>simp add: len L_def [symmetric]\<close>)
qed

lemma memcmp_zero:
  assumes "n \<le> length s1" "n \<le> length s2"
  shows "avb_safe_memcmp s1 s2 n = Some (if take n s1 = take n s2 then 0 else 1)"
  using avb_safe_memcmp_eq [OF assms] .

lemma avb_rsa_verify_parsed:
  assumes parse: "iavb_parse_key_data A key key_len0 w = Some (Some k, w1)"
    and lens: "length sig = unat sig_len" "length hash = unat hash_len" "length padding = unat padding_len"
      "unat sig_len = 4 * unat (key_len k)" "unat padding_len + unat hash_len = unat sig_len"
    and al: "avb_malloc A (length sig) w1 = (True, w2)"
    and pow: "modpowF4 A k sig w2 = (buf, w3)" "length buf = length sig"
  shows "avb_rsa_verify A (Some key) key_len0 (Some sig) sig_len (Some hash) hash_len (Some padding) padding_len w =
    Some (buf = padding @ hash, w3)"
proof -
  have kl: "key_len k \<in> {64, 128, 256}"
  proof -
    from iavb_parse_key_data_values [OF parse] have "unat (key_len k) \<in> {64, 128, 256}" by auto
    then show ?thesis by (simp add: word_unat_eq_iff)
  qed
  then have "unat sig_len = unat (ucast (key_len k) * 4 :: u64)"
    using lens(4) by auto
  then have s: "sig_len = ucast (key_len k) * 4" by (simp only: word_unat_eq_iff)
  have pl: "padding_len = sig_len - hash_len"
    using lens(5) by (subst word_unat_eq_iff, subst unat_sub) (simp_all add: word_le_nat_alt)
  have cond: "\<not> sig_len \<noteq> ucast (key_len k) * 4" "\<not> padding_len \<noteq> sig_len - hash_len"
    using s pl by simp_all
  have sl: "slice 0 (unat sig_len) sig = Some sig" using lens(1) by (simp add: slice_def)
  have c1: "avb_safe_memcmp buf padding (unat padding_len) =
      Some (if take (unat padding_len) buf = padding then 0 else 1)"
    using memcmp_zero [of "unat padding_len" buf padding] lens pow(2) by simp
  have c2: "avb_safe_memcmp (drop (unat padding_len) buf) hash (unat hash_len) =
      Some (if drop (unat padding_len) buf = hash then 0 else 1)"
    using memcmp_zero [of "unat hash_len" "drop (unat padding_len) buf" hash] lens pow(2) by simp
  have "avb_rsa_verify A (Some key) key_len0 (Some sig) sig_len (Some hash) hash_len (Some padding) padding_len w =
     Some (take (unat padding_len) buf = padding \<and> drop (unat padding_len) buf = hash, w3)"
    by (simp only: avb_rsa_verify_def prod.case option.case parse cond if_False Let_def al [unfolded lens(1)] sl pow(1) c1 c2)
      auto
  moreover have "take (unat padding_len) buf = padding \<and> drop (unat padding_len) buf = hash \<longleftrightarrow> buf = padding @ hash"
    using lens(3) by (metis append_eq_conv_conj)
  ultimately show ?thesis by simp
qed

text \<open>
  With a well-formed key and memory available, the verifier accepts exactly when the
  sizes fit and \<open>sig ^ 65537 mod n\<close> is the padding followed by the hash.
\<close>

lemma avb_rsa_verify_iff:
  assumes parse: "iavb_parse_key_data A key key_len0 w = Some (Some k, w1)" and key: "rsa_key k"
    and A: "alloc_ok A"
    and lens: "length sig = unat sig_len" "length hash = unat hash_len" "length padding = unat padding_len"
      "unat sig_len = 4 * unat (key_len k)" "unat padding_len + unat hash_len = unat sig_len"
  shows "\<exists>w'. avb_rsa_verify A (Some key) key_len0 (Some sig) sig_len (Some hash) hash_len
       (Some padding) padding_len w =
     Some (be_nat sig ^ 65537 mod modulus k = be_nat (padding @ hash), w')"
proof -
  define w2 where "w2 = snd (A (length sig) w1)"
  obtain buf w3 where p: "modpowF4 A k sig w2 = (buf, w3)" by fastforce
  have l: "length sig = 4 * unat (key_len k)" using lens by simp
  note M = modpowF4_value [OF key l A, of w2, unfolded p fst_conv]
  have "buf = padding @ hash \<longleftrightarrow> be_nat buf = be_nat (padding @ hash)"
    using M(2) lens by (intro be_nat_inject [symmetric]) simp
  with avb_rsa_verify_parsed [OF parse lens alloc_ok_malloc [OF A] p [unfolded w2_def] M(2)] M(1)
  show ?thesis by auto
qed

text \<open>Only the stated lengths of the memories matter.\<close>

lemma memcmp_loop_take: "n \<le> length s2 \<Longrightarrow> memcmp_loop r s1 (take n s2) n = memcmp_loop r s1 s2 n"
proof (induction r s1 s2 n rule: memcmp_loop.induct)
  case (2 r x us1 y us2 n)
  then show ?case by simp
qed auto

lemma avb_safe_memcmp_take:
  "n \<le> length s2 \<Longrightarrow> avb_safe_memcmp s1 (take n s2) n = avb_safe_memcmp s1 s2 n"
  by (simp add: avb_safe_memcmp_def memcmp_loop_take)

lemma avb_rsa_verify_mem:
  assumes "unat sig_len \<le> length sig" "unat hash_len \<le> length hash" "unat padding_len \<le> length padding"
  shows "avb_rsa_verify A key key_len0 (Some sig) sig_len (Some hash) hash_len (Some padding) padding_len w =
    avb_rsa_verify A key key_len0 (Some (take (unat sig_len) sig)) sig_len
      (Some (take (unat hash_len) hash)) hash_len (Some (take (unat padding_len) padding)) padding_len w"
proof -
  have "slice 0 (unat sig_len) (take (unat sig_len) sig) = slice 0 (unat sig_len) sig"
    using assms(1) by (simp add: slice_def)
  then show ?thesis
    by (cases key) (simp_all only: avb_rsa_verify_def prod.case option.case
        avb_safe_memcmp_take [OF assms(2)] avb_safe_memcmp_take [OF assms(3)])
qed

text \<open>No read leaves the memories when the key pointer has the octets the length announces.\<close>

lemma iavb_parse_key_data_total:
  assumes "8 \<le> length key" "unat key_len0 \<le> length key"
  shows "iavb_parse_key_data A key key_len0 w \<noteq> None"
proof -
  define d where "d = take 8 key"
  have d: "slice 0 8 key = Some d" using assms(1) by (simp add: slice_def d_def)
  define kb where "kb = avb_be32toh (load32 d)"
  define n0 where "n0 = avb_be32toh (load32 (drop 4 d))"
  have hdr: "avb_rsa_public_key_header_validate_and_byteswap key = Some (True, \<lparr>key_num_bits = kb, hdr_n0inv = n0\<rparr>)"
    by (simp add: avb_rsa_public_key_header_validate_and_byteswap_def d kb_def n0_def)
  show ?thesis
  proof (cases "(kb = 2048 \<or> kb = 4096 \<or> kb = 8192) \<and> key_len0 = 8 + ucast (2 * kb div 8)")
    case True
    then have "8 + unat (kb div 8) + unat (kb div 8) \<le> length key"
      using assms(2) by (elim conjE disjE) simp_all
    then have "slice 8 (unat (kb div 8)) key \<noteq> None" "slice (8 + unat (kb div 8)) (unat (kb div 8)) key \<noteq> None"
      by (simp_all add: slice_None_iff)
    then show ?thesis by (auto simp: iavb_parse_key_data_def hdr Let_def split_def split: option.splits)
  next
    case False
    then show ?thesis by (auto simp: iavb_parse_key_data_def hdr Let_def)
  qed
qed

lemma length_subM [simp]: "length (subM key a) = length a"
proof -
  have "length (snd (fold (subM_step key) is (A, a))) = length a" for "is" A
    by (induction "is" arbitrary: A a) (simp_all add: subM_step_def Let_def)
  then show ?thesis by (simp add: subM_def)
qed

lemma length_montMulAdd [simp]: "length (montMulAdd key c a b) = length c"
proof -
  have "length (snd (snd (fold (montMulAdd_step key a d0 b) is (A, B, c)))) = length c" for "is" A B d0
    by (induction "is" arbitrary: A B c) (simp_all add: montMulAdd_step_def Let_def)
  then show ?thesis by (simp add: montMulAdd_def Let_def split_def)
qed

lemma length_montMul [simp]: "length (montMul key a b) = unat (key_len key)"
proof -
  have "length (fold (\<lambda>i c. montMulAdd key c (a ! i) b) is c) = length c" for "is" c
    by (induction "is" arbitrary: c) simp_all
  then show ?thesis by (simp add: montMul_def)
qed

lemma length_modpowF4: "length inout = 4 * unat (key_len key) \<Longrightarrow> length (fst (modpowF4 A key inout w)) = length inout"
  by (simp add: modpowF4_def Let_def split_def length_words modpow_words_def)

lemma avb_rsa_verify_total:
  assumes key: "8 \<le> length key" "unat key_len0 \<le> length key"
    and lens: "unat sig_len \<le> length sig" "unat hash_len \<le> length hash" "unat padding_len \<le> length padding"
    and fit: "unat padding_len + unat hash_len \<le> 2 ^ 32"
  shows "avb_rsa_verify A (Some key) key_len0 (Some sig) sig_len (Some hash) hash_len (Some padding) padding_len w \<noteq> None"
proof (cases "iavb_parse_key_data A key key_len0 w")
  case None
  then show ?thesis using iavb_parse_key_data_total [OF key, of A w] by simp
next
  case (Some r)
  obtain ko w1 where r: "r = (ko, w1)" by (cases r)
  show ?thesis
  proof (cases ko)
    case None
    then show ?thesis by (simp add: avb_rsa_verify_def Some r)
  next
    case (Some k)
    with \<open>iavb_parse_key_data A key key_len0 w = Some r\<close> r
    have p: "iavb_parse_key_data A key key_len0 w = Some (Some k, w1)" by simp
    show ?thesis
    proof (cases "sig_len = ucast (key_len k) * 4 \<and> padding_len = sig_len - hash_len \<and>
        fst (avb_malloc A (unat sig_len) w1)")
      case False
      obtain ok w2 where m: "avb_malloc A (unat sig_len) w1 = (ok, w2)" by (cases "avb_malloc A (unat sig_len) w1")
      from False consider "sig_len \<noteq> ucast (key_len k) * 4"
        | "\<not> sig_len \<noteq> ucast (key_len k) * 4" "padding_len \<noteq> sig_len - hash_len"
        | "\<not> sig_len \<noteq> ucast (key_len k) * 4" "\<not> padding_len \<noteq> sig_len - hash_len" "\<not> ok"
        unfolding m fst_conv by blast
      then show ?thesis
        by cases (simp_all only: avb_rsa_verify_def p m Let_def prod.case option.case if_True if_False
            not_False_eq_True option.distinct)
    next
      case True
      then obtain w2 where m: "avb_malloc A (unat sig_len) w1 = (True, w2)"
        by (cases "avb_malloc A (unat sig_len) w1") simp
      have kl: "unat (key_len k) \<in> {64, 128, 256}"
        using iavb_parse_key_data_values [OF p] by auto
      then have "key_len k = 64 \<or> key_len k = 128 \<or> key_len k = 256" by (simp add: word_unat_eq_iff)
      then have "unat (ucast (key_len k) * 4 :: u64) = 4 * unat (key_len k)" by (elim disjE) simp_all
      then have sl: "unat sig_len = 4 * unat (key_len k)" using True by (simp only: simp_thms)
      have pl: "unat padding_len + unat hash_len = unat sig_len"
      proof -
        have "padding_len = sig_len - hash_len" using True by blast
        then have e: "padding_len + hash_len = sig_len" by (simp only: diff_add_cancel)
        have "unat (padding_len + hash_len) = unat padding_len + unat hash_len"
          using fit by (simp add: unat_word_ariths)
        then show ?thesis by (simp only: e)
      qed
      let ?sig = "take (unat sig_len) sig"
      have l: "length ?sig = unat sig_len" "length (take (unat hash_len) hash) = unat hash_len"
        "length (take (unat padding_len) padding) = unat padding_len" using lens by simp_all
      obtain buf w3 where b: "modpowF4 A k ?sig w2 = (buf, w3)" by fastforce
      have "length buf = length ?sig"
        using length_modpowF4 [of ?sig k A w2] l(1) sl b by simp
      moreover have "avb_malloc A (length ?sig) w1 = (True, w2)" using m by (simp only: l(1))
      ultimately show ?thesis
        using avb_rsa_verify_parsed [OF p l sl pl _ b] unfolding avb_rsa_verify_mem [OF lens] by simp
    qed
  qed
qed

text \<open>
  When one of the three buffers of \<open>modpowF4\<close> cannot be allocated, the signature is compared
  with the padded hash as it stands: an unsigned message is accepted.
\<close>

lemma avb_rsa_verify_no_memory:
  assumes parse: "iavb_parse_key_data A key key_len0 w = Some (Some k, w1)"
    and lens: "length hash = unat hash_len" "length padding = unat padding_len"
      "unat sig_len = 4 * unat (key_len k)" "unat padding_len + unat hash_len = unat sig_len"
    and al: "avb_malloc A (unat sig_len) w1 = (True, w2)" and fail: "\<not> fst (avb_malloc A (unat sig_len) w2)"
  shows "\<exists>w'. avb_rsa_verify A (Some key) key_len0 (Some (padding @ hash)) sig_len (Some hash) hash_len
       (Some padding) padding_len w = Some (True, w')"
proof -
  have l: "length (padding @ hash) = unat sig_len" using lens by simp
  obtain w3 where p: "modpowF4 A k (padding @ hash) w2 = (padding @ hash, w3)"
    using fail lens(3) that
    by (cases "avb_malloc A (4 * unat (key_len k)) w2") (auto simp: modpowF4_def Let_def split_def)
  from avb_rsa_verify_parsed [OF parse l lens al [folded l] p] show ?thesis by auto
qed

subsection \<open>Properties\<close>

text \<open>
  C10: with a well-formed key, memory available and lengths that agree, \<open>avb_rsa_verify\<close>
  accepts exactly when the 65537th power of the signature modulo \<open>n\<close> is the padding followed
  by the hash.
\<close>
theorem rsa_verify_correct:
  assumes "iavb_parse_key_data A key key_len0 w = Some (Some k, w1)" and "rsa_key k" and "alloc_ok A"
    and "length sig = unat sig_len" "length hash = unat hash_len" "length padding = unat padding_len"
      "unat sig_len = 4 * unat (key_len k)" "unat padding_len + unat hash_len = unat sig_len"
  shows "\<exists>w'. avb_rsa_verify A (Some key) key_len0 (Some sig) sig_len (Some hash) hash_len
       (Some padding) padding_len w =
     Some (be_nat sig ^ 65537 mod modulus k = be_nat (padding @ hash), w')"
  using assms by (rule avb_rsa_verify_iff)

text \<open>
  The key with \<open>n = 2 ^ 2048 - 1\<close>: \<open>n0inv = 1\<close> and \<open>R ^ 2 = 1\<close> modulo \<open>n\<close>.
\<close>

definition mersenne_blob :: bytes where
  "mersenne_blob = [0, 0, 8, 0] @ [0, 0, 0, 1] @ replicate 256 0xff @ replicate 255 0 @ [1]"

definition mersenne_key :: IAvbKey where
  "mersenne_key = \<lparr>key_len = 64, key_n0inv = 1,
     key_n = map (\<lambda>i. avb_be32toh (load32 (drop (4 * (64 - i - 1)) (replicate 256 0xff)))) [0..<64],
     key_rr = map (\<lambda>i. avb_be32toh (load32 (drop (4 * (64 - i - 1)) (replicate 255 0 @ [1])))) [0..<64]\<rparr>"

lemma be32_literals: "avb_be32toh (load32 [0, 0, 8, 0]) = 2048" "avb_be32toh (load32 [0, 0, 0, 1]) = 1"
  "avb_be32toh (load32 [0xff, 0xff, 0xff, 0xff]) = 0xffffffff"
  by (rule word_unat_eq_iff [THEN iffD2], subst be32_load, simp, simp)+

lemma mersenne_parse:
  assumes "avb_malloc A 536 w = (True, w1)"
  shows "iavb_parse_key_data A mersenne_blob 520 w = Some (Some mersenne_key, w1)"
proof -
  have h: "avb_rsa_public_key_header_validate_and_byteswap mersenne_blob =
      Some (True, \<lparr>key_num_bits = 2048, hdr_n0inv = 1\<rparr>)"
    by (simp add: avb_rsa_public_key_header_validate_and_byteswap_def mersenne_blob_def slice_def load32_def)
      (simp add: be32_literals [unfolded load32_def, simplified])
  have n: "slice 8 256 mersenne_blob = Some (replicate 256 0xff)"
      "slice 264 256 mersenne_blob = Some (replicate 255 0 @ [1])"
    by (simp_all add: mersenne_blob_def slice_def)
  show ?thesis
    by (simp add: iavb_parse_key_data_def h n assms mersenne_key_def)
qed

lemma be_nat_ones: "be_nat (replicate n 0xff) + 1 = 256 ^ n"
  by (induction n) simp_all

lemma be_nat_zeros: "be_nat (replicate n 0 @ bs) = be_nat bs"
  by (induction n) simp_all

lemma mersenne_values:
  "modulus mersenne_key + 1 = 256 ^ 256" "le_nat (key_rr mersenne_key) = 1" "unat (key_len mersenne_key) = 64"
proof -
  have s: "slice 0 (4 * 64) (replicate 256 0xff) = Some (replicate 256 (0xff :: u8))"
     "slice 0 (4 * 64) (replicate 255 0 @ [1 :: u8]) = Some (replicate 255 0 @ [1])"
    by (simp_all add: slice_def)
  have "modulus mersenne_key = be_nat (replicate 256 0xff)"
    by (simp only: mersenne_key_def IAvbKey.select_convs slice_map_value [OF s(1)])
  then show "modulus mersenne_key + 1 = 256 ^ 256" by (simp only: be_nat_ones)
  show "le_nat (key_rr mersenne_key) = 1"
    by (simp only: mersenne_key_def IAvbKey.select_convs slice_map_value [OF s(2)] be_nat_zeros) simp
qed (simp add: mersenne_key_def)

lemma mersenne_rsa_key: "rsa_key mersenne_key"
proof -
  let ?N = "modulus mersenne_key"
  have R: "mont_R mersenne_key = ?N + 1"
    by (simp only: mersenne_values(1,3)) (simp add: power_mult [of 2 8, simplified, symmetric])
  have big: "1 < ?N + 1" by (simp only: mersenne_values(1)) simp
  have "drop 252 (replicate 256 (0xff :: u8)) = [0xff, 0xff, 0xff, 0xff]" by (simp add: numeral_eq_Suc)
  then have "key_n mersenne_key ! 0 = 0xffffffff" by (simp add: mersenne_key_def be32_literals)
  then have "key_n0inv mersenne_key * key_n mersenne_key ! 0 = - 1" by (simp add: mersenne_key_def)
  then have "mont_key mersenne_key" by (simp add: mont_key_def mersenne_key_def)
  moreover have "(?N + 1) ^ 2 mod ?N = 1 mod ?N"
    by (metis add.commute mod_add_self2 power_mod power_one)
  ultimately show ?thesis using big by (simp add: rsa_key_def R mersenne_values(2))
qed

text \<open>\<open>2 ^ 65537 = 2\<close> modulo \<open>2 ^ 2048 - 1\<close>, so 2 is the signature of 2.\<close>

lemma mersenne_power: "2 ^ 65537 mod modulus mersenne_key = 2"
proof -
  let ?N = "modulus mersenne_key"
  have N: "?N + 1 = 2 ^ 2048"
    by (simp only: mersenne_values(1)) (simp add: power_mult [of 2 8, simplified, symmetric])
  have "(2 :: nat) ^ (2048 * 32 + 1) = (2 ^ 2048) ^ 32 * 2"
    by (simp only: power_add power_mult power_one_right)
  moreover have "2048 * 32 + 1 = (65537 :: nat)" by simp
  ultimately have "(2 :: nat) ^ 65537 = (2 ^ 2048) ^ 32 * 2" by (simp only:)
  also have "\<dots> mod ?N = ((?N + 1) ^ 32 mod ?N) * 2 mod ?N" by (simp only: N mod_mult_left_eq)
  also have "(?N + 1) ^ 32 mod ?N = 1 mod ?N"
    by (metis add.commute mod_add_self2 power_mod power_one)
  also have "(1 mod ?N) * 2 mod ?N = 2"
  proof -
    have "2 + 1 < ?N + 1" unfolding N by simp
    then have "2 < ?N" by (simp only: add_less_cancel_right)
    then show ?thesis by simp
  qed
  finally show ?thesis .
qed

theorem rsa_verify_correct_witness:
  "\<exists>w'. avb_rsa_verify (\<lambda>n w. (True, w)) (Some mersenne_blob) 520
     (Some (replicate 255 0 @ [2])) 256 (Some (replicate 31 0 @ [2])) 32 (Some (replicate 224 0)) 224 () =
   Some (True, w')"
proof -
  have A: "alloc_ok (\<lambda>n w. (True, w))" by (simp add: alloc_ok_def)
  have p: "iavb_parse_key_data (\<lambda>n w. (True, w)) mersenne_blob 520 () = Some (Some mersenne_key, ())"
    by (rule mersenne_parse) (simp add: avb_malloc_def)
  have be: "be_nat (replicate 255 0 @ [2]) = 2" "be_nat (replicate 224 0 @ replicate 31 0 @ [2]) = 2"
    by (simp_all only: be_nat_zeros) simp_all
  have l: "length (replicate 255 0 @ [2 :: u8]) = unat (256 :: u64)"
      "length (replicate 31 0 @ [2 :: u8]) = unat (32 :: u64)" "length (replicate 224 (0 :: u8)) = unat (224 :: u64)"
      "unat (256 :: u64) = 4 * unat (key_len mersenne_key)" "unat (224 :: u64) + unat (32 :: u64) = unat (256 :: u64)"
    by (simp_all add: mersenne_values(3))
  from rsa_verify_correct [OF p mersenne_rsa_key A l] show ?thesis
    by (simp only: be mersenne_power simp_thms)
qed

text \<open>
  When one of the buffers of \<open>modpowF4\<close> cannot be allocated, \<open>avb_rsa_verify\<close> accepts the
  padded hash itself as the signature: the failure is not reported to the caller, so an image
  signed without the key passes.
\<close>
theorem rsa_verify_no_memory:
  assumes "iavb_parse_key_data A key key_len0 w = Some (Some k, w1)"
    and "length hash = unat hash_len" "length padding = unat padding_len"
      "unat sig_len = 4 * unat (key_len k)" "unat padding_len + unat hash_len = unat sig_len"
    and "avb_malloc A (unat sig_len) w1 = (True, w2)" and "\<not> fst (avb_malloc A (unat sig_len) w2)"
  shows "\<exists>w'. avb_rsa_verify A (Some key) key_len0 (Some (padding @ hash)) sig_len (Some hash) hash_len
       (Some padding) padding_len w = Some (True, w')"
  using assms by (rule avb_rsa_verify_no_memory)

text \<open>An allocator with memory for two requests.\<close>

definition two_allocs :: "nat alloc" where
  "two_allocs = (\<lambda>n w. (w < 2, w + 1))"

theorem rsa_verify_no_memory_witness:
  "\<exists>w'. avb_rsa_verify two_allocs (Some mersenne_blob) 520
     (Some (replicate 224 1 @ replicate 32 5)) 256 (Some (replicate 32 5)) 32 (Some (replicate 224 1)) 224 0 =
   Some (True, w')"
proof -
  have p: "iavb_parse_key_data two_allocs mersenne_blob 520 0 = Some (Some mersenne_key, 1)"
    by (rule mersenne_parse) (simp add: avb_malloc_def two_allocs_def)
  show ?thesis
    using rsa_verify_no_memory [OF p, of "replicate 32 5" 32 "replicate 224 1" 224 256 2]
    by (simp add: mersenne_values(3) avb_malloc_def two_allocs_def)
qed

end
