(* ===== verification/AvbCrypto.thy ===== *)
theory AvbCrypto
  imports AvbRsa
begin

text \<open>
  \<open>Application/UefiAvb/libavb/avb_crypto.c\<close>: the algorithms a vbmeta image can name and the
  PKCS #1 v1.5 padding each of them uses.  The tables are written with \<open>replicate\<close> where the
  source lists the same octet.
\<close>

datatype AvbAlgorithmType =
    AVB_ALGORITHM_TYPE_NONE
  | AVB_ALGORITHM_TYPE_SHA256_RSA2048
  | AVB_ALGORITHM_TYPE_SHA256_RSA4096
  | AVB_ALGORITHM_TYPE_SHA256_RSA8192
  | AVB_ALGORITHM_TYPE_SHA512_RSA2048
  | AVB_ALGORITHM_TYPE_SHA512_RSA4096
  | AVB_ALGORITHM_TYPE_SHA512_RSA8192

text \<open>The enumeration as the 32-bit value stored in a header.\<close>

definition algorithm_of_code :: "u32 \<Rightarrow> AvbAlgorithmType option" where
  "algorithm_of_code c =
     (if c = 0 then Some AVB_ALGORITHM_TYPE_NONE
      else if c = 1 then Some AVB_ALGORITHM_TYPE_SHA256_RSA2048
      else if c = 2 then Some AVB_ALGORITHM_TYPE_SHA256_RSA4096
      else if c = 3 then Some AVB_ALGORITHM_TYPE_SHA256_RSA8192
      else if c = 4 then Some AVB_ALGORITHM_TYPE_SHA512_RSA2048
      else if c = 5 then Some AVB_ALGORITHM_TYPE_SHA512_RSA4096
      else if c = 6 then Some AVB_ALGORITHM_TYPE_SHA512_RSA8192
      else None)"

definition padding_RSA2048_SHA256 :: bytes where
  "padding_RSA2048_SHA256 = [0, 1] @ replicate 202 255 @
     [0, 48, 49, 48, 13, 6, 9, 96, 134, 72, 1, 101, 3, 4, 2,
      1, 5, 0, 4, 32]"

definition padding_RSA4096_SHA256 :: bytes where
  "padding_RSA4096_SHA256 = [0, 1] @ replicate 458 255 @
     [0, 48, 49, 48, 13, 6, 9, 96, 134, 72, 1, 101, 3, 4, 2,
      1, 5, 0, 4, 32]"

definition padding_RSA8192_SHA256 :: bytes where
  "padding_RSA8192_SHA256 = [0, 1] @ replicate 970 255 @
     [0, 48, 49, 48, 13, 6, 9, 96, 134, 72, 1, 101, 3, 4, 2,
      1, 5, 0, 4, 32]"

definition padding_RSA2048_SHA512 :: bytes where
  "padding_RSA2048_SHA512 = [0, 1] @ replicate 170 255 @
     [0, 48, 81, 48, 13, 6, 9, 96, 134, 72, 1, 101, 3, 4, 2,
      3, 5, 0, 4, 64]"

definition padding_RSA4096_SHA512 :: bytes where
  "padding_RSA4096_SHA512 = [0, 1] @ replicate 426 255 @
     [0, 48, 81, 48, 13, 6, 9, 96, 134, 72, 1, 101, 3, 4, 2,
      3, 5, 0, 4, 64]"

definition padding_RSA8192_SHA512 :: bytes where
  "padding_RSA8192_SHA512 = [0, 1] @ replicate 938 255 @
     [0, 48, 81, 48, 13, 6, 9, 96, 134, 72, 1, 101, 3, 4, 2,
      3, 5, 0, 4, 64]"

record AvbAlgorithmData =
  padding :: "bytes option"
  padding_len :: u64
  hash_len :: u64

definition algorithm_data :: "AvbAlgorithmType \<Rightarrow> AvbAlgorithmData" where
  "algorithm_data alg = (case alg of
     AVB_ALGORITHM_TYPE_NONE \<Rightarrow> \<lparr>padding = None, padding_len = 0, hash_len = 0\<rparr>
   | AVB_ALGORITHM_TYPE_SHA256_RSA2048 \<Rightarrow>
       \<lparr>padding = Some padding_RSA2048_SHA256, padding_len = 224, hash_len = 32\<rparr>
   | AVB_ALGORITHM_TYPE_SHA256_RSA4096 \<Rightarrow>
       \<lparr>padding = Some padding_RSA4096_SHA256, padding_len = 480, hash_len = 32\<rparr>
   | AVB_ALGORITHM_TYPE_SHA256_RSA8192 \<Rightarrow>
       \<lparr>padding = Some padding_RSA8192_SHA256, padding_len = 992, hash_len = 32\<rparr>
   | AVB_ALGORITHM_TYPE_SHA512_RSA2048 \<Rightarrow>
       \<lparr>padding = Some padding_RSA2048_SHA512, padding_len = 192, hash_len = 64\<rparr>
   | AVB_ALGORITHM_TYPE_SHA512_RSA4096 \<Rightarrow>
       \<lparr>padding = Some padding_RSA4096_SHA512, padding_len = 448, hash_len = 64\<rparr>
   | AVB_ALGORITHM_TYPE_SHA512_RSA8192 \<Rightarrow>
       \<lparr>padding = Some padding_RSA8192_SHA512, padding_len = 960, hash_len = 64\<rparr>)"

definition avb_get_algorithm_data :: "u32 \<Rightarrow> AvbAlgorithmData option" where
  "avb_get_algorithm_data algorithm = map_option algorithm_data (algorithm_of_code algorithm)"

lemmas padding_defs = padding_RSA2048_SHA256_def padding_RSA4096_SHA256_def padding_RSA8192_SHA256_def
  padding_RSA2048_SHA512_def padding_RSA4096_SHA512_def padding_RSA8192_SHA512_def

definition rsa_bytes :: "AvbAlgorithmType \<Rightarrow> nat" where
  "rsa_bytes alg = (case alg of
     AVB_ALGORITHM_TYPE_NONE \<Rightarrow> 0
   | AVB_ALGORITHM_TYPE_SHA256_RSA2048 \<Rightarrow> 256 | AVB_ALGORITHM_TYPE_SHA512_RSA2048 \<Rightarrow> 256
   | AVB_ALGORITHM_TYPE_SHA256_RSA4096 \<Rightarrow> 512 | AVB_ALGORITHM_TYPE_SHA512_RSA4096 \<Rightarrow> 512
   | AVB_ALGORITHM_TYPE_SHA256_RSA8192 \<Rightarrow> 1024 | AVB_ALGORITHM_TYPE_SHA512_RSA8192 \<Rightarrow> 1024)"

lemma takeWhile_replicate_append:
  "takeWhile (\<lambda>b. b = x) (replicate n x @ ys) = replicate n x @ takeWhile (\<lambda>b. b = x) ys"
  by (induction n) simp_all

text \<open>Every table entry is consistent: the stated length is the table's, and padding and hash fill the RSA block.\<close>

lemma algorithm_data_sizes:
  "alg \<noteq> AVB_ALGORITHM_TYPE_NONE \<Longrightarrow>
   \<exists>p. padding (algorithm_data alg) = Some p \<and> unat (padding_len (algorithm_data alg)) = length p \<and>
     length p + unat (hash_len (algorithm_data alg)) = rsa_bytes alg \<and>
     take 2 p = [0, 1] \<and> 8 \<le> length (takeWhile (\<lambda>b. b = 0xff) (drop 2 p))"
  by (cases alg; simp add: algorithm_data_def padding_defs rsa_bytes_def takeWhile_replicate_append)

lemma algorithm_of_code_range: "algorithm_of_code c \<noteq> None \<longleftrightarrow> c < 7"
proof
  have "unat c \<in> {0, 1, 2, 3, 4, 5, 6} \<Longrightarrow> algorithm_of_code c \<noteq> None"
    by (auto simp: algorithm_of_code_def word_unat_eq_iff)
  moreover have "c < 7 \<Longrightarrow> unat c \<in> {0, 1, 2, 3, 4, 5, 6}"
    by (auto simp: word_less_nat_alt)
  ultimately show "c < 7 \<Longrightarrow> algorithm_of_code c \<noteq> None" by blast
qed (auto simp: algorithm_of_code_def split: if_splits)

end
