(* ===== verification/AvbDescriptor.thy ===== *)
theory AvbDescriptor
  imports AvbCrypto
begin

text \<open>
  The descriptors of a vbmeta image: \<open>avb_descriptor.c\<close>, \<open>avb_property_descriptor.c\<close>,
  \<open>avb_hash_descriptor.c\<close>, \<open>avb_hashtree_descriptor.c\<close>, \<open>avb_chain_partition_descriptor.c\<close>,
  \<open>avb_kernel_cmdline_descriptor.c\<close> and \<open>avb_footer.c\<close> under \<open>Application/UefiAvb/libavb\<close>.

  A structure read through a pointer is decoded from the octets at the pointer; the validation
  functions take the memory from the pointer on and fault when it is shorter than the
  structure.  A \<open>const AvbDescriptor*\<close> into an image is an offset of the image, and the image
  lies at an address \<open>base\<close> because the iteration computes with pointers of 64 bits.
\<close>

subsection \<open>Fields\<close>

definition be32_at :: "bytes \<Rightarrow> nat \<Rightarrow> u32" where
  "be32_at d off = avb_be32toh (load32 (drop off d))"

definition be64_at :: "bytes \<Rightarrow> nat \<Rightarrow> u64" where
  "be64_at d off = avb_be64toh (load64 (drop off d))"

lemma be64_at_value: "off + 8 \<le> length d \<Longrightarrow> unat (be64_at d off) = be_nat (take 8 (drop off d))"
  using be64_load [of "take 8 (drop off d)"] by (simp add: be64_at_def load64_def)

lemma be32_at_value: "off + 4 \<le> length d \<Longrightarrow> unat (be32_at d off) = be_nat (take 4 (drop off d))"
  using be32_load [of "take 4 (drop off d)"] by (simp add: be32_at_def load32_def)

subsection \<open>Generic descriptors\<close>

definition AVB_MAGIC :: bytes where
  "AVB_MAGIC = ascii ''AVB0''"

record AvbDescriptor =
  tag :: u64
  num_bytes_following :: u64

definition AVB_DESCRIPTOR_TAG_PROPERTY :: u64 where "AVB_DESCRIPTOR_TAG_PROPERTY = 0"
definition AVB_DESCRIPTOR_TAG_HASHTREE :: u64 where "AVB_DESCRIPTOR_TAG_HASHTREE = 1"
definition AVB_DESCRIPTOR_TAG_HASH :: u64 where "AVB_DESCRIPTOR_TAG_HASH = 2"
definition AVB_DESCRIPTOR_TAG_KERNEL_CMDLINE :: u64 where "AVB_DESCRIPTOR_TAG_KERNEL_CMDLINE = 3"
definition AVB_DESCRIPTOR_TAG_CHAIN_PARTITION :: u64 where "AVB_DESCRIPTOR_TAG_CHAIN_PARTITION = 4"

lemmas tag_defs = AVB_DESCRIPTOR_TAG_PROPERTY_def AVB_DESCRIPTOR_TAG_HASHTREE_def
  AVB_DESCRIPTOR_TAG_HASH_def AVB_DESCRIPTOR_TAG_KERNEL_CMDLINE_def
  AVB_DESCRIPTOR_TAG_CHAIN_PARTITION_def

definition avb_descriptor_validate_and_byteswap :: "bytes \<Rightarrow> (bool \<times> AvbDescriptor) outcome" where
  "avb_descriptor_validate_and_byteswap src =
     obind (checked (slice 0 16 src)) (\<lambda>d.
       let dest = \<lparr>tag = be64_at d 0, num_bytes_following = be64_at d 8\<rparr>
       in Returned (num_bytes_following dest AND 7 = 0, dest))"

text \<open>The loop of \<open>avb_descriptor_foreach\<close>; \<open>p\<close> is the pointer, the callback gets its offset.\<close>

type_synonym 's foreach_func = "nat \<Rightarrow> 's \<Rightarrow> (bool \<times> 's) outcome"

fun foreach_loop ::
  "nat \<Rightarrow> u64 \<Rightarrow> bytes \<Rightarrow> u64 \<Rightarrow> u64 \<Rightarrow> 's foreach_func \<Rightarrow> u64 \<Rightarrow> 's \<Rightarrow> (bool \<times> 's) outcome" where
  "foreach_loop fuel base img desc_start desc_end f p s =
     (if \<not> p < desc_end then Returned (True, s)
      else case fuel of 0 \<Rightarrow> Unfinished | Suc fuel' \<Rightarrow>
        obind (avb_assert (p AND 7 = 0)) (\<lambda>_.
        obind (checked (slice (unat (p - base)) 16 img)) (\<lambda>dh.
          let nb_following = be64_at dh 8;
              nb_total = 16 + nb_following
          in if nb_total AND 7 \<noteq> 0 then Returned (False, s)
             else if nb_total + p < desc_start \<or> nb_total + p > desc_end then Returned (False, s)
             else obind (f (unat (p - base)) s) (\<lambda>(cont, s').
                    if \<not> cont then Returned (False, s')
                    else foreach_loop fuel' base img desc_start desc_end f (p + nb_total) s'))))"

declare foreach_loop.simps [simp del]

definition avb_descriptor_foreach ::
  "nat \<Rightarrow> u64 \<Rightarrow> bytes option \<Rightarrow> 's foreach_func option \<Rightarrow> 's \<Rightarrow> (bool \<times> 's) outcome" where
  "avb_descriptor_foreach fuel base image_data foreach_func s =
     (case image_data of None \<Rightarrow> Returned (False, s)
      | Some img \<Rightarrow>
     (case foreach_func of None \<Rightarrow> Returned (False, s)
      | Some f \<Rightarrow>
        let image_size = of_nat (length img) :: u64 in
        if image_size < 256 then Returned (False, s)
        else obind (checked (avb_safe_memcmp img AVB_MAGIC 4)) (\<lambda>r.
          if r \<noteq> 0 then Returned (False, s)
          else obind (avb_assert (base AND 7 = 0)) (\<lambda>_.
            let image_end = base + image_size;
                desc_start = base + 256 + be64_at img 12 + be64_at img 96;
                desc_end = desc_start + be64_at img 104
            in if desc_start < base \<or> desc_start > image_end \<or> desc_end < base \<or>
                  desc_end > image_end \<or> desc_end < desc_start
               then Returned (False, s)
               else foreach_loop fuel base img desc_start desc_end f desc_start s))))"

definition count_descriptors :: "u64 foreach_func" where
  "count_descriptors descriptor num_descriptors = Returned (True, num_descriptors + 1)"

definition set_descriptors :: "nat list foreach_func" where
  "set_descriptors descriptor descriptors = Returned (True, descriptors @ [descriptor])"

definition avb_descriptor_get_all ::
  "'w alloc \<Rightarrow> nat \<Rightarrow> u64 \<Rightarrow> bytes option \<Rightarrow> 'w \<Rightarrow> (nat list option \<times> 'w) outcome" where
  "avb_descriptor_get_all A fuel base image_data w =
     obind (avb_descriptor_foreach fuel base image_data (Some count_descriptors) 0) (\<lambda>(_, num_descriptors).
       let (buf, w') = avb_calloc A (unat (8 * (num_descriptors + 1))) w in
       case buf of None \<Rightarrow> Returned (None, w')
       | Some _ \<Rightarrow>
         obind (avb_descriptor_foreach fuel base image_data (Some set_descriptors) []) (\<lambda>(_, descriptors).
         obind (avb_assert (of_nat (length descriptors) = num_descriptors)) (\<lambda>_.
           Returned (Some descriptors, w'))))"

subsection \<open>Property descriptors\<close>

record AvbPropertyDescriptor =
  prop_parent :: AvbDescriptor
  key_num_bytes :: u64
  value_num_bytes :: u64

definition avb_property_descriptor_validate_and_byteswap ::
  "bytes \<Rightarrow> AvbPropertyDescriptor option outcome" where
  "avb_property_descriptor_validate_and_byteswap src =
     obind (checked (slice 0 32 src)) (\<lambda>d.
     obind (avb_descriptor_validate_and_byteswap src) (\<lambda>(ok, parent).
       let dest = \<lparr>prop_parent = parent, key_num_bytes = be64_at d 16, value_num_bytes = be64_at d 24\<rparr>;
           (ok1, expected1) = avb_safe_add_to 18 (key_num_bytes dest);
           (ok2, expected2) = avb_safe_add_to expected1 (value_num_bytes dest)
       in Returned
         (if \<not> ok then None
          else if tag parent \<noteq> AVB_DESCRIPTOR_TAG_PROPERTY then None
          else if \<not> ok1 \<or> \<not> ok2 then None
          else if expected2 > num_bytes_following parent then None
          else Some dest)))"

text \<open>The result of a lookup: the offset of the value in the image, and its size.\<close>

record PropertyIteratorData =
  ret_value :: "nat option"
  ret_value_size :: u64

definition property_lookup_desc_foreach ::
  "bytes \<Rightarrow> bytes \<Rightarrow> u64 \<Rightarrow> PropertyIteratorData foreach_func" where
  "property_lookup_desc_foreach img key key_size header data0 =
     obind (checked (slice header 16 img)) (\<lambda>h.
       if load64 h \<noteq> AVB_DESCRIPTOR_TAG_PROPERTY then Returned (True, data0)
       else obind (avb_property_descriptor_validate_and_byteswap (drop header img)) (\<lambda>v.
         case v of None \<Rightarrow> Returned (True, data0)
         | Some prop_desc \<Rightarrow>
           let kpos = header + 32;
               knb = unat (key_num_bytes prop_desc)
           in obind (checked (slice (kpos + knb) 1 img)) (\<lambda>nul.
              if nul ! 0 \<noteq> 0 then Returned (True, data0)
              else if key_size = key_num_bytes prop_desc
              then obind (checked (avb_safe_memcmp (drop kpos img) key (unat key_size))) (\<lambda>r.
                if r = 0
                then Returned (False, \<lparr>ret_value = Some (kpos + knb + 1),
                                       ret_value_size = value_num_bytes prop_desc\<rparr>)
                else Returned (True, data0))
              else Returned (True, data0))))"

text \<open>
  \<open>data.ret_value\<close> is not initialised; \<open>junk\<close> is what the stack holds, and it is returned
  when the iteration fails for another reason than a match.
\<close>

definition avb_property_lookup ::
  "nat \<Rightarrow> u64 \<Rightarrow> PropertyIteratorData \<Rightarrow> bytes option \<Rightarrow> bytes \<Rightarrow> u64 \<Rightarrow> (nat option \<times> u64) outcome" where
  "avb_property_lookup fuel base junk image_data key key_size0 =
     (let key_size = (if key_size0 = 0 then of_nat (length (c_str key)) else key_size0)
      in obind (avb_descriptor_foreach fuel base image_data
              (Some (property_lookup_desc_foreach (the image_data) key key_size)) junk) (\<lambda>(ret, data).
           if \<not> ret then Returned (ret_value data, ret_value_size data)
           else Returned (None, 0)))"

text \<open>The digits of a property value, up to the terminator; the value wraps in 64 bits.\<close>

fun parse_value :: "u64 \<Rightarrow> u64 \<Rightarrow> bytes \<Rightarrow> u64 option outcome" where
  "parse_value base parsed_val [] = Faulted"
| "parse_value base parsed_val (c # value) =
     (if c = 0 then Returned (Some parsed_val)
      else let parsed_val' = parsed_val * base in
        if 48 \<le> c \<and> c \<le> 57 then parse_value base (parsed_val' + ucast (c - 48)) value
        else if base = 16 \<and> 97 \<le> c \<and> c \<le> 102 then parse_value base (parsed_val' + ucast (c - 97 + 10)) value
        else if base = 16 \<and> 65 \<le> c \<and> c \<le> 70 then parse_value base (parsed_val' + ucast (c - 65 + 10)) value
        else Returned None)"

definition avb_property_lookup_uint64 ::
  "nat \<Rightarrow> u64 \<Rightarrow> PropertyIteratorData \<Rightarrow> bytes option \<Rightarrow> bytes \<Rightarrow> u64 \<Rightarrow> u64 option outcome" where
  "avb_property_lookup_uint64 fuel base junk image_data key key_size =
     obind (avb_property_lookup fuel base junk image_data key key_size) (\<lambda>(value, _).
       case value of None \<Rightarrow> Returned None
       | Some off \<Rightarrow>
         let v = drop off (the image_data)
         in obind (checked (avb_safe_memcmp v (ascii ''0x'') 2)) (\<lambda>r.
            if r = 0 then parse_value 16 0 (drop 2 v) else parse_value 10 0 v))"

subsection \<open>Hash, hashtree, chain and command-line descriptors\<close>

record AvbHashDescriptor =
  hash_parent :: AvbDescriptor
  hash_image_size :: u64
  hash_algorithm :: bytes
  hash_partition_name_len :: u32
  hash_salt_len :: u32
  hash_digest_len :: u32
  hash_flags :: u32

definition avb_hash_descriptor_validate_and_byteswap :: "bytes \<Rightarrow> AvbHashDescriptor option outcome" where
  "avb_hash_descriptor_validate_and_byteswap src =
     obind (checked (slice 0 132 src)) (\<lambda>d.
     obind (avb_descriptor_validate_and_byteswap src) (\<lambda>(ok, parent).
       let dest = \<lparr>hash_parent = parent, hash_image_size = be64_at d 16,
                   hash_algorithm = take 32 (drop 24 d), hash_partition_name_len = be32_at d 56,
                   hash_salt_len = be32_at d 60, hash_digest_len = be32_at d 64, hash_flags = be32_at d 68\<rparr>;
           (ok1, e1) = avb_safe_add_to 116 (ucast (hash_partition_name_len dest));
           (ok2, e2) = avb_safe_add_to e1 (ucast (hash_salt_len dest));
           (ok3, e3) = avb_safe_add_to e2 (ucast (hash_digest_len dest))
       in Returned
         (if \<not> ok then None
          else if tag parent \<noteq> AVB_DESCRIPTOR_TAG_HASH then None
          else if \<not> ok1 \<or> \<not> ok2 \<or> \<not> ok3 then None
          else if e3 > num_bytes_following parent then None
          else Some dest)))"

record AvbHashtreeDescriptor =
  ht_parent :: AvbDescriptor
  dm_verity_version :: u32
  ht_image_size :: u64
  tree_offset :: u64
  tree_size :: u64
  data_block_size :: u32
  hash_block_size :: u32
  fec_num_roots :: u32
  fec_offset :: u64
  fec_size :: u64
  ht_hash_algorithm :: bytes
  ht_partition_name_len :: u32
  ht_salt_len :: u32
  root_digest_len :: u32
  ht_flags :: u32

definition avb_hashtree_descriptor_validate_and_byteswap :: "bytes \<Rightarrow> AvbHashtreeDescriptor option outcome" where
  "avb_hashtree_descriptor_validate_and_byteswap src =
     obind (checked (slice 0 180 src)) (\<lambda>d.
     obind (avb_descriptor_validate_and_byteswap src) (\<lambda>(ok, parent).
       let dest = \<lparr>ht_parent = parent, dm_verity_version = be32_at d 16, ht_image_size = be64_at d 20,
                   tree_offset = be64_at d 28, tree_size = be64_at d 36, data_block_size = be32_at d 44,
                   hash_block_size = be32_at d 48, fec_num_roots = be32_at d 52, fec_offset = be64_at d 56,
                   fec_size = be64_at d 64, ht_hash_algorithm = take 32 (drop 72 d),
                   ht_partition_name_len = be32_at d 104, ht_salt_len = be32_at d 108,
                   root_digest_len = be32_at d 112, ht_flags = be32_at d 116\<rparr>;
           (ok1, e1) = avb_safe_add_to 164 (ucast (ht_partition_name_len dest));
           (ok2, e2) = avb_safe_add_to e1 (ucast (ht_salt_len dest));
           (ok3, e3) = avb_safe_add_to e2 (ucast (root_digest_len dest))
       in Returned
         (if \<not> ok then None
          else if tag parent \<noteq> AVB_DESCRIPTOR_TAG_HASHTREE then None
          else if \<not> ok1 \<or> \<not> ok2 \<or> \<not> ok3 then None
          else if e3 > num_bytes_following parent then None
          else Some dest)))"

record AvbChainPartitionDescriptor =
  chain_parent :: AvbDescriptor
  chain_rollback_index_location :: u32
  chain_partition_name_len :: u32
  chain_public_key_len :: u32

definition avb_chain_partition_descriptor_validate_and_byteswap ::
  "bytes \<Rightarrow> AvbChainPartitionDescriptor option outcome" where
  "avb_chain_partition_descriptor_validate_and_byteswap src =
     obind (checked (slice 0 92 src)) (\<lambda>d.
     obind (avb_descriptor_validate_and_byteswap src) (\<lambda>(ok, parent).
       let dest = \<lparr>chain_parent = parent, chain_rollback_index_location = be32_at d 16,
                   chain_partition_name_len = be32_at d 20, chain_public_key_len = be32_at d 24\<rparr>;
           (ok1, e1) = avb_safe_add_to 76 (ucast (chain_partition_name_len dest));
           (ok2, e2) = avb_safe_add_to e1 (ucast (chain_public_key_len dest))
       in Returned
         (if \<not> ok then None
          else if tag parent \<noteq> AVB_DESCRIPTOR_TAG_CHAIN_PARTITION then None
          else if chain_rollback_index_location dest < 1 then None
          else if \<not> ok1 \<or> \<not> ok2 then None
          else if e2 > num_bytes_following parent then None
          else Some dest)))"

record AvbKernelCmdlineDescriptor =
  kc_parent :: AvbDescriptor
  kc_flags :: u32
  kernel_cmdline_length :: u32

definition avb_kernel_cmdline_descriptor_validate_and_byteswap ::
  "bytes \<Rightarrow> AvbKernelCmdlineDescriptor option outcome" where
  "avb_kernel_cmdline_descriptor_validate_and_byteswap src =
     obind (checked (slice 0 24 src)) (\<lambda>d.
     obind (avb_descriptor_validate_and_byteswap src) (\<lambda>(ok, parent).
       let dest = \<lparr>kc_parent = parent, kc_flags = be32_at d 16, kernel_cmdline_length = be32_at d 20\<rparr>;
           (ok1, e1) = avb_safe_add_to 8 (ucast (kernel_cmdline_length dest))
       in Returned
         (if \<not> ok then None
          else if tag parent \<noteq> AVB_DESCRIPTOR_TAG_KERNEL_CMDLINE then None
          else if \<not> ok1 then None
          else if e1 > num_bytes_following parent then None
          else Some dest)))"

subsection \<open>The footer\<close>

record AvbFooter =
  footer_magic :: bytes
  footer_version_major :: u32
  footer_version_minor :: u32
  original_image_size :: u64
  vbmeta_offset :: u64
  vbmeta_size :: u64

definition AVB_FOOTER_MAGIC :: bytes where
  "AVB_FOOTER_MAGIC = ascii ''AVBf''"

definition avb_footer_validate_and_byteswap :: "bytes \<Rightarrow> AvbFooter option outcome" where
  "avb_footer_validate_and_byteswap src =
     obind (checked (slice 0 64 src)) (\<lambda>d.
       let dest = \<lparr>footer_magic = take 4 d, footer_version_major = be32_at d 4,
                   footer_version_minor = be32_at d 8, original_image_size = be64_at d 12,
                   vbmeta_offset = be64_at d 20, vbmeta_size = be64_at d 28\<rparr>
       in obind (checked (avb_safe_memcmp (footer_magic dest) AVB_FOOTER_MAGIC 4)) (\<lambda>r.
            Returned
              (if r \<noteq> 0 then None
               else if footer_version_major dest > 1 then None
               else Some dest)))"

subsection \<open>Iterating over a well-formed descriptor block\<close>

text \<open>The abstract view: a descriptor is a tag and a payload, a block is their concatenation.\<close>

definition desc_octets :: "u64 \<times> bytes \<Rightarrow> bytes" where
  "desc_octets d = to_be 8 (unat (fst d)) @ to_be 8 (length (snd d)) @ snd d"

definition desc_ok :: "u64 \<times> bytes \<Rightarrow> bool" where
  "desc_ok d \<longleftrightarrow> 8 dvd length (snd d)"

fun desc_offsets :: "nat \<Rightarrow> (u64 \<times> bytes) list \<Rightarrow> nat list" where
  "desc_offsets off [] = []"
| "desc_offsets off (d # ds) = off # desc_offsets (off + 16 + length (snd d)) ds"

fun visit :: "'s foreach_func \<Rightarrow> nat list \<Rightarrow> 's \<Rightarrow> (bool \<times> 's) outcome" where
  "visit f [] s = Returned (True, s)"
| "visit f (x # xs) s = obind (f x s) (\<lambda>(cont, s'). if \<not> cont then Returned (False, s') else visit f xs s')"

definition desc_start_of :: "bytes \<Rightarrow> nat" where
  "desc_start_of img = 256 + unat (be64_at img 12) + unat (be64_at img 96)"

definition has_descriptors :: "bytes \<Rightarrow> (u64 \<times> bytes) list \<Rightarrow> bool" where
  "has_descriptors img ds \<longleftrightarrow>
     256 \<le> length img \<and> take 4 img = AVB_MAGIC \<and> 8 dvd desc_start_of img \<and>
     desc_start_of img + unat (be64_at img 104) \<le> length img \<and>
     take (unat (be64_at img 104)) (drop (desc_start_of img) img) = concat (map desc_octets ds) \<and>
     list_all desc_ok ds"

lemma length_desc_octets [simp]: "length (desc_octets d) = 16 + length (snd d)"
  by (simp add: desc_octets_def)

lemma and7_iff: "(w :: u64) AND 7 = 0 \<longleftrightarrow> 8 dvd unat w"
proof -
  have m: "(7 :: u64) = mask 3" by (simp add: mask_eq_exp_minus_1)
  have "w AND 7 = 0 \<longleftrightarrow> unat (take_bit 3 w) = 0" by (simp add: m take_bit_eq_mask unat_eq_0)
  also have "\<dots> \<longleftrightarrow> 8 dvd unat w"
    by (simp add: unsigned_take_bit_eq) (simp add: take_bit_eq_mod dvd_eq_mod_eq_0)
  finally show ?thesis .
qed

lemma unat_of_nat_u64: "n < 2 ^ 64 \<Longrightarrow> unat (of_nat n :: u64) = n"
  by (simp add: unat_of_nat)

lemma unat_add_of_nat: "unat (b :: u64) + n < 2 ^ 64 \<Longrightarrow> unat (b + of_nat n) = unat b + n"
  by (simp add: unat_word_ariths unat_of_nat)

lemma be64_at_octets:
  assumes "length pre = n"
  shows "be64_at (pre @ to_be 8 v @ rest) n = of_nat (v mod 2 ^ 64)"
proof (rule word_unat_eq_iff [THEN iffD2])
  show "unat (be64_at (pre @ to_be 8 v @ rest) n) = unat (of_nat (v mod 2 ^ 64) :: u64)"
    using assms by (simp add: be64_at_value be_nat_to_be unat_of_nat)
qed

lemma foreach_loop_visit:
  assumes "img = pre @ concat (map desc_octets ds) @ post"
    and "list_all desc_ok ds" "8 dvd length pre" "8 dvd unat base" "unat base + length img < 2 ^ 64"
    and "length ds \<le> fuel" "unat desc_start \<le> unat base + length pre"
    and "unat desc_end = unat base + length pre + length (concat (map desc_octets ds))"
  shows "foreach_loop fuel base img desc_start desc_end f (base + of_nat (length pre)) s =
    visit f (desc_offsets (length pre) ds) s"
  using assms
proof (induction ds arbitrary: pre fuel s)
  case Nil
  then have "unat (base + of_nat (length pre)) = unat desc_end"
    by (subst unat_add_of_nat) simp_all
  then have "\<not> base + of_nat (length pre) < desc_end" by (simp add: word_less_nat_alt)
  then show ?case by (simp add: foreach_loop.simps)
next
  case (Cons d ds)
  let ?p = "base + of_nat (length pre)" and ?n = "length (snd d)"
  obtain fuel' where fuel: "fuel = Suc fuel'" "length ds \<le> fuel'"
    using Cons.prems(6) by (cases fuel) simp_all
  have img: "length img = length pre + 16 + ?n + length (concat (map desc_octets ds)) + length post"
    by (simp add: Cons.prems(1))
  have b: "unat base + length pre + 16 + ?n < 2 ^ 64" "16 + ?n < 2 ^ 64" "?n < 2 ^ 64"
    using Cons.prems(5) img by simp_all
  have p: "unat ?p = unat base + length pre" using b by (intro unat_add_of_nat) simp
  have lt: "?p < desc_end" using p Cons.prems(8) by (simp add: word_less_nat_alt)
  have off: "unat (?p - base) = length pre" using b by (simp add: unat_of_nat_u64)
  have al: "?p AND 7 = 0" unfolding and7_iff p using Cons.prems(3,4) by simp
  have sl: "slice (length pre) 16 img = Some (to_be 8 (unat (fst d)) @ to_be 8 ?n)"
    by (simp add: slice_def Cons.prems(1) desc_octets_def)
  have nf: "be64_at (to_be 8 (unat (fst d)) @ to_be 8 ?n) 8 = of_nat ?n"
    using be64_at_octets [of "to_be 8 (unat (fst d))" 8 ?n "[]"] b(3) by (simp del: to_be.simps)
  have tot: "16 + of_nat ?n = (of_nat (16 + ?n) :: u64)" by simp
  have ut: "unat (of_nat (16 + ?n) :: u64) = 16 + ?n" using b(2) by (rule unat_of_nat_u64)
  have al2: "(of_nat (16 + ?n) :: u64) AND 7 = 0"
    unfolding and7_iff ut using Cons.prems(2) by (simp add: desc_ok_def)
  have q: "of_nat (16 + ?n) + ?p = base + of_nat (length (pre @ desc_octets d))" by simp
  have uq: "unat (base + of_nat (length (pre @ desc_octets d))) = unat base + length pre + 16 + ?n"
    using b by (subst unat_add_of_nat) simp_all
  have rng: "\<not> (base + of_nat (length (pre @ desc_octets d)) < desc_start \<or>
      base + of_nat (length (pre @ desc_octets d)) > desc_end)"
    using Cons.prems(7,8) by (simp only: word_less_nat_alt uq) simp
  have IH: "foreach_loop fuel' base img desc_start desc_end f (base + of_nat (length (pre @ desc_octets d))) s' =
      visit f (desc_offsets (length (pre @ desc_octets d)) ds) s'" for s'
    by (rule Cons.IH) (use Cons.prems fuel in \<open>simp_all add: desc_ok_def\<close>)
  have st: "foreach_loop fuel base img desc_start desc_end f ?p s =
      obind (f (length pre) s) (\<lambda>(cont, s'). if \<not> cont then Returned (False, s')
         else visit f (desc_offsets (length (pre @ desc_octets d)) ds) s')"
    using lt al al2 rng
    by (subst foreach_loop.simps)
      (simp only: fuel nat.case not_True_eq_False if_False if_True avb_assert_simps obind.simps checked.simps
        off sl Let_def nf tot q IH add.commute [of ?p] simp_thms)
  have e: "length (pre @ desc_octets d) = length pre + 16 + ?n" by simp
  show ?case by (simp only: st e desc_offsets.simps visit.simps)
qed

lemma memcmp_magic:
  assumes "take 4 img = AVB_MAGIC" "4 \<le> length img"
  shows "avb_safe_memcmp img AVB_MAGIC 4 = Some 0"
  using avb_safe_memcmp_eq [of 4 img AVB_MAGIC] assms by (simp add: AVB_MAGIC_def ascii_def)

text \<open>A header whose descriptor block lies inside the image passes the checks of the function.\<close>

definition desc_block_inside :: "bytes \<Rightarrow> bool" where
  "desc_block_inside img \<longleftrightarrow> 256 \<le> length img \<and> take 4 img = AVB_MAGIC \<and>
     desc_start_of img + unat (be64_at img 104) \<le> length img"

lemma foreach_enter:
  assumes wf: "desc_block_inside img" and al: "8 dvd unat base" and nw: "unat base + length img < 2 ^ 64"
  defines "st \<equiv> base + of_nat (desc_start_of img)"
  defines "en \<equiv> base + of_nat (desc_start_of img) + be64_at img 104"
  shows "avb_descriptor_foreach fuel base (Some img) (Some f) s = foreach_loop fuel base img st en f st s"
    "unat st = unat base + desc_start_of img"
    "unat en = unat base + desc_start_of img + unat (be64_at img 104)"
proof -
  let ?st = "desc_start_of img" and ?sz = "unat (be64_at img 104)"
  have w: "256 \<le> length img" "take 4 img = AVB_MAGIC" "?st + ?sz \<le> length img"
    using wf by (simp_all add: desc_block_inside_def)
  have len: "unat (of_nat (length img) :: u64) = length img" using nw by (intro unat_of_nat_u64) simp
  have "\<not> (of_nat (length img) :: u64) < 256" using w(1) by (simp only: word_less_nat_alt len) simp
  moreover have ie: "unat (base + of_nat (length img)) = unat base + length img" using nw by (rule unat_add_of_nat)
  moreover have s1: "base + 256 + be64_at img 12 + be64_at img 96 = base + of_nat ?st"
    by (simp add: desc_start_of_def algebra_simps)
  moreover have us: "unat (base + of_nat ?st) = unat base + ?st" using nw w(3) by (intro unat_add_of_nat) simp
  moreover have ue: "unat (base + of_nat ?st + be64_at img 104) = unat base + ?st + ?sz"
    using nw w(3) us unat_add_of_nat [of "base + of_nat ?st" ?sz] by simp
  moreover have "\<not> (base + of_nat ?st < base \<or> base + of_nat ?st > base + of_nat (length img) \<or>
      base + of_nat ?st + be64_at img 104 < base \<or> base + of_nat ?st + be64_at img 104 > base + of_nat (length img) \<or>
      base + of_nat ?st + be64_at img 104 < base + of_nat ?st)"
    using w(3) by (simp only: word_less_nat_alt us ue ie) simp
  moreover have "base AND 7 = 0" using al by (simp only: and7_iff)
  ultimately show "avb_descriptor_foreach fuel base (Some img) (Some f) s = foreach_loop fuel base img st en f st s"
    using memcmp_magic [OF w(2)] w(1) unfolding st_def en_def
    by (simp only: avb_descriptor_foreach_def option.case Let_def if_False checked.simps obind.simps
        avb_assert_simps simp_thms)
  show "unat st = unat base + ?st" "unat en = unat base + ?st + ?sz"
    unfolding st_def en_def by (rule us ue)+
qed

lemma foreach_wellformed:
  assumes wf: "has_descriptors img ds" and al: "8 dvd unat base" and nw: "unat base + length img < 2 ^ 64"
    and fuel: "length ds \<le> fuel"
  shows "avb_descriptor_foreach fuel base (Some img) (Some f) s =
    visit f (desc_offsets (desc_start_of img) ds) s"
proof -
  let ?st = "desc_start_of img" and ?sz = "unat (be64_at img 104)"
  let ?c = "concat (map desc_octets ds)"
  have w: "256 \<le> length img" "take 4 img = AVB_MAGIC" "8 dvd ?st" "?st + ?sz \<le> length img"
      "take ?sz (drop ?st img) = ?c" "list_all desc_ok ds"
    using wf by (simp_all add: has_descriptors_def)
  have in0: "desc_block_inside img" using w by (simp add: desc_block_inside_def)
  note E = foreach_enter [OF in0 al nw]
  have lc: "length ?c = ?sz" using arg_cong [OF w(5), of length] w(4) by simp
  define pre where "pre = take ?st img"
  define post where "post = drop ?sz (drop ?st img)"
  have lp: "length pre = ?st" using w(4) by (simp add: pre_def)
  have img: "img = pre @ ?c @ post"
    unfolding pre_def post_def w(5) [symmetric] by (simp only: append_take_drop_id)
  have "foreach_loop fuel base img (base + of_nat ?st) (base + of_nat ?st + be64_at img 104) f
      (base + of_nat (length pre)) s = visit f (desc_offsets (length pre) ds) s"
    by (rule foreach_loop_visit [OF img w(6) _ al nw fuel]) (use w(3) E(2,3) in \<open>simp_all only: lp lc\<close>)
  then show ?thesis by (simp only: E(1) lp)
qed

lemma visit_count: "visit count_descriptors xs n = Returned (True, n + of_nat (length xs))"
  by (induction xs arbitrary: n) (simp_all add: count_descriptors_def algebra_simps)

lemma visit_set: "visit set_descriptors xs ys = Returned (True, ys @ xs)"
  by (induction xs arbitrary: ys) (simp_all add: set_descriptors_def)

lemma length_desc_offsets [simp]: "length (desc_offsets off ds) = length ds"
  by (induction ds arbitrary: off) simp_all

text \<open>On a well-formed block \<open>avb_descriptor_get_all\<close> returns the offset of every descriptor, in order.\<close>

lemma get_all_wellformed:
  assumes "has_descriptors img ds" and "8 dvd unat base" and "unat base + length img < 2 ^ 64"
    and "length ds \<le> fuel" and "alloc_ok A"
  shows "\<exists>w'. avb_descriptor_get_all A fuel base (Some img) w =
     Returned (Some (desc_offsets (desc_start_of img) ds), w')"
  by (simp add: avb_descriptor_get_all_def foreach_wellformed [OF assms(1-4)] visit_count visit_set
      avb_calloc_def alloc_ok_malloc [OF assms(5)])

lemma desc_offsets_nth:
  assumes "take n (drop off img) = concat (map desc_octets ds)" "off + n \<le> length img" "i < length ds"
    "n = length (concat (map desc_octets ds))"
  shows "slice (desc_offsets off ds ! i) (16 + length (snd (ds ! i))) img = Some (desc_octets (ds ! i))"
  using assms
proof (induction ds arbitrary: off n i)
  case (Cons d ds)
  have n: "n = 16 + length (snd d) + length (concat (map desc_octets ds))" using Cons.prems(4) by simp
  show ?case
  proof (cases i)
    case 0
    have "take (16 + length (snd d)) (drop off img) = take (16 + length (snd d)) (take n (drop off img))"
      using n by simp
    also have "\<dots> = desc_octets d" using Cons.prems(1) by simp
    finally show ?thesis using 0 Cons.prems(2) n by (simp add: slice_def)
  next
    case (Suc j)
    let ?m = "length (concat (map desc_octets ds))"
    have "take ?m (drop (off + 16 + length (snd d)) img) = drop (16 + length (snd d)) (take n (drop off img))"
      using n by (simp add: drop_take add.commute add.left_commute)
    also have "\<dots> = concat (map desc_octets ds)" using Cons.prems(1) by simp
    finally have "take ?m (drop (off + 16 + length (snd d)) img) = concat (map desc_octets ds)" .
    from Cons.IH [OF this _ _ refl, of j] Suc Cons.prems(2,3) n show ?thesis by simp
  qed
qed simp

subsection \<open>Length fields that wrap\<close>

text \<open>
  \<open>nb_total = 16 + nb_following\<close> is computed in 64 bits before it is checked.  A length field
  of \<open>2 ^ 64 - 16\<close> gives zero, passes every check, and the loop does not advance.
\<close>

lemma foreach_loop_stuck:
  assumes img: "slice (unat (p - base)) 16 img = Some dh" "be64_at dh 8 = - 16" and al: "p AND 7 = 0"
    and p: "desc_start \<le> p" "p < desc_end"
    and f: "\<And>s. \<exists>s'. f (unat (p - base)) s = Returned (True, s')"
  shows "foreach_loop fuel base img desc_start desc_end f p s = Unfinished"
proof (induction fuel arbitrary: s)
  case 0
  show ?case using p by (simp add: foreach_loop.simps)
next
  case (Suc fuel)
  obtain s' where "f (unat (p - base)) s = Returned (True, s')" using f by blast
  then show ?case
    using p al img Suc.IH
    by (subst foreach_loop.simps) (simp add: Let_def not_less order_less_imp_le)
qed

lemma obind_Unfinished_iff:
  "obind m f = Unfinished \<longleftrightarrow> m = Unfinished \<or> (\<exists>x. m = Returned x \<and> f x = Unfinished)"
  by (cases m) simp_all

lemma checked_not_Unfinished [simp]: "checked v \<noteq> Unfinished"
  by (cases v) simp_all

lemma avb_assert_not_Unfinished [simp]: "avb_assert b \<noteq> Unfinished"
  by (simp add: avb_assert_def)

text \<open>
  The offsets at which the walk may arrive: the start of the block as the code adds it up, and behind
  every descriptor the next one.  The loop ends when no sum of an address and a length wraps around
  there.
\<close>

inductive desc_visited :: "bytes \<Rightarrow> nat \<Rightarrow> bool" for img where
  visited_first: "desc_visited img (unat (256 + be64_at img 12 + be64_at img 96))"
| visited_next: "desc_visited img off \<Longrightarrow> off + 16 \<le> length img \<Longrightarrow>
    desc_visited img (off + 16 + unat (be64_at img (off + 8)))"

definition no_length_wraps :: "u64 \<Rightarrow> bytes \<Rightarrow> bool" where
  "no_length_wraps base img \<longleftrightarrow>
     (\<forall>off. desc_visited img off \<longrightarrow> off + 16 \<le> length img \<longrightarrow>
        unat base + off + 16 + unat (be64_at img (off + 8)) < 2 ^ 64)"

lemma slice_be64:
  assumes "slice off 16 img = Some dh"
  shows "be64_at dh 8 = be64_at img (off + 8)"
proof -
  have dh: "dh = take 16 (drop off img)" using assms by (simp add: slice_def split: if_splits)
  have "take 8 (drop 8 dh) = take 8 (drop (off + 8) img)"
    unfolding dh drop_take drop_drop by (simp add: add.commute)
  then show ?thesis by (simp only: be64_at_def load64_def)
qed

lemma foreach_loop_finishes:
  assumes short: "no_length_wraps base img" and base: "unat base + length img < 2 ^ 64"
    and de: "unat desc_end \<le> unat base + length img" and ds: "unat base \<le> unat desc_start"
    and f: "\<And>x s. f x s \<noteq> Unfinished"
    and p: "unat desc_start \<le> unat p" "desc_visited img (unat p - unat base)" and fuel: "unat desc_end - unat p \<le> 16 * fuel"
  shows "foreach_loop fuel base img desc_start desc_end f p s \<noteq> Unfinished"
  using p fuel
proof (induction fuel arbitrary: p s)
  case 0
  then show ?case by (simp add: foreach_loop.simps word_less_nat_alt)
next
  case (Suc fuel)
  have off: "unat (p - base) = unat p - unat base"
    using Suc.prems(1) ds by (intro unat_sub) (simp add: word_le_nat_alt)
  show ?case
  proof (cases "p < desc_end \<and> p AND 7 = 0 \<and> slice (unat (p - base)) 16 img \<noteq> None")
    case True
    then obtain dh where dh: "slice (unat p - unat base) 16 img = Some dh" using off by auto
    define n where "n = 16 + be64_at dh 8"
    have inside: "unat p - unat base + 16 \<le> length img" using dh by (simp add: slice_def split: if_splits)
    have dl: "be64_at img (unat p - unat base + 8) = be64_at dh 8" using slice_be64 [OF dh] by simp
    have b: "unat p + 16 + unat (be64_at dh 8) < 2 ^ 64"
      using short [unfolded no_length_wraps_def, rule_format, OF Suc.prems(2) inside, unfolded dl] Suc.prems(1) ds by simp
    have n: "unat n = 16 + unat (be64_at dh 8)"
      using b unfolding n_def by (subst unat_word_ariths) (simp add: take_bit_eq_mod)
    have un: "unat (n + p) = unat n + unat p"
      using b n by (subst unat_word_ariths) (simp add: take_bit_eq_mod)
    have "desc_visited img (unat (p + n) - unat base)"
      using visited_next [OF Suc.prems(2) inside] Suc.prems(1) ds un n dl by (simp add: ac_simps)
    then have IH: "\<not> (n + p < desc_start \<or> desc_end < n + p) \<Longrightarrow>
        foreach_loop fuel base img desc_start desc_end f (p + n) s' \<noteq> Unfinished" for s'
      using Suc.prems n un by (intro Suc.IH) (simp_all add: add.commute [of p])
    show ?thesis
    proof
      assume "foreach_loop (Suc fuel) base img desc_start desc_end f p s = Unfinished"
      with True dh off f [of "unat (p - base)" s] IH show False
        by (subst (asm) foreach_loop.simps)
          (cases "f (unat (p - base)) s"; auto simp: n_def [symmetric] Let_def split: if_splits)
    qed
  next
    case False
    then show ?thesis
      by (subst foreach_loop.simps) (cases "slice (unat (p - base)) 16 img"; auto simp: avb_assert_def)
  qed
qed

lemma get_all_stuck:
  assumes wf: "desc_block_inside img" and al: "8 dvd unat base" "8 dvd desc_start_of img"
    and nw: "unat base + length img < 2 ^ 64"
    and sz: "16 \<le> unat (be64_at img 104)" and evil: "be64_at img (desc_start_of img + 8) = - 16"
  shows "avb_descriptor_get_all A fuel base (Some img) w = Unfinished"
proof -
  let ?st = "desc_start_of img"
  note E = foreach_enter [OF wf al(1) nw]
  have in0: "?st + 16 \<le> length img" using wf sz by (simp add: desc_block_inside_def)
  have off: "unat (base + of_nat ?st - base) = ?st" using nw in0 by (simp add: unat_of_nat_u64)
  obtain dh where dh: "slice ?st 16 img = Some dh" using in0 by (simp add: slice_def)
  have "foreach_loop fuel base img (base + of_nat ?st) (base + of_nat ?st + be64_at img 104) count_descriptors
      (base + of_nat ?st) 0 = Unfinished"
  proof (rule foreach_loop_stuck)
    show "slice (unat (base + of_nat ?st - base)) 16 img = Some dh" by (simp only: off dh)
    show "be64_at dh 8 = - 16" using slice_be64 [OF dh] evil by simp
    show "base + of_nat ?st AND 7 = 0" unfolding and7_iff E(2) using al by simp
    show "base + of_nat ?st < base + of_nat ?st + be64_at img 104"
      unfolding word_less_nat_alt E(2,3) using sz by simp
  qed (simp_all add: count_descriptors_def)
  then show ?thesis by (simp add: avb_descriptor_get_all_def E(1))
qed

lemma foreach_finishes:
  assumes short: "no_length_wraps base img" and nw: "unat base + length img < 2 ^ 64"
    and f: "\<And>x s. f x s \<noteq> Unfinished" and fuel: "length img div 16 < fuel"
  shows "avb_descriptor_foreach fuel base (Some img) (Some f) s \<noteq> Unfinished"
proof -
  have len: "unat (base + of_nat (length img)) = unat base + length img" using nw by (intro unat_add_of_nat) simp
  define st where "st = base + 256 + be64_at img 12 + be64_at img 96"
  define en where "en = st + be64_at img 104"
  have L: "foreach_loop fuel base img st en f st s \<noteq> Unfinished"
    if "\<not> (st < base \<or> st > base + of_nat (length img) \<or> en < base \<or> en > base + of_nat (length img) \<or> en < st)"
  proof (rule foreach_loop_finishes [OF short nw _ _ f])
    show "unat en \<le> unat base + length img" "unat base \<le> unat st"
      using that len by (simp_all add: word_less_nat_alt not_less)
    show "unat en - unat st \<le> 16 * fuel"
      using that len fuel by (simp add: word_less_nat_alt not_less) linarith
    have "st - base = 256 + be64_at img 12 + be64_at img 96" by (simp add: st_def)
    moreover have "unat (st - base) = unat st - unat base"
      using that by (intro unat_sub) (simp add: word_le_nat_alt word_less_nat_alt not_less)
    ultimately show "desc_visited img (unat st - unat base)" using visited_first [of img] by simp
  qed simp
  show ?thesis
  proof
    assume "avb_descriptor_foreach fuel base (Some img) (Some f) s = Unfinished"
    then show False
      using L by (auto simp: avb_descriptor_foreach_def Let_def st_def [symmetric] en_def [symmetric] avb_assert_def
          obind_Unfinished_iff split: if_splits)
  qed
qed

subsection \<open>Validated descriptors are contained\<close>

lemma safe_add_to_u32:
  assumes "unat e + unat (n :: u32) < 2 ^ 64"
  shows "unat (snd (avb_safe_add_to e (ucast n))) = unat e + unat n"
proof -
  have u: "unat (ucast n :: u64) = unat n" by (rule unat_ucast_up) simp
  with assms have "fst (avb_safe_add_to e (ucast n))" by (simp add: avb_safe_add_to_iff)
  then show ?thesis using avb_safe_add_to_value [of e "ucast n"] u by simp
qed

lemma unat_u32: "unat (n :: u32) < 4294967296"
  using unat_less [of n] by simp

lemma safe_add_two:
  fixes a b :: u32
  assumes "unat e < 2 ^ 32"
    and "\<not> n < snd (avb_safe_add_to (snd (avb_safe_add_to e (ucast a))) (ucast b))"
  shows "unat e + unat a + unat b \<le> unat n"
proof -
  have 1: "unat (snd (avb_safe_add_to e (ucast a))) = unat e + unat a"
    using assms(1) unat_u32 [of a] by (intro safe_add_to_u32) simp
  have "unat (snd (avb_safe_add_to (snd (avb_safe_add_to e (ucast a))) (ucast b))) = unat e + unat a + unat b"
    using assms(1) unat_u32 [of a] unat_u32 [of b] 1 by (subst safe_add_to_u32) simp_all
  then show ?thesis using assms(2) by (simp add: word_less_nat_alt not_less)
qed

lemma safe_add_three:
  fixes a b c :: u32
  assumes "unat e < 2 ^ 32"
    and "\<not> n < snd (avb_safe_add_to (snd (avb_safe_add_to (snd (avb_safe_add_to e (ucast a))) (ucast b))) (ucast c))"
  shows "unat e + unat a + unat b + unat c \<le> unat n"
proof -
  have 1: "unat (snd (avb_safe_add_to e (ucast a))) = unat e + unat a"
    using assms(1) unat_u32 [of a] by (intro safe_add_to_u32) simp
  have 2: "unat (snd (avb_safe_add_to (snd (avb_safe_add_to e (ucast a))) (ucast b))) = unat e + unat a + unat b"
    using assms(1) unat_u32 [of a] unat_u32 [of b] 1 by (subst safe_add_to_u32) simp_all
  have "unat (snd (avb_safe_add_to (snd (avb_safe_add_to (snd (avb_safe_add_to e (ucast a))) (ucast b))) (ucast c))) =
      unat e + unat a + unat b + unat c"
    using assms(1) unat_u32 [of a] unat_u32 [of b] unat_u32 [of c] 2 by (subst safe_add_to_u32) simp_all
  then show ?thesis using assms(2) by (simp add: word_less_nat_alt not_less)
qed

lemma parent_length:
  assumes "avb_descriptor_validate_and_byteswap src = Returned (ok, p)"
  shows "num_bytes_following p = be64_at src 8"
proof -
  obtain h where "slice 0 16 src = Some h" "num_bytes_following p = be64_at h 8"
    using assms by (auto simp: avb_descriptor_validate_and_byteswap_def obind_Returned_iff Let_def)
  with slice_be64 [of 0 src h] show ?thesis by simp
qed

lemmas validated_simps = obind_Returned_iff Let_def split_def

lemma hash_descriptor_contained:
  assumes "avb_hash_descriptor_validate_and_byteswap src = Returned (Some d)"
  shows "tag (hash_parent d) = AVB_DESCRIPTOR_TAG_HASH" "132 \<le> length src"
    "132 + unat (hash_partition_name_len d) + unat (hash_salt_len d) + unat (hash_digest_len d) \<le>
       16 + unat (num_bytes_following (hash_parent d))"
    "num_bytes_following (hash_parent d) = be64_at src 8"
proof -
  from assms obtain dd x where c: "slice 0 132 src = Some dd"
    "avb_descriptor_validate_and_byteswap src = Returned x" "hash_parent d = snd x"
    "tag (snd x) = AVB_DESCRIPTOR_TAG_HASH"
    "\<not> num_bytes_following (snd x) < snd (avb_safe_add_to (snd (avb_safe_add_to (snd (avb_safe_add_to 116
        (ucast (hash_partition_name_len d)))) (ucast (hash_salt_len d)))) (ucast (hash_digest_len d)))"
    unfolding avb_hash_descriptor_validate_and_byteswap_def validated_simps
    by (auto split: if_splits)
  show "tag (hash_parent d) = AVB_DESCRIPTOR_TAG_HASH" "132 \<le> length src"
    using c by (simp_all add: slice_def split: if_splits)
  show "132 + unat (hash_partition_name_len d) + unat (hash_salt_len d) + unat (hash_digest_len d) \<le>
       16 + unat (num_bytes_following (hash_parent d))"
    using safe_add_three [OF _ c(5)] c(3) by simp
  show "num_bytes_following (hash_parent d) = be64_at src 8"
    using c(2,3) parent_length [of src "fst x" "snd x"] by simp
qed

lemma hashtree_descriptor_contained:
  assumes "avb_hashtree_descriptor_validate_and_byteswap src = Returned (Some d)"
  shows "tag (ht_parent d) = AVB_DESCRIPTOR_TAG_HASHTREE" "180 \<le> length src"
    "180 + unat (ht_partition_name_len d) + unat (ht_salt_len d) + unat (root_digest_len d) \<le>
       16 + unat (num_bytes_following (ht_parent d))"
    "num_bytes_following (ht_parent d) = be64_at src 8"
proof -
  from assms obtain dd x where c: "slice 0 180 src = Some dd"
    "avb_descriptor_validate_and_byteswap src = Returned x" "ht_parent d = snd x"
    "tag (snd x) = AVB_DESCRIPTOR_TAG_HASHTREE"
    "\<not> num_bytes_following (snd x) < snd (avb_safe_add_to (snd (avb_safe_add_to (snd (avb_safe_add_to 164
        (ucast (ht_partition_name_len d)))) (ucast (ht_salt_len d)))) (ucast (root_digest_len d)))"
    unfolding avb_hashtree_descriptor_validate_and_byteswap_def validated_simps
    by (auto split: if_splits)
  show "tag (ht_parent d) = AVB_DESCRIPTOR_TAG_HASHTREE" "180 \<le> length src"
    using c by (simp_all add: slice_def split: if_splits)
  show "180 + unat (ht_partition_name_len d) + unat (ht_salt_len d) + unat (root_digest_len d) \<le>
       16 + unat (num_bytes_following (ht_parent d))"
    using safe_add_three [OF _ c(5)] c(3) by simp
  show "num_bytes_following (ht_parent d) = be64_at src 8"
    using c(2,3) parent_length [of src "fst x" "snd x"] by simp
qed

lemma chain_descriptor_contained:
  assumes "avb_chain_partition_descriptor_validate_and_byteswap src = Returned (Some d)"
  shows "tag (chain_parent d) = AVB_DESCRIPTOR_TAG_CHAIN_PARTITION" "92 \<le> length src"
    "1 \<le> chain_rollback_index_location d"
    "92 + unat (chain_partition_name_len d) + unat (chain_public_key_len d) \<le>
       16 + unat (num_bytes_following (chain_parent d))"
    "num_bytes_following (chain_parent d) = be64_at src 8"
proof -
  from assms obtain dd x where c: "slice 0 92 src = Some dd"
    "avb_descriptor_validate_and_byteswap src = Returned x" "chain_parent d = snd x"
    "tag (snd x) = AVB_DESCRIPTOR_TAG_CHAIN_PARTITION"
    "\<not> num_bytes_following (snd x) < snd (avb_safe_add_to (snd (avb_safe_add_to 76
        (ucast (chain_partition_name_len d)))) (ucast (chain_public_key_len d)))"
    "\<not> chain_rollback_index_location d < 1"
    unfolding avb_chain_partition_descriptor_validate_and_byteswap_def validated_simps
    by (auto split: if_splits)
  show "tag (chain_parent d) = AVB_DESCRIPTOR_TAG_CHAIN_PARTITION" "92 \<le> length src"
    using c by (simp_all add: slice_def split: if_splits)
  show "1 \<le> chain_rollback_index_location d" using c(6) by (simp only: not_less)
  show "92 + unat (chain_partition_name_len d) + unat (chain_public_key_len d) \<le>
       16 + unat (num_bytes_following (chain_parent d))"
    using safe_add_two [OF _ c(5)] c(3) by simp
  show "num_bytes_following (chain_parent d) = be64_at src 8"
    using c(2,3) parent_length [of src "fst x" "snd x"] by simp
qed

lemma cmdline_descriptor_contained:
  assumes "avb_kernel_cmdline_descriptor_validate_and_byteswap src = Returned (Some d)"
  shows "24 + unat (kernel_cmdline_length d) \<le> 16 + unat (num_bytes_following (kc_parent d))"
    "num_bytes_following (kc_parent d) = be64_at src 8"
proof -
  from assms obtain x where c:
    "avb_descriptor_validate_and_byteswap src = Returned x" "kc_parent d = snd x"
    "\<not> num_bytes_following (snd x) < snd (avb_safe_add_to 8 (ucast (kernel_cmdline_length d)))"
    unfolding avb_kernel_cmdline_descriptor_validate_and_byteswap_def validated_simps
    by (auto split: if_splits)
  have "unat (snd (avb_safe_add_to 8 (ucast (kernel_cmdline_length d)))) = 8 + unat (kernel_cmdline_length d)"
    using unat_u32 [of "kernel_cmdline_length d"] by (subst safe_add_to_u32) simp_all
  then show "24 + unat (kernel_cmdline_length d) \<le> 16 + unat (num_bytes_following (kc_parent d))"
    using c(2,3) by (simp add: word_less_nat_alt not_less)
  show "num_bytes_following (kc_parent d) = be64_at src 8"
    using c(1,2) parent_length [of src "fst x" "snd x"] by simp
qed

subsection \<open>Properties\<close>

text \<open>
  C30: on an image whose descriptor block is the concatenation of descriptors with payloads of
  whole words, \<open>avb_descriptor_get_all\<close> returns the position of every descriptor, in order,
  and at each position the image holds that descriptor.
\<close>
theorem descriptors_enumerated:
  assumes "has_descriptors img ds" and "8 dvd unat base" and "unat base + length img < 2 ^ 64"
    and "length ds \<le> fuel" and "alloc_ok A"
  shows "\<exists>offs w'. avb_descriptor_get_all A fuel base (Some img) w = Returned (Some offs, w') \<and>
     length offs = length ds \<and>
     (\<forall>i < length ds. slice (offs ! i) (16 + length (snd (ds ! i))) img = Some (desc_octets (ds ! i)))"
proof -
  have h: "take (unat (be64_at img 104)) (drop (desc_start_of img) img) = concat (map desc_octets ds)"
      "desc_start_of img + unat (be64_at img 104) \<le> length img"
    using assms(1) by (simp_all add: has_descriptors_def)
  have l: "unat (be64_at img 104) = length (concat (map desc_octets ds))"
    using arg_cong [OF h(1), of length] h(2) by simp
  from get_all_wellformed [OF assms, of w] obtain w' where "avb_descriptor_get_all A fuel base (Some img) w =
     Returned (Some (desc_offsets (desc_start_of img) ds), w')" by blast
  with desc_offsets_nth [OF h _ l] show ?thesis by auto
qed

text \<open>A header with the given authentication block size, and descriptor offset and size.\<close>

definition mk_header :: "nat \<Rightarrow> nat \<Rightarrow> nat \<Rightarrow> bytes" where
  "mk_header auth off size0 = AVB_MAGIC @ replicate 8 0 @ to_be 8 auth @ replicate 76 0 @
     to_be 8 off @ to_be 8 size0 @ replicate 144 0"

lemma mk_header_fields:
  "length (mk_header a off n) = 256" "take 4 (mk_header a off n) = AVB_MAGIC"
  "be64_at (mk_header a off n @ rest) 12 = of_nat (a mod 2 ^ 64)"
  "be64_at (mk_header a off n @ rest) 96 = of_nat (off mod 2 ^ 64)"
  "be64_at (mk_header a off n @ rest) 104 = of_nat (n mod 2 ^ 64)"
proof -
  have m: "length AVB_MAGIC = 4" by (simp add: AVB_MAGIC_def ascii_def)
  show "length (mk_header a off n) = 256" "take 4 (mk_header a off n) = AVB_MAGIC"
    by (simp_all add: mk_header_def m)
  have "mk_header a off n @ rest = (AVB_MAGIC @ replicate 8 0) @ to_be 8 a @
      replicate 76 0 @ to_be 8 off @ to_be 8 n @ replicate 144 0 @ rest"
    by (simp only: mk_header_def append_assoc)
  then show "be64_at (mk_header a off n @ rest) 12 = of_nat (a mod 2 ^ 64)"
    by (simp only:) (rule be64_at_octets, simp add: m)
  have "mk_header a off n @ rest = (AVB_MAGIC @ replicate 8 0 @ to_be 8 a @ replicate 76 0) @ to_be 8 off @
      to_be 8 n @ replicate 144 0 @ rest"
    by (simp only: mk_header_def append_assoc)
  then show "be64_at (mk_header a off n @ rest) 96 = of_nat (off mod 2 ^ 64)"
    by (simp only:) (rule be64_at_octets, simp add: m)
  have "mk_header a off n @ rest = (AVB_MAGIC @ replicate 8 0 @ to_be 8 a @ replicate 76 0 @ to_be 8 off) @
      to_be 8 n @ replicate 144 0 @ rest"
    by (simp only: mk_header_def append_assoc)
  then show "be64_at (mk_header a off n @ rest) 104 = of_nat (n mod 2 ^ 64)"
    by (simp only:) (rule be64_at_octets, simp add: m)
qed

definition sample_image :: bytes where
  "sample_image = mk_header 0 0 48 @ desc_octets (3, [1, 2, 3, 4, 5, 6, 7, 8]) @ desc_octets (0, replicate 8 9)"

theorem descriptors_enumerated_witness:
  "\<exists>offs w'. avb_descriptor_get_all (\<lambda>n w. (True, w)) 2 4096 (Some sample_image) () = Returned (Some offs, w') \<and>
     length offs = 2 \<and> slice (offs ! 1) 24 sample_image = Some (desc_octets (0, replicate 8 9))"
proof -
  let ?ds = "[(3, [1, 2, 3, 4, 5, 6, 7, 8]), (0, replicate 8 9)]"
  have len: "length sample_image = 304" by (simp add: sample_image_def mk_header_fields)
  have wf: "has_descriptors sample_image ?ds"
    using len by (simp add: has_descriptors_def desc_start_of_def desc_ok_def)
      (simp add: sample_image_def mk_header_fields dvd_eq_mod_eq_0)
  from descriptors_enumerated [OF wf, of 4096 2 "\<lambda>n w. (True, w)" "()"] len
  show ?thesis by (auto simp: alloc_ok_def)
qed

text \<open>
  The total length of a descriptor is computed with wrap-around before it is checked: an
  image whose first length field is \<open>2 ^ 64 - 16\<close> passes the checks and the enumeration of
  its descriptors never ends.
\<close>
theorem descriptor_length_wraps:
  assumes "desc_block_inside img" and "8 dvd unat base" "8 dvd desc_start_of img"
    and "unat base + length img < 2 ^ 64"
    and "16 \<le> unat (be64_at img 104)" and "be64_at img (desc_start_of img + 8) = - 16"
  shows "\<forall>fuel. avb_descriptor_get_all A fuel base (Some img) w = Unfinished"
  by (intro allI get_all_stuck assms)

definition wrapping_image :: bytes where
  "wrapping_image = mk_header 0 0 16 @ replicate 8 0 @ to_be 8 (2 ^ 64 - 16)"

theorem descriptor_length_wraps_witness:
  "\<forall>fuel. avb_descriptor_get_all (\<lambda>n w. (True, w)) fuel 4096 (Some wrapping_image) () = Unfinished"
proof (rule descriptor_length_wraps)
  have len: "length wrapping_image = 272" by (simp add: wrapping_image_def mk_header_fields)
  have h: "desc_start_of wrapping_image = 256" "be64_at wrapping_image 104 = 16"
    by (simp_all add: desc_start_of_def wrapping_image_def mk_header_fields)
  show "desc_block_inside wrapping_image"
    using len by (simp add: desc_block_inside_def h) (simp add: wrapping_image_def mk_header_fields)
  show "be64_at wrapping_image (desc_start_of wrapping_image + 8) = - 16"
    using be64_at_octets [of "mk_header 0 0 16 @ replicate 8 0" 264 "2 ^ 64 - 16" "[]"]
    by (simp add: h mk_header_fields(1)) (simp add: wrapping_image_def)
  show "8 dvd desc_start_of wrapping_image" "16 \<le> unat (be64_at wrapping_image 104)"
    "unat (4096 :: u64) + length wrapping_image < 2 ^ 64" by (simp_all add: h len)
qed simp

text \<open>
  C31: when the length of no descriptor at which the walk arrives wraps around the address space, the
  iteration ends within one step for every sixteen octets of the image, whatever the callback does
  and whatever else is in the image.
\<close>
theorem foreach_terminates:
  assumes "no_length_wraps base img" and "unat base + length img < 2 ^ 64"
    and "\<And>x s. f x s \<noteq> Unfinished" and "length img div 16 < fuel"
  shows "avb_descriptor_foreach fuel base (Some img) (Some f) s \<noteq> Unfinished"
  using assms by (rule foreach_finishes)

text \<open>An image as the signing tool makes it: a release string, and a property and a hash descriptor.\<close>

definition release_descriptors :: "(u64 \<times> bytes) list" where
  "release_descriptors =
     [(0, to_be 8 7 @ to_be 8 2 @ ascii ''release'' @ [0] @ ascii ''13'' @ [0, 0, 0, 0, 0, 0]),
      (2, to_be 8 4096 @ ascii ''sha256'' @ replicate 26 0 @ to_be 4 4 @ replicate 72 0 @ ascii ''boot'')]"

definition release_image :: bytes where
  "release_image = take 128 (mk_header 0 0 184) @ ascii ''avbtool 1.1.0'' @ replicate 115 0 @
     concat (map desc_octets release_descriptors)"

theorem foreach_terminates_witness:
  "avb_descriptor_foreach 28 4096 (Some release_image) (Some count_descriptors) 0 = Returned (True, 2) \<and>
   avb_descriptor_foreach 28 4096 (Some release_image) (Some count_descriptors) 0 \<noteq> Unfinished"
proof
  let ?ds = "release_descriptors"
  have h: "be64_at (take 128 (mk_header 0 0 184) @ r) k = be64_at (mk_header 0 0 184) k" if "k + 8 \<le> 128" for k r
  proof -
    have "take 8 (drop k (take 128 (mk_header 0 0 184) @ r)) = take 8 (drop k (mk_header 0 0 184))"
      using that by (simp add: mk_header_fields(1) drop_take)
    then show ?thesis by (simp only: be64_at_def load64_def)
  qed
  have fields: "be64_at release_image 12 = 0" "be64_at release_image 96 = 0" "be64_at release_image 104 = 184"
    using mk_header_fields(3-5) [of 0 0 184 "[]"] by (simp_all add: release_image_def h)
  have len: "length (concat (map desc_octets ?ds)) = 184" "length release_image = 440"
    by (simp_all add: release_image_def release_descriptors_def mk_header_fields(1) ascii_def)
  have start: "drop 256 release_image = concat (map desc_octets ?ds)" "take 4 release_image = AVB_MAGIC"
    by (simp_all add: release_image_def mk_header_fields(1,2) ascii_def)
  have wf: "has_descriptors release_image ?ds"
    by (simp add: has_descriptors_def desc_start_of_def fields start len)
      (simp add: release_descriptors_def desc_ok_def ascii_def)
  have "length ?ds = 2" by (simp add: release_descriptors_def)
  with foreach_wellformed [OF wf, of 4096 28 count_descriptors 0] len(2)
  show "avb_descriptor_foreach 28 4096 (Some release_image) (Some count_descriptors) 0 = Returned (True, 2)"
    by (simp add: visit_count)
  have lens: "be64_at release_image (256 + k) = be64_at (concat (map desc_octets ?ds)) k" for k
    by (simp add: be64_at_def add.commute flip: start(1))
  have next0: "be64_at release_image 264 = 32" "be64_at release_image 312 = 120"
  proof -
    let ?c = "concat (map desc_octets ?ds)"
    have "?c = take 8 ?c @ to_be 8 32 @ drop 16 ?c" "?c = take 56 ?c @ to_be 8 120 @ drop 64 ?c"
      by (simp_all add: release_descriptors_def desc_octets_def ascii_def del: to_be.simps)
    then show "be64_at release_image 264 = 32" "be64_at release_image 312 = 120"
      using lens [of 8] lens [of 56] be64_at_octets [of "take 8 ?c" 8 32 "drop 16 ?c"]
        be64_at_octets [of "take 56 ?c" 56 120 "drop 64 ?c"] len(1) by simp_all
  qed
  have seen: "off \<in> {256, 304, 440}" if "desc_visited release_image off" for off
    using that by induction (use fields next0 len(2) in auto)
  have "no_length_wraps 4096 release_image"
    using seen next0 len(2) by (fastforce simp: no_length_wraps_def)
  then show "avb_descriptor_foreach 28 4096 (Some release_image) (Some count_descriptors) 0 \<noteq> Unfinished"
    by (rule foreach_terminates) (simp_all add: len(2) count_descriptors_def)
qed

end
