(* ===== verification/AvbVbmeta.thy ===== *)
theory AvbVbmeta
  imports AvbDescriptor
begin

text \<open>
  \<open>Application/UefiAvb/libavb/avb_vbmeta_image.c\<close>: the header of a vbmeta image and
  \<open>avb_vbmeta_image_verify\<close>, which checks that the hash and the signature of the image match its
  contents and hands out the public key it was signed with.
\<close>

subsection \<open>The header\<close>

record AvbVBMetaImageHeader =
  vb_magic :: bytes
  required_libavb_version_major :: u32
  required_libavb_version_minor :: u32
  authentication_data_block_size :: u64
  auxiliary_data_block_size :: u64
  algorithm_type :: u32
  hash_offset :: u64
  hash_size :: u64
  signature_offset :: u64
  signature_size :: u64
  public_key_offset :: u64
  public_key_size :: u64
  public_key_metadata_offset :: u64
  public_key_metadata_size :: u64
  descriptors_offset :: u64
  descriptors_size :: u64
  rollback_index :: u64
  vb_flags :: u32
  release_string :: bytes

definition avb_vbmeta_image_header_to_host_byte_order :: "bytes \<Rightarrow> AvbVBMetaImageHeader outcome" where
  "avb_vbmeta_image_header_to_host_byte_order src =
     obind (checked (slice 0 256 src)) (\<lambda>d. Returned
       \<lparr>vb_magic = take 4 d,
        required_libavb_version_major = be32_at d 4,
        required_libavb_version_minor = be32_at d 8,
        authentication_data_block_size = be64_at d 12,
        auxiliary_data_block_size = be64_at d 20,
        algorithm_type = be32_at d 28,
        hash_offset = be64_at d 32,
        hash_size = be64_at d 40,
        signature_offset = be64_at d 48,
        signature_size = be64_at d 56,
        public_key_offset = be64_at d 64,
        public_key_size = be64_at d 72,
        public_key_metadata_offset = be64_at d 80,
        public_key_metadata_size = be64_at d 88,
        descriptors_offset = be64_at d 96,
        descriptors_size = be64_at d 104,
        rollback_index = be64_at d 112,
        vb_flags = be32_at d 120,
        release_string = take 48 (drop 128 d)\<rparr>)"

datatype AvbVBMetaVerifyResult =
    AVB_VBMETA_VERIFY_RESULT_OK
  | AVB_VBMETA_VERIFY_RESULT_OK_NOT_SIGNED
  | AVB_VBMETA_VERIFY_RESULT_INVALID_VBMETA_HEADER
  | AVB_VBMETA_VERIFY_RESULT_UNSUPPORTED_VERSION
  | AVB_VBMETA_VERIFY_RESULT_HASH_MISMATCH
  | AVB_VBMETA_VERIFY_RESULT_SIGNATURE_MISMATCH

definition avb_vbmeta_verify_result_to_string :: "AvbVBMetaVerifyResult \<Rightarrow> string" where
  "avb_vbmeta_verify_result_to_string result = (case result of
     AVB_VBMETA_VERIFY_RESULT_OK \<Rightarrow> ''OK''
   | AVB_VBMETA_VERIFY_RESULT_OK_NOT_SIGNED \<Rightarrow> ''OK_NOT_SIGNED''
   | AVB_VBMETA_VERIFY_RESULT_INVALID_VBMETA_HEADER \<Rightarrow> ''INVALID_VBMETA_HEADER''
   | AVB_VBMETA_VERIFY_RESULT_UNSUPPORTED_VERSION \<Rightarrow> ''UNSUPPORTED_VERSION''
   | AVB_VBMETA_VERIFY_RESULT_HASH_MISMATCH \<Rightarrow> ''HASH_MISMATCH''
   | AVB_VBMETA_VERIFY_RESULT_SIGNATURE_MISMATCH \<Rightarrow> ''SIGNATURE_MISMATCH'')"

subsection \<open>Verification\<close>

text \<open>
  The checks of the header, in the order of the code: \<open>Some r\<close> is a jump to \<open>out\<close> with the
  result \<open>r\<close>, \<open>None\<close> goes on with the hash.  \<open>base\<close> is the address of the image.
\<close>

definition vbmeta_check_header ::
  "u64 \<Rightarrow> u64 \<Rightarrow> AvbVBMetaImageHeader \<Rightarrow> AvbVBMetaVerifyResult option" where
  "vbmeta_check_header base length0 h =
     (if required_libavb_version_major h \<noteq> 1 \<or> required_libavb_version_minor h > 1
      then Some AVB_VBMETA_VERIFY_RESULT_UNSUPPORTED_VERSION
      else if release_string h ! 47 \<noteq> 0 then Some AVB_VBMETA_VERIFY_RESULT_INVALID_VBMETA_HEADER
      else if authentication_data_block_size h AND 0x3f \<noteq> 0 \<or> auxiliary_data_block_size h AND 0x3f \<noteq> 0
      then Some AVB_VBMETA_VERIFY_RESULT_INVALID_VBMETA_HEADER
      else
        (let (ok1, total1) = avb_safe_add_to 256 (authentication_data_block_size h);
             (ok2, block_total) = avb_safe_add_to total1 (auxiliary_data_block_size h);
             (hash_ok, hash_end) = avb_safe_add (hash_offset h) (hash_size h);
             (sig_ok, signature_end) = avb_safe_add (signature_offset h) (signature_size h);
             (pk_ok, pubkey_end) = avb_safe_add (public_key_offset h) (public_key_size h);
             (md_ok, pubkey_md_end) = avb_safe_add (public_key_metadata_offset h) (public_key_metadata_size h)
         in if \<not> ok1 \<or> \<not> ok2 then Some AVB_VBMETA_VERIFY_RESULT_INVALID_VBMETA_HEADER
            else if block_total > length0 then Some AVB_VBMETA_VERIFY_RESULT_INVALID_VBMETA_HEADER
            else if \<not> fst (avb_safe_add base length0) then Some AVB_VBMETA_VERIFY_RESULT_INVALID_VBMETA_HEADER
            else if \<not> hash_ok \<or> hash_end > authentication_data_block_size h
            then Some AVB_VBMETA_VERIFY_RESULT_INVALID_VBMETA_HEADER
            else if \<not> sig_ok \<or> signature_end > authentication_data_block_size h
            then Some AVB_VBMETA_VERIFY_RESULT_INVALID_VBMETA_HEADER
            else if \<not> pk_ok \<or> pubkey_end > auxiliary_data_block_size h
            then Some AVB_VBMETA_VERIFY_RESULT_INVALID_VBMETA_HEADER
            else if public_key_metadata_size h > 0 \<and> (\<not> md_ok \<or> pubkey_md_end > auxiliary_data_block_size h)
            then Some AVB_VBMETA_VERIFY_RESULT_INVALID_VBMETA_HEADER
            else if algorithm_type h = 0 then Some AVB_VBMETA_VERIFY_RESULT_OK_NOT_SIGNED
            else (case avb_get_algorithm_data (algorithm_type h) of
                None \<Rightarrow> Some AVB_VBMETA_VERIFY_RESULT_INVALID_VBMETA_HEADER
              | Some algorithm \<Rightarrow>
                  if hash_size h \<noteq> hash_len algorithm then Some AVB_VBMETA_VERIFY_RESULT_INVALID_VBMETA_HEADER
                  else None)))"

text \<open>
  The stack of a function that hashes: the contexts as they are before \<open>init\<close>, and the words
  the SHA-512 transformations find in \<open>wv\<close> (see \<open>AvbSha512\<close>): in the first and the second call of
  \<open>update\<close>, in the call for each image of a loop over images, and in \<open>final\<close>.
\<close>

record hash_stack =
  stack_sha256 :: AvbSHA256Ctx
  stack_sha512 :: AvbSHA512Ctx
  stack_update1 :: "u64 list \<times> u64 list"
  stack_update2 :: "u64 list \<times> u64 list"
  stack_images :: "nat \<Rightarrow> u64 list \<times> u64 list"
  stack_final :: "u64 list"

definition vbmeta_compute_hash :: "hash_stack \<Rightarrow> u32 \<Rightarrow> bytes \<Rightarrow> bytes \<Rightarrow> bytes option" where
  "vbmeta_compute_hash st alg header_block auxiliary_block =
     (if alg = 1 \<or> alg = 2 \<or> alg = 3
      then Some (avb_sha256_final (avb_sha256_update
             (avb_sha256_update (avb_sha256_init (stack_sha256 st)) header_block) auxiliary_block))
      else if alg = 4 \<or> alg = 5 \<or> alg = 6
      then Some (avb_sha512_final (stack_final st) (avb_sha512_update (stack_update2 st)
             (avb_sha512_update (stack_update1 st) (avb_sha512_init (stack_sha512 st)) header_block)
             auxiliary_block))
      else None)"

text \<open>
  The result is the verdict, the position and length of the public key in the image, and the
  world of the allocator.  The auxiliary block is hashed over its size truncated to 32 bits.
\<close>

definition avb_vbmeta_image_verify ::
  "'w alloc \<Rightarrow> hash_stack \<Rightarrow> u64 \<Rightarrow> bytes \<Rightarrow> 'w \<Rightarrow>
   (AvbVBMetaVerifyResult \<times> (nat \<times> u64) option \<times> 'w) outcome" where
  "avb_vbmeta_image_verify A st base data w =
     obind (checked (avb_safe_memcmp data AVB_MAGIC 4)) (\<lambda>r.
       let length0 = of_nat (length data) :: u64 in
       if r \<noteq> 0 then Returned (AVB_VBMETA_VERIFY_RESULT_INVALID_VBMETA_HEADER, None, w)
       else if length0 < 256 then Returned (AVB_VBMETA_VERIFY_RESULT_INVALID_VBMETA_HEADER, None, w)
       else obind (avb_vbmeta_image_header_to_host_byte_order data) (\<lambda>h.
         case vbmeta_check_header base length0 h of
           Some ret \<Rightarrow> Returned (ret, None, w)
         | None \<Rightarrow>
           let algorithm = the (avb_get_algorithm_data (algorithm_type h));
               auth = 256;
               aux = 256 + unat (authentication_data_block_size h);
               aux_len = unat (ucast (auxiliary_data_block_size h) :: u32);
               hash_pos = auth + unat (hash_offset h);
               sig_pos = auth + unat (signature_offset h);
               key_pos = aux + unat (public_key_offset h)
           in obind (checked (slice 0 256 data)) (\<lambda>header_block.
              obind (checked (slice aux aux_len data)) (\<lambda>auxiliary_block.
              case vbmeta_compute_hash st (algorithm_type h) header_block auxiliary_block of
                None \<Rightarrow> Returned (AVB_VBMETA_VERIFY_RESULT_INVALID_VBMETA_HEADER, None, w)
              | Some computed_hash \<Rightarrow>
              obind (checked (avb_safe_memcmp (drop hash_pos data) computed_hash (unat (hash_size h)))) (\<lambda>r.
              if r \<noteq> 0 then Returned (AVB_VBMETA_VERIFY_RESULT_HASH_MISMATCH, None, w)
              else obind (checked (avb_rsa_verify A (Some (drop key_pos data)) (public_key_size h)
                     (Some (drop sig_pos data)) (signature_size h) (Some (drop hash_pos data)) (hash_size h)
                     (padding algorithm) (padding_len algorithm) w)) (\<lambda>(verification_result, w').
                if \<not> verification_result
                then Returned (AVB_VBMETA_VERIFY_RESULT_SIGNATURE_MISMATCH, None, w')
                else Returned (AVB_VBMETA_VERIFY_RESULT_OK,
                       if public_key_size h > 0 then Some (key_pos, public_key_size h) else None, w')))))))"

subsection \<open>What a header that passes the checks satisfies\<close>

definition blocks_inside :: "AvbVBMetaImageHeader \<Rightarrow> nat \<Rightarrow> bool" where
  "blocks_inside h n \<longleftrightarrow>
     256 + unat (authentication_data_block_size h) + unat (auxiliary_data_block_size h) \<le> n \<and>
     unat (hash_offset h) + unat (hash_size h) \<le> unat (authentication_data_block_size h) \<and>
     unat (signature_offset h) + unat (signature_size h) \<le> unat (authentication_data_block_size h) \<and>
     unat (public_key_offset h) + unat (public_key_size h) \<le> unat (auxiliary_data_block_size h) \<and>
     (public_key_metadata_size h > 0 \<longrightarrow>
        unat (public_key_metadata_offset h) + unat (public_key_metadata_size h)
          \<le> unat (auxiliary_data_block_size h))"

lemma safe_add_in:
  assumes "fst (avb_safe_add a b)" "\<not> c < snd (avb_safe_add a b)"
  shows "unat a + unat b \<le> unat c"
  using assms avb_safe_add_value [of a b] by (simp add: word_less_nat_alt not_less)

lemma check_header_None:
  assumes "vbmeta_check_header base length0 h = None"
  shows "blocks_inside h (unat length0)"
    "\<exists>alg. algorithm_of_code (algorithm_type h) = Some alg \<and> alg \<noteq> AVB_ALGORITHM_TYPE_NONE \<and>
       hash_size h = hash_len (algorithm_data alg)"
    "unat base + unat length0 < 2 ^ 64"
proof -
  from assms have c: "fst (avb_safe_add_to 256 (authentication_data_block_size h))"
    "fst (avb_safe_add_to (snd (avb_safe_add_to 256 (authentication_data_block_size h))) (auxiliary_data_block_size h))"
    "\<not> length0 < snd (avb_safe_add_to (snd (avb_safe_add_to 256 (authentication_data_block_size h))) (auxiliary_data_block_size h))"
    "fst (avb_safe_add base length0)"
    "fst (avb_safe_add (hash_offset h) (hash_size h))"
    "\<not> authentication_data_block_size h < snd (avb_safe_add (hash_offset h) (hash_size h))"
    "fst (avb_safe_add (signature_offset h) (signature_size h))"
    "\<not> authentication_data_block_size h < snd (avb_safe_add (signature_offset h) (signature_size h))"
    "fst (avb_safe_add (public_key_offset h) (public_key_size h))"
    "\<not> auxiliary_data_block_size h < snd (avb_safe_add (public_key_offset h) (public_key_size h))"
    "public_key_metadata_size h > 0 \<longrightarrow> fst (avb_safe_add (public_key_metadata_offset h) (public_key_metadata_size h)) \<and>
       \<not> auxiliary_data_block_size h < snd (avb_safe_add (public_key_metadata_offset h) (public_key_metadata_size h))"
    "algorithm_type h \<noteq> 0"
    "\<exists>a. avb_get_algorithm_data (algorithm_type h) = Some a \<and> hash_size h = hash_len a"
    by (simp_all add: vbmeta_check_header_def Let_def split_def split: if_splits option.splits)
  have t: "256 + unat (authentication_data_block_size h) + unat (auxiliary_data_block_size h) \<le> unat length0"
    using c(1-3) avb_safe_add_to_value [of 256 "authentication_data_block_size h"]
      avb_safe_add_to_value [of "snd (avb_safe_add_to 256 (authentication_data_block_size h))" "auxiliary_data_block_size h"]
    by (simp add: word_less_nat_alt not_less)
  show "blocks_inside h (unat length0)"
    using t c(11) safe_add_in [OF c(5,6)] safe_add_in [OF c(7,8)] safe_add_in [OF c(9,10)] safe_add_in
    unfolding blocks_inside_def by blast
  show "\<exists>alg. algorithm_of_code (algorithm_type h) = Some alg \<and> alg \<noteq> AVB_ALGORITHM_TYPE_NONE \<and>
       hash_size h = hash_len (algorithm_data alg)"
    using c(12,13) by (auto simp: avb_get_algorithm_data_def algorithm_of_code_def split: if_splits)
  show "unat base + unat length0 < 2 ^ 64" using c(4) avb_safe_add_iff [of base length0] by simp
qed

subsection \<open>Lengths of digests\<close>

lemma length_UNPACK: "length (UNPACK32 x) = 4" "length (UNPACK64 y) = 8"
  by (simp_all add: UNPACK32_def UNPACK64_def)

lemma length_concat_const: "(\<And>x. length (f x) = n) \<Longrightarrow> length (concat (map f xs)) = n * length xs"
  by (induction xs) simp_all

lemma length_SHA256_transform: "length h = 8 \<Longrightarrow> length (SHA256_transform h m n) = 8"
proof -
  have r: "length wv = 8 \<Longrightarrow> length (fold (sha256_round w) js wv) = 8" for w js wv
    by (induction js arbitrary: wv) (simp_all add: sha256_round_def Let_def)
  have "length h = 8 \<Longrightarrow> length (fold (\<lambda>i h. sha256_block h (f i)) is h) = 8" for f "is"
    by (induction "is" arbitrary: h) (simp_all add: sha256_block_def r)
  then show "length h = 8 \<Longrightarrow> length (SHA256_transform h m n) = 8" by (simp add: SHA256_transform_def)
qed

lemma length_sha256_run:
  "length (avb_sha256_final (avb_sha256_update (avb_sha256_update (avb_sha256_init ctx) a) b)) = 32"
proof -
  have i: "length (sha256_h (avb_sha256_init ctx)) = 8" by (simp add: avb_sha256_init_def sha256_h0_def)
  have u: "length (sha256_h c) = 8 \<Longrightarrow> length (sha256_h (avb_sha256_update c d)) = 8" for c d
    by (simp add: avb_sha256_update_def Let_def length_SHA256_transform)
  have f: "length (sha256_h c) = 8 \<Longrightarrow> length (avb_sha256_final c) = 32" for c
    by (simp add: avb_sha256_final_def Let_def length_concat_const [OF length_UNPACK(1)] length_SHA256_transform)
  show ?thesis by (intro f u i)
qed

definition stack_ok :: "hash_stack \<Rightarrow> bool" where
  "stack_ok st \<longleftrightarrow> length (sha256_blk (stack_sha256 st)) = 128 \<and> length (sha512_h (stack_sha512 st)) = 8 \<and>
     stacks_ok (stack_update1 st) \<and> stacks_ok (stack_update2 st) \<and> (\<forall>n. stacks_ok (stack_images st n)) \<and>
     length (stack_final st) = 8"

lemma length_sha512_run:
  assumes "stack_ok st"
  shows "length (avb_sha512_final (stack_final st) (avb_sha512_update (stack_update2 st)
     (avb_sha512_update (stack_update1 st) (avb_sha512_init (stack_sha512 st)) a) b)) = 64"
proof -
  have i: "length (sha512_h (avb_sha512_init (stack_sha512 st))) = 8"
    using assms by (simp add: avb_sha512_init_def memcpy8_def stack_ok_def)
  have u: "length (sha512_h (avb_sha512_update s c d)) = 8" if "length (sha512_h c) = 8" "stacks_ok s" for s c d
    using avb_sha512_update_shift(2) [of 1 c s d] that by simp
  have f: "length (avb_sha512_final k c) = 64" if "length (sha512_h c) = 8" "length k = 8" for k c
    using that SHA512_transform_shift(2) [of 1 "sha512_h c" k]
    by (simp add: avb_sha512_final_def Let_def length_concat_const [OF length_UNPACK(2)])
  show ?thesis using assms by (intro f u i) (simp_all add: stack_ok_def)
qed

lemma vbmeta_compute_hash_length:
  assumes "stack_ok st" "algorithm_of_code c = Some alg" "alg \<noteq> AVB_ALGORITHM_TYPE_NONE"
  shows "\<exists>ch. vbmeta_compute_hash st c a b = Some ch \<and> length ch = unat (hash_len (algorithm_data alg))"
  using assms length_sha256_run [of "stack_sha256 st" a b] length_sha512_run [of st a b]
  by (auto simp: algorithm_of_code_def vbmeta_compute_hash_def algorithm_data_def split: if_splits)

subsection \<open>The verdict\<close>

text \<open>Positions of the parts of an image with the header \<open>h\<close>.\<close>

definition aux_pos :: "AvbVBMetaImageHeader \<Rightarrow> nat" where
  "aux_pos h = 256 + unat (authentication_data_block_size h)"

definition hash_part :: "AvbVBMetaImageHeader \<Rightarrow> bytes \<Rightarrow> bytes" where
  "hash_part h data = take (unat (hash_size h)) (drop (256 + unat (hash_offset h)) data)"

definition sig_part :: "AvbVBMetaImageHeader \<Rightarrow> bytes \<Rightarrow> bytes" where
  "sig_part h data = take (unat (signature_size h)) (drop (256 + unat (signature_offset h)) data)"

definition aux_part :: "AvbVBMetaImageHeader \<Rightarrow> bytes \<Rightarrow> bytes" where
  "aux_part h data = take (unat (ucast (auxiliary_data_block_size h) :: u32)) (drop (aux_pos h) data)"

definition key_pos :: "AvbVBMetaImageHeader \<Rightarrow> nat" where
  "key_pos h = aux_pos h + unat (public_key_offset h)"

text \<open>An image whose header decodes to \<open>h\<close> and passes the checks.\<close>

definition vbmeta_image :: "u64 \<Rightarrow> bytes \<Rightarrow> AvbVBMetaImageHeader \<Rightarrow> bool" where
  "vbmeta_image base data h \<longleftrightarrow> 256 \<le> length data \<and> length data < 2 ^ 64 \<and> take 4 data = AVB_MAGIC \<and>
     avb_vbmeta_image_header_to_host_byte_order data = Returned h \<and>
     vbmeta_check_header base (of_nat (length data)) h = None"

lemma unat_ucast_down_le: "unat (ucast (x :: u64) :: u32) \<le> unat x"
  by (simp add: unsigned_ucast_eq take_bit_eq_mod)

lemma vbmeta_image_parts:
  assumes img: "vbmeta_image base data h"
  shows "blocks_inside h (length data)"
    "length (hash_part h data) = unat (hash_size h)" "length (sig_part h data) = unat (signature_size h)"
    "slice (aux_pos h) (unat (ucast (auxiliary_data_block_size h) :: u32)) data = Some (aux_part h data)"
    "key_pos h + unat (public_key_size h) \<le> length data"
proof -
  have "unat (of_nat (length data) :: u64) = length data"
    using img by (intro unat_of_nat_u64) (simp add: vbmeta_image_def)
  with img check_header_None(1) [of base "of_nat (length data)" h]
  show b: "blocks_inside h (length data)" by (simp add: vbmeta_image_def)
  show "length (hash_part h data) = unat (hash_size h)" "length (sig_part h data) = unat (signature_size h)"
    "key_pos h + unat (public_key_size h) \<le> length data"
    using b by (auto simp: blocks_inside_def hash_part_def sig_part_def key_pos_def aux_pos_def)
  show "slice (aux_pos h) (unat (ucast (auxiliary_data_block_size h) :: u32)) data = Some (aux_part h data)"
    unfolding aux_part_def
    by (rule slice_Some) (use b unat_ucast_down_le [of "auxiliary_data_block_size h"] in
      \<open>simp add: blocks_inside_def aux_pos_def\<close>)
qed

lemma vbmeta_image_algorithm:
  assumes "vbmeta_image base data h"
  obtains alg p where "algorithm_of_code (algorithm_type h) = Some alg" "alg \<noteq> AVB_ALGORITHM_TYPE_NONE"
    "hash_size h = hash_len (algorithm_data alg)" "padding (algorithm_data alg) = Some p"
    "unat (padding_len (algorithm_data alg)) = length p" "length p + unat (hash_size h) = rsa_bytes alg"
    "avb_get_algorithm_data (algorithm_type h) = Some (algorithm_data alg)"
proof -
  from assms check_header_None(2) [of base "of_nat (length data)" h] obtain alg
    where a: "algorithm_of_code (algorithm_type h) = Some alg" "alg \<noteq> AVB_ALGORITHM_TYPE_NONE"
      "hash_size h = hash_len (algorithm_data alg)"
    by (auto simp: vbmeta_image_def)
  from algorithm_data_sizes [OF a(2)] a that show thesis
    by (auto simp: avb_get_algorithm_data_def)
qed

lemma vbmeta_verify_image:
  assumes img: "vbmeta_image base data h" and st: "stack_ok st"
  shows "\<exists>ch. vbmeta_compute_hash st (algorithm_type h) (take 256 data) (aux_part h data) = Some ch \<and>
     length ch = unat (hash_size h) \<and>
     avb_vbmeta_image_verify A st base data w =
       (if hash_part h data \<noteq> ch then Returned (AVB_VBMETA_VERIFY_RESULT_HASH_MISMATCH, None, w)
        else obind (checked (avb_rsa_verify A (Some (drop (key_pos h) data)) (public_key_size h)
               (Some (drop (256 + unat (signature_offset h)) data)) (signature_size h)
               (Some (drop (256 + unat (hash_offset h)) data)) (hash_size h)
               (padding (the (avb_get_algorithm_data (algorithm_type h))))
               (padding_len (the (avb_get_algorithm_data (algorithm_type h)))) w)) (\<lambda>(r, w').
             if \<not> r then Returned (AVB_VBMETA_VERIFY_RESULT_SIGNATURE_MISMATCH, None, w')
             else Returned (AVB_VBMETA_VERIFY_RESULT_OK,
               if public_key_size h > 0 then Some (key_pos h, public_key_size h) else None, w')))"
proof -
  from vbmeta_image_algorithm [OF img] obtain alg where a: "algorithm_of_code (algorithm_type h) = Some alg"
    "alg \<noteq> AVB_ALGORITHM_TYPE_NONE" "hash_size h = hash_len (algorithm_data alg)" by blast
  from vbmeta_compute_hash_length [OF st a(1,2)] a(3) obtain ch where
    ch: "vbmeta_compute_hash st (algorithm_type h) (take 256 data) (aux_part h data) = Some ch"
      "length ch = unat (hash_size h)" by metis
  note P = vbmeta_image_parts [OF img]
  have d: "256 \<le> length data" "take 4 data = AVB_MAGIC" using img by (simp_all add: vbmeta_image_def)
  have "unat (of_nat (length data) :: u64) = length data"
    using img by (intro unat_of_nat_u64) (simp add: vbmeta_image_def)
  then have l: "\<not> (of_nat (length data) :: u64) < 256" using d(1) by (simp add: word_less_nat_alt)
  have hd: "avb_vbmeta_image_header_to_host_byte_order data = Returned h"
      "vbmeta_check_header base (of_nat (length data)) h = None" using img by (simp_all add: vbmeta_image_def)
  have s1: "slice 0 256 data = Some (take 256 data)" using d(1) by (simp add: slice_def)
  have m: "avb_safe_memcmp (drop (256 + unat (hash_offset h)) data) ch (unat (hash_size h)) =
      Some (if hash_part h data = ch then 0 else 1)"
    using memcmp_zero [of "unat (hash_size h)" "drop (256 + unat (hash_offset h)) data" ch] ch(2) P(2)
    by (simp add: hash_part_def)
  have mg: "avb_safe_memcmp data AVB_MAGIC 4 = Some 0" using memcmp_magic [OF d(2)] d(1) by simp
  note u = avb_vbmeta_image_verify_def Let_def mg checked.simps obind.simps hd l if_False option.case s1
    P(4) [unfolded aux_pos_def] ch(1) m key_pos_def [unfolded aux_pos_def, symmetric] simp_thms
  have "avb_vbmeta_image_verify A st base data w =
      obind (checked (Some (if hash_part h data = ch then 0 else 1 :: int))) (\<lambda>r.
        if r \<noteq> 0 then Returned (AVB_VBMETA_VERIFY_RESULT_HASH_MISMATCH, None, w)
        else obind (checked (avb_rsa_verify A (Some (drop (key_pos h) data)) (public_key_size h)
               (Some (drop (256 + unat (signature_offset h)) data)) (signature_size h)
               (Some (drop (256 + unat (hash_offset h)) data)) (hash_size h)
               (padding (the (avb_get_algorithm_data (algorithm_type h))))
               (padding_len (the (avb_get_algorithm_data (algorithm_type h)))) w)) (\<lambda>(r, w').
             if \<not> r then Returned (AVB_VBMETA_VERIFY_RESULT_SIGNATURE_MISMATCH, None, w')
             else Returned (AVB_VBMETA_VERIFY_RESULT_OK,
               if public_key_size h > 0 then Some (key_pos h, public_key_size h) else None, w')))"
    by (simp only: u)
  then show ?thesis using ch by (intro exI [of _ ch]) simp
qed

text \<open>Reaching \<open>OK\<close> means that the header passed the checks.\<close>

lemma check_header_not_OK: "vbmeta_check_header base n h \<noteq> Some AVB_VBMETA_VERIFY_RESULT_OK"
  by (simp add: vbmeta_check_header_def Let_def split_def split: option.splits)

lemma vbmeta_OK_image:
  assumes ok: "avb_vbmeta_image_verify A st base data w = Returned (AVB_VBMETA_VERIFY_RESULT_OK, pk, w')"
    and len: "length data < 2 ^ 64"
  shows "\<exists>h. vbmeta_image base data h"
proof -
  have ul: "unat (of_nat (length data) :: u64) = length data" using len by (rule unat_of_nat_u64)
  from ok obtain r where r: "avb_safe_memcmp data AVB_MAGIC 4 = Some r" "r = 0"
    and l: "\<not> (of_nat (length data) :: u64) < 256"
    by (auto simp: avb_vbmeta_image_verify_def obind_Returned_iff Let_def split: if_splits)
  then obtain h where h: "avb_vbmeta_image_header_to_host_byte_order data = Returned h"
    using ok by (auto simp: avb_vbmeta_image_verify_def obind_Returned_iff Let_def)
  have "vbmeta_check_header base (of_nat (length data)) h = None"
    using ok r l check_header_not_OK [of base "of_nat (length data)" h]
    by (cases "vbmeta_check_header base (of_nat (length data)) h")
      (simp_all add: avb_vbmeta_image_verify_def h Let_def)
  moreover have n: "256 \<le> length data" using l ul by (simp add: word_less_nat_alt)
  moreover have "take 4 data = AVB_MAGIC"
    using avb_safe_memcmp_eq [of 4 data AVB_MAGIC] r n
    by (simp add: AVB_MAGIC_def ascii_def split: if_splits)
  ultimately show ?thesis using h len by (auto simp: vbmeta_image_def)
qed

lemma avb_rsa_verify_accepts_sizes:
  assumes p: "iavb_parse_key_data A key kl w = Some (Some k, w1)"
    and ok: "avb_rsa_verify A (Some key) kl (Some sig) sl (Some hash) hl (Some pad) pl w = Some (True, w')"
  shows "sl = ucast (key_len k) * 4" "pl = sl - hl"
proof -
  show 1: "sl = ucast (key_len k) * 4"
    using ok by (cases "sl = ucast (key_len k) * 4") (simp_all add: avb_rsa_verify_def p)
  show "pl = sl - hl"
    using ok 1 by (cases "pl = sl - hl") (simp_all add: avb_rsa_verify_def p)
qed

lemma key_len_words:
  assumes "iavb_parse_key_data A key kl w = Some (Some k, w1)"
  shows "unat (ucast (key_len k) * 4 :: u64) = 4 * unat (key_len k)"
proof -
  have "unat (key_len k) \<in> {64, 128, 256}" using iavb_parse_key_data_values [OF assms] by auto
  then have "key_len k = 64 \<or> key_len k = 128 \<or> key_len k = 256" by (simp add: word_unat_eq_iff)
  then show ?thesis by (elim disjE) simp_all
qed

text \<open>The signature check on the parts of an image.\<close>

lemma vbmeta_rsa_iff:
  assumes img: "vbmeta_image base data h" and A: "alloc_ok A"
    and alg: "algorithm_of_code (algorithm_type h) = Some alg" "padding (algorithm_data alg) = Some pad"
    and key: "iavb_parse_key_data A (drop (key_pos h) data) (public_key_size h) w = Some (Some k, w1)" "rsa_key k"
  shows "\<exists>w'. avb_rsa_verify A (Some (drop (key_pos h) data)) (public_key_size h)
       (Some (drop (256 + unat (signature_offset h)) data)) (signature_size h)
       (Some (drop (256 + unat (hash_offset h)) data)) (hash_size h)
       (padding (the (avb_get_algorithm_data (algorithm_type h))))
       (padding_len (the (avb_get_algorithm_data (algorithm_type h)))) w =
     Some (unat (signature_size h) = rsa_bytes alg \<and> 4 * unat (key_len k) = rsa_bytes alg \<and>
           be_nat (sig_part h data) ^ 65537 mod modulus k = be_nat (pad @ hash_part h data), w')"
proof -
  let ?r = "avb_rsa_verify A (Some (drop (key_pos h) data)) (public_key_size h)
       (Some (drop (256 + unat (signature_offset h)) data)) (signature_size h)
       (Some (drop (256 + unat (hash_offset h)) data)) (hash_size h)
       (Some pad) (padding_len (algorithm_data alg)) w"
  from vbmeta_image_algorithm [OF img] alg
  have pad: "unat (padding_len (algorithm_data alg)) = length pad" "length pad + unat (hash_size h) = rsa_bytes alg"
    "avb_get_algorithm_data (algorithm_type h) = Some (algorithm_data alg)" by force+
  note P = vbmeta_image_parts [OF img]
  have lens: "unat (signature_size h) \<le> length (drop (256 + unat (signature_offset h)) data)"
    "unat (hash_size h) \<le> length (drop (256 + unat (hash_offset h)) data)"
    "unat (padding_len (algorithm_data alg)) \<le> length pad"
    using P(2,3) pad(1) by (simp_all add: hash_part_def sig_part_def)
  have r: "?r = avb_rsa_verify A (Some (drop (key_pos h) data)) (public_key_size h)
       (Some (sig_part h data)) (signature_size h) (Some (hash_part h data)) (hash_size h)
       (Some pad) (padding_len (algorithm_data alg)) w"
    by (subst avb_rsa_verify_mem [OF lens]) (simp add: hash_part_def sig_part_def pad(1))
  have "\<exists>w'. ?r = Some (unat (signature_size h) = rsa_bytes alg \<and> 4 * unat (key_len k) = rsa_bytes alg \<and>
           be_nat (sig_part h data) ^ 65537 mod modulus k = be_nat (pad @ hash_part h data), w')"
  proof (cases "unat (signature_size h) = rsa_bytes alg \<and> 4 * unat (key_len k) = rsa_bytes alg")
    case True
    with avb_rsa_verify_iff [OF key A P(3,2) pad(1) [symmetric]] pad show ?thesis
      by (simp add: r P(2))
  next
    case False
    have "?r \<noteq> None"
    proof -
      from iavb_parse_key_data_values [OF key(1)]
      have "8 \<le> length (drop (key_pos h) data)" by auto
      moreover have "unat (public_key_size h) \<le> length (drop (key_pos h) data)" using P(5) by simp
      moreover have "unat (padding_len (algorithm_data alg)) + unat (hash_size h) \<le> 2 ^ 32"
        using pad by (cases alg) (simp_all add: rsa_bytes_def)
      ultimately show ?thesis by (intro avb_rsa_verify_total lens)
    qed
    then obtain b w' where b: "?r = Some (b, w')" by auto
    have "\<not> b"
    proof
      assume b0: b
      with b have b1: "?r = Some (True, w')" by simp
      note S = avb_rsa_verify_accepts_sizes [OF key(1) b1]
      have e: "padding_len (algorithm_data alg) + hash_size h = signature_size h" using S(2) by simp
      have "unat (padding_len (algorithm_data alg) + hash_size h) = rsa_bytes alg"
        using pad by (subst unat_add_lem [THEN iffD1]) (cases alg; simp add: rsa_bytes_def)+
      with e have "unat (signature_size h) = rsa_bytes alg" by simp
      moreover have "unat (signature_size h) = 4 * unat (key_len k)"
        using S(1) key_len_words [OF key(1)] by simp
      ultimately show False using False by simp
    qed
    with b False show ?thesis by auto
  qed
  then show ?thesis by (simp add: pad(3) alg(2))
qed

lemma sha256_of_pieces:
  assumes "length (sha256_blk ctx) = 128" "length a + length b < 2 ^ 29"
  shows "avb_sha256_final (avb_sha256_update (avb_sha256_update (avb_sha256_init ctx) a) b) = sha256 (a @ b)"
  using avb_sha256_stream [of ctx "[a, b]"] assms by simp

definition sha256_algorithm :: "AvbVBMetaImageHeader \<Rightarrow> bool" where
  "sha256_algorithm h \<longleftrightarrow> algorithm_type h = 1 \<or> algorithm_type h = 2 \<or> algorithm_type h = 3"

lemma vbmeta_verify_iff:
  assumes img: "vbmeta_image base data h" and small: "length data < 2 ^ 29" and st: "stack_ok st"
    and A: "alloc_ok A" and sha: "sha256_algorithm h"
    and alg: "algorithm_of_code (algorithm_type h) = Some alg" "padding (algorithm_data alg) = Some pad"
    and key: "iavb_parse_key_data A (drop (key_pos h) data) (public_key_size h) w = Some (Some k, w1)" "rsa_key k"
  shows "(\<exists>pk w'. avb_vbmeta_image_verify A st base data w = Returned (AVB_VBMETA_VERIFY_RESULT_OK, pk, w')) \<longleftrightarrow>
     hash_part h data = sha256 (take 256 data @ aux_part h data) \<and>
     unat (signature_size h) = rsa_bytes alg \<and> 4 * unat (key_len k) = rsa_bytes alg \<and>
     be_nat (sig_part h data) ^ 65537 mod modulus k = be_nat (pad @ hash_part h data)"
    "avb_vbmeta_image_verify A st base data w = Returned (AVB_VBMETA_VERIFY_RESULT_OK, pk, w') \<Longrightarrow>
       pk = Some (key_pos h, public_key_size h)"
proof -
  from vbmeta_verify_image [OF img st, of A w] obtain ch where
    ch: "vbmeta_compute_hash st (algorithm_type h) (take 256 data) (aux_part h data) = Some ch" and
    v: "avb_vbmeta_image_verify A st base data w =
       (if hash_part h data \<noteq> ch then Returned (AVB_VBMETA_VERIFY_RESULT_HASH_MISMATCH, None, w)
        else obind (checked (avb_rsa_verify A (Some (drop (key_pos h) data)) (public_key_size h)
               (Some (drop (256 + unat (signature_offset h)) data)) (signature_size h)
               (Some (drop (256 + unat (hash_offset h)) data)) (hash_size h)
               (padding (the (avb_get_algorithm_data (algorithm_type h))))
               (padding_len (the (avb_get_algorithm_data (algorithm_type h)))) w)) (\<lambda>(r, w').
             if \<not> r then Returned (AVB_VBMETA_VERIFY_RESULT_SIGNATURE_MISMATCH, None, w')
             else Returned (AVB_VBMETA_VERIFY_RESULT_OK,
               if public_key_size h > 0 then Some (key_pos h, public_key_size h) else None, w')))"
    by blast
  have "length (take 256 data) + length (aux_part h data) < 2 ^ 29"
  proof -
    have "aux_pos h + length (aux_part h data) \<le> length data" "256 \<le> aux_pos h"
      using vbmeta_image_parts(4) [OF img] by (auto simp: slice_def aux_part_def aux_pos_def split: if_splits)
    then show ?thesis using small by simp
  qed
  then have "vbmeta_compute_hash st (algorithm_type h) (take 256 data) (aux_part h data) =
      Some (sha256 (take 256 data @ aux_part h data))"
    using sha st by (simp add: vbmeta_compute_hash_def sha256_algorithm_def stack_ok_def sha256_of_pieces)
  with ch have ch: "ch = sha256 (take 256 data @ aux_part h data)" by simp
  from vbmeta_rsa_iff [OF img A alg key] obtain w2 where r: "avb_rsa_verify A (Some (drop (key_pos h) data)) (public_key_size h)
       (Some (drop (256 + unat (signature_offset h)) data)) (signature_size h)
       (Some (drop (256 + unat (hash_offset h)) data)) (hash_size h)
       (padding (the (avb_get_algorithm_data (algorithm_type h))))
       (padding_len (the (avb_get_algorithm_data (algorithm_type h)))) w =
     Some (unat (signature_size h) = rsa_bytes alg \<and> 4 * unat (key_len k) = rsa_bytes alg \<and>
           be_nat (sig_part h data) ^ 65537 mod modulus k = be_nat (pad @ hash_part h data), w2)" by blast
  have pos: "public_key_size h > 0"
  proof -
    from iavb_parse_key_data_values [OF key(1)] have "unat (public_key_size h) \<noteq> 0" by auto
    then show ?thesis by (simp add: word_less_nat_alt)
  qed
  note V = v [unfolded ch r checked.simps obind.simps prod.case]
  show "(\<exists>pk w'. avb_vbmeta_image_verify A st base data w = Returned (AVB_VBMETA_VERIFY_RESULT_OK, pk, w')) \<longleftrightarrow>
     hash_part h data = sha256 (take 256 data @ aux_part h data) \<and>
     unat (signature_size h) = rsa_bytes alg \<and> 4 * unat (key_len k) = rsa_bytes alg \<and>
     be_nat (sig_part h data) ^ 65537 mod modulus k = be_nat (pad @ hash_part h data)"
    unfolding V by simp
  show "pk = Some (key_pos h, public_key_size h)"
    if "avb_vbmeta_image_verify A st base data w = Returned (AVB_VBMETA_VERIFY_RESULT_OK, pk, w')"
    using that pos unfolding V by (simp split: if_splits)
qed

text \<open>
  Memory safety: the magic is compared before the length is checked, so that a buffer of less than
  four octets is read beyond its end; and the eight octets of the key's header are read wherever the
  key is, so that an empty key at the end of the image is too.
\<close>

lemma memcmp_loop_short: "length s1 < n \<Longrightarrow> memcmp_loop r s1 s2 n = None"
  by (induction r s1 s2 n rule: memcmp_loop.induct) simp_all

lemma vbmeta_verify_short:
  "length data < 4 \<Longrightarrow> avb_vbmeta_image_verify A st base data w = Faulted"
  by (simp add: avb_vbmeta_image_verify_def avb_safe_memcmp_def memcmp_loop_short)

lemma rsa_verify_keyless:
  "length key < 8 \<Longrightarrow> avb_rsa_verify A (Some key) n (Some sig) sl (Some hash) hl (Some pad) pl w = None"
  by (simp add: avb_rsa_verify_def iavb_parse_key_data_def avb_rsa_public_key_header_validate_and_byteswap_def slice_def)

lemma no_fault_not_Faulted: "no_fault m \<longleftrightarrow> m \<noteq> Faulted"
  by (cases m) simp_all

lemma vbmeta_image_fault_iff:
  assumes img: "vbmeta_image base data h" and st: "stack_ok st"
  shows "avb_vbmeta_image_verify A st base data w = Faulted \<longleftrightarrow>
     vbmeta_compute_hash st (algorithm_type h) (take 256 data) (aux_part h data) = Some (hash_part h data) \<and>
     length data < key_pos h + 8"
proof -
  from vbmeta_image_algorithm [OF img] obtain alg pad where pad: "padding (algorithm_data alg) = Some pad"
    "unat (padding_len (algorithm_data alg)) = length pad" "length pad + unat (hash_size h) = rsa_bytes alg"
    "avb_get_algorithm_data (algorithm_type h) = Some (algorithm_data alg)" by metis
  note P = vbmeta_image_parts [OF img]
  let ?r = "avb_rsa_verify A (Some (drop (key_pos h) data)) (public_key_size h)
     (Some (drop (256 + unat (signature_offset h)) data)) (signature_size h)
     (Some (drop (256 + unat (hash_offset h)) data)) (hash_size h)
     (Some pad) (padding_len (algorithm_data alg)) w"
  have r: "?r = None \<longleftrightarrow> length data < key_pos h + 8"
  proof (cases "length data < key_pos h + 8")
    case True
    with P(5) have "length (drop (key_pos h) data) < 8" by simp
    with True show ?thesis by (simp add: rsa_verify_keyless)
  next
    case False
    have "?r \<noteq> None"
    proof (rule avb_rsa_verify_total)
      show "8 \<le> length (drop (key_pos h) data)" "unat (public_key_size h) \<le> length (drop (key_pos h) data)"
        using P(5) False by simp_all
      show "unat (padding_len (algorithm_data alg)) + unat (hash_size h) \<le> 2 ^ 32"
        using pad(2,3) by (cases alg) (simp_all add: rsa_bytes_def)
    qed (use P(2,3) pad(2) in \<open>simp_all add: hash_part_def sig_part_def\<close>)
    with False show ?thesis by simp
  qed
  from vbmeta_verify_image [OF img st, of A w] obtain ch where
    ch: "vbmeta_compute_hash st (algorithm_type h) (take 256 data) (aux_part h data) = Some ch"
    and v: "avb_vbmeta_image_verify A st base data w =
       (if hash_part h data \<noteq> ch then Returned (AVB_VBMETA_VERIFY_RESULT_HASH_MISMATCH, None, w)
        else obind (checked ?r) (\<lambda>(r, w').
             if \<not> r then Returned (AVB_VBMETA_VERIFY_RESULT_SIGNATURE_MISMATCH, None, w')
             else Returned (AVB_VBMETA_VERIFY_RESULT_OK,
               if public_key_size h > 0 then Some (key_pos h, public_key_size h) else None, w')))"
    by (auto simp: pad(1,4))
  show ?thesis
  proof (cases ?r)
    case None
    then show ?thesis using r by (auto simp: v ch)
  next
    case (Some x)
    then show ?thesis using r by (auto simp: v ch split_def)
  qed
qed

lemma vbmeta_verify_fault_iff:
  assumes len: "length data < 2 ^ 64" and st: "stack_ok st"
  shows "avb_vbmeta_image_verify A st base data w = Faulted \<longleftrightarrow>
     length data < 4 \<or>
     (\<exists>h. vbmeta_image base data h \<and>
        vbmeta_compute_hash st (algorithm_type h) (take 256 data) (aux_part h data) = Some (hash_part h data) \<and>
        length data < key_pos h + 8)"
proof (cases "\<exists>h. vbmeta_image base data h")
  case True
  then obtain h where img: "vbmeta_image base data h" by blast
  then have "h' = h" if "vbmeta_image base data h'" for h' using that by (simp add: vbmeta_image_def)
  moreover have "\<not> length data < 4" using img by (simp add: vbmeta_image_def)
  ultimately show ?thesis using vbmeta_image_fault_iff [OF img st, of A w] img by blast
next
  case none: False
  show ?thesis
  proof (cases "length data < 4")
    case True
    then show ?thesis by (simp add: vbmeta_verify_short)
  next
    case False
    have ul: "unat (of_nat (length data) :: u64) = length data" using len by (rule unat_of_nat_u64)
    have m: "avb_safe_memcmp data AVB_MAGIC 4 = Some (if take 4 data = AVB_MAGIC then 0 else 1)"
      using avb_safe_memcmp_eq [of 4 data AVB_MAGIC] False by (simp add: AVB_MAGIC_def ascii_def)
    have "avb_vbmeta_image_verify A st base data w \<noteq> Faulted"
    proof (cases "take 4 data = AVB_MAGIC \<and> 256 \<le> length data")
      case False
      then show ?thesis using m ul by (auto simp: avb_vbmeta_image_verify_def Let_def word_less_nat_alt)
    next
      case True
      then obtain h where h: "avb_vbmeta_image_header_to_host_byte_order data = Returned h"
        by (simp add: avb_vbmeta_image_header_to_host_byte_order_def slice_def)
      with none True len obtain ret where "vbmeta_check_header base (of_nat (length data)) h = Some ret"
        by (auto simp: vbmeta_image_def)
      then show ?thesis using m ul True h by (simp add: avb_vbmeta_image_verify_def Let_def word_less_nat_alt)
    qed
    with none False show ?thesis by blast
  qed
qed

subsection \<open>Properties\<close>

text \<open>
  C5: for an image of less than \<open>2 ^ 29\<close> octets with a SHA-256 algorithm, whose header passes
  the checks and whose key is well-formed, \<open>avb_vbmeta_image_verify\<close> returns \<open>OK\<close> exactly when
  the stored hash is the SHA-256 of the header and the auxiliary block, the signature and the
  key have the size of the algorithm, and the 65537th power of the signature is the padded
  hash; and the key it hands out is the one of the header.
\<close>
theorem vbmeta_verify_correct:
  assumes "vbmeta_image base data h" and "length data < 2 ^ 29" and "stack_ok st"
    and "alloc_ok A" and "sha256_algorithm h"
    and "algorithm_of_code (algorithm_type h) = Some alg" "padding (algorithm_data alg) = Some pad"
    and "iavb_parse_key_data A (drop (key_pos h) data) (public_key_size h) w = Some (Some k, w1)" "rsa_key k"
  shows "((\<exists>pk w'. avb_vbmeta_image_verify A st base data w = Returned (AVB_VBMETA_VERIFY_RESULT_OK, pk, w')) \<longleftrightarrow>
     hash_part h data = sha256 (take 256 data @ aux_part h data) \<and>
     unat (signature_size h) = rsa_bytes alg \<and> 4 * unat (key_len k) = rsa_bytes alg \<and>
     be_nat (sig_part h data) ^ 65537 mod modulus k = be_nat (pad @ hash_part h data)) \<and>
    (\<forall>pk w'. avb_vbmeta_image_verify A st base data w = Returned (AVB_VBMETA_VERIFY_RESULT_OK, pk, w') \<longrightarrow>
       pk = Some (key_pos h, public_key_size h))"
  using vbmeta_verify_iff [OF assms] by blast

text \<open>A header for SHA256_RSA2048 with a blank hash, a blank signature and the key of \<open>mersenne_blob\<close>.\<close>

definition blank_header :: bytes where
  "blank_header = [65, 86, 66, 48, 0, 0, 0, 1, 0, 0, 0, 0,
     0, 0, 0, 0, 0, 0, 1, 64, 0, 0, 0, 0, 0, 0, 2, 64, 0, 0, 0, 1,
     0, 0, 0, 0, 0, 0, 0, 0, 0, 0, 0, 0, 0, 0, 0, 32, 0, 0, 0, 0, 0, 0, 0, 32, 0, 0, 0, 0, 0, 0, 1, 0,
     0, 0, 0, 0, 0, 0, 0, 0, 0, 0, 0, 0, 0, 0, 2, 8] @ replicate 176 0"

definition blank_image :: bytes where
  "blank_image = blank_header @ replicate 320 0 @ mersenne_blob @ replicate 56 0"

lemma be64_at_eqI:
  "off + 8 \<le> length d \<Longrightarrow> be_nat (take 8 (drop off d)) = unat n \<Longrightarrow> be64_at d off = n"
  by (simp add: word_unat_eq_iff be64_at_value)

lemma be32_at_eqI:
  "off + 4 \<le> length d \<Longrightarrow> be_nat (take 4 (drop off d)) = unat n \<Longrightarrow> be32_at d off = n"
  by (simp add: word_unat_eq_iff be32_at_value)

lemma be_nat_zeros_only [simp]: "be_nat (replicate n 0) = 0"
  using be_nat_zeros [of n "[]"] by simp

lemma blank_header_fields:
  "be32_at blank_header 4 = 1" "be32_at blank_header 8 = 0" "be64_at blank_header 12 = 320"
  "be64_at blank_header 20 = 576" "be32_at blank_header 28 = 1" "be64_at blank_header 32 = 0"
  "be64_at blank_header 40 = 32" "be64_at blank_header 48 = 32" "be64_at blank_header 56 = 256"
  "be64_at blank_header 64 = 0" "be64_at blank_header 72 = 520" "be64_at blank_header 80 = 0"
  "be64_at blank_header 88 = 0" "be64_at blank_header 96 = 0" "be64_at blank_header 104 = 0"
  "be64_at blank_header 112 = 0" "be32_at blank_header 120 = 0"
  by (rule be64_at_eqI be32_at_eqI; simp add: blank_header_def)+

definition blank_vbmeta :: AvbVBMetaImageHeader where
  "blank_vbmeta = \<lparr>vb_magic = AVB_MAGIC, required_libavb_version_major = 1, required_libavb_version_minor = 0,
     authentication_data_block_size = 320, auxiliary_data_block_size = 576, algorithm_type = 1,
     hash_offset = 0, hash_size = 32, signature_offset = 32, signature_size = 256, public_key_offset = 0,
     public_key_size = 520, public_key_metadata_offset = 0, public_key_metadata_size = 0,
     descriptors_offset = 0, descriptors_size = 0, rollback_index = 0, vb_flags = 0,
     release_string = replicate 48 0\<rparr>"

lemma blank_image_parts:
  "length blank_image = 1152" "take 4 blank_image = AVB_MAGIC" "slice 0 256 blank_image = Some blank_header"
  "drop 576 blank_image = mersenne_blob @ replicate 56 0" "take 32 (drop 288 blank_image) = replicate 32 0"
  "take 256 (drop 288 blank_image) = replicate 256 0" "take 32 (drop 256 blank_image) = replicate 32 0"
proof -
  have l: "length blank_header = 256" by (simp add: blank_header_def)
  have m: "length mersenne_blob = 520" by (simp add: mersenne_blob_def)
  show "length blank_image = 1152" by (simp add: blank_image_def l m)
  show "take 4 blank_image = AVB_MAGIC"
    by (simp add: blank_image_def) (simp add: blank_header_def AVB_MAGIC_def ascii_def)
  show "slice 0 256 blank_image = Some blank_header" by (simp add: slice_def blank_image_def l m)
  show "drop 576 blank_image = mersenne_blob @ replicate 56 0" "take 32 (drop 288 blank_image) = replicate 32 0"
    "take 256 (drop 288 blank_image) = replicate 256 0" "take 32 (drop 256 blank_image) = replicate 32 0"
    by (simp_all add: blank_image_def l m)
qed

lemma blank_vbmeta_image: "vbmeta_image 4096 blank_image blank_vbmeta"
proof -
  have "take 4 blank_header = AVB_MAGIC" "take 48 (drop 128 blank_header) = replicate 48 0"
    by (simp_all add: blank_header_def AVB_MAGIC_def ascii_def)
  then have "avb_vbmeta_image_header_to_host_byte_order blank_image = Returned blank_vbmeta"
    by (simp add: avb_vbmeta_image_header_to_host_byte_order_def blank_image_parts blank_header_fields blank_vbmeta_def)
  moreover have "vbmeta_check_header 4096 1152 blank_vbmeta = None"
    by (simp add: vbmeta_check_header_def blank_vbmeta_def avb_safe_add_def avb_safe_add_to_def
        avb_get_algorithm_data_def algorithm_of_code_def algorithm_data_def)
  ultimately show ?thesis by (simp add: vbmeta_image_def blank_image_parts)
qed

lemma mersenne_parse_rest:
  assumes "avb_malloc A 536 w = (True, w1)"
  shows "iavb_parse_key_data A (mersenne_blob @ rest) 520 w = Some (Some mersenne_key, w1)"
proof -
  have h: "avb_rsa_public_key_header_validate_and_byteswap (mersenne_blob @ rest) =
      Some (True, \<lparr>key_num_bits = 2048, hdr_n0inv = 1\<rparr>)"
    by (simp add: avb_rsa_public_key_header_validate_and_byteswap_def mersenne_blob_def slice_def load32_def)
      (simp add: be32_literals [unfolded load32_def, simplified])
  have n: "slice 8 256 (mersenne_blob @ rest) = Some (replicate 256 0xff)"
      "slice 264 256 (mersenne_blob @ rest) = Some (replicate 255 0 @ [1])"
    by (simp_all add: mersenne_blob_def slice_def)
  show ?thesis by (simp add: iavb_parse_key_data_def h n assms mersenne_key_def)
qed

definition stack0 :: hash_stack where
  "stack0 = \<lparr>stack_sha256 = sha256_ctx0, stack_sha512 = sha512_ctx0,
     stack_update1 = (replicate 8 0, replicate 8 0), stack_update2 = (replicate 8 0, replicate 8 0),
     stack_images = \<lambda>n. (replicate 8 0, replicate 8 0), stack_final = replicate 8 0\<rparr>"

lemma stack0_ok: "stack_ok stack0"
  by (simp add: stack_ok_def stack0_def sha256_ctx0_def sha512_ctx0_def stacks_ok_def)

theorem vbmeta_verify_correct_witness:
  "\<not> (\<exists>pk w'. avb_vbmeta_image_verify (\<lambda>n w. (True, w)) stack0 4096 blank_image () =
       Returned (AVB_VBMETA_VERIFY_RESULT_OK, pk, w'))"
proof -
  have A: "alloc_ok (\<lambda>n w. (True, w))" by (simp add: alloc_ok_def)
  have kp: "key_pos blank_vbmeta = 576" by (simp add: key_pos_def aux_pos_def blank_vbmeta_def)
  have pk: "public_key_size blank_vbmeta = 520" by (simp add: blank_vbmeta_def)
  have p: "iavb_parse_key_data (\<lambda>n w. (True, w)) (drop (key_pos blank_vbmeta) blank_image)
      (public_key_size blank_vbmeta) () = Some (Some mersenne_key, ())"
    using mersenne_parse_rest [of "\<lambda>n w. (True, w)" "()" "()" "replicate 56 0"]
    by (simp add: kp blank_image_parts avb_malloc_def pk)
  have alg: "algorithm_of_code (algorithm_type blank_vbmeta) = Some AVB_ALGORITHM_TYPE_SHA256_RSA2048"
      "padding (algorithm_data AVB_ALGORITHM_TYPE_SHA256_RSA2048) = Some padding_RSA2048_SHA256"
    by (simp_all add: blank_vbmeta_def algorithm_of_code_def algorithm_data_def)
  have s: "sha256_algorithm blank_vbmeta" by (simp add: sha256_algorithm_def blank_vbmeta_def)
  have sig: "sig_part blank_vbmeta blank_image = replicate 256 0"
    by (simp add: sig_part_def blank_vbmeta_def blank_image_parts)
  have "be_nat (padding_RSA2048_SHA256 @ x) \<noteq> 0" for x
    by (simp add: padding_RSA2048_SHA256_def)
  with vbmeta_verify_correct [OF blank_vbmeta_image _ stack0_ok A s alg p mersenne_rsa_key] sig
  show ?thesis by (simp add: blank_image_parts)
qed

text \<open>
  C14: where \<open>avb_vbmeta_image_verify\<close> reads outside its image: exactly for a buffer of less than four
  octets (the magic is compared before the length is) and for an image whose header passes the
  checks and whose hash is the right one, but whose key starts less than eight octets before the end
  (the header of the key is read before its length is looked at).  In all other cases, for every
  content of the image and every allocator, it reads only inside.
\<close>
theorem vbmeta_verify_memory_safe:
  assumes "length data < 2 ^ 64" and "stack_ok st"
  shows "avb_vbmeta_image_verify A st base data w = Faulted \<longleftrightarrow>
     length data < 4 \<or>
     (\<exists>h. vbmeta_image base data h \<and>
        vbmeta_compute_hash st (algorithm_type h) (take 256 data) (aux_part h data) = Some (hash_part h data) \<and>
        length data < key_pos h + 8)"
  using assms by (rule vbmeta_verify_fault_iff)

text \<open>An image without a key whose hash is right; no private key is needed to make one.\<close>

definition keyless_header :: bytes where
  "keyless_header = [65, 86, 66, 48, 0, 0, 0, 1, 0, 0, 0, 0,
     0, 0, 0, 0, 0, 0, 0, 64, 0, 0, 0, 0, 0, 0, 0, 0, 0, 0, 0, 1,
     0, 0, 0, 0, 0, 0, 0, 0, 0, 0, 0, 0, 0, 0, 0, 32] @ replicate 208 0"

definition keyless_image :: bytes where
  "keyless_image = keyless_header @ the (vbmeta_compute_hash stack0 1 keyless_header []) @ replicate 32 0"

lemma keyless_header_fields:
  "be32_at keyless_header 4 = 1" "be32_at keyless_header 8 = 0" "be64_at keyless_header 12 = 64"
  "be64_at keyless_header 20 = 0" "be32_at keyless_header 28 = 1" "be64_at keyless_header 32 = 0"
  "be64_at keyless_header 40 = 32" "be64_at keyless_header 48 = 0" "be64_at keyless_header 56 = 0"
  "be64_at keyless_header 64 = 0" "be64_at keyless_header 72 = 0" "be64_at keyless_header 80 = 0"
  "be64_at keyless_header 88 = 0"
  by (rule be64_at_eqI be32_at_eqI; simp add: keyless_header_def)+

lemma keyless_image_faults:
  "\<exists>h. vbmeta_image 4096 keyless_image h \<and>
     vbmeta_compute_hash stack0 (algorithm_type h) (take 256 keyless_image) (aux_part h keyless_image) =
       Some (hash_part h keyless_image) \<and>
     length keyless_image < key_pos h + 8"
proof -
  have "algorithm_of_code 1 = Some AVB_ALGORITHM_TYPE_SHA256_RSA2048" by (simp add: algorithm_of_code_def)
  from vbmeta_compute_hash_length [OF stack0_ok this, of keyless_header "[]"] obtain ch where
    ch: "vbmeta_compute_hash stack0 1 keyless_header [] = Some ch" "length ch = 32"
    by (auto simp: algorithm_data_def)
  have lh: "length keyless_header = 256" by (simp add: keyless_header_def)
  have img: "keyless_image = keyless_header @ ch @ replicate 32 0" by (simp add: keyless_image_def ch(1))
  have len: "length keyless_image = 320" by (simp add: img lh ch(2))
  have s: "slice 0 256 keyless_image = Some keyless_header" by (simp add: slice_def img lh)
  have tk: "take 4 keyless_image = AVB_MAGIC"
    by (simp add: img) (simp add: keyless_header_def AVB_MAGIC_def ascii_def)
  have tail: "take 48 (drop 128 keyless_header) = replicate 48 0" by (simp add: keyless_header_def)
  obtain h where h: "avb_vbmeta_image_header_to_host_byte_order keyless_image = Returned h"
    "algorithm_type h = 1" "authentication_data_block_size h = 64" "auxiliary_data_block_size h = 0"
    "hash_offset h = 0" "hash_size h = 32" "signature_offset h = 0" "signature_size h = 0"
    "public_key_offset h = 0" "public_key_size h = 0" "public_key_metadata_size h = 0"
    "required_libavb_version_major h = 1" "required_libavb_version_minor h = 0" "release_string h = replicate 48 0"
    by (simp add: avb_vbmeta_image_header_to_host_byte_order_def s keyless_header_fields tail)
  have "vbmeta_check_header 4096 320 h = None"
    by (simp add: vbmeta_check_header_def h avb_safe_add_def avb_safe_add_to_def
        avb_get_algorithm_data_def algorithm_of_code_def algorithm_data_def)
  then have "vbmeta_image 4096 keyless_image h" by (simp add: vbmeta_image_def len tk h(1))
  moreover have "take 256 keyless_image = keyless_header" "hash_part h keyless_image = ch" "aux_part h keyless_image = []"
    by (simp_all add: hash_part_def aux_part_def h img lh ch(2))
  moreover have "key_pos h = 320" by (simp add: key_pos_def aux_pos_def h)
  ultimately show ?thesis using ch(1) len h(2) by auto
qed

theorem vbmeta_verify_memory_safe_witness:
  "avb_vbmeta_image_verify two_allocs stack0 4096 blank_image 0 \<noteq> Faulted \<and>
   avb_vbmeta_image_verify two_allocs stack0 4096 keyless_image 0 = Faulted"
proof
  have "length blank_image < 2 ^ 64" by (simp add: blank_image_parts)
  note iff = vbmeta_verify_memory_safe [OF this stack0_ok, of two_allocs 4096 0]
  have "\<not> length blank_image < key_pos h + 8" if "vbmeta_image 4096 blank_image h" for h
  proof -
    from that blank_vbmeta_image have "h = blank_vbmeta" by (simp add: vbmeta_image_def)
    then show ?thesis by (simp add: blank_image_parts key_pos_def aux_pos_def blank_vbmeta_def)
  qed
  with iff show "avb_vbmeta_image_verify two_allocs stack0 4096 blank_image 0 \<noteq> Faulted"
    by (auto simp: blank_image_parts)
  have "length (the (vbmeta_compute_hash stack0 1 keyless_header [])) = 32"
    using vbmeta_compute_hash_length [OF stack0_ok, of 1 AVB_ALGORITHM_TYPE_SHA256_RSA2048 keyless_header "[]"]
    by (auto simp: algorithm_of_code_def algorithm_data_def)
  then have "length keyless_image < 2 ^ 64" by (simp add: keyless_image_def keyless_header_def)
  from vbmeta_verify_memory_safe [OF this stack0_ok, of two_allocs 4096 0] keyless_image_faults
  show "avb_vbmeta_image_verify two_allocs stack0 4096 keyless_image 0 = Faulted" by blast
qed

end
