(* ===== verification/AvbOps.thy ===== *)
theory AvbOps
  imports AvbVbmeta
begin

text \<open>
  The data that libavb exchanges with the platform: \<open>AvbOps\<close> of \<open>avb_ops.h\<close> and the result
  types of \<open>avb_slot_verify.h\<close> and \<open>avb_cmdline.h\<close>.

  An operation of the platform is a function of its inputs and of the world \<open>'w\<close>; it returns
  its results and the next world.  A function pointer that the code compares with \<open>NULL\<close> is an
  option.  Four entries stand for what the C abstract machine leaves open: the allocator, the
  address it gave to a buffer, and the contents of the stack where a hash context or an
  uninitialised size is placed.
\<close>

datatype AvbIOResult =
    AVB_IO_RESULT_OK
  | AVB_IO_RESULT_ERROR_OOM
  | AVB_IO_RESULT_ERROR_IO
  | AVB_IO_RESULT_ERROR_NO_SUCH_PARTITION
  | AVB_IO_RESULT_ERROR_RANGE_OUTSIDE_PARTITION
  | AVB_IO_RESULT_ERROR_NO_SUCH_VALUE
  | AVB_IO_RESULT_ERROR_INVALID_VALUE_SIZE
  | AVB_IO_RESULT_ERROR_INSUFFICIENT_SPACE

record 'w AvbOps =
  ops_malloc :: "'w alloc"
  ops_address :: "'w \<Rightarrow> u64"
  ops_stack :: "'w \<Rightarrow> hash_stack"
  ops_stack_size :: "'w \<Rightarrow> nat"
  read_from_partition :: "bytes \<Rightarrow> int \<Rightarrow> nat \<Rightarrow> 'w \<Rightarrow> (AvbIOResult \<times> bytes) \<times> 'w"
  get_preloaded_partition :: "(bytes \<Rightarrow> nat \<Rightarrow> 'w \<Rightarrow> (AvbIOResult \<times> bytes option) \<times> 'w) option"
  write_to_partition :: "bytes \<Rightarrow> int \<Rightarrow> bytes \<Rightarrow> 'w \<Rightarrow> AvbIOResult \<times> 'w"
  validate_vbmeta_public_key :: "bytes \<Rightarrow> bytes option \<Rightarrow> 'w \<Rightarrow> (AvbIOResult \<times> bool) \<times> 'w"
  read_rollback_index :: "nat \<Rightarrow> 'w \<Rightarrow> (AvbIOResult \<times> u64) \<times> 'w"
  write_rollback_index :: "nat \<Rightarrow> u64 \<Rightarrow> 'w \<Rightarrow> AvbIOResult \<times> 'w"
  read_is_device_unlocked :: "'w \<Rightarrow> (AvbIOResult \<times> bool) \<times> 'w"
  get_unique_guid_for_partition :: "bytes \<Rightarrow> 'w \<Rightarrow> (AvbIOResult \<times> bytes) \<times> 'w"
  get_size_of_partition :: "(bytes \<Rightarrow> 'w \<Rightarrow> (AvbIOResult \<times> u64) \<times> 'w) option"
  read_persistent_value :: "(bytes \<Rightarrow> nat \<Rightarrow> 'w \<Rightarrow> (AvbIOResult \<times> bytes) \<times> 'w) option"

datatype AvbSlotVerifyResult =
    AVB_SLOT_VERIFY_RESULT_OK
  | AVB_SLOT_VERIFY_RESULT_ERROR_OOM
  | AVB_SLOT_VERIFY_RESULT_ERROR_IO
  | AVB_SLOT_VERIFY_RESULT_ERROR_VERIFICATION
  | AVB_SLOT_VERIFY_RESULT_ERROR_ROLLBACK_INDEX
  | AVB_SLOT_VERIFY_RESULT_ERROR_PUBLIC_KEY_REJECTED
  | AVB_SLOT_VERIFY_RESULT_ERROR_INVALID_METADATA
  | AVB_SLOT_VERIFY_RESULT_ERROR_UNSUPPORTED_VERSION
  | AVB_SLOT_VERIFY_RESULT_ERROR_INVALID_ARGUMENT

datatype AvbHashtreeErrorMode =
    AVB_HASHTREE_ERROR_MODE_RESTART_AND_INVALIDATE
  | AVB_HASHTREE_ERROR_MODE_RESTART
  | AVB_HASHTREE_ERROR_MODE_EIO
  | AVB_HASHTREE_ERROR_MODE_LOGGING

record AvbPartitionData =
  pd_partition_name :: "bytes option"
  pd_data :: "bytes option"
  pd_data_size :: u64
  pd_preloaded :: bool

record AvbVBMetaData =
  vm_partition_name :: "bytes option"
  vbmeta_data :: bytes
  vm_size :: u64
  verify_result :: AvbVBMetaVerifyResult

record AvbSlotVerifyData =
  sd_ab_suffix :: "bytes option"
  vbmeta_images :: "AvbVBMetaData list"
  loaded_partitions :: "AvbPartitionData list"
  sd_cmdline :: "bytes option"
  rollback_indexes :: "u64 list"

text \<open>\<open>avb_calloc\<close> of the structure: empty, with the 32 rollback indexes zero.\<close>

definition empty_slot_data :: AvbSlotVerifyData where
  "empty_slot_data = \<lparr>sd_ab_suffix = None, vbmeta_images = [], loaded_partitions = [], sd_cmdline = None,
     rollback_indexes = replicate 32 0\<rparr>"

text \<open>A substitution list holds at most ten pairs of token and value.\<close>

type_synonym AvbCmdlineSubstList = "(bytes \<times> bytes) list"

text \<open>
  C strings in memory: \<open>c_read\<close> is the string at a pointer, which faults when no terminator
  follows, and \<open>avb_strcmp_eq\<close> compares it with a literal, reading up to the first difference.
\<close>

definition c_read :: "bytes \<Rightarrow> bytes option" where
  "c_read mem = (if 0 \<in> set mem then Some (c_str mem) else None)"

fun avb_strcmp_eq :: "bytes \<Rightarrow> bytes \<Rightarrow> bool option" where
  "avb_strcmp_eq [] lit = None"
| "avb_strcmp_eq (x # mem) [] = Some (x = 0)"
| "avb_strcmp_eq (x # mem) (y # lit) = (if x \<noteq> y then Some False else avb_strcmp_eq mem lit)"

lemma avb_strcmp_eq_c_str:
  "is_c_str s \<Longrightarrow> is_c_str lit \<Longrightarrow> avb_strcmp_eq (s @ 0 # rest) lit = Some (s = lit)"
proof (induction s lit rule: list_induct2')
  case (3 y ys)
  then show ?case by auto
qed auto

text \<open>\<open>avb_str_concat\<close> into a partition name of 32 octets, read back as a C string.\<close>

definition part_name_concat :: "bytes \<Rightarrow> bytes \<Rightarrow> bytes option" where
  "part_name_concat name suffix0 =
     (let (ok, buf) = avb_str_concat (replicate 32 0) name suffix0
      in if ok then Some (c_str buf) else None)"

text \<open>A platform on which every operation succeeds, for the witnesses.\<close>

definition sample_ops :: "unit AvbOps" where
  "sample_ops = \<lparr>ops_malloc = \<lambda>n w. (True, w), ops_address = \<lambda>w. 4096, ops_stack = \<lambda>w. stack0,
     ops_stack_size = \<lambda>w. 0,
     read_from_partition = \<lambda>name off n w. ((AVB_IO_RESULT_OK, replicate n 0), w),
     get_preloaded_partition = None,
     write_to_partition = \<lambda>name off data w. (AVB_IO_RESULT_OK, w),
     validate_vbmeta_public_key = \<lambda>key metadata w. ((AVB_IO_RESULT_OK, True), w),
     read_rollback_index = \<lambda>loc w. ((AVB_IO_RESULT_OK, 0), w),
     write_rollback_index = \<lambda>loc v w. (AVB_IO_RESULT_OK, w),
     read_is_device_unlocked = \<lambda>w. ((AVB_IO_RESULT_OK, False), w),
     get_unique_guid_for_partition = \<lambda>name w. ((AVB_IO_RESULT_OK, replicate 36 0x30), w),
     get_size_of_partition = Some (\<lambda>name w. ((AVB_IO_RESULT_OK, 4), w)),
     read_persistent_value = None\<rparr>"

lemma sample_ops_ok: "alloc_ok (ops_malloc sample_ops)" "stack_ok (ops_stack sample_ops w)"
  by (simp_all add: sample_ops_def alloc_ok_def stack0_ok)

end
