(* ===== verification/AvbCmdline.thy ===== *)
theory AvbCmdline
  imports AvbOps
begin

text \<open>
  \<open>Application/UefiAvb/libavb/avb_cmdline.c\<close>: the kernel command line of a verified slot.  It is
  a C string, modelled without its terminator; options are appended as \<open>key=value\<close>, and tokens
  such as \<open>$(ANDROID_SYSTEM_PARTUUID)\<close> are replaced by values of the device.
\<close>

subsection \<open>Substitution\<close>

definition part_name_str :: "bool \<Rightarrow> bytes list" where
  "part_name_str using_boot_for_vbmeta =
     [ascii ''system'', ascii ''boot'', if using_boot_for_vbmeta then ascii ''boot'' else ascii ''vbmeta'']"

definition replace_str :: "bytes list" where
  "replace_str = [ascii ''$(ANDROID_SYSTEM_PARTUUID)'', ascii ''$(ANDROID_BOOT_PARTUUID)'',
     ascii ''$(ANDROID_VBMETA_PARTUUID)'']"

fun sub_guids :: "'w AvbOps \<Rightarrow> bytes \<Rightarrow> (bytes \<times> bytes) list \<Rightarrow> bytes \<Rightarrow> 'w \<Rightarrow> bytes option \<times> 'w" where
  "sub_guids ops ab_suffix [] ret w = (Some ret, w)"
| "sub_guids ops ab_suffix ((part, token) # rest) ret w =
     (case part_name_concat part ab_suffix of
        None \<Rightarrow> (None, w)
      | Some part_name \<Rightarrow>
          (let ((io_ret, guid_buf), w1) = get_unique_guid_for_partition ops part_name w
           in if io_ret \<noteq> AVB_IO_RESULT_OK then (None, w1)
              else (case avb_replace (ops_malloc ops) ret token guid_buf w1 of
                  (None, w2) \<Rightarrow> (None, w2)
                | (Some ret', w2) \<Rightarrow> sub_guids ops ab_suffix rest ret' w2)))"

fun sub_tokens :: "'w alloc \<Rightarrow> (bytes \<times> bytes) list \<Rightarrow> bytes \<Rightarrow> 'w \<Rightarrow> bytes option \<times> 'w" where
  "sub_tokens A [] ret w = (Some ret, w)"
| "sub_tokens A ((token, value0) # rest) ret w =
     (case avb_replace A ret token value0 w of
        (None, w') \<Rightarrow> (None, w')
      | (Some ret', w') \<Rightarrow> sub_tokens A rest ret' w')"

definition avb_sub_cmdline ::
  "'w AvbOps \<Rightarrow> bytes \<Rightarrow> bytes \<Rightarrow> bool \<Rightarrow> AvbCmdlineSubstList option \<Rightarrow> 'w \<Rightarrow> bytes option \<times> 'w" where
  "avb_sub_cmdline ops cmdline ab_suffix using_boot_for_vbmeta additional w =
     (case sub_guids ops ab_suffix (zip (part_name_str using_boot_for_vbmeta) replace_str) cmdline w of
        (None, w1) \<Rightarrow> (None, w1)
      | (Some ret, w1) \<Rightarrow>
          (case additional of None \<Rightarrow> (Some ret, w1)
           | Some l \<Rightarrow> sub_tokens (ops_malloc ops) l ret w1))"

subsection \<open>Appending options\<close>

definition cmdline_append_option ::
  "'w alloc \<Rightarrow> AvbSlotVerifyData \<Rightarrow> bytes \<Rightarrow> bytes \<Rightarrow> 'w \<Rightarrow> (bool \<times> AvbSlotVerifyData) \<times> 'w" where
  "cmdline_append_option A slot_data key value0 w =
     (let old = (case sd_cmdline slot_data of None \<Rightarrow> [] | Some c \<Rightarrow> c);
          offset = (if length old > 0 then length old + 1 else 0);
          (buf, w') = avb_calloc A (offset + length key + length value0 + 2) w
      in case buf of None \<Rightarrow> ((False, slot_data), w')
         | Some _ \<Rightarrow>
             ((True, slot_data\<lparr>sd_cmdline := Some
                ((if offset > 0 then old @ ascii '' '' else []) @ key @ ascii ''='' @ value0)\<rparr>), w'))"

definition AVB_MAX_DIGITS_UINT64 :: nat where
  "AVB_MAX_DIGITS_UINT64 = 32"

definition avb_div_by_10 :: "u64 \<Rightarrow> u32 \<times> u64" where
  "avb_div_by_10 dividend = (ucast (dividend mod 10), dividend div 10)"

text \<open>The digits from the least significant one, at most \<open>left\<close> of them.\<close>

fun base10_loop :: "nat \<Rightarrow> u64 \<Rightarrow> bytes" where
  "base10_loop 0 value0 = []"
| "base10_loop (Suc left) value0 =
     (let (rem, value') = avb_div_by_10 value0;
          digit = ucast rem + 48
      in if value' = 0 then [digit] else digit # base10_loop left value')"

definition uint64_to_base10 :: "u64 \<Rightarrow> bytes" where
  "uint64_to_base10 value0 = rev (base10_loop (AVB_MAX_DIGITS_UINT64 - 1) value0)"

definition cmdline_append_version ::
  "'w alloc \<Rightarrow> AvbSlotVerifyData \<Rightarrow> bytes \<Rightarrow> u64 \<Rightarrow> u64 \<Rightarrow> 'w \<Rightarrow> (bool \<times> AvbSlotVerifyData) \<times> 'w" where
  "cmdline_append_version A slot_data key major_version minor_version w =
     cmdline_append_option A slot_data key
       (uint64_to_base10 major_version @ ascii ''.'' @ uint64_to_base10 minor_version) w"

definition cmdline_append_uint64_base10 ::
  "'w alloc \<Rightarrow> AvbSlotVerifyData \<Rightarrow> bytes \<Rightarrow> u64 \<Rightarrow> 'w \<Rightarrow> (bool \<times> AvbSlotVerifyData) \<times> 'w" where
  "cmdline_append_uint64_base10 A slot_data key value0 w =
     cmdline_append_option A slot_data key (uint64_to_base10 value0) w"

definition cmdline_append_hex ::
  "'w alloc \<Rightarrow> AvbSlotVerifyData \<Rightarrow> bytes \<Rightarrow> bytes \<Rightarrow> 'w \<Rightarrow> (bool \<times> AvbSlotVerifyData) \<times> 'w" where
  "cmdline_append_hex A slot_data key data w =
     (case avb_bin2hex A data w of
        (None, w') \<Rightarrow> ((False, slot_data), w')
      | (Some hex_data, w') \<Rightarrow> cmdline_append_option A slot_data key hex_data w')"

subsection \<open>The options of a slot\<close>

text \<open>
  A step of \<open>avb_append_options\<close> either goes on with the slot data or leaves with an error;
  \<open>then_append\<close> is the pattern \<open>if (!append(...)) { ret = ERROR_OOM; goto out; }\<close>.
\<close>

type_synonym 'w append_state = "(AvbSlotVerifyResult \<times> AvbSlotVerifyData) \<times> 'w"

definition then_append ::
  "'w append_state \<Rightarrow> (AvbSlotVerifyData \<Rightarrow> 'w \<Rightarrow> (bool \<times> AvbSlotVerifyData) \<times> 'w) \<Rightarrow> 'w append_state" where
  "then_append st f = (case st of ((ret, sd), w) \<Rightarrow>
     if ret \<noteq> AVB_SLOT_VERIFY_RESULT_OK then st
     else (case f sd w of ((ok, sd'), w') \<Rightarrow>
       ((if ok then AVB_SLOT_VERIFY_RESULT_OK else AVB_SLOT_VERIFY_RESULT_ERROR_OOM, sd'), w')))"

text \<open>
  The hash over the loaded vbmeta images, each over its size truncated to 32 bits.  \<open>st\<close> is the stack
  of \<open>avb_append_options\<close>.
\<close>

definition images_sha256 :: "hash_stack \<Rightarrow> AvbVBMetaData list \<Rightarrow> bytes outcome" where
  "images_sha256 st images =
     obind (fold (\<lambda>im acc. obind acc (\<lambda>ctx.
        obind (checked (slice 0 (unat (ucast (vm_size im) :: u32)) (vbmeta_data im))) (\<lambda>d.
          Returned (avb_sha256_update ctx d))))
       images (Returned (avb_sha256_init (stack_sha256 st)))) (\<lambda>ctx. Returned (avb_sha256_final ctx))"

definition images_sha512 :: "hash_stack \<Rightarrow> AvbVBMetaData list \<Rightarrow> bytes outcome" where
  "images_sha512 st images =
     obind (fold (\<lambda>(n, im) acc. obind acc (\<lambda>ctx.
        obind (checked (slice 0 (unat (ucast (vm_size im) :: u32)) (vbmeta_data im))) (\<lambda>d.
          Returned (avb_sha512_update (stack_images st n) ctx d))))
       (zip [0..<length images] images) (Returned (avb_sha512_init (stack_sha512 st))))
     (\<lambda>ctx. Returned (avb_sha512_final (stack_final st) ctx))"

definition total_size_of :: "AvbVBMetaData list \<Rightarrow> u64" where
  "total_size_of images = fold (\<lambda>im total. total + vm_size im) images 0"

definition append_digest ::
  "'w alloc \<Rightarrow> bytes \<Rightarrow> u64 \<Rightarrow> bytes \<Rightarrow> 'w append_state \<Rightarrow> 'w append_state" where
  "append_digest A alg total_size digest st =
     then_append (then_append (then_append st
       (\<lambda>sd. cmdline_append_option A sd (ascii ''androidboot.vbmeta.hash_alg'') alg))
       (\<lambda>sd. cmdline_append_uint64_base10 A sd (ascii ''androidboot.vbmeta.size'') total_size))
       (\<lambda>sd. cmdline_append_hex A sd (ascii ''androidboot.vbmeta.digest'') digest)"

definition replace_verity_mode ::
  "'w alloc \<Rightarrow> bytes \<Rightarrow> bytes \<Rightarrow> 'w append_state \<Rightarrow> 'w append_state" where
  "replace_verity_mode A dm_verity_mode verity_mode st =
     (case st of ((ret, sd), w) \<Rightarrow>
        if ret \<noteq> AVB_SLOT_VERIFY_RESULT_OK then st
        else (case avb_replace A (the (sd_cmdline sd)) (ascii ''$(ANDROID_VERITY_MODE)'') dm_verity_mode w of
            (None, w') \<Rightarrow> ((AVB_SLOT_VERIFY_RESULT_ERROR_OOM, sd\<lparr>sd_cmdline := None\<rparr>), w')
          | (Some c, w') \<Rightarrow>
              then_append ((AVB_SLOT_VERIFY_RESULT_OK, sd\<lparr>sd_cmdline := Some c\<rparr>), w')
                (\<lambda>sd. cmdline_append_option A sd (ascii ''androidboot.veritymode'') verity_mode)))"

definition append_verity ::
  "'w alloc \<Rightarrow> bool \<Rightarrow> AvbHashtreeErrorMode \<Rightarrow> 'w append_state \<Rightarrow> 'w append_state" where
  "append_verity A hashtree_disabled mode st =
     (if hashtree_disabled
      then then_append st (\<lambda>sd. cmdline_append_option A sd (ascii ''androidboot.veritymode'') (ascii ''disabled''))
      else (case mode of
          AVB_HASHTREE_ERROR_MODE_RESTART_AND_INVALIDATE \<Rightarrow>
            replace_verity_mode A (ascii ''restart_on_corruption'') (ascii ''enforcing'')
              (then_append st (\<lambda>sd. cmdline_append_option A sd
                 (ascii ''androidboot.vbmeta.invalidate_on_error'') (ascii ''yes'')))
        | AVB_HASHTREE_ERROR_MODE_RESTART \<Rightarrow>
            replace_verity_mode A (ascii ''restart_on_corruption'') (ascii ''enforcing'') st
        | AVB_HASHTREE_ERROR_MODE_EIO \<Rightarrow>
            replace_verity_mode A (ascii ''ignore_zero_blocks'') (ascii ''eio'') st
        | AVB_HASHTREE_ERROR_MODE_LOGGING \<Rightarrow>
            replace_verity_mode A (ascii ''ignore_corruption'') (ascii ''logging'') st))"

definition append_device_state :: "'w AvbOps \<Rightarrow> 'w append_state \<Rightarrow> 'w append_state" where
  "append_device_state ops st =
     (case st of ((ret, sd), w) \<Rightarrow>
        if ret \<noteq> AVB_SLOT_VERIFY_RESULT_OK then st
        else (case read_is_device_unlocked ops w of ((io_ret, is_device_unlocked), w') \<Rightarrow>
          if io_ret = AVB_IO_RESULT_ERROR_OOM then ((AVB_SLOT_VERIFY_RESULT_ERROR_OOM, sd), w')
          else if io_ret \<noteq> AVB_IO_RESULT_OK then ((AVB_SLOT_VERIFY_RESULT_ERROR_IO, sd), w')
          else then_append ((AVB_SLOT_VERIFY_RESULT_OK, sd), w')
                 (\<lambda>sd. cmdline_append_option (ops_malloc ops) sd (ascii ''androidboot.vbmeta.device_state'')
                    (if is_device_unlocked then ascii ''unlocked'' else ascii ''locked''))))"

definition append_vbmeta_digest :: "'w AvbOps \<Rightarrow> u32 \<Rightarrow> 'w append_state \<Rightarrow> 'w append_state outcome" where
  "append_vbmeta_digest ops alg st =
     (case st of ((ret, sd), w) \<Rightarrow>
        if ret \<noteq> AVB_SLOT_VERIFY_RESULT_OK then Returned st
        else if alg = 0 \<or> alg = 1 \<or> alg = 2 \<or> alg = 3
        then obind (images_sha256 (ops_stack ops w) (vbmeta_images sd)) (\<lambda>digest.
               Returned (append_digest (ops_malloc ops) (ascii ''sha256'')
                 (total_size_of (vbmeta_images sd)) digest st))
        else if alg = 4 \<or> alg = 5 \<or> alg = 6
        then obind (images_sha512 (ops_stack ops w) (vbmeta_images sd)) (\<lambda>digest.
               Returned (append_digest (ops_malloc ops) (ascii ''sha512'')
                 (total_size_of (vbmeta_images sd)) digest st))
        else if alg = 7 then Aborted
        else Returned st)"

definition avb_append_options ::
  "'w AvbOps \<Rightarrow> AvbSlotVerifyData \<Rightarrow> AvbVBMetaImageHeader \<Rightarrow> u32 \<Rightarrow> AvbHashtreeErrorMode \<Rightarrow> 'w \<Rightarrow>
   'w append_state outcome" where
  "avb_append_options ops slot_data toplevel_vbmeta alg mode w =
     obind (append_vbmeta_digest ops alg (append_device_state ops
       (then_append
         (then_append ((AVB_SLOT_VERIFY_RESULT_OK, slot_data), w)
           (\<lambda>sd. cmdline_append_option (ops_malloc ops) sd (ascii ''androidboot.vbmeta.device'')
              (ascii ''PARTUUID=$(ANDROID_VBMETA_PARTUUID)'')))
         (\<lambda>sd. cmdline_append_version (ops_malloc ops) sd (ascii ''androidboot.vbmeta.avb_version'') 1 1))))
     (\<lambda>st. Returned (append_verity (ops_malloc ops) (vb_flags toplevel_vbmeta AND 1 \<noteq> 0) mode st))"

subsection \<open>Root digests\<close>

definition AVB_MAX_NUM_CMDLINE_SUBST :: nat where
  "AVB_MAX_NUM_CMDLINE_SUBST = 10"

definition avb_new_cmdline_subst_list :: "'w alloc \<Rightarrow> 'w \<Rightarrow> AvbCmdlineSubstList option \<times> 'w" where
  "avb_new_cmdline_subst_list A w = (case avb_calloc A 168 w of
     (None, w') \<Rightarrow> (None, w') | (Some _, w') \<Rightarrow> (Some [], w'))"

definition avb_add_root_digest_substitution ::
  "'w alloc \<Rightarrow> bytes \<Rightarrow> bytes \<Rightarrow> AvbCmdlineSubstList \<Rightarrow> 'w \<Rightarrow>
   ((AvbSlotVerifyResult \<times> AvbCmdlineSubstList) \<times> 'w) outcome" where
  "avb_add_root_digest_substitution A part_name digest subst w =
     obind (avb_assert (length part_name < 32)) (\<lambda>_.
     obind (avb_assert (length digest \<le> 64)) (\<lambda>_.
       if length subst \<ge> AVB_MAX_NUM_CMDLINE_SUBST
       then Returned ((AVB_SLOT_VERIFY_RESULT_ERROR_INVALID_METADATA, subst), w)
       else obind (avb_strdupv A [ascii ''$(AVB_'', part_name, ascii ''_ROOT_DIGEST)''] w) (\<lambda>(token, w1).
         case token of None \<Rightarrow> Returned ((AVB_SLOT_VERIFY_RESULT_ERROR_OOM, subst), w1)
         | Some t \<Rightarrow>
             (case avb_bin2hex A digest w1 of
                (None, w2) \<Rightarrow> Returned ((AVB_SLOT_VERIFY_RESULT_ERROR_OOM, subst), w2)
              | (Some v, w2) \<Rightarrow>
                  Returned ((AVB_SLOT_VERIFY_RESULT_OK, subst @ [(avb_uppercase t, v)]), w2)))))"

subsection \<open>Decimal digits are read back\<close>

definition decimal_digit :: "u8 \<Rightarrow> bool" where
  "decimal_digit c \<longleftrightarrow> 48 \<le> c \<and> c \<le> 57"

lemma parse_value_digits:
  "list_all decimal_digit ds \<Longrightarrow>
   parse_value base acc (ds @ rest) = parse_value base (fold (\<lambda>d a. a * base + ucast (d - 48)) ds acc) rest"
proof (induction ds arbitrary: acc)
  case (Cons d ds)
  then have "d \<noteq> 0" by (auto simp: decimal_digit_def)
  with Cons show ?case by (simp add: decimal_digit_def Let_def)
qed simp

lemma unat_ucast_small: "unat (x :: 'b::len word) < 2 ^ LENGTH('a) \<Longrightarrow> unat (ucast x :: 'a::len word) = unat x"
  by (simp only: unsigned_ucast_eq unsigned_take_bit_eq take_bit_nat_eq_self)

lemma base10_digit:
  fixes v :: u64
  defines "c \<equiv> (ucast (ucast (v mod 10) :: u32) :: u8) + 48"
  shows "decimal_digit c" "ucast (c - 48) = v mod 10"
proof -
  have lt: "unat (v mod 10) < 10" by (simp add: unat_mod)
  have "unat (ucast (v mod 10) :: u32) = unat (v mod 10)"
    using lt by (intro unat_ucast_small) simp
  then have u: "unat (ucast (ucast (v mod 10) :: u32) :: u8) = unat (v mod 10)"
    using lt by (subst unat_ucast_small) simp_all
  then have "unat c = unat (v mod 10) + 48"
    unfolding c_def by (subst unat_word_ariths) (use lt in simp)
  with lt show "decimal_digit c"
    by (simp add: decimal_digit_def word_le_nat_alt)
  have "unat (ucast (c - 48) :: u64) = unat (v mod 10)"
    using u by (simp only: c_def add_diff_cancel_right') (simp add: unat_ucast_up)
  then show "ucast (c - 48) = v mod 10" by (simp only: word_unat_eq_iff)
qed

lemma base10_loop_value:
  "unat v < 10 ^ Suc left \<Longrightarrow>
   list_all decimal_digit (base10_loop (Suc left) v) \<and>
   fold (\<lambda>d a. a * 10 + ucast (d - 48)) (rev (base10_loop (Suc left) v)) 0 = v"
proof (induction left arbitrary: v)
  case 0
  then have "v div 10 = 0" "v mod 10 = v"
    by (simp_all add: word_unat_eq_iff unat_div unat_mod)
  with base10_digit [of v] show ?case by (simp add: Let_def avb_div_by_10_def)
next
  case (Suc left)
  let ?q = "v div 10"
  have split: "?q * 10 + v mod 10 = v" by (rule div_mult_mod_eq)
  have "unat ?q < 10 ^ Suc left" using Suc.prems by (simp add: unat_div)
  note IH = Suc.IH [OF this]
  show ?case
  proof (cases "?q = 0")
    case True
    with split base10_digit [of v] show ?thesis by (simp add: Let_def avb_div_by_10_def)
  next
    case False
    have "base10_loop (Suc (Suc left)) v = (ucast (ucast (v mod 10) :: u32) + 48) # base10_loop (Suc left) ?q"
      by (subst base10_loop.simps(2)) (simp only: avb_div_by_10_def Let_def split_conv False if_False)
    with IH base10_digit [of v] split show ?thesis
      by (simp del: base10_loop.simps)
  qed
qed

lemma uint64_to_base10_value:
  "list_all decimal_digit (uint64_to_base10 v)"
  "fold (\<lambda>d a. a * 10 + ucast (d - 48)) (uint64_to_base10 v) 0 = v"
proof -
  have "unat v < 10 ^ Suc 30" using unat_less [of v] by simp
  from base10_loop_value [OF this] show "list_all decimal_digit (uint64_to_base10 v)"
    "fold (\<lambda>d a. a * 10 + ucast (d - 48)) (uint64_to_base10 v) 0 = v"
    by (simp_all add: uint64_to_base10_def AVB_MAX_DIGITS_UINT64_def del: base10_loop.simps)
qed

lemma uint64_to_base10_parse:
  "parse_value 10 0 (uint64_to_base10 v @ 0 # rest) = Returned (Some v)"
  by (simp only: parse_value_digits [OF uint64_to_base10_value(1)] uint64_to_base10_value(2))
    (simp add: Let_def)

lemma decimal_is_c_str: "list_all decimal_digit ds \<Longrightarrow> is_c_str ds"
  by (induction ds) (auto simp: decimal_digit_def)

subsection \<open>The options of a verified slot\<close>

text \<open>
  The command line as a list of options: what \<open>cmdline_append_option\<close> builds is the options
  joined by single spaces, an empty command line counting as none.
\<close>

definition option_text :: "bytes \<times> bytes \<Rightarrow> bytes" where
  "option_text kv = fst kv @ ascii ''='' @ snd kv"

definition append_text :: "bytes option \<Rightarrow> bytes \<times> bytes \<Rightarrow> bytes option" where
  "append_text c kv = Some ((case c of None \<Rightarrow> [] | Some [] \<Rightarrow> [] | Some t \<Rightarrow> t @ ascii '' '') @ option_text kv)"

definition append_texts :: "bytes option \<Rightarrow> (bytes \<times> bytes) list \<Rightarrow> bytes option" where
  "append_texts c kvs = fold (\<lambda>kv c. append_text c kv) kvs c"

lemma append_texts_simps [simp]:
  "append_texts c [] = c"
  "append_texts c (kv # kvs) = append_texts (append_text c kv) kvs"
  by (simp_all add: append_texts_def)

lemma append_option_text:
  "cmdline_append_option A sd key value0 w =
     (let (ok, w') = A ((case sd_cmdline sd of None \<Rightarrow> 0 | Some [] \<Rightarrow> 0 | Some t \<Rightarrow> length t + 1) +
            length key + length value0 + 2) w
      in if ok then ((True, sd\<lparr>sd_cmdline := append_text (sd_cmdline sd) (key, value0)\<rparr>), w')
         else ((False, sd), w'))"
  by (cases "sd_cmdline sd"; cases "the (sd_cmdline sd)")
    (simp_all add: cmdline_append_option_def append_text_def option_text_def avb_calloc_def avb_malloc_def
      split_def Let_def)

lemma append_option_ok:
  assumes "alloc_ok A"
  shows "fst (cmdline_append_option A sd key value0 w) =
    (True, sd\<lparr>sd_cmdline := append_text (sd_cmdline sd) (key, value0)\<rparr>)"
  using assms by (simp add: append_option_text alloc_ok_def split_def Let_def)

text \<open>A failed append leaves the slot as it was.\<close>

lemma append_option_slot:
  "cmdline_append_option A sd key value0 w = ((ok, sd'), w') \<Longrightarrow>
     (\<not> ok \<longrightarrow> sd' = sd) \<and> sd'\<lparr>sd_cmdline := sd_cmdline sd\<rparr> = sd"
  by (auto simp: append_option_text split_def Let_def split: if_splits)

lemma append_options_simps [simp]:
  "sd\<lparr>sd_cmdline := a\<rparr>\<lparr>sd_cmdline := b\<rparr> = sd\<lparr>sd_cmdline := b\<rparr>" for sd :: AvbSlotVerifyData
  by simp

definition hex_text :: "bytes \<Rightarrow> bytes" where
  "hex_text data = concat (map (\<lambda>b. [hex_digits ! unat (drop_bit 4 b), hex_digits ! unat (b AND 0x0f)]) data)"

lemma append_hex_ok:
  assumes "alloc_ok A"
  shows "fst (cmdline_append_hex A sd key data w) =
    (True, sd\<lparr>sd_cmdline := append_text (sd_cmdline sd) (key, hex_text data)\<rparr>)"
  using append_option_ok [OF assms]
  by (simp add: cmdline_append_hex_def avb_bin2hex_def alloc_ok_malloc [OF assms] hex_text_def)

lemma append_version_ok:
  assumes "alloc_ok A"
  shows "fst (cmdline_append_version A sd key x y w) =
    (True, sd\<lparr>sd_cmdline := append_text (sd_cmdline sd)
       (key, uint64_to_base10 x @ ascii ''.'' @ uint64_to_base10 y)\<rparr>)"
  by (simp only: cmdline_append_version_def append_option_ok [OF assms])

lemma append_uint64_ok:
  assumes "alloc_ok A"
  shows "fst (cmdline_append_uint64_base10 A sd key x w) =
    (True, sd\<lparr>sd_cmdline := append_text (sd_cmdline sd) (key, uint64_to_base10 x)\<rparr>)"
  by (simp only: cmdline_append_uint64_base10_def append_option_ok [OF assms])

lemmas appends_ok = append_option_ok append_hex_ok append_version_ok append_uint64_ok

lemma then_append_state: "then_append ((AVB_SLOT_VERIFY_RESULT_OK, sd), w) f =
   ((if fst (fst (f sd w)) then AVB_SLOT_VERIFY_RESULT_OK else AVB_SLOT_VERIFY_RESULT_ERROR_OOM,
     snd (fst (f sd w))), snd (f sd w))"
  by (simp add: then_append_def split_def)

text \<open>A state that carries on with a given command line.\<close>

definition goes_on :: "AvbSlotVerifyData \<Rightarrow> bytes option \<Rightarrow> 'w append_state \<Rightarrow> bool" where
  "goes_on sd c st \<longleftrightarrow> fst st = (AVB_SLOT_VERIFY_RESULT_OK, sd\<lparr>sd_cmdline := c\<rparr>)"

lemma goes_on_append:
  assumes "goes_on sd c st"
    and "\<And>w. fst (f (sd\<lparr>sd_cmdline := c\<rparr>) w) = (True, sd\<lparr>sd_cmdline := append_text c kv\<rparr>)"
  shows "goes_on sd (append_text c kv) (then_append st f)"
proof -
  obtain w where "st = ((AVB_SLOT_VERIFY_RESULT_OK, sd\<lparr>sd_cmdline := c\<rparr>), w)"
    using assms(1) by (cases st) (simp add: goes_on_def)
  then show ?thesis using assms(2) [of w] by (simp add: goes_on_def then_append_state)
qed

lemma goes_on_digest:
  assumes A: "alloc_ok A" and "goes_on sd c st"
  shows "goes_on sd (append_texts c [(ascii ''androidboot.vbmeta.hash_alg'', alg),
      (ascii ''androidboot.vbmeta.size'', uint64_to_base10 total_size),
      (ascii ''androidboot.vbmeta.digest'', hex_text digest)]) (append_digest A alg total_size digest st)"
  unfolding append_digest_def append_texts_simps
  by (intro goes_on_append assms(2)) (simp_all add: appends_ok [OF A])

text \<open>
  The part that depends on the dm-verity mode: without hashtrees a fixed option, otherwise the
  token of the mode is replaced in all that was collected and the mode is appended.
\<close>

definition verity_text :: "bool \<Rightarrow> AvbHashtreeErrorMode \<Rightarrow> bytes \<Rightarrow> bytes option" where
  "verity_text hashtree_disabled mode c =
     (if hashtree_disabled then append_text (Some c) (ascii ''androidboot.veritymode'', ascii ''disabled'')
      else
        (let c1 = (if mode = AVB_HASHTREE_ERROR_MODE_RESTART_AND_INVALIDATE
               then append_text (Some c) (ascii ''androidboot.vbmeta.invalidate_on_error'', ascii ''yes'')
               else Some c);
             (verity, dm) = (case mode of
                AVB_HASHTREE_ERROR_MODE_EIO \<Rightarrow> (''eio'', ''ignore_zero_blocks'')
              | AVB_HASHTREE_ERROR_MODE_LOGGING \<Rightarrow> (''logging'', ''ignore_corruption'')
              | _ \<Rightarrow> (''enforcing'', ''restart_on_corruption''))
         in append_text (map_option (replace_spec (ascii ''$(ANDROID_VERITY_MODE)'') (ascii dm)) c1)
              (ascii ''androidboot.veritymode'', ascii verity)))"

lemma append_text_Some: "append_text c kv \<noteq> None"
  by (simp add: append_text_def)

lemma append_texts_Some: "kvs \<noteq> [] \<Longrightarrow> append_texts c kvs \<noteq> None"
proof -
  have *: "append_texts (Some t) kvs \<noteq> None" for t kvs
    by (induction kvs arbitrary: t) (simp_all add: append_text_def)
  show "kvs \<noteq> [] \<Longrightarrow> append_texts c kvs \<noteq> None"
    by (cases kvs) (simp_all add: append_text_def *)
qed

lemma goes_on_replace_verity:
  assumes A: "alloc_ok A" and st: "goes_on sd (Some c) st" and c: "is_c_str c"
  shows "goes_on sd (append_text (Some (replace_spec (ascii ''$(ANDROID_VERITY_MODE)'') dm c))
      (ascii ''androidboot.veritymode'', mode)) (replace_verity_mode A dm mode st)"
proof -
  let ?r = "replace_spec (ascii ''$(ANDROID_VERITY_MODE)'') dm c"
  obtain w where st': "st = ((AVB_SLOT_VERIFY_RESULT_OK, sd\<lparr>sd_cmdline := Some c\<rparr>), w)"
    using st by (cases st) (simp add: goes_on_def)
  have "fst (avb_replace A c (ascii ''$(ANDROID_VERITY_MODE)'') dm w) = Some ?r"
    using A c by (intro avb_replace_spec) (simp_all add: alloc_ok_def)
  then obtain w2 where r: "avb_replace A c (ascii ''$(ANDROID_VERITY_MODE)'') dm w = (Some ?r, w2)"
    by (metis prod.collapse)
  have "goes_on sd (append_text (Some ?r) (ascii ''androidboot.veritymode'', mode))
      (then_append ((AVB_SLOT_VERIFY_RESULT_OK, sd\<lparr>sd_cmdline := Some ?r\<rparr>), w2)
        (\<lambda>sd. cmdline_append_option A sd (ascii ''androidboot.veritymode'') mode))"
    by (rule goes_on_append) (simp_all add: goes_on_def append_option_ok [OF A])
  then show ?thesis by (simp add: replace_verity_mode_def st' r)
qed

lemma goes_on_verity:
  assumes A: "alloc_ok A" and st: "goes_on sd (Some c) st" and c: "is_c_str c"
  shows "goes_on sd (verity_text dis mode c) (append_verity A dis mode st)"
proof -
  obtain c1 where c1: "append_text (Some c) (ascii ''androidboot.vbmeta.invalidate_on_error'', ascii ''yes'') = Some c1"
    using append_text_Some by blast
  have "is_c_str c1" using c c1
    by (auto simp: append_text_def option_text_def ascii_def is_c_str_def split: list.splits)
  have "goes_on sd (Some c1) (then_append st (\<lambda>sd. cmdline_append_option A sd
     (ascii ''androidboot.vbmeta.invalidate_on_error'') (ascii ''yes'')))"
    unfolding c1 [symmetric] by (rule goes_on_append [OF st]) (simp add: append_option_ok [OF A])
  note inv = goes_on_replace_verity [OF A this \<open>is_c_str c1\<close>]
  have dis: "goes_on sd (append_text (Some c) (ascii ''androidboot.veritymode'', ascii ''disabled''))
      (then_append st (\<lambda>sd. cmdline_append_option A sd (ascii ''androidboot.veritymode'') (ascii ''disabled'')))"
    by (rule goes_on_append [OF st]) (simp add: append_option_ok [OF A])
  show ?thesis
    using inv dis goes_on_replace_verity [OF A st c]
    by (cases mode) (simp_all add: append_verity_def verity_text_def c1)
qed

definition image_part :: "AvbVBMetaData \<Rightarrow> bytes" where
  "image_part im = take (unat (ucast (vm_size im) :: u32)) (vbmeta_data im)"

definition images_loaded :: "AvbVBMetaData list \<Rightarrow> bool" where
  "images_loaded images \<longleftrightarrow>
     (\<forall>im \<in> set images. unat (ucast (vm_size im) :: u32) \<le> length (vbmeta_data im)) \<and>
     length (concat (map image_part images)) < 2 ^ 29"

lemma images_sha256_digest:
  assumes "stack_ok st" "images_loaded images"
  shows "images_sha256 st images = Returned (sha256 (concat (map image_part images)))"
proof -
  have "\<forall>im \<in> set images. unat (ucast (vm_size im) :: u32) \<le> length (vbmeta_data im)"
    using assms(2) by (simp add: images_loaded_def)
  then have "fold (\<lambda>im acc. obind acc (\<lambda>ctx.
        obind (checked (slice 0 (unat (ucast (vm_size im) :: u32)) (vbmeta_data im))) (\<lambda>d.
          Returned (avb_sha256_update ctx d)))) images (Returned ctx) =
      Returned (foldl avb_sha256_update ctx (map image_part images))" for ctx
    by (induction images arbitrary: ctx) (simp_all add: slice_Some image_part_def)
  then show ?thesis
    using avb_sha256_stream [of "stack_sha256 st" "map image_part images"] assms
    by (simp add: images_sha256_def stack_ok_def images_loaded_def)
qed

text \<open>The options of a slot signed with SHA-256, in the order in which they are appended.\<close>

definition vbmeta_options :: "bool \<Rightarrow> AvbVBMetaData list \<Rightarrow> (bytes \<times> bytes) list" where
  "vbmeta_options unlocked images =
     [(ascii ''androidboot.vbmeta.device'', ascii ''PARTUUID=$(ANDROID_VBMETA_PARTUUID)''),
      (ascii ''androidboot.vbmeta.avb_version'', ascii ''1.1''),
      (ascii ''androidboot.vbmeta.device_state'', ascii (if unlocked then ''unlocked'' else ''locked'')),
      (ascii ''androidboot.vbmeta.hash_alg'', ascii ''sha256''),
      (ascii ''androidboot.vbmeta.size'', uint64_to_base10 (total_size_of images)),
      (ascii ''androidboot.vbmeta.digest'', hex_text (sha256 (concat (map image_part images))))]"

lemma hex_text_is_c_str [simp]: "is_c_str (hex_text data)"
  unfolding hex_text_def by (induction data) (simp_all add: hex_digits_chars nibble_bounds)

lemma append_texts_is_c_str:
  assumes "append_texts (Some t) kvs = Some c" "is_c_str t"
    and "\<forall>kv \<in> set kvs. is_c_str (fst kv) \<and> is_c_str (snd kv)"
  shows "is_c_str c"
  using assms
proof (induction kvs arbitrary: t)
  case (Cons kv kvs)
  obtain t' where t': "append_text (Some t) kv = Some t'" using append_text_Some by blast
  have "is_c_str t'" using t' Cons.prems
    by (auto simp: append_text_def option_text_def ascii_def split: list.splits)
  with Cons t' show ?case by simp
qed simp

lemma append_text_None: "append_text None kv = append_text (Some []) kv"
  by (simp add: append_text_def)

lemma vbmeta_options_c_str: "\<forall>kv \<in> set (vbmeta_options u images). is_c_str (fst kv) \<and> is_c_str (snd kv)"
  using decimal_is_c_str [OF uint64_to_base10_value(1), of "total_size_of images"]
  by (simp add: vbmeta_options_def ascii_def)

lemma goes_on_state:
  assumes "goes_on sd c st"
  obtains w where "st = ((AVB_SLOT_VERIFY_RESULT_OK, sd\<lparr>sd_cmdline := c\<rparr>), w)"
  using assms by (cases st) (simp add: goes_on_def)

lemma goes_on_device_state:
  assumes A: "alloc_ok (ops_malloc ops)" and st: "goes_on sd c st"
    and io: "\<And>w. fst (read_is_device_unlocked ops w) = (AVB_IO_RESULT_OK, unlocked)"
  shows "goes_on sd (append_text c (ascii ''androidboot.vbmeta.device_state'',
      ascii (if unlocked then ''unlocked'' else ''locked''))) (append_device_state ops st)"
proof -
  obtain w where st': "st = ((AVB_SLOT_VERIFY_RESULT_OK, sd\<lparr>sd_cmdline := c\<rparr>), w)"
    using st by (rule goes_on_state)
  obtain w' where io': "read_is_device_unlocked ops w = ((AVB_IO_RESULT_OK, unlocked), w')"
    using io [of w] by (metis prod.collapse)
  have "goes_on sd (append_text c (ascii ''androidboot.vbmeta.device_state'',
      if unlocked then ascii ''unlocked'' else ascii ''locked''))
    (then_append ((AVB_SLOT_VERIFY_RESULT_OK, sd\<lparr>sd_cmdline := c\<rparr>), w')
      (\<lambda>sd. cmdline_append_option (ops_malloc ops) sd (ascii ''androidboot.vbmeta.device_state'')
         (if unlocked then ascii ''unlocked'' else ascii ''locked'')))"
    by (rule goes_on_append) (simp_all add: goes_on_def appends_ok [OF A])
  then show ?thesis by (simp add: append_device_state_def st' io' if_distrib [of ascii])
qed

lemma goes_on_vbmeta_digest:
  assumes A: "alloc_ok (ops_malloc ops)" and st: "goes_on sd c st"
    and stack: "\<And>w. stack_ok (ops_stack ops w)"
    and alg: "alg \<in> {0, 1, 2, 3}" and im: "images_loaded (vbmeta_images sd)"
  shows "\<exists>st'. append_vbmeta_digest ops alg st = Returned st' \<and>
    goes_on sd (append_texts c [(ascii ''androidboot.vbmeta.hash_alg'', ascii ''sha256''),
      (ascii ''androidboot.vbmeta.size'', uint64_to_base10 (total_size_of (vbmeta_images sd))),
      (ascii ''androidboot.vbmeta.digest'', hex_text (sha256 (concat (map image_part (vbmeta_images sd)))))]) st'"
proof -
  obtain w where st': "st = ((AVB_SLOT_VERIFY_RESULT_OK, sd\<lparr>sd_cmdline := c\<rparr>), w)"
    using st by (rule goes_on_state)
  have "append_vbmeta_digest ops alg st = Returned (append_digest (ops_malloc ops) (ascii ''sha256'')
      (total_size_of (vbmeta_images sd)) (sha256 (concat (map image_part (vbmeta_images sd)))) st)"
    using alg images_sha256_digest [OF stack im] by (auto simp: append_vbmeta_digest_def st')
  with goes_on_digest [OF A st] show ?thesis by blast
qed

lemma goes_on_identity:
  assumes A: "alloc_ok A"
  shows "goes_on sd (append_texts (sd_cmdline sd)
      [(ascii ''androidboot.vbmeta.device'', ascii ''PARTUUID=$(ANDROID_VBMETA_PARTUUID)''),
       (ascii ''androidboot.vbmeta.avb_version'', ascii ''1.1'')])
    (then_append (then_append ((AVB_SLOT_VERIFY_RESULT_OK, sd), w)
      (\<lambda>sd. cmdline_append_option A sd (ascii ''androidboot.vbmeta.device'')
         (ascii ''PARTUUID=$(ANDROID_VBMETA_PARTUUID)'')))
      (\<lambda>sd. cmdline_append_version A sd (ascii ''androidboot.vbmeta.avb_version'') 1 1))"
proof -
  have v: "uint64_to_base10 1 @ ascii ''.'' @ uint64_to_base10 1 = ascii ''1.1''" by code_simp
  show ?thesis unfolding append_texts_simps
    by (intro goes_on_append) (simp_all only: goes_on_def appends_ok [OF A] v, simp_all)
qed

lemma append_options_c_str:
  assumes c: "append_texts c0 (vbmeta_options unlocked images) = Some c"
    and c0: "\<And>t. c0 = Some t \<Longrightarrow> is_c_str t"
  shows "is_c_str c"
proof -
  obtain t where "append_texts (Some t) (vbmeta_options unlocked images) = Some c" "is_c_str t"
  proof (cases c0)
    case None
    with c have "append_texts (Some []) (vbmeta_options unlocked images) = Some c"
      by (simp only: vbmeta_options_def append_texts_simps append_text_None)
    then show ?thesis using that by simp
  qed (use c c0 that in auto)
  from append_texts_is_c_str [OF this vbmeta_options_c_str] show ?thesis .
qed

lemma append_options_text:
  assumes A: "alloc_ok (ops_malloc ops)" and stack: "\<And>w. stack_ok (ops_stack ops w)"
    and io: "\<And>w. fst (read_is_device_unlocked ops w) = (AVB_IO_RESULT_OK, unlocked)"
    and alg: "alg \<in> {0, 1, 2, 3}" and im: "images_loaded (vbmeta_images sd)"
    and c0: "\<And>t. sd_cmdline sd = Some t \<Longrightarrow> is_c_str t"
    and c: "append_texts (sd_cmdline sd) (vbmeta_options unlocked (vbmeta_images sd)) = Some c"
  shows "\<exists>w'. avb_append_options ops sd h alg mode w = Returned ((AVB_SLOT_VERIFY_RESULT_OK,
      sd\<lparr>sd_cmdline := verity_text (vb_flags h AND 1 \<noteq> 0) mode c\<rparr>), w')"
proof -
  note g = goes_on_device_state [OF A goes_on_identity [OF A] io]
  from goes_on_vbmeta_digest [OF A this stack alg im, of w] obtain st' where
    st': "append_vbmeta_digest ops alg (append_device_state ops
       (then_append
         (then_append ((AVB_SLOT_VERIFY_RESULT_OK, sd), w)
           (\<lambda>sd. cmdline_append_option (ops_malloc ops) sd (ascii ''androidboot.vbmeta.device'')
              (ascii ''PARTUUID=$(ANDROID_VBMETA_PARTUUID)'')))
         (\<lambda>sd. cmdline_append_version (ops_malloc ops) sd (ascii ''androidboot.vbmeta.avb_version'') 1 1))) =
       Returned st'"
    and "goes_on sd (append_texts (sd_cmdline sd) (vbmeta_options unlocked (vbmeta_images sd))) st'"
    unfolding vbmeta_options_def append_texts_simps by blast
  with c have "goes_on sd (Some c) st'" by (simp only:)
  from goes_on_verity [OF A this append_options_c_str [OF c c0]]
  obtain w' where "append_verity (ops_malloc ops) (vb_flags h AND 1 \<noteq> 0) mode st' =
      ((AVB_SLOT_VERIFY_RESULT_OK, sd\<lparr>sd_cmdline := verity_text (vb_flags h AND 1 \<noteq> 0) mode c\<rparr>), w')"
    by (rule goes_on_state)
  then show ?thesis by (simp only: avb_append_options_def st' obind.simps) blast
qed

subsection \<open>Properties\<close>

text \<open>
  The decimal text of a 64-bit value, followed by its terminator, is read back by the loop of
  \<open>avb_property_lookup_uint64\<close> as the same value.
\<close>
theorem decimal_round_trip: "parse_value 10 0 (uint64_to_base10 v @ 0 # rest) = Returned (Some v)"
  by (rule uint64_to_base10_parse)


text \<open>
  C36: for a slot whose images are signed with SHA-256 or not at all, and a platform that has
  memory, \<open>avb_append_options\<close> leaves as command line what it found there followed by the
  seven or eight options of the slot in order: device, libavb version, lock state, digest
  algorithm, total size, digest of all vbmeta images, and the dm-verity mode, whose token is
  replaced in everything that was collected before.
\<close>
theorem kernel_options:
  assumes "alloc_ok (ops_malloc ops)" and "\<And>w. stack_ok (ops_stack ops w)"
    and "\<And>w. fst (read_is_device_unlocked ops w) = (AVB_IO_RESULT_OK, unlocked)"
    and "alg \<in> {0, 1, 2, 3}" and "images_loaded (vbmeta_images sd)"
    and "\<And>t. sd_cmdline sd = Some t \<Longrightarrow> is_c_str t"
    and "append_texts (sd_cmdline sd) (vbmeta_options unlocked (vbmeta_images sd)) = Some c"
  shows "\<exists>w'. avb_append_options ops sd h alg mode w = Returned ((AVB_SLOT_VERIFY_RESULT_OK,
      sd\<lparr>sd_cmdline := verity_text (vb_flags h AND 1 \<noteq> 0) mode c\<rparr>), w')"
  by (rule append_options_text [OF assms])

theorem kernel_options_witness:
  "\<exists>c w'. avb_append_options sample_ops empty_slot_data blank_vbmeta 0 AVB_HASHTREE_ERROR_MODE_EIO () =
     Returned ((AVB_SLOT_VERIFY_RESULT_OK, empty_slot_data\<lparr>sd_cmdline :=
       verity_text (vb_flags blank_vbmeta AND 1 \<noteq> 0) AVB_HASHTREE_ERROR_MODE_EIO c\<rparr>), w')"
proof -
  have "append_texts None (vbmeta_options False []) \<noteq> None"
    by (rule append_texts_Some) (simp add: vbmeta_options_def)
  then obtain c where "append_texts (sd_cmdline empty_slot_data)
      (vbmeta_options False (vbmeta_images empty_slot_data)) = Some c"
    by (auto simp: empty_slot_data_def)
  from kernel_options [OF sample_ops_ok _ _ _ _ this, of 0 blank_vbmeta AVB_HASHTREE_ERROR_MODE_EIO "()"]
  show ?thesis
    by (simp add: images_loaded_def empty_slot_data_def) (fastforce simp: sample_ops_def)
qed

end
