(* ===== verification/AvbSlotVerify.thy ===== *)
theory AvbSlotVerify
  imports AvbCmdline
begin

text \<open>
  \<open>Application/UefiAvb/libavb/avb_slot_verify.c\<close>: loading and verifying the partitions of a slot.

  A function that leaves through \<open>out\<close> returns its \<open>AvbSlotVerifyResult\<close>; the steps before are
  sums, \<open>Inl\<close> for the jump and \<open>Inr\<close> for the values the code goes on with.  \<open>slot_data\<close> is passed
  and returned; the arrays of 32 vbmeta images and 32 loaded partitions are lists.  A name or a
  key inside an image is the memory from its first octet to the end of what was read, so that a
  read past it is \<open>Faulted\<close>.  Freeing memory is not modelled.
\<close>

definition result_should_continue :: "AvbSlotVerifyResult \<Rightarrow> bool" where
  "result_should_continue result = (case result of
     AVB_SLOT_VERIFY_RESULT_ERROR_OOM \<Rightarrow> False
   | AVB_SLOT_VERIFY_RESULT_ERROR_IO \<Rightarrow> False
   | AVB_SLOT_VERIFY_RESULT_ERROR_INVALID_METADATA \<Rightarrow> False
   | AVB_SLOT_VERIFY_RESULT_ERROR_UNSUPPORTED_VERSION \<Rightarrow> False
   | AVB_SLOT_VERIFY_RESULT_ERROR_INVALID_ARGUMENT \<Rightarrow> False
   | AVB_SLOT_VERIFY_RESULT_OK \<Rightarrow> True
   | AVB_SLOT_VERIFY_RESULT_ERROR_VERIFICATION \<Rightarrow> True
   | AVB_SLOT_VERIFY_RESULT_ERROR_ROLLBACK_INDEX \<Rightarrow> True
   | AVB_SLOT_VERIFY_RESULT_ERROR_PUBLIC_KEY_REJECTED \<Rightarrow> True)"

definition avb_slot_verify_result_to_string :: "AvbSlotVerifyResult \<Rightarrow> string" where
  "avb_slot_verify_result_to_string result = (case result of
     AVB_SLOT_VERIFY_RESULT_OK \<Rightarrow> ''OK''
   | AVB_SLOT_VERIFY_RESULT_ERROR_OOM \<Rightarrow> ''ERROR_OOM''
   | AVB_SLOT_VERIFY_RESULT_ERROR_IO \<Rightarrow> ''ERROR_IO''
   | AVB_SLOT_VERIFY_RESULT_ERROR_VERIFICATION \<Rightarrow> ''ERROR_VERIFICATION''
   | AVB_SLOT_VERIFY_RESULT_ERROR_ROLLBACK_INDEX \<Rightarrow> ''ERROR_ROLLBACK_INDEX''
   | AVB_SLOT_VERIFY_RESULT_ERROR_PUBLIC_KEY_REJECTED \<Rightarrow> ''ERROR_PUBLIC_KEY_REJECTED''
   | AVB_SLOT_VERIFY_RESULT_ERROR_INVALID_METADATA \<Rightarrow> ''ERROR_INVALID_METADATA''
   | AVB_SLOT_VERIFY_RESULT_ERROR_UNSUPPORTED_VERSION \<Rightarrow> ''ERROR_UNSUPPORTED_VERSION''
   | AVB_SLOT_VERIFY_RESULT_ERROR_INVALID_ARGUMENT \<Rightarrow> ''ERROR_INVALID_ARGUMENT'')"

text \<open>The recurring translation of an I/O result; \<open>None\<close> goes on.\<close>

definition io_failure :: "AvbIOResult \<Rightarrow> AvbSlotVerifyResult option" where
  "io_failure io_ret =
     (if io_ret = AVB_IO_RESULT_ERROR_OOM then Some AVB_SLOT_VERIFY_RESULT_ERROR_OOM
      else if io_ret \<noteq> AVB_IO_RESULT_OK then Some AVB_SLOT_VERIFY_RESULT_ERROR_IO
      else None)"

subsection \<open>Loading a partition\<close>

definition load_full_partition ::
  "'w AvbOps \<Rightarrow> bytes \<Rightarrow> u64 \<Rightarrow> bytes option \<Rightarrow> bool \<Rightarrow> 'w \<Rightarrow>
   ((AvbSlotVerifyResult \<times> bytes option \<times> bool) \<times> 'w) outcome" where
  "load_full_partition ops part_name image_size out_image_buf out_image_preloaded w =
     obind (avb_assert (out_image_buf = None)) (\<lambda>_.
     obind (avb_assert (\<not> out_image_preloaded)) (\<lambda>_.
       let allocate = (\<lambda>w.
             let (ok, w1) = avb_malloc (ops_malloc ops) (unat image_size) w
             in if \<not> ok then ((AVB_SLOT_VERIFY_RESULT_ERROR_OOM, None, False), w1)
                else (case read_from_partition ops part_name 0 (unat image_size) w1 of ((io_ret, image_buf), w2) \<Rightarrow>
                  case io_failure io_ret of Some r \<Rightarrow> ((r, Some image_buf, False), w2)
                  | None \<Rightarrow>
                    if length image_buf \<noteq> unat image_size
                    then ((AVB_SLOT_VERIFY_RESULT_ERROR_IO, Some image_buf, False), w2)
                    else ((AVB_SLOT_VERIFY_RESULT_OK, Some image_buf, False), w2)))
       in Returned (case get_preloaded_partition ops of
            None \<Rightarrow> allocate w
          | Some preload \<Rightarrow> (case preload part_name (unat image_size) w of ((io_ret, buf), w1) \<Rightarrow>
              case io_failure io_ret of Some r \<Rightarrow> ((r, buf, False), w1)
              | None \<Rightarrow> (case buf of
                    None \<Rightarrow> allocate w1
                  | Some image_buf \<Rightarrow>
                      if length image_buf \<noteq> unat image_size
                      then ((AVB_SLOT_VERIFY_RESULT_ERROR_IO, buf, False), w1)
                      else ((AVB_SLOT_VERIFY_RESULT_OK, buf, True), w1))))))"

definition AVB_NPV_PERSISTENT_DIGEST_PREFIX :: bytes where
  "AVB_NPV_PERSISTENT_DIGEST_PREFIX = ascii ''avb.persistent_digest.''"

definition read_persistent_digest ::
  "'w AvbOps \<Rightarrow> bytes \<Rightarrow> nat \<Rightarrow> 'w \<Rightarrow> ((AvbSlotVerifyResult + bytes) \<times> 'w) outcome" where
  "read_persistent_digest ops part_name expected_digest_size w =
     (case read_persistent_value ops of
        None \<Rightarrow> Returned (Inl AVB_SLOT_VERIFY_RESULT_ERROR_INVALID_METADATA, w)
      | Some read_value \<Rightarrow>
        obind (avb_strdupv (ops_malloc ops) [AVB_NPV_PERSISTENT_DIGEST_PREFIX, part_name] w) (\<lambda>(name, w1).
          case name of None \<Rightarrow> Returned (Inl AVB_SLOT_VERIFY_RESULT_ERROR_OOM, w1)
          | Some persistent_value_name \<Rightarrow>
            (case read_value persistent_value_name expected_digest_size w1 of ((io_ret, digest), w2) \<Rightarrow>
             Returned
               (if io_ret = AVB_IO_RESULT_ERROR_OOM then Inl AVB_SLOT_VERIFY_RESULT_ERROR_OOM
                else if io_ret = AVB_IO_RESULT_ERROR_NO_SUCH_VALUE
                then Inl AVB_SLOT_VERIFY_RESULT_ERROR_INVALID_METADATA
                else if io_ret = AVB_IO_RESULT_ERROR_INVALID_VALUE_SIZE \<or>
                        io_ret = AVB_IO_RESULT_ERROR_INSUFFICIENT_SPACE \<or>
                        expected_digest_size \<noteq> length digest
                then Inl AVB_SLOT_VERIFY_RESULT_ERROR_INVALID_METADATA
                else if io_ret \<noteq> AVB_IO_RESULT_OK then Inl AVB_SLOT_VERIFY_RESULT_ERROR_IO
                else Inr digest, w2))))"

subsection \<open>Hash descriptors\<close>

text \<open>The partition to load: \<open>Inl\<close> is an error, \<open>Inr\<close> its full name.\<close>

definition hash_part_name :: "AvbHashDescriptor \<Rightarrow> bytes \<Rightarrow> bytes \<Rightarrow> bytes option" where
  "hash_part_name hash_desc desc_partition_name ab_suffix =
     (if hash_flags hash_desc AND 1 \<noteq> 0
      then (if unat (hash_partition_name_len hash_desc) \<ge> 32 then None else Some (c_str desc_partition_name))
      else if hash_digest_len hash_desc = 0 \<and> length ab_suffix \<noteq> 0 then None
      else part_name_concat desc_partition_name ab_suffix)"

definition hash_image_size_to_load ::
  "'w AvbOps \<Rightarrow> bool \<Rightarrow> bytes \<Rightarrow> AvbHashDescriptor \<Rightarrow> 'w \<Rightarrow> (AvbSlotVerifyResult + u64) \<times> 'w" where
  "hash_image_size_to_load ops allow_verification_error part_name hash_desc w =
     (if allow_verification_error
      then (case get_size_of_partition ops of
          None \<Rightarrow> (Inr (hash_image_size hash_desc), w)
        | Some get_size \<Rightarrow> (case get_size part_name w of ((io_ret, image_size), w1) \<Rightarrow>
            case io_failure io_ret of Some r \<Rightarrow> (Inl r, w1) | None \<Rightarrow> (Inr image_size, w1)))
      else (Inr (hash_image_size hash_desc), w))"

text \<open>
  The digest of salt and image.  The image is hashed over the size in the descriptor, truncated
  to 32 bits, whatever was loaded.
\<close>

definition hash_image_digest ::
  "hash_stack \<Rightarrow> AvbHashDescriptor \<Rightarrow> bytes \<Rightarrow> bytes \<Rightarrow> bytes option outcome" where
  "hash_image_digest st hash_desc desc_salt image_buf =
     (let n = unat (ucast (hash_image_size hash_desc) :: u32);
          salt_len = unat (hash_salt_len hash_desc) in
      obind (checked (avb_strcmp_eq (hash_algorithm hash_desc) (ascii ''sha256''))) (\<lambda>is256.
        if is256 then obind (checked (slice 0 salt_len desc_salt)) (\<lambda>salt.
          obind (checked (slice 0 n image_buf)) (\<lambda>data.
          Returned (Some (avb_sha256_final (avb_sha256_update
            (avb_sha256_update (avb_sha256_init (stack_sha256 st)) salt) data)))))
        else obind (checked (avb_strcmp_eq (hash_algorithm hash_desc) (ascii ''sha512''))) (\<lambda>is512.
          if is512 then obind (checked (slice 0 salt_len desc_salt)) (\<lambda>salt.
            obind (checked (slice 0 n image_buf)) (\<lambda>data.
            Returned (Some (avb_sha512_final (stack_final st) (avb_sha512_update (stack_update2 st)
              (avb_sha512_update (stack_update1 st) (avb_sha512_init (stack_sha512 st)) salt) data)))))
          else Returned None)))"

text \<open>The comparison with the expected digest, from the descriptor or from the device.\<close>

definition hash_compare ::
  "'w AvbOps \<Rightarrow> bytes \<Rightarrow> AvbHashDescriptor \<Rightarrow> bytes \<Rightarrow> bytes \<Rightarrow> 'w \<Rightarrow> (AvbSlotVerifyResult \<times> 'w) outcome" where
  "hash_compare ops part_name hash_desc desc_digest digest w =
     (let digest_len = length digest;
          compare = (\<lambda>expected_digest expected_digest_len w.
            if digest_len \<noteq> expected_digest_len
            then Returned (AVB_SLOT_VERIFY_RESULT_ERROR_INVALID_METADATA, w)
            else obind (checked (avb_safe_memcmp digest expected_digest digest_len)) (\<lambda>r.
              Returned (if r \<noteq> 0 then AVB_SLOT_VERIFY_RESULT_ERROR_VERIFICATION
                        else AVB_SLOT_VERIFY_RESULT_OK, w)))
      in if hash_digest_len hash_desc = 0
         then obind (avb_assert (digest_len \<le> 64)) (\<lambda>_.
              obind (read_persistent_digest ops part_name digest_len w) (\<lambda>(v, w1).
                case v of Inl ret \<Rightarrow> Returned (ret, w1)
                | Inr stored \<Rightarrow> compare stored digest_len w1))
         else compare desc_digest (unat (hash_digest_len hash_desc)) w)"

text \<open>The end of the function: what was loaded goes to the slot data unless the error is fatal.\<close>

definition MAX_NUMBER_OF_LOADED_PARTITIONS :: nat where
  "MAX_NUMBER_OF_LOADED_PARTITIONS = 32"

definition keep_loaded_partition ::
  "'w alloc \<Rightarrow> AvbSlotVerifyResult \<Rightarrow> bytes \<Rightarrow> u64 \<Rightarrow> bytes option \<Rightarrow> bool \<Rightarrow> AvbSlotVerifyData \<Rightarrow> 'w \<Rightarrow>
   (AvbSlotVerifyResult \<times> AvbSlotVerifyData) \<times> 'w" where
  "keep_loaded_partition A ret found image_size image_buf image_preloaded slot_data w =
     (if (ret = AVB_SLOT_VERIFY_RESULT_OK \<or> result_should_continue ret) \<and> image_buf \<noteq> None
      then (if length (loaded_partitions slot_data) = MAX_NUMBER_OF_LOADED_PARTITIONS
            then ((AVB_SLOT_VERIFY_RESULT_ERROR_OOM, slot_data), w)
            else (case avb_strdup A found w of (name, w1) \<Rightarrow>
              ((ret, slot_data\<lparr>loaded_partitions := loaded_partitions slot_data @
                  [\<lparr>pd_partition_name = name, pd_data = image_buf, pd_data_size = image_size,
                    pd_preloaded = image_preloaded\<rparr>]\<rparr>), w1)))
      else ((ret, slot_data), w))"

definition load_and_compare_hash_image ::
  "'w AvbOps \<Rightarrow> AvbHashDescriptor \<Rightarrow> bytes \<Rightarrow> bytes \<Rightarrow> bytes \<Rightarrow> u64 \<Rightarrow> AvbSlotVerifyData \<Rightarrow> 'w \<Rightarrow>
   ((AvbSlotVerifyResult \<times> AvbSlotVerifyData) \<times> 'w) outcome" where
  "load_and_compare_hash_image ops hash_desc descriptor found part_name image_size slot_data w =
     (let desc_salt = drop (132 + unat (hash_partition_name_len hash_desc)) descriptor;
          desc_digest = drop (unat (hash_salt_len hash_desc)) desc_salt
      in obind (load_full_partition ops part_name image_size None False w)
           (\<lambda>((ret, image_buf, image_preloaded), w1).
         if ret \<noteq> AVB_SLOT_VERIFY_RESULT_OK
         then Returned (keep_loaded_partition (ops_malloc ops) ret found image_size image_buf
                image_preloaded slot_data w1)
         else obind (hash_image_digest (ops_stack ops w1) hash_desc desc_salt (the image_buf)) (\<lambda>digest.
              obind (case digest of
                  None \<Rightarrow> Returned (AVB_SLOT_VERIFY_RESULT_ERROR_INVALID_METADATA, w1)
                | Some d \<Rightarrow> hash_compare ops part_name hash_desc desc_digest d w1) (\<lambda>(ret, w2).
              Returned (keep_loaded_partition (ops_malloc ops) ret found image_size image_buf
                image_preloaded slot_data w2)))))"

definition load_and_verify_hash_partition ::
  "'w AvbOps \<Rightarrow> bytes list \<Rightarrow> bytes \<Rightarrow> bool \<Rightarrow> bytes \<Rightarrow> AvbSlotVerifyData \<Rightarrow> 'w \<Rightarrow>
   ((AvbSlotVerifyResult \<times> AvbSlotVerifyData) \<times> 'w) outcome" where
  "load_and_verify_hash_partition ops requested_partitions ab_suffix allow_verification_error descriptor slot_data w =
     obind (avb_hash_descriptor_validate_and_byteswap descriptor) (\<lambda>v.
       case v of None \<Rightarrow> Returned ((AVB_SLOT_VERIFY_RESULT_ERROR_INVALID_METADATA, slot_data), w)
       | Some hash_desc \<Rightarrow>
         let name_len = unat (hash_partition_name_len hash_desc)
         in obind (checked (slice 132 name_len descriptor)) (\<lambda>desc_partition_name.
            if \<not> avb_validate_utf8 desc_partition_name
            then Returned ((AVB_SLOT_VERIFY_RESULT_ERROR_INVALID_METADATA, slot_data), w)
            else case avb_strv_find_str requested_partitions desc_partition_name name_len of
              None \<Rightarrow> Returned ((AVB_SLOT_VERIFY_RESULT_OK, slot_data), w)
            | Some found \<Rightarrow>
              (case hash_part_name hash_desc desc_partition_name ab_suffix of
                 None \<Rightarrow> Returned ((AVB_SLOT_VERIFY_RESULT_ERROR_INVALID_METADATA, slot_data), w)
               | Some part_name \<Rightarrow>
                 (case hash_image_size_to_load ops allow_verification_error part_name hash_desc w of
                    (Inl ret, w1) \<Rightarrow> Returned ((ret, slot_data), w1)
                  | (Inr image_size, w1) \<Rightarrow>
                      load_and_compare_hash_image ops hash_desc descriptor found part_name image_size
                        slot_data w1))))"

subsection \<open>Loading without verification\<close>

fun load_requested_loop ::
  "'w AvbOps \<Rightarrow> (bytes \<Rightarrow> 'w \<Rightarrow> (AvbIOResult \<times> u64) \<times> 'w) \<Rightarrow> bytes \<Rightarrow> bytes list \<Rightarrow>
   AvbSlotVerifyData \<Rightarrow> 'w \<Rightarrow> ((AvbSlotVerifyResult \<times> AvbSlotVerifyData) \<times> 'w) outcome" where
  "load_requested_loop ops get_size ab_suffix [] slot_data w =
     Returned ((AVB_SLOT_VERIFY_RESULT_OK, slot_data), w)"
| "load_requested_loop ops get_size ab_suffix (requested # rest) slot_data w =
     (case part_name_concat requested ab_suffix of
        None \<Rightarrow> Returned ((AVB_SLOT_VERIFY_RESULT_ERROR_INVALID_METADATA, slot_data), w)
      | Some part_name \<Rightarrow>
        (case get_size part_name w of ((io_ret, image_size), w1) \<Rightarrow>
         case io_failure io_ret of Some r \<Rightarrow> Returned ((r, slot_data), w1)
         | None \<Rightarrow>
           obind (load_full_partition ops part_name image_size None False w1)
             (\<lambda>((ret, image_buf, image_preloaded), w2).
             if ret \<noteq> AVB_SLOT_VERIFY_RESULT_OK then Returned ((ret, slot_data), w2)
             else if length (loaded_partitions slot_data) = MAX_NUMBER_OF_LOADED_PARTITIONS
             then Returned ((AVB_SLOT_VERIFY_RESULT_ERROR_OOM, slot_data), w2)
             else (case avb_strdup (ops_malloc ops) requested w2 of
                 (None, w3) \<Rightarrow> Returned ((AVB_SLOT_VERIFY_RESULT_ERROR_OOM,
                     slot_data\<lparr>loaded_partitions := loaded_partitions slot_data @
                       [\<lparr>pd_partition_name = None, pd_data = None, pd_data_size = 0, pd_preloaded = False\<rparr>]\<rparr>), w3)
               | (Some name, w3) \<Rightarrow>
                   load_requested_loop ops get_size ab_suffix rest
                     (slot_data\<lparr>loaded_partitions := loaded_partitions slot_data @
                       [\<lparr>pd_partition_name = Some name, pd_data = image_buf, pd_data_size = image_size,
                         pd_preloaded = image_preloaded\<rparr>]\<rparr>) w3))))"

definition load_requested_partitions ::
  "'w AvbOps \<Rightarrow> bytes list \<Rightarrow> bytes \<Rightarrow> AvbSlotVerifyData \<Rightarrow> 'w \<Rightarrow>
   ((AvbSlotVerifyResult \<times> AvbSlotVerifyData) \<times> 'w) outcome" where
  "load_requested_partitions ops requested_partitions ab_suffix slot_data w =
     (case get_size_of_partition ops of
        None \<Rightarrow> Returned ((AVB_SLOT_VERIFY_RESULT_ERROR_INVALID_ARGUMENT, slot_data), w)
      | Some get_size \<Rightarrow> load_requested_loop ops get_size ab_suffix requested_partitions slot_data w)"

subsection \<open>A vbmeta image and what it describes\<close>

text \<open>
  What a call of \<open>load_and_verify_vbmeta\<close> writes through its pointer arguments: the slot data,
  the algorithm and the root digests; a pointer that is \<open>NULL\<close> is \<open>None\<close>.
\<close>

record verify_state =
  vs_slot :: AvbSlotVerifyData
  vs_alg :: "u32 option"
  vs_subst :: "AvbCmdlineSubstList option"

text \<open>
  The arguments of the recursive call: flags of the toplevel image, rollback index location
  (an \<open>int\<close>), the memory at the partition name and its length, the memory at the expected key
  and its length.
\<close>

type_synonym 'w load_vbmeta =
  "u32 \<Rightarrow> int \<Rightarrow> bytes \<Rightarrow> nat \<Rightarrow> bytes option \<Rightarrow> u64 \<Rightarrow> verify_state \<Rightarrow> 'w \<Rightarrow>
   ((AvbSlotVerifyResult \<times> verify_state) \<times> 'w) outcome"

definition VBMETA_MAX_SIZE :: nat where
  "VBMETA_MAX_SIZE = 65536"

definition MAX_NUMBER_OF_VBMETA_IMAGES :: nat where
  "MAX_NUMBER_OF_VBMETA_IMAGES = 32"

text \<open>Where the image lies in its partition: at the start, or where the footer says.\<close>

definition locate_vbmeta ::
  "'w AvbOps \<Rightarrow> bytes \<Rightarrow> bool \<Rightarrow> 'w \<Rightarrow> ((AvbSlotVerifyResult + int \<times> nat) \<times> 'w) outcome" where
  "locate_vbmeta ops full_partition_name is_vbmeta_partition w =
     (if is_vbmeta_partition then Returned (Inr (0, VBMETA_MAX_SIZE), w)
      else (case read_from_partition ops full_partition_name (- 64) 64 w of ((io_ret, footer_buf), w1) \<Rightarrow>
        case io_failure io_ret of Some r \<Rightarrow> Returned (Inl r, w1)
        | None \<Rightarrow>
          obind (avb_assert (length footer_buf = 64)) (\<lambda>_.
          obind (avb_footer_validate_and_byteswap footer_buf) (\<lambda>v.
            case v of None \<Rightarrow> Returned (Inl AVB_SLOT_VERIFY_RESULT_ERROR_INVALID_METADATA, w1)
            | Some footer \<Rightarrow>
                if unat (vbmeta_size footer) > VBMETA_MAX_SIZE
                then Returned (Inl AVB_SLOT_VERIFY_RESULT_ERROR_INVALID_METADATA, w1)
                else Returned (Inr (sint (vbmeta_offset footer), unat (vbmeta_size footer)), w1)))))"

text \<open>The verdict on the image: the result and whether the function stops with it.\<close>

definition vbmeta_verdict :: "bool \<Rightarrow> AvbVBMetaVerifyResult \<Rightarrow> AvbSlotVerifyResult \<times> bool" where
  "vbmeta_verdict allow_verification_error vbmeta_ret = (case vbmeta_ret of
     AVB_VBMETA_VERIFY_RESULT_OK \<Rightarrow> (AVB_SLOT_VERIFY_RESULT_OK, False)
   | AVB_VBMETA_VERIFY_RESULT_OK_NOT_SIGNED \<Rightarrow> (AVB_SLOT_VERIFY_RESULT_ERROR_VERIFICATION, \<not> allow_verification_error)
   | AVB_VBMETA_VERIFY_RESULT_HASH_MISMATCH \<Rightarrow> (AVB_SLOT_VERIFY_RESULT_ERROR_VERIFICATION, \<not> allow_verification_error)
   | AVB_VBMETA_VERIFY_RESULT_SIGNATURE_MISMATCH \<Rightarrow> (AVB_SLOT_VERIFY_RESULT_ERROR_VERIFICATION, \<not> allow_verification_error)
   | AVB_VBMETA_VERIFY_RESULT_INVALID_VBMETA_HEADER \<Rightarrow> (AVB_SLOT_VERIFY_RESULT_ERROR_INVALID_METADATA, True)
   | AVB_VBMETA_VERIFY_RESULT_UNSUPPORTED_VERSION \<Rightarrow> (AVB_SLOT_VERIFY_RESULT_ERROR_UNSUPPORTED_VERSION, True))"

text \<open>The key that signed the image: \<open>Inl\<close> stops, \<open>Inr\<close> goes on with the result so far.\<close>

definition check_public_key ::
  "'w AvbOps \<Rightarrow> bool \<Rightarrow> bool \<Rightarrow> AvbVBMetaImageHeader \<Rightarrow> bytes \<Rightarrow> (nat \<times> u64) option \<Rightarrow> bytes option \<Rightarrow> u64 \<Rightarrow>
   AvbSlotVerifyResult \<Rightarrow> 'w \<Rightarrow> ((AvbSlotVerifyResult + AvbSlotVerifyResult) \<times> 'w) outcome" where
  "check_public_key ops allow_verification_error is_main_vbmeta vbmeta_header vbmeta_buf pk
      expected_public_key expected_public_key_length ret w =
     (case pk of None \<Rightarrow> Returned (Inr ret, w)
      | Some (pk_pos, pk_len) \<Rightarrow>
        let rejected = (if allow_verification_error then Inr AVB_SLOT_VERIFY_RESULT_ERROR_PUBLIC_KEY_REJECTED
                        else Inl AVB_SLOT_VERIFY_RESULT_ERROR_PUBLIC_KEY_REJECTED)
        in case expected_public_key of
          Some key \<Rightarrow>
            obind (avb_assert (\<not> is_main_vbmeta)) (\<lambda>_.
              if expected_public_key_length \<noteq> pk_len then Returned (rejected, w)
              else obind (checked (avb_safe_memcmp key (drop pk_pos vbmeta_buf) (unat pk_len))) (\<lambda>r.
                Returned (if r \<noteq> 0 then rejected else Inr ret, w)))
        | None \<Rightarrow>
            let md = 256 + unat (authentication_data_block_size vbmeta_header) +
                     unat (public_key_metadata_offset vbmeta_header);
                md_len = unat (public_key_metadata_size vbmeta_header)
            in obind (avb_assert is_main_vbmeta) (\<lambda>_.
               obind (checked (slice pk_pos (unat pk_len) vbmeta_buf)) (\<lambda>pk_data.
               obind (if md_len > 0 then obind (checked (slice md md_len vbmeta_buf)) (\<lambda>m. Returned (Some m))
                      else Returned None) (\<lambda>pk_metadata.
               (case validate_vbmeta_public_key ops pk_data pk_metadata w of ((io_ret, key_is_trusted), w1) \<Rightarrow>
                case io_failure io_ret of Some r \<Rightarrow> Returned (Inl r, w1)
                | None \<Rightarrow> Returned (if \<not> key_is_trusted then rejected else Inr ret, w1))))))"

text \<open>The rollback index, read at the location converted to \<open>size_t\<close>.\<close>

definition check_rollback_index ::
  "'w AvbOps \<Rightarrow> bool \<Rightarrow> int \<Rightarrow> AvbVBMetaImageHeader \<Rightarrow> AvbSlotVerifyResult \<Rightarrow> 'w \<Rightarrow>
   (AvbSlotVerifyResult + AvbSlotVerifyResult) \<times> 'w" where
  "check_rollback_index ops allow_verification_error rollback_index_location vbmeta_header ret w =
     (case read_rollback_index ops (unat (word_of_int rollback_index_location :: u64)) w of
        ((io_ret, stored_rollback_index), w1) \<Rightarrow>
        (case io_failure io_ret of Some r \<Rightarrow> (Inl r, w1)
         | None \<Rightarrow>
           (if rollback_index vbmeta_header < stored_rollback_index
            then (if \<not> allow_verification_error then Inl AVB_SLOT_VERIFY_RESULT_ERROR_ROLLBACK_INDEX
                  else Inr AVB_SLOT_VERIFY_RESULT_ERROR_ROLLBACK_INDEX)
            else Inr ret, w1)))"

text \<open>One descriptor: the flag says that the function leaves through \<open>out\<close>.\<close>

type_synonym 'w step_result = "((bool \<times> AvbSlotVerifyResult \<times> verify_state) \<times> 'w) outcome"

definition process_hash ::
  "'w AvbOps \<Rightarrow> bytes list \<Rightarrow> bytes \<Rightarrow> bool \<Rightarrow> bytes \<Rightarrow> AvbSlotVerifyResult \<Rightarrow> verify_state \<Rightarrow> 'w \<Rightarrow> 'w step_result" where
  "process_hash ops requested_partitions ab_suffix allow_verification_error descriptor ret st w =
     obind (load_and_verify_hash_partition ops requested_partitions ab_suffix allow_verification_error
              descriptor (vs_slot st) w) (\<lambda>((sub_ret, slot_data), w1).
       let st1 = st\<lparr>vs_slot := slot_data\<rparr>
       in Returned (if sub_ret \<noteq> AVB_SLOT_VERIFY_RESULT_OK
            then (\<not> allow_verification_error \<or> \<not> result_should_continue sub_ret, sub_ret, st1)
            else (False, ret, st1), w1))"

definition process_chain ::
  "'w load_vbmeta \<Rightarrow> bool \<Rightarrow> u32 \<Rightarrow> bytes \<Rightarrow> AvbSlotVerifyResult \<Rightarrow> verify_state \<Rightarrow> 'w \<Rightarrow> 'w step_result" where
  "process_chain rec is_main_vbmeta toplevel_vbmeta_flags descriptor ret st w =
     (if \<not> is_main_vbmeta then Returned ((True, AVB_SLOT_VERIFY_RESULT_ERROR_INVALID_METADATA, st), w)
      else obind (avb_chain_partition_descriptor_validate_and_byteswap descriptor) (\<lambda>v.
        case v of None \<Rightarrow> Returned ((True, AVB_SLOT_VERIFY_RESULT_ERROR_INVALID_METADATA, st), w)
        | Some chain_desc \<Rightarrow>
          if chain_rollback_index_location chain_desc = 0
          then Returned ((True, AVB_SLOT_VERIFY_RESULT_ERROR_INVALID_METADATA, st), w)
          else
            let name_len = unat (chain_partition_name_len chain_desc)
            in obind (rec toplevel_vbmeta_flags (sint (chain_rollback_index_location chain_desc))
                 (drop 92 descriptor) name_len (Some (drop (92 + name_len) descriptor))
                 (ucast (chain_public_key_len chain_desc)) (st\<lparr>vs_alg := None, vs_subst := None\<rparr>) w)
                 (\<lambda>((sub_ret, st'), w1).
               let st1 = st\<lparr>vs_slot := vs_slot st'\<rparr>
               in Returned (if sub_ret \<noteq> AVB_SLOT_VERIFY_RESULT_OK
                    then (\<not> result_should_continue sub_ret, sub_ret, st1)
                    else (False, ret, st1), w1))))"

text \<open>
  A kernel command line is appended as a C string: the buffers are zeroed and read by
  \<open>avb_strlen\<close>, so the text counts up to its first NUL.
\<close>

definition process_kernel_cmdline ::
  "'w alloc \<Rightarrow> u32 \<Rightarrow> bytes \<Rightarrow> AvbSlotVerifyResult \<Rightarrow> verify_state \<Rightarrow> 'w \<Rightarrow> 'w step_result" where
  "process_kernel_cmdline A toplevel_vbmeta_flags descriptor ret st w =
     obind (avb_kernel_cmdline_descriptor_validate_and_byteswap descriptor) (\<lambda>v.
       case v of None \<Rightarrow> Returned ((True, AVB_SLOT_VERIFY_RESULT_ERROR_INVALID_METADATA, st), w)
       | Some kernel_cmdline_desc \<Rightarrow>
         let len = unat (kernel_cmdline_length kernel_cmdline_desc)
         in obind (checked (slice 24 len descriptor)) (\<lambda>kernel_cmdline.
            if \<not> avb_validate_utf8 kernel_cmdline
            then Returned ((True, AVB_SLOT_VERIFY_RESULT_ERROR_INVALID_METADATA, st), w)
            else
              let apply_cmdline = (if toplevel_vbmeta_flags AND 1 \<noteq> 0
                    then kc_flags kernel_cmdline_desc AND 1 = 0
                    else kc_flags kernel_cmdline_desc AND 2 = 0);
                  orig = sd_cmdline (vs_slot st);
                  orig_size = (case orig of None \<Rightarrow> 0 | Some c \<Rightarrow> length c + 1)
              in if \<not> apply_cmdline then Returned ((False, ret, st), w)
                 else (case avb_calloc A (orig_size + len + 1) w of
                     (None, w1) \<Rightarrow> Returned ((True, AVB_SLOT_VERIFY_RESULT_ERROR_OOM, st), w1)
                   | (Some _, w1) \<Rightarrow>
                       let new_cmdline = (case orig of None \<Rightarrow> c_str kernel_cmdline
                             | Some c \<Rightarrow> c @ ascii '' '' @ c_str kernel_cmdline)
                       in Returned ((False, ret,
                            st\<lparr>vs_slot := (vs_slot st)\<lparr>sd_cmdline := Some new_cmdline\<rparr>\<rparr>), w1))))"

definition hashtree_digest_len :: "bytes \<Rightarrow> nat option outcome" where
  "hashtree_digest_len hash_algorithm0 =
     obind (checked (avb_strcmp_eq hash_algorithm0 (ascii ''sha1''))) (\<lambda>is1.
       if is1 then Returned (Some 20)
       else obind (checked (avb_strcmp_eq hash_algorithm0 (ascii ''sha256''))) (\<lambda>is256.
         if is256 then Returned (Some 32)
         else obind (checked (avb_strcmp_eq hash_algorithm0 (ascii ''sha512''))) (\<lambda>is512.
           Returned (if is512 then Some 64 else None))))"

text \<open>
  A hashtree descriptor without a digest: \<open>ret\<close> is overwritten by the result of reading the
  persistent digest, also when it was an error before.
\<close>

definition process_hashtree ::
  "'w AvbOps \<Rightarrow> bytes \<Rightarrow> bytes \<Rightarrow> AvbSlotVerifyResult \<Rightarrow> verify_state \<Rightarrow> 'w \<Rightarrow> 'w step_result" where
  "process_hashtree ops ab_suffix descriptor ret st w =
     obind (avb_hashtree_descriptor_validate_and_byteswap descriptor) (\<lambda>v.
       case v of None \<Rightarrow> Returned ((True, AVB_SLOT_VERIFY_RESULT_ERROR_INVALID_METADATA, st), w)
       | Some hashtree_desc \<Rightarrow>
         if root_digest_len hashtree_desc \<noteq> 0 then Returned ((False, ret, st), w)
         else
           let name_len = unat (ht_partition_name_len hashtree_desc)
           in obind (checked (slice 180 name_len descriptor)) (\<lambda>desc_partition_name.
              if \<not> avb_validate_utf8 desc_partition_name
              then Returned ((True, AVB_SLOT_VERIFY_RESULT_ERROR_INVALID_METADATA, st), w)
              else if ht_flags hashtree_desc AND 1 = 0 \<and> length ab_suffix \<noteq> 0
              then Returned ((True, AVB_SLOT_VERIFY_RESULT_ERROR_INVALID_METADATA, st), w)
              else if name_len \<ge> 32
              then Returned ((True, AVB_SLOT_VERIFY_RESULT_ERROR_INVALID_METADATA, st), w)
              else
                let part_name = c_str desc_partition_name
                in obind (hashtree_digest_len (ht_hash_algorithm hashtree_desc)) (\<lambda>dl.
                   case dl of None \<Rightarrow> Returned ((True, AVB_SLOT_VERIFY_RESULT_ERROR_INVALID_METADATA, st), w)
                   | Some digest_len \<Rightarrow>
                     obind (read_persistent_digest ops part_name digest_len w) (\<lambda>(d, w1).
                       case d of Inl r \<Rightarrow> Returned ((True, r, st), w1)
                       | Inr digest_buf \<Rightarrow>
                         (case vs_subst st of
                            None \<Rightarrow> Returned ((False, AVB_SLOT_VERIFY_RESULT_OK, st), w1)
                          | Some subst \<Rightarrow>
                            obind (avb_add_root_digest_substitution (ops_malloc ops) part_name digest_buf subst w1)
                              (\<lambda>((r, subst'), w2).
                              Returned ((r \<noteq> AVB_SLOT_VERIFY_RESULT_OK, r, st\<lparr>vs_subst := Some subst'\<rparr>), w2)))))))"

definition process_descriptor ::
  "'w load_vbmeta \<Rightarrow> 'w AvbOps \<Rightarrow> bytes list \<Rightarrow> bytes \<Rightarrow> bool \<Rightarrow> bool \<Rightarrow> u32 \<Rightarrow> bytes \<Rightarrow>
   AvbSlotVerifyResult \<Rightarrow> verify_state \<Rightarrow> 'w \<Rightarrow> 'w step_result" where
  "process_descriptor rec ops requested_partitions ab_suffix allow_verification_error is_main_vbmeta
      toplevel_vbmeta_flags descriptor ret st w =
     obind (avb_descriptor_validate_and_byteswap descriptor) (\<lambda>(ok, desc).
       if \<not> ok then Returned ((True, AVB_SLOT_VERIFY_RESULT_ERROR_INVALID_METADATA, st), w)
       else if tag desc = AVB_DESCRIPTOR_TAG_HASH
       then process_hash ops requested_partitions ab_suffix allow_verification_error descriptor ret st w
       else if tag desc = AVB_DESCRIPTOR_TAG_CHAIN_PARTITION
       then process_chain rec is_main_vbmeta toplevel_vbmeta_flags descriptor ret st w
       else if tag desc = AVB_DESCRIPTOR_TAG_KERNEL_CMDLINE
       then process_kernel_cmdline (ops_malloc ops) toplevel_vbmeta_flags descriptor ret st w
       else if tag desc = AVB_DESCRIPTOR_TAG_HASHTREE
       then process_hashtree ops ab_suffix descriptor ret st w
       else Returned ((False, ret, st), w))"

fun process_descriptors ::
  "(bytes \<Rightarrow> AvbSlotVerifyResult \<Rightarrow> verify_state \<Rightarrow> 'w \<Rightarrow> 'w step_result) \<Rightarrow> bytes \<Rightarrow> nat list \<Rightarrow>
   AvbSlotVerifyResult \<Rightarrow> verify_state \<Rightarrow> 'w \<Rightarrow> 'w step_result" where
  "process_descriptors f vbmeta_buf [] ret st w = Returned ((False, ret, st), w)"
| "process_descriptors f vbmeta_buf (d # ds) ret st w =
     obind (f (drop d vbmeta_buf) ret st w) (\<lambda>((stop, ret', st'), w').
       if stop then Returned ((True, ret', st'), w')
       else process_descriptors f vbmeta_buf ds ret' st' w')"

text \<open>
  \<open>avb_descriptor_get_all\<close> sets the number of descriptors only when it succeeds; otherwise the
  loop runs to whatever the stack held, over a null array.
\<close>

definition vbmeta_descriptors :: "'w AvbOps \<Rightarrow> bytes \<Rightarrow> 'w \<Rightarrow> (nat list \<times> 'w) outcome" where
  "vbmeta_descriptors ops vbmeta_buf w =
     obind (avb_descriptor_get_all (ops_malloc ops) (length vbmeta_buf) (ops_address ops w) (Some vbmeta_buf) w)
       (\<lambda>(descriptors, w1).
         case descriptors of Some ds \<Rightarrow> Returned (ds, w1)
         | None \<Rightarrow> if ops_stack_size ops w1 = 0 then Returned ([], w1) else Faulted)"

text \<open>After the loop: the rollback index of the image and, at the top level, its algorithm.\<close>

definition store_rollback_index ::
  "int \<Rightarrow> AvbVBMetaImageHeader \<Rightarrow> AvbSlotVerifyResult \<Rightarrow> verify_state \<Rightarrow> (AvbSlotVerifyResult \<times> verify_state) outcome" where
  "store_rollback_index rollback_index_location vbmeta_header ret st =
     (if rollback_index_location \<ge> 32 then Returned (AVB_SLOT_VERIFY_RESULT_ERROR_INVALID_METADATA, st)
      else if rollback_index_location < 0 then Faulted
      else Returned (ret, st\<lparr>
        vs_slot := (vs_slot st)\<lparr>rollback_indexes :=
          (rollback_indexes (vs_slot st))[nat rollback_index_location := rollback_index vbmeta_header]\<rparr>,
        vs_alg := map_option (\<lambda>_. algorithm_type vbmeta_header) (vs_alg st)\<rparr>))"

text \<open>A verified image enters the slot data before its descriptors are processed.\<close>

definition keep_vbmeta_image ::
  "'w alloc \<Rightarrow> bool \<Rightarrow> bytes \<Rightarrow> bytes \<Rightarrow> AvbVBMetaImageHeader \<Rightarrow> AvbVBMetaVerifyResult \<Rightarrow> verify_state \<Rightarrow> 'w \<Rightarrow>
   (verify_state option \<times> 'w) outcome" where
  "keep_vbmeta_image A is_main_vbmeta partition_name vbmeta_buf vbmeta_header vbmeta_ret st w =
     (let images = vbmeta_images (vs_slot st) in
      obind (avb_assert (if is_main_vbmeta then length images = 0 else length images > 0)) (\<lambda>_.
        if length images = MAX_NUMBER_OF_VBMETA_IMAGES then Returned (None, w)
        else obind (checked (c_read partition_name)) (\<lambda>name.
          case avb_strdup A name w of (copy, w1) \<Rightarrow>
            Returned (Some (st\<lparr>vs_slot := (vs_slot st)\<lparr>vbmeta_images := images @
              [\<lparr>vm_partition_name = copy, vbmeta_data = vbmeta_buf,
                vm_size = 256 + authentication_data_block_size vbmeta_header +
                          auxiliary_data_block_size vbmeta_header,
                verify_result = vbmeta_ret\<rparr>]\<rparr>\<rparr>), w1))))"

text \<open>
  What follows a successful read of the image: verification, key, rollback index, and the
  descriptors, unless verification is disabled by a flag of the image.
\<close>

definition verify_loaded_vbmeta ::
  "'w load_vbmeta \<Rightarrow> 'w AvbOps \<Rightarrow> bytes list \<Rightarrow> bytes \<Rightarrow> bool \<Rightarrow> u32 \<Rightarrow> int \<Rightarrow> bytes \<Rightarrow> bytes option \<Rightarrow> u64 \<Rightarrow>
   bytes \<Rightarrow> verify_state \<Rightarrow> 'w \<Rightarrow> ((AvbSlotVerifyResult \<times> verify_state) \<times> 'w) outcome" where
  "verify_loaded_vbmeta rec ops requested_partitions ab_suffix allow_verification_error toplevel_vbmeta_flags0
      rollback_index_location partition_name expected_public_key expected_public_key_length vbmeta_buf st w =
     (let is_main_vbmeta = (rollback_index_location = 0) in
      obind (avb_vbmeta_image_verify (ops_malloc ops) (ops_stack ops w) (ops_address ops w) vbmeta_buf w)
        (\<lambda>(vbmeta_ret, pk, w1).
      obind (avb_assert (vbmeta_ret = AVB_VBMETA_VERIFY_RESULT_OK \<longrightarrow> pk \<noteq> None \<and> snd (the pk) > 0)) (\<lambda>_.
      let (ret1, stop) = vbmeta_verdict allow_verification_error vbmeta_ret in
      if stop then Returned ((ret1, st), w1)
      else obind (avb_vbmeta_image_header_to_host_byte_order vbmeta_buf) (\<lambda>vbmeta_header.
        if \<not> is_main_vbmeta \<and> vb_flags vbmeta_header \<noteq> 0
        then Returned ((AVB_SLOT_VERIFY_RESULT_ERROR_INVALID_METADATA, st), w1)
        else
          let toplevel_vbmeta_flags = (if is_main_vbmeta then vb_flags vbmeta_header else toplevel_vbmeta_flags0)
          in obind (check_public_key ops allow_verification_error is_main_vbmeta vbmeta_header vbmeta_buf pk
                 expected_public_key expected_public_key_length ret1 w1) (\<lambda>(v2, w2).
             case v2 of Inl r \<Rightarrow> Returned ((r, st), w2)
             | Inr ret2 \<Rightarrow>
               (case check_rollback_index ops allow_verification_error rollback_index_location vbmeta_header ret2 w2 of
                  (Inl r, w3) \<Rightarrow> Returned ((r, st), w3)
                | (Inr ret3, w3) \<Rightarrow>
                  obind (keep_vbmeta_image (ops_malloc ops) is_main_vbmeta partition_name vbmeta_buf vbmeta_header
                           vbmeta_ret st w3) (\<lambda>(v4, w4).
                    case v4 of None \<Rightarrow> Returned ((AVB_SLOT_VERIFY_RESULT_ERROR_OOM, st), w4)
                    | Some st4 \<Rightarrow>
                      if vb_flags vbmeta_header AND 2 \<noteq> 0
                      then obind (load_requested_partitions ops requested_partitions ab_suffix (vs_slot st4) w4)
                             (\<lambda>((sub_ret, slot_data), w5).
                             Returned ((if sub_ret \<noteq> AVB_SLOT_VERIFY_RESULT_OK then sub_ret else ret3,
                                        st4\<lparr>vs_slot := slot_data\<rparr>), w5))
                      else obind (vbmeta_descriptors ops vbmeta_buf w4) (\<lambda>(descriptors, w5).
                           obind (process_descriptors
                             (process_descriptor rec ops requested_partitions ab_suffix allow_verification_error
                                is_main_vbmeta toplevel_vbmeta_flags) vbmeta_buf descriptors ret3 st4 w5)
                             (\<lambda>((stop, ret5, st5), w6).
                             if stop then Returned ((ret5, st5), w6)
                             else obind (store_rollback_index rollback_index_location vbmeta_header ret5 st5)
                               (\<lambda>(ret6, st6). Returned ((ret6, st6), w6)))))))))))"

definition load_and_verify_vbmeta_body ::
  "'w load_vbmeta \<Rightarrow> 'w AvbOps \<Rightarrow> bytes list \<Rightarrow> bytes \<Rightarrow> bool \<Rightarrow> 'w load_vbmeta" where
  "load_and_verify_vbmeta_body rec ops requested_partitions ab_suffix allow_verification_error
      toplevel_vbmeta_flags rollback_index_location partition_name partition_name_len
      expected_public_key expected_public_key_length st w =
     obind (checked (avb_strcmp_eq partition_name (ascii ''vbmeta''))) (\<lambda>is_vbmeta_partition.
     obind (checked (slice 0 partition_name_len partition_name)) (\<lambda>name.
       if \<not> avb_validate_utf8 name then Returned ((AVB_SLOT_VERIFY_RESULT_ERROR_INVALID_METADATA, st), w)
       else case part_name_concat name ab_suffix of
         None \<Rightarrow> Returned ((AVB_SLOT_VERIFY_RESULT_ERROR_INVALID_METADATA, st), w)
       | Some full_partition_name \<Rightarrow>
         obind (locate_vbmeta ops full_partition_name is_vbmeta_partition w) (\<lambda>(v1, w1).
           case v1 of Inl r \<Rightarrow> Returned ((r, st), w1)
           | Inr (offset, size0) \<Rightarrow>
             (let (ok, w2) = avb_malloc (ops_malloc ops) size0 w1
              in if \<not> ok then Returned ((AVB_SLOT_VERIFY_RESULT_ERROR_OOM, st), w2)
                 else (case read_from_partition ops full_partition_name offset size0 w2 of
                   ((io_ret, vbmeta_buf), w3) \<Rightarrow>
                     if io_ret = AVB_IO_RESULT_ERROR_OOM
                     then Returned ((AVB_SLOT_VERIFY_RESULT_ERROR_OOM, st), w3)
                     else if io_ret \<noteq> AVB_IO_RESULT_OK
                     then (if rollback_index_location = 0 \<and> io_ret = AVB_IO_RESULT_ERROR_NO_SUCH_PARTITION \<and>
                              is_vbmeta_partition
                           then rec 0 0 (ascii ''boot'' @ [0]) 4 None 0 st w3
                           else Returned ((AVB_SLOT_VERIFY_RESULT_ERROR_IO, st), w3))
                     else obind (avb_assert (length vbmeta_buf \<le> size0)) (\<lambda>_.
                       verify_loaded_vbmeta rec ops requested_partitions ab_suffix allow_verification_error
                         toplevel_vbmeta_flags rollback_index_location partition_name
                         expected_public_key expected_public_key_length vbmeta_buf st w3))))))"

text \<open>
  The recursion of the function is bounded: the top level falls back to the boot partition at
  most once, and only the top level follows chain descriptors.  The first argument bounds the
  number of nested calls; three are enough (\<open>load_depth\<close> below).
\<close>

fun load_and_verify_vbmeta ::
  "nat \<Rightarrow> 'w AvbOps \<Rightarrow> bytes list \<Rightarrow> bytes \<Rightarrow> bool \<Rightarrow> 'w load_vbmeta" where
  "load_and_verify_vbmeta 0 ops requested_partitions ab_suffix allow_verification_error =
     (\<lambda>_ _ _ _ _ _ _ _. Unfinished)"
| "load_and_verify_vbmeta (Suc depth) ops requested_partitions ab_suffix allow_verification_error =
     load_and_verify_vbmeta_body
       (load_and_verify_vbmeta depth ops requested_partitions ab_suffix allow_verification_error)
       ops requested_partitions ab_suffix allow_verification_error"

subsection \<open>The slot\<close>

text \<open>
  After the images: names, options and substitutions of the command line.  \<open>Inl\<close> is a jump to
  \<open>fail\<close>.
\<close>

definition mangle_cmdline ::
  "'w AvbOps \<Rightarrow> bytes \<Rightarrow> AvbHashtreeErrorMode \<Rightarrow> u32 \<Rightarrow> AvbCmdlineSubstList option \<Rightarrow> AvbSlotVerifyData \<Rightarrow> 'w \<Rightarrow>
   ((AvbSlotVerifyResult + AvbSlotVerifyData) \<times> 'w) outcome" where
  "mangle_cmdline ops ab_suffix hashtree_error_mode alg subst slot_data w =
     (case vbmeta_images slot_data of
        [] \<Rightarrow> Faulted
      | image0 # _ \<Rightarrow>
        obind (checked (vm_partition_name image0)) (\<lambda>name0.
        obind (avb_assert (name0 = ascii ''vbmeta'' \<or> name0 = ascii ''boot'')) (\<lambda>_.
        obind (avb_vbmeta_image_header_to_host_byte_order (vbmeta_data image0)) (\<lambda>toplevel_vbmeta.
          case avb_strdup (ops_malloc ops) ab_suffix w of
            (None, w1) \<Rightarrow> Returned (Inl AVB_SLOT_VERIFY_RESULT_ERROR_OOM, w1)
          | (Some suffix0, w1) \<Rightarrow>
            let using_boot_for_vbmeta = (name0 \<noteq> ascii ''vbmeta'');
                sd1 = slot_data\<lparr>sd_ab_suffix := Some suffix0\<rparr>
            in obind
              (if vb_flags toplevel_vbmeta AND 2 \<noteq> 0
               then obind (avb_assert (sd_cmdline sd1 = None)) (\<lambda>_.
                 Returned (case avb_strdup (ops_malloc ops) (ascii ''root=PARTUUID=$(ANDROID_SYSTEM_PARTUUID)'') w1 of
                     (None, w2) \<Rightarrow> (Inl AVB_SLOT_VERIFY_RESULT_ERROR_OOM, w2)
                   | (Some c, w2) \<Rightarrow> (Inr (sd1\<lparr>sd_cmdline := Some c\<rparr>), w2)))
               else obind (avb_append_options ops sd1 toplevel_vbmeta alg hashtree_error_mode w1)
                 (\<lambda>((sub_ret, sd2), w2).
                 Returned (if sub_ret \<noteq> AVB_SLOT_VERIFY_RESULT_OK then Inl sub_ret else Inr sd2, w2)))
              (\<lambda>(v, w2). case v of Inl r \<Rightarrow> Returned (Inl r, w2)
                | Inr sd2 \<Rightarrow> Returned (case sd_cmdline sd2 of
                      None \<Rightarrow> (Inr sd2, w2)
                    | Some c \<Rightarrow>
                        (case avb_sub_cmdline ops c ab_suffix using_boot_for_vbmeta subst w2 of
                           (None, w3) \<Rightarrow> (Inl AVB_SLOT_VERIFY_RESULT_ERROR_OOM, w3)
                         | (Some new_cmdline, w3) \<Rightarrow> (Inr (sd2\<lparr>sd_cmdline := Some new_cmdline\<rparr>), w3))))))))"

text \<open>The four allocations at the start.\<close>

fun allocations :: "'w alloc \<Rightarrow> nat list \<Rightarrow> 'w \<Rightarrow> bool \<times> 'w" where
  "allocations A [] w = (True, w)"
| "allocations A (n # ns) w =
     (case avb_calloc A n w of (None, w1) \<Rightarrow> (False, w1) | (Some _, w1) \<Rightarrow> allocations A ns w1)"

definition slot_allocation_sizes :: "nat list" where
  "slot_allocation_sizes = [304, 32 * 32, 32 * 32, 168]"

text \<open>
  The result and, when it is set, the data handed out; \<open>want_data\<close> says that \<open>out_data\<close> is not
  \<open>NULL\<close>.  The assertions on the operations hold by the type of \<open>AvbOps\<close>.
\<close>

definition avb_slot_verify ::
  "'w AvbOps \<Rightarrow> bytes list \<Rightarrow> bytes \<Rightarrow> u32 \<Rightarrow> AvbHashtreeErrorMode \<Rightarrow> bool \<Rightarrow> 'w \<Rightarrow>
   ((AvbSlotVerifyResult \<times> AvbSlotVerifyData option) \<times> 'w) outcome" where
  "avb_slot_verify ops requested_partitions ab_suffix flags hashtree_error_mode want_data w =
     (let allow_verification_error = (flags AND 1 \<noteq> 0) in
      if hashtree_error_mode = AVB_HASHTREE_ERROR_MODE_LOGGING \<and> \<not> allow_verification_error
      then Returned ((AVB_SLOT_VERIFY_RESULT_ERROR_INVALID_ARGUMENT, None), w)
      else case allocations (ops_malloc ops) slot_allocation_sizes w of
        (False, w1) \<Rightarrow> Returned ((AVB_SLOT_VERIFY_RESULT_ERROR_OOM, None), w1)
      | (True, w1) \<Rightarrow>
        obind (load_and_verify_vbmeta 3 ops requested_partitions ab_suffix allow_verification_error
                 0 0 (ascii ''vbmeta'' @ [0]) 6 None 0
                 \<lparr>vs_slot = empty_slot_data, vs_alg = Some 0, vs_subst = Some []\<rparr> w1) (\<lambda>((ret, st), w2).
          if \<not> allow_verification_error \<and> ret \<noteq> AVB_SLOT_VERIFY_RESULT_OK
          then Returned ((ret, None), w2)
          else if \<not> result_should_continue ret then Returned ((ret, None), w2)
          else obind (mangle_cmdline ops ab_suffix hashtree_error_mode (the (vs_alg st)) (vs_subst st)
                        (vs_slot st) w2) (\<lambda>(v, w3).
            case v of Inl r \<Rightarrow> Returned ((r, None), w3)
            | Inr slot_data \<Rightarrow> Returned ((ret, if want_data then Some slot_data else None), w3))))"

end
