(* ===== verification/AvbSlotTrust.thy ===== *)
theory AvbSlotTrust
  imports AvbSlotVerify
begin

text \<open>
  What verification of a slot guarantees.  The locale \<open>slot_relation\<close> states one law for every
  operation that touches the slot data; its conclusion, that a whole call of
  \<open>load_and_verify_vbmeta\<close> respects the relation, is proved once and used twice: for the chain of
  trust of the vbmeta images, and for the contents of the loaded partitions.
\<close>

subsection \<open>What every step keeps\<close>

lemma memcmp_loop_bounds: "memcmp_loop r s1 s2 n = Some r' \<Longrightarrow> n \<le> length s1 \<and> n \<le> length s2"
  by (induction r s1 s2 n rule: memcmp_loop.induct) auto

lemma avb_safe_memcmp_zero:
  assumes "avb_safe_memcmp s1 s2 n = Some 0"
  shows "n \<le> length s1" "n \<le> length s2" "take n s1 = take n s2"
proof -
  show b: "n \<le> length s1" "n \<le> length s2"
    using assms memcmp_loop_bounds by (auto simp: avb_safe_memcmp_def split: if_splits)
  show "take n s1 = take n s2"
    using avb_safe_memcmp_eq [OF b] assms by (simp split: if_splits)
qed

lemma load_full_partition_OK:
  assumes "load_full_partition ops part_name image_size None False w = Returned ((ret, buf, pre), w')"
  shows "ret = AVB_SLOT_VERIFY_RESULT_OK \<Longrightarrow> \<exists>img. buf = Some img \<and> length img = unat image_size"
    "ret \<in> {AVB_SLOT_VERIFY_RESULT_OK, AVB_SLOT_VERIFY_RESULT_ERROR_OOM, AVB_SLOT_VERIFY_RESULT_ERROR_IO}"
  using assms
  by (auto simp: load_full_partition_def io_failure_def Let_def
      split: prod.splits option.splits if_splits)

lemma keep_loaded_partition_cases:
  assumes "keep_loaded_partition A ret found size0 buf pre sd w = ((r, sd'), w')"
  obtains "sd' = sd" "r \<noteq> AVB_SLOT_VERIFY_RESULT_OK \<or> r = ret \<and> buf = None"
  | name where "buf \<noteq> None" "r = ret" "sd' = sd\<lparr>loaded_partitions := loaded_partitions sd @
        [\<lparr>pd_partition_name = name, pd_data = buf, pd_data_size = size0, pd_preloaded = pre\<rparr>]\<rparr>"
  using assms
  by (auto simp: keep_loaded_partition_def result_should_continue_def split: if_splits prod.splits)

text \<open>A partition whose contents have the digest that a hash descriptor of some image demands.\<close>

definition digest_checked :: "bytes \<Rightarrow> bytes \<Rightarrow> bool" where
  "digest_checked descriptor img \<longleftrightarrow>
     (\<exists>hash_desc st digest.
        avb_hash_descriptor_validate_and_byteswap descriptor = Returned (Some hash_desc) \<and>
        hash_image_digest st hash_desc (drop (132 + unat (hash_partition_name_len hash_desc)) descriptor) img =
          Returned (Some digest) \<and>
        length digest = unat (hash_digest_len hash_desc) \<and>
        slice (132 + unat (hash_partition_name_len hash_desc) + unat (hash_salt_len hash_desc)) (length digest)
          descriptor = Some digest)"

lemma slice_memcmp:
  assumes "avb_safe_memcmp digest (drop off mem) (length digest) = Some 0"
  shows "slice off (length digest) mem = Some digest \<or> digest = []"
proof (cases "digest = []")
  case False
  then have "0 < length digest" by simp
  moreover have "length digest \<le> length mem - off" using avb_safe_memcmp_zero(2) [OF assms] by simp
  ultimately have "off + length digest \<le> length mem" by linarith
  with avb_safe_memcmp_zero(3) [OF assms] show ?thesis by (simp add: slice_def)
qed simp

lemma read_persistent_digest_None:
  "read_persistent_value ops = None \<Longrightarrow>
     read_persistent_digest ops name n w = Returned (Inl AVB_SLOT_VERIFY_RESULT_ERROR_INVALID_METADATA, w)"
  by (simp add: read_persistent_digest_def)

lemma read_persistent_digest_Inl:
  "read_persistent_digest ops name n w = Returned (Inl r, w') \<Longrightarrow> r \<noteq> AVB_SLOT_VERIFY_RESULT_OK"
  by (auto simp: read_persistent_digest_def obind_Returned_iff split_def
      split: option.splits if_splits)

lemma hash_compare_OK:
  assumes "hash_compare ops part_name hdesc desc_digest digest w = Returned (AVB_SLOT_VERIFY_RESULT_OK, w')"
    and "read_persistent_value ops = None"
  shows "length digest = unat (hash_digest_len hdesc)" "hash_digest_len hdesc \<noteq> 0"
    "avb_safe_memcmp digest desc_digest (length digest) = Some 0"
proof -
  show nz: "hash_digest_len hdesc \<noteq> 0"
    using assms by (auto simp: hash_compare_def read_persistent_digest_None obind_Returned_iff)
  then have "(if length digest \<noteq> unat (hash_digest_len hdesc)
      then Returned (AVB_SLOT_VERIFY_RESULT_ERROR_INVALID_METADATA, w)
      else obind (checked (avb_safe_memcmp digest desc_digest (length digest))) (\<lambda>r.
        Returned (if r \<noteq> 0 then AVB_SLOT_VERIFY_RESULT_ERROR_VERIFICATION
                  else AVB_SLOT_VERIFY_RESULT_OK, w))) = Returned (AVB_SLOT_VERIFY_RESULT_OK, w')"
    using assms(1) by (simp add: hash_compare_def Let_def)
  then show "length digest = unat (hash_digest_len hdesc)"
    "avb_safe_memcmp digest desc_digest (length digest) = Some 0"
    by (auto simp: obind_Returned_iff split: if_splits)
qed

text \<open>What loading adds to the slot data, and that a partition loaded with \<open>OK\<close> was checked.\<close>

definition adds_checked :: "'w AvbOps \<Rightarrow> bytes \<Rightarrow> AvbSlotVerifyResult \<Rightarrow> AvbSlotVerifyData \<Rightarrow> AvbSlotVerifyData \<Rightarrow> bool" where
  "adds_checked ops mem r sd sd' \<longleftrightarrow>
     (\<exists>parts. sd' = sd\<lparr>loaded_partitions := loaded_partitions sd @ parts\<rparr> \<and>
       (r = AVB_SLOT_VERIFY_RESULT_OK \<and> read_persistent_value ops = None \<longrightarrow>
         (\<forall>p \<in> set parts. \<exists>img. pd_data p = Some img \<and> digest_checked mem img)))"

lemma adds_checked_refl [simp]: "adds_checked ops mem r sd sd"
  unfolding adds_checked_def by (intro exI [of _ "[]"]) simp

lemma keep_adds_checked:
  assumes "keep_loaded_partition A ret found size0 buf pre sd w = ((r, sd'), w')"
    and "\<And>img. buf = Some img \<Longrightarrow> ret = AVB_SLOT_VERIFY_RESULT_OK \<Longrightarrow> read_persistent_value ops = None \<Longrightarrow>
      digest_checked mem img"
  shows "adds_checked ops mem r sd sd'"
  using assms(1)
proof (cases rule: keep_loaded_partition_cases)
  case (2 name)
  with assms(2) show ?thesis unfolding adds_checked_def by auto
qed simp

lemma load_and_compare_adds_checked:
  assumes v: "avb_hash_descriptor_validate_and_byteswap mem = Returned (Some hdesc)"
    and call: "load_and_compare_hash_image ops hdesc mem found part_name size0 sd w = Returned ((r, sd'), w')"
  shows "adds_checked ops mem r sd sd'"
proof -
  let ?n = "132 + unat (hash_partition_name_len hdesc)" and ?s = "unat (hash_salt_len hdesc)"
  obtain ret buf pre w1 where load: "load_full_partition ops part_name size0 None False w = Returned ((ret, buf, pre), w1)"
    using call by (auto simp: load_and_compare_hash_image_def obind_Returned_iff Let_def)
  show ?thesis
  proof (cases "ret = AVB_SLOT_VERIFY_RESULT_OK")
    case False
    with call load have "keep_loaded_partition (ops_malloc ops) ret found size0 buf pre sd w1 = ((r, sd'), w')"
      by (simp add: load_and_compare_hash_image_def)
    then show ?thesis by (rule keep_adds_checked) (use False in simp)
  next
    case True
    then obtain digest ret2 w2 where
      d: "hash_image_digest (ops_stack ops w1) hdesc (drop ?n mem) (the buf) = Returned digest" and
      c: "(case digest of None \<Rightarrow> Returned (AVB_SLOT_VERIFY_RESULT_ERROR_INVALID_METADATA, w1)
           | Some d \<Rightarrow> hash_compare ops part_name hdesc (drop ?s (drop ?n mem)) d w1) = Returned (ret2, w2)" and
      k: "keep_loaded_partition (ops_malloc ops) ret2 found size0 buf pre sd w2 = ((r, sd'), w')"
      using call load by (auto simp: load_and_compare_hash_image_def obind_Returned_iff Let_def)
    from k show ?thesis
    proof (rule keep_adds_checked)
      fix img
      assume img: "buf = Some img" and ok: "ret2 = AVB_SLOT_VERIFY_RESULT_OK" and np: "read_persistent_value ops = None"
      from ok c obtain dg where dg: "digest = Some dg"
        "hash_compare ops part_name hdesc (drop ?s (drop ?n mem)) dg w1 = Returned (AVB_SLOT_VERIFY_RESULT_OK, w2)"
        by (auto split: option.splits)
      note cmp = hash_compare_OK [OF dg(2) np]
      have "dg \<noteq> []" using cmp(1,2) by (auto simp: unat_eq_0)
      moreover have "drop ?s (drop ?n mem) = drop (?n + ?s) mem" by (simp add: add.commute)
      ultimately have "slice (?n + ?s) (length dg) mem = Some dg" using slice_memcmp cmp(3) by metis
      with v d dg(1) cmp(1) img show "digest_checked mem img"
        unfolding digest_checked_def by (intro exI [of _ hdesc] exI [of _ "ops_stack ops w1"] exI [of _ dg]) simp
    qed
  qed
qed

lemma load_and_verify_hash_partition_effect:
  assumes call: "load_and_verify_hash_partition ops req suf allow mem sd w = Returned ((r, sd'), w')"
  shows "adds_checked ops mem r sd sd'"
proof -
  obtain v where v: "avb_hash_descriptor_validate_and_byteswap mem = Returned v"
    using call by (auto simp: load_and_verify_hash_partition_def obind_Returned_iff)
  show ?thesis
  proof (cases v)
    case None
    with call v show ?thesis by (simp add: load_and_verify_hash_partition_def)
  next
    case (Some hdesc)
    note v = v [unfolded Some]
    from call have "sd' = sd \<or>
        (\<exists>found part_name size0 w1. load_and_compare_hash_image ops hdesc mem found part_name size0 sd w1 = Returned ((r, sd'), w'))"
      unfolding load_and_verify_hash_partition_def v obind.simps option.case Let_def
      by (auto simp: obind_Returned_iff split: if_splits option.splits prod.splits sum.splits)
    with load_and_compare_adds_checked [OF v] show ?thesis by auto
  qed
qed

subsection \<open>Relations that verification respects\<close>

text \<open>
  An image that was accepted without verification errors allowed: libavb found the hash and the
  signature right for the key, and the stored rollback index does not exceed the image's.
\<close>

definition image_accepted :: "'w AvbOps \<Rightarrow> bytes \<Rightarrow> AvbVBMetaData \<Rightarrow> bool" where
  "image_accepted ops key im \<longleftrightarrow>
     (\<exists>w1 pos len w2 h loc w3 stored w4.
        avb_vbmeta_image_verify (ops_malloc ops) (ops_stack ops w1) (ops_address ops w1) (vbmeta_data im) w1 =
          Returned (AVB_VBMETA_VERIFY_RESULT_OK, Some (pos, len), w2) \<and>
        slice pos (unat len) (vbmeta_data im) = Some key \<and>
        avb_vbmeta_image_header_to_host_byte_order (vbmeta_data im) = Returned h \<and>
        read_rollback_index ops loc w3 = ((AVB_IO_RESULT_OK, stored), w4) \<and> stored \<le> rollback_index h)"

definition key_trusted :: "'w AvbOps \<Rightarrow> bytes \<Rightarrow> bool" where
  "key_trusted ops key \<longleftrightarrow>
     (\<exists>md w w'. validate_vbmeta_public_key ops key md w = ((AVB_IO_RESULT_OK, True), w'))"

definition key_of_chain :: "AvbVBMetaData list \<Rightarrow> bytes \<Rightarrow> bool" where
  "key_of_chain images key \<longleftrightarrow>
     images \<noteq> [] \<and> (\<exists>off. slice off (length key) (vbmeta_data (hd images)) = Some key)"

definition verification_disabled :: "AvbVBMetaData \<Rightarrow> bool" where
  "verification_disabled im \<longleftrightarrow>
     (\<exists>h. avb_vbmeta_image_header_to_host_byte_order (vbmeta_data im) = Returned h \<and> vb_flags h AND 2 \<noteq> 0)"

text \<open>
  \<open>rel r sd sd'\<close> relates the slot data before and after a stretch of verification that ended with
  the result \<open>r\<close>.  The laws are one per operation that touches the slot data; what follows from
  them is that a whole call of \<open>load_and_verify_vbmeta\<close> is so related.
\<close>

locale slot_relation =
  fixes ops :: "'w AvbOps" and requested_partitions :: "bytes list" and ab_suffix :: bytes
    and rel :: "AvbSlotVerifyResult \<Rightarrow> AvbSlotVerifyData \<Rightarrow> AvbSlotVerifyData \<Rightarrow> bool"
  assumes rel_refl: "rel r sd sd"
    and rel_seq: "rel r1 sd sd1 \<Longrightarrow> rel r2 sd1 sd2 \<Longrightarrow>
      (r = AVB_SLOT_VERIFY_RESULT_OK \<Longrightarrow> r1 = AVB_SLOT_VERIFY_RESULT_OK \<and> r2 = AVB_SLOT_VERIFY_RESULT_OK) \<Longrightarrow>
      rel r sd sd2"
    and rel_images: "rel r sd sd' \<Longrightarrow> \<exists>extra. vbmeta_images sd' = vbmeta_images sd @ extra"
    and rel_cmdline: "rel r sd (sd\<lparr>sd_cmdline := c\<rparr>)"
    and rel_rollback: "rel r sd (sd\<lparr>rollback_indexes := idx\<rparr>)"
    and rel_persistent: "read_persistent_value ops \<noteq> None \<Longrightarrow> rel r sd sd' \<Longrightarrow> rel r' sd sd'"
    and rel_hash: "im \<in> set (vbmeta_images sd) \<Longrightarrow>
      load_and_verify_hash_partition ops requested_partitions ab_suffix False (drop off (vbmeta_data im)) sd w =
        Returned ((r, sd'), w') \<Longrightarrow> rel r sd sd'"
    and rel_requested: "im \<in> set (vbmeta_images sd) \<Longrightarrow> verification_disabled im \<Longrightarrow>
      load_requested_partitions ops requested_partitions ab_suffix sd w = Returned ((r, sd'), w') \<Longrightarrow> rel r sd sd'"
    and rel_image: "image_accepted ops key im \<Longrightarrow>
      (if vbmeta_images sd = [] then key_trusted ops key else key_of_chain (vbmeta_images sd) key) \<Longrightarrow>
      rel r sd (sd\<lparr>vbmeta_images := vbmeta_images sd @ [im]\<rparr>)"
begin

lemma rel_error: "rel r sd sd' \<Longrightarrow> r' \<noteq> AVB_SLOT_VERIFY_RESULT_OK \<Longrightarrow> rel r' sd sd'"
  by (rule rel_seq [OF _ rel_refl [of r']]) simp_all

lemma rel_then: "rel r sd sd1 \<Longrightarrow> rel r sd1 sd2 \<Longrightarrow> rel r sd sd2"
  by (rule rel_seq [of r sd sd1 r sd2 r]) simp_all

text \<open>What is known of an expected key: it points into the first image.\<close>

definition expected_key_ok :: "bytes option \<Rightarrow> AvbSlotVerifyData \<Rightarrow> bool" where
  "expected_key_ok ekey sd \<longleftrightarrow> (case ekey of None \<Rightarrow> True
     | Some k \<Rightarrow> vbmeta_images sd \<noteq> [] \<and> (\<exists>off. k = drop off (vbmeta_data (hd (vbmeta_images sd)))))"

definition load_related :: "'w load_vbmeta \<Rightarrow> bool" where
  "load_related rec \<longleftrightarrow> (\<forall>flags loc name n ekey elen st w r st' w'.
     rec flags loc name n ekey elen st w = Returned ((r, st'), w') \<longrightarrow> expected_key_ok ekey (vs_slot st) \<longrightarrow>
     rel r (vs_slot st) (vs_slot st'))"

lemma load_relatedD:
  "load_related rec \<Longrightarrow> rec flags loc name n ekey elen st w = Returned ((r, st'), w') \<Longrightarrow>
     expected_key_ok ekey (vs_slot st) \<Longrightarrow> rel r (vs_slot st) (vs_slot st')"
  unfolding load_related_def by blast

text \<open>One descriptor: the relation is carried from the start of the loop.\<close>

lemma hash_related:
  assumes "im \<in> set (vbmeta_images (vs_slot st))" and "rel ret sd0 (vs_slot st)"
  shows "ensures (\<lambda>((stop, ret', st'), w'). rel ret' sd0 (vs_slot st'))
    (process_hash ops requested_partitions ab_suffix False (drop off (vbmeta_data im)) ret st w)"
proof -
  have "rel (if r \<noteq> AVB_SLOT_VERIFY_RESULT_OK then r else ret) sd0 sd"
    if "load_and_verify_hash_partition ops requested_partitions ab_suffix False
      (drop off (vbmeta_data im)) (vs_slot st) w = Returned ((r, sd), w1)" for r sd w1
    using rel_seq [OF assms(2) rel_hash [OF assms(1) that]] by auto
  then show ?thesis
    by (auto simp: process_hash_def Let_def intro!: ensures_obindI split: if_splits)
qed

lemma chain_related:
  assumes "main \<Longrightarrow> vbmeta_images (vs_slot st) \<noteq> [] \<and> buf = vbmeta_data (hd (vbmeta_images (vs_slot st)))"
    and "rel ret sd0 (vs_slot st)" and "load_related rec"
  shows "ensures (\<lambda>((stop, ret', st'), w'). rel ret' sd0 (vs_slot st'))
    (process_chain rec main flags (drop off buf) ret st w)"
proof -
  have sub: "rel (if r \<noteq> AVB_SLOT_VERIFY_RESULT_OK then r else ret) sd0 (vs_slot st1)"
    if main and "rec fl loc nm n (Some (drop m buf)) elen (st\<lparr>vs_alg := None, vs_subst := None\<rparr>) w =
      Returned ((r, st1), w1)" for fl loc nm n m elen r st1 w1
  proof -
    have "expected_key_ok (Some (drop m buf)) (vs_slot (st\<lparr>vs_alg := None, vs_subst := None\<rparr>))"
      using assms(1) [OF \<open>main\<close>] by (auto simp: expected_key_ok_def)
    from load_relatedD [OF assms(3) that(2) this] have "rel r (vs_slot st) (vs_slot st1)" by simp
    from rel_seq [OF assms(2) this] show ?thesis by auto
  qed
  then have sub1: "rel r sd0 (vs_slot st1)"
    if main and "rec fl loc nm n (Some (drop m buf)) elen (st\<lparr>vs_alg := None, vs_subst := None\<rparr>) w =
      Returned ((r, st1), w1)" "r \<noteq> AVB_SLOT_VERIFY_RESULT_OK" for fl loc nm n m elen r st1 w1
    using that by fastforce
  have sub2: "rel ret sd0 (vs_slot st1)"
    if main and "rec fl loc nm n (Some (drop m buf)) elen (st\<lparr>vs_alg := None, vs_subst := None\<rparr>) w =
      Returned ((AVB_SLOT_VERIFY_RESULT_OK, st1), w1)" for fl loc nm n m elen st1 w1
    using sub [OF that] by simp
  show ?thesis
    using rel_error [OF assms(2)] sub1 sub2 unfolding process_chain_def Let_def
    by (auto intro!: ensures_obindI split: option.split)
qed

lemma cmdline_related:
  assumes "rel ret sd0 (vs_slot st)"
  shows "ensures (\<lambda>((stop, ret', st'), w'). rel ret' sd0 (vs_slot st')) (process_kernel_cmdline A flags mem ret st w)"
  using assms rel_error [OF assms] rel_then [OF assms rel_cmdline]
  by (auto simp: process_kernel_cmdline_def Let_def intro!: ensures_obindI split: option.split prod.split)

lemma hashtree_related:
  assumes "rel ret sd0 (vs_slot st)"
  shows "ensures (\<lambda>((stop, ret', st'), w'). rel ret' sd0 (vs_slot st')) (process_hashtree ops ab_suffix mem ret st w)"
proof (cases "read_persistent_value ops")
  case None
  with assms rel_error [OF assms] show ?thesis
    by (auto simp: process_hashtree_def Let_def read_persistent_digest_None intro!: ensures_obindI split: option.split)
next
  case (Some f)
  then have "rel r sd0 (vs_slot st)" for r using rel_persistent [OF _ assms] by simp
  then show ?thesis
    by (auto simp: process_hashtree_def Let_def intro!: ensures_obindI split: option.split sum.split)
qed

lemma descriptor_related:
  assumes "im \<in> set (vbmeta_images (vs_slot st))"
    and "main \<Longrightarrow> vbmeta_data im = vbmeta_data (hd (vbmeta_images (vs_slot st)))"
    and "rel ret sd0 (vs_slot st)" and "load_related rec"
  shows "ensures (\<lambda>((stop, ret', st'), w'). rel ret' sd0 (vs_slot st'))
    (process_descriptor rec ops requested_partitions ab_suffix False main flags (drop d (vbmeta_data im)) ret st w)"
proof -
  have ne: "vbmeta_images (vs_slot st) \<noteq> []" using assms(1) by auto
  have chain: "ensures (\<lambda>((stop, ret', st'), w'). rel ret' sd0 (vs_slot st'))
      (process_chain rec main flags (drop d (vbmeta_data im)) ret st w)"
    using assms(2) ne by (intro chain_related assms(3,4)) simp
  show ?thesis
    unfolding process_descriptor_def
    using assms(3) rel_error [OF assms(3)] hash_related [OF assms(1,3)] chain
      cmdline_related [OF assms(3)] hashtree_related [OF assms(3)]
    by (auto intro!: ensures_obindI)
qed

lemma descriptors_related:
  assumes "im \<in> set (vbmeta_images sd0)" and "main \<Longrightarrow> vbmeta_data im = vbmeta_data (hd (vbmeta_images sd0))"
    and "rel ret sd0 (vs_slot st)" and "load_related rec"
  shows "ensures (\<lambda>((stop, ret', st'), w'). rel ret' sd0 (vs_slot st'))
    (process_descriptors (process_descriptor rec ops requested_partitions ab_suffix False main flags)
       (vbmeta_data im) ds ret st w)"
  using assms(3)
proof (induction ds arbitrary: ret st w)
  case Nil
  then show ?case by simp
next
  case (Cons d ds)
  obtain extra where extra: "vbmeta_images (vs_slot st) = vbmeta_images sd0 @ extra"
    using rel_images [OF Cons.prems] by blast
  have "im \<in> set (vbmeta_images (vs_slot st))"
    "main \<Longrightarrow> vbmeta_data im = vbmeta_data (hd (vbmeta_images (vs_slot st)))"
    using assms(1,2) extra by (auto simp: hd_append)
  note step = descriptor_related [OF this Cons.prems assms(4), of main flags d w]
  show ?case
    unfolding process_descriptors.simps
    using step Cons.IH by (intro ensures_obindI) (auto dest!: ensuresD split: prod.split)
qed

lemma public_key_inr:
  assumes "check_public_key ops False main h buf (Some (pos, len)) ekey elen AVB_SLOT_VERIFY_RESULT_OK w =
      Returned (Inr ret, w')" and "expected_key_ok ekey sd"
    and "main \<longleftrightarrow> vbmeta_images sd = []" and "0 < len"
  shows "ret = AVB_SLOT_VERIFY_RESULT_OK"
    "\<exists>key. slice pos (unat len) buf = Some key \<and>
      (if vbmeta_images sd = [] then key_trusted ops key else key_of_chain (vbmeta_images sd) key)"
proof -
  have "ret = AVB_SLOT_VERIFY_RESULT_OK \<and> (\<exists>key. slice pos (unat len) buf = Some key \<and>
      (if vbmeta_images sd = [] then key_trusted ops key else key_of_chain (vbmeta_images sd) key))"
  proof (cases ekey)
    case None
    then have "main" "ret = AVB_SLOT_VERIFY_RESULT_OK"
      "\<exists>key md w'. slice pos (unat len) buf = Some key \<and>
         validate_vbmeta_public_key ops key md w = ((AVB_IO_RESULT_OK, True), w')"
      using assms(1)
      by (auto simp: check_public_key_def obind_Returned_iff Let_def io_failure_def split_def prod_eq_iff
          split: if_splits option.splits)
    with assms(3) show ?thesis by (auto simp: key_trusted_def)
  next
    case (Some k)
    then have c: "\<not> main" "ret = AVB_SLOT_VERIFY_RESULT_OK"
      "avb_safe_memcmp k (drop pos buf) (unat len) = Some 0"
      using assms(1) by (auto simp: check_public_key_def obind_Returned_iff Let_def split: if_splits)
    from Some assms(2) obtain off where ne: "vbmeta_images sd \<noteq> []"
      and k: "k = drop off (vbmeta_data (hd (vbmeta_images sd)))" by (auto simp: expected_key_ok_def)
    note m = avb_safe_memcmp_zero [OF c(3)]
    have "pos + unat len \<le> length buf" "off + unat len \<le> length (vbmeta_data (hd (vbmeta_images sd)))"
    proof -
      have "0 < unat len" using assms(4) by (simp add: word_less_nat_alt)
      moreover have "unat len \<le> length buf - pos" "unat len \<le> length (vbmeta_data (hd (vbmeta_images sd))) - off"
        using m(1,2) k by simp_all
      ultimately show "pos + unat len \<le> length buf" "off + unat len \<le> length (vbmeta_data (hd (vbmeta_images sd)))"
        by linarith+
    qed
    with m(3) k have "slice pos (unat len) buf = Some (take (unat len) k)"
      "slice off (unat len) (vbmeta_data (hd (vbmeta_images sd))) = Some (take (unat len) k)"
      by (simp_all add: slice_def)
    moreover have "length (take (unat len) k) = unat len" using m(1) by simp
    ultimately show ?thesis using c ne unfolding key_of_chain_def by auto
  qed
  then show "ret = AVB_SLOT_VERIFY_RESULT_OK"
    "\<exists>key. slice pos (unat len) buf = Some key \<and>
      (if vbmeta_images sd = [] then key_trusted ops key else key_of_chain (vbmeta_images sd) key)" by blast+
qed

lemma rollback_inr:
  assumes "check_rollback_index ops False loc h ret w = (Inr ret', w')"
  shows "ret' = ret" "\<exists>n w stored w'. read_rollback_index ops n w = ((AVB_IO_RESULT_OK, stored), w') \<and> stored \<le> rollback_index h"
proof -
  obtain io stored w1 where r: "read_rollback_index ops (unat (word_of_int loc :: u64)) w = ((io, stored), w1)"
    by (metis surj_pair)
  with assms have io: "io = AVB_IO_RESULT_OK" and le: "\<not> rollback_index h < stored" "ret' = ret"
    by (auto simp: check_rollback_index_def io_failure_def split: if_splits)
  show "ret' = ret" by fact
  from le have "stored \<le> rollback_index h" by simp
  with r io show "\<exists>n w stored w'. read_rollback_index ops n w = ((AVB_IO_RESULT_OK, stored), w') \<and> stored \<le> rollback_index h"
    by blast
qed

lemma keep_vbmeta_image_Some:
  assumes "keep_vbmeta_image A main name buf h vret st w = Returned (Some st', w')"
  shows "\<exists>im. vbmeta_data im = buf \<and> vs_slot st' = (vs_slot st)\<lparr>vbmeta_images := vbmeta_images (vs_slot st) @ [im]\<rparr>"
    "main \<longleftrightarrow> vbmeta_images (vs_slot st) = []"
proof -
  let ?im = "\<lambda>copy. \<lparr>vm_partition_name = copy, vbmeta_data = buf,
      vm_size = 256 + authentication_data_block_size h + auxiliary_data_block_size h, verify_result = vret\<rparr>"
  obtain copy where "st' = st\<lparr>vs_slot := (vs_slot st)\<lparr>vbmeta_images := vbmeta_images (vs_slot st) @ [?im copy]\<rparr>\<rparr>"
    using assms by (auto simp: keep_vbmeta_image_def obind_Returned_iff Let_def split_def split: if_splits)
  then show "\<exists>im. vbmeta_data im = buf \<and> vs_slot st' = (vs_slot st)\<lparr>vbmeta_images := vbmeta_images (vs_slot st) @ [im]\<rparr>"
    by (intro exI [of _ "?im copy"]) simp
  show "main \<longleftrightarrow> vbmeta_images (vs_slot st) = []"
    using assms by (auto simp: keep_vbmeta_image_def obind_Returned_iff Let_def split: if_splits)
qed

lemma verify_loaded_related:
  assumes "load_related rec" and key: "expected_key_ok ekey (vs_slot st)"
  shows "ensures (\<lambda>((r, st'), w'). rel r (vs_slot st) (vs_slot st'))
    (verify_loaded_vbmeta rec ops requested_partitions ab_suffix False flags0 loc name ekey elen buf st w)"
proof (rule ensuresI, clarify)
  fix r st' w'
  let ?sd = "vs_slot st" and ?main = "loc = 0"
  assume call: "verify_loaded_vbmeta rec ops requested_partitions ab_suffix False flags0 loc name ekey elen buf st w =
    Returned ((r, st'), w')"
  show "rel r ?sd (vs_slot st')"
  proof (cases "st' = st")
    case True
    then show ?thesis using rel_refl by simp
  next
    case False
    obtain vret pk w1 h where v: "avb_vbmeta_image_verify (ops_malloc ops) (ops_stack ops w) (ops_address ops w) buf w =
        Returned (vret, pk, w1)"
      and as: "vret = AVB_VBMETA_VERIFY_RESULT_OK \<longrightarrow> pk \<noteq> None \<and> snd (the pk) > 0"
      and nostop: "\<not> snd (vbmeta_verdict False vret)"
      and h: "avb_vbmeta_image_header_to_host_byte_order buf = Returned h"
      and nf: "\<not> (\<not> ?main \<and> vb_flags h \<noteq> 0)"
      using call False
      by (auto simp: verify_loaded_vbmeta_def obind_Returned_iff Let_def split_def split: if_splits)
    have vret: "vret = AVB_VBMETA_VERIFY_RESULT_OK"
      using nostop by (cases vret) (simp_all add: vbmeta_verdict_def)
    then obtain pos len where pk: "pk = Some (pos, len)" "0 < len" using as by auto
    let ?flags = "if ?main then vb_flags h else flags0"
    have verdict: "vbmeta_verdict False AVB_VBMETA_VERIFY_RESULT_OK = (AVB_SLOT_VERIFY_RESULT_OK, False)"
      by (simp add: vbmeta_verdict_def)
    note call = call [unfolded verify_loaded_vbmeta_def Let_def]
    obtain v2 w2 where "check_public_key ops False ?main h buf (Some (pos, len)) ekey elen AVB_SLOT_VERIFY_RESULT_OK w1 =
        Returned (v2, w2)"
      using call v vret h nf pk by (auto simp: verdict obind_Returned_iff)
    moreover from this obtain ret2 where "v2 = Inr ret2"
      using call v vret h nf pk False by (cases v2) (simp_all add: verdict)
    ultimately have c2: "check_public_key ops False ?main h buf (Some (pos, len)) ekey elen AVB_SLOT_VERIFY_RESULT_OK w1 =
        Returned (Inr ret2, w2)" by simp
    obtain v3 w3 where "check_rollback_index ops False loc h ret2 w2 = (v3, w3)" by (metis surj_pair)
    moreover from this obtain ret3 where "v3 = Inr ret3"
      using call v vret h nf pk c2 False by (cases v3) (simp_all add: verdict)
    ultimately have c3: "check_rollback_index ops False loc h ret2 w2 = (Inr ret3, w3)" by simp
    obtain v4 w4 where "keep_vbmeta_image (ops_malloc ops) ?main name buf h vret st w3 = Returned (v4, w4)"
      using call v vret h nf pk c2 c3 by (auto simp: verdict obind_Returned_iff)
    moreover from this obtain st4 where "v4 = Some st4"
      using call v vret h nf pk c2 c3 False by (cases v4) (simp_all add: verdict)
    ultimately have c4: "keep_vbmeta_image (ops_malloc ops) ?main name buf h vret st w3 = Returned (Some st4, w4)" by simp
    from keep_vbmeta_image_Some [OF c4] obtain im where im: "vbmeta_data im = buf" "vs_slot st4 = ?sd\<lparr>vbmeta_images := vbmeta_images ?sd @ [im]\<rparr>"
      and main: "?main \<longleftrightarrow> vbmeta_images ?sd = []"
      by blast
    note key = public_key_inr [OF c2 key main pk(2)]
    then obtain kb where kb: "slice pos (unat len) buf = Some kb"
      "if vbmeta_images ?sd = [] then key_trusted ops kb else key_of_chain (vbmeta_images ?sd) kb" by blast
    note roll = rollback_inr [OF c3]
    have "image_accepted ops kb im"
      unfolding image_accepted_def im(1) using v vret pk kb(1) h roll(2) by blast
    from rel_image [OF this kb(2)] have kept: "rel r ?sd (vs_slot st4)" for r by (simp add: im(2))
    have in4: "im \<in> set (vbmeta_images (vs_slot st4))" by (simp add: im(2))
    have main4: "?main \<Longrightarrow> vbmeta_data im = vbmeta_data (hd (vbmeta_images (vs_slot st4)))"
      using main by (simp add: im(2))
    show ?thesis
    proof (cases "vb_flags h AND 2 = 0")
      case False
      then obtain sub_ret sd where req: "load_requested_partitions ops requested_partitions ab_suffix (vs_slot st4) w4 =
          Returned ((sub_ret, sd), w')"
        and res: "r = (if sub_ret \<noteq> AVB_SLOT_VERIFY_RESULT_OK then sub_ret else ret3)" "vs_slot st' = sd"
        using call v vret h nf pk c2 c3 c4
        by (auto simp: verdict obind_Returned_iff)
      have "verification_disabled im" using h False by (auto simp: verification_disabled_def im(1))
      from rel_requested [OF in4 this req] have "rel sub_ret (vs_slot st4) sd" .
      from rel_seq [OF kept this] show ?thesis using res by auto
    next
      case True
      obtain ds w5 where c5: "vbmeta_descriptors ops buf w4 = Returned (ds, w5)"
        using call True v vret h nf pk c2 c3 c4
        by (auto simp: verdict obind_Returned_iff)
      obtain stop ret5 st5 w6 where c6: "process_descriptors (process_descriptor rec ops requested_partitions ab_suffix False
          ?main ?flags) buf ds ret3 st4 w5 = Returned ((stop, ret5, st5), w6)"
        and fin: "if stop then r = ret5 \<and> st' = st5 else store_rollback_index loc h ret5 st5 = Returned (r, st')"
        using call True v vret h nf pk c2 c3 c4 c5
        by (auto simp: verdict obind_Returned_iff split: if_splits)
      have "rel ret5 (vs_slot st4) (vs_slot st5)"
        using ensuresD [OF descriptors_related [OF in4 main4 rel_refl assms(1)]] c6 im(1) by fastforce
      then have r5: "rel ret5 ?sd (vs_slot st5)" by (rule rel_then [OF kept])
      show ?thesis
      proof (cases stop)
        case True
        with fin r5 show ?thesis by simp
      next
        case False
        with fin consider "r \<noteq> AVB_SLOT_VERIFY_RESULT_OK" "st' = st5"
          | idx where "r = ret5" "vs_slot st' = (vs_slot st5)\<lparr>rollback_indexes := idx\<rparr>"
          by (auto simp: store_rollback_index_def split: if_splits)
        then show ?thesis
          using rel_error [OF r5] rel_then [OF r5 rel_rollback] by cases simp_all
      qed
    qed
  qed
qed

lemma body_related:
  assumes "load_related rec"
  shows "load_related (load_and_verify_vbmeta_body rec ops requested_partitions ab_suffix False)"
proof -
  have "ensures (\<lambda>((r, st'), w'). rel r (vs_slot st) (vs_slot st'))
      (load_and_verify_vbmeta_body rec ops requested_partitions ab_suffix False flags loc name n ekey elen st w)"
    if key: "expected_key_ok ekey (vs_slot st)" for flags loc name n ekey elen st w
  proof -
    have boot: "ensures (\<lambda>((r, st'), w'). rel r (vs_slot st) (vs_slot st')) (rec 0 0 nm 4 None 0 st w)" for nm w
      using load_relatedD [OF assms] by (auto intro!: ensuresI simp: expected_key_ok_def)
    show ?thesis
      unfolding load_and_verify_vbmeta_body_def
      using rel_refl boot verify_loaded_related [OF assms key]
      by (auto intro!: ensures_obindI simp: Let_def split: option.split sum.split prod.split)
  qed
  then show ?thesis unfolding load_related_def ensures_def by fastforce
qed

lemma load_and_verify_vbmeta_related:
  "load_related (load_and_verify_vbmeta depth ops requested_partitions ab_suffix False)"
proof (induction depth)
  case 0
  show ?case by (simp add: load_related_def)
next
  case (Suc depth)
  then show ?case by (simp add: body_related)
qed

end

subsection \<open>The chain of trust\<close>

definition trust_chain :: "'w AvbOps \<Rightarrow> AvbVBMetaData list \<Rightarrow> bool" where
  "trust_chain ops images \<longleftrightarrow>
     (images \<noteq> [] \<longrightarrow> (\<exists>key. image_accepted ops key (hd images) \<and> key_trusted ops key)) \<and>
     (\<forall>im \<in> set (tl images). \<exists>key. image_accepted ops key im \<and> key_of_chain images key)"

definition trust_rel :: "'w AvbOps \<Rightarrow> AvbSlotVerifyResult \<Rightarrow> AvbSlotVerifyData \<Rightarrow> AvbSlotVerifyData \<Rightarrow> bool" where
  "trust_rel ops r sd sd' \<longleftrightarrow>
     (\<exists>extra. vbmeta_images sd' = vbmeta_images sd @ extra) \<and>
     (trust_chain ops (vbmeta_images sd) \<longrightarrow> trust_chain ops (vbmeta_images sd'))"

lemma load_requested_loop_effect:
  "load_requested_loop ops get_size suf names sd w = Returned ((r, sd'), w') \<Longrightarrow>
     \<exists>parts. sd' = sd\<lparr>loaded_partitions := loaded_partitions sd @ parts\<rparr>"
proof (induction names arbitrary: sd w)
  case Nil
  then show ?case by (intro exI [of _ "[]"]) simp
next
  case (Cons name rest)
  have same: "\<exists>parts. sd = sd\<lparr>loaded_partitions := loaded_partitions sd @ parts\<rparr>"
    by (intro exI [of _ "[]"]) simp
  have extra: "\<exists>parts. sd\<lparr>loaded_partitions := (loaded_partitions sd @ [p]) @ ps\<rparr> =
      sd\<lparr>loaded_partitions := loaded_partitions sd @ parts\<rparr>" for p ps
    by (intro exI [of _ "p # ps"]) simp
  show ?case
  proof (cases "part_name_concat name suf")
    case None
    with Cons.prems same show ?thesis by simp
  next
    case (Some part_name)
    obtain io size0 w1 where g: "get_size part_name w = ((io, size0), w1)" by (metis surj_pair)
    show ?thesis
    proof (cases "io_failure io")
      case (Some e)
      with Cons.prems \<open>part_name_concat name suf = Some part_name\<close> g same show ?thesis by simp
    next
      case None
      with Cons.prems Some g obtain ret buf pre w2 where
        l: "load_full_partition ops part_name size0 None False w1 = Returned ((ret, buf, pre), w2)"
        by (auto simp: obind_Returned_iff)
      obtain n w3 where d: "avb_strdup (ops_malloc ops) name w2 = (n, w3)" by (metis surj_pair)
      note call = Cons.prems [unfolded load_requested_loop.simps Some g None l d option.case prod.case obind.simps]
      show ?thesis
      proof (cases "ret \<noteq> AVB_SLOT_VERIFY_RESULT_OK \<or> length (loaded_partitions sd) = MAX_NUMBER_OF_LOADED_PARTITIONS")
        case True
        with call same show ?thesis by (auto split: if_splits)
      next
        case False
        show ?thesis
        proof (cases n)
          case None
          with call False show ?thesis by auto
        next
          case (Some nm)
          with call False have "load_requested_loop ops get_size suf rest (sd\<lparr>loaded_partitions := loaded_partitions sd @
              [\<lparr>pd_partition_name = Some nm, pd_data = buf, pd_data_size = size0, pd_preloaded = pre\<rparr>]\<rparr>) w3 =
              Returned ((r, sd'), w')" by simp
          from Cons.IH [OF this] extra show ?thesis by auto
        qed
      qed
    qed
  qed
qed

lemma load_requested_effect:
  "load_requested_partitions ops req suf sd w = Returned ((r, sd'), w') \<Longrightarrow>
     \<exists>parts. sd' = sd\<lparr>loaded_partitions := loaded_partitions sd @ parts\<rparr>"
  by (cases "get_size_of_partition ops")
    (auto simp: load_requested_partitions_def intro: load_requested_loop_effect exI [of _ "[]"])

lemma trust_chain_append:
  assumes "trust_chain ops images" "image_accepted ops key im"
    and "if images = [] then key_trusted ops key else key_of_chain images key"
  shows "trust_chain ops (images @ [im])"
proof (cases images)
  case Nil
  with assms show ?thesis by (auto simp: trust_chain_def)
next
  case (Cons i ims)
  have "key_of_chain images k = key_of_chain (images @ [im]) k" for k
    by (simp add: key_of_chain_def Cons)
  with assms Cons show ?thesis by (auto simp: trust_chain_def)
qed

lemma trust_rel_images_same: "vbmeta_images (sd' :: AvbSlotVerifyData) = vbmeta_images (sd :: AvbSlotVerifyData) \<Longrightarrow> trust_rel ops r sd sd'"
  by (simp add: trust_rel_def)

interpretation trust: slot_relation ops requested_partitions ab_suffix "trust_rel ops"
  for ops :: "'w AvbOps" and requested_partitions ab_suffix
proof
  fix r r1 r2 sd sd1 sd2
  assume "trust_rel ops r1 sd sd1" "trust_rel ops r2 sd1 sd2"
  then show "trust_rel ops r sd sd2" by (auto simp: trust_rel_def)
next
  fix im off w r w' and sd sd' :: AvbSlotVerifyData
  assume "load_and_verify_hash_partition ops requested_partitions ab_suffix False (drop off (vbmeta_data im)) sd w =
    Returned ((r, sd'), w')"
  from load_and_verify_hash_partition_effect [OF this] show "trust_rel ops r sd sd'"
    by (auto simp: adds_checked_def intro: trust_rel_images_same)
next
  fix im w r w' and sd sd' :: AvbSlotVerifyData
  assume "load_requested_partitions ops requested_partitions ab_suffix sd w = Returned ((r, sd'), w')"
  from load_requested_effect [OF this] show "trust_rel ops r sd sd'"
    by (auto intro: trust_rel_images_same)
next
  fix key im r and sd :: AvbSlotVerifyData
  assume "image_accepted ops key im"
    "if vbmeta_images sd = [] then key_trusted ops key else key_of_chain (vbmeta_images sd) key"
  then show "trust_rel ops r sd (sd\<lparr>vbmeta_images := vbmeta_images sd @ [im]\<rparr>)"
    by (simp add: trust_rel_def trust_chain_append)
qed (auto simp: trust_rel_def)

subsection \<open>The contents of the loaded partitions\<close>

definition partition_checked :: "AvbVBMetaData list \<Rightarrow> AvbPartitionData \<Rightarrow> bool" where
  "partition_checked images p \<longleftrightarrow>
     (\<exists>im \<in> set images. \<exists>off img. pd_data p = Some img \<and> digest_checked (drop off (vbmeta_data im)) img)"

definition partition_rel :: "'w AvbOps \<Rightarrow> AvbSlotVerifyResult \<Rightarrow> AvbSlotVerifyData \<Rightarrow> AvbSlotVerifyData \<Rightarrow> bool" where
  "partition_rel ops r sd sd' \<longleftrightarrow>
     (\<exists>extra. vbmeta_images sd' = vbmeta_images sd @ extra) \<and>
     (\<exists>parts. loaded_partitions sd' = loaded_partitions sd @ parts \<and>
       (r = AVB_SLOT_VERIFY_RESULT_OK \<and> read_persistent_value ops = None \<and>
          (\<forall>im \<in> set (vbmeta_images sd'). \<not> verification_disabled im) \<longrightarrow>
        (\<forall>p \<in> set parts. partition_checked (vbmeta_images sd') p)))"

lemma partition_checked_more: "partition_checked images p \<Longrightarrow> partition_checked (images @ extra) p"
  by (auto simp: partition_checked_def)

lemma partition_rel_same:
  "vbmeta_images (sd' :: AvbSlotVerifyData) = vbmeta_images (sd :: AvbSlotVerifyData) @ extra \<Longrightarrow>
     loaded_partitions sd' = loaded_partitions sd \<Longrightarrow>
     partition_rel ops r sd sd'"
  by (auto simp: partition_rel_def)

interpretation contents: slot_relation ops requested_partitions ab_suffix "partition_rel ops"
  for ops :: "'w AvbOps" and requested_partitions ab_suffix
proof
  fix r1 r2 r sd sd1 sd2
  assume 1: "partition_rel ops r1 sd sd1" and 2: "partition_rel ops r2 sd1 sd2"
    and r: "r = AVB_SLOT_VERIFY_RESULT_OK \<Longrightarrow> r1 = AVB_SLOT_VERIFY_RESULT_OK \<and> r2 = AVB_SLOT_VERIFY_RESULT_OK"
  from 1 2 obtain more1 more2 parts1 parts2 where
    im: "vbmeta_images sd1 = vbmeta_images sd @ more1" "vbmeta_images sd2 = vbmeta_images sd1 @ more2" and
    p: "loaded_partitions sd1 = loaded_partitions sd @ parts1" "loaded_partitions sd2 = loaded_partitions sd1 @ parts2" and
    c1: "r1 = AVB_SLOT_VERIFY_RESULT_OK \<Longrightarrow> read_persistent_value ops = None \<Longrightarrow>
        \<forall>im \<in> set (vbmeta_images sd1). \<not> verification_disabled im \<Longrightarrow> \<forall>p \<in> set parts1. partition_checked (vbmeta_images sd1) p" and
    c2: "r2 = AVB_SLOT_VERIFY_RESULT_OK \<Longrightarrow> read_persistent_value ops = None \<Longrightarrow>
        \<forall>im \<in> set (vbmeta_images sd2). \<not> verification_disabled im \<Longrightarrow> \<forall>p \<in> set parts2. partition_checked (vbmeta_images sd2) p"
    unfolding partition_rel_def by blast
  have "\<forall>p \<in> set (parts1 @ parts2). partition_checked (vbmeta_images sd2) p"
    if "r = AVB_SLOT_VERIFY_RESULT_OK" "read_persistent_value ops = None"
      "\<forall>im \<in> set (vbmeta_images sd2). \<not> verification_disabled im"
  proof -
    from that(3) im(2) have "\<forall>im \<in> set (vbmeta_images sd1). \<not> verification_disabled im" by simp
    with c1 c2 r that im(2) show ?thesis by (auto intro: partition_checked_more)
  qed
  with im p show "partition_rel ops r sd sd2"
    unfolding partition_rel_def by (intro conjI exI [of _ "more1 @ more2"] exI [of _ "parts1 @ parts2"]) auto
next
  fix im off w r w' and sd sd' :: AvbSlotVerifyData
  assume im: "im \<in> set (vbmeta_images sd)" and
    call: "load_and_verify_hash_partition ops requested_partitions ab_suffix False (drop off (vbmeta_data im)) sd w =
      Returned ((r, sd'), w')"
  from load_and_verify_hash_partition_effect [OF call] im show "partition_rel ops r sd sd'"
    unfolding adds_checked_def partition_rel_def partition_checked_def by fastforce
next
  fix im w r w' and sd sd' :: AvbSlotVerifyData
  assume "im \<in> set (vbmeta_images sd)" "verification_disabled im"
    and call: "load_requested_partitions ops requested_partitions ab_suffix sd w = Returned ((r, sd'), w')"
  with load_requested_effect [OF call] show "partition_rel ops r sd sd'"
    by (auto simp: partition_rel_def)
qed (auto simp: partition_rel_def)

subsection \<open>The whole slot\<close>

text \<open>Building the command line leaves images and partitions alone.\<close>

definition same_slot :: "AvbSlotVerifyData \<Rightarrow> AvbSlotVerifyData \<Rightarrow> bool" where
  "same_slot sd sd' \<longleftrightarrow>
     vbmeta_images sd' = vbmeta_images sd \<and> loaded_partitions sd' = loaded_partitions sd \<and>
     rollback_indexes sd' = rollback_indexes sd \<and> sd_ab_suffix sd' = sd_ab_suffix sd"

lemma same_slot_simps [simp]:
  "same_slot sd sd" "same_slot sd (sd'\<lparr>sd_cmdline := c\<rparr>) = same_slot sd sd'"
  by (simp_all add: same_slot_def)

lemma append_option_same: "same_slot sd sd' \<Longrightarrow> same_slot sd (snd (fst (cmdline_append_option A sd' k v w)))"
  by (simp add: append_option_text split_def Let_def)

lemma appends_same:
  "same_slot sd sd' \<Longrightarrow> same_slot sd (snd (fst (cmdline_append_version A sd' k x y w)))"
  "same_slot sd sd' \<Longrightarrow> same_slot sd (snd (fst (cmdline_append_uint64_base10 A sd' k x w)))"
  "same_slot sd sd' \<Longrightarrow> same_slot sd (snd (fst (cmdline_append_hex A sd' k d w)))"
  by (simp_all add: cmdline_append_version_def cmdline_append_uint64_base10_def cmdline_append_hex_def
      append_option_same split: prod.split option.split)

lemma then_append_same:
  assumes "same_slot sd (snd (fst st))"
    and "\<And>sd' w. same_slot sd sd' \<Longrightarrow> same_slot sd (snd (fst (f sd' w)))"
  shows "same_slot sd (snd (fst (then_append st f)))"
  using assms by (auto simp: then_append_def split: prod.split) (metis fst_conv snd_conv)

lemma replace_verity_same:
  "same_slot sd (snd (fst st)) \<Longrightarrow> same_slot sd (snd (fst (replace_verity_mode A dm m st)))"
  by (auto simp: replace_verity_mode_def append_option_same intro!: then_append_same
      split: prod.split option.split)

lemma append_verity_same:
  "same_slot sd (snd (fst st)) \<Longrightarrow> same_slot sd (snd (fst (append_verity A dis mode st)))"
  by (cases mode) (auto simp: append_verity_def intro!: then_append_same replace_verity_same append_option_same)

lemma append_device_state_same:
  "same_slot sd (snd (fst st)) \<Longrightarrow> same_slot sd (snd (fst (append_device_state ops st)))"
  by (auto simp: append_device_state_def append_option_same intro!: then_append_same split: prod.split)

lemma append_digest_same:
  "same_slot sd (snd (fst st)) \<Longrightarrow> same_slot sd (snd (fst (append_digest A alg n d st)))"
  unfolding append_digest_def by (intro then_append_same append_option_same appends_same)

lemma append_options_same:
  "ensures (\<lambda>st. same_slot sd (snd (fst st))) (avb_append_options ops sd h alg mode w)"
proof -
  have start: "same_slot sd (snd (fst (append_device_state ops (then_append
      (then_append ((AVB_SLOT_VERIFY_RESULT_OK, sd), w)
        (\<lambda>sd. cmdline_append_option (ops_malloc ops) sd k v))
      (\<lambda>sd. cmdline_append_version (ops_malloc ops) sd k' 1 1)))))" for k v k'
    by (intro append_device_state_same then_append_same append_option_same appends_same) simp_all
  have digest: "ensures (\<lambda>st. same_slot sd (snd (fst st))) (append_vbmeta_digest ops alg st)"
    if "same_slot sd (snd (fst st))" for st
    using that append_digest_same
    by (auto simp: append_vbmeta_digest_def intro!: ensures_obindI split: prod.split)
  show ?thesis
    unfolding avb_append_options_def
  proof (intro ensures_obindI)
    fix st
    assume eq: "append_vbmeta_digest ops alg (append_device_state ops (then_append
        (then_append ((AVB_SLOT_VERIFY_RESULT_OK, sd), w)
          (\<lambda>sd. cmdline_append_option (ops_malloc ops) sd (ascii ''androidboot.vbmeta.device'')
             (ascii ''PARTUUID=$(ANDROID_VBMETA_PARTUUID)'')))
        (\<lambda>sd. cmdline_append_version (ops_malloc ops) sd (ascii ''androidboot.vbmeta.avb_version'') 1 1))) =
      Returned st"
    have "same_slot sd (snd (fst st))" by (rule ensuresD [OF digest [OF start] eq])
    then show "ensures (\<lambda>st. same_slot sd (snd (fst st)))
        (Returned (append_verity (ops_malloc ops) (vb_flags h AND 1 \<noteq> 0) mode st))"
      by (simp add: append_verity_same)
  qed
qed

lemma mangle_cmdline_same:
  "ensures (\<lambda>(v, w'). case v of Inl _ \<Rightarrow> True | Inr sd' \<Rightarrow> same_slot (sd\<lparr>sd_ab_suffix := Some suf\<rparr>) sd' \<and> vbmeta_images sd \<noteq> [])
     (mangle_cmdline ops suf mode alg subst sd w)"
proof (cases "vbmeta_images sd")
  case Nil
  then show ?thesis by (simp add: mangle_cmdline_def)
next
  case (Cons im ims)
  have opts: "same_slot sd1 sd2" if "avb_append_options ops sd1 h alg mode w1 = Returned ((r, sd2), w2)"
    for sd1 h w1 r sd2 w2
    using ensuresD [OF append_options_same that] by simp
  have suffix: "a = suf" if "avb_strdup (ops_malloc ops) suf w = (Some a, w1)" for a w w1
    using that by (auto simp: avb_strdup_def split: prod.splits if_splits)
  show ?thesis
    unfolding mangle_cmdline_def Cons list.case
    using opts
    by (auto intro!: ensures_obindI simp: Let_def obind_Returned_iff dest!: suffix
        split: option.split prod.split sum.split if_splits)
qed

text \<open>What \<open>avb_slot_verify\<close> hands out with \<open>OK\<close> when verification errors are not allowed.\<close>

lemma slot_verify_OK:
  assumes call: "avb_slot_verify ops req suf flags mode want w = Returned ((AVB_SLOT_VERIFY_RESULT_OK, Some data), w')"
    and strict: "flags AND 1 = 0"
  obtains st w1 w2 where
    "load_and_verify_vbmeta 3 ops req suf False 0 0 (ascii ''vbmeta'' @ [0]) 6 None 0
       \<lparr>vs_slot = empty_slot_data, vs_alg = Some 0, vs_subst = Some []\<rparr> w1 =
     Returned ((AVB_SLOT_VERIFY_RESULT_OK, st), w2)"
    "same_slot ((vs_slot st)\<lparr>sd_ab_suffix := Some suf\<rparr>) data" "vbmeta_images data \<noteq> []"
proof -
  from call strict obtain w1 where "\<not> mode = AVB_HASHTREE_ERROR_MODE_LOGGING"
    and al: "allocations (ops_malloc ops) slot_allocation_sizes w = (True, w1)"
    by (auto simp: avb_slot_verify_def split: if_splits prod.splits bool.splits)
  with call strict obtain ret st w2 where
    l: "load_and_verify_vbmeta 3 ops req suf False 0 0 (ascii ''vbmeta'' @ [0]) 6 None 0
       \<lparr>vs_slot = empty_slot_data, vs_alg = Some 0, vs_subst = Some []\<rparr> w1 = Returned ((ret, st), w2)"
    by (auto simp: avb_slot_verify_def obind_Returned_iff simp del: load_and_verify_vbmeta.simps)
  note call = call [unfolded avb_slot_verify_def Let_def]
  from call strict al l \<open>\<not> mode = AVB_HASHTREE_ERROR_MODE_LOGGING\<close> obtain v w3 where
    ret: "ret = AVB_SLOT_VERIFY_RESULT_OK"
    and m: "mangle_cmdline ops suf mode (the (vs_alg st)) (vs_subst st) (vs_slot st) w2 = Returned (v, w3)"
    by (auto simp: obind_Returned_iff simp del: load_and_verify_vbmeta.simps split: if_splits)
  from call strict al l \<open>\<not> mode = AVB_HASHTREE_ERROR_MODE_LOGGING\<close> m ret have "v = Inr data"
    by (cases v) (auto simp del: load_and_verify_vbmeta.simps split: if_splits)
  with m have "mangle_cmdline ops suf mode (the (vs_alg st)) (vs_subst st) (vs_slot st) w2 = Returned (Inr data, w3)"
    by simp
  from ensuresD [OF mangle_cmdline_same this] have "same_slot ((vs_slot st)\<lparr>sd_ab_suffix := Some suf\<rparr>) data" "vbmeta_images data \<noteq> []"
    by (auto simp: same_slot_def)
  with l ret show ?thesis using that by blast
qed

lemma slot_verify_trust:
  assumes "avb_slot_verify ops req suf flags mode want w = Returned ((AVB_SLOT_VERIFY_RESULT_OK, Some data), w')"
    and "flags AND 1 = 0"
  shows "vbmeta_images data \<noteq> []" "trust_chain ops (vbmeta_images data)"
proof -
  obtain st w1 w2 where l: "load_and_verify_vbmeta 3 ops req suf False 0 0 (ascii ''vbmeta'' @ [0]) 6 None 0
       \<lparr>vs_slot = empty_slot_data, vs_alg = Some 0, vs_subst = Some []\<rparr> w1 =
     Returned ((AVB_SLOT_VERIFY_RESULT_OK, st), w2)"
    and s: "same_slot ((vs_slot st)\<lparr>sd_ab_suffix := Some suf\<rparr>) data" and "vbmeta_images data \<noteq> []"
    using assms by (rule slot_verify_OK)
  show "vbmeta_images data \<noteq> []" by fact
  from trust.load_relatedD [OF trust.load_and_verify_vbmeta_related l]
  have "trust_rel ops AVB_SLOT_VERIFY_RESULT_OK empty_slot_data (vs_slot st)"
    by (simp add: trust.expected_key_ok_def)
  with s show "trust_chain ops (vbmeta_images data)"
    by (simp add: trust_rel_def same_slot_def empty_slot_data_def) (simp add: trust_chain_def)
qed

lemma slot_verify_contents:
  assumes "avb_slot_verify ops req suf flags mode want w = Returned ((AVB_SLOT_VERIFY_RESULT_OK, Some data), w')"
    and "flags AND 1 = 0" and "read_persistent_value ops = None"
    and "\<forall>im \<in> set (vbmeta_images data). \<not> verification_disabled im"
  shows "\<forall>p \<in> set (loaded_partitions data). partition_checked (vbmeta_images data) p"
proof -
  obtain st w1 w2 where l: "load_and_verify_vbmeta 3 ops req suf False 0 0 (ascii ''vbmeta'' @ [0]) 6 None 0
       \<lparr>vs_slot = empty_slot_data, vs_alg = Some 0, vs_subst = Some []\<rparr> w1 =
     Returned ((AVB_SLOT_VERIFY_RESULT_OK, st), w2)"
    and s: "same_slot ((vs_slot st)\<lparr>sd_ab_suffix := Some suf\<rparr>) data"
    using assms(1,2) by (rule slot_verify_OK)
  from contents.load_relatedD [OF contents.load_and_verify_vbmeta_related l]
  have "partition_rel ops AVB_SLOT_VERIFY_RESULT_OK empty_slot_data (vs_slot st)"
    by (simp add: contents.expected_key_ok_def)
  with s assms(3,4) show ?thesis
    by (simp add: partition_rel_def same_slot_def) (simp add: empty_slot_data_def)
qed

end
