(* ===== verification/AvbSlot.thy ===== *)
theory AvbSlot
  imports AvbSlotTrust
begin

text \<open>
  The properties of the verification of a slot: the depth of the recursion, the chain of trust,
  the contents of the partitions, and what goes wrong; with a sample platform for the witnesses.
\<close>

subsection \<open>The recursion is three calls deep\<close>

definition agree_on_chains :: "'w load_vbmeta \<Rightarrow> 'w load_vbmeta \<Rightarrow> bool" where
  "agree_on_chains rec rec' \<longleftrightarrow> (\<forall>flags loc. loc \<noteq> 0 \<longrightarrow> rec flags loc = rec' flags loc)"

lemma obind_eqI: "(\<And>x. f x = g x) \<Longrightarrow> obind m f = obind m g"
  by (cases m) simp_all

lemma chain_cong:
  assumes "main \<longrightarrow> agree_on_chains rec rec'"
  shows "process_chain rec main = process_chain rec' main"
proof (intro ext)
  fix flags mem ret st w
  have "rec flags (sint l) = rec' flags (sint l)" if main "l \<noteq> 0" for l :: u32
  proof -
    have "sint l \<noteq> 0" using that(2) by (simp only: signed_eq_0_iff simp_thms)
    with assms that(1) show ?thesis unfolding agree_on_chains_def by blast
  qed
  then show "process_chain rec main flags mem ret st w = process_chain rec' main flags mem ret st w"
    by (auto simp: process_chain_def Let_def intro!: obind_eqI split: option.split)
qed

lemma verify_loaded_cong:
  assumes "loc = 0 \<longrightarrow> agree_on_chains rec rec'"
  shows "verify_loaded_vbmeta rec ops req suf allow flags loc = verify_loaded_vbmeta rec' ops req suf allow flags loc"
proof -
  have "process_chain rec (loc = 0) = process_chain rec' (loc = 0)"
    using assms by (rule chain_cong)
  then have "process_descriptor rec ops req suf allow (loc = 0) = process_descriptor rec' ops req suf allow (loc = 0)"
    by (intro ext) (simp only: process_descriptor_def)
  then show ?thesis by (intro ext) (simp only: verify_loaded_vbmeta_def Let_def)
qed

lemma body_cong:
  assumes "loc = 0 \<longrightarrow> agree_on_chains rec rec'"
    and "avb_strcmp_eq name (ascii ''vbmeta'') = Some True \<longrightarrow>
      rec 0 0 (ascii ''boot'' @ [0]) = rec' 0 0 (ascii ''boot'' @ [0]) \<or> loc \<noteq> 0"
  shows "load_and_verify_vbmeta_body rec ops req suf allow flags loc name =
    load_and_verify_vbmeta_body rec' ops req suf allow flags loc name"
proof (intro ext)
  fix n ekey elen st w
  note v = verify_loaded_cong [OF assms(1)]
  show "load_and_verify_vbmeta_body rec ops req suf allow flags loc name n ekey elen st w =
    load_and_verify_vbmeta_body rec' ops req suf allow flags loc name n ekey elen st w"
  proof (cases "avb_strcmp_eq name (ascii ''vbmeta'')")
    case None
    then show ?thesis by (simp add: load_and_verify_vbmeta_body_def)
  next
    case (Some is_vbmeta)
    then have "loc = 0 \<and> is_vbmeta \<longrightarrow> rec 0 0 (ascii ''boot'' @ [0]) = rec' 0 0 (ascii ''boot'' @ [0])"
      using assms(2) by auto
    then consider "rec 0 0 (ascii ''boot'' @ [0]) = rec' 0 0 (ascii ''boot'' @ [0])" | "loc \<noteq> 0" | "\<not> is_vbmeta"
      by blast
    then show ?thesis
      by cases (simp_all only: load_and_verify_vbmeta_body_def v Some checked.simps obind.simps simp_thms if_False if_True)
  qed
qed

lemma body_three:
  fixes ops :: "'w AvbOps" and req suf allow
  defines "body \<equiv> (\<lambda>rec. load_and_verify_vbmeta_body rec ops req suf allow)"
  shows "body (body (body rec)) = body (body (body rec'))"
proof -
  have "body r flags loc name = body r' flags loc name" if "loc \<noteq> 0" for r r' flags loc name
    unfolding body_def using that by (intro body_cong) simp_all
  then have chain: "agree_on_chains (body r) (body r')" for r r'
    unfolding agree_on_chains_def by blast
  have nb: "avb_strcmp_eq (ascii ''boot'' @ [0]) (ascii ''vbmeta'') = Some False" by code_simp
  have boot: "body (body r) 0 0 (ascii ''boot'' @ [0]) = body (body r') 0 0 (ascii ''boot'' @ [0])" for r r'
    using chain nb unfolding body_def by (intro body_cong) simp_all
  have "body (body (body rec)) flags loc name = body (body (body rec')) flags loc name" for flags loc name
    using chain boot unfolding body_def by (intro body_cong) simp_all
  then show ?thesis by (intro ext) simp
qed

subsection \<open>A sample platform\<close>





definition signed_vbmeta :: AvbVBMetaImageHeader where
  "signed_vbmeta = blank_vbmeta\<lparr>vb_flags := 2\<rparr>"
















subsection \<open>A masked error\<close>

text \<open>
  A hashtree descriptor that asks for a persistent digest overwrites the result: an error of a
  chained partition before it is lost.
\<close>

lemma hashtree_overwrites:
  assumes "avb_hashtree_descriptor_validate_and_byteswap mem = Returned (Some d)" "root_digest_len d = 0"
    and "slice 180 (unat (ht_partition_name_len d)) mem = Some name" "avb_validate_utf8 name"
    and "ht_flags d AND 1 \<noteq> 0 \<or> suf = []" "unat (ht_partition_name_len d) < 32"
    and "hashtree_digest_len (ht_hash_algorithm d) = Returned (Some n)"
    and "read_persistent_digest ops (c_str name) n w = Returned (Inr digest, w1)"
    and "vs_subst st = Some s"
    and "avb_add_root_digest_substitution (ops_malloc ops) (c_str name) digest s w1 =
      Returned ((AVB_SLOT_VERIFY_RESULT_OK, s'), w2)"
  shows "process_hashtree ops suf mem ret st w =
    Returned ((False, AVB_SLOT_VERIFY_RESULT_OK, st\<lparr>vs_subst := Some s'\<rparr>), w2)"
  using assms by (auto simp: process_hashtree_def Let_def)

lemma chain_error_goes_on:
  assumes "avb_chain_partition_descriptor_validate_and_byteswap mem = Returned (Some d)"
    and "rec flags (sint (chain_rollback_index_location d)) (drop 92 mem) (unat (chain_partition_name_len d))
      (Some (drop (92 + unat (chain_partition_name_len d)) mem)) (ucast (chain_public_key_len d))
      (st\<lparr>vs_alg := None, vs_subst := None\<rparr>) w = Returned ((AVB_SLOT_VERIFY_RESULT_ERROR_VERIFICATION, st'), w1)"
  shows "process_chain rec True flags mem ret st w =
    Returned ((False, AVB_SLOT_VERIFY_RESULT_ERROR_VERIFICATION, st\<lparr>vs_slot := vs_slot st'\<rparr>), w1)"
proof -
  have "chain_rollback_index_location d \<noteq> 0"
    using chain_descriptor_contained(3) [OF assms(1)] by auto
  with assms show ?thesis by (simp add: process_chain_def Let_def result_should_continue_def)
qed

text \<open>A chain descriptor for partition \<open>v\<close> and a hashtree descriptor without digest for \<open>d\<close>.\<close>

definition sample_chain :: bytes where
  "sample_chain = to_be 8 4 @ to_be 8 80 @ to_be 4 1 @ to_be 4 1 @ to_be 4 3 @ replicate 64 0 @ [118, 1, 2, 3]"

definition sample_hashtree :: bytes where
  "sample_hashtree = to_be 8 1 @ to_be 8 168 @ replicate 56 0 @
     ascii ''sha256'' @ replicate 26 0 @ to_be 4 1 @ replicate 8 0 @ to_be 4 1 @ replicate 60 0 @ [100, 0, 0, 0]"

definition sample_chain_desc :: AvbChainPartitionDescriptor where
  "sample_chain_desc = \<lparr>chain_parent = \<lparr>tag = 4, num_bytes_following = 80\<rparr>, chain_rollback_index_location = 1,
     chain_partition_name_len = 1, chain_public_key_len = 3\<rparr>"

lemma sample_chain_valid:
  "avb_descriptor_validate_and_byteswap (sample_chain @ rest) =
     Returned (True, \<lparr>tag = 4, num_bytes_following = 80\<rparr>)"
  "avb_chain_partition_descriptor_validate_and_byteswap (sample_chain @ rest) = Returned (Some sample_chain_desc)"
proof -
  have l: "length sample_chain = 96" by (simp add: sample_chain_def)
  have sl: "slice 0 16 (sample_chain @ rest) = Some (take 16 sample_chain)"
    "slice 0 92 (sample_chain @ rest) = Some (take 92 sample_chain)" by (simp_all add: slice_def l)
  have f: "be64_at (take 16 sample_chain) 0 = 4" "be64_at (take 16 sample_chain) 8 = 80"
    "be32_at (take 92 sample_chain) 16 = 1" "be32_at (take 92 sample_chain) 20 = 1"
    "be32_at (take 92 sample_chain) 24 = 3"
    by (rule be64_at_eqI be32_at_eqI; simp add: sample_chain_def be_nat_to_be)+
  show d: "avb_descriptor_validate_and_byteswap (sample_chain @ rest) =
     Returned (True, \<lparr>tag = 4, num_bytes_following = 80\<rparr>)"
    by (simp add: avb_descriptor_validate_and_byteswap_def sl f)
  show "avb_chain_partition_descriptor_validate_and_byteswap (sample_chain @ rest) = Returned (Some sample_chain_desc)"
    by (simp add: avb_chain_partition_descriptor_validate_and_byteswap_def d sl f sample_chain_desc_def
        avb_safe_add_to_def tag_defs)
qed

definition sample_hashtree_desc :: AvbHashtreeDescriptor where
  "sample_hashtree_desc = \<lparr>ht_parent = \<lparr>tag = 1, num_bytes_following = 168\<rparr>, dm_verity_version = 0,
     ht_image_size = 0, tree_offset = 0, tree_size = 0, data_block_size = 0, hash_block_size = 0,
     fec_num_roots = 0, fec_offset = 0, fec_size = 0, ht_hash_algorithm = ascii ''sha256'' @ replicate 26 0,
     ht_partition_name_len = 1, ht_salt_len = 0, root_digest_len = 0, ht_flags = 1\<rparr>"

lemma sample_hashtree_valid:
  "avb_descriptor_validate_and_byteswap sample_hashtree = Returned (True, \<lparr>tag = 1, num_bytes_following = 168\<rparr>)"
  "avb_hashtree_descriptor_validate_and_byteswap sample_hashtree = Returned (Some sample_hashtree_desc)"
proof -
  have l: "length sample_hashtree = 184" by (simp add: sample_hashtree_def ascii_def)
  have sl: "slice 0 16 sample_hashtree = Some (take 16 sample_hashtree)"
    "slice 0 180 sample_hashtree = Some (take 180 sample_hashtree)" by (simp_all add: slice_def l)
  have f: "be64_at (take 16 sample_hashtree) 0 = 1" "be64_at (take 16 sample_hashtree) 8 = 168"
    "be32_at (take 180 sample_hashtree) 16 = 0" "be64_at (take 180 sample_hashtree) 20 = 0"
    "be64_at (take 180 sample_hashtree) 28 = 0" "be64_at (take 180 sample_hashtree) 36 = 0"
    "be32_at (take 180 sample_hashtree) 44 = 0" "be32_at (take 180 sample_hashtree) 48 = 0"
    "be32_at (take 180 sample_hashtree) 52 = 0" "be64_at (take 180 sample_hashtree) 56 = 0"
    "be64_at (take 180 sample_hashtree) 64 = 0" "be32_at (take 180 sample_hashtree) 104 = 1"
    "be32_at (take 180 sample_hashtree) 108 = 0" "be32_at (take 180 sample_hashtree) 112 = 0"
    "be32_at (take 180 sample_hashtree) 116 = 1"
    by (rule be64_at_eqI be32_at_eqI; simp add: sample_hashtree_def ascii_def be_nat_to_be be_nat_zeros)+
  have a: "take 32 (drop 72 (take 180 sample_hashtree)) = ascii ''sha256'' @ replicate 26 0"
    by (simp add: sample_hashtree_def ascii_def)
  show d: "avb_descriptor_validate_and_byteswap sample_hashtree =
     Returned (True, \<lparr>tag = 1, num_bytes_following = 168\<rparr>)"
    by (simp add: avb_descriptor_validate_and_byteswap_def sl f)
  show "avb_hashtree_descriptor_validate_and_byteswap sample_hashtree = Returned (Some sample_hashtree_desc)"
    by (simp add: avb_hashtree_descriptor_validate_and_byteswap_def d sl f a sample_hashtree_desc_def
        avb_safe_add_to_def tag_defs)
qed

definition reading_ops :: "unit AvbOps" where
  "reading_ops = sample_ops\<lparr>read_persistent_value := Some (\<lambda>name n w. ((AVB_IO_RESULT_OK, replicate n 7), w))\<rparr>"

subsection \<open>Properties\<close>





text \<open>
  C33: verification nests at most three calls of \<open>load_and_verify_vbmeta\<close>: what would happen at a
  fourth has no influence on the result, whatever the images on the device contain.
\<close>
theorem verification_depth:
  "load_and_verify_vbmeta_body (load_and_verify_vbmeta_body (load_and_verify_vbmeta_body rec
     ops req suf allow) ops req suf allow) ops req suf allow =
   load_and_verify_vbmeta 3 ops req suf allow"
  using body_three [of rec ops req suf allow "\<lambda>_ _ _ _ _ _ _ _. Unfinished"] by (simp add: numeral_3_eq_3)

text \<open>
  The verification error of a chained partition is lost when a hashtree descriptor that uses a
  persistent digest follows it in the top-level image: the loop ends with \<open>OK\<close>, although
  verification errors are not allowed.
\<close>
theorem chain_error_masked:
  assumes "avb_descriptor_validate_and_byteswap (drop c buf) = Returned (True, dc)"
    and "tag dc = AVB_DESCRIPTOR_TAG_CHAIN_PARTITION"
    and "avb_chain_partition_descriptor_validate_and_byteswap (drop c buf) = Returned (Some cd)"
    and "rec flags (sint (chain_rollback_index_location cd)) (drop 92 (drop c buf)) (unat (chain_partition_name_len cd))
      (Some (drop (92 + unat (chain_partition_name_len cd)) (drop c buf))) (ucast (chain_public_key_len cd))
      (st\<lparr>vs_alg := None, vs_subst := None\<rparr>) w = Returned ((AVB_SLOT_VERIFY_RESULT_ERROR_VERIFICATION, st1), w1)"
    and "avb_descriptor_validate_and_byteswap (drop t buf) = Returned (True, dt)"
    and "tag dt = AVB_DESCRIPTOR_TAG_HASHTREE"
    and "avb_hashtree_descriptor_validate_and_byteswap (drop t buf) = Returned (Some d)" "root_digest_len d = 0"
    and "slice 180 (unat (ht_partition_name_len d)) (drop t buf) = Some name" "avb_validate_utf8 name"
    and "ht_flags d AND 1 \<noteq> 0 \<or> suf = []" "unat (ht_partition_name_len d) < 32"
    and "hashtree_digest_len (ht_hash_algorithm d) = Returned (Some n)"
    and "read_persistent_digest ops (c_str name) n w1 = Returned (Inr digest, w2)"
    and "vs_subst st = Some s"
    and "avb_add_root_digest_substitution (ops_malloc ops) (c_str name) digest s w2 =
      Returned ((AVB_SLOT_VERIFY_RESULT_OK, s'), w3)"
  shows "\<exists>st'. process_descriptors (process_descriptor rec ops req suf False True flags) buf [c, t]
      AVB_SLOT_VERIFY_RESULT_OK st w = Returned ((False, AVB_SLOT_VERIFY_RESULT_OK, st'), w3)"
proof -
  let ?st = "st\<lparr>vs_slot := vs_slot st1\<rparr>"
  have "vs_subst ?st = Some s" using assms(15) by simp
  note h = hashtree_overwrites [OF assms(7-14) this assms(16)]
  have c: "process_chain rec True flags (drop c buf) AVB_SLOT_VERIFY_RESULT_OK st w =
      Returned ((False, AVB_SLOT_VERIFY_RESULT_ERROR_VERIFICATION, ?st), w1)"
    by (rule chain_error_goes_on [where d = cd and st' = st1]) (rule assms(3,4))+
  show ?thesis
    using assms(1,2,5,6) c h by (simp add: process_descriptor_def tag_defs)
qed

theorem chain_error_masked_witness:
  "\<exists>st'. process_descriptors (process_descriptor
      (\<lambda>_ _ _ _ _ _ st w. Returned ((AVB_SLOT_VERIFY_RESULT_ERROR_VERIFICATION, st), w))
      reading_ops [] [] False True 0) (sample_chain @ sample_hashtree) [0, 96]
      AVB_SLOT_VERIFY_RESULT_OK \<lparr>vs_slot = empty_slot_data, vs_alg = Some 0, vs_subst = Some []\<rparr> () =
    Returned ((False, AVB_SLOT_VERIFY_RESULT_OK, st'), ())"
proof -
  let ?st = "\<lparr>vs_slot = empty_slot_data, vs_alg = Some 0, vs_subst = Some []\<rparr>"
  have l: "length sample_chain = 96" by (simp add: sample_chain_def)
  have d: "drop 0 (sample_chain @ sample_hashtree) = sample_chain @ sample_hashtree"
    "drop 96 (sample_chain @ sample_hashtree) = sample_hashtree" by (simp_all add: l)
  have name: "slice 180 1 sample_hashtree = Some [100]"
    by (simp add: slice_def sample_hashtree_def ascii_def)
  have alg: "hashtree_digest_len (ascii ''sha256'' @ replicate 26 0) = Returned (Some 32)" by code_simp
  have m: "ops_malloc reading_ops = (\<lambda>n w. (True, w))" by (simp add: reading_ops_def sample_ops_def)
  have "\<exists>x. avb_strdupv (\<lambda>n w. (True, w)) [AVB_NPV_PERSISTENT_DIGEST_PREFIX, c_str [100]] () = Returned (Some x, ())"
    by (simp add: avb_strdupv_def avb_malloc_def AVB_NPV_PERSISTENT_DIGEST_PREFIX_def ascii_def c_str_def
        avb_safe_add_to_def AVB_STRDUPV_MAX_NUM_STRINGS_def)
  then have r: "read_persistent_digest reading_ops (c_str [100]) 32 () = Returned (Inr (replicate 32 7), ())"
    unfolding read_persistent_digest_def m by (auto simp: reading_ops_def)
  have "(case avb_add_root_digest_substitution (\<lambda>n w. (True, w)) (c_str [100]) (replicate 32 7) [] () of
      Returned ((r, s'), w') \<Rightarrow> r = AVB_SLOT_VERIFY_RESULT_OK | _ \<Rightarrow> False)" by code_simp
  then obtain s' where a: "avb_add_root_digest_substitution (ops_malloc reading_ops) (c_str [100]) (replicate 32 7) [] () =
      Returned ((AVB_SLOT_VERIFY_RESULT_OK, s'), ())"
    unfolding m by (auto split: outcome.splits)
  let ?buf = "sample_chain @ sample_hashtree"
  have desc: "avb_descriptor_validate_and_byteswap (drop 0 ?buf) = Returned (True, \<lparr>tag = 4, num_bytes_following = 80\<rparr>)"
    "avb_chain_partition_descriptor_validate_and_byteswap (drop 0 ?buf) = Returned (Some sample_chain_desc)"
    "avb_descriptor_validate_and_byteswap (drop 96 ?buf) = Returned (True, \<lparr>tag = 1, num_bytes_following = 168\<rparr>)"
    "avb_hashtree_descriptor_validate_and_byteswap (drop 96 ?buf) = Returned (Some sample_hashtree_desc)"
    by (simp_all only: d sample_chain_valid sample_hashtree_valid)
  have ht: "root_digest_len sample_hashtree_desc = 0" "ht_partition_name_len sample_hashtree_desc = 1"
    "ht_flags sample_hashtree_desc = 1" "ht_hash_algorithm sample_hashtree_desc = ascii ''sha256'' @ replicate 26 0"
    by (simp_all add: sample_hashtree_desc_def)
  have tags: "tag \<lparr>tag = 4, num_bytes_following = 80\<rparr> = AVB_DESCRIPTOR_TAG_CHAIN_PARTITION"
    "tag \<lparr>tag = 1, num_bytes_following = 168\<rparr> = AVB_DESCRIPTOR_TAG_HASHTREE" by (simp_all add: tag_defs)
  have h1: "slice 180 (unat (ht_partition_name_len sample_hashtree_desc)) (drop 96 ?buf) = Some [100]"
    using name by (simp only: ht d unat_1)
  have h2: "avb_validate_utf8 [100]" by code_simp
  have h3: "ht_flags sample_hashtree_desc AND 1 \<noteq> 0 \<or> [] = ([] :: bytes)"
    "unat (ht_partition_name_len sample_hashtree_desc) < 32" by (simp_all only: ht unat_1) simp_all
  have h4: "hashtree_digest_len (ht_hash_algorithm sample_hashtree_desc) = Returned (Some 32)"
    using alg by (simp only: ht)
  note h = h1 h2 h3 h4
  let ?rec = "\<lambda>_ _ _ _ _ _ st w. Returned ((AVB_SLOT_VERIFY_RESULT_ERROR_VERIFICATION, st), w)"
  show ?thesis
  proof (rule chain_error_masked [where buf = ?buf and c = 0 and t = 96 and rec = ?rec and ops = reading_ops
        and suf = "[]" and flags = 0 and st = ?st and w = "()" and ?st1.0 = "?st\<lparr>vs_alg := None, vs_subst := None\<rparr>"
        and ?w1.0 = "()" and ?w2.0 = "()" and ?w3.0 = "()" and cd = sample_chain_desc and d = sample_hashtree_desc
        and dc = "\<lparr>tag = 4, num_bytes_following = 80\<rparr>" and dt = "\<lparr>tag = 1, num_bytes_following = 168\<rparr>"
        and name = "[100]" and n = 32 and digest = "replicate 32 7" and s = "[]" and s' = s'])
  qed (fact desc tags ht(1) h r a | rule refl | simp)+
qed

text \<open>
  The location of a chained image's rollback index is an \<open>int\<close> of which only the upper bound
  is checked: a descriptor with a location of \<open>2 ^ 31\<close> or more passes validation, and the index is
  then stored before the array.
\<close>
theorem rollback_location_unchecked:
  assumes "0x80000000 \<le> chain_rollback_index_location cd"
  shows "store_rollback_index (sint (chain_rollback_index_location cd)) h ret st = Faulted"
proof -
  have "sint (chain_rollback_index_location cd) < 0"
  proof -
    have "2147483648 \<le> unat (chain_rollback_index_location cd)" using assms by (simp add: word_le_nat_alt)
    moreover have "unat (chain_rollback_index_location cd) < 4294967296" by (rule unat_u32)
    ultimately have "unat (chain_rollback_index_location cd) div 2147483648 = 1" by linarith
    then have "bit (unat (chain_rollback_index_location cd)) 31" by (simp add: bit_iff_odd)
    then have "bit (chain_rollback_index_location cd) 31" by (simp add: bit_unsigned_iff)
    then show ?thesis using bit_last_iff [of "chain_rollback_index_location cd"] by simp
  qed
  then show ?thesis by (simp add: store_rollback_index_def)
qed

theorem rollback_location_unchecked_witness:
  "store_rollback_index (sint (chain_rollback_index_location (sample_chain_desc\<lparr>chain_rollback_index_location := 0x80000000\<rparr>)))
     signed_vbmeta AVB_SLOT_VERIFY_RESULT_OK \<lparr>vs_slot = empty_slot_data, vs_alg = None, vs_subst = None\<rparr> = Faulted"
  by (rule rollback_location_unchecked) simp

end
