(* ===== verification/AvbCrc32.thy ===== *)
theory AvbCrc32
  imports AvbUtil
begin

text \<open>
  The table-driven CRC-32 of \<open>Application/UefiAvb/libavb/avb_crc32.c\<close>, and the bit-serial
  CRC with the reflected polynomial \<open>0xedb88320\<close> that it computes.  The \<open>size_t\<close> of
  \<open>avb_crc32\<close> is converted to an \<open>int\<close> (two's complement, as the compilers of this
  firmware do), which the loop counts down to 0.  The buffer is the list of the octets from
  \<open>buf\<close> to the end of its object; a read behind it, and counting below the smallest
  \<open>int\<close>, is \<open>None\<close>.
\<close>

definition iavb_crc32_tab :: "u32 list" where
  "iavb_crc32_tab = [
   0x00000000, 0x77073096, 0xee0e612c, 0x990951ba, 0x076dc419, 0x706af48f,
   0xe963a535, 0x9e6495a3, 0x0edb8832, 0x79dcb8a4, 0xe0d5e91e, 0x97d2d988,
   0x09b64c2b, 0x7eb17cbd, 0xe7b82d07, 0x90bf1d91, 0x1db71064, 0x6ab020f2,
   0xf3b97148, 0x84be41de, 0x1adad47d, 0x6ddde4eb, 0xf4d4b551, 0x83d385c7,
   0x136c9856, 0x646ba8c0, 0xfd62f97a, 0x8a65c9ec, 0x14015c4f, 0x63066cd9,
   0xfa0f3d63, 0x8d080df5, 0x3b6e20c8, 0x4c69105e, 0xd56041e4, 0xa2677172,
   0x3c03e4d1, 0x4b04d447, 0xd20d85fd, 0xa50ab56b, 0x35b5a8fa, 0x42b2986c,
   0xdbbbc9d6, 0xacbcf940, 0x32d86ce3, 0x45df5c75, 0xdcd60dcf, 0xabd13d59,
   0x26d930ac, 0x51de003a, 0xc8d75180, 0xbfd06116, 0x21b4f4b5, 0x56b3c423,
   0xcfba9599, 0xb8bda50f, 0x2802b89e, 0x5f058808, 0xc60cd9b2, 0xb10be924,
   0x2f6f7c87, 0x58684c11, 0xc1611dab, 0xb6662d3d, 0x76dc4190, 0x01db7106,
   0x98d220bc, 0xefd5102a, 0x71b18589, 0x06b6b51f, 0x9fbfe4a5, 0xe8b8d433,
   0x7807c9a2, 0x0f00f934, 0x9609a88e, 0xe10e9818, 0x7f6a0dbb, 0x086d3d2d,
   0x91646c97, 0xe6635c01, 0x6b6b51f4, 0x1c6c6162, 0x856530d8, 0xf262004e,
   0x6c0695ed, 0x1b01a57b, 0x8208f4c1, 0xf50fc457, 0x65b0d9c6, 0x12b7e950,
   0x8bbeb8ea, 0xfcb9887c, 0x62dd1ddf, 0x15da2d49, 0x8cd37cf3, 0xfbd44c65,
   0x4db26158, 0x3ab551ce, 0xa3bc0074, 0xd4bb30e2, 0x4adfa541, 0x3dd895d7,
   0xa4d1c46d, 0xd3d6f4fb, 0x4369e96a, 0x346ed9fc, 0xad678846, 0xda60b8d0,
   0x44042d73, 0x33031de5, 0xaa0a4c5f, 0xdd0d7cc9, 0x5005713c, 0x270241aa,
   0xbe0b1010, 0xc90c2086, 0x5768b525, 0x206f85b3, 0xb966d409, 0xce61e49f,
   0x5edef90e, 0x29d9c998, 0xb0d09822, 0xc7d7a8b4, 0x59b33d17, 0x2eb40d81,
   0xb7bd5c3b, 0xc0ba6cad, 0xedb88320, 0x9abfb3b6, 0x03b6e20c, 0x74b1d29a,
   0xead54739, 0x9dd277af, 0x04db2615, 0x73dc1683, 0xe3630b12, 0x94643b84,
   0x0d6d6a3e, 0x7a6a5aa8, 0xe40ecf0b, 0x9309ff9d, 0x0a00ae27, 0x7d079eb1,
   0xf00f9344, 0x8708a3d2, 0x1e01f268, 0x6906c2fe, 0xf762575d, 0x806567cb,
   0x196c3671, 0x6e6b06e7, 0xfed41b76, 0x89d32be0, 0x10da7a5a, 0x67dd4acc,
   0xf9b9df6f, 0x8ebeeff9, 0x17b7be43, 0x60b08ed5, 0xd6d6a3e8, 0xa1d1937e,
   0x38d8c2c4, 0x4fdff252, 0xd1bb67f1, 0xa6bc5767, 0x3fb506dd, 0x48b2364b,
   0xd80d2bda, 0xaf0a1b4c, 0x36034af6, 0x41047a60, 0xdf60efc3, 0xa867df55,
   0x316e8eef, 0x4669be79, 0xcb61b38c, 0xbc66831a, 0x256fd2a0, 0x5268e236,
   0xcc0c7795, 0xbb0b4703, 0x220216b9, 0x5505262f, 0xc5ba3bbe, 0xb2bd0b28,
   0x2bb45a92, 0x5cb36a04, 0xc2d7ffa7, 0xb5d0cf31, 0x2cd99e8b, 0x5bdeae1d,
   0x9b64c2b0, 0xec63f226, 0x756aa39c, 0x026d930a, 0x9c0906a9, 0xeb0e363f,
   0x72076785, 0x05005713, 0x95bf4a82, 0xe2b87a14, 0x7bb12bae, 0x0cb61b38,
   0x92d28e9b, 0xe5d5be0d, 0x7cdcefb7, 0x0bdbdf21, 0x86d3d2d4, 0xf1d4e242,
   0x68ddb3f8, 0x1fda836e, 0x81be16cd, 0xf6b9265b, 0x6fb077e1, 0x18b74777,
   0x88085ae6, 0xff0f6a70, 0x66063bca, 0x11010b5c, 0x8f659eff, 0xf862ae69,
   0x616bffd3, 0x166ccf45, 0xa00ae278, 0xd70dd2ee, 0x4e048354, 0x3903b3c2,
   0xa7672661, 0xd06016f7, 0x4969474d, 0x3e6e77db, 0xaed16a4a, 0xd9d65adc,
   0x40df0b66, 0x37d83bf0, 0xa9bcae53, 0xdebb9ec5, 0x47b2cf7f, 0x30b5ffe9,
   0xbdbdf21c, 0xcabac28a, 0x53b39330, 0x24b4a3a6, 0xbad03605, 0xcdd70693,
   0x54de5729, 0x23d967bf, 0xb3667a2e, 0xc4614ab8, 0x5d681b02, 0x2a6f2b94,
   0xb40bbe37, 0xc30c8ea1, 0x5a05df1b, 0x2d02ef8d]"

definition crc_step :: "u32 \<Rightarrow> u8 \<Rightarrow> u32" where
  "crc_step crc p = iavb_crc32_tab ! unat ((crc XOR ucast p) AND 0xFF) XOR drop_bit 8 crc"

fun crc_loop :: "u32 \<Rightarrow> bytes \<Rightarrow> int \<Rightarrow> u32 option" where
  "crc_loop crc [] num = (if num = 0 then Some crc else None)"
| "crc_loop crc (p # buf) num =
     (if num = 0 then Some crc
      else if num = - (2 ^ 31) then None
      else crc_loop (crc_step crc p) buf (num - 1))"

definition iavb_crc32 :: "u32 \<Rightarrow> bytes \<Rightarrow> int \<Rightarrow> u32 option" where
  "iavb_crc32 crc_in buf num = map_option (\<lambda>crc. crc XOR NOT 0) (crc_loop (crc_in XOR NOT 0) buf num)"

definition avb_crc32 :: "bytes \<Rightarrow> u64 \<Rightarrow> u32 option" where
  "avb_crc32 buf num = iavb_crc32 0 buf (sint (ucast num :: u32))"

subsection \<open>The bit-serial reference\<close>

text \<open>One bit: shift right, and add the polynomial when a one is shifted out.\<close>

definition crc_bit :: "u32 \<Rightarrow> u32" where
  "crc_bit r = (if bit r 0 then drop_bit 1 r XOR 0xedb88320 else drop_bit 1 r)"

definition crc_byte :: "u32 \<Rightarrow> u32" where
  "crc_byte r = (crc_bit ^^ 8) r"

definition crc32_serial :: "bytes \<Rightarrow> u32" where
  "crc32_serial buf = fold (\<lambda>p crc. crc_byte (crc XOR ucast p)) buf (NOT 0) XOR NOT 0"

text \<open>
  Both are linear over \<open>XOR\<close>, so the table is determined by its entries at the powers of
  two, and these by one step each.
\<close>

lemma crc_bit_xor: "crc_bit (a XOR b) = crc_bit a XOR crc_bit b"
proof -
  have "drop_bit 1 (a XOR b) = drop_bit 1 a XOR drop_bit 1 b"
    by (rule bit_word_eqI) (simp add: bit_simps)
  then show ?thesis by (auto simp: crc_bit_def bit_simps ac_simps)
qed

lemma crc_byte_xor: "crc_byte (a XOR b) = crc_byte a XOR crc_byte b"
proof -
  have "(crc_bit ^^ n) (a XOR b) = (crc_bit ^^ n) a XOR (crc_bit ^^ n) b" for n
    by (induction n) (simp_all add: crc_bit_xor)
  then show ?thesis by (simp add: crc_byte_def)
qed

definition crc_doubles :: "nat \<Rightarrow> bool" where
  "crc_doubles m \<longleftrightarrow> take (2 * m) iavb_crc32_tab =
     take m iavb_crc32_tab @ map (\<lambda>x. x XOR iavb_crc32_tab ! m) (take m iavb_crc32_tab)"

lemma crc_tab_doubles:
  "crc_doubles 1" "crc_doubles 2" "crc_doubles 4" "crc_doubles 8"
  "crc_doubles 16" "crc_doubles 32" "crc_doubles 64" "crc_doubles 128"
  by (simp_all add: crc_doubles_def iavb_crc32_tab_def)

lemma crc_byte_unfold:
  "crc_byte r = crc_bit (crc_bit (crc_bit (crc_bit (crc_bit (crc_bit (crc_bit (crc_bit r)))))))"
  by (simp add: crc_byte_def eval_nat_numeral)

lemma crc_tab_powers:
  "iavb_crc32_tab ! 1 = crc_byte (word_of_nat 1)" "iavb_crc32_tab ! 2 = crc_byte (word_of_nat 2)"
  "iavb_crc32_tab ! 4 = crc_byte (word_of_nat 4)" "iavb_crc32_tab ! 8 = crc_byte (word_of_nat 8)"
  "iavb_crc32_tab ! 16 = crc_byte (word_of_nat 16)" "iavb_crc32_tab ! 32 = crc_byte (word_of_nat 32)"
  "iavb_crc32_tab ! 64 = crc_byte (word_of_nat 64)" "iavb_crc32_tab ! 128 = crc_byte (word_of_nat 128)"
  by (simp_all add: iavb_crc32_tab_def crc_byte_unfold crc_bit_def)

lemma word_of_nat_xor_power:
  assumes "j < 2 ^ k"
  shows "(word_of_nat (2 ^ k + j) :: u32) = word_of_nat (2 ^ k) XOR word_of_nat j"
proof -
  have j: "take_bit k j = j" using assms by (simp add: take_bit_nat_eq_self)
  have "bit j n \<Longrightarrow> n < k" for n
    using bit_take_bit_iff [of k j n] by (simp add: j)
  then have "(2 ^ k :: nat) AND j = 0"
    by (intro bit_eqI) (auto simp: bit_simps)
  then have x: "2 ^ k + j = 2 ^ k XOR j" by (simp add: disjunctive_add_eq_xor)
  show ?thesis unfolding x by (rule bit_word_eqI) (simp add: bit_simps)
qed

lemma crc_tab_step:
  assumes "take m iavb_crc32_tab = map (\<lambda>i. crc_byte (word_of_nat i)) [0..<m]"
    and "crc_doubles m" "iavb_crc32_tab ! m = crc_byte (word_of_nat m)" "m = 2 ^ k" "n = 2 * m"
  shows "take n iavb_crc32_tab = map (\<lambda>i. crc_byte (word_of_nat i)) [0..<n]"
proof -
  have up: "[0..<2 * m] = [0..<m] @ map (\<lambda>i. i + m) [0..<m]"
    using upt_add_eq_append [of 0 m m] map_add_upt [of m m] by (simp add: mult_2)
  have "crc_byte (word_of_nat (i + m)) = crc_byte (word_of_nat i) XOR crc_byte (word_of_nat m)"
    if "i < m" for i
  proof -
    have "(word_of_nat (m + i) :: u32) = word_of_nat m XOR word_of_nat i"
      unfolding assms(4) by (rule word_of_nat_xor_power) (use that assms(4) in simp)
    then have "crc_byte (word_of_nat (i + m)) = crc_byte (word_of_nat m) XOR crc_byte (word_of_nat i)"
      by (simp only: add.commute [of i m] crc_byte_xor)
    then show ?thesis by (simp only: xor.commute)
  qed
  then show ?thesis using assms(1-3) by (simp add: crc_doubles_def up assms(5))
qed

lemma crc_table_serial: "iavb_crc32_tab = map (\<lambda>i. crc_byte (word_of_nat i)) [0..<256]"
proof -
  let ?T = "\<lambda>m. take m iavb_crc32_tab = map (\<lambda>i. crc_byte (word_of_nat i)) [0..<m]"
  have t0: "?T 1" by (simp add: iavb_crc32_tab_def crc_byte_unfold crc_bit_def)
  have t1: "?T 2"
    by (rule crc_tab_step [OF t0 crc_tab_doubles(1) crc_tab_powers(1), of 0]) simp_all
  have t2: "?T 4"
    by (rule crc_tab_step [OF t1 crc_tab_doubles(2) crc_tab_powers(2), of 1]) simp_all
  have t3: "?T 8"
    by (rule crc_tab_step [OF t2 crc_tab_doubles(3) crc_tab_powers(3), of 2]) simp_all
  have t4: "?T 16"
    by (rule crc_tab_step [OF t3 crc_tab_doubles(4) crc_tab_powers(4), of 3]) simp_all
  have t5: "?T 32"
    by (rule crc_tab_step [OF t4 crc_tab_doubles(5) crc_tab_powers(5), of 4]) simp_all
  have t6: "?T 64"
    by (rule crc_tab_step [OF t5 crc_tab_doubles(6) crc_tab_powers(6), of 5]) simp_all
  have t7: "?T 128"
    by (rule crc_tab_step [OF t6 crc_tab_doubles(7) crc_tab_powers(7), of 6]) simp_all
  have t8: "?T 256"
    by (rule crc_tab_step [OF t7 crc_tab_doubles(8) crc_tab_powers(8), of 7]) simp_all
  have "length iavb_crc32_tab = 256" by (simp add: iavb_crc32_tab_def)
  with t8 show ?thesis by (simp only: take_all order_refl)
qed

lemma crc_step_serial: "crc_step crc p = crc_byte (crc XOR ucast p)"
proof -
  let ?r = "crc XOR ucast p"
  have m: "(0xFF :: u32) = mask 8" by (simp add: mask_eq_exp_minus_1)
  have lt: "unat (?r AND 0xFF) < 256"
    using take_bit_nat_less_exp [of 8 "unat ?r"]
    by (simp only: m take_bit_eq_mask [symmetric] unsigned_take_bit_eq) simp
  have tab: "iavb_crc32_tab ! unat (?r AND 0xFF) = crc_byte (?r AND 0xFF)"
    using lt by (simp add: crc_table_serial)
  have high: "crc_byte x = drop_bit 8 x" if "take_bit 8 x = 0" for x
  proof -
    have "bit x n \<Longrightarrow> 8 \<le> n" for n
      using that bit_take_bit_iff [of 8 x n] by (auto simp: not_less)
    then have no: "\<not> bit x n" if "n < 8" for n using that by force
    have "(crc_bit ^^ k) x = drop_bit k x" if "k \<le> 8" for k
      using that
    proof (induction k)
      case (Suc k)
      then have "(crc_bit ^^ Suc k) x = crc_bit (drop_bit k x)" by simp
      also have "\<dots> = drop_bit 1 (drop_bit k x)"
        using no [of k] Suc.prems by (simp add: crc_bit_def bit_drop_bit_eq)
      finally show ?case by (simp only: drop_bit_drop_bit plus_1_eq_Suc)
    qed simp
    then show ?thesis by (simp add: crc_byte_def)
  qed
  have split: "?r = (?r AND 0xFF) XOR push_bit 8 (drop_bit 8 ?r)"
    unfolding m by (rule bit_word_eqI) (auto simp: bit_simps)
  have dpd: "drop_bit 8 (push_bit 8 (drop_bit 8 y)) = drop_bit 8 y" for y :: u32
  proof (rule bit_word_eqI)
    fix n
    show "bit (drop_bit 8 (push_bit 8 (drop_bit 8 y))) n = bit (drop_bit 8 y) n"
      using bit_imp_le_length [of y "8 + n"] by (auto simp: bit_simps)
  qed
  have "take_bit 8 (push_bit 8 (drop_bit 8 ?r)) = 0"
    by (rule bit_word_eqI) (simp add: bit_simps)
  from high [OF this] have "crc_byte (push_bit 8 (drop_bit 8 ?r)) = drop_bit 8 ?r"
    by (simp only: dpd)
  moreover have "drop_bit 8 ?r = drop_bit 8 crc"
  proof (rule bit_word_eqI)
    fix n
    show "bit (drop_bit 8 ?r) n = bit (drop_bit 8 crc) n"
      using bit_imp_le_length [of crc "8 + n"] bit_imp_le_length [of p "8 + n"]
      by (auto simp: bit_simps)
  qed
  moreover have "crc_byte ?r = crc_byte ((?r AND 0xFF) XOR push_bit 8 (drop_bit 8 ?r))"
    by (rule arg_cong [OF split])
  ultimately show ?thesis by (simp only: crc_byte_xor tab crc_step_def)
qed

text \<open>A count that starts below zero never reaches zero.\<close>

lemma crc_loop_negative: "num < 0 \<Longrightarrow> - (2 ^ 31) \<le> num \<Longrightarrow> crc_loop crc buf num = None"
  by (induction crc buf num rule: crc_loop.induct) auto

lemma crc_loop_nonneg:
  "crc_loop crc buf (int n) = (if n \<le> length buf then Some (fold (\<lambda>p crc. crc_step crc p) (take n buf) crc) else None)"
proof (induction buf arbitrary: crc n)
  case (Cons p buf)
  show ?case
  proof (cases n)
    case (Suc m)
    then have "int n - 1 = int m" "int n \<noteq> 0" "int n \<noteq> - (2 ^ 31)" by simp_all
    then show ?thesis using Cons.IH [of "crc_step crc p" m] by (simp only: crc_loop.simps if_False) (simp add: Suc)
  qed simp
qed simp

lemma crc_count: "sint (ucast num :: u32) =
    (if unat num mod 2 ^ 32 < 2 ^ 31 then int (unat num mod 2 ^ 32) else int (unat num mod 2 ^ 32) - 2 ^ 32)"
  for num :: u64
proof -
  let ?s = "ucast num :: u32"
  have u: "unat ?s = unat num mod 2 ^ 32" by (simp add: unsigned_ucast_eq take_bit_eq_mod)
  have "uint ?s < 4294967296" using uint_lt2p [of ?s] by simp
  then have "2147483648 \<le> uint ?s \<Longrightarrow> uint ?s div 2147483648 = 1" by linarith
  then have "sint ?s = (if uint ?s < 2 ^ 31 then uint ?s else uint ?s - 2 ^ 32)"
    using uint_lt2p [of ?s] by (simp add: sint_uint not_less bit_iff_odd take_bit_int_eq_self signed_take_bit_eq_take_bit_minus)
  then show ?thesis by (simp add: uint_nat u)
qed

text \<open>
  C40: \<open>avb_crc32\<close> is the bit-serial CRC-32 with the reflected polynomial \<open>0xEDB88320\<close> of the
  first \<open>num\<close> octets of the buffer, where \<open>num\<close> counts as a 32-bit number: a size whose
  lower half is \<open>2 ^ 31\<close> or more, or more than the buffer holds, runs out of the buffer, and
  what is above bit 31 is dropped.
\<close>
theorem crc32_correct:
  "avb_crc32 buf num =
     (let n = unat num mod 2 ^ 32
      in if n < 2 ^ 31 \<and> n \<le> length buf then Some (crc32_serial (take n buf)) else None)"
proof -
  let ?n = "unat num mod 2 ^ 32"
  have lt: "?n < 2 ^ 32" by simp
  show ?thesis
  proof (cases "?n < 2 ^ 31")
    case True
    then show ?thesis
      by (simp add: avb_crc32_def iavb_crc32_def crc_count crc_loop_nonneg crc32_serial_def crc_step_serial Let_def)
  next
    case False
    have "int x - 2 ^ 32 < 0" if "x < 2 ^ 32" for x using that by simp
    from this [OF lt] have neg: "int ?n - 2 ^ 32 < 0" .
    from False have "- (2 ^ 31) \<le> int ?n - 2 ^ 32" by simp
    from crc_loop_negative [OF neg this] False show ?thesis
      by (simp only: avb_crc32_def iavb_crc32_def crc_count if_False Let_def) simp
  qed
qed

text \<open>A size that does not wrap, and one that does: 4 GiB give the CRC of nothing.\<close>

lemma avb_crc32_serial:
  assumes "n \<le> length buf" "n < 2 ^ 31"
  shows "avb_crc32 buf (word_of_nat n) = Some (crc32_serial (take n buf))"
proof -
  have "sint (ucast (word_of_nat n :: u64) :: u32) = int n"
    unfolding crc_count using assms(2) by (simp add: unat_of_nat)
  then show ?thesis
    using assms by (simp add: avb_crc32_def iavb_crc32_def crc_loop_nonneg crc32_serial_def crc_step_serial)
qed

lemma crc_size_wraps: "avb_crc32 buf (2 ^ 32) = Some 0"
  by (cases buf) (simp_all add: avb_crc32_def iavb_crc32_def)

end
