(* ===== verification/AvbReadOnly.thy ===== *)
theory AvbReadOnly
  imports AvbSlotVerify
begin

text \<open>
  Verification only reads.  The locale \<open>read_only\<close> states that an assertion on the world survives
  every operation of the platform other than \<open>write_to_partition\<close> and \<open>write_rollback_index\<close>; its
  conclusion is that it survives \<open>avb_slot_verify\<close>.
\<close>

locale read_only =
  fixes ops :: "'w AvbOps" and I :: "'w \<Rightarrow> bool"
  assumes malloc_keeps: "I w \<Longrightarrow> I (snd (ops_malloc ops n w))"
    and read_keeps: "I w \<Longrightarrow> I (snd (read_from_partition ops name off n w))"
    and preload_keeps: "get_preloaded_partition ops = Some preload \<Longrightarrow> I w \<Longrightarrow> I (snd (preload name n w))"
    and key_keeps: "I w \<Longrightarrow> I (snd (validate_vbmeta_public_key ops key metadata w))"
    and rollback_keeps: "I w \<Longrightarrow> I (snd (read_rollback_index ops loc w))"
    and unlocked_keeps: "I w \<Longrightarrow> I (snd (read_is_device_unlocked ops w))"
    and guid_keeps: "I w \<Longrightarrow> I (snd (get_unique_guid_for_partition ops name w))"
    and size_keeps: "get_size_of_partition ops = Some get_size \<Longrightarrow> I w \<Longrightarrow> I (snd (get_size name w))"
    and value_keeps: "read_persistent_value ops = Some read_value \<Longrightarrow> I w \<Longrightarrow> I (snd (read_value name n w))"
begin

lemma keeps_by:
  "m = Returned (r, w') \<Longrightarrow> I w \<Longrightarrow> (I w \<Longrightarrow> ensures (\<lambda>r. I (snd r)) m) \<Longrightarrow> I w'"
  by (auto simp: ensures_def)

text \<open>The results of the operations as equations, the form in which calls appear in the code.\<close>

lemma avb_malloc_keeps: "avb_malloc (ops_malloc ops) n w = (ok, w') \<Longrightarrow> I w \<Longrightarrow> I w'"
  using malloc_keeps [of w n] by (simp add: avb_malloc_def)

lemma ops_keep:
  "read_from_partition ops name off n w = (r1, w') \<Longrightarrow> I w \<Longrightarrow> I w'"
  "validate_vbmeta_public_key ops key metadata w = (r2, w') \<Longrightarrow> I w \<Longrightarrow> I w'"
  "read_rollback_index ops loc w = (r3, w') \<Longrightarrow> I w \<Longrightarrow> I w'"
  "read_is_device_unlocked ops w = (r4, w') \<Longrightarrow> I w \<Longrightarrow> I w'"
  "get_unique_guid_for_partition ops name w = (r5, w') \<Longrightarrow> I w \<Longrightarrow> I w'"
  "get_preloaded_partition ops = Some preload \<Longrightarrow> preload name n w = (r6, w') \<Longrightarrow> I w \<Longrightarrow> I w'"
  "get_size_of_partition ops = Some get_size \<Longrightarrow> get_size name w = (r7, w') \<Longrightarrow> I w \<Longrightarrow> I w'"
  "read_persistent_value ops = Some read_value \<Longrightarrow> read_value name n w = (r8, w') \<Longrightarrow> I w \<Longrightarrow> I w'"
  using read_keeps [of w name off n] key_keeps [of w key metadata] rollback_keeps [of w loc]
    unlocked_keeps [of w] guid_keeps [of w name] preload_keeps [of preload w name n]
    size_keeps [of get_size w name] value_keeps [of read_value w name n]
  by simp_all

lemma calloc_keeps: "avb_calloc (ops_malloc ops) n w = (r, w') \<Longrightarrow> I w \<Longrightarrow> I w'"
  by (auto simp: avb_calloc_def split: prod.splits if_splits dest: avb_malloc_keeps)

lemma strdup_keeps: "avb_strdup (ops_malloc ops) s w = (r, w') \<Longrightarrow> I w \<Longrightarrow> I w'"
  by (auto simp: avb_strdup_def split: prod.splits if_splits dest: avb_malloc_keeps)

lemma bin2hex_keeps: "avb_bin2hex (ops_malloc ops) s w = (r, w') \<Longrightarrow> I w \<Longrightarrow> I w'"
  by (auto simp: avb_bin2hex_def split: prod.splits if_splits dest: avb_malloc_keeps)

lemma strdupv_keeps: "avb_strdupv (ops_malloc ops) ss w = Returned (r, w') \<Longrightarrow> I w \<Longrightarrow> I w'"
  by (auto simp: avb_strdupv_def obind_Returned_iff Let_def split_def avb_malloc_def malloc_keeps split: if_splits)

lemma replace_loop_keeps:
  "I w \<Longrightarrow> case replace_loop (ops_malloc ops) search repl str ret w of
     Inl (_, w') \<Rightarrow> I w' | Inr (_, _, w') \<Rightarrow> I w'"
proof (induction "length str" arbitrary: str ret w rule: less_induct)
  case less
  have "length (drop (n + length search) str) < length str" if "avb_strstr str search = Some n" for n
    using avb_strstr_Some [OF that] by (auto intro: diff_less)
  note IH = less.hyps [OF this]
  show ?case
    using less.prems by (subst replace_loop.simps)
      (auto simp: Let_def split: option.split prod.split dest: avb_malloc_keeps intro!: IH)
qed

lemma replace_keeps: "avb_replace (ops_malloc ops) str search repl w = (r, w') \<Longrightarrow> I w \<Longrightarrow> I w'"
  using replace_loop_keeps [of w search repl str None]
  by (auto simp: avb_replace_def Let_def split: sum.splits prod.splits option.splits if_splits
      dest: avb_malloc_keeps strdup_keeps)

lemmas memory_keeps = avb_malloc_keeps calloc_keeps strdup_keeps bin2hex_keeps strdupv_keeps replace_keeps

lemma parse_key_keeps: "iavb_parse_key_data (ops_malloc ops) key n w = Some (r, w') \<Longrightarrow> I w \<Longrightarrow> I w'"
  by (auto simp: iavb_parse_key_data_def Let_def split: prod.splits option.splits if_splits dest: avb_malloc_keeps)

lemma modpowF4_keeps: "modpowF4 (ops_malloc ops) key inout w = (r, w') \<Longrightarrow> I w \<Longrightarrow> I w'"
  by (auto simp: modpowF4_def Let_def split: prod.splits if_splits dest!: avb_malloc_keeps)

lemma rsa_verify_keeps:
  "avb_rsa_verify (ops_malloc ops) key kn sig sn hash hn pad pn w = Some (r, w') \<Longrightarrow> I w \<Longrightarrow> I w'"
  by (auto simp: avb_rsa_verify_def Let_def split: prod.splits option.splits if_splits
      dest!: avb_malloc_keeps parse_key_keeps modpowF4_keeps)

lemma vbmeta_verify_keeps:
  "avb_vbmeta_image_verify (ops_malloc ops) st base data w = Returned (r, pk, w') \<Longrightarrow> I w \<Longrightarrow> I w'"
  by (auto simp: avb_vbmeta_image_verify_def Let_def obind_Returned_iff split: if_splits option.splits
      dest: rsa_verify_keeps)

lemma get_all_keeps:
  "avb_descriptor_get_all (ops_malloc ops) fuel base data w = Returned (r, w') \<Longrightarrow> I w \<Longrightarrow> I w'"
  by (auto simp: avb_descriptor_get_all_def Let_def split_def obind_Returned_iff avb_calloc_def avb_malloc_def
      malloc_keeps split: option.splits if_splits)

text \<open>The command line.\<close>

lemma sub_guids_keeps: "sub_guids ops suf ps ret w = (r, w') \<Longrightarrow> I w \<Longrightarrow> I w'"
  by (induction ps arbitrary: ret w)
    (auto simp: Let_def split: prod.splits option.splits if_splits dest!: ops_keep(5) replace_keeps)

lemma sub_tokens_keeps: "sub_tokens (ops_malloc ops) l ret w = (r, w') \<Longrightarrow> I w \<Longrightarrow> I w'"
  by (induction l arbitrary: ret w) (auto split: prod.splits option.splits dest!: replace_keeps)

lemma sub_cmdline_keeps: "avb_sub_cmdline ops c suf boot subst w = (r, w') \<Longrightarrow> I w \<Longrightarrow> I w'"
  by (auto simp: avb_sub_cmdline_def split: prod.splits option.splits dest: sub_guids_keeps sub_tokens_keeps)

lemma append_keeps: "cmdline_append_option (ops_malloc ops) sd k v w = (r, w') \<Longrightarrow> I w \<Longrightarrow> I w'"
  by (auto simp: cmdline_append_option_def Let_def split: prod.splits option.splits dest: calloc_keeps)

lemma then_append_keeps:
  assumes "I (snd st)" and "\<And>sd w r w'. f sd w = (r, w') \<Longrightarrow> I w \<Longrightarrow> I w'"
  shows "I (snd (then_append st f))"
  using assms by (auto simp: then_append_def split: prod.splits)

lemma append_value_keeps:
  "cmdline_append_version (ops_malloc ops) sd k v v' w = (r, w') \<Longrightarrow> I w \<Longrightarrow> I w'"
  "cmdline_append_uint64_base10 (ops_malloc ops) sd k v w = (r, w') \<Longrightarrow> I w \<Longrightarrow> I w'"
  "cmdline_append_hex (ops_malloc ops) sd k d w = (r, w') \<Longrightarrow> I w \<Longrightarrow> I w'"
  by (auto simp: cmdline_append_version_def cmdline_append_uint64_base10_def cmdline_append_hex_def
      split: prod.splits option.splits dest: append_keeps bin2hex_keeps)

lemma append_digest_keeps: "I (snd st) \<Longrightarrow> I (snd (append_digest (ops_malloc ops) alg n d st))"
  unfolding append_digest_def by (intro then_append_keeps) (auto dest: append_keeps append_value_keeps)

lemma replace_verity_mode_keeps: "I (snd st) \<Longrightarrow> I (snd (replace_verity_mode (ops_malloc ops) a b st))"
  by (cases st) (auto simp: replace_verity_mode_def intro!: then_append_keeps split: prod.split option.split
      dest: replace_keeps append_keeps)

lemma append_verity_keeps: "I (snd st) \<Longrightarrow> I (snd (append_verity (ops_malloc ops) dis mode st))"
  by (cases mode) (auto simp: append_verity_def intro!: then_append_keeps replace_verity_mode_keeps dest: append_keeps)

lemma append_device_state_keeps: "I (snd st) \<Longrightarrow> I (snd (append_device_state ops st))"
  by (cases st) (auto simp: append_device_state_def intro!: then_append_keeps split: prod.split
      dest: ops_keep(4) append_keeps)

lemma append_options_keeps: "avb_append_options ops sd h alg mode w = Returned (r, w') \<Longrightarrow> I w \<Longrightarrow> I w'"
proof -
  assume a: "avb_append_options ops sd h alg mode w = Returned (r, w')" and w: "I w"
  let ?st = "append_device_state ops (then_append
         (then_append ((AVB_SLOT_VERIFY_RESULT_OK, sd), w)
           (\<lambda>sd. cmdline_append_option (ops_malloc ops) sd (ascii ''androidboot.vbmeta.device'')
              (ascii ''PARTUUID=$(ANDROID_VBMETA_PARTUUID)'')))
         (\<lambda>sd. cmdline_append_version (ops_malloc ops) sd (ascii ''androidboot.vbmeta.avb_version'') 1 1))"
  have "I (snd ?st)"
    by (intro append_device_state_keeps then_append_keeps) (use w in \<open>auto dest: append_keeps append_value_keeps\<close>)
  then have "ensures (\<lambda>st. I (snd st)) (append_vbmeta_digest ops alg ?st)"
    unfolding append_vbmeta_digest_def
    by (auto intro!: ensures_obindI append_digest_keeps split: prod.split)
  then have "ensures (\<lambda>st. I (snd st)) (avb_append_options ops sd h alg mode w)"
    unfolding avb_append_options_def by (auto intro!: ensures_obindI append_verity_keeps dest: ensuresD)
  from ensuresD [OF this a] show "I w'" by simp
qed

lemma add_digest_keeps:
  "avb_add_root_digest_substitution (ops_malloc ops) p d l w = Returned (r, w') \<Longrightarrow> I w \<Longrightarrow> I w'"
  by (erule (1) keeps_by, auto simp: avb_add_root_digest_substitution_def intro!: ensures_obindI
      split: option.split prod.split dest!: strdupv_keeps bin2hex_keeps)

text \<open>Loading partitions.\<close>

lemma load_full_keeps:
  "load_full_partition ops name n buf pre w = Returned (r, w') \<Longrightarrow> I w \<Longrightarrow> I w'"
  by (auto simp: load_full_partition_def obind_Returned_iff Let_def
      split: prod.splits option.splits if_splits dest!: avb_malloc_keeps ops_keep(1) ops_keep(6))

lemma persistent_keeps:
  "read_persistent_digest ops name n w = Returned (r, w') \<Longrightarrow> I w \<Longrightarrow> I w'"
proof (cases "read_persistent_value ops")
  case (Some f)
  note f = ops_keep(8) [OF Some]
  show "read_persistent_digest ops name n w = Returned (r, w') \<Longrightarrow> I w \<Longrightarrow> I w'"
    by (erule (1) keeps_by, auto simp: read_persistent_digest_def Some intro!: ensures_obindI
        split: prod.split option.split dest!: strdupv_keeps f)
qed (auto simp: read_persistent_digest_def)

lemma keep_partition_keeps:
  "keep_loaded_partition (ops_malloc ops) ret found n buf pre sd w = (r, w') \<Longrightarrow> I w \<Longrightarrow> I w'"
  by (auto simp: keep_loaded_partition_def split: if_splits prod.splits dest: strdup_keeps)

lemma hash_compare_keeps:
  "hash_compare ops name h d d' w = Returned (r, w') \<Longrightarrow> I w \<Longrightarrow> I w'"
  by (erule (1) keeps_by, auto simp: hash_compare_def Let_def intro!: ensures_obindI split: sum.split dest!: persistent_keeps)

lemma size_to_load_keeps: "hash_image_size_to_load ops allow name h w = (r, w') \<Longrightarrow> I w \<Longrightarrow> I w'"
  by (auto simp: hash_image_size_to_load_def split: if_splits option.splits prod.splits dest: ops_keep(7))

lemma compare_image_keeps:
  "I w \<Longrightarrow> ensures (\<lambda>r. I (snd r)) (load_and_compare_hash_image ops h mem found name n sd w)"
proof -
  have k: "I (snd (keep_loaded_partition (ops_malloc ops) ret found n buf pre sd w))" if "I w" for ret buf pre w
    using keep_partition_keeps that by (metis prod.collapse)
  show "I w \<Longrightarrow> ensures (\<lambda>r. I (snd r)) (load_and_compare_hash_image ops h mem found name n sd w)"
    by (auto simp: load_and_compare_hash_image_def Let_def intro!: ensures_obindI k
        split: option.splits prod.split dest!: load_full_keeps hash_compare_keeps)
qed

lemma hash_partition_keeps:
  "load_and_verify_hash_partition ops req suf allow mem sd w = Returned (r, w') \<Longrightarrow> I w \<Longrightarrow> I w'"
  by (erule (1) keeps_by, auto simp: load_and_verify_hash_partition_def Let_def intro!: ensures_obindI
      split: option.split prod.split sum.split intro!: compare_image_keeps dest!: size_to_load_keeps)

lemma requested_keeps:
  "load_requested_partitions ops req suf sd w = Returned (r, w') \<Longrightarrow> I w \<Longrightarrow> I w'"
proof -
  have loop: "I w \<Longrightarrow> ensures (\<lambda>r. I (snd r)) (load_requested_loop ops f suf req sd w)"
    if "get_size_of_partition ops = Some f" for f sd w
    by (induction req arbitrary: sd w)
      (auto intro!: ensures_obindI split: option.split prod.split
        dest!: ops_keep(7) [OF that] load_full_keeps strdup_keeps)
  then show "load_requested_partitions ops req suf sd w = Returned (r, w') \<Longrightarrow> I w \<Longrightarrow> I w'"
    by (auto simp: load_requested_partitions_def split: option.splits dest!: loop ensuresD)
qed

text \<open>A vbmeta image.\<close>

lemma locate_keeps: "locate_vbmeta ops name b w = Returned (r, w') \<Longrightarrow> I w \<Longrightarrow> I w'"
  by (erule (1) keeps_by, auto simp: locate_vbmeta_def intro!: ensures_obindI split: prod.split option.split
      dest!: ops_keep(1))

lemma public_key_keeps:
  "check_public_key ops allow main h buf pk ekey elen ret w = Returned (r, w') \<Longrightarrow> I w \<Longrightarrow> I w'"
  by (erule (1) keeps_by, auto simp: check_public_key_def Let_def intro!: ensures_obindI
      split: prod.split option.split dest!: ops_keep(2))

lemma rollback_index_keeps:
  "check_rollback_index ops allow loc h ret w = (r, w') \<Longrightarrow> I w \<Longrightarrow> I w'"
  by (auto simp: check_rollback_index_def split: prod.splits option.splits dest!: ops_keep(3))

lemma process_hash_keeps:
  "process_hash ops req suf allow mem ret st w = Returned (r, w') \<Longrightarrow> I w \<Longrightarrow> I w'"
  by (erule (1) keeps_by, auto simp: process_hash_def Let_def intro!: ensures_obindI dest!: hash_partition_keeps)

lemma process_cmdline_keeps:
  "process_kernel_cmdline (ops_malloc ops) flags mem ret st w = Returned (r, w') \<Longrightarrow> I w \<Longrightarrow> I w'"
  by (erule (1) keeps_by, auto simp: process_kernel_cmdline_def Let_def intro!: ensures_obindI
      split: prod.split option.split dest!: calloc_keeps)

lemma process_hashtree_keeps:
  "process_hashtree ops suf mem ret st w = Returned (r, w') \<Longrightarrow> I w \<Longrightarrow> I w'"
  by (erule (1) keeps_by, auto simp: process_hashtree_def Let_def intro!: ensures_obindI
      split: sum.split option.split dest!: persistent_keeps add_digest_keeps)

definition load_keeps :: "'w load_vbmeta \<Rightarrow> bool" where
  "load_keeps rec \<longleftrightarrow> (\<forall>flags loc name n ekey elen st w r w'.
     rec flags loc name n ekey elen st w = Returned (r, w') \<longrightarrow> I w \<longrightarrow> I w')"

lemma load_keepsD: "load_keeps rec \<Longrightarrow> rec flags loc name n ekey elen st w = Returned (r, w') \<Longrightarrow> I w \<Longrightarrow> I w'"
  unfolding load_keeps_def by blast

lemma process_chain_keeps:
  assumes "load_keeps rec"
  shows "process_chain rec main flags mem ret st w = Returned (r, w') \<Longrightarrow> I w \<Longrightarrow> I w'"
  by (erule (1) keeps_by, auto simp: process_chain_def Let_def intro!: ensures_obindI
      split: option.split dest!: load_keepsD [OF assms])

lemma process_descriptor_keeps:
  assumes "load_keeps rec"
  shows "process_descriptor rec ops req suf allow main flags mem ret st w = Returned (r, w') \<Longrightarrow> I w \<Longrightarrow> I w'"
  by (auto simp: process_descriptor_def obind_Returned_iff split: if_splits
      dest: process_hash_keeps process_chain_keeps [OF assms] process_cmdline_keeps process_hashtree_keeps)

lemma process_descriptors_keeps:
  assumes "load_keeps rec"
  shows "I w \<Longrightarrow> ensures (\<lambda>r. I (snd r))
    (process_descriptors (process_descriptor rec ops req suf allow main flags) buf ds ret st w)"
  by (induction ds arbitrary: ret st w)
    (auto intro!: ensures_obindI dest!: process_descriptor_keeps [OF assms])

lemma process_descriptors_keep:
  assumes "load_keeps rec"
  shows "process_descriptors (process_descriptor rec ops req suf allow main flags) buf ds ret st w = Returned (r, w') \<Longrightarrow>
    I w \<Longrightarrow> I w'"
  by (erule (1) keeps_by) (rule process_descriptors_keeps [OF assms])

lemma vbmeta_descriptors_keeps: "vbmeta_descriptors ops buf w = Returned (r, w') \<Longrightarrow> I w \<Longrightarrow> I w'"
  by (erule (1) keeps_by, auto simp: vbmeta_descriptors_def intro!: ensures_obindI split: option.split
      dest!: get_all_keeps)

lemma keep_image_keeps:
  "keep_vbmeta_image (ops_malloc ops) main name buf h vret st w = Returned (r, w') \<Longrightarrow> I w \<Longrightarrow> I w'"
  by (erule (1) keeps_by, auto simp: keep_vbmeta_image_def Let_def intro!: ensures_obindI split: prod.split
      dest!: strdup_keeps)

lemma verify_loaded_keeps:
  assumes "load_keeps rec"
  shows "verify_loaded_vbmeta rec ops req suf allow flags loc name ekey elen buf st w = Returned (r, w') \<Longrightarrow>
    I w \<Longrightarrow> I w'"
  by (erule (1) keeps_by, unfold verify_loaded_vbmeta_def Let_def,
      auto intro!: ensures_obindI split: prod.split sum.split option.split
      dest!: vbmeta_verify_keeps public_key_keeps rollback_index_keeps keep_image_keeps requested_keeps
        vbmeta_descriptors_keeps process_descriptors_keep [OF assms])

lemma body_keeps:
  assumes "load_keeps rec"
  shows "load_keeps (load_and_verify_vbmeta_body rec ops req suf allow)"
proof -
  note v = verify_loaded_keeps [OF assms]
  have rec: "I w \<Longrightarrow> ensures (\<lambda>r. I (snd r)) (rec flags loc name n ekey elen st w)"
    for flags loc name n ekey elen st w
    using load_keepsD [OF assms] by (auto simp: ensures_def)
  have ver: "I w \<Longrightarrow> ensures (\<lambda>r. I (snd r)) (verify_loaded_vbmeta rec ops req suf allow flags loc name ekey elen buf st w)"
    for flags loc name ekey elen buf st w
    using v by (auto simp: ensures_def)
  have "I w \<Longrightarrow> ensures (\<lambda>r. I (snd r))
      (load_and_verify_vbmeta_body rec ops req suf allow flags loc name n ekey elen st w)"
    for flags loc name n ekey elen st w
    unfolding load_and_verify_vbmeta_body_def Let_def
    by (auto intro!: ensures_obindI rec ver split: option.split sum.split prod.split
        dest!: locate_keeps avb_malloc_keeps ops_keep(1))
  then show ?thesis unfolding load_keeps_def by (auto simp: ensures_def)
qed

lemma load_vbmeta_keeps: "load_keeps (load_and_verify_vbmeta n ops req suf allow)"
  by (induction n) (simp_all add: body_keeps, simp add: load_keeps_def)

lemma mangle_keeps: "mangle_cmdline ops suf mode alg subst sd w = Returned (r, w') \<Longrightarrow> I w \<Longrightarrow> I w'"
  by (erule (1) keeps_by, unfold mangle_cmdline_def Let_def,
      auto simp: obind_Returned_iff intro!: ensures_obindI split: list.split option.splits sum.split prod.splits if_splits
      dest!: strdup_keeps append_options_keeps sub_cmdline_keeps)

lemma allocations_keep: "allocations (ops_malloc ops) ns w = (r, w') \<Longrightarrow> I w \<Longrightarrow> I w'"
  by (induction ns arbitrary: w) (auto split: prod.splits option.splits dest!: calloc_keeps)

lemma verify_keeps:
  "avb_slot_verify ops req suf flags mode want w = Returned (r, w') \<Longrightarrow> I w \<Longrightarrow> I w'"
  by (erule (1) keeps_by, unfold avb_slot_verify_def Let_def,
      auto simp del: load_and_verify_vbmeta.simps intro!: ensures_obindI split: prod.split sum.split bool.split
        dest!: allocations_keep load_keepsD [OF load_vbmeta_keeps] mangle_keeps)

end

end
