(* ===== verification/AvbAbFlow.thy ===== *)
theory AvbAbFlow
  imports AvbReadOnly AvbCrc32
begin

text \<open>
  \<open>Application/UefiAvb/libavb_ab/avb_ab_flow.c\<close>: the A/B metadata in the \<open>misc\<close> partition, the
  selection of a slot to boot and the three operations that mark a slot.

  A structure is a record; \<open>ab_data_mem\<close> is its packed memory image of 32 octets and
  \<open>ab_data_of_mem\<close> the structure laid over octets read from the disk.
\<close>

subsection \<open>The metadata\<close>

record AvbABSlotData =
  priority :: u8
  tries_remaining :: u8
  successful_boot :: u8
  slot_reserved :: u8

record AvbABData =
  ab_magic :: bytes
  version_major :: u8
  version_minor :: u8
  reserved1 :: bytes
  slots :: "AvbABSlotData list"
  reserved2 :: bytes
  ab_crc32 :: u32

definition AVB_AB_MAGIC :: bytes where
  "AVB_AB_MAGIC = [0, 65, 66, 48]"

definition AVB_AB_MAX_PRIORITY :: u8 where
  "AVB_AB_MAX_PRIORITY = 15"

definition AVB_AB_MAX_TRIES_REMAINING :: u8 where
  "AVB_AB_MAX_TRIES_REMAINING = 7"

definition ab_slot_mem :: "AvbABSlotData \<Rightarrow> bytes" where
  "ab_slot_mem s = [priority s, tries_remaining s, successful_boot s, slot_reserved s]"

definition ab_data_mem :: "AvbABData \<Rightarrow> bytes" where
  "ab_data_mem d = ab_magic d @ [version_major d, version_minor d] @ reserved1 d @
     concat (map ab_slot_mem (slots d)) @ reserved2 d @ mem32 (ab_crc32 d)"

definition ab_slot_of_mem :: "bytes \<Rightarrow> AvbABSlotData" where
  "ab_slot_of_mem m = \<lparr>priority = m ! 0, tries_remaining = m ! 1, successful_boot = m ! 2, slot_reserved = m ! 3\<rparr>"

definition ab_data_of_mem :: "bytes \<Rightarrow> AvbABData" where
  "ab_data_of_mem m = \<lparr>ab_magic = take 4 m, version_major = m ! 4, version_minor = m ! 5,
     reserved1 = take 2 (drop 6 m), slots = [ab_slot_of_mem (drop 8 m), ab_slot_of_mem (drop 12 m)],
     reserved2 = take 12 (drop 16 m), ab_crc32 = load32 (drop 28 m)\<rparr>"

text \<open>
  Verification returns what is left in the destination; the magic is checked before it is
  written.  The CRC covers the 28 octets in front of it, which the 32 octets of the structure
  always hold.
\<close>

definition avb_ab_data_verify_and_byteswap :: "AvbABData \<Rightarrow> AvbABData \<Rightarrow> bool \<times> AvbABData" where
  "avb_ab_data_verify_and_byteswap src dest0 =
     (if avb_safe_memcmp (ab_magic src) AVB_AB_MAGIC 4 \<noteq> Some 0 then (False, dest0)
      else
        let dest = src\<lparr>ab_crc32 := avb_be32toh (ab_crc32 src)\<rparr>
        in if version_major dest > 1 then (False, dest)
           else if Some (ab_crc32 dest) \<noteq> avb_crc32 (ab_data_mem dest) 28 then (False, dest)
           else (True, dest))"

definition avb_ab_data_update_crc_and_byteswap :: "AvbABData \<Rightarrow> AvbABData" where
  "avb_ab_data_update_crc_and_byteswap src =
     (case avb_crc32 (ab_data_mem src) 28 of
        Some crc \<Rightarrow> src\<lparr>ab_crc32 := avb_htobe32 crc\<rparr>
      | None \<Rightarrow> src)"

definition avb_ab_data_init :: AvbABData where
  "avb_ab_data_init = \<lparr>ab_magic = AVB_AB_MAGIC, version_major = 1, version_minor = 0, reserved1 = [0, 0],
     slots = [\<lparr>priority = AVB_AB_MAX_PRIORITY, tries_remaining = AVB_AB_MAX_TRIES_REMAINING,
                successful_boot = 0, slot_reserved = 0\<rparr>,
              \<lparr>priority = AVB_AB_MAX_PRIORITY - 1, tries_remaining = AVB_AB_MAX_TRIES_REMAINING,
                successful_boot = 0, slot_reserved = 0\<rparr>],
     reserved2 = replicate 12 0, ab_crc32 = 0\<rparr>"

definition AB_METADATA_MISC_PARTITION_OFFSET :: int where
  "AB_METADATA_MISC_PARTITION_OFFSET = 2048"

definition avb_ab_data_write :: "'w AvbOps \<Rightarrow> AvbABData \<Rightarrow> 'w \<Rightarrow> AvbIOResult \<times> 'w" where
  "avb_ab_data_write ops data w =
     (let serialized = avb_ab_data_update_crc_and_byteswap data;
          (io_ret, w') = write_to_partition ops (ascii ''misc'') AB_METADATA_MISC_PARTITION_OFFSET
             (ab_data_mem serialized) w
      in (if io_ret = AVB_IO_RESULT_ERROR_OOM then AVB_IO_RESULT_ERROR_OOM
          else if io_ret \<noteq> AVB_IO_RESULT_OK then AVB_IO_RESULT_ERROR_IO
          else AVB_IO_RESULT_OK, w'))"

text \<open>Reading returns what it stored through \<open>data\<close>, \<open>None\<close> for nothing.\<close>

definition avb_ab_data_read :: "'w AvbOps \<Rightarrow> 'w \<Rightarrow> (AvbIOResult \<times> AvbABData option) \<times> 'w" where
  "avb_ab_data_read ops w =
     (let ((io_ret, serialized), w1) = read_from_partition ops (ascii ''misc'') AB_METADATA_MISC_PARTITION_OFFSET 32 w
      in if io_ret = AVB_IO_RESULT_ERROR_OOM then ((AVB_IO_RESULT_ERROR_OOM, None), w1)
         else if io_ret \<noteq> AVB_IO_RESULT_OK \<or> length serialized \<noteq> 32 then ((AVB_IO_RESULT_ERROR_IO, None), w1)
         else (let src = ab_data_of_mem serialized;
                   (ok, dest) = avb_ab_data_verify_and_byteswap src src
               in if \<not> ok
                  then (let (r, w2) = avb_ab_data_write ops avb_ab_data_init w1
                        in ((r, Some avb_ab_data_init), w2))
                  else ((AVB_IO_RESULT_OK, Some dest), w1)))"

subsection \<open>Slots\<close>

definition slot_is_bootable :: "AvbABSlotData \<Rightarrow> bool" where
  "slot_is_bootable s \<longleftrightarrow> priority s > 0 \<and> (successful_boot s \<noteq> 0 \<or> tries_remaining s > 0)"

definition slot_set_unbootable :: "AvbABSlotData \<Rightarrow> AvbABSlotData" where
  "slot_set_unbootable s = s\<lparr>priority := 0, tries_remaining := 0, successful_boot := 0\<rparr>"

definition slot_normalize :: "AvbABSlotData \<Rightarrow> AvbABSlotData" where
  "slot_normalize s =
     (if priority s > 0 then
        let s1 = (if tries_remaining s = 0 \<and> \<not> successful_boot s \<noteq> 0 then slot_set_unbootable s else s)
        in if tries_remaining s1 > 0 \<and> successful_boot s1 \<noteq> 0 then slot_set_unbootable s1 else s1
      else slot_set_unbootable s)"

text \<open>
  The platform's operations on the metadata.  \<open>ab_stack\<close> is what the two local structures of a
  caller hold before anything is stored in them.
\<close>

record 'w AvbABOps =
  ab_base :: "'w AvbOps"
  read_ab_metadata :: "'w \<Rightarrow> (AvbIOResult \<times> AvbABData option) \<times> 'w"
  write_ab_metadata :: "AvbABData \<Rightarrow> 'w \<Rightarrow> AvbIOResult \<times> 'w"
  ab_stack :: "'w \<Rightarrow> AvbABData \<times> AvbABData"

text \<open>The result, \<open>ab_data\<close> and \<open>ab_data_orig\<close>.\<close>

definition load_metadata :: "'w AvbABOps \<Rightarrow> 'w \<Rightarrow> (AvbIOResult \<times> AvbABData \<times> AvbABData) \<times> 'w" where
  "load_metadata ab_ops w =
     (let (ab_data0, ab_data_orig0) = ab_stack ab_ops w;
          ((io_ret, stored), w1) = read_ab_metadata ab_ops w;
          ab_data = (case stored of None \<Rightarrow> ab_data0 | Some d \<Rightarrow> d)
      in if io_ret \<noteq> AVB_IO_RESULT_OK then ((io_ret, ab_data, ab_data_orig0), w1)
         else ((AVB_IO_RESULT_OK, ab_data\<lparr>slots := (slots ab_data)
                  [0 := slot_normalize (slots ab_data ! 0), 1 := slot_normalize (slots ab_data ! 1)]\<rparr>,
                ab_data), w1))"

definition save_metadata_if_changed :: "'w AvbABOps \<Rightarrow> AvbABData \<Rightarrow> AvbABData \<Rightarrow> 'w \<Rightarrow> AvbIOResult \<times> 'w" where
  "save_metadata_if_changed ab_ops ab_data ab_data_orig w =
     (if avb_safe_memcmp (ab_data_mem ab_data) (ab_data_mem ab_data_orig) 32 \<noteq> Some 0
      then write_ab_metadata ab_ops ab_data w
      else (AVB_IO_RESULT_OK, w))"

subsection \<open>Selecting a slot\<close>

datatype AvbABFlowResult =
    AVB_AB_FLOW_RESULT_OK
  | AVB_AB_FLOW_RESULT_OK_WITH_VERIFICATION_ERROR
  | AVB_AB_FLOW_RESULT_ERROR_OOM
  | AVB_AB_FLOW_RESULT_ERROR_IO
  | AVB_AB_FLOW_RESULT_ERROR_NO_BOOTABLE_SLOTS
  | AVB_AB_FLOW_RESULT_ERROR_INVALID_ARGUMENT

definition slot_suffixes :: "bytes list" where
  "slot_suffixes = [ascii ''_a'', ascii ''_b'']"

text \<open>
  The local variables of \<open>avb_ab_flow\<close> that its loops change: the metadata, what was loaded for
  each slot, and whether a verification error was seen and allowed.
\<close>

record flow_state =
  fs_data :: AvbABData
  fs_slot_data :: "AvbSlotVerifyData option list"
  fs_allowed :: bool

definition set_slot :: "nat \<Rightarrow> AvbABSlotData \<Rightarrow> AvbABData \<Rightarrow> AvbABData" where
  "set_slot n s d = d\<lparr>slots := (slots d)[n := s]\<rparr>"

text \<open>One turn of the first loop; \<open>Some ret\<close> is a jump to \<open>out\<close>.\<close>

definition verify_slot ::
  "'w AvbABOps \<Rightarrow> bytes list \<Rightarrow> u32 \<Rightarrow> AvbHashtreeErrorMode \<Rightarrow> nat \<Rightarrow> flow_state \<Rightarrow> 'w \<Rightarrow>
   ((AvbABFlowResult option \<times> flow_state) \<times> 'w) outcome" where
  "verify_slot ab_ops requested_partitions flags hashtree_error_mode n st w =
     (if slot_is_bootable (slots (fs_data st) ! n)
      then obind (avb_slot_verify (ab_base ab_ops) requested_partitions (slot_suffixes ! n) flags
             hashtree_error_mode True w) (\<lambda>((verify_result, slot_data), w1).
        let st1 = st\<lparr>fs_slot_data := (fs_slot_data st)[n := slot_data]\<rparr>;
            unbootable = st1\<lparr>fs_data := set_slot n (slot_set_unbootable (slots (fs_data st) ! n)) (fs_data st)\<rparr>;
            error = (if flags AND 1 \<noteq> 0 then (None, st1\<lparr>fs_allowed := True\<rparr>) else (None, unbootable))
        in Returned (case verify_result of
             AVB_SLOT_VERIFY_RESULT_ERROR_OOM \<Rightarrow> (Some AVB_AB_FLOW_RESULT_ERROR_OOM, st1)
           | AVB_SLOT_VERIFY_RESULT_ERROR_IO \<Rightarrow> (Some AVB_AB_FLOW_RESULT_ERROR_IO, st1)
           | AVB_SLOT_VERIFY_RESULT_OK \<Rightarrow> (None, st1)
           | AVB_SLOT_VERIFY_RESULT_ERROR_INVALID_METADATA \<Rightarrow> (None, unbootable)
           | AVB_SLOT_VERIFY_RESULT_ERROR_UNSUPPORTED_VERSION \<Rightarrow> (None, unbootable)
           | AVB_SLOT_VERIFY_RESULT_ERROR_VERIFICATION \<Rightarrow> error
           | AVB_SLOT_VERIFY_RESULT_ERROR_ROLLBACK_INDEX \<Rightarrow> error
           | AVB_SLOT_VERIFY_RESULT_ERROR_PUBLIC_KEY_REJECTED \<Rightarrow> error
           | AVB_SLOT_VERIFY_RESULT_ERROR_INVALID_ARGUMENT \<Rightarrow>
               (Some AVB_AB_FLOW_RESULT_ERROR_INVALID_ARGUMENT, st1), w1))
      else Returned ((None, st), w))"

fun verify_slots ::
  "'w AvbABOps \<Rightarrow> bytes list \<Rightarrow> u32 \<Rightarrow> AvbHashtreeErrorMode \<Rightarrow> nat list \<Rightarrow> flow_state \<Rightarrow> 'w \<Rightarrow>
   ((AvbABFlowResult option \<times> flow_state) \<times> 'w) outcome" where
  "verify_slots ab_ops requested_partitions flags hashtree_error_mode [] st w = Returned ((None, st), w)"
| "verify_slots ab_ops requested_partitions flags hashtree_error_mode (n # ns) st w =
     obind (verify_slot ab_ops requested_partitions flags hashtree_error_mode n st w) (\<lambda>((ret, st1), w1).
       case ret of Some r \<Rightarrow> Returned ((Some r, st1), w1)
       | None \<Rightarrow> verify_slots ab_ops requested_partitions flags hashtree_error_mode ns st1 w1)"

definition select_slot :: "AvbABData \<Rightarrow> nat option" where
  "select_slot ab_data =
     (if slot_is_bootable (slots ab_data ! 0) \<and> slot_is_bootable (slots ab_data ! 1)
      then (if priority (slots ab_data ! 1) > priority (slots ab_data ! 0) then Some 1 else Some 0)
      else if slot_is_bootable (slots ab_data ! 0) then Some 0
      else if slot_is_bootable (slots ab_data ! 1) then Some 1
      else None)"

text \<open>The rollback index to store at a location: the smallest of the verified slots, 0 for none.\<close>

definition new_rollback_index :: "AvbSlotVerifyData option list \<Rightarrow> nat \<Rightarrow> u64" where
  "new_rollback_index slot_data n = (case (slot_data ! 0, slot_data ! 1) of
     (Some a, Some b) \<Rightarrow> (if rollback_indexes a ! n < rollback_indexes b ! n
                          then rollback_indexes a ! n else rollback_indexes b ! n)
   | (Some a, None) \<Rightarrow> rollback_indexes a ! n
   | (None, Some b) \<Rightarrow> rollback_indexes b ! n
   | (None, None) \<Rightarrow> 0)"

fun update_rollback_indexes ::
  "'w AvbOps \<Rightarrow> AvbSlotVerifyData option list \<Rightarrow> nat list \<Rightarrow> 'w \<Rightarrow> AvbABFlowResult option \<times> 'w" where
  "update_rollback_indexes ops slot_data [] w = (None, w)"
| "update_rollback_indexes ops slot_data (n # ns) w =
     (let rollback_index_value = new_rollback_index slot_data n
      in if rollback_index_value = 0 then update_rollback_indexes ops slot_data ns w
         else (case read_rollback_index ops n w of ((io_ret, current), w1) \<Rightarrow>
           if io_ret = AVB_IO_RESULT_ERROR_OOM then (Some AVB_AB_FLOW_RESULT_ERROR_OOM, w1)
           else if io_ret \<noteq> AVB_IO_RESULT_OK then (Some AVB_AB_FLOW_RESULT_ERROR_IO, w1)
           else if current \<noteq> rollback_index_value
           then (case write_rollback_index ops n rollback_index_value w1 of (io_ret, w2) \<Rightarrow>
             if io_ret = AVB_IO_RESULT_ERROR_OOM then (Some AVB_AB_FLOW_RESULT_ERROR_OOM, w2)
             else if io_ret \<noteq> AVB_IO_RESULT_OK then (Some AVB_AB_FLOW_RESULT_ERROR_IO, w2)
             else update_rollback_indexes ops slot_data ns w2)
           else update_rollback_indexes ops slot_data ns w1))"

text \<open>From the verified slots to the label \<open>out\<close>: result, metadata to save and selected data.\<close>

definition decrement_tries :: "AvbABSlotData \<Rightarrow> AvbABSlotData" where
  "decrement_tries s = (if \<not> successful_boot s \<noteq> 0 \<and> tries_remaining s > 0
     then s\<lparr>tries_remaining := tries_remaining s - 1\<rparr> else s)"

definition choose_slot ::
  "'w AvbOps \<Rightarrow> u32 \<Rightarrow> flow_state \<Rightarrow> 'w \<Rightarrow>
   ((AvbABFlowResult \<times> AvbABData \<times> AvbSlotVerifyData option) \<times> 'w) outcome" where
  "choose_slot ops flags st w =
     (let ab_data = fs_data st in
      case select_slot ab_data of
        None \<Rightarrow> Returned ((AVB_AB_FLOW_RESULT_ERROR_NO_BOOTABLE_SLOTS, ab_data, None), w)
      | Some slot_index_to_boot \<Rightarrow>
        (case update_rollback_indexes ops (fs_slot_data st) [0..<32] w of
           (Some r, w1) \<Rightarrow> Returned ((r, ab_data, None), w1)
         | (None, w1) \<Rightarrow>
           obind (avb_assert (fs_slot_data st ! slot_index_to_boot \<noteq> None)) (\<lambda>_.
           obind (avb_assert (fs_allowed st \<longrightarrow> flags AND 1 \<noteq> 0)) (\<lambda>_.
             Returned ((if fs_allowed st then AVB_AB_FLOW_RESULT_OK_WITH_VERIFICATION_ERROR
                        else AVB_AB_FLOW_RESULT_OK,
                set_slot slot_index_to_boot (decrement_tries (slots ab_data ! slot_index_to_boot)) ab_data,
                fs_slot_data st ! slot_index_to_boot), w1)))))"

definition flow_body ::
  "'w AvbABOps \<Rightarrow> bytes list \<Rightarrow> u32 \<Rightarrow> AvbHashtreeErrorMode \<Rightarrow> AvbABData \<Rightarrow> 'w \<Rightarrow>
   ((AvbABFlowResult \<times> AvbABData \<times> AvbSlotVerifyData option) \<times> 'w) outcome" where
  "flow_body ab_ops requested_partitions flags hashtree_error_mode ab_data w =
     obind (verify_slots ab_ops requested_partitions flags hashtree_error_mode [0, 1]
              \<lparr>fs_data = ab_data, fs_slot_data = [None, None], fs_allowed = False\<rparr> w) (\<lambda>((ret, st), w1).
       case ret of Some r \<Rightarrow> Returned ((r, fs_data st, None), w1)
       | None \<Rightarrow> choose_slot (ab_base ab_ops) flags st w1)"

text \<open>The end of the function; \<open>want_data\<close> says that \<open>out_data\<close> is not \<open>NULL\<close>.\<close>

definition avb_ab_flow ::
  "'w AvbABOps \<Rightarrow> bytes list \<Rightarrow> u32 \<Rightarrow> AvbHashtreeErrorMode \<Rightarrow> bool \<Rightarrow> 'w \<Rightarrow>
   ((AvbABFlowResult \<times> AvbSlotVerifyData option) \<times> 'w) outcome" where
  "avb_ab_flow ab_ops requested_partitions flags hashtree_error_mode want_data w =
     (case load_metadata ab_ops w of ((io_ret, ab_data, ab_data_orig), w1) \<Rightarrow>
       obind (if io_ret = AVB_IO_RESULT_ERROR_OOM
              then Returned ((AVB_AB_FLOW_RESULT_ERROR_OOM, ab_data, None), w1)
              else if io_ret \<noteq> AVB_IO_RESULT_OK
              then Returned ((AVB_AB_FLOW_RESULT_ERROR_IO, ab_data, None), w1)
              else flow_body ab_ops requested_partitions flags hashtree_error_mode ab_data w1)
         (\<lambda>((ret, ab_data', data), w2).
           case save_metadata_if_changed ab_ops ab_data' ab_data_orig w2 of (io_ret, w3) \<Rightarrow>
           if io_ret \<noteq> AVB_IO_RESULT_OK
           then Returned ((if io_ret = AVB_IO_RESULT_ERROR_OOM then AVB_AB_FLOW_RESULT_ERROR_OOM
                           else AVB_AB_FLOW_RESULT_ERROR_IO, None), w3)
           else Returned ((ret, if want_data then data else None), w3)))"

subsection \<open>Marking a slot\<close>

text \<open>The common frame of the three operations: load, change, save.\<close>

definition with_metadata ::
  "'w AvbABOps \<Rightarrow> (AvbABData \<Rightarrow> AvbABData) \<Rightarrow> 'w \<Rightarrow> AvbIOResult \<times> 'w" where
  "with_metadata ab_ops change w =
     (case load_metadata ab_ops w of ((ret, ab_data, ab_data_orig), w1) \<Rightarrow>
       if ret \<noteq> AVB_IO_RESULT_OK then (ret, w1)
       else save_metadata_if_changed ab_ops (change ab_data) ab_data_orig w1)"

definition make_active :: "nat \<Rightarrow> AvbABData \<Rightarrow> AvbABData" where
  "make_active slot_number ab_data =
     (let d1 = set_slot slot_number ((slots ab_data ! slot_number)\<lparr>priority := AVB_AB_MAX_PRIORITY,
                 tries_remaining := AVB_AB_MAX_TRIES_REMAINING, successful_boot := 0\<rparr>) ab_data;
          other_slot_number = 1 - slot_number
      in if priority (slots d1 ! other_slot_number) = AVB_AB_MAX_PRIORITY
         then set_slot other_slot_number ((slots d1 ! other_slot_number)\<lparr>priority := AVB_AB_MAX_PRIORITY - 1\<rparr>) d1
         else d1)"

definition make_unbootable :: "nat \<Rightarrow> AvbABData \<Rightarrow> AvbABData" where
  "make_unbootable slot_number ab_data =
     set_slot slot_number (slot_set_unbootable (slots ab_data ! slot_number)) ab_data"

definition make_successful :: "nat \<Rightarrow> AvbABData \<Rightarrow> AvbABData" where
  "make_successful slot_number ab_data =
     (if \<not> slot_is_bootable (slots ab_data ! slot_number) then ab_data
      else set_slot slot_number ((slots ab_data ! slot_number)\<lparr>tries_remaining := 0, successful_boot := 1\<rparr>) ab_data)"

definition avb_ab_mark_slot_active :: "'w AvbABOps \<Rightarrow> nat \<Rightarrow> 'w \<Rightarrow> (AvbIOResult \<times> 'w) outcome" where
  "avb_ab_mark_slot_active ab_ops slot_number w =
     obind (avb_assert (slot_number < 2)) (\<lambda>_. Returned (with_metadata ab_ops (make_active slot_number) w))"

definition avb_ab_mark_slot_unbootable :: "'w AvbABOps \<Rightarrow> nat \<Rightarrow> 'w \<Rightarrow> (AvbIOResult \<times> 'w) outcome" where
  "avb_ab_mark_slot_unbootable ab_ops slot_number w =
     obind (avb_assert (slot_number < 2)) (\<lambda>_. Returned (with_metadata ab_ops (make_unbootable slot_number) w))"

definition avb_ab_mark_slot_successful :: "'w AvbABOps \<Rightarrow> nat \<Rightarrow> 'w \<Rightarrow> (AvbIOResult \<times> 'w) outcome" where
  "avb_ab_mark_slot_successful ab_ops slot_number w =
     obind (avb_assert (slot_number < 2)) (\<lambda>_. Returned (with_metadata ab_ops (make_successful slot_number) w))"

definition avb_ab_flow_result_to_string :: "AvbABFlowResult \<Rightarrow> string" where
  "avb_ab_flow_result_to_string result = (case result of
     AVB_AB_FLOW_RESULT_OK \<Rightarrow> ''OK''
   | AVB_AB_FLOW_RESULT_OK_WITH_VERIFICATION_ERROR \<Rightarrow> ''OK_WITH_VERIFICATION_ERROR''
   | AVB_AB_FLOW_RESULT_ERROR_OOM \<Rightarrow> ''ERROR_OOM''
   | AVB_AB_FLOW_RESULT_ERROR_IO \<Rightarrow> ''ERROR_IO''
   | AVB_AB_FLOW_RESULT_ERROR_NO_BOOTABLE_SLOTS \<Rightarrow> ''ERROR_NO_BOOTABLE_SLOTS''
   | AVB_AB_FLOW_RESULT_ERROR_INVALID_ARGUMENT \<Rightarrow> ''ERROR_INVALID_ARGUMENT'')"

end
