(* ===== verification/UefiAvbOps.thy ===== *)
theory UefiAvbOps
  imports AvbAbFlow
begin

text \<open>
  \<open>Application/UefiAvb/uefi_avb_ops.c\<close> and \<open>uefi_avb_util.c\<close>: the platform of libavb on UEFI.  The
  partitions are found in the GUID partition table of a disk.

  The firmware's protocols are a record of functions on the world: the pool allocator, block reads
  (\<open>EFI_BLOCK_IO\<close>) and octet reads and writes (\<open>EFI_DISK_IO\<close>), \<open>None\<close> or \<open>False\<close> for an error
  status.
\<close>

subsection \<open>UTF-8 to UCS-2\<close>

text \<open>
  One character of \<open>uefi_avb_utf8_to_ucs2\<close> at the memory \<open>mem\<close>: the code unit and the number of
  octets read, \<open>None\<close> for an invalid lead.
\<close>

definition ucs2_char :: "bytes \<Rightarrow> (u16 \<times> nat) option outcome" where
  "ucs2_char mem = (case mem of
     [] \<Rightarrow> Faulted
   | c # r \<Rightarrow>
       if c AND 0xF8 = 0xF0 then Returned None
       else if c AND 0xF0 = 0xE0
       then (case r of c1 # c2 # _ \<Rightarrow>
               Returned (Some (push_bit 12 (ucast c) OR (push_bit 6 (ucast c1) AND 0x0FC0) OR (ucast c2 AND 0x003F), 3))
             | _ \<Rightarrow> Faulted)
       else if c AND 0xE0 = 0xC0
       then (case r of c1 # _ \<Rightarrow>
               Returned (Some ((push_bit 6 (ucast c) AND 0x07C0) OR (ucast c1 AND 0x003F), 2))
             | _ \<Rightarrow> Faulted)
       else if drop_bit 7 c = 0 then Returned (Some (ucast c AND 0x00FF, 1))
       else Returned None)"

lemma ucs2_char_pos: "ucs2_char mem = Returned (Some (u, k)) \<Longrightarrow> 0 < k"
  by (auto simp: ucs2_char_def split: list.splits if_splits)

text \<open>
  The loop: \<open>left\<close> is \<open>utf8_num_bytes - i8\<close> and \<open>out\<close> the units written, whose number is compared
  with the capacity in octets.  A write past the capacity is \<open>Faulted\<close>.
\<close>

function ucs2_loop :: "nat \<Rightarrow> nat \<Rightarrow> bytes \<Rightarrow> u16 list \<Rightarrow> u16 list option outcome" where
  "ucs2_loop capacity left mem out =
     (if length out \<ge> capacity then Returned (Some out)
      else (case ucs2_char mem of
          Returned (Some (u, k)) \<Rightarrow>
            if 2 * length out + 2 > capacity then Faulted
            else if k < left then ucs2_loop capacity (left - k) (drop k mem) (out @ [u])
            else Returned (Some (out @ [u]))
        | Returned None \<Rightarrow> Returned None
        | Aborted \<Rightarrow> Aborted | Faulted \<Rightarrow> Faulted | Unfinished \<Rightarrow> Unfinished))"
  by pat_completeness auto
termination
  by (relation "measure (\<lambda>(capacity, left, mem, out). left)") (auto dest: ucs2_char_pos)

declare ucs2_loop.simps [simp del]

definition uefi_avb_utf8_to_ucs2 :: "bytes \<Rightarrow> nat \<Rightarrow> nat \<Rightarrow> u16 list option outcome" where
  "uefi_avb_utf8_to_ucs2 utf8_data utf8_num_bytes capacity = ucs2_loop capacity utf8_num_bytes utf8_data []"

subsection \<open>The partition table\<close>

definition GPT_ENTRIES_LBA :: u64 where
  "GPT_ENTRIES_LBA = 2"

definition ENTRIES_PER_BLOCK :: nat where
  "ENTRIES_PER_BLOCK = 4"

definition MAX_GPT_ENTRIES :: nat where
  "MAX_GPT_ENTRIES = 128"

definition GPT_MAGIC :: bytes where
  "GPT_MAGIC = ascii ''EFI PART''"

record GPTHeader =
  gpt_signature :: bytes
  gpt_revision :: u32
  gpt_header_size :: u32
  header_crc32 :: u32
  gpt_reserved :: u32
  header_lba :: u64
  alternate_header_lba :: u64
  first_usable_lba :: u64
  last_usable_lba :: u64
  disk_guid :: bytes
  entry_lba :: u64
  entry_count :: u32
  entry_size :: u32
  entry_crc32 :: u32
  gpt_reserved2 :: bytes

definition gpt_header_of_mem :: "bytes \<Rightarrow> GPTHeader" where
  "gpt_header_of_mem m = \<lparr>gpt_signature = take 8 m, gpt_revision = load32 (drop 8 m),
     gpt_header_size = load32 (drop 12 m), header_crc32 = load32 (drop 16 m), gpt_reserved = load32 (drop 20 m),
     header_lba = load64 (drop 24 m), alternate_header_lba = load64 (drop 32 m),
     first_usable_lba = load64 (drop 40 m), last_usable_lba = load64 (drop 48 m), disk_guid = take 16 (drop 56 m),
     entry_lba = load64 (drop 72 m), entry_count = load32 (drop 80 m), entry_size = load32 (drop 84 m),
     entry_crc32 = load32 (drop 88 m), gpt_reserved2 = take 420 (drop 92 m)\<rparr>"

record GPTEntry =
  type_GUID :: bytes
  unique_GUID :: bytes
  first_lba :: u64
  last_lba :: u64
  gpt_flags :: u64
  entry_name :: bytes

definition gpt_entry_of_mem :: "bytes \<Rightarrow> GPTEntry" where
  "gpt_entry_of_mem m = \<lparr>type_GUID = take 16 m, unique_GUID = take 16 (drop 16 m), first_lba = load64 (drop 32 m),
     last_lba = load64 (drop 40 m), gpt_flags = load64 (drop 48 m), entry_name = take 72 (drop 56 m)\<rparr>"

record 'w efi_device =
  dev_pool :: "'w alloc"
  dev_block_size :: u32
  dev_read_blocks :: "u64 \<Rightarrow> nat \<Rightarrow> 'w \<Rightarrow> bytes option \<times> 'w"
  dev_read_disk :: "u64 \<Rightarrow> nat \<Rightarrow> 'w \<Rightarrow> bytes option \<times> 'w"
  dev_write_disk :: "u64 \<Rightarrow> bytes \<Rightarrow> 'w \<Rightarrow> bool \<times> 'w"

text \<open>\<open>StrLen\<close> of a UCS-2 string in memory; the terminator has to be there.\<close>

fun c16_len :: "bytes \<Rightarrow> nat option" where
  "c16_len (a # b # rest) = (if a = 0 \<and> b = 0 then Some 0 else map_option Suc (c16_len rest))"
| "c16_len _ = None"

text \<open>
  The search through the array of 128 entries, \<open>left\<close> of \<open>entry_count\<close> still to look at, the memory
  being what follows.  \<open>entry_count\<close> is the disk's, so the search can leave the array.
\<close>

fun find_entry :: "bytes \<Rightarrow> nat \<Rightarrow> bytes \<Rightarrow> GPTEntry option outcome" where
  "find_entry name 0 mem = Returned None"
| "find_entry name (Suc left) mem =
     obind (checked (c16_len (drop 56 mem))) (\<lambda>len.
       if 2 * len = length name \<and> take (2 * len) (drop 56 mem) = name
       then obind (checked (slice 0 128 mem)) (\<lambda>e. Returned (Some (gpt_entry_of_mem e)))
       else find_entry name left (drop 128 mem))"

text \<open>
  The result of the second allocation is not checked (the code tests the pointer to the pointer),
  and the table is read into 16384 octets whatever the size of a block.
\<close>

definition find_partition_entry_by_name ::
  "'w efi_device \<Rightarrow> bytes \<Rightarrow> 'w \<Rightarrow> (GPTEntry option \<times> 'w) outcome" where
  "find_partition_entry_by_name dev partition_name w =
     (let (ok1, w1) = avb_malloc (dev_pool dev) 512 w
      in if \<not> ok1 then Returned (None, w1)
         else (let (ok2, w2) = avb_malloc (dev_pool dev) (128 * ENTRIES_PER_BLOCK) w1
          in (case dev_read_blocks dev 1 512 w2 of
                (None, w3) \<Rightarrow> Returned (None, w3)
              | (Some header, w3) \<Rightarrow>
                  (let n = length partition_name; capacity = 2 * (n + 1)
                   in case avb_calloc (dev_pool dev) capacity w3 of
                     (None, w4) \<Rightarrow> Returned (None, w4)
                   | (Some _, w4) \<Rightarrow>
                       obind (uefi_avb_utf8_to_ucs2 (partition_name @ [0]) n capacity) (\<lambda>units.
                         case units of None \<Rightarrow> Returned (None, w4)
                         | Some us \<Rightarrow>
                           let name = concat (map mem16 (takeWhile (\<lambda>u. u \<noteq> 0) us));
                               entries_num_bytes = unat (dev_block_size dev * 32)
                           in (case dev_read_blocks dev GPT_ENTRIES_LBA entries_num_bytes w4 of
                                 (None, w5) \<Rightarrow> Returned (None, w5)
                               | (Some entries, w5) \<Rightarrow>
                                   if entries_num_bytes > 128 * MAX_GPT_ENTRIES then Faulted
                                   else obind (find_entry name (unat (entry_count (gpt_header_of_mem header))) entries)
                                     (\<lambda>found.
                                       if found \<noteq> None \<and> \<not> ok2 then Faulted
                                       else Returned (found, w5))))))))"

subsection \<open>Reading and writing a partition\<close>

definition read_size :: "'w efi_device \<Rightarrow> GPTEntry \<Rightarrow> u64" where
  "read_size dev e = (last_lba e - first_lba e + 1) * ucast (dev_block_size dev)"

text \<open>Writing takes the last block of a partition for its end.\<close>

definition write_size :: "'w efi_device \<Rightarrow> GPTEntry \<Rightarrow> u64" where
  "write_size dev e = (last_lba e - first_lba e) * ucast (dev_block_size dev)"

text \<open>
  The offset in the partition as an unsigned value: negative offsets count from the end, \<open>None\<close> is
  out of range.
\<close>

definition partition_offset :: "u64 \<Rightarrow> int \<Rightarrow> u64 option" where
  "partition_offset partition_size offset_from_partition =
     (if offset_from_partition < 0
      then if - offset_from_partition > sint partition_size then None
           else Some (partition_size - word_of_int (- offset_from_partition))
      else Some (word_of_int offset_from_partition))"

definition uefi_read_from_partition ::
  "'w efi_device \<Rightarrow> bytes \<Rightarrow> int \<Rightarrow> nat \<Rightarrow> 'w \<Rightarrow> ((AvbIOResult \<times> bytes) \<times> 'w) outcome" where
  "uefi_read_from_partition dev partition_name offset_from_partition num_bytes w =
     obind (find_partition_entry_by_name dev partition_name w) (\<lambda>(entry, w1).
       case entry of None \<Rightarrow> Returned ((AVB_IO_RESULT_ERROR_NO_SUCH_PARTITION, []), w1)
       | Some e \<Rightarrow>
         let partition_size = read_size dev e
         in (case partition_offset partition_size offset_from_partition of
               None \<Rightarrow> Returned ((AVB_IO_RESULT_ERROR_RANGE_OUTSIDE_PARTITION, []), w1)
             | Some off \<Rightarrow>
               let out_num_read = (if of_nat num_bytes > partition_size - off then partition_size - off
                                   else of_nat num_bytes)
               in (case dev_read_disk dev (first_lba e * ucast (dev_block_size dev) + off) (unat out_num_read) w1 of
                     (None, w2) \<Rightarrow> Returned ((AVB_IO_RESULT_ERROR_IO, []), w2)
                   | (Some buf, w2) \<Rightarrow> Returned ((AVB_IO_RESULT_OK, buf), w2))))"

definition uefi_write_to_partition ::
  "'w efi_device \<Rightarrow> bytes \<Rightarrow> int \<Rightarrow> bytes \<Rightarrow> 'w \<Rightarrow> (AvbIOResult \<times> 'w) outcome" where
  "uefi_write_to_partition dev partition_name offset_from_partition buf w =
     obind (find_partition_entry_by_name dev partition_name w) (\<lambda>(entry, w1).
       case entry of None \<Rightarrow> Returned (AVB_IO_RESULT_ERROR_NO_SUCH_PARTITION, w1)
       | Some e \<Rightarrow>
         let partition_size = write_size dev e
         in (case partition_offset partition_size offset_from_partition of
               None \<Rightarrow> Returned (AVB_IO_RESULT_ERROR_RANGE_OUTSIDE_PARTITION, w1)
             | Some off \<Rightarrow>
               if of_nat (length buf) > partition_size - off
               then Returned (AVB_IO_RESULT_ERROR_RANGE_OUTSIDE_PARTITION, w1)
               else (case dev_write_disk dev (first_lba e * ucast (dev_block_size dev) + off) buf w1 of
                     (ok, w2) \<Rightarrow> Returned (if \<not> ok then AVB_IO_RESULT_ERROR_IO else AVB_IO_RESULT_OK, w2))))"

definition uefi_get_size_of_partition ::
  "'w efi_device \<Rightarrow> bytes \<Rightarrow> 'w \<Rightarrow> ((AvbIOResult \<times> u64) \<times> 'w) outcome" where
  "uefi_get_size_of_partition dev partition_name w =
     obind (find_partition_entry_by_name dev partition_name w) (\<lambda>(entry, w1).
       Returned (case entry of None \<Rightarrow> ((AVB_IO_RESULT_ERROR_NO_SUCH_PARTITION, 0), w1)
         | Some e \<Rightarrow> ((AVB_IO_RESULT_OK, read_size dev e), w1)))"

definition set_hex :: "u8 \<Rightarrow> bytes" where
  "set_hex value0 = [hex_digits ! unat (drop_bit 4 value0), hex_digits ! unat (value0 AND 0x0f)]"

text \<open>The text of a GUID: the first three groups are stored least significant octet first.\<close>

definition guid_text :: "bytes \<Rightarrow> bytes" where
  "guid_text g = set_hex (g ! 3) @ set_hex (g ! 2) @ set_hex (g ! 1) @ set_hex (g ! 0) @ ascii ''-'' @
     set_hex (g ! 5) @ set_hex (g ! 4) @ ascii ''-'' @ set_hex (g ! 7) @ set_hex (g ! 6) @ ascii ''-'' @
     set_hex (g ! 8) @ set_hex (g ! 9) @ ascii ''-'' @ set_hex (g ! 10) @ set_hex (g ! 11) @
     set_hex (g ! 12) @ set_hex (g ! 13) @ set_hex (g ! 14) @ set_hex (g ! 15)"

definition uefi_get_unique_guid_for_partition ::
  "'w efi_device \<Rightarrow> bytes \<Rightarrow> 'w \<Rightarrow> ((AvbIOResult \<times> bytes) \<times> 'w) outcome" where
  "uefi_get_unique_guid_for_partition dev partition_name w =
     obind (find_partition_entry_by_name dev partition_name w) (\<lambda>(entry, w1).
       Returned (case entry of None \<Rightarrow> ((AVB_IO_RESULT_ERROR_IO, []), w1)
         | Some e \<Rightarrow> ((AVB_IO_RESULT_OK, guid_text (unique_GUID e)), w1)))"

text \<open>The operations that are placeholders in the source.\<close>

definition uefi_validate_vbmeta_public_key :: "bytes \<Rightarrow> bytes option \<Rightarrow> 'w \<Rightarrow> (AvbIOResult \<times> bool) \<times> 'w" where
  "uefi_validate_vbmeta_public_key public_key_data public_key_metadata w = ((AVB_IO_RESULT_OK, True), w)"

definition uefi_read_rollback_index :: "nat \<Rightarrow> 'w \<Rightarrow> (AvbIOResult \<times> u64) \<times> 'w" where
  "uefi_read_rollback_index rollback_index_slot w = ((AVB_IO_RESULT_OK, 0), w)"

definition uefi_write_rollback_index :: "nat \<Rightarrow> u64 \<Rightarrow> 'w \<Rightarrow> AvbIOResult \<times> 'w" where
  "uefi_write_rollback_index rollback_index_slot new_index w = (AVB_IO_RESULT_OK, w)"

definition uefi_read_is_device_unlocked :: "'w \<Rightarrow> (AvbIOResult \<times> bool) \<times> 'w" where
  "uefi_read_is_device_unlocked w = ((AVB_IO_RESULT_OK, True), w)"

text \<open>
  The record handed to libavb.  Its entries are total, while a call may fault (a partition table with
  more than 128 entries, blocks of more than 512 octets, which overrun the array for the table, or a
  name without terminator at its end).  The world of the platform therefore has a mark: a call that
  faults sets it, and is answered by a failure; from then on no call does anything but fail.  A run
  that ends in a world with the mark has crashed on the way.
\<close>

type_synonym 'w platform = "'w \<times> bool"

definition run_call :: "'r \<Rightarrow> ('w \<Rightarrow> ('r \<times> 'w) outcome) \<Rightarrow> 'w platform \<Rightarrow> 'r \<times> 'w platform" where
  "run_call failure call = (\<lambda>(w, crashed).
     if crashed then (failure, (w, True))
     else case call w of Returned (r, w') \<Rightarrow> (r, (w', False)) | _ \<Rightarrow> (failure, (w, True)))"

definition uefi_avb_ops ::
  "'w efi_device \<Rightarrow> ('w platform \<Rightarrow> u64) \<Rightarrow> ('w platform \<Rightarrow> hash_stack) \<Rightarrow> ('w platform \<Rightarrow> nat) \<Rightarrow> 'w platform AvbOps" where
  "uefi_avb_ops dev address stack stack_size = \<lparr>
     ops_malloc = \<lambda>n. run_call False (\<lambda>w. Returned (dev_pool dev n w)),
     ops_address = address, ops_stack = stack, ops_stack_size = stack_size,
     read_from_partition = \<lambda>name off n.
       run_call (AVB_IO_RESULT_ERROR_IO, []) (uefi_read_from_partition dev name off n),
     get_preloaded_partition = None,
     write_to_partition = \<lambda>name off buf.
       run_call AVB_IO_RESULT_ERROR_IO (uefi_write_to_partition dev name off buf),
     validate_vbmeta_public_key = \<lambda>key metadata.
       run_call (AVB_IO_RESULT_ERROR_IO, False) (\<lambda>w. Returned (uefi_validate_vbmeta_public_key key metadata w)),
     read_rollback_index = \<lambda>slot.
       run_call (AVB_IO_RESULT_ERROR_IO, 0) (\<lambda>w. Returned (uefi_read_rollback_index slot w)),
     write_rollback_index = \<lambda>slot index.
       run_call AVB_IO_RESULT_ERROR_IO (\<lambda>w. Returned (uefi_write_rollback_index slot index w)),
     read_is_device_unlocked =
       run_call (AVB_IO_RESULT_ERROR_IO, False) (\<lambda>w. Returned (uefi_read_is_device_unlocked w)),
     get_unique_guid_for_partition = \<lambda>name.
       run_call (AVB_IO_RESULT_ERROR_IO, []) (uefi_get_unique_guid_for_partition dev name),
     get_size_of_partition = Some (\<lambda>name.
       run_call (AVB_IO_RESULT_ERROR_IO, 0) (uefi_get_size_of_partition dev name)),
     read_persistent_value = None\<rparr>"

definition uefi_ab_ops ::
  "'w AvbOps \<Rightarrow> ('w \<Rightarrow> AvbABData \<times> AvbABData) \<Rightarrow> 'w AvbABOps" where
  "uefi_ab_ops ops stack = \<lparr>ab_base = ops, read_ab_metadata = avb_ab_data_read ops,
     write_ab_metadata = avb_ab_data_write ops, ab_stack = stack\<rparr>"

subsection \<open>The boot disk\<close>

text \<open>
  \<open>crc\<close> is \<open>CalculateCrc32\<close> of the firmware's library.  The checksum is taken with its own field
  zeroed.
\<close>

definition validate_gpt :: "(bytes \<Rightarrow> u32) \<Rightarrow> bytes \<Rightarrow> bool" where
  "validate_gpt crc header =
     (let gpth = gpt_header_of_mem header;
          gpth_tmp = take 16 header @ replicate 4 0 @ drop 20 header
      in if gpt_signature gpth \<noteq> GPT_MAGIC then False
         else if gpt_header_size gpth < 92 then False
         else if gpt_header_size gpth > 512 then False
         else if header_crc32 gpth \<noteq> crc (take (unat (gpt_header_size gpth)) gpth_tmp) then False
         else if gpt_revision gpth \<noteq> 0x00010000 then False
         else True)"

text \<open>
  A handle with the block I/O protocol: the protocol (\<open>None\<close> when \<open>HandleProtocol\<close> fails), its media
  flags, whether the disk I/O protocol is there, and the device path.
\<close>

record 'w disk_handle =
  block_io :: "'w efi_device option"
  logical_partition :: bool
  removable_media :: bool
  media_present :: bool
  has_disk_io :: bool
  device_path :: "bytes option"

text \<open>
  The loop over the handles: \<open>Inl\<close> is an error status, \<open>Inr\<close> the disk whose path starts like the
  wanted one without its end node, \<open>None\<close> when there is none.
\<close>

fun select_disk :: "bytes \<Rightarrow> 'w disk_handle list \<Rightarrow> unit + ('w efi_device \<times> bytes) option" where
  "select_disk init_path [] = Inr None"
| "select_disk init_path (h # hs) =
     (case block_io h of
        None \<Rightarrow> Inl ()
      | Some dev \<Rightarrow>
          if logical_partition h \<or> removable_media h \<or> \<not> media_present h then select_disk init_path hs
          else if \<not> has_disk_io h then select_disk init_path hs
          else (case device_path h of
              None \<Rightarrow> select_disk init_path hs
            | Some path0 \<Rightarrow>
                let n = length init_path - 4
                in if take n path0 = take n init_path then Inr (Some (dev, path0))
                   else select_disk init_path hs))"

text \<open>\<open>None\<close> is an error status; \<open>handles\<close> is \<open>None\<close> when the handles cannot be listed.\<close>

definition get_disk_block_io ::
  "(bytes \<Rightarrow> u32) \<Rightarrow> bytes option \<Rightarrow> 'w disk_handle list option \<Rightarrow> 'w \<Rightarrow> ('w efi_device \<times> bytes) option \<times> 'w" where
  "get_disk_block_io crc boot_device_path handles w =
     (case boot_device_path of None \<Rightarrow> (None, w)
      | Some init_path \<Rightarrow>
        (case handles of None \<Rightarrow> (None, w)
         | Some hs \<Rightarrow>
           (case select_disk init_path hs of
              Inl _ \<Rightarrow> (None, w)
            | Inr None \<Rightarrow> (None, w)
            | Inr (Some (dev, path0)) \<Rightarrow>
                (case dev_read_blocks dev 1 512 w of
                   (None, w1) \<Rightarrow> (None, w1)
                 | (Some header, w1) \<Rightarrow>
                     if \<not> validate_gpt crc header then (None, w1) else (Some (dev, path0), w1)))))"

end
