(* ===== verification/AvbAbStore.thy ===== *)
theory AvbAbStore
  imports AvbAbFlow AvbSlotTrust
begin

text \<open>
  What the A/B flow means.  A slot is in one of three states (\<open>slot_status\<close>); \<open>boot_step\<close> is one
  boot and \<open>boot_runs\<close> a sequence of them.  The locale \<open>metadata_store\<close> states what the flow needs of
  the storage of its metadata, and shows that \<open>avb_ab_flow\<close> and the marking operations refine the
  abstract steps.
\<close>

subsection \<open>Well-formed metadata\<close>

definition ab_data_sized :: "AvbABData \<Rightarrow> bool" where
  "ab_data_sized d \<longleftrightarrow> length (ab_magic d) = 4 \<and> length (reserved1 d) = 2 \<and> length (slots d) = 2 \<and>
     length (reserved2 d) = 12"

lemma slots_two: "ab_data_sized d \<Longrightarrow> slots d = [slots d ! 0, slots d ! 1]"
  by (rule nth_equalityI) (auto simp: ab_data_sized_def less_2_cases_iff)

lemma length_ab_data_mem: "ab_data_sized d \<Longrightarrow> length (ab_data_mem d) = 32"
  by (subst ab_data_mem_def, subst slots_two) (simp_all add: ab_data_sized_def ab_slot_mem_def)

lemma ab_slot_of_mem_mem: "ab_slot_of_mem (ab_slot_mem s @ rest) = s"
  by (simp add: ab_slot_of_mem_def ab_slot_mem_def)

lemma ab_data_of_mem_mem: "ab_data_sized d \<Longrightarrow> ab_data_of_mem (ab_data_mem d) = d"
proof -
  assume wf: "ab_data_sized d"
  obtain m v0 v1 r s r2 c where d: "d = \<lparr>ab_magic = m, version_major = v0, version_minor = v1, reserved1 = r,
      slots = s, reserved2 = r2, ab_crc32 = c\<rparr>" by (cases d) simp
  from wf have l: "length m = 4" "length r = 2" "length r2 = 12" by (simp_all add: ab_data_sized_def d)
  obtain a b where s: "s = [a, b]" using slots_two [OF wf] by (simp add: d)
  obtain m0 m1 m2 m3 where m: "m = [m0, m1, m2, m3]" using l(1) by (auto simp: numeral_eq_Suc length_Suc_conv)
  obtain x y where r: "r = [x, y]" using l(2) by (auto simp: numeral_eq_Suc length_Suc_conv)
  have mem: "ab_data_mem d = [m0, m1, m2, m3, v0, v1, x, y] @ ab_slot_mem a @ ab_slot_mem b @ r2 @ mem32 c"
    by (simp add: ab_data_mem_def d m r s)
  have len: "length (ab_slot_mem a) = 4" "length (ab_slot_mem b) = 4" by (simp_all add: ab_slot_mem_def)
  have drops: "drop 8 (ab_data_mem d) = ab_slot_mem a @ (ab_slot_mem b @ r2 @ mem32 c)"
    "drop 12 (ab_data_mem d) = ab_slot_mem b @ (r2 @ mem32 c)"
    "drop 16 (ab_data_mem d) = r2 @ mem32 c" "drop 28 (ab_data_mem d) = mem32 c"
    using l(3) len by (simp_all add: mem)
  have heads: "take 4 (ab_data_mem d) = m" "ab_data_mem d ! 4 = v0" "ab_data_mem d ! 5 = v1"
    "take 2 (drop 6 (ab_data_mem d)) = r" by (simp_all add: mem m r)
  show ?thesis
    unfolding ab_data_of_mem_def drops heads
    using l(3) by (simp add: ab_slot_of_mem_mem d s)
qed

lemma ab_data_mem_of_mem: "length m = 32 \<Longrightarrow> ab_data_mem (ab_data_of_mem m) = m"
proof -
  assume l: "length m = 32"
  have four: "take 4 xs = [xs ! 0, xs ! 1, xs ! 2, xs ! 3]" if "4 \<le> length xs" for xs :: bytes
    using that by (intro nth_equalityI) (auto simp: less_Suc_eq numeral_eq_Suc)
  have slot: "ab_slot_mem (ab_slot_of_mem (drop k m)) = take 4 (drop k m)" if "k + 4 \<le> 32" for k
    using that l by (subst four) (simp_all add: ab_slot_mem_def ab_slot_of_mem_def)
  have two: "[m ! 4, m ! 5] = take 2 (drop 4 m)"
    using l by (intro nth_equalityI) (auto simp: less_Suc_eq numeral_eq_Suc)
  have crc: "mem32 (load32 (drop 28 m)) = drop 28 m" using l by (simp add: mem_load)
  have "ab_data_mem (ab_data_of_mem m) = take 4 m @ take 2 (drop 4 m) @ take 2 (drop 6 m) @
      take 4 (drop 8 m) @ take 4 (drop 12 m) @ take 12 (drop 16 m) @ drop 28 m"
    by (simp add: ab_data_mem_def ab_data_of_mem_def slot crc flip: two)
  also have "\<dots> = m"
    using l append_take_drop_id [of 4 m] append_take_drop_id [of 2 "drop 4 m"] append_take_drop_id [of 2 "drop 6 m"]
      append_take_drop_id [of 4 "drop 8 m"] append_take_drop_id [of 4 "drop 12 m"] append_take_drop_id [of 12 "drop 16 m"]
    by simp
  finally show ?thesis .
qed

lemma ab_data_of_mem_wf: "length m = 32 \<Longrightarrow> ab_data_sized (ab_data_of_mem m)"
  by (simp add: ab_data_sized_def ab_data_of_mem_def)

lemma ab_data_mem_eq: "ab_data_sized d \<Longrightarrow> ab_data_sized d' \<Longrightarrow> ab_data_mem d = ab_data_mem d' \<longleftrightarrow> d = d'"
  by (metis ab_data_of_mem_mem)

lemma crc_prefix: "take 28 (ab_data_mem (d\<lparr>ab_crc32 := c\<rparr>)) = take 28 (ab_data_mem d)" if "ab_data_sized d"
proof -
  from that have l: "length (ab_magic d @ [version_major d, version_minor d] @ reserved1 d @
     concat (map ab_slot_mem (slots d)) @ reserved2 d) = 28"
    by (subst slots_two) (simp_all add: ab_data_sized_def ab_slot_mem_def)
  have "ab_data_mem (d\<lparr>ab_crc32 := x\<rparr>) = (ab_magic d @ [version_major d, version_minor d] @ reserved1 d @
     concat (map ab_slot_mem (slots d)) @ reserved2 d) @ mem32 x" for x by (simp add: ab_data_mem_def)
  moreover have "ab_data_mem d = (ab_magic d @ [version_major d, version_minor d] @ reserved1 d @
     concat (map ab_slot_mem (slots d)) @ reserved2 d) @ mem32 (ab_crc32 d)" by (simp add: ab_data_mem_def)
  ultimately show ?thesis using l by (simp only: take_append) simp
qed

text \<open>Well-formed metadata: sized, with the magic and a version that is understood.\<close>

definition ab_data_wf :: "AvbABData \<Rightarrow> bool" where
  "ab_data_wf d \<longleftrightarrow> ab_data_sized d \<and> ab_magic d = AVB_AB_MAGIC \<and> version_major d \<le> 1"

lemma magic_check: "length (ab_magic d) = 4 \<Longrightarrow> avb_safe_memcmp (ab_magic d) AVB_AB_MAGIC 4 = Some 0 \<longleftrightarrow> ab_magic d = AVB_AB_MAGIC"
  by (subst avb_safe_memcmp_eq) (auto simp: AVB_AB_MAGIC_def)

lemma ab_crc: "ab_data_sized d \<Longrightarrow> avb_crc32 (ab_data_mem d) 28 = Some (crc32_serial (take 28 (ab_data_mem d)))"
  using avb_crc32_serial [of 28 "ab_data_mem d"] by (simp add: length_ab_data_mem)

lemma update_sized: "ab_data_sized (avb_ab_data_update_crc_and_byteswap d) = ab_data_sized d"
  by (simp add: avb_ab_data_update_crc_and_byteswap_def ab_data_sized_def split: option.split)

lemma update_crc: "ab_data_sized d \<Longrightarrow> avb_ab_data_update_crc_and_byteswap d =
    d\<lparr>ab_crc32 := avb_htobe32 (crc32_serial (take 28 (ab_data_mem d)))\<rparr>"
  by (simp add: avb_ab_data_update_crc_and_byteswap_def ab_crc)

text \<open>What a successful write stores is what the next read finds.\<close>

definition sealed :: "AvbABData \<Rightarrow> AvbABData" where
  "sealed d = d\<lparr>ab_crc32 := crc32_serial (take 28 (ab_data_mem d))\<rparr>"

lemma sealed_simps [simp]: "slots (sealed d) = slots d" "ab_data_wf (sealed d) = ab_data_wf d"
  by (simp_all add: sealed_def ab_data_wf_def ab_data_sized_def)

lemma update_then_verify:
  assumes "ab_data_wf d"
  shows "avb_ab_data_verify_and_byteswap
     (ab_data_of_mem (ab_data_mem (avb_ab_data_update_crc_and_byteswap d))) dest = (True, sealed d)"
proof -
  let ?u = "avb_ab_data_update_crc_and_byteswap d"
  note assms = assms [unfolded ab_data_wf_def, THEN conjunct1] assms [unfolded ab_data_wf_def, THEN conjunct2, THEN conjunct1]
    assms [unfolded ab_data_wf_def, THEN conjunct2, THEN conjunct2]
  have wf: "ab_data_sized ?u" using assms(1) by (simp add: update_crc) (simp add: ab_data_sized_def)
  have "avb_be32toh (ab_crc32 ?u) = crc32_serial (take 28 (ab_data_mem d))"
    using assms(1) by (simp add: update_crc)
  then have u: "?u\<lparr>ab_crc32 := avb_be32toh (ab_crc32 ?u)\<rparr> = sealed d"
    using assms(1) by (simp add: sealed_def update_crc)
  have f: "ab_magic ?u = AVB_AB_MAGIC" "version_major ?u = version_major d"
    using assms(1,2) by (simp_all add: update_crc)
  have "ab_data_sized (sealed d)" using assms(1) by (simp add: sealed_def ab_data_sized_def)
  then have s: "avb_crc32 (ab_data_mem (sealed d)) 28 = Some (ab_crc32 (sealed d))" "version_major (sealed d) = version_major d"
    by (simp_all add: ab_crc) (simp_all add: sealed_def crc_prefix [OF assms(1)])
  have m: "avb_safe_memcmp AVB_AB_MAGIC AVB_AB_MAGIC 4 = Some 0" by (simp add: avb_safe_memcmp_eq AVB_AB_MAGIC_def)
  show ?thesis
    unfolding ab_data_of_mem_mem [OF wf] avb_ab_data_verify_and_byteswap_def Let_def u f m
    using assms(3) s by (simp add: not_less)
qed

lemma verify_inverts_update:
  assumes "avb_ab_data_verify_and_byteswap (ab_data_of_mem m) dest = (True, d)" "length m = 32"
  shows "ab_data_mem (avb_ab_data_update_crc_and_byteswap d) = m" "ab_data_wf d"
proof -
  let ?s = "ab_data_of_mem m"
  have wf: "ab_data_sized ?s" by (rule ab_data_of_mem_wf [OF assms(2)])
  from assms(1) have d: "d = ?s\<lparr>ab_crc32 := avb_be32toh (ab_crc32 ?s)\<rparr>"
    by (auto simp: avb_ab_data_verify_and_byteswap_def Let_def split: if_splits)
  from assms(1) have c: "Some (ab_crc32 d) = avb_crc32 (ab_data_mem d) 28"
    and v: "\<not> version_major d > 1" and mg: "avb_safe_memcmp (ab_magic ?s) AVB_AB_MAGIC 4 = Some 0"
    unfolding d by (auto simp: avb_ab_data_verify_and_byteswap_def Let_def split: if_splits)
  have "ab_data_sized d" using wf by (simp add: d ab_data_sized_def)
  moreover have "version_major d \<le> 1" using v by simp
  moreover have "ab_magic d = AVB_AB_MAGIC" using mg wf magic_check [of ?s] by (simp add: d ab_data_sized_def)
  ultimately show "ab_data_wf d" by (simp add: ab_data_wf_def)
  have "avb_ab_data_update_crc_and_byteswap d = ?s"
    unfolding avb_ab_data_update_crc_and_byteswap_def c [symmetric] by (simp add: d htobe_be32_roundtrip)
  moreover have "ab_data_mem ?s = m" by (rule ab_data_mem_of_mem [OF assms(2)])
  ultimately show "ab_data_mem (avb_ab_data_update_crc_and_byteswap d) = m" by simp
qed

lemma wf_sized: "ab_data_wf d \<Longrightarrow> ab_data_sized d"
  by (simp add: ab_data_wf_def)

subsection \<open>The state of a slot\<close>

datatype slot_status = Unbootable | Untried (prio: nat) (tries: nat) | Good (prio: nat)
  where "prio Unbootable = 0"

definition slot_status :: "AvbABSlotData \<Rightarrow> slot_status" where
  "slot_status s =
     (if priority s = 0 then Unbootable
      else if successful_boot s \<noteq> 0
      then (if tries_remaining s = 0 then Good (unat (priority s)) else Unbootable)
      else if tries_remaining s = 0 then Unbootable
      else Untried (unat (priority s)) (unat (tries_remaining s)))"

definition statuses :: "AvbABData \<Rightarrow> slot_status list" where
  "statuses d = map slot_status (slots d)"

text \<open>
  Legal metadata: a slot with priority 0 is zero throughout, and one that has booted has no tries
  left.  \<open>slot_normalize\<close> makes a slot legal without changing its state.
\<close>

definition slot_legal :: "AvbABSlotData \<Rightarrow> bool" where
  "slot_legal s \<longleftrightarrow> (priority s = 0 \<longrightarrow> tries_remaining s = 0 \<and> successful_boot s = 0) \<and>
     (successful_boot s \<noteq> 0 \<longrightarrow> tries_remaining s = 0)"

definition ab_data_legal :: "AvbABData \<Rightarrow> bool" where
  "ab_data_legal d \<longleftrightarrow> ab_data_wf d \<and> list_all slot_legal (slots d)"

lemma unat_pos: "(0 :: 'a::len word) < x \<longleftrightarrow> x \<noteq> 0"
  by (simp add: word_neq_0_conv)

lemma slot_normalize_status [simp]: "slot_status (slot_normalize s) = slot_status s"
  by (auto simp: slot_normalize_def slot_status_def slot_set_unbootable_def unat_pos Let_def)

lemma slot_normalize_legal [simp]: "slot_legal (slot_normalize s)"
  by (auto simp: slot_normalize_def slot_legal_def slot_set_unbootable_def unat_pos Let_def)

lemma slot_normalize_idem: "slot_normalize (slot_normalize s) = slot_normalize s"
  by (auto simp: slot_normalize_def slot_set_unbootable_def unat_pos Let_def)

lemma legal_bootable: "slot_legal s \<Longrightarrow> slot_is_bootable s \<longleftrightarrow> slot_status s \<noteq> Unbootable"
  by (auto simp: slot_legal_def slot_is_bootable_def slot_status_def unat_pos)

lemma unbootable_status [simp]: "slot_status (slot_set_unbootable s) = Unbootable" "slot_legal (slot_set_unbootable s)"
  by (simp_all add: slot_set_unbootable_def slot_status_def slot_legal_def)

lemma bootable_prio: "slot_status s \<noteq> Unbootable \<Longrightarrow> prio (slot_status s) = unat (priority s)"
  by (auto simp: slot_status_def split: if_splits)

definition tick :: "slot_status \<Rightarrow> slot_status" where
  "tick s = (case s of Untried p t \<Rightarrow> if t \<le> 1 then Unbootable else Untried p (t - 1) | _ \<Rightarrow> s)"

lemma decrement_status: "slot_status (decrement_tries s) = tick (slot_status s)"
proof -
  have "unat (tries_remaining s - 1) = unat (tries_remaining s) - 1" if "tries_remaining s \<noteq> 0"
    using that by (metis unat_minus_one)
  moreover have "tries_remaining s - 1 = 0 \<longleftrightarrow> unat (tries_remaining s) \<le> 1" if "tries_remaining s \<noteq> 0"
    using that calculation by (simp flip: unat_eq_0)
  ultimately show ?thesis
    by (auto simp: decrement_tries_def slot_status_def tick_def unat_pos)
qed

lemma decrement_legal: "slot_legal s \<Longrightarrow> slot_legal (decrement_tries s)"
  by (auto simp: decrement_tries_def slot_legal_def unat_pos)

definition normalized :: "AvbABData \<Rightarrow> AvbABData" where
  "normalized d = d\<lparr>slots := map slot_normalize (slots d)\<rparr>"

lemma normalized_facts:
  assumes "ab_data_wf d"
  shows "ab_data_legal (normalized d)" "statuses (normalized d) = statuses d"
  using assms by (auto simp: ab_data_legal_def ab_data_wf_def ab_data_sized_def normalized_def statuses_def list_all_iff)

subsection \<open>Boots\<close>

text \<open>
  One boot: the slots that fail verification (those outside \<open>V\<close>) become unbootable, and the slot of
  the highest priority among the others is booted, the first one when both have it.
\<close>

definition reject :: "nat set \<Rightarrow> slot_status list \<Rightarrow> slot_status list" where
  "reject V S = map (\<lambda>n. if n \<in> V then S ! n else Unbootable) [0..<length S]"

definition preferred :: "slot_status list \<Rightarrow> nat \<Rightarrow> bool" where
  "preferred S n \<longleftrightarrow> n < length S \<and> S ! n \<noteq> Unbootable \<and>
     (\<forall>m < length S. S ! m \<noteq> Unbootable \<longrightarrow> prio (S ! m) < prio (S ! n) \<or> prio (S ! m) = prio (S ! n) \<and> n \<le> m)"

inductive boot_step :: "nat set \<Rightarrow> slot_status list \<Rightarrow> nat \<Rightarrow> slot_status list \<Rightarrow> bool" for V where
  boot: "preferred (reject V S) n \<Longrightarrow> boot_step V S n ((reject V S)[n := tick (reject V S ! n)])"

inductive boot_runs :: "slot_status list \<Rightarrow> nat list \<Rightarrow> slot_status list \<Rightarrow> bool" where
  no_boot: "boot_runs S [] S"
| next_boot: "boot_step V S n S' \<Longrightarrow> boot_runs S' ns S'' \<Longrightarrow> boot_runs S (n # ns) S''"

inductive_cases boot_stepE: "boot_step V S n S'"
inductive_simps boot_step_iff: "boot_step V S n S'"

text \<open>
  Boots of slots that have not been marked successful use up tries: their number is bounded, so a
  system that keeps booting ends up with the slots that are known to work.
\<close>

definition tries_left :: "slot_status list \<Rightarrow> nat" where
  "tries_left S = sum_list (map (\<lambda>s. case s of Untried p t \<Rightarrow> t | _ \<Rightarrow> 0) S)"

lemma sum_list_nth_le:
  fixes f g :: "nat \<Rightarrow> nat"
  assumes "\<And>i. i < k \<Longrightarrow> f i \<le> g i" "n < k" "f n < g n"
  shows "(\<Sum>i<k. f i) < (\<Sum>i<k. g i)"
  using assms by (intro sum_strict_mono_ex1) auto

lemma tries_left_alt: "tries_left S = (\<Sum>i<length S. case S ! i of Untried p t \<Rightarrow> t | _ \<Rightarrow> 0)"
  by (simp add: tries_left_def sum_list_sum_nth atLeast0LessThan)

lemma boot_step_tries:
  assumes "boot_step V S n S'"
  shows "length S' = length S" "tries_left S' \<le> tries_left S" "n < length S" "S ! n \<noteq> Unbootable"
    "S ! n = Untried p t \<Longrightarrow> 0 < t \<Longrightarrow> tries_left S' < tries_left S"
proof -
  let ?f = "\<lambda>s. case s of Untried p t \<Rightarrow> t | _ \<Rightarrow> 0"
  from assms have p: "preferred (reject V S) n" and S': "S' = (reject V S)[n := tick (reject V S ! n)]"
    by (auto elim: boot_stepE)
  show l: "length S' = length S" by (simp add: S' reject_def)
  from p show n: "n < length S" by (simp add: preferred_def reject_def)
  from p n have r: "reject V S ! n = S ! n" "S ! n \<noteq> Unbootable" by (auto simp: preferred_def reject_def split: if_splits)
  then show "S ! n \<noteq> Unbootable" by simp
  have le: "?f (S' ! i) \<le> ?f (S ! i)" if "i < length S" for i
    using that r n by (auto simp: S' nth_list_update reject_def tick_def split: slot_status.split)
  then show "tries_left S' \<le> tries_left S" unfolding tries_left_alt l by (intro sum_mono) simp
  assume "S ! n = Untried p t" "0 < t"
  then have "?f (S' ! n) < ?f (S ! n)" using n r by (auto simp: S' nth_list_update reject_def tick_def)
  then show "tries_left S' < tries_left S"
    unfolding tries_left_alt l using le n by (intro sum_list_nth_le) auto
qed

lemma boot_step_status:
  assumes "boot_step V S n S'" and "i < length S"
  shows "S' ! i = S ! i \<or> S' ! i = Unbootable \<or> (\<exists>p t. S ! i = Untried p t \<and> S' ! i = Untried p (t - 1) \<and> 1 < t)"
  using assms by (auto simp: boot_step_iff nth_list_update reject_def tick_def preferred_def split: slot_status.splits)

definition status_ok :: "slot_status \<Rightarrow> bool" where
  "status_ok s = (case s of Unbootable \<Rightarrow> True | Untried p t \<Rightarrow> 0 < p \<and> 0 < t | Good p \<Rightarrow> 0 < p)"

lemma slot_status_ok: "status_ok (slot_status s)"
  by (auto simp: slot_status_def status_ok_def unat_gt_0)

lemma boot_step_ok: "boot_step V S n S' \<Longrightarrow> list_all status_ok S \<Longrightarrow> list_all status_ok S'"
proof -
  assume b: "boot_step V S n S'" and ok: "list_all status_ok S"
  have "status_ok (S' ! i)" if "i < length S" for i
    using boot_step_status [OF b that] ok that by (auto simp: list_all_length status_ok_def)
  then show "list_all status_ok S'" using boot_step_tries(1) [OF b] by (simp add: list_all_length)
qed

text \<open>A boot of a slot that has never booted successfully costs a try.\<close>

lemma boot_runs_known_good:
  "boot_runs S ns S' \<Longrightarrow> list_all status_ok S \<Longrightarrow> tries_left S < length ns \<Longrightarrow>
     \<exists>n \<in> set ns. n < length S \<and> (\<exists>p. S ! n = Good p)"
proof (induction rule: boot_runs.induct)
  case (next_boot V S n S' ns S'')
  note t = boot_step_tries [OF next_boot.hyps(1)]
  show ?case
  proof (cases "S ! n")
    case (Untried p t')
    then have "0 < t'" using next_boot.prems(1) t(3) by (auto simp: list_all_length status_ok_def)
    from t(5) [OF Untried this] next_boot.prems(2) have "tries_left S' < length ns" by simp
    from next_boot.IH [OF boot_step_ok [OF next_boot.hyps(1) next_boot.prems(1)] this] t(1)
    obtain m where m: "m \<in> set ns" "m < length S" "\<exists>p. S' ! m = Good p" by auto
    with boot_step_status [OF next_boot.hyps(1) m(2)] show ?thesis by auto
  qed (use t in auto)
qed simp

text \<open>A boot is possible as long as a slot that verifies is not unbootable.\<close>

lemma boot_step_exists:
  assumes "i < length S" "S ! i \<noteq> Unbootable" "i \<in> V"
  shows "\<exists>n S'. boot_step V S n S'"
proof -
  let ?T = "reject V S"
  let ?C = "{m. m < length ?T \<and> ?T ! m \<noteq> Unbootable}"
  let ?M = "{m \<in> ?C. prio (?T ! m) = Max ((\<lambda>m. prio (?T ! m)) ` ?C)}"
  have c: "finite ?C" "?C \<noteq> {}" using assms by (auto simp: reject_def)
  then have "Max ((\<lambda>m. prio (?T ! m)) ` ?C) \<in> (\<lambda>m. prio (?T ! m)) ` ?C" by (intro Max_in) auto
  then have "?M \<noteq> {}" by auto
  moreover have "finite ?M" using c by simp
  ultimately have n: "Min ?M \<in> ?M" by (rule Min_in [rotated])
  have "preferred ?T (Min ?M)"
    unfolding preferred_def
  proof (intro conjI allI impI)
    show "Min ?M < length ?T" "?T ! Min ?M \<noteq> Unbootable" using n by auto
    fix m
    assume m: "m < length ?T" "?T ! m \<noteq> Unbootable"
    then have "prio (?T ! m) \<le> prio (?T ! Min ?M)" using n c by (auto intro!: Max_ge)
    moreover have "Min ?M \<le> m" if "prio (?T ! m) = prio (?T ! Min ?M)"
      using n m that \<open>finite ?M\<close> by (intro Min_le) auto
    ultimately show "prio (?T ! m) < prio (?T ! Min ?M) \<or> prio (?T ! m) = prio (?T ! Min ?M) \<and> Min ?M \<le> m"
      by linarith
  qed
  from boot [OF this] show ?thesis by blast
qed

subsection \<open>Marks\<close>

text \<open>What the three marks do to the states of the slots.\<close>

definition below_top :: "slot_status \<Rightarrow> slot_status" where
  "below_top s = (if prio s = 15 then (case s of Untried p t \<Rightarrow> Untried 14 t | Good p \<Rightarrow> Good 14 | _ \<Rightarrow> s) else s)"

definition active_spec :: "nat \<Rightarrow> slot_status list \<Rightarrow> slot_status list" where
  "active_spec n S = S[n := Untried 15 7, 1 - n := below_top (S ! (1 - n))]"

definition successful_spec :: "nat \<Rightarrow> slot_status list \<Rightarrow> slot_status list" where
  "successful_spec n S = S[n := (case S ! n of Untried p t \<Rightarrow> Good p | s \<Rightarrow> s)]"

lemma statuses_nth: "ab_data_wf d \<Longrightarrow> n < 2 \<Longrightarrow> statuses d ! n = slot_status (slots d ! n)"
  by (simp add: statuses_def ab_data_wf_def ab_data_sized_def)

lemma set_slot_facts:
  assumes "ab_data_legal d" "slot_legal s"
  shows "ab_data_legal (set_slot n s d)" "statuses (set_slot n s d) = (statuses d)[n := slot_status s]"
  using assms by (auto simp: ab_data_legal_def ab_data_wf_def ab_data_sized_def set_slot_def statuses_def map_update list_all_iff
      dest: set_update_subset_insert [THEN subsetD])

lemma legal_nth: "ab_data_legal d \<Longrightarrow> n < 2 \<Longrightarrow> slot_legal (slots d ! n) \<and> ab_data_wf d"
  by (auto simp: ab_data_legal_def ab_data_wf_def ab_data_sized_def list_all_length)

lemma make_unbootable_facts:
  assumes "ab_data_legal d"
  shows "ab_data_legal (make_unbootable n d)" "statuses (make_unbootable n d) = (statuses d)[n := Unbootable]"
  unfolding make_unbootable_def by (simp_all add: set_slot_facts [OF assms])

lemma make_successful_facts:
  assumes "ab_data_legal d" "n < 2"
  shows "ab_data_legal (make_successful n d)" "statuses (make_successful n d) = successful_spec n (statuses d)"
proof -
  let ?s = "slots d ! n"
  let ?s' = "?s\<lparr>tries_remaining := 0, successful_boot := 1\<rparr>"
  note l = legal_nth [OF assms]
  have b: "slot_is_bootable ?s \<longleftrightarrow> slot_status ?s \<noteq> Unbootable" using l legal_bootable by simp
  have n: "statuses d ! n = slot_status ?s" using l assms(2) by (simp add: statuses_nth)
  have leg: "slot_legal ?s'" if "slot_is_bootable ?s" using that by (auto simp: slot_legal_def slot_is_bootable_def)
  have st: "slot_status ?s' = (case slot_status ?s of Untried p t \<Rightarrow> Good p | s \<Rightarrow> s)" if "slot_is_bootable ?s"
    using that l by (auto simp: slot_status_def slot_is_bootable_def slot_legal_def)
  show "ab_data_legal (make_successful n d)" using assms leg set_slot_facts by (auto simp: make_successful_def)
  show "statuses (make_successful n d) = successful_spec n (statuses d)"
  proof (cases "slot_is_bootable ?s")
    case True
    then show ?thesis using set_slot_facts(2) [OF assms(1) leg [OF True]] st n
      by (simp add: make_successful_def successful_spec_def)
  next
    case False
    then have "statuses d ! n = Unbootable" using b n by simp
    moreover from this have "(statuses d)[n := Unbootable] = statuses d" by (metis list_update_id)
    ultimately show ?thesis using False by (simp add: make_successful_def successful_spec_def)
  qed
qed

lemma make_active_facts:
  assumes "ab_data_legal d" "n < 2"
  shows "ab_data_legal (make_active n d)" "statuses (make_active n d) = active_spec n (statuses d)"
proof -
  let ?s' = "(slots d ! n)\<lparr>priority := AVB_AB_MAX_PRIORITY, tries_remaining := AVB_AB_MAX_TRIES_REMAINING,
    successful_boot := 0\<rparr>"
  let ?m = "1 - n" and ?d1 = "set_slot n ?s' d"
  let ?o = "slots d ! ?m"
  have m: "?m < 2" "?m \<noteq> n" using assms(2) by arith+
  note f1 = set_slot_facts [OF assms(1), of ?s' n]
  have s': "slot_legal ?s'" "slot_status ?s' = Untried 15 7"
    by (simp_all add: slot_legal_def slot_status_def AVB_AB_MAX_PRIORITY_def AVB_AB_MAX_TRIES_REMAINING_def)
  have o1: "slots ?d1 ! ?m = ?o" using m by (simp add: set_slot_def)
  let ?o' = "?o\<lparr>priority := AVB_AB_MAX_PRIORITY - 1\<rparr>"
  have o: "slot_legal ?o" "statuses d ! ?m = slot_status ?o"
    using legal_nth [OF assms(1) m(1)] by (simp_all add: statuses_nth m)
  have o15: "slot_legal ?o'" "slot_status ?o' = below_top (slot_status ?o)" if "priority ?o = AVB_AB_MAX_PRIORITY"
    using that o(1) by (auto simp: slot_legal_def slot_status_def below_top_def AVB_AB_MAX_PRIORITY_def)
  have o_other: "below_top (slot_status ?o) = slot_status ?o" if "priority ?o \<noteq> AVB_AB_MAX_PRIORITY"
  proof -
    have "unat (priority ?o) \<noteq> 15" using that by (simp add: AVB_AB_MAX_PRIORITY_def word_unat_eq_iff)
    then show ?thesis by (auto simp: below_top_def slot_status_def)
  qed
  note f2 = set_slot_facts [OF f1(1) [OF s'(1)], of ?o' ?m]
  have nth: "(statuses d)[n := Untried 15 7] ! ?m = slot_status ?o" using m o by simp
  show "ab_data_legal (make_active n d)"
    using f1(1) [OF s'(1)] f2(1) o15(1) o1 by (simp add: make_active_def Let_def)
  show "statuses (make_active n d) = active_spec n (statuses d)"
  proof (cases "priority ?o = AVB_AB_MAX_PRIORITY")
    case True
    then show ?thesis using f1(2) [OF s'(1)] f2(2) [OF o15(1) [OF True]] o15(2) o1 s'(2) o(2)
      by (simp add: make_active_def Let_def active_spec_def)
  next
    case False
    have "(statuses d)[n := Untried 15 7, ?m := slot_status ?o] = (statuses d)[n := Untried 15 7]"
      using nth by (metis list_update_id)
    then show ?thesis using False f1(2) [OF s'(1)] o_other o1 s'(2) o(2)
      by (simp add: make_active_def Let_def active_spec_def)
  qed
qed

subsection \<open>What verification hands out\<close>

definition fatal_or_ok :: "'w append_state \<Rightarrow> bool" where
  "fatal_or_ok st \<longleftrightarrow> fst (fst st) \<in>
     {AVB_SLOT_VERIFY_RESULT_OK, AVB_SLOT_VERIFY_RESULT_ERROR_OOM, AVB_SLOT_VERIFY_RESULT_ERROR_IO}"

lemma then_append_fatal: "fatal_or_ok st \<Longrightarrow> fatal_or_ok (then_append st f)"
  by (auto simp: fatal_or_ok_def then_append_def split: prod.split)

lemma append_verity_fatal: "fatal_or_ok st \<Longrightarrow> fatal_or_ok (append_verity A dis mode st)"
proof -
  have rv: "fatal_or_ok (replace_verity_mode A a b st)" if "fatal_or_ok st" for a b and st :: "'a append_state"
    using that by (cases st) (auto simp: replace_verity_mode_def intro!: then_append_fatal split: prod.split option.split;
        simp add: fatal_or_ok_def)
  show "fatal_or_ok st \<Longrightarrow> fatal_or_ok (append_verity A dis mode st)"
    unfolding append_verity_def by (cases mode) (simp_all add: rv then_append_fatal)
qed

lemma append_options_fatal: "ensures fatal_or_ok (avb_append_options ops sd h alg mode w)"
proof -
  have ok: "fatal_or_ok ((AVB_SLOT_VERIFY_RESULT_OK, sd), w)" by (simp add: fatal_or_ok_def)
  have dev: "fatal_or_ok st \<Longrightarrow> fatal_or_ok (append_device_state ops st)" for st
    by (cases st) (auto simp: append_device_state_def intro!: then_append_fatal split: prod.split;
        simp add: fatal_or_ok_def)
  have dig: "fatal_or_ok st \<Longrightarrow> ensures fatal_or_ok (append_vbmeta_digest ops alg st)" for st
    by (auto simp: append_vbmeta_digest_def append_digest_def intro!: ensures_obindI then_append_fatal split: prod.split)
  show ?thesis
    unfolding avb_append_options_def
    by (intro ensures_obindI, simp, rule append_verity_fatal, erule ensuresD [OF dig, rotated])
      (intro dev then_append_fatal ok)
qed

lemma mangle_result:
  "ensures (\<lambda>(v, w'). case v of Inl r \<Rightarrow> \<not> result_should_continue r | Inr sd' \<Rightarrow> sd_ab_suffix sd' = Some suf)
     (mangle_cmdline ops suf mode alg subst sd w)"
proof (rule ensuresI, clarify)
  fix v w'
  assume m: "mangle_cmdline ops suf mode alg subst sd w = Returned (v, w')"
  have o: "\<not> result_should_continue r" if "avb_append_options ops sd1 h alg mode w1 = Returned ((r, sd2), w2)"
    "r \<noteq> AVB_SLOT_VERIFY_RESULT_OK" for sd1 h w1 r sd2 w2
    using ensuresD [OF append_options_fatal that(1)] that(2) by (auto simp: fatal_or_ok_def result_should_continue_def)
  show "case v of Inl r \<Rightarrow> \<not> result_should_continue r | Inr sd' \<Rightarrow> sd_ab_suffix sd' = Some suf"
  proof (cases v)
    case (Inr sd')
    with ensuresD [OF mangle_cmdline_same m] show ?thesis by (simp add: same_slot_def)
  next
    case (Inl r)
    have "ensures (\<lambda>(v, w'). \<forall>r. v = Inl r \<longrightarrow> \<not> result_should_continue r) (mangle_cmdline ops suf mode alg subst sd w)"
      unfolding mangle_cmdline_def Let_def
      by (auto simp: obind_Returned_iff result_should_continue_def intro!: ensures_obindI
          split: list.split option.splits sum.split prod.splits if_splits dest!: o)
    from ensuresD [OF this m] Inl show ?thesis by simp
  qed
qed

lemma slot_verify_data:
  assumes "avb_slot_verify ops req suf flags mode True w = Returned ((r, d), w')"
    and "result_should_continue r" "flags AND 1 \<noteq> 0 \<or> r = AVB_SLOT_VERIFY_RESULT_OK"
  shows "\<exists>sd. d = Some sd \<and> sd_ab_suffix sd = Some suf"
proof -
  have m: "\<not> result_should_continue r" if "mangle_cmdline ops suf mode alg subst sd w1 = Returned (Inl r, w2)"
    for alg subst sd w1 r w2 using ensuresD [OF mangle_result that] by simp
  have s: "sd_ab_suffix sd' = Some suf" if "mangle_cmdline ops suf mode alg subst sd w1 = Returned (Inr sd', w2)"
    for alg subst sd w1 sd' w2 using ensuresD [OF mangle_result that] by simp
  have "ensures (\<lambda>((r, d), w'). result_should_continue r \<longrightarrow> (flags AND 1 \<noteq> 0 \<or> r = AVB_SLOT_VERIFY_RESULT_OK) \<longrightarrow>
      (\<exists>sd. d = Some sd \<and> sd_ab_suffix sd = Some suf))
    (avb_slot_verify ops req suf flags mode True w)"
    unfolding avb_slot_verify_def Let_def
    by (auto simp: result_should_continue_def simp del: load_and_verify_vbmeta.simps intro!: ensures_obindI
        split: prod.split sum.split bool.split dest!: m s)
  from ensuresD [OF this assms(1)] assms(2,3) show ?thesis by simp
qed

text \<open>
  Verification of the slots: what is left is the state after rejecting those that fail, and every
  slot that is still bootable has its data.
\<close>

definition verified_state :: "AvbABData \<Rightarrow> nat set \<Rightarrow> nat \<Rightarrow> flow_state \<Rightarrow> bool" where
  "verified_state d V k st \<longleftrightarrow>
     ab_data_legal (fs_data st) \<and> length (fs_slot_data st) = 2 \<and>
     statuses (fs_data st) = map (\<lambda>n. if n < k \<and> n \<notin> V then Unbootable else statuses d ! n) [0..<2] \<and>
     (\<forall>n < k. n < 2 \<longrightarrow> statuses (fs_data st) ! n \<noteq> Unbootable \<longrightarrow>
        (\<exists>sd. fs_slot_data st ! n = Some sd \<and> sd_ab_suffix sd = Some (slot_suffixes ! n)))"

lemma verify_slot_state:
  assumes st: "verified_state d V n st" and n: "n < 2"
    and call: "verify_slot ab_ops req flags mode n st w = Returned ((None, st'), w')"
  shows "\<exists>V'. verified_state d V' (Suc n) st'"
proof -
  let ?s = "slots (fs_data st) ! n"
  have legal: "ab_data_legal (fs_data st)" and wf: "ab_data_wf (fs_data st)"
    using st by (auto simp: verified_state_def ab_data_legal_def)
  have sl: "slot_legal ?s" using legal n by (simp add: ab_data_legal_def ab_data_wf_def ab_data_sized_def list_all_length)
  have s_n: "slot_status ?s = statuses d ! n"
    using st n statuses_nth [OF wf n] by (simp add: verified_state_def)
  have len: "length (fs_slot_data st) = 2" using st by (simp add: verified_state_def)
  have rej: "verified_state d (V \<inter> {..<n}) (Suc n) st2"
    if "ab_data_legal (fs_data st2)" "statuses (fs_data st2) = (statuses (fs_data st))[n := Unbootable]"
      "length (fs_slot_data st2) = 2" "\<And>m. m \<noteq> n \<Longrightarrow> fs_slot_data st2 ! m = fs_slot_data st ! m" for st2
    using st that n unfolding verified_state_def
    by (auto simp: nth_list_update less_Suc_eq intro!: nth_equalityI)
  show ?thesis
  proof (cases "slot_is_bootable ?s")
    case False
    then have u: "slot_status ?s = Unbootable" using legal_bootable [OF sl] by simp
    have "st' = st" using call False by (simp add: verify_slot_def)
    moreover have "(statuses (fs_data st))[n := Unbootable] = statuses (fs_data st)"
      using u statuses_nth [OF wf n] by (metis list_update_id)
    ultimately show ?thesis using rej [of st] legal len by auto
  next
    case True
    then obtain vr sd w1 where v: "avb_slot_verify (ab_base ab_ops) req (slot_suffixes ! n) flags mode True w =
        Returned ((vr, sd), w1)"
      using call by (auto simp: verify_slot_def obind_Returned_iff)
    let ?st1 = "st\<lparr>fs_slot_data := (fs_slot_data st)[n := sd]\<rparr>"
    have acc: "verified_state d (V \<inter> {..<n} \<union> {n}) (Suc n) st2"
      if "fs_data st2 = fs_data st" "fs_slot_data st2 = (fs_slot_data st)[n := sd]" "result_should_continue vr"
        "flags AND 1 \<noteq> 0 \<or> vr = AVB_SLOT_VERIFY_RESULT_OK" for st2
      using slot_verify_data [OF v that(3,4)] st that(1,2) n unfolding verified_state_def
      by (auto simp: nth_list_update less_Suc_eq intro!: nth_equalityI)
    have r: "verified_state d (V \<inter> {..<n}) (Suc n)
        (?st1\<lparr>fs_data := set_slot n (slot_set_unbootable ?s) (fs_data st)\<rparr>)"
      by (rule rej) (simp_all add: set_slot_facts [OF legal] len)
    show ?thesis
      using call True v acc [of ?st1] acc [of "?st1\<lparr>fs_allowed := True\<rparr>"] r
      by (cases vr) (auto simp: verify_slot_def Let_def result_should_continue_def split: if_splits)
  qed
qed

lemma verify_slots_state:
  assumes "ab_data_legal d"
    and call: "verify_slots ab_ops req flags mode [0, 1] \<lparr>fs_data = d, fs_slot_data = [None, None], fs_allowed = a\<rparr> w =
      Returned ((None, st), w')"
  shows "\<exists>V. verified_state d V 2 st"
proof -
  let ?st0 = "\<lparr>fs_data = d, fs_slot_data = [None, None], fs_allowed = a\<rparr>"
  have "statuses d = map (\<lambda>n. statuses d ! n) [0..<2]"
    using assms(1) by (intro nth_equalityI) (simp_all add: statuses_def ab_data_legal_def ab_data_wf_def ab_data_sized_def)
  then have v0: "verified_state d {} 0 ?st0" using assms(1) by (simp add: verified_state_def)
  obtain st1 w1 where c: "verify_slot ab_ops req flags mode 0 ?st0 w = Returned ((None, st1), w1)"
    "verify_slot ab_ops req flags mode 1 st1 w1 = Returned ((None, st), w')"
    using call by (auto simp: obind_Returned_iff split: option.splits)
  from verify_slot_state [OF v0 _ c(1)] obtain V1 where "verified_state d V1 1 st1" by auto
  from verify_slot_state [OF this _ c(2)] show ?thesis by (simp add: numeral_2_eq_2)
qed

lemma select_slot_preferred:
  assumes "ab_data_legal d" "select_slot d = Some n"
  shows "preferred (statuses d) n" "n < 2"
proof -
  have wf: "ab_data_wf d" and l: "slot_legal (slots d ! 0)" "slot_legal (slots d ! 1)"
    using assms(1) by (auto simp: ab_data_legal_def ab_data_wf_def ab_data_sized_def list_all_length)
  note b = legal_bootable [OF l(1)] legal_bootable [OF l(2) [unfolded One_nat_def]]
  have S: "statuses d = [slot_status (slots d ! 0), slot_status (slots d ! 1)]"
    by (subst slots_two [OF wf_sized [OF wf], THEN arg_cong, of "map slot_status", folded statuses_def]) simp
  show "n < 2" using assms(2) by (auto simp: select_slot_def split: if_splits)
  show "preferred (statuses d) n"
    using assms(2) bootable_prio unfolding preferred_def S
    by (auto simp: select_slot_def b less_Suc_eq word_less_nat_alt not_less split: if_splits)
qed

lemma choose_slot_state:
  assumes v: "verified_state d V 2 st" and d: "ab_data_legal d"
    and call: "choose_slot ops flags st w = Returned ((r, d', Some data), w')"
  shows "\<exists>n. boot_step V (statuses d) n (statuses d') \<and> sd_ab_suffix data = Some (slot_suffixes ! n)"
    "ab_data_legal d'" "\<exists>r'. update_rollback_indexes ops (fs_slot_data st) [0..<32] w = (r', w')"
proof -
  have legal: "ab_data_legal (fs_data st)" using v by (simp add: verified_state_def)
  then have wf: "ab_data_wf (fs_data st)" by (simp add: ab_data_legal_def)
  obtain n where n: "select_slot (fs_data st) = Some n"
    using call by (auto simp: choose_slot_def Let_def split: option.splits)
  note p = select_slot_preferred [OF legal n]
  from call n obtain w1 where u: "update_rollback_indexes ops (fs_slot_data st) [0..<32] w = (None, w')"
    and d': "d' = set_slot n (decrement_tries (slots (fs_data st) ! n)) (fs_data st)"
    and data: "fs_slot_data st ! n = Some data"
    by (auto simp: choose_slot_def Let_def obind_Returned_iff split: prod.splits option.splits)
  from u show "\<exists>r'. update_rollback_indexes ops (fs_slot_data st) [0..<32] w = (r', w')" by blast
  have sl: "slot_legal (slots (fs_data st) ! n)"
    using legal p(2) by (simp add: ab_data_legal_def ab_data_wf_def ab_data_sized_def list_all_length)
  note f = set_slot_facts [OF legal decrement_legal [OF sl]]
  from f(1) show "ab_data_legal d'" by (simp add: d')
  have "length (statuses d) = 2" using d by (simp add: statuses_def ab_data_legal_def ab_data_wf_def ab_data_sized_def)
  then have S: "statuses (fs_data st) = reject V (statuses d)"
    using v by (auto simp: verified_state_def reject_def intro!: nth_equalityI)
  have "statuses d' = (reject V (statuses d))[n := tick (reject V (statuses d) ! n)]"
    by (simp add: d' f(2) decrement_status S flip: statuses_nth [OF wf p(2)])
  moreover have "sd_ab_suffix data = Some (slot_suffixes ! n)"
    using v p data by (auto simp: verified_state_def preferred_def)
  ultimately show "\<exists>n. boot_step V (statuses d) n (statuses d') \<and> sd_ab_suffix data = Some (slot_suffixes ! n)"
    using p(1) S by (auto simp: boot_step_iff)
qed

subsection \<open>The flow over a store of metadata\<close>

text \<open>
  \<open>stored w\<close> is the slots that a read in the world \<open>w\<close> finds, \<open>mounted w\<close> says that the
  storage works there.  The laws are about operations that succeed; nothing is asked of those that
  fail.
\<close>

locale metadata_store =
  fixes ab_ops :: "'w AvbABOps" and mounted :: "'w \<Rightarrow> bool" and stored :: "'w \<Rightarrow> AvbABSlotData list"
  assumes read_stored: "mounted w \<Longrightarrow> read_ab_metadata ab_ops w = ((AVB_IO_RESULT_OK, found), w') \<Longrightarrow>
      (\<exists>d. found = Some d \<and> ab_data_wf d \<and> slots d = stored w) \<and> mounted w' \<and> stored w' = stored w"
    and write_stored: "mounted w \<Longrightarrow> ab_data_wf d \<Longrightarrow> write_ab_metadata ab_ops d w = (AVB_IO_RESULT_OK, w') \<Longrightarrow>
      mounted w' \<and> stored w' = slots d"
    and verify_stored: "mounted w \<Longrightarrow>
      avb_slot_verify (ab_base ab_ops) req suf flags mode want w = Returned (r, w') \<Longrightarrow>
      mounted w' \<and> stored w' = stored w"
    and rollback_stored: "mounted w \<Longrightarrow> read_rollback_index (ab_base ab_ops) loc w = (r1, w') \<Longrightarrow>
      mounted w' \<and> stored w' = stored w"
    and write_rollback_stored: "mounted w \<Longrightarrow> write_rollback_index (ab_base ab_ops) loc v w = (r2, w') \<Longrightarrow>
      mounted w' \<and> stored w' = stored w"
begin

lemma load_OK:
  assumes "mounted w" "load_metadata ab_ops w = ((AVB_IO_RESULT_OK, d, orig), w')"
  shows "mounted w'" "stored w' = stored w" "ab_data_wf orig" "slots orig = stored w" "d = normalized orig"
proof -
  obtain io st w1 where r: "read_ab_metadata ab_ops w = ((io, st), w1)" by (metis surj_pair)
  with assms(2) have io: "io = AVB_IO_RESULT_OK" and w: "w' = w1"
    by (auto simp: load_metadata_def split_def Let_def split: if_splits)
  from read_stored [OF assms(1) r [unfolded io]] obtain dd where
    st: "st = Some dd" "ab_data_wf dd" "slots dd = stored w" "mounted w1" "stored w1 = stored w" by auto
  then show "mounted w'" "stored w' = stored w" by (simp_all add: w)
  have two: "(slots dd)[0 := slot_normalize (slots dd ! 0), 1 := slot_normalize (slots dd ! 1)] =
      map slot_normalize (slots dd)"
    by (subst (1 2 3 4) slots_two [OF wf_sized [OF st(2)]]) simp
  from assms(2) r io st(1) two have "orig = dd" "d = normalized orig"
    by (auto simp: load_metadata_def split_def Let_def normalized_def)
  then show "ab_data_wf orig" "slots orig = stored w" "d = normalized orig" using st by simp_all
qed

lemma save_OK:
  assumes "mounted w" "ab_data_wf d" "ab_data_wf orig" "slots orig = stored w"
    and "save_metadata_if_changed ab_ops d orig w = (AVB_IO_RESULT_OK, w')"
  shows "mounted w'" "stored w' = slots d"
proof -
  note l = length_ab_data_mem [OF wf_sized [OF assms(2)]] length_ab_data_mem [OF wf_sized [OF assms(3)]]
  have "d = orig" if "avb_safe_memcmp (ab_data_mem d) (ab_data_mem orig) 32 = Some 0"
    using avb_safe_memcmp_zero(3) [OF that] l ab_data_mem_eq [OF wf_sized [OF assms(2)] wf_sized [OF assms(3)]] by simp
  then have "mounted w' \<and> stored w' = slots d"
    using assms write_stored [OF assms(1,2)] by (auto simp: save_metadata_if_changed_def split: if_splits)
  then show "mounted w'" "stored w' = slots d" by simp_all
qed

text \<open>Marking a slot: load, change, save.\<close>

lemma with_metadata_OK:
  assumes "mounted w" "with_metadata ab_ops change w = (AVB_IO_RESULT_OK, w')"
    and "\<And>d. ab_data_legal d \<Longrightarrow> ab_data_legal (change d) \<and> statuses (change d) = spec (statuses d)"
  shows "mounted w'" "list_all slot_legal (stored w')" "map slot_status (stored w') = spec (map slot_status (stored w))"
proof -
  obtain d orig w1 where l: "load_metadata ab_ops w = ((AVB_IO_RESULT_OK, d, orig), w1)"
    and s: "save_metadata_if_changed ab_ops (change d) orig w1 = (AVB_IO_RESULT_OK, w')"
    using assms(2) by (auto simp: with_metadata_def split: prod.splits if_splits)
  note l = load_OK [OF assms(1) l]
  note n = normalized_facts [OF l(3)]
  note c = assms(3) [OF n(1)]
  have "ab_data_wf (change d)" using c by (simp add: l(5) ab_data_legal_def)
  from save_OK [OF l(1) this l(3) _ s] l have w': "mounted w'" "stored w' = slots (change (normalized orig))" by simp_all
  then show "mounted w'" "list_all slot_legal (stored w')" using c by (simp_all add: ab_data_legal_def)
  show "map slot_status (stored w') = spec (map slot_status (stored w))"
    using c n(2) l(4) by (simp add: w'(2) statuses_def)
qed

lemma update_rollback_stored:
  "update_rollback_indexes (ab_base ab_ops) sd ns w = (r, w') \<Longrightarrow> mounted w \<Longrightarrow> mounted w' \<and> stored w' = stored w"
proof (induction ns arbitrary: w)
  case (Cons n ns)
  obtain io cur w1 where rd: "read_rollback_index (ab_base ab_ops) n w = ((io, cur), w1)" by (metis surj_pair)
  obtain io2 w2 where wr: "write_rollback_index (ab_base ab_ops) n (new_rollback_index sd n) w1 = (io2, w2)"
    by (metis surj_pair)
  note k1 = rollback_stored [OF Cons.prems(2) rd]
  note k2 = write_rollback_stored [OF conjunct1 [OF k1] wr]
  from Cons.prems(1) rd wr show ?case
    using Cons.IH Cons.prems(2) k1 k2 by (auto simp: Let_def split: if_splits)
qed simp

lemma flow_refines:
  assumes "mounted w" "avb_ab_flow ab_ops req flags mode True w = Returned ((r, Some data), w')"
  shows "mounted w'" "list_all slot_legal (stored w')"
    "\<exists>V n. boot_step V (map slot_status (stored w)) n (map slot_status (stored w')) \<and> sd_ab_suffix data = Some (slot_suffixes ! n)"
proof -
  obtain io d orig w1 where l0: "load_metadata ab_ops w = ((io, d, orig), w1)" by (metis surj_pair)
  let ?body = "if io = AVB_IO_RESULT_ERROR_OOM then Returned ((AVB_AB_FLOW_RESULT_ERROR_OOM, d, None), w1)
      else if io \<noteq> AVB_IO_RESULT_OK then Returned ((AVB_AB_FLOW_RESULT_ERROR_IO, d, None), w1)
      else flow_body ab_ops req flags mode d w1"
  from assms(2) l0 obtain ret d' data' w2 where b0: "?body = Returned ((ret, d', data'), w2)"
    and tail: "(case save_metadata_if_changed ab_ops d' orig w2 of (io_ret, w3) \<Rightarrow>
       if io_ret \<noteq> AVB_IO_RESULT_OK
       then Returned ((if io_ret = AVB_IO_RESULT_ERROR_OOM then AVB_AB_FLOW_RESULT_ERROR_OOM
                       else AVB_AB_FLOW_RESULT_ERROR_IO, None), w3)
       else Returned ((ret, if True then data' else None), w3)) = Returned ((r, Some data), w')"
    by (auto simp: avb_ab_flow_def obind_Returned_iff)
  from tail have sv: "save_metadata_if_changed ab_ops d' orig w2 = (AVB_IO_RESULT_OK, w')" and data': "data' = Some data"
    by (auto split: prod.splits if_splits)
  from b0 have io: "io = AVB_IO_RESULT_OK" and b: "flow_body ab_ops req flags mode d w1 = Returned ((ret, d', Some data), w2)"
    by (auto simp: data' split: if_splits)
  note l = load_OK [OF assms(1) l0 [unfolded io]]
  note nf = normalized_facts [OF l(3)]
  from b l obtain st w3 where
    vs: "verify_slots ab_ops req flags mode [0, 1]
      \<lparr>fs_data = normalized orig, fs_slot_data = [None, None], fs_allowed = False\<rparr> w1 = Returned ((None, st), w3)"
    and c: "choose_slot (ab_base ab_ops) flags st w3 = Returned ((ret, d', Some data), w2)"
    by (auto simp: flow_body_def obind_Returned_iff simp del: verify_slots.simps split: option.splits)
  have k3: "mounted w3 \<and> stored w3 = stored w"
  proof -
    have step: "mounted w' \<and> stored w' = stored w"
      if "verify_slot ab_ops req flags mode n st w = Returned (x, w')" "mounted w" for n st w x w'
      using that verify_stored [OF that(2)]
      by (auto simp: verify_slot_def obind_Returned_iff Let_def split: if_splits)
    from vs l show ?thesis by (auto simp: obind_Returned_iff split: option.splits dest!: step)
  qed
  obtain V where V: "verified_state (normalized orig) V 2 st"
    using verify_slots_state [OF nf(1) vs] by blast
  note ch = choose_slot_state [OF V nf(1) c]
  from ch(3) k3 update_rollback_stored have k2: "mounted w2" "stored w2 = stored w" by metis+
  from ch(2) have "ab_data_wf d'" by (simp add: ab_data_legal_def)
  from save_OK [OF k2(1) this l(3) _ sv] l k2 have w': "mounted w'" "stored w' = slots d'" by simp_all
  then show "mounted w'" "list_all slot_legal (stored w')" using ch(2) by (simp_all add: ab_data_legal_def)
  from ch(1) w' nf(2) l(4) show "\<exists>V n. boot_step V (map slot_status (stored w)) n (map slot_status (stored w')) \<and>
      sd_ab_suffix data = Some (slot_suffixes ! n)"
    by (auto simp: statuses_def)
qed

end

text \<open>Successive boots: the suffixes of the slots handed out.\<close>

inductive flow_runs :: "'w AvbABOps \<Rightarrow> 'w \<Rightarrow> bytes list \<Rightarrow> 'w \<Rightarrow> bool" for ab_ops where
  no_flow: "flow_runs ab_ops w [] w"
| next_flow: "avb_ab_flow ab_ops req flags mode True w = Returned ((r, Some data), w1) \<Longrightarrow>
     sd_ab_suffix data = Some suf \<Longrightarrow> flow_runs ab_ops w1 sufs w2 \<Longrightarrow> flow_runs ab_ops w (suf # sufs) w2"

context metadata_store begin

lemma flow_runs_refine:
  "flow_runs ab_ops w sufs w' \<Longrightarrow> mounted w \<Longrightarrow>
     mounted w' \<and> (\<exists>ns. sufs = map (\<lambda>n. slot_suffixes ! n) ns \<and> boot_runs (map slot_status (stored w)) ns (map slot_status (stored w')))"
proof (induction rule: flow_runs.induct)
  case (next_flow req flags mode w r data w1 suf sufs w2)
  note f = flow_refines [OF next_flow.prems next_flow.hyps(1)]
  from f(3) next_flow.hyps(2) obtain V n where n: "boot_step V (map slot_status (stored w)) n (map slot_status (stored w1))"
    "suf = slot_suffixes ! n" by auto
  from next_flow.IH [OF f(1)] obtain ns where ns: "mounted w2" "sufs = map (\<lambda>n. slot_suffixes ! n) ns"
    "boot_runs (map slot_status (stored w1)) ns (map slot_status (stored w2))" by blast
  from next_boot [OF n(1) ns(3)] ns n(2) show ?case by (intro conjI exI [of _ "n # ns"]) simp_all
qed (use no_boot in auto)

end

end
