(* ===== verification/UefiDisk.thy ===== *)
theory UefiDisk
  imports UefiAvbOps AvbAbStore
begin

text \<open>
  The UEFI platform on a disk.  The locale \<open>efi_disk\<close> states what the firmware's protocols promise
  about the contents of the disk; from it follow the laws of \<open>metadata_store\<close>, so that the A/B flow
  keeps its state in the \<open>misc\<close> partition.
\<close>

text \<open>Looking a partition up in the contents of a disk.\<close>

definition gpt_lookup :: "u32 \<Rightarrow> bytes \<Rightarrow> bytes \<Rightarrow> GPTEntry option" where
  "gpt_lookup bs d name =
     (case (slice (unat bs) 512 d, slice (2 * unat bs) (unat (bs * 32)) d,
            uefi_avb_utf8_to_ucs2 (name @ [0]) (length name) (2 * (length name + 1))) of
        (Some header, Some entries, Returned (Some us)) \<Rightarrow>
          (case find_entry (concat (map mem16 (takeWhile (\<lambda>u. u \<noteq> 0) us)))
                  (unat (entry_count (gpt_header_of_mem header))) entries of
             Returned r \<Rightarrow> r | _ \<Rightarrow> None)
      | _ \<Rightarrow> None)"

text \<open>A partition behind the primary table, within the range of signed 64-bit offsets.\<close>

definition entry_ok :: "u32 \<Rightarrow> GPTEntry \<Rightarrow> bool" where
  "entry_ok bs e \<longleftrightarrow> 34 \<le> unat (first_lba e) \<and> unat (first_lba e) \<le> unat (last_lba e) \<and>
     (unat (last_lba e) + 1) * unat bs < 2 ^ 63 \<and> unat bs * 32 < 2 ^ 32"

definition misc_pos :: "u32 \<Rightarrow> GPTEntry \<Rightarrow> nat" where
  "misc_pos bs e = unat (first_lba e) * unat bs + 2048"

definition disk_mounted :: "u32 \<Rightarrow> bytes \<Rightarrow> bool" where
  "disk_mounted bs d \<longleftrightarrow> (\<exists>e. gpt_lookup bs d (ascii ''misc'') = Some e \<and> entry_ok bs e)"

definition disk_stored :: "u32 \<Rightarrow> bytes \<Rightarrow> AvbABSlotData list" where
  "disk_stored bs d =
     (let src = ab_data_of_mem (take 32 (drop (misc_pos bs (the (gpt_lookup bs d (ascii ''misc'')))) d));
          (ok, dest) = avb_ab_data_verify_and_byteswap src src
      in slots (if ok then dest else avb_ab_data_init))"

lemma gpt_lookup_overwrite:
  assumes "34 * unat bs \<le> off" "unat bs * 32 < 2 ^ 32" "512 \<le> unat bs" "off + length b \<le> length d"
  shows "gpt_lookup bs (overwrite off b d) name = gpt_lookup bs d name"
proof -
  have "unat (bs * 32) = unat bs * 32" using assms(2) by (simp add: unat_word_ariths)
  then have "slice (unat bs) 512 (overwrite off b d) = slice (unat bs) 512 d"
    "slice (2 * unat bs) (unat (bs * 32)) (overwrite off b d) = slice (2 * unat bs) (unat (bs * 32)) d"
    using assms by (intro slice_overwrite_below; simp)+
  then show ?thesis by (simp only: gpt_lookup_def)
qed

lemma misc_address:
  assumes "entry_ok bs e"
  shows "unat (first_lba e * ucast bs + 2048 :: u64) = misc_pos bs e"
proof -
  have "unat (first_lba e) * unat bs < 2 ^ 63"
  proof -
    have "unat (first_lba e) * unat bs \<le> (unat (last_lba e) + 1) * unat bs"
      using assms by (intro mult_right_mono) (auto simp: entry_ok_def)
    then show ?thesis using assms by (simp add: entry_ok_def)
  qed
  then have "unat (first_lba e) * unat bs + 2048 < 2 ^ 64" by simp
  moreover have "unat (ucast bs :: u64) = unat bs" by (rule unat_ucast_up) simp
  ultimately show ?thesis by (simp add: misc_pos_def unat_word_ariths)
qed

locale efi_disk =
  fixes dev :: "'w efi_device" and contents :: "'w \<Rightarrow> bytes"
    and address :: "'w platform \<Rightarrow> u64" and stack :: "'w platform \<Rightarrow> hash_stack" and stack_size :: "'w platform \<Rightarrow> nat"
    and local_data :: "'w platform \<Rightarrow> AvbABData \<times> AvbABData"
  assumes pool_contents: "contents (snd (dev_pool dev n w)) = contents w"
    and read_blocks_contents: "dev_read_blocks dev lba n w = (r, w') \<Longrightarrow>
      contents w' = contents w \<and> (\<forall>b. r = Some b \<longrightarrow> slice (unat lba * unat (dev_block_size dev)) n (contents w) = Some b)"
    and read_disk_contents: "dev_read_disk dev off n w = (r, w') \<Longrightarrow>
      contents w' = contents w \<and> (\<forall>b. r = Some b \<longrightarrow> slice (unat off) n (contents w) = Some b)"
    and write_disk_contents: "dev_write_disk dev off b w = (True, w') \<Longrightarrow>
      unat off + length b \<le> length (contents w) \<and> contents w' = overwrite (unat off) b (contents w)"
    and block_size: "512 \<le> unat (dev_block_size dev)"
begin

lemma pool_keeps_contents: "dev_pool dev n w = (ok, w') \<Longrightarrow> contents w' = contents w"
  using pool_contents [of n w] by simp

lemma pool_keeps:
  "avb_malloc (dev_pool dev) n w = (ok, w') \<Longrightarrow> contents w' = contents w"
  "avb_calloc (dev_pool dev) n w = (r, w') \<Longrightarrow> contents w' = contents w"
  using pool_contents [of n w] by (auto simp: avb_malloc_def avb_calloc_def split_def Let_def split: if_splits)

lemma find_partition_result:
  assumes "find_partition_entry_by_name dev name w = Returned (r, w')"
  shows "contents w' = contents w" "r = Some e \<Longrightarrow> gpt_lookup (dev_block_size dev) (contents w) name = Some e"
proof -
  let ?bs = "dev_block_size dev"
  have "contents w' = contents w \<and> (\<forall>e. r = Some e \<longrightarrow> gpt_lookup ?bs (contents w) name = Some e)"
  proof -
    have "ensures (\<lambda>(r, w'). contents w' = contents w \<and> (\<forall>e. r = Some e \<longrightarrow> gpt_lookup ?bs (contents w) name = Some e))
      (find_partition_entry_by_name dev name w)"
      unfolding find_partition_entry_by_name_def Let_def
      by (auto intro!: ensures_obindI split: prod.split option.split
          dest!: pool_keeps read_blocks_contents simp: gpt_lookup_def GPT_ENTRIES_LBA_def)
    from ensuresD [OF this assms] show ?thesis by simp
  qed
  then show "contents w' = contents w" "r = Some e \<Longrightarrow> gpt_lookup ?bs (contents w) name = Some e" by simp_all
qed

text \<open>A call on the platform either did what it does on the machine, or it failed and changed nothing.\<close>

lemma run_call_cases:
  "run_call f call w = (r, w') \<Longrightarrow> call (fst w) = Returned (r, fst w') \<and> \<not> snd w \<and> \<not> snd w' \<or> r = f \<and> fst w' = fst w \<and> snd w'"
  by (auto simp: run_call_def split: prod.splits if_splits outcome.splits)

text \<open>Everything but writing leaves the disk as it is.\<close>

lemma run_call_keeps:
  "(\<And>w r w'. call w = Returned (r, w') \<Longrightarrow> contents w' = contents w) \<Longrightarrow> contents (fst (snd (run_call f call w))) = contents (fst w)"
  using run_call_cases [of f call w "fst (run_call f call w)" "snd (run_call f call w)"] by auto

lemma read_keeps_contents: "uefi_read_from_partition dev name off n w = Returned (r, w') \<Longrightarrow> contents w' = contents w"
proof -
  have "ensures (\<lambda>(r, w'). contents w' = contents w) (uefi_read_from_partition dev name off n w)"
    by (auto simp: uefi_read_from_partition_def Let_def intro!: ensures_obindI split: option.split prod.split
        dest!: find_partition_result(1) read_disk_contents)
  then show "uefi_read_from_partition dev name off n w = Returned (r, w') \<Longrightarrow> contents w' = contents w"
    using ensuresD by fastforce
qed

lemma others_keep_contents:
  "uefi_get_size_of_partition dev name w = Returned (r1, w') \<Longrightarrow> contents w' = contents w"
  "uefi_get_unique_guid_for_partition dev name w = Returned (r2, w') \<Longrightarrow> contents w' = contents w"
  by (auto simp: uefi_get_size_of_partition_def uefi_get_unique_guid_for_partition_def obind_Returned_iff
      split: option.splits dest!: find_partition_result(1))

end

sublocale efi_disk \<subseteq> ro: read_only "uefi_avb_ops dev address stack stack_size" "\<lambda>w :: 'w platform. contents (fst w) = c" for c
proof
  let ?ops = "uefi_avb_ops dev address stack stack_size"
  fix w :: "'w platform" and n name off key metadata loc get_size read_value preload
  assume "contents (fst w) = c"
  then have w: "c = contents (fst w)" by simp
  show "contents (fst (snd (ops_malloc ?ops n w))) = c"
    "contents (fst (snd (read_from_partition ?ops name off n w))) = c"
    "contents (fst (snd (get_unique_guid_for_partition ?ops name w))) = c"
    "contents (fst (snd (validate_vbmeta_public_key ?ops key metadata w))) = c"
    "contents (fst (snd (read_rollback_index ?ops loc w))) = c"
    "contents (fst (snd (read_is_device_unlocked ?ops w))) = c"
    unfolding w
    by (simp add: uefi_avb_ops_def, rule run_call_keeps, auto simp: pool_keeps_contents uefi_validate_vbmeta_public_key_def uefi_read_rollback_index_def
        uefi_read_is_device_unlocked_def intro: read_keeps_contents others_keep_contents)+
  show "get_preloaded_partition ?ops = Some preload \<Longrightarrow> contents (fst (snd (preload name n w))) = c"
    "read_persistent_value ?ops = Some read_value \<Longrightarrow> contents (fst (snd (read_value name n w))) = c"
    by (simp_all add: uefi_avb_ops_def)
  show "get_size_of_partition ?ops = Some get_size \<Longrightarrow> contents (fst (snd (get_size name w))) = c"
    by (auto simp: w uefi_avb_ops_def intro!: run_call_keeps intro: others_keep_contents)
qed

context efi_disk begin

lemma misc_write:
  assumes "avb_ab_data_write (uefi_avb_ops dev address stack stack_size) d w = (AVB_IO_RESULT_OK, w')"
    and "disk_mounted (dev_block_size dev) (contents (fst w))" "ab_data_wf d"
  shows "disk_mounted (dev_block_size dev) (contents (fst w'))" "disk_stored (dev_block_size dev) (contents (fst w')) = slots d"
proof -
  let ?bs = "dev_block_size dev" and ?m = "ab_data_mem (avb_ab_data_update_crc_and_byteswap d)"
  obtain e where e: "gpt_lookup ?bs (contents (fst w)) (ascii ''misc'') = Some e" "entry_ok ?bs e"
    using assms(2) by (auto simp: disk_mounted_def)
  have "ab_data_sized (avb_ab_data_update_crc_and_byteswap d)"
    using wf_sized [OF assms(3)] by (simp only: update_sized)
  then have len: "length ?m = 32" by (rule length_ab_data_mem)
  from assms(1) have "run_call AVB_IO_RESULT_ERROR_IO (uefi_write_to_partition dev (ascii ''misc'') 2048 ?m) w = (AVB_IO_RESULT_OK, w')"
    by (auto simp: avb_ab_data_write_def uefi_avb_ops_def AB_METADATA_MISC_PARTITION_OFFSET_def Let_def
        split: prod.splits if_splits)
  from run_call_cases [OF this]
  have "uefi_write_to_partition dev (ascii ''misc'') 2048 ?m (fst w) = Returned (AVB_IO_RESULT_OK, fst w')" by simp
  then obtain e' w1 where f: "find_partition_entry_by_name dev (ascii ''misc'') (fst w) = Returned (Some e', w1)"
    and wr0: "(if of_nat (length ?m) > write_size dev e' - 2048
        then Returned (AVB_IO_RESULT_ERROR_RANGE_OUTSIDE_PARTITION, w1)
        else case dev_write_disk dev (first_lba e' * ucast ?bs + 2048) ?m w1 of
          (ok, w2) \<Rightarrow> Returned (if \<not> ok then AVB_IO_RESULT_ERROR_IO else AVB_IO_RESULT_OK, w2)) =
      Returned (AVB_IO_RESULT_OK, fst w')"
    by (fastforce simp: uefi_write_to_partition_def obind_Returned_iff Let_def partition_offset_def split: option.splits)
  from wr0 have wr: "dev_write_disk dev (first_lba e' * ucast ?bs + 2048) ?m w1 = (True, fst w')"
    by (auto split: if_splits prod.splits)
  have e': "e' = e" "contents w1 = contents (fst w)" using find_partition_result [OF f] e by auto
  from write_disk_contents [OF wr] have c: "misc_pos ?bs e + 32 \<le> length (contents (fst w))"
    "contents (fst w') = overwrite (misc_pos ?bs e) ?m (contents (fst w))"
    by (simp_all add: e' len misc_address [OF e(2)])
  have "34 * unat ?bs \<le> misc_pos ?bs e"
    using e(2) by (auto simp: entry_ok_def misc_pos_def intro: trans_le_add1 mult_right_mono)
  then have l: "gpt_lookup ?bs (contents (fst w')) (ascii ''misc'') = Some e"
    using e block_size c(1) len by (simp add: c(2) gpt_lookup_overwrite entry_ok_def)
  with e(2) show "disk_mounted ?bs (contents (fst w'))" by (auto simp: disk_mounted_def)
  have "slice (misc_pos ?bs e) 32 (contents (fst w')) = Some ?m"
    using slice_overwrite_same [of "misc_pos ?bs e" ?m "contents (fst w)"] c len by simp
  then have "take 32 (drop (misc_pos ?bs e) (contents (fst w'))) = ?m" by (auto simp: slice_def split: if_splits)
  with l show "disk_stored ?bs (contents (fst w')) = slots d"
    by (simp add: disk_stored_def update_then_verify [OF assms(3)])
qed

lemma stored_by_verify:
  assumes "gpt_lookup bs d (ascii ''misc'') = Some e" "slice (misc_pos bs e) 32 d = Some m"
  shows "disk_stored bs d = slots (if fst (avb_ab_data_verify_and_byteswap (ab_data_of_mem m) (ab_data_of_mem m))
     then snd (avb_ab_data_verify_and_byteswap (ab_data_of_mem m) (ab_data_of_mem m)) else avb_ab_data_init)"
proof -
  have "take 32 (drop (misc_pos bs e) d) = m" using assms(2) by (auto simp: slice_def split: if_splits)
  then show ?thesis using assms(1) by (simp add: disk_stored_def split_def Let_def)
qed

lemma init_wf: "ab_data_wf avb_ab_data_init"
  by (simp add: ab_data_wf_def ab_data_sized_def avb_ab_data_init_def AVB_AB_MAGIC_def)

lemma misc_read:
  assumes "avb_ab_data_read (uefi_avb_ops dev address stack stack_size) w = ((AVB_IO_RESULT_OK, found), w')"
    and "disk_mounted (dev_block_size dev) (contents (fst w))"
  shows "\<exists>d. found = Some d \<and> ab_data_wf d \<and> slots d = disk_stored (dev_block_size dev) (contents (fst w))"
    "disk_mounted (dev_block_size dev) (contents (fst w')) \<and>
     disk_stored (dev_block_size dev) (contents (fst w')) = disk_stored (dev_block_size dev) (contents (fst w))"
proof -
  let ?bs = "dev_block_size dev" and ?ops = "uefi_avb_ops dev address stack stack_size"
  obtain e where e: "gpt_lookup ?bs (contents (fst w)) (ascii ''misc'') = Some e" "entry_ok ?bs e"
    using assms(2) by (auto simp: disk_mounted_def)
  obtain io m w1 where r: "read_from_partition ?ops (ascii ''misc'') 2048 32 w = ((io, m), w1)" by (metis surj_pair)
  have ok: "io = AVB_IO_RESULT_OK" "length m = 32"
    using assms(1) r by (auto simp: avb_ab_data_read_def AB_METADATA_MISC_PARTITION_OFFSET_def Let_def split: if_splits)
  from r have "run_call (AVB_IO_RESULT_ERROR_IO, []) (uefi_read_from_partition dev (ascii ''misc'') 2048 32) w = ((io, m), w1)"
    by (simp add: uefi_avb_ops_def)
  from run_call_cases [OF this] ok
  have "uefi_read_from_partition dev (ascii ''misc'') 2048 32 (fst w) = Returned ((AVB_IO_RESULT_OK, m), fst w1)" by auto
  then obtain e' w2 n where f: "find_partition_entry_by_name dev (ascii ''misc'') (fst w) = Returned (Some e', w2)"
    and rd0: "(case dev_read_disk dev (first_lba e' * ucast ?bs + 2048) n w2 of
        (None, w2) \<Rightarrow> Returned ((AVB_IO_RESULT_ERROR_IO, []), w2)
      | (Some buf, w2) \<Rightarrow> Returned ((AVB_IO_RESULT_OK, buf), w2)) = Returned ((AVB_IO_RESULT_OK, m), fst w1)"
    by (fastforce simp: uefi_read_from_partition_def obind_Returned_iff Let_def partition_offset_def split: option.splits)
  from rd0 have rd: "dev_read_disk dev (first_lba e' * ucast ?bs + 2048) n w2 = (Some m, fst w1)"
    by (auto split: prod.splits option.splits)
  have e': "e' = e" "contents w2 = contents (fst w)" using find_partition_result [OF f] e by auto
  from read_disk_contents [OF rd] have c1: "contents (fst w1) = contents (fst w)" and m: "slice (misc_pos ?bs e) n (contents (fst w)) = Some m"
    by (simp_all add: e' misc_address [OF e(2)])
  have "n = 32" using slice_length [OF m] ok(2) by simp
  note st = stored_by_verify [OF e(1) m [unfolded this]]
  let ?v = "avb_ab_data_verify_and_byteswap (ab_data_of_mem m) (ab_data_of_mem m)"
  have "(\<exists>d. found = Some d \<and> ab_data_wf d \<and> slots d = disk_stored ?bs (contents (fst w))) \<and>
      disk_mounted ?bs (contents (fst w')) \<and> disk_stored ?bs (contents (fst w')) = disk_stored ?bs (contents (fst w))"
  proof (cases "fst ?v")
    case True
    then have v: "?v = (True, snd ?v)" by (metis prod.collapse)
    from assms(1) r ok True have "found = Some (snd ?v)" "w' = w1"
      by (auto simp: avb_ab_data_read_def AB_METADATA_MISC_PARTITION_OFFSET_def Let_def split_def)
    with True st c1 assms(2) verify_inverts_update(2) [OF v ok(2)] show ?thesis by simp
  next
    case False
    from assms(1) r ok False have f: "found = Some avb_ab_data_init"
      and wr: "avb_ab_data_write ?ops avb_ab_data_init w1 = (AVB_IO_RESULT_OK, w')"
      by (auto simp: avb_ab_data_read_def AB_METADATA_MISC_PARTITION_OFFSET_def Let_def split_def prod_eq_iff)
    from misc_write [OF wr _ init_wf] c1 assms(2) f st False init_wf show ?thesis by simp
  qed
  then show "\<exists>d. found = Some d \<and> ab_data_wf d \<and> slots d = disk_stored ?bs (contents (fst w))"
    "disk_mounted ?bs (contents (fst w')) \<and> disk_stored ?bs (contents (fst w')) = disk_stored ?bs (contents (fst w))" by simp_all
qed

end

sublocale efi_disk \<subseteq> store: metadata_store "uefi_ab_ops (uefi_avb_ops dev address stack stack_size) local_data"
  "\<lambda>w :: 'w platform. disk_mounted (dev_block_size dev) (contents (fst w))"
  "\<lambda>w :: 'w platform. disk_stored (dev_block_size dev) (contents (fst w))"
proof
  let ?ops = "uefi_avb_ops dev address stack stack_size"
  fix w w' :: "'w platform" and found d req suf flags mode want r loc r1 v r2
  assume m: "disk_mounted (dev_block_size dev) (contents (fst w))"
  show "read_ab_metadata (uefi_ab_ops ?ops local_data) w = ((AVB_IO_RESULT_OK, found), w') \<Longrightarrow>
      (\<exists>d. found = Some d \<and> ab_data_wf d \<and> slots d = disk_stored (dev_block_size dev) (contents (fst w))) \<and>
      disk_mounted (dev_block_size dev) (contents (fst w')) \<and>
      disk_stored (dev_block_size dev) (contents (fst w')) = disk_stored (dev_block_size dev) (contents (fst w))"
    using misc_read [OF _ m] by (simp add: uefi_ab_ops_def)
  show "ab_data_wf d \<Longrightarrow> write_ab_metadata (uefi_ab_ops ?ops local_data) d w = (AVB_IO_RESULT_OK, w') \<Longrightarrow>
      disk_mounted (dev_block_size dev) (contents (fst w')) \<and> disk_stored (dev_block_size dev) (contents (fst w')) = slots d"
    using misc_write [OF _ m] by (simp add: uefi_ab_ops_def)
  show "avb_slot_verify (ab_base (uefi_ab_ops ?ops local_data)) req suf flags mode want w = Returned (r, w') \<Longrightarrow>
      disk_mounted (dev_block_size dev) (contents (fst w')) \<and>
      disk_stored (dev_block_size dev) (contents (fst w')) = disk_stored (dev_block_size dev) (contents (fst w))"
    using ro.verify_keeps [of req suf flags mode want w r w' "contents (fst w)"] m by (simp add: uefi_ab_ops_def)
  show "read_rollback_index (ab_base (uefi_ab_ops ?ops local_data)) loc w = (r1, w') \<Longrightarrow>
      disk_mounted (dev_block_size dev) (contents (fst w')) \<and>
      disk_stored (dev_block_size dev) (contents (fst w')) = disk_stored (dev_block_size dev) (contents (fst w))"
    "write_rollback_index (ab_base (uefi_ab_ops ?ops local_data)) loc v w = (r2, w') \<Longrightarrow>
      disk_mounted (dev_block_size dev) (contents (fst w')) \<and>
      disk_stored (dev_block_size dev) (contents (fst w')) = disk_stored (dev_block_size dev) (contents (fst w))"
    using m by (auto simp: uefi_ab_ops_def uefi_avb_ops_def uefi_read_rollback_index_def uefi_write_rollback_index_def
        dest!: run_call_cases)
qed

subsection \<open>A disk in memory\<close>

definition ram_device :: "bytes efi_device" where
  "ram_device = \<lparr>dev_pool = \<lambda>n d. (True, d), dev_block_size = 512,
     dev_read_blocks = \<lambda>lba n d. (slice (unat lba * 512) n d, d),
     dev_read_disk = \<lambda>off n d. (slice (unat off) n d, d),
     dev_write_disk = \<lambda>off b d. (if unat off + length b \<le> length d then (True, overwrite (unat off) b d) else (False, d))\<rparr>"

interpretation ram: efi_disk ram_device "\<lambda>d. d" "\<lambda>d. 4096" "\<lambda>d. stack0" "\<lambda>d. 0"
  "\<lambda>d. (avb_ab_data_init, avb_ab_data_init)"
  by unfold_locales (auto simp: ram_device_def split: if_splits)

end
