(* ===== verification/UefiPartition.thy ===== *)
theory UefiPartition
  imports UefiDisk
begin

text \<open>
  What the partition operations of the UEFI platform do to the contents of a disk: their place and
  length, where they leave the partition, and the text of a partition's GUID; with a sample disk for
  the witnesses.
\<close>

subsection \<open>Places in a partition\<close>

definition part_start :: "u32 \<Rightarrow> GPTEntry \<Rightarrow> nat" where
  "part_start bs e = unat (first_lba e) * unat bs"

definition part_size :: "u32 \<Rightarrow> GPTEntry \<Rightarrow> nat" where
  "part_size bs e = (unat (last_lba e) + 1 - unat (first_lba e)) * unat bs"

text \<open>An offset in a range of \<open>size0\<close> octets; a negative one counts from the end.\<close>

definition place :: "nat \<Rightarrow> int \<Rightarrow> nat" where
  "place size0 off = (if off < 0 then size0 - nat (- off) else nat off)"

lemma unat_block: "unat (ucast (bs :: u32) :: u64) = unat bs"
  by (rule unat_ucast_up) simp

lemma unat_sub: "unat (b :: u64) \<le> unat a \<Longrightarrow> unat (a - b) = unat a - unat b"
  by (simp add: unat_sub word_le_nat_alt)

lemma entry_sizes:
  assumes "entry_ok bs e"
  shows "part_start bs e + part_size bs e = (unat (last_lba e) + 1) * unat bs"
    "part_start bs e + part_size bs e < 2 ^ 63" "unat bs \<le> part_size bs e"
proof -
  have f: "unat (first_lba e) \<le> unat (last_lba e)" and b: "(unat (last_lba e) + 1) * unat bs < 2 ^ 63"
    using assms by (simp_all add: entry_ok_def)
  from f have "unat (first_lba e) + (unat (last_lba e) + 1 - unat (first_lba e)) = unat (last_lba e) + 1" by simp
  then show s: "part_start bs e + part_size bs e = (unat (last_lba e) + 1) * unat bs"
    unfolding part_start_def part_size_def by (metis add_mult_distrib)
  with b show "part_start bs e + part_size bs e < 2 ^ 63" by simp
  show "unat bs \<le> part_size bs e" using f by (simp add: part_size_def Suc_diff_le)
qed

lemma read_size_value:
  assumes "entry_ok bs e" "dev_block_size dev = bs"
  shows "unat (read_size dev e) = part_size bs e"
proof -
  have f: "unat (first_lba e) \<le> unat (last_lba e)" using assms(1) by (simp add: entry_ok_def)
  have p: "part_size bs e < 2 ^ 64" using entry_sizes(2) [OF assms(1)] by simp
  have "unat bs > 0 \<or> part_size bs e = 0" by (auto simp: part_size_def)
  then have l: "unat bs = 0 \<or> unat (last_lba e) + 1 - unat (first_lba e) < 2 ^ 64"
  proof
    assume "unat bs > 0"
    then have "unat (last_lba e) + 1 - unat (first_lba e) \<le> part_size bs e" by (simp add: part_size_def)
    with p show ?thesis by simp
  next
    assume "part_size bs e = 0"
    then show ?thesis using f by (simp add: part_size_def)
  qed
  have "unat (last_lba e - first_lba e + 1) = (unat (last_lba e) + 1 - unat (first_lba e)) mod 2 ^ 64"
    using f by (simp add: unat_word_ariths(1) unat_sub Suc_diff_le)
  then show ?thesis
    using p l unfolding read_size_def assms(2) unat_word_ariths(2) unat_block
    by (auto simp: part_size_def)
qed

lemma write_size_value:
  assumes "entry_ok bs e" "dev_block_size dev = bs"
  shows "unat (write_size dev e) = part_size bs e - unat bs"
proof -
  have "read_size dev e = write_size dev e + ucast bs"
    by (simp add: read_size_def write_size_def assms(2) algebra_simps)
  then have w: "write_size dev e = read_size dev e - ucast bs" by simp
  show ?thesis
    unfolding w using entry_sizes(3) [OF assms(1)]
    by (subst unat_sub) (simp_all add: read_size_value [OF assms] unat_block)
qed

lemma small_word: "n < 2 ^ 64 \<Longrightarrow> unat (of_nat n :: u64) = n"
  by (simp add: unat_of_nat)

lemma sint_small: "unat (s :: u64) < 2 ^ 63 \<Longrightarrow> sint s = int (unat s)"
proof -
  assume "unat s < 2 ^ 63"
  moreover have a1: "int (unat s) = uint s" by (rule of_nat_unat)
  ultimately have u: "uint s < 2 ^ 63" by (metis of_nat_less_iff of_nat_numeral of_nat_power)
  have "- (2 ^ 63) \<le> uint s" by (rule order_trans [OF _ uint_ge_0]) simp
  with u have "signed_take_bit 63 (uint s) = uint s" by (rule signed_take_bit_int_eq_self [rotated])
  then show ?thesis unfolding a1 sint_uint by simp
qed

lemma partition_offset_value:
  assumes "unat size0 < 2 ^ 63" "partition_offset size0 off = Some o0" "off < 2 ^ 63"
  shows "- int (unat size0) \<le> off" "unat o0 = place (unat size0) off"
proof -
  note s = sint_small [OF assms(1)]
  have "- int (unat size0) \<le> off \<and> unat o0 = place (unat size0) off"
  proof (cases "off < 0")
    case True
    then have "\<not> - off > sint size0" and o: "o0 = size0 - word_of_int (- off)"
      using assms(2) by (auto simp: partition_offset_def split: if_splits)
    then have le: "nat (- off) \<le> unat size0" unfolding s by linarith
    have "word_of_int (- off) = (word_of_nat (nat (- off)) :: u64)" using True by (simp add: of_nat_nat)
    moreover have "unat (word_of_nat (nat (- off)) :: u64) = nat (- off)"
      using le assms(1) by (intro small_word) simp
    ultimately have "unat o0 = unat size0 - nat (- off)" using le by (simp add: o unat_sub)
    moreover have "- int (unat size0) \<le> off" using le by linarith
    ultimately show ?thesis using True by (simp add: place_def del: of_nat_unat)
  next
    case False
    then have "o0 = word_of_nat (nat off)" using assms(2) by (auto simp: partition_offset_def of_nat_nat)
    moreover have "unat (word_of_nat (nat off) :: u64) = nat off" using assms(3) False by (intro small_word) simp
    moreover have "- int (unat size0) \<le> off" using False by linarith
    ultimately show ?thesis using False by (simp add: place_def del: of_nat_unat)
  qed
  then show "- int (unat size0) \<le> off" "unat o0 = place (unat size0) off" by simp_all
qed

lemma disk_position:
  assumes "entry_ok bs e" "dev_block_size dev = bs" "unat o0 < 2 ^ 63"
  shows "unat (first_lba e * ucast (dev_block_size dev) + o0 :: u64) = part_start bs e + unat o0"
proof -
  have "part_start bs e + unat o0 < 2 ^ 64" using entry_sizes(2) [OF assms(1)] assms(3) by simp
  then show ?thesis unfolding assms(2) unat_word_ariths(1,2) unat_block part_start_def by simp
qed

context efi_disk begin

lemma is_metadata_store:
  "metadata_store (uefi_ab_ops (uefi_avb_ops dev address stack stack_size) local_data)
     (\<lambda>w. disk_mounted (dev_block_size dev) (contents (fst w))) (\<lambda>w. disk_stored (dev_block_size dev) (contents (fst w)))"
  by unfold_locales

lemma read_place:
  assumes "uefi_read_from_partition dev name off n w = Returned ((AVB_IO_RESULT_OK, buf), w')"
    and "gpt_lookup (dev_block_size dev) (contents w) name = Some e" "entry_ok (dev_block_size dev) e"
    and "off < 2 ^ 63" "n < 2 ^ 63"
  shows "- int (part_size (dev_block_size dev) e) \<le> off"
    "slice (part_start (dev_block_size dev) e + place (part_size (dev_block_size dev) e) off)
      (if off \<le> int (part_size (dev_block_size dev) e)
       then min n (part_size (dev_block_size dev) e - place (part_size (dev_block_size dev) e) off) else n)
      (contents w) = Some buf"
proof -
  let ?bs = "dev_block_size dev"
  let ?size = "read_size dev e" and ?N = "part_size (dev_block_size dev) e"
  have size: "unat ?size = ?N" by (rule read_size_value [OF assms(3) refl])
  have N: "?N < 2 ^ 63" using entry_sizes(2) [OF assms(3)] by simp
  obtain e' w1 o0 where f: "find_partition_entry_by_name dev name w = Returned (Some e', w1)"
    and o0: "partition_offset (read_size dev e') off = Some o0"
    and rd0: "(case dev_read_disk dev (first_lba e' * ucast ?bs + o0)
        (unat (if of_nat n > read_size dev e' - o0 then read_size dev e' - o0 else of_nat n)) w1 of
        (None, w2) \<Rightarrow> Returned ((AVB_IO_RESULT_ERROR_IO, []), w2)
      | (Some buf, w2) \<Rightarrow> Returned ((AVB_IO_RESULT_OK, buf), w2)) = Returned ((AVB_IO_RESULT_OK, buf), w')"
    using assms(1) by (fastforce simp: uefi_read_from_partition_def obind_Returned_iff Let_def split: option.splits)
  have e': "e' = e" "contents w1 = contents w" using find_partition_result [OF f] assms(2) by auto
  from rd0 [unfolded e'] obtain w2 where rd: "dev_read_disk dev (first_lba e * ucast ?bs + o0)
        (unat (if of_nat n > ?size - o0 then ?size - o0 else of_nat n)) w1 = (Some buf, w2)"
    by (auto split: prod.splits option.splits)
  note p = partition_offset_value [OF _ o0 assms(4), unfolded e' size, OF N]
  then show "- int ?N \<le> off" by simp
  have small: "unat o0 < 2 ^ 63" using p assms(4) N by (auto simp: place_def)
  have n: "unat (of_nat n :: u64) = n" using assms(5) by (intro small_word) simp
  have count: "unat (if of_nat n > ?size - o0 then ?size - o0 else of_nat n) =
      (if off \<le> int ?N then min n (?N - place ?N off) else n)"
  proof (cases "off \<le> int ?N")
    case True
    then have "unat o0 \<le> unat ?size" using p size by (auto simp: place_def)
    then have "unat (?size - o0) = ?N - place ?N off" by (simp add: unat_sub size p(2))
    with True show ?thesis by (simp add: word_less_nat_alt n)
  next
    case False
    then have o: "unat o0 = nat off" "?N < nat off" using p by (auto simp: place_def)
    have "unat (?size - o0) = ?N + 2 ^ 64 - unat o0" using o size by (simp add: unat_sub_if')
    then have "n \<le> unat (?size - o0)" using assms(5) small by simp
    with False show ?thesis by (simp add: word_less_nat_alt n)
  qed
  from conjunct2 [OF read_disk_contents [OF rd]]
  show "slice (part_start ?bs e + place ?N off) (if off \<le> int ?N then min n (?N - place ?N off) else n) (contents w) = Some buf"
    unfolding count disk_position [OF assms(3) refl small] by (simp add: e' p(2))
qed

lemma write_place:
  assumes "uefi_write_to_partition dev name off buf w = Returned (AVB_IO_RESULT_OK, w')"
    and "gpt_lookup (dev_block_size dev) (contents w) name = Some e" "entry_ok (dev_block_size dev) e"
    and "off < 2 ^ 63" "length buf < 2 ^ 63"
  shows "- int (part_size (dev_block_size dev) e - unat (dev_block_size dev)) \<le> off"
    "off \<le> int (part_size (dev_block_size dev) e - unat (dev_block_size dev)) \<Longrightarrow>
      place (part_size (dev_block_size dev) e - unat (dev_block_size dev)) off + length buf \<le>
      part_size (dev_block_size dev) e - unat (dev_block_size dev)"
    "contents w' = overwrite (part_start (dev_block_size dev) e +
       place (part_size (dev_block_size dev) e - unat (dev_block_size dev)) off) buf (contents w)"
proof -
  let ?bs = "dev_block_size dev"
  let ?size = "write_size dev e" and ?N = "part_size (dev_block_size dev) e"
  let ?M = "?N - unat ?bs"
  have size: "unat ?size = ?M" by (rule write_size_value [OF assms(3) refl])
  have N: "?N < 2 ^ 63" "?M < 2 ^ 63" "unat ?bs \<le> ?N" using entry_sizes(2,3) [OF assms(3)] by simp_all
  obtain e' w1 o0 where f: "find_partition_entry_by_name dev name w = Returned (Some e', w1)"
    and o0: "partition_offset (write_size dev e') off = Some o0"
    and wr0: "(if of_nat (length buf) > write_size dev e' - o0
               then Returned (AVB_IO_RESULT_ERROR_RANGE_OUTSIDE_PARTITION, w1)
               else (case dev_write_disk dev (first_lba e' * ucast ?bs + o0) buf w1 of
                     (ok, w2) \<Rightarrow> Returned (if \<not> ok then AVB_IO_RESULT_ERROR_IO else AVB_IO_RESULT_OK, w2))) =
      Returned (AVB_IO_RESULT_OK, w')"
    using assms(1) by (fastforce simp: uefi_write_to_partition_def obind_Returned_iff Let_def split: option.splits)
  have e': "e' = e" "contents w1 = contents w" using find_partition_result [OF f] assms(2) by auto
  from wr0 have fit: "\<not> of_nat (length buf) > ?size - o0"
    and wr: "dev_write_disk dev (first_lba e * ucast ?bs + o0) buf w1 = (True, w')"
    by (auto simp: e' split: prod.splits if_splits)
  note p = partition_offset_value [OF _ o0 assms(4), unfolded e' size, OF N(2)]
  then show "- int ?M \<le> off" by simp
  have small: "unat o0 < 2 ^ 63" using p assms(4) N by (auto simp: place_def)
  have n: "unat (of_nat (length buf) :: u64) = length buf" using assms(5) by (intro small_word) simp
  show "place ?M off + length buf \<le> ?M" if "off \<le> int ?M"
  proof -
    have le: "unat o0 \<le> ?M" using that by (auto simp: p(2) place_def)
    have "length buf \<le> ?M - unat o0"
      using fit le by (simp add: word_less_nat_alt n unat_sub size not_less)
    then show ?thesis using le unfolding p(2) by simp
  qed
  from write_disk_contents [OF wr] show "contents w' = overwrite (part_start ?bs e + place ?M off) buf (contents w)"
    unfolding disk_position [OF assms(3) refl small] by (simp add: e' p(2))
qed

end

subsection \<open>A sample disk\<close>

text \<open>
  A disk in memory with one partition, \<open>misc\<close>, in the blocks 34 to 37, which hold the octet 7; the
  block behind it holds the octet 9.
\<close>

definition octets :: "nat \<Rightarrow> u8 \<Rightarrow> bytes" where
  "octets n b = replicate n b"

lemma octets_simps [simp]:
  "length (octets n b) = n" "take k (octets n b) = octets (min k n) b" "drop k (octets n b) = octets (n - k) b"
  "octets 0 b = []"
  by (simp_all add: octets_def)

definition sample_table :: bytes where
  "sample_table = replicate 80 0 @ [1, 0, 0, 0] @ replicate 428 0"

definition sample_entry :: bytes where
  "sample_entry = replicate 32 0 @ [34, 0, 0, 0, 0, 0, 0, 0, 37, 0, 0, 0, 0, 0, 0, 0] @ replicate 8 0 @
     [109, 0, 105, 0, 115, 0, 99, 0] @ replicate 64 0"

definition sample_disk :: bytes where
  "sample_disk = octets 512 0 @ sample_table @ (sample_entry @ octets 16256 0) @ octets 2048 7 @ octets 512 9"

definition sample_partition :: GPTEntry where
  "sample_partition = \<lparr>type_GUID = replicate 16 0, unique_GUID = replicate 16 0, first_lba = 34, last_lba = 37,
     gpt_flags = 0, entry_name = [109, 0, 105, 0, 115, 0, 99, 0] @ replicate 64 0\<rparr>"

lemma sample_lengths: "length sample_table = 512" "length sample_entry = 128" "length sample_disk = 19968"
  by (simp_all add: sample_disk_def sample_table_def sample_entry_def)

lemma sample_slices:
  "slice 512 512 sample_disk = Some sample_table"
  "slice 1024 16384 sample_disk = Some (sample_entry @ octets 16256 0)"
  by (simp_all add: slice_def sample_lengths) (simp_all add: sample_disk_def sample_lengths)

lemma sample_name:
  "uefi_avb_utf8_to_ucs2 (ascii ''misc'' @ [0]) (length (ascii ''misc'')) (2 * (length (ascii ''misc'') + 1)) =
     Returned (Some [109, 105, 115, 99])"
  by code_simp

lemma sample_find:
  "find_entry (concat (map mem16 (takeWhile (\<lambda>u. u \<noteq> 0) [109, 105, 115, 99])))
     (unat (entry_count (gpt_header_of_mem sample_table))) (sample_entry @ octets 16256 0) = Returned (Some sample_partition)"
proof -
  have n: "unat (entry_count (gpt_header_of_mem sample_table)) = Suc 0"
    by code_simp
  have nm: "concat (map mem16 (takeWhile (\<lambda>u. u \<noteq> 0) [109, 105, 115, 99])) = [109, 0, 105, 0, 115, 0, 99, 0]"
    by code_simp
  have d: "drop 56 (sample_entry @ octets 16256 0) = [109, 0, 105, 0, 115, 0, 99, 0] @ 0 # 0 # replicate 62 0 @ octets 16256 0"
    by (simp add: sample_lengths) (simp add: sample_entry_def flip: replicate_Suc)
  have e: "gpt_entry_of_mem sample_entry = sample_partition" by code_simp
  have s: "slice 0 128 (sample_entry @ octets 16256 0) = Some sample_entry"
    by (simp add: slice_def sample_lengths)
  show ?thesis unfolding n nm find_entry.simps d by (simp add: s e)
qed

lemma ram_device_simps [simp]:
  "dev_pool ram_device = (\<lambda>n d. (True, d))" "dev_block_size ram_device = 512"
  "dev_read_blocks ram_device lba n d = (slice (unat lba * 512) n d, d)"
  "dev_read_disk ram_device off n d = (slice (unat off) n d, d)"
  "dev_write_disk ram_device off b d =
     (if unat off + length b \<le> length d then (True, overwrite (unat off) b d) else (False, d))"
  by (simp_all add: ram_device_def)

lemma sample_lookup: "gpt_lookup 512 sample_disk (ascii ''misc'') = Some sample_partition"
  by (simp only: gpt_lookup_def sample_name) (simp add: sample_slices sample_find del: takeWhile.simps map_append)

lemma sample_found: "find_partition_entry_by_name ram_device (ascii ''misc'') sample_disk = Returned (Some sample_partition, sample_disk)"
  unfolding find_partition_entry_by_name_def Let_def sample_name
  by (simp add: avb_malloc_def avb_calloc_def sample_slices GPT_ENTRIES_LBA_def MAX_GPT_ENTRIES_def sample_find
      del: takeWhile.simps list.map)

lemma sample_entry_ok: "entry_ok 512 sample_partition"
  by (simp add: entry_ok_def sample_partition_def)

lemma sample_places: "part_start 512 sample_partition = 17408" "part_size 512 sample_partition = 2048"
  by (simp_all add: part_start_def part_size_def sample_partition_def)

subsection \<open>Properties\<close>

text \<open>
  C18: a successful read at an offset that is not behind the end of the partition stays in it: it
  gives the octets of the disk at that place, and as many as were asked for or, when there are less,
  all up to the end of the partition.  Negative offsets count from the end.
\<close>
theorem partition_read_confined:
  assumes "efi_disk dev contents"
    and "uefi_read_from_partition dev name off n w = Returned ((AVB_IO_RESULT_OK, buf), w')"
    and "gpt_lookup (dev_block_size dev) (contents w) name = Some e" and "entry_ok (dev_block_size dev) e"
    and "off \<le> int (part_size (dev_block_size dev) e)" and "n < 2 ^ 63"
  shows "- int (part_size (dev_block_size dev) e) \<le> off \<and>
    length buf = min n (part_size (dev_block_size dev) e - place (part_size (dev_block_size dev) e) off) \<and>
    slice (part_start (dev_block_size dev) e + place (part_size (dev_block_size dev) e) off) (length buf) (contents w) = Some buf"
proof -
  have "int (part_size (dev_block_size dev) e) < 2 ^ 63" using entry_sizes(2) [OF assms(4)] by simp
  then have "off < 2 ^ 63" using assms(5) by linarith
  note r = efi_disk.read_place [OF assms(1-4) this assms(6)]
  from r(2) assms(5) slice_length [OF r(2)] r(1) show ?thesis by simp
qed

theorem partition_read_confined_witness:
  "length (octets 4 7) = min 8 (2048 - place 2048 (- 4)) \<and>
   slice (17408 + place 2048 (- 4)) 4 sample_disk = Some (octets 4 7)"
proof -
  have d: "slice 19452 4 sample_disk = Some (octets 4 7)"
    by (simp add: slice_def sample_lengths) (simp add: sample_disk_def sample_lengths)
  have "uefi_read_from_partition ram_device (ascii ''misc'') (- 4) 8 sample_disk =
      Returned ((AVB_IO_RESULT_OK, octets 4 7), sample_disk)"
    using d by (simp add: uefi_read_from_partition_def sample_found partition_offset_def read_size_def sample_partition_def)
  from partition_read_confined [OF ram.efi_disk_axioms this] show ?thesis
    using sample_lookup sample_entry_ok by (simp add: sample_places)
qed

text \<open>
  An offset behind the end of the partition is not refused: the number of octets left wraps around,
  and the read gives the octets of whatever follows the partition on the disk.
\<close>
theorem partition_read_escapes:
  assumes "efi_disk dev contents"
    and "uefi_read_from_partition dev name off n w = Returned ((AVB_IO_RESULT_OK, buf), w')"
    and "gpt_lookup (dev_block_size dev) (contents w) name = Some e" and "entry_ok (dev_block_size dev) e"
    and "int (part_size (dev_block_size dev) e) < off" and "off < 2 ^ 63" and "n < 2 ^ 63"
  shows "slice (part_start (dev_block_size dev) e + nat off) n (contents w) = Some buf \<and>
    (unat (last_lba e) + 1) * unat (dev_block_size dev) < part_start (dev_block_size dev) e + nat off"
proof -
  have "place (part_size (dev_block_size dev) e) off = nat off" using assms(5) by (simp add: place_def)
  with efi_disk.read_place(2) [OF assms(1-4,6,7)] assms(5)
  have "slice (part_start (dev_block_size dev) e + nat off) n (contents w) = Some buf" by simp
  moreover have "(unat (last_lba e) + 1) * unat (dev_block_size dev) < part_start (dev_block_size dev) e + nat off"
    unfolding entry_sizes(1) [OF assms(4), symmetric] using assms(5) by linarith
  ultimately show ?thesis ..
qed

theorem partition_read_escapes_witness:
  "uefi_read_from_partition ram_device (ascii ''misc'') 2052 4 sample_disk =
     Returned ((AVB_IO_RESULT_OK, octets 4 9), sample_disk) \<and>
   slice (17408 + 2052) 4 sample_disk = Some (octets 4 9)"
proof -
  have "slice 19460 4 sample_disk = Some (octets 4 9)"
    by (simp add: slice_def sample_lengths) (simp add: sample_disk_def sample_lengths)
  then have r: "uefi_read_from_partition ram_device (ascii ''misc'') 2052 4 sample_disk =
      Returned ((AVB_IO_RESULT_OK, octets 4 9), sample_disk)"
    by (simp add: uefi_read_from_partition_def sample_found partition_offset_def read_size_def sample_partition_def)
  with partition_read_escapes [OF ram.efi_disk_axioms r] show ?thesis
    using sample_lookup sample_entry_ok by (simp add: sample_places)
qed

text \<open>
  C19: where a successful write goes, for every offset of 64 bits: \<open>write_to_partition\<close> takes the start
  of the last block for the end of the partition.  An offset up to there stays in the partition, in
  front of its last block; a negative one counts from there, so that it means a place one block
  before the one that a read, and the documentation, mean.  An offset behind it is not checked at
  all: the buffer is written at that distance from the start of the partition, whether or not that is
  outside.  In each case nothing else on the disk changes.
\<close>
theorem partition_write_located:
  assumes "efi_disk dev contents"
    and "uefi_write_to_partition dev name off buf w = Returned (AVB_IO_RESULT_OK, w')"
    and "gpt_lookup (dev_block_size dev) (contents w) name = Some e" and "entry_ok (dev_block_size dev) e"
    and "off < 2 ^ 63" and "length buf < 2 ^ 63"
  defines "start \<equiv> part_start (dev_block_size dev) e"
    and "last_block \<equiv> part_size (dev_block_size dev) e - unat (dev_block_size dev)"
  shows "(if off < 0 then - int last_block \<le> off \<and>
       place last_block off + unat (dev_block_size dev) = place (part_size (dev_block_size dev) e) off \<and>
       contents w' = overwrite (start + place last_block off) buf (contents w)
     else contents w' = overwrite (start + nat off) buf (contents w)) \<and>
    (off \<le> int last_block \<longrightarrow> place last_block off + length buf \<le> last_block)"
proof -
  note w = efi_disk.write_place [OF assms(1-6), folded last_block_def start_def]
  have "unat (dev_block_size dev) \<le> part_size (dev_block_size dev) e" by (rule entry_sizes(3) [OF assms(4)])
  moreover have "nat (- off) \<le> last_block" if "off < 0" using that w(1) by linarith
  ultimately have "place last_block off + unat (dev_block_size dev) = place (part_size (dev_block_size dev) e) off" if "off < 0"
    using that by (simp add: place_def last_block_def)
  moreover have "place last_block off = nat off" if "\<not> off < 0" using that by (simp add: place_def)
  ultimately show ?thesis using w by simp
qed

theorem partition_write_located_witness:
  "\<exists>d1 d2 d3. uefi_write_to_partition ram_device (ascii ''misc'') 8 [1, 2, 3, 4] sample_disk = Returned (AVB_IO_RESULT_OK, d1) \<and>
     d1 = overwrite (17408 + 8) [1, 2, 3, 4] sample_disk \<and>
     uefi_write_to_partition ram_device (ascii ''misc'') (- 4) [1, 2, 3, 4] sample_disk = Returned (AVB_IO_RESULT_OK, d2) \<and>
     d2 = overwrite (17408 + 1532) [1, 2, 3, 4] sample_disk \<and>
     uefi_write_to_partition ram_device (ascii ''misc'') 2052 [1, 2, 3, 4] sample_disk = Returned (AVB_IO_RESULT_OK, d3) \<and>
     d3 = overwrite (17408 + 2052) [1, 2, 3, 4] sample_disk \<and> 17408 + 2052 > 17408 + part_size 512 sample_partition"
proof -
  have "\<exists>d. uefi_write_to_partition ram_device (ascii ''misc'') off [1, 2, 3, 4] sample_disk = Returned (AVB_IO_RESULT_OK, d)"
    if "off \<in> {8, - 4, 2052}" for off
    using that by (auto simp: uefi_write_to_partition_def sample_found partition_offset_def write_size_def sample_partition_def sample_lengths)
  from this [of 8] this [of "- 4"] this [of 2052] obtain d1 d2 d3 where
    r1: "uefi_write_to_partition ram_device (ascii ''misc'') 8 [1, 2, 3, 4] sample_disk = Returned (AVB_IO_RESULT_OK, d1)" and
    r2: "uefi_write_to_partition ram_device (ascii ''misc'') (- 4) [1, 2, 3, 4] sample_disk = Returned (AVB_IO_RESULT_OK, d2)" and
    r3: "uefi_write_to_partition ram_device (ascii ''misc'') 2052 [1, 2, 3, 4] sample_disk = Returned (AVB_IO_RESULT_OK, d3)"
    by auto
  show ?thesis
    using partition_write_located [OF ram.efi_disk_axioms r1] partition_write_located [OF ram.efi_disk_axioms r2]
      partition_write_located [OF ram.efi_disk_axioms r3] r1 r2 r3 sample_lookup sample_entry_ok
    by (simp add: sample_places place_def)
qed

text \<open>
  C6: the UEFI platform keeps the metadata: on a disk with a \<open>misc\<close> partition, what
  \<open>avb_ab_data_write\<close> stores is what \<open>avb_ab_data_read\<close> finds, and verification and the rollback
  operations leave it alone.  So the A/B flow on UEFI refines the abstract boots.  A call that faults on
  the machine marks the world as crashed, and none after it changes the disk.
\<close>
theorem uefi_is_metadata_store:
  assumes "efi_disk dev contents"
  shows "metadata_store (uefi_ab_ops (uefi_avb_ops dev address stack stack_size) local_data)
     (\<lambda>w. disk_mounted (dev_block_size dev) (contents (fst w))) (\<lambda>w. disk_stored (dev_block_size dev) (contents (fst w)))"
  using assms by (rule efi_disk.is_metadata_store)

theorem uefi_is_metadata_store_witness:
  "metadata_store (uefi_ab_ops (uefi_avb_ops ram_device (\<lambda>d. 4096) (\<lambda>d. stack0) (\<lambda>d. 0))
       (\<lambda>d. (avb_ab_data_init, avb_ab_data_init))) (\<lambda>w. disk_mounted 512 (fst w)) (\<lambda>w. disk_stored 512 (fst w)) \<and>
   disk_mounted 512 sample_disk"
  using uefi_is_metadata_store [OF ram.efi_disk_axioms] sample_lookup sample_entry_ok
  by (simp add: disk_mounted_def [abs_def])

end
