(* ===== verification/AvbAb.thy ===== *)
theory AvbAb
  imports UefiDisk
begin

text \<open>
  The properties of the A/B flow, over any storage that keeps the laws of \<open>metadata_store\<close>; with a
  sample storage for the witnesses.
\<close>

subsection \<open>A sample storage\<close>

text \<open>
  Every partition of the platform holds an unsigned image that disables verification, which boots
  when verification errors are allowed.  The world is the list of the slots.
\<close>

definition unsigned_header :: bytes where
  "unsigned_header = [65, 86, 66, 48, 0, 0, 0, 1] @ replicate 115 0 @ [2] @ replicate 132 0"

definition unsigned_vbmeta :: AvbVBMetaImageHeader where
  "unsigned_vbmeta = \<lparr>vb_magic = AVB_MAGIC, required_libavb_version_major = 1, required_libavb_version_minor = 0,
     authentication_data_block_size = 0, auxiliary_data_block_size = 0, algorithm_type = 0,
     hash_offset = 0, hash_size = 0, signature_offset = 0, signature_size = 0, public_key_offset = 0,
     public_key_size = 0, public_key_metadata_offset = 0, public_key_metadata_size = 0,
     descriptors_offset = 0, descriptors_size = 0, rollback_index = 0, vb_flags = 2,
     release_string = replicate 48 0\<rparr>"

definition tolerant_ops :: "'w AvbOps" where
  "tolerant_ops = \<lparr>ops_malloc = \<lambda>n w. (True, w), ops_address = \<lambda>w. 4096, ops_stack = \<lambda>w. stack0,
     ops_stack_size = \<lambda>w. 0,
     read_from_partition = \<lambda>name off n w. ((AVB_IO_RESULT_OK, unsigned_header), w),
     get_preloaded_partition = None,
     write_to_partition = \<lambda>name off data w. (AVB_IO_RESULT_OK, w),
     validate_vbmeta_public_key = \<lambda>key metadata w. ((AVB_IO_RESULT_OK, True), w),
     read_rollback_index = \<lambda>loc w. ((AVB_IO_RESULT_OK, 0), w),
     write_rollback_index = \<lambda>loc v w. (AVB_IO_RESULT_OK, w),
     read_is_device_unlocked = \<lambda>w. ((AVB_IO_RESULT_OK, True), w),
     get_unique_guid_for_partition = \<lambda>name w. ((AVB_IO_RESULT_OK, replicate 36 0x30), w),
     get_size_of_partition = Some (\<lambda>name w. ((AVB_IO_RESULT_OK, 4), w)),
     read_persistent_value = None\<rparr>"

definition slots_store :: "AvbABSlotData list AvbABOps" where
  "slots_store = \<lparr>ab_base = tolerant_ops,
     read_ab_metadata = \<lambda>w. ((AVB_IO_RESULT_OK, Some (avb_ab_data_init\<lparr>slots := w\<rparr>)), w),
     write_ab_metadata = \<lambda>d w. (AVB_IO_RESULT_OK, slots d),
     ab_stack = \<lambda>w. (avb_ab_data_init, avb_ab_data_init)\<rparr>"

lemma unsigned_parts:
  "length unsigned_header = 256" "take 4 unsigned_header = AVB_MAGIC" "slice 0 256 unsigned_header = Some unsigned_header"
  "take 48 (drop 128 unsigned_header) = replicate 48 0"
  by (simp_all add: unsigned_header_def AVB_MAGIC_def ascii_def slice_def)

lemma unsigned_fields:
  "be32_at unsigned_header 4 = 1" "be32_at unsigned_header 8 = 0" "be64_at unsigned_header 12 = 0"
  "be64_at unsigned_header 20 = 0" "be32_at unsigned_header 28 = 0" "be64_at unsigned_header 32 = 0"
  "be64_at unsigned_header 40 = 0" "be64_at unsigned_header 48 = 0" "be64_at unsigned_header 56 = 0"
  "be64_at unsigned_header 64 = 0" "be64_at unsigned_header 72 = 0" "be64_at unsigned_header 80 = 0"
  "be64_at unsigned_header 88 = 0" "be64_at unsigned_header 96 = 0" "be64_at unsigned_header 104 = 0"
  "be64_at unsigned_header 112 = 0" "be32_at unsigned_header 120 = 2"
  by (rule be64_at_eqI be32_at_eqI; simp add: unsigned_header_def be_nat_zeros)+

lemma unsigned_decoded: "avb_vbmeta_image_header_to_host_byte_order unsigned_header = Returned unsigned_vbmeta"
  by (simp add: avb_vbmeta_image_header_to_host_byte_order_def unsigned_parts unsigned_fields unsigned_vbmeta_def)

lemma unsigned_verifies:
  "avb_vbmeta_image_verify A st 4096 unsigned_header w = Returned (AVB_VBMETA_VERIFY_RESULT_OK_NOT_SIGNED, None, w)"
proof -
  have "vbmeta_check_header 4096 256 unsigned_vbmeta = Some AVB_VBMETA_VERIFY_RESULT_OK_NOT_SIGNED"
    by (simp add: vbmeta_check_header_def unsigned_vbmeta_def avb_safe_add_def avb_safe_add_to_def)
  moreover have "avb_safe_memcmp unsigned_header AVB_MAGIC 4 = Some 0"
    by (subst avb_safe_memcmp_eq) (simp_all add: unsigned_parts AVB_MAGIC_def ascii_def)
  ultimately show ?thesis by (simp add: avb_vbmeta_image_verify_def unsigned_parts unsigned_decoded)
qed

lemma tolerant_simps [simp]:
  "ops_malloc tolerant_ops = (\<lambda>n w. (True, w))" "ops_address tolerant_ops w = 4096" "ops_stack tolerant_ops w = stack0"
  "read_from_partition tolerant_ops nm off n w = ((AVB_IO_RESULT_OK, unsigned_header), w)"
  "read_rollback_index tolerant_ops loc w = ((AVB_IO_RESULT_OK, 0), w)"
  "write_rollback_index tolerant_ops loc v w = (AVB_IO_RESULT_OK, w)"
  "get_unique_guid_for_partition tolerant_ops name w = ((AVB_IO_RESULT_OK, replicate 36 0x30), w)"
  "get_size_of_partition tolerant_ops = Some (\<lambda>name w. ((AVB_IO_RESULT_OK, 4), w))"
  by (simp_all add: tolerant_ops_def)

definition unsigned_slot :: AvbSlotVerifyData where
  "unsigned_slot = empty_slot_data\<lparr>vbmeta_images := [\<lparr>vm_partition_name = Some (ascii ''vbmeta''),
     vbmeta_data = unsigned_header, vm_size = 256, verify_result = AVB_VBMETA_VERIFY_RESULT_OK_NOT_SIGNED\<rparr>]\<rparr>"

lemma unsigned_load:
  assumes "part_name_concat (ascii ''vbmeta'') suf = Some nm"
  shows "load_and_verify_vbmeta 3 tolerant_ops [] suf True 0 0 (ascii ''vbmeta'' @ [0]) 6 None 0
     \<lparr>vs_slot = empty_slot_data, vs_alg = Some 0, vs_subst = Some []\<rparr> w =
   Returned ((AVB_SLOT_VERIFY_RESULT_ERROR_VERIFICATION,
     \<lparr>vs_slot = unsigned_slot, vs_alg = Some 0, vs_subst = Some []\<rparr>), w)"
proof -
  have names: "avb_strcmp_eq (ascii ''vbmeta'' @ [0]) (ascii ''vbmeta'') = Some True"
    "slice 0 6 (ascii ''vbmeta'' @ [0]) = Some (ascii ''vbmeta'')" "avb_validate_utf8 (ascii ''vbmeta'')"
    "c_read (ascii ''vbmeta'' @ [0]) = Some (ascii ''vbmeta'')"
    by code_simp+
  have "verify_loaded_vbmeta rec tolerant_ops [] suf True 0 0 (ascii ''vbmeta'' @ [0]) None 0 unsigned_header
     \<lparr>vs_slot = empty_slot_data, vs_alg = Some 0, vs_subst = Some []\<rparr> w =
   Returned ((AVB_SLOT_VERIFY_RESULT_ERROR_VERIFICATION,
     \<lparr>vs_slot = unsigned_slot, vs_alg = Some 0, vs_subst = Some []\<rparr>), w)" for rec
    by (simp add: verify_loaded_vbmeta_def unsigned_verifies vbmeta_verdict_def unsigned_decoded check_public_key_def
        check_rollback_index_def io_failure_def keep_vbmeta_image_def names avb_strdup_def avb_malloc_def
        MAX_NUMBER_OF_VBMETA_IMAGES_def load_requested_partitions_def empty_slot_data_def unsigned_vbmeta_def unsigned_slot_def)
  then show ?thesis
    by (simp add: numeral_3_eq_3 load_and_verify_vbmeta_body_def names assms locate_vbmeta_def avb_malloc_def
        VBMETA_MAX_SIZE_def unsigned_parts)
qed

lemma replace_total: "\<exists>c. avb_replace (\<lambda>n w. (True, w)) str search r w = (Some c, w)"
proof -
  have "\<exists>s ret'. replace_loop (\<lambda>n w. (True, w)) search r str ret w = Inr (s, ret', w)" for ret
  proof (induction "\<lambda>(n::nat) (w :: 'a). (True, w)" search r str ret w rule: replace_loop.induct)
    case (1 search r str ret w)
    then show ?case by (subst replace_loop.simps) (auto simp: avb_malloc_def split: option.split)
  qed
  then obtain s ret' where "replace_loop (\<lambda>n w. (True, w)) search r str None w = Inr (s, ret', w)" by blast
  then show ?thesis by (auto simp: avb_replace_def avb_strdup_def avb_malloc_def split: option.split)
qed

lemma sub_guids_total:
  "list_all (\<lambda>(p, t). part_name_concat p suf \<noteq> None) ps \<Longrightarrow> \<exists>c. sub_guids tolerant_ops suf ps ret w = (Some c, w)"
proof (induction ps arbitrary: ret)
  case (Cons p ps)
  obtain c where c: "avb_replace (\<lambda>n w. (True, w)) ret (snd p) (replicate 36 0x30) w = (Some c, w)"
    by (rule exE [OF replace_total])
  show ?case
  proof (cases p)
    case (Pair part token)
    with Cons.prems obtain nm where "part_name_concat part suf = Some nm" by auto
    moreover from Cons.IH [of c] Cons.prems obtain c' where "sub_guids tolerant_ops suf ps c w = (Some c', w)" by auto
    ultimately show ?thesis using c Pair by (simp add: split_def)
  qed
qed simp

lemma slot_names:
  "n < 2 \<Longrightarrow> list_all (\<lambda>(p, t). part_name_concat p (slot_suffixes ! n) \<noteq> None) (zip (part_name_str False) replace_str)"
  "n < 2 \<Longrightarrow> part_name_concat (ascii ''vbmeta'') (slot_suffixes ! n) \<noteq> None"
proof -
  have "\<forall>n \<in> {0, 1}. list_all (\<lambda>(p, t). part_name_concat p (slot_suffixes ! n) \<noteq> None) (zip (part_name_str False) replace_str)"
    "\<forall>n \<in> {0, 1}. part_name_concat (ascii ''vbmeta'') (slot_suffixes ! n) \<noteq> None"
    by code_simp+
  then show "n < 2 \<Longrightarrow> list_all (\<lambda>(p, t). part_name_concat p (slot_suffixes ! n) \<noteq> None) (zip (part_name_str False) replace_str)"
    "n < 2 \<Longrightarrow> part_name_concat (ascii ''vbmeta'') (slot_suffixes ! n) \<noteq> None"
    by (auto simp: less_2_cases_iff)
qed

lemma unsigned_slot_verify:
  assumes "n < 2"
  shows "\<exists>c. avb_slot_verify tolerant_ops [] (slot_suffixes ! n) 1 AVB_HASHTREE_ERROR_MODE_EIO True w =
     Returned ((AVB_SLOT_VERIFY_RESULT_ERROR_VERIFICATION,
       Some (unsigned_slot\<lparr>sd_ab_suffix := Some (slot_suffixes ! n), sd_cmdline := Some c\<rparr>)), w)"
proof -
  let ?root = "ascii ''root=PARTUUID=$(ANDROID_SYSTEM_PARTUUID)''"
  obtain c where c: "sub_guids tolerant_ops (slot_suffixes ! n) (zip (part_name_str False) replace_str) ?root w = (Some c, w)"
    by (rule exE [OF sub_guids_total [OF slot_names(1) [OF assms]]])
  have al: "allocations (\<lambda>n w. (True, w)) ns w = (True, w)" for ns and w :: 'a
    by (induction ns) (simp_all add: avb_calloc_def avb_malloc_def)
  have ne: "ascii ''vbmeta'' \<noteq> ascii ''boot''" by (simp add: ascii_def)
  from slot_names(2) [OF assms] obtain nm where "part_name_concat (ascii ''vbmeta'') (slot_suffixes ! n) = Some nm" by blast
  note load = unsigned_load [OF this]
  have "mangle_cmdline tolerant_ops (slot_suffixes ! n) AVB_HASHTREE_ERROR_MODE_EIO 0 (Some []) unsigned_slot w =
    Returned (Inr (unsigned_slot\<lparr>sd_ab_suffix := Some (slot_suffixes ! n), sd_cmdline := Some c\<rparr>), w)"
    using ne c by (simp add: mangle_cmdline_def unsigned_decoded avb_strdup_def avb_malloc_def avb_sub_cmdline_def
        unsigned_vbmeta_def empty_slot_data_def unsigned_slot_def)
  then have "avb_slot_verify tolerant_ops [] (slot_suffixes ! n) 1 AVB_HASHTREE_ERROR_MODE_EIO True w =
     Returned ((AVB_SLOT_VERIFY_RESULT_ERROR_VERIFICATION,
       Some (unsigned_slot\<lparr>sd_ab_suffix := Some (slot_suffixes ! n), sd_cmdline := Some c\<rparr>)), w)"
    by (simp add: avb_slot_verify_def al load result_should_continue_def del: load_and_verify_vbmeta.simps)
  then show ?thesis by (rule exI)
qed

interpretation tolerant: read_only tolerant_ops "\<lambda>w. w = c" for c
  by unfold_locales (auto simp: tolerant_ops_def)

interpretation slots_store: metadata_store slots_store "\<lambda>w. length w = 2" "\<lambda>w. w"
  by unfold_locales (auto simp: slots_store_def avb_ab_data_init_def ab_data_wf_def ab_data_sized_def AVB_AB_MAGIC_def
      dest: tolerant.verify_keeps)

lemma slots_store_simps [simp]:
  "ab_base slots_store = tolerant_ops"
  "write_ab_metadata (slots_store\<lparr>ab_base := ops\<rparr>) d w = (AVB_IO_RESULT_OK, slots d)"
  "write_ab_metadata slots_store d w = (AVB_IO_RESULT_OK, slots d)"
  "load_metadata slots_store [a, b] = ((AVB_IO_RESULT_OK, avb_ab_data_init\<lparr>slots := [slot_normalize a, slot_normalize b]\<rparr>,
     avb_ab_data_init\<lparr>slots := [a, b]\<rparr>), [a, b])"
  "load_metadata (slots_store\<lparr>ab_base := ops\<rparr>) [a, b] = ((AVB_IO_RESULT_OK, avb_ab_data_init\<lparr>slots := [slot_normalize a, slot_normalize b]\<rparr>,
     avb_ab_data_init\<lparr>slots := [a, b]\<rparr>), [a, b])"
  by (simp_all add: slots_store_def load_metadata_def)

lemma no_rollback:
  "(\<And>n. n \<in> set ns \<Longrightarrow> new_rollback_index sd n = 0) \<Longrightarrow> update_rollback_indexes ops sd ns w = (None, w)"
  by (induction ns) auto

text \<open>
  A platform on which both slots verify up to an allowed error; \<open>P n d\<close> is what is known of the data
  of slot \<open>n\<close>.
\<close>

definition verifies_both ::
  "'w AvbOps \<Rightarrow> bytes list \<Rightarrow> AvbHashtreeErrorMode \<Rightarrow> (nat \<Rightarrow> AvbSlotVerifyData \<Rightarrow> bool) \<Rightarrow> bool" where
  "verifies_both ops req mode P \<longleftrightarrow> (\<forall>n w. n < 2 \<longrightarrow> (\<exists>d. avb_slot_verify ops req (slot_suffixes ! n) 1 mode True w =
     Returned ((AVB_SLOT_VERIFY_RESULT_ERROR_VERIFICATION, Some d), w) \<and> P n d \<and> rollback_indexes d = replicate 32 0))"

abbreviation data_of :: "(nat \<Rightarrow> AvbSlotVerifyData \<Rightarrow> bool) \<Rightarrow> nat \<Rightarrow> AvbSlotVerifyData option \<Rightarrow> bool" where
  "data_of P n sd \<equiv> \<exists>d. sd = Some d \<and> P n d \<and> rollback_indexes d = replicate 32 0"

lemma unsigned_no_rollback:
  assumes "a = None \<or> data_of P 0 a" "b = None \<or> data_of P 1 b"
  shows "update_rollback_indexes ops [a, b] [0..<32] w = (None, w)"
  using assms by (intro no_rollback) (auto simp: new_rollback_index_def split: option.splits)

lemma verify_slot_bootable:
  assumes "slot_is_bootable (slots (fs_data st) ! n)" "n < 2" "verifies_both (ab_base ab_ops) req mode P"
  shows "\<exists>sd. verify_slot ab_ops req 1 mode n st w =
     Returned ((None, st\<lparr>fs_slot_data := (fs_slot_data st)[n := sd], fs_allowed := True\<rparr>), w) \<and> data_of P n sd"
proof -
  from assms(2,3) obtain d where "avb_slot_verify (ab_base ab_ops) req (slot_suffixes ! n) 1 mode True w =
     Returned ((AVB_SLOT_VERIFY_RESULT_ERROR_VERIFICATION, Some d), w)" "P n d" "rollback_indexes d = replicate 32 0"
    unfolding verifies_both_def by blast
  with assms(1) show ?thesis by (auto simp: verify_slot_def)
qed

lemma sample_flow:
  assumes "select_slot (avb_ab_data_init\<lparr>slots := [slot_normalize a, slot_normalize b]\<rparr>) = Some n"
    and both: "verifies_both ops req mode P"
  shows "\<exists>data. avb_ab_flow (slots_store\<lparr>ab_base := ops\<rparr>) req 1 mode True [a, b] =
     Returned ((AVB_AB_FLOW_RESULT_OK_WITH_VERIFICATION_ERROR, Some data),
       [slot_normalize a, slot_normalize b][n := decrement_tries ([slot_normalize a, slot_normalize b] ! n)]) \<and> P n data"
proof -
  let ?store = "slots_store\<lparr>ab_base := ops\<rparr>" and ?s = "[slot_normalize a, slot_normalize b]"
  let ?d = "avb_ab_data_init\<lparr>slots := ?s\<rparr>"
  let ?st0 = "\<lparr>fs_data = ?d, fs_slot_data = [None, None], fs_allowed = False\<rparr>"
  have both': "verifies_both (ab_base ?store) req mode P" using both by simp
  have n: "n < 2" "slot_is_bootable (?s ! n)" using assms(1) by (auto simp: select_slot_def split: if_splits)
  have "\<exists>sa sb al. verify_slots ?store req 1 mode [0, 1] ?st0 [a, b] =
      Returned ((None, \<lparr>fs_data = ?d, fs_slot_data = [sa, sb], fs_allowed = al\<rparr>), [a, b]) \<and>
      (if slot_is_bootable (?s ! 0) then data_of P 0 sa else sa = None) \<and>
      (if slot_is_bootable (?s ! 1) then data_of P 1 sb else sb = None) \<and>
      (al \<longleftrightarrow> slot_is_bootable (?s ! 0) \<or> slot_is_bootable (?s ! 1))"
  proof -
    have skip: "verify_slot ?store req 1 mode n st w = Returned ((None, st), w)"
      if "\<not> slot_is_bootable (slots (fs_data st) ! n)" for n st w using that by (simp add: verify_slot_def)
    have "\<exists>sa. verify_slot ?store req 1 mode 0 ?st0 [a, b] =
        Returned ((None, \<lparr>fs_data = ?d, fs_slot_data = [sa, None], fs_allowed = slot_is_bootable (?s ! 0)\<rparr>), [a, b]) \<and>
        (if slot_is_bootable (?s ! 0) then data_of P 0 sa else sa = None)"
      using verify_slot_bootable [of ?st0 0 ?store req mode P "[a, b]"] both' skip [of ?st0 0 "[a, b]"]
      by (cases "slot_is_bootable (?s ! 0)") auto
    then obtain sa where sa: "verify_slot ?store req 1 mode 0 ?st0 [a, b] =
        Returned ((None, \<lparr>fs_data = ?d, fs_slot_data = [sa, None], fs_allowed = slot_is_bootable (?s ! 0)\<rparr>), [a, b])"
      "if slot_is_bootable (?s ! 0) then data_of P 0 sa else sa = None" by blast
    let ?st1 = "\<lparr>fs_data = ?d, fs_slot_data = [sa, None], fs_allowed = slot_is_bootable (?s ! 0)\<rparr>"
    have "\<exists>sb al. verify_slot ?store req 1 mode 1 ?st1 [a, b] =
        Returned ((None, \<lparr>fs_data = ?d, fs_slot_data = [sa, sb], fs_allowed = al\<rparr>), [a, b]) \<and>
        (if slot_is_bootable (?s ! 1) then data_of P 1 sb else sb = None) \<and>
        (al \<longleftrightarrow> slot_is_bootable (?s ! 0) \<or> slot_is_bootable (?s ! 1))"
      using verify_slot_bootable [of ?st1 1 ?store req mode P "[a, b]"] both' skip [of ?st1 1 "[a, b]"]
      by (cases "slot_is_bootable (?s ! 1)") auto
    then obtain sb al where sb: "verify_slot ?store req 1 mode 1 ?st1 [a, b] =
        Returned ((None, \<lparr>fs_data = ?d, fs_slot_data = [sa, sb], fs_allowed = al\<rparr>), [a, b])"
      "if slot_is_bootable (?s ! 1) then data_of P 1 sb else sb = None"
      "al \<longleftrightarrow> slot_is_bootable (?s ! 0) \<or> slot_is_bootable (?s ! 1)" by blast
    have "verify_slots ?store req 1 mode [0, 1] ?st0 [a, b] =
        Returned ((None, \<lparr>fs_data = ?d, fs_slot_data = [sa, sb], fs_allowed = al\<rparr>), [a, b])"
      using sa(1) sb(1) by simp
    with sa(2) sb(2,3) show ?thesis by blast
  qed
  then obtain sa sb al where v: "verify_slots ?store req 1 mode [0, 1] ?st0 [a, b] =
      Returned ((None, \<lparr>fs_data = ?d, fs_slot_data = [sa, sb], fs_allowed = al\<rparr>), [a, b])"
    and sa: "if slot_is_bootable (?s ! 0) then data_of P 0 sa else sa = None"
    and sb: "if slot_is_bootable (?s ! 1) then data_of P 1 sb else sb = None"
    and al: "al \<longleftrightarrow> slot_is_bootable (?s ! 0) \<or> slot_is_bootable (?s ! 1)" by blast
  from n have allowed: al unfolding al by (auto simp: less_2_cases_iff)
  have "data_of P n ([sa, sb] ! n)" using n sa sb by (auto simp: less_2_cases_iff)
  then obtain data where data: "[sa, sb] ! n = Some data" "P n data" by blast
  have up: "update_rollback_indexes ops [sa, sb] [0..<32] [a, b] = (None, [a, b])"
    by (rule unsigned_no_rollback [where P = P]) (use sa sb in \<open>auto split: if_splits\<close>)
  let ?d' = "set_slot n (decrement_tries (?s ! n)) ?d"
  have "choose_slot ops 1 \<lparr>fs_data = ?d, fs_slot_data = [sa, sb], fs_allowed = al\<rparr> [a, b] =
      Returned ((AVB_AB_FLOW_RESULT_OK_WITH_VERIFICATION_ERROR, ?d', Some data), [a, b])"
    using data(1) allowed by (simp add: choose_slot_def assms(1) up)
  then have body: "flow_body ?store req 1 mode ?d [a, b] =
      Returned ((AVB_AB_FLOW_RESULT_OK_WITH_VERIFICATION_ERROR, ?d', Some data), [a, b])"
    by (simp add: flow_body_def v [unfolded One_nat_def] del: verify_slots.simps)
  have wf: "ab_data_sized ?d'" "ab_data_sized (avb_ab_data_init\<lparr>slots := [a, b]\<rparr>)"
    by (simp_all add: ab_data_sized_def set_slot_def avb_ab_data_init_def AVB_AB_MAGIC_def del: list_update.simps)
  have "save_metadata_if_changed ?store ?d' (avb_ab_data_init\<lparr>slots := [a, b]\<rparr>) [a, b] = (AVB_IO_RESULT_OK, slots ?d')"
  proof (cases "avb_safe_memcmp (ab_data_mem ?d') (ab_data_mem (avb_ab_data_init\<lparr>slots := [a, b]\<rparr>)) 32 = Some 0")
    case True
    from avb_safe_memcmp_zero(3) [OF this] have "?d' = avb_ab_data_init\<lparr>slots := [a, b]\<rparr>"
      using length_ab_data_mem [OF wf(1)] length_ab_data_mem [OF wf(2)] ab_data_mem_eq [OF wf] by simp
    with True show ?thesis by (simp add: save_metadata_if_changed_def)
  next
    case False
    then show ?thesis by (simp add: save_metadata_if_changed_def)
  qed
  then have "avb_ab_flow ?store req 1 mode True [a, b] =
      Returned ((AVB_AB_FLOW_RESULT_OK_WITH_VERIFICATION_ERROR, Some data), slots ?d')"
    by (simp add: avb_ab_flow_def body)
  moreover have "slots ?d' = ?s[n := decrement_tries (?s ! n)]" by (simp add: set_slot_def)
  ultimately show ?thesis using data(2) by simp
qed

lemma tolerant_verifies: "verifies_both tolerant_ops [] AVB_HASHTREE_ERROR_MODE_EIO (\<lambda>n d. sd_ab_suffix d = Some (slot_suffixes ! n))"
  unfolding verifies_both_def
proof (intro allI impI)
  fix n and w :: 'a
  assume "n < (2 :: nat)"
  from unsigned_slot_verify [OF this, of w] show "\<exists>d. avb_slot_verify tolerant_ops [] (slot_suffixes ! n) 1 AVB_HASHTREE_ERROR_MODE_EIO True w =
     Returned ((AVB_SLOT_VERIFY_RESULT_ERROR_VERIFICATION, Some d), w) \<and> sd_ab_suffix d = Some (slot_suffixes ! n) \<and>
     rollback_indexes d = replicate 32 0"
    by (auto simp: unsigned_slot_def empty_slot_data_def)
qed

lemma slots_store_base: "slots_store\<lparr>ab_base := tolerant_ops\<rparr> = slots_store"
  by (simp add: slots_store_def)

lemmas store_flow = sample_flow [OF _ tolerant_verifies, unfolded slots_store_base]

definition slot_of :: "u8 \<Rightarrow> u8 \<Rightarrow> u8 \<Rightarrow> AvbABSlotData" where
  "slot_of p t s = \<lparr>priority = p, tries_remaining = t, successful_boot = s, slot_reserved = 0\<rparr>"

text \<open>Two boots: the first uses the last try of slot \<open>a\<close>, the second falls back to slot \<open>b\<close>.\<close>

lemma two_boots:
  "flow_runs slots_store [slot_of 15 1 0, slot_of 14 0 1] (map (\<lambda>n. slot_suffixes ! n) [0, 1]) [slot_of 0 0 0, slot_of 14 0 1]"
proof -
  have s: "select_slot (avb_ab_data_init\<lparr>slots := [slot_normalize (slot_of 15 1 0), slot_normalize (slot_of 14 0 1)]\<rparr>) = Some 0"
    "select_slot (avb_ab_data_init\<lparr>slots := [slot_normalize (slot_of 15 0 0), slot_normalize (slot_of 14 0 1)]\<rparr>) = Some 1"
    by code_simp+
  have w: "[slot_normalize (slot_of 15 1 0), slot_normalize (slot_of 14 0 1)][0 := decrement_tries
      ([slot_normalize (slot_of 15 1 0), slot_normalize (slot_of 14 0 1)] ! 0)] = [slot_of 15 0 0, slot_of 14 0 1]"
    "[slot_normalize (slot_of 15 0 0), slot_normalize (slot_of 14 0 1)][1 := decrement_tries
      ([slot_normalize (slot_of 15 0 0), slot_normalize (slot_of 14 0 1)] ! 1)] = [slot_of 0 0 0, slot_of 14 0 1]"
    by code_simp+
  from store_flow [OF s(1), unfolded w(1)] store_flow [OF s(2), unfolded w(2)] show ?thesis
    by (auto intro!: next_flow no_flow)
qed

subsection \<open>Properties\<close>

text \<open>
  C37: what is written to the disk is accepted by the check of the reading side and gives back the
  metadata (with its checksum filled in), and metadata that the check accepts is written back as the
  octets it was read from.
\<close>
theorem ab_metadata_round_trip:
  assumes "ab_data_wf d" and "length m = 32"
    and "avb_ab_data_verify_and_byteswap (ab_data_of_mem m) dest = (True, d')"
  shows "avb_ab_data_verify_and_byteswap (ab_data_of_mem (ab_data_mem (avb_ab_data_update_crc_and_byteswap d))) dest =
      (True, sealed d) \<and>
    ab_data_mem (avb_ab_data_update_crc_and_byteswap d') = m"
  using update_then_verify [OF assms(1)] verify_inverts_update(1) [OF assms(3,2)] by simp_all

theorem ab_metadata_round_trip_witness:
  "ab_data_mem (avb_ab_data_update_crc_and_byteswap (sealed avb_ab_data_init)) =
     ab_data_mem (avb_ab_data_update_crc_and_byteswap avb_ab_data_init)"
proof -
  let ?m = "ab_data_mem (avb_ab_data_update_crc_and_byteswap avb_ab_data_init)"
  have wf: "ab_data_wf avb_ab_data_init" by (simp add: ab_data_wf_def ab_data_sized_def avb_ab_data_init_def AVB_AB_MAGIC_def)
  then have "ab_data_sized (avb_ab_data_update_crc_and_byteswap avb_ab_data_init)"
    by (simp only: update_sized wf_sized)
  from ab_metadata_round_trip [OF wf length_ab_data_mem [OF this] update_then_verify [OF wf]] show ?thesis by simp
qed

text \<open>
  C16: normalizing a slot makes it legal (a slot of priority 0 is zero throughout, one that has booted
  has no tries left) without changing its state, does nothing to a legal slot, and of a legal slot
  \<open>slot_is_bootable\<close> says exactly that its state is not \<open>Unbootable\<close>.
\<close>
theorem slot_normalize_canonical:
  "slot_legal (slot_normalize s) \<and> slot_status (slot_normalize s) = slot_status s \<and>
   slot_normalize (slot_normalize s) = slot_normalize s \<and>
   slot_is_bootable (slot_normalize s) = (slot_status s \<noteq> Unbootable)"
  using legal_bootable [of "slot_normalize s"] by (simp add: slot_normalize_idem)

text \<open>
  C3: a call of \<open>avb_ab_flow\<close> that hands out a slot is one step of the abstract boot: the slots that
  fail verification become unbootable, the slot with the highest priority among the others is the
  one handed out, a try of it is used up, and the slots stored afterwards are legal.
\<close>
theorem flow_refines_boot_step:
  assumes "metadata_store ab_ops mounted stored" and "mounted w"
    and "avb_ab_flow ab_ops req flags mode True w = Returned ((r, Some data), w')"
  shows "\<exists>V n. boot_step V (map slot_status (stored w)) n (map slot_status (stored w')) \<and>
      sd_ab_suffix data = Some (slot_suffixes ! n) \<and> mounted w' \<and> list_all slot_legal (stored w')"
  using metadata_store.flow_refines [OF assms] by blast

theorem flow_refines_boot_step_witness:
  "\<exists>V n. boot_step V (map slot_status [slot_of 15 1 0, slot_of 14 0 1]) n
     (map slot_status [slot_of 15 0 0, slot_of 14 0 1])"
proof -
  have s: "select_slot (avb_ab_data_init\<lparr>slots := [slot_normalize (slot_of 15 1 0), slot_normalize (slot_of 14 0 1)]\<rparr>) = Some 0"
    and w: "[slot_normalize (slot_of 15 1 0), slot_normalize (slot_of 14 0 1)][0 := decrement_tries
      ([slot_normalize (slot_of 15 1 0), slot_normalize (slot_of 14 0 1)] ! 0)] = [slot_of 15 0 0, slot_of 14 0 1]"
    by code_simp+
  from store_flow [OF s, unfolded w] obtain r data where
    "avb_ab_flow slots_store [] 1 AVB_HASHTREE_ERROR_MODE_EIO True [slot_of 15 1 0, slot_of 14 0 1] =
       Returned ((r, Some data), [slot_of 15 0 0, slot_of 14 0 1])" by blast
  from flow_refines_boot_step [OF slots_store.metadata_store_axioms _ this] show ?thesis by auto
qed

text \<open>
  C4: a system that keeps booting gets to a slot that is known to work: in a sequence of boots
  longer than the tries that are left, one is of a slot that had been marked successful before.
\<close>
theorem boots_reach_good_slot:
  assumes "metadata_store ab_ops mounted stored" and "mounted w" and "flow_runs ab_ops w sufs w'"
    and "tries_left (map slot_status (stored w)) < length sufs"
  shows "\<exists>n < length (stored w). slot_suffixes ! n \<in> set sufs \<and> (\<exists>p. slot_status (stored w ! n) = Good p)"
proof -
  let ?S = "map slot_status (stored w)"
  from metadata_store.flow_runs_refine [OF assms(1,3,2)] obtain ns S' where
    ns: "sufs = map (\<lambda>n. slot_suffixes ! n) ns" "boot_runs ?S ns S'" by blast
  have "list_all status_ok ?S" by (simp add: list_all_iff slot_status_ok)
  from boot_runs_known_good [OF ns(2) this] assms(4) ns(1) show ?thesis by fastforce
qed

theorem boots_reach_good_slot_witness:
  "\<exists>n < length [slot_of 15 1 0, slot_of 14 0 1]. slot_suffixes ! n \<in> set (map (\<lambda>n. slot_suffixes ! n) [0, 1]) \<and>
     (\<exists>p. slot_status ([slot_of 15 1 0, slot_of 14 0 1] ! n) = Good p)"
proof -
  have "tries_left (map slot_status [slot_of 15 1 0, slot_of 14 0 1]) < length (map (\<lambda>n. slot_suffixes ! n) [0, 1])"
    by (simp add: tries_left_def slot_status_def slot_of_def)
  from boots_reach_good_slot [OF slots_store.metadata_store_axioms _ two_boots this] show ?thesis
    by (simp add: numeral_2_eq_2)
qed

text \<open>
  C17: the marks change the state of one slot as the interface promises.  Marking a slot active gives
  it the highest priority and seven tries and pushes the other one below it; marking it successful
  makes an untried slot a good one; marking it unbootable takes it out of the selection.
\<close>
theorem marks_refine_specs:
  assumes "metadata_store ab_ops mounted stored" and "mounted w" and "n < 2"
  shows "(avb_ab_mark_slot_active ab_ops n w = Returned (AVB_IO_RESULT_OK, w') \<longrightarrow>
      map slot_status (stored w') = active_spec n (map slot_status (stored w)) \<and> list_all slot_legal (stored w')) \<and>
    (avb_ab_mark_slot_successful ab_ops n w = Returned (AVB_IO_RESULT_OK, w') \<longrightarrow>
      map slot_status (stored w') = successful_spec n (map slot_status (stored w)) \<and> list_all slot_legal (stored w')) \<and>
    (avb_ab_mark_slot_unbootable ab_ops n w = Returned (AVB_IO_RESULT_OK, w') \<longrightarrow>
      map slot_status (stored w') = (map slot_status (stored w))[n := Unbootable] \<and> list_all slot_legal (stored w'))"
proof -
  note ok = metadata_store.with_metadata_OK [OF assms(1,2)]
  show ?thesis
    using ok [of "make_active n" w' "active_spec n"] make_active_facts ok [of "make_successful n" w' "successful_spec n"]
      make_successful_facts ok [of "make_unbootable n" w' "\<lambda>S. S[n := Unbootable]"] make_unbootable_facts assms(3)
    by (simp add: avb_ab_mark_slot_active_def avb_ab_mark_slot_successful_def avb_ab_mark_slot_unbootable_def avb_assert_def)
qed

theorem marks_refine_specs_witness:
  "avb_ab_mark_slot_active slots_store 1 [slot_of 15 7 0, slot_of 14 0 1] =
      Returned (AVB_IO_RESULT_OK, [slot_of 14 7 0, slot_of 15 7 0]) \<and>
   map slot_status [slot_of 14 7 0, slot_of 15 7 0] =
      active_spec 1 (map slot_status [slot_of 15 7 0, slot_of 14 0 1])"
proof -
  have c: "avb_ab_mark_slot_active slots_store 1 [slot_of 15 7 0, slot_of 14 0 1] =
      Returned (AVB_IO_RESULT_OK, [slot_of 14 7 0, slot_of 15 7 0])"
    by code_simp
  then show ?thesis
    using marks_refine_specs [OF slots_store.metadata_store_axioms, of "[slot_of 15 7 0, slot_of 14 0 1]" 1
        "[slot_of 14 7 0, slot_of 15 7 0]"] by simp
qed

text \<open>
  C39: when the metadata cannot be read, \<open>avb_ab_flow\<close> still saves: what its uninitialised local
  variables hold is compared and, when they differ, written over the metadata on the disk.
\<close>
theorem flow_saves_uninitialised:
  assumes "read_ab_metadata ab_ops w = ((io, None), w1)" and "io \<noteq> AVB_IO_RESULT_OK"
    and "ab_stack ab_ops w = (d, d')" and "avb_safe_memcmp (ab_data_mem d) (ab_data_mem d') 32 \<noteq> Some 0"
    and "write_ab_metadata ab_ops d w1 = (AVB_IO_RESULT_OK, w2)"
  shows "avb_ab_flow ab_ops req flags mode want w =
    Returned ((if io = AVB_IO_RESULT_ERROR_OOM then AVB_AB_FLOW_RESULT_ERROR_OOM else AVB_AB_FLOW_RESULT_ERROR_IO, None), w2)"
  using assms by (simp add: avb_ab_flow_def load_metadata_def save_metadata_if_changed_def)

theorem flow_saves_uninitialised_witness:
  "avb_ab_flow (slots_store\<lparr>read_ab_metadata := \<lambda>w. ((AVB_IO_RESULT_ERROR_IO, None), w),
       ab_stack := \<lambda>w. (avb_ab_data_init\<lparr>slots := [slot_of 1 2 3, slot_of 4 5 6]\<rparr>, avb_ab_data_init)\<rparr>)
     [] 0 AVB_HASHTREE_ERROR_MODE_EIO True [slot_of 15 7 0, slot_of 14 0 1] =
   Returned ((AVB_AB_FLOW_RESULT_ERROR_IO, None), [slot_of 1 2 3, slot_of 4 5 6])"
proof -
  have "avb_safe_memcmp (ab_data_mem (avb_ab_data_init\<lparr>slots := [slot_of 1 2 3, slot_of 4 5 6]\<rparr>))
      (ab_data_mem avb_ab_data_init) 32 \<noteq> Some 0" by code_simp
  with flow_saves_uninitialised [of "slots_store\<lparr>read_ab_metadata := \<lambda>w. ((AVB_IO_RESULT_ERROR_IO, None), w),
       ab_stack := \<lambda>w. (avb_ab_data_init\<lparr>slots := [slot_of 1 2 3, slot_of 4 5 6]\<rparr>, avb_ab_data_init)\<rparr>"
       "[slot_of 15 7 0, slot_of 14 0 1]" AVB_IO_RESULT_ERROR_IO _ _ _ _ "[] :: bytes list" 0 AVB_HASHTREE_ERROR_MODE_EIO True]
  show ?thesis by simp
qed

text \<open>
  The stored rollback index is written whenever it differs from the index of the verified slots,
  so it is lowered when the slots carry a smaller one (zero apart, which is never written).
\<close>
theorem rollback_index_lowered:
  assumes "read_rollback_index ops n w = ((AVB_IO_RESULT_OK, current), w1)"
    and "0 < new_rollback_index sd n" and "new_rollback_index sd n < current"
    and "write_rollback_index ops n (new_rollback_index sd n) w1 = (AVB_IO_RESULT_OK, w2)"
  shows "update_rollback_indexes ops sd [n] w = (None, w2)"
  using assms by (auto simp: Let_def)

theorem rollback_index_lowered_witness:
  "update_rollback_indexes (tolerant_ops\<lparr>read_rollback_index := \<lambda>loc w. ((AVB_IO_RESULT_OK, w), w),
       write_rollback_index := \<lambda>loc v w. (AVB_IO_RESULT_OK, v)\<rparr>)
     [Some (unsigned_slot\<lparr>rollback_indexes := replicate 32 3\<rparr>), None] [1] 5 = (None, 3)"
  by (rule rollback_index_lowered [where current = 5]) (simp_all add: new_rollback_index_def word_less_nat_alt)

end
