(* ===== verification/UefiBoot.thy ===== *)
theory UefiBoot
  imports UefiPartition AvbAb
begin

text \<open>
  \<open>Application/UefiAvb/uefi_avb_boot.c\<close>: the kernel of the selected slot is laid out in memory and
  started.

  \<open>AllocatePages\<close> is a parameter: for a highest address and a number of pages it gives the address
  of fresh pages and the octets they hold.  \<open>JumpToUefiKernel\<close> is the end of the model: the
  value \<open>handover\<close> is what it is called with and what the memory it refers to holds.
\<close>

subsection \<open>The boot image\<close>

definition BOOT_MAGIC :: bytes where
  "BOOT_MAGIC = ascii ''ANDROID!''"

record boot_img_hdr =
  boot_magic :: bytes
  kernel_size :: u32
  ramdisk_size :: u32
  second_size :: u32
  page_size :: u32

text \<open>The fields that are used, read from the image; the command line has 512 octets at offset 64.\<close>

definition boot_img_hdr_of_mem :: "bytes \<Rightarrow> boot_img_hdr option" where
  "boot_img_hdr_of_mem m = (if length m < 40 then None
     else Some \<lparr>boot_magic = take 8 m, kernel_size = load32 (drop 8 m), ramdisk_size = load32 (drop 16 m),
            second_size = load32 (drop 24 m), page_size = load32 (drop 36 m)\<rparr>)"

definition SETUP_MAGIC :: u32 where
  "SETUP_MAGIC = 0x53726448"

record SetupHeader =
  setup_secs :: u8
  setup_signature :: u16
  setup_header :: u32
  setup_version :: u16
  relocatable_kernel :: u8

definition SetupHeader_of_mem :: "bytes \<Rightarrow> SetupHeader option" where
  "SetupHeader_of_mem m = (if length m < 616 then None
     else Some \<lparr>setup_secs = m ! 497, setup_signature = load16 (drop 510 m), setup_header = load32 (drop 514 m),
            setup_version = load16 (drop 518 m), relocatable_kernel = m ! 564\<rparr>)"

text \<open>\<open>round_up\<close>; a division by zero is \<open>None\<close>.\<close>

definition round_up :: "u64 \<Rightarrow> u64 \<Rightarrow> u64 option" where
  "round_up value0 size0 = (if size0 = 0 then None else Some ((value0 + size0 - 1) div size0 * size0))"

datatype UEFIAvbBootKernelResult =
    UEFI_AVB_BOOT_KERNEL_RESULT_OK
  | UEFI_AVB_BOOT_KERNEL_RESULT_ERROR_OOM
  | UEFI_AVB_BOOT_KERNEL_RESULT_ERROR_IO
  | UEFI_AVB_BOOT_KERNEL_RESULT_ERROR_PARTITION_INVALID_FORMAT
  | UEFI_AVB_BOOT_KERNEL_RESULT_ERROR_KERNEL_INVALID_FORMAT
  | UEFI_AVB_BOOT_KERNEL_RESULT_ERROR_START_KERNEL

type_synonym 'w pages = "u64 \<Rightarrow> u64 \<Rightarrow> 'w \<Rightarrow> (u64 \<times> bytes) option \<times> 'w"

definition EFI_SIZE_TO_PAGES :: "u64 \<Rightarrow> u64" where
  "EFI_SIZE_TO_PAGES size0 = drop_bit 12 size0 + (if size0 AND 0xFFF \<noteq> 0 then 1 else 0)"

text \<open>\<open>avb_memcpy\<close> into fresh memory: a source or a destination that is too short is a fault.\<close>

definition copy_mem :: "bytes \<Rightarrow> nat \<Rightarrow> bytes \<Rightarrow> nat \<Rightarrow> bytes outcome" where
  "copy_mem dest off mem n =
     obind (checked (slice off n mem)) (\<lambda>src. if n > length dest then Faulted else Returned (blit 0 src dest))"

record handover =
  ho_setup :: bytes
  ho_kernel_start :: u64
  ho_kernel :: bytes
  ho_initramfs :: "bytes option"
  ho_cmdline :: bytes

text \<open>
  The two initial RAM disks: the buffer and its address, 0 for none.  The sum of the sizes is taken in
  32 bits; both disks are copied to the start of the buffer.
\<close>

definition load_initramfs ::
  "'w pages \<Rightarrow> boot_img_hdr \<Rightarrow> bytes \<Rightarrow> 'w \<Rightarrow>
   ((UEFIAvbBootKernelResult + u64 \<times> bytes option) \<times> 'w) outcome" where
  "load_initramfs pages h data w =
     (let initramfs_size = (ucast (ramdisk_size h + second_size h) :: u64) in
      if initramfs_size > 0
      then (case pages 0x3fffffff (EFI_SIZE_TO_PAGES initramfs_size) w of
          (None, w1) \<Rightarrow> Returned (Inl UEFI_AVB_BOOT_KERNEL_RESULT_ERROR_OOM, w1)
        | (Some (addr, fresh), w1) \<Rightarrow>
            obind (checked (round_up (ucast (kernel_size h)) (ucast (page_size h)))) (\<lambda>kernel_pages.
            let offset = ucast (page_size h) + kernel_pages in
            obind (copy_mem fresh (unat offset) data (unat (ramdisk_size h))) (\<lambda>initramfs_buf.
            obind (checked (round_up (ucast (ramdisk_size h)) (ucast (page_size h)))) (\<lambda>ramdisk_pages.
            let offset2 = offset + ramdisk_pages in
            obind (copy_mem initramfs_buf (unat offset2) data (unat (second_size h))) (\<lambda>initramfs_buf2.
              Returned (Inr (addr, Some initramfs_buf2), w1))))))
      else Returned (Inr (0, None), w))"

text \<open>
  The command line: those of the image and of libavb and the extra one, with spaces between them.
\<close>

definition boot_cmdline :: "bytes \<Rightarrow> bytes \<Rightarrow> bytes option \<Rightarrow> bytes" where
  "boot_cmdline first second cmdline_extra =
     first @ [32] @ second @ (case cmdline_extra of None \<Rightarrow> [] | Some [] \<Rightarrow> [] | Some e \<Rightarrow> [32] @ e) @ [0]"

definition load_cmdline ::
  "'w pages \<Rightarrow> bytes \<Rightarrow> bytes option \<Rightarrow> bytes option \<Rightarrow> 'w \<Rightarrow>
   ((UEFIAvbBootKernelResult + u64 \<times> bytes) \<times> 'w) outcome" where
  "load_cmdline pages data slot_cmdline cmdline_extra w =
     obind (checked (c_read (drop 64 data))) (\<lambda>first.
     obind (checked slot_cmdline) (\<lambda>second.
       let text0 = boot_cmdline first second cmdline_extra in
       case pages 0xA0000 (EFI_SIZE_TO_PAGES (of_nat (length text0))) w of
         (None, w1) \<Rightarrow> Returned (Inl UEFI_AVB_BOOT_KERNEL_RESULT_ERROR_OOM, w1)
       | (Some (addr, fresh), w1) \<Rightarrow>
           if length text0 > length fresh then Faulted else Returned (Inr (addr, blit 0 text0 fresh), w1)))"

text \<open>The checks of the kernel's setup header; \<open>None\<close> when it is accepted.\<close>

definition check_setup :: "SetupHeader \<Rightarrow> UEFIAvbBootKernelResult option" where
  "check_setup s =
     (if setup_signature s \<noteq> 0xAA55 \<or> setup_header s \<noteq> SETUP_MAGIC
      then Some UEFI_AVB_BOOT_KERNEL_RESULT_ERROR_KERNEL_INVALID_FORMAT
      else if setup_version s < 0x20b then Some UEFI_AVB_BOOT_KERNEL_RESULT_ERROR_KERNEL_INVALID_FORMAT
      else if relocatable_kernel s = 0 then Some UEFI_AVB_BOOT_KERNEL_RESULT_ERROR_KERNEL_INVALID_FORMAT
      else None)"

text \<open>The boot parameters: the header of the image with five fields filled in, zero up to 0x4000.\<close>

definition code32_start :: "u64 \<Rightarrow> SetupHeader \<Rightarrow> u32" where
  "code32_start kernel_buf s = ucast kernel_buf + (ucast (setup_secs s) + 1) * 512"

definition setup_mem :: "u64 \<Rightarrow> u64 \<Rightarrow> u64 \<Rightarrow> u32 \<Rightarrow> SetupHeader \<Rightarrow> bytes \<Rightarrow> bytes" where
  "setup_mem kernel_buf cmdline_addr initramfs_addr initramfs_size s image_setup =
     blit 540 (mem32 initramfs_size) (blit 536 (mem32 (ucast initramfs_addr))
       (blit 552 (mem32 (ucast cmdline_addr)) (blit 532 (mem32 (code32_start kernel_buf s))
         (blit 528 [0xff] (blit 0 (take 616 image_setup) (replicate 0x4000 0))))))"

text \<open>
  The first checks: the only loaded partition is a boot image whose parts, without the pages around
  them, fit in it.  The result is the header and the image.
\<close>

definition check_boot_image :: "AvbPartitionData list \<Rightarrow> (boot_img_hdr \<times> bytes) option outcome" where
  "check_boot_image loaded = (case loaded of
     [boot] \<Rightarrow>
       obind (checked (pd_partition_name boot)) (\<lambda>name.
       if name \<noteq> ascii ''boot'' then Returned None
       else obind (checked (pd_data boot)) (\<lambda>data.
         obind (checked (boot_img_hdr_of_mem data)) (\<lambda>h.
         if boot_magic h \<noteq> BOOT_MAGIC then Returned None
         else
           let (ok1, total1) = avb_safe_add_to (ucast (kernel_size h)) (ucast (ramdisk_size h));
               (ok2, total_size) = avb_safe_add_to total1 (ucast (second_size h))
           in Returned (if \<not> ok1 \<or> \<not> ok2 then None
                else if total_size > pd_data_size boot then None else Some (h, data)))))
   | _ \<Rightarrow> Returned None)"

text \<open>
  The function: it returns an error or ends in the kernel.  (The return value after the jump is for a
  kernel that comes back.)
\<close>

definition uefi_avb_boot_kernel ::
  "'w pages \<Rightarrow> AvbSlotVerifyData \<Rightarrow> bytes option \<Rightarrow> 'w \<Rightarrow>
   ((UEFIAvbBootKernelResult + handover) \<times> 'w) outcome" where
  "uefi_avb_boot_kernel pages slot_data cmdline_extra w =
     obind (check_boot_image (loaded_partitions slot_data)) (\<lambda>image. case image of
       None \<Rightarrow> Returned (Inl UEFI_AVB_BOOT_KERNEL_RESULT_ERROR_PARTITION_INVALID_FORMAT, w)
     | Some (h, data) \<Rightarrow>
       (case pages 0x3fffffff (EFI_SIZE_TO_PAGES (ucast (kernel_size h))) w of
          (None, w1) \<Rightarrow> Returned (Inl UEFI_AVB_BOOT_KERNEL_RESULT_ERROR_OOM, w1)
        | (Some (kernel_addr, fresh), w1) \<Rightarrow>
          obind (copy_mem fresh (unat (page_size h)) data (unat (kernel_size h))) (\<lambda>kernel_buf.
          obind (load_initramfs pages h data w1) (\<lambda>(ramdisk, w2). case ramdisk of
            Inl r \<Rightarrow> Returned (Inl r, w2)
          | Inr (initramfs_addr, initramfs_buf) \<Rightarrow>
            obind (load_cmdline pages data (sd_cmdline slot_data) cmdline_extra w2) (\<lambda>(cmdline, w3). case cmdline of
              Inl r \<Rightarrow> Returned (Inl r, w3)
            | Inr (cmdline_addr, cmdline_utf8) \<Rightarrow>
              obind (checked (SetupHeader_of_mem kernel_buf)) (\<lambda>s. case check_setup s of
                Some r \<Rightarrow> Returned (Inl r, w3)
              | None \<Rightarrow>
                (case pages 0x3fffffff (EFI_SIZE_TO_PAGES 0x4000) w3 of
                   (None, w4) \<Rightarrow> Returned (Inl UEFI_AVB_BOOT_KERNEL_RESULT_ERROR_OOM, w4)
                 | (Some (setup_addr, _), w4) \<Rightarrow>
                   Returned (Inr \<lparr>ho_setup = setup_mem kernel_addr cmdline_addr initramfs_addr
                                (ramdisk_size h + second_size h) s kernel_buf,
                      ho_kernel_start = ucast (code32_start kernel_addr s), ho_kernel = kernel_buf,
                      ho_initramfs = initramfs_buf, ho_cmdline = cmdline_utf8\<rparr>, w4))))))))"

definition uefi_avb_boot_kernel_result_to_string :: "UEFIAvbBootKernelResult \<Rightarrow> string" where
  "uefi_avb_boot_kernel_result_to_string result = (case result of
     UEFI_AVB_BOOT_KERNEL_RESULT_OK \<Rightarrow> ''OK''
   | UEFI_AVB_BOOT_KERNEL_RESULT_ERROR_OOM \<Rightarrow> ''ERROR_OEM''
   | UEFI_AVB_BOOT_KERNEL_RESULT_ERROR_IO \<Rightarrow> ''ERROR_IO''
   | UEFI_AVB_BOOT_KERNEL_RESULT_ERROR_PARTITION_INVALID_FORMAT \<Rightarrow> ''ERROR_PARTITION_INVALID_FORMAT''
   | UEFI_AVB_BOOT_KERNEL_RESULT_ERROR_KERNEL_INVALID_FORMAT \<Rightarrow> ''ERROR_KERNEL_INVALID_FORMAT''
   | UEFI_AVB_BOOT_KERNEL_RESULT_ERROR_START_KERNEL \<Rightarrow> ''ERROR_START_KERNEL'')"

subsection \<open>The layout in memory\<close>

text \<open>An allocator of pages that succeeds, and the parts of an image.\<close>

definition pages_ok :: "'w pages \<Rightarrow> bool" where
  "pages_ok pages \<longleftrightarrow> (\<forall>limit n w. \<exists>addr fresh w'. pages limit n w = (Some (addr, fresh), w') \<and> length fresh = unat n * 4096)"

definition padded :: "nat \<Rightarrow> nat \<Rightarrow> nat" where
  "padded size0 page = (size0 + page - 1) div page * page"

definition kernel_part :: "boot_img_hdr \<Rightarrow> bytes \<Rightarrow> bytes" where
  "kernel_part h data = take (unat (kernel_size h)) (drop (unat (page_size h)) data)"

definition ramdisk_pos :: "boot_img_hdr \<Rightarrow> nat" where
  "ramdisk_pos h = unat (page_size h) + padded (unat (kernel_size h)) (unat (page_size h))"

definition second_pos :: "boot_img_hdr \<Rightarrow> nat" where
  "second_pos h = ramdisk_pos h + padded (unat (ramdisk_size h)) (unat (page_size h))"

definition ramdisk_part :: "boot_img_hdr \<Rightarrow> bytes \<Rightarrow> bytes" where
  "ramdisk_part h data = take (unat (ramdisk_size h)) (drop (ramdisk_pos h) data)"

definition second_part :: "boot_img_hdr \<Rightarrow> bytes \<Rightarrow> bytes" where
  "second_part h data = take (unat (second_size h)) (drop (second_pos h) data)"

lemma unat_32_64 [simp]: "unat (ucast (x :: u32) :: u64) = unat x"
  by (rule unat_ucast_up) simp

lemma u32_bound: "unat (x :: u32) < 2 ^ 32"
  using unat_less [of x] by simp

lemma padded_bounds: "0 < page \<Longrightarrow> size0 \<le> padded size0 page" "padded size0 page \<le> size0 + page"
proof -
  show "padded size0 page \<le> size0 + page"
    unfolding padded_def by (rule order_trans [OF div_times_less_eq_dividend]) simp
  assume "0 < page"
  then have "(size0 + page - 1) mod page \<le> page - 1" using mod_less_divisor [of page "size0 + page - 1"] by linarith
  moreover have "(size0 + page - 1) div page * page + (size0 + page - 1) mod page = size0 + page - 1" by simp
  ultimately show "size0 \<le> padded size0 page" using \<open>0 < page\<close> unfolding padded_def by linarith
qed

lemma round_up_padded:
  assumes "page_size h \<noteq> 0"
  shows "\<exists>r. round_up (ucast (x :: u32)) (ucast (page_size h)) = Some r \<and> unat r = padded (unat x) (unat (page_size h))"
proof -
  let ?v = "ucast x :: u64" and ?p = "ucast (page_size h) :: u64"
  have p: "?p \<noteq> 0" using assms by (metis unat_0 unat_32_64 unat_eq_0)
  then have p0: "0 < unat (page_size h)" using assms by (simp add: unat_gt_0)
  have b: "unat x < 2 ^ 32" "unat (page_size h) < 2 ^ 32" using u32_bound by blast+
  have s: "unat (?v + ?p) = unat x + unat (page_size h)" using b by (simp add: unat_word_ariths(1))
  then have "?v + ?p \<noteq> 0" using p0 by (metis add_gr_0 unat_0 less_numeral_extra(3))
  then have m: "unat (?v + ?p - 1) = unat x + unat (page_size h) - 1" using s by (simp add: unat_minus_one)
  have d: "unat ((?v + ?p - 1) div ?p) = (unat x + unat (page_size h) - 1) div unat (page_size h)"
    by (simp add: unat_div m)
  have "padded (unat x) (unat (page_size h)) < 2 ^ 64"
    using padded_bounds(2) [of "unat x" "unat (page_size h)"] b by simp
  then have "unat ((?v + ?p - 1) div ?p * ?p) = padded (unat x) (unat (page_size h))"
    unfolding unat_word_ariths(2) d by (simp add: padded_def)
  then show ?thesis using p by (simp add: round_up_def)
qed

lemma size_to_pages: "unat n \<le> unat (EFI_SIZE_TO_PAGES n) * 4096"
proof -
  have d: "unat (drop_bit 12 n) = unat n div 4096" by (simp add: unat_drop_bit)
  have m: "n AND 0xFFF = take_bit 12 n" by (simp add: take_bit_eq_mask mask_eq_exp_minus_1)
  have r: "unat (take_bit 12 n) = unat n mod 4096" 
    by (simp only: unsigned_take_bit_eq) (simp add: take_bit_nat_def)
  have dm: "unat n = unat n div 4096 * 4096 + unat n mod 4096" by simp
  show ?thesis
  proof (cases "n AND 0xFFF = 0")
    case True
    then have "unat n mod 4096 = 0" using r m by simp
    with dm True d show ?thesis by (simp add: EFI_SIZE_TO_PAGES_def)
  next
    case False
    have "unat n div 4096 < 2 ^ 63" using unat_less [of n] by (simp add: div_less_iff_less_mult)
    then have "unat (drop_bit 12 n + 1) = unat n div 4096 + 1" by (simp add: unat_word_ariths(1) d)
    with False have e: "unat (EFI_SIZE_TO_PAGES n) = unat n div 4096 + 1" by (simp add: EFI_SIZE_TO_PAGES_def)
    have "unat n mod 4096 < 4096" by simp
    have "m \<le> (q + 1) * 4096" if "m = q * 4096 + r" "r < 4096" for m q r :: nat using that by simp
    from this [OF dm] show ?thesis unfolding e by simp
  qed
qed

lemma copy_mem_ok:
  "off + n \<le> length mem \<Longrightarrow> n \<le> length dest \<Longrightarrow> copy_mem dest off mem n = Returned (blit 0 (take n (drop off mem)) dest)"
  by (simp add: copy_mem_def slice_def)

text \<open>An image whose parts are where the header says, and that passes the first checks.\<close>

definition image_fits :: "boot_img_hdr \<Rightarrow> bytes \<Rightarrow> bool" where
  "image_fits h data \<longleftrightarrow> boot_img_hdr_of_mem data = Some h \<and> boot_magic h = BOOT_MAGIC \<and> page_size h \<noteq> 0 \<and>
     second_pos h + unat (second_size h) \<le> length data \<and> unat (ramdisk_size h) + unat (second_size h) < 2 ^ 32"

lemma image_fits_parts:
  assumes "image_fits h data"
  shows "unat (page_size h) + unat (kernel_size h) \<le> length data" "ramdisk_pos h + unat (ramdisk_size h) \<le> length data"
    "unat (kernel_size h) + unat (ramdisk_size h) + unat (second_size h) \<le> length data"
proof -
  have p: "0 < unat (page_size h)" using assms by (auto simp: image_fits_def unat_gt_0)
  note b = padded_bounds(1) [OF p, of "unat (kernel_size h)"] padded_bounds(1) [OF p, of "unat (ramdisk_size h)"]
  then show "unat (page_size h) + unat (kernel_size h) \<le> length data" "ramdisk_pos h + unat (ramdisk_size h) \<le> length data"
    "unat (kernel_size h) + unat (ramdisk_size h) + unat (second_size h) \<le> length data"
    using assms by (auto simp: image_fits_def second_pos_def ramdisk_pos_def)
qed

lemma positions:
  assumes "image_fits h data"
  shows "\<exists>r. round_up (ucast (kernel_size h)) (ucast (page_size h)) = Some r \<and> unat (ucast (page_size h) + r) = ramdisk_pos h \<and>
    (\<exists>r2. round_up (ucast (ramdisk_size h)) (ucast (page_size h)) = Some r2 \<and> unat (ucast (page_size h) + r + r2) = second_pos h)"
proof -
  have p: "page_size h \<noteq> 0" using assms by (simp add: image_fits_def)
  obtain r where r: "round_up (ucast (kernel_size h)) (ucast (page_size h)) = Some r"
    "unat r = padded (unat (kernel_size h)) (unat (page_size h))" using round_up_padded [OF p] by blast
  obtain r2 where r2: "round_up (ucast (ramdisk_size h)) (ucast (page_size h)) = Some r2"
    "unat r2 = padded (unat (ramdisk_size h)) (unat (page_size h))" using round_up_padded [OF p] by blast
  have b: "unat r < 2 ^ 33" "unat r2 < 2 ^ 33"
    using padded_bounds(2) [of "unat (kernel_size h)" "unat (page_size h)"]
      padded_bounds(2) [of "unat (ramdisk_size h)" "unat (page_size h)"] u32_bound [of "kernel_size h"]
      u32_bound [of "page_size h"] u32_bound [of "ramdisk_size h"] by (simp_all add: r(2) r2(2))
  have o1: "unat (ucast (page_size h) + r) = ramdisk_pos h"
    using b u32_bound [of "page_size h"] by (simp add: unat_word_ariths(1) ramdisk_pos_def r(2))
  moreover have "unat (ucast (page_size h) + r + r2) = second_pos h"
    unfolding unat_word_ariths(1) [of "ucast (page_size h) + r"] o1
    using b u32_bound [of "page_size h"] by (simp add: second_pos_def r(2) r2(2) ramdisk_pos_def)
  ultimately show ?thesis using r(1) r2(1) by blast
qed

lemma initramfs_sizes:
  assumes "image_fits h data"
  shows "unat (ramdisk_size h + second_size h) = unat (ramdisk_size h) + unat (second_size h)"
  using assms by (simp add: image_fits_def unat_word_ariths(1))

lemma load_initramfs_ok:
  assumes "pages_ok pages" "image_fits h data" "ramdisk_size h + second_size h \<noteq> 0"
  shows "\<exists>addr fresh w'. load_initramfs pages h data w =
      Returned (Inr (addr, Some (blit 0 (second_part h data) (blit 0 (ramdisk_part h data) fresh))), w') \<and>
    unat (ramdisk_size h) + unat (second_size h) \<le> length fresh"
proof -
  let ?n = "ucast (ramdisk_size h + second_size h) :: u64"
  have n: "unat ?n = unat (ramdisk_size h) + unat (second_size h)" using initramfs_sizes [OF assms(2)] by simp
  have "?n > 0" using assms(3) by (metis unat_0 unat_32_64 unat_eq_0 word_neq_0_conv)
  obtain addr fresh w' where p: "pages 0x3fffffff (EFI_SIZE_TO_PAGES ?n) w = (Some (addr, fresh), w')"
    "length fresh = unat (EFI_SIZE_TO_PAGES ?n) * 4096" using assms(1) unfolding pages_ok_def by metis
  then have l: "unat (ramdisk_size h) + unat (second_size h) \<le> length fresh" using size_to_pages [of ?n] n by simp
  obtain r r2 where r: "round_up (ucast (kernel_size h)) (ucast (page_size h)) = Some r" "unat (ucast (page_size h) + r) = ramdisk_pos h"
    "round_up (ucast (ramdisk_size h)) (ucast (page_size h)) = Some r2" "unat (ucast (page_size h) + r + r2) = second_pos h"
    using positions [OF assms(2)] by blast
  have c1: "copy_mem fresh (ramdisk_pos h) data (unat (ramdisk_size h)) = Returned (blit 0 (ramdisk_part h data) fresh)"
    unfolding ramdisk_part_def using image_fits_parts(2) [OF assms(2)] l by (intro copy_mem_ok) simp_all
  have lr: "length (blit 0 (ramdisk_part h data) fresh) = length fresh"
    using image_fits_parts(2) [OF assms(2)] l by (intro length_blit) (simp add: ramdisk_part_def)
  have c2: "copy_mem (blit 0 (ramdisk_part h data) fresh) (second_pos h) data (unat (second_size h)) =
      Returned (blit 0 (second_part h data) (blit 0 (ramdisk_part h data) fresh))"
    unfolding second_part_def using assms(2) l lr by (intro copy_mem_ok) (simp_all add: image_fits_def)
  have "load_initramfs pages h data w =
      Returned (Inr (addr, Some (blit 0 (second_part h data) (blit 0 (ramdisk_part h data) fresh))), w')"
    unfolding load_initramfs_def Let_def using \<open>?n > 0\<close> by (simp add: p r c1 c2)
  with l show ?thesis by blast
qed

lemma load_cmdline_ok:
  assumes "pages_ok pages" "c_read (drop 64 data) = Some c1" "length (boot_cmdline c1 c2 extra) < 2 ^ 64"
  shows "\<exists>addr fresh w'. load_cmdline pages data (Some c2) extra w =
      Returned (Inr (addr, blit 0 (boot_cmdline c1 c2 extra) fresh), w') \<and> length (boot_cmdline c1 c2 extra) \<le> length fresh"
proof -
  let ?t = "boot_cmdline c1 c2 extra"
  have n: "unat (of_nat (length ?t) :: u64) = length ?t" by (rule small_word) (rule assms(3))
  obtain addr fresh w' where p: "pages 0xA0000 (EFI_SIZE_TO_PAGES (of_nat (length ?t))) w = (Some (addr, fresh), w')"
    "length fresh = unat (EFI_SIZE_TO_PAGES (of_nat (length ?t))) * 4096" using assms(1) unfolding pages_ok_def by metis
  then have "length ?t \<le> length fresh" using size_to_pages [of "of_nat (length ?t)"] n by simp
  moreover from this have "load_cmdline pages data (Some c2) extra w = Returned (Inr (addr, blit 0 ?t fresh), w')"
    using p(1) by (simp add: load_cmdline_def Let_def assms(2) not_less)
  ultimately show ?thesis by blast
qed

lemma setup_header_append:
  "616 \<le> length xs \<Longrightarrow> SetupHeader_of_mem (xs @ ys) = SetupHeader_of_mem xs"
  by (simp add: SetupHeader_of_mem_def load16_def load32_def nth_append)

lemma blit_front: "length src \<le> length dest \<Longrightarrow> take (length src) (blit 0 src dest) = src"
  by (simp add: blit_def)

definition boot_partition :: "AvbSlotVerifyData \<Rightarrow> bytes \<Rightarrow> bool" where
  "boot_partition sd data \<longleftrightarrow> (\<exists>p. loaded_partitions sd = [p] \<and> pd_partition_name p = Some (ascii ''boot'') \<and>
     pd_data p = Some data \<and> length data \<le> unat (pd_data_size p))"

lemma check_boot_image_ok:
  assumes "boot_partition sd data" "image_fits h data"
  shows "check_boot_image (loaded_partitions sd) = Returned (Some (h, data))"
proof -
  from assms(1) obtain p where p: "loaded_partitions sd = [p]" "pd_partition_name p = Some (ascii ''boot'')"
    "pd_data p = Some data" "length data \<le> unat (pd_data_size p)" by (auto simp: boot_partition_def)
  let ?k = "ucast (kernel_size h) :: u64" and ?r = "ucast (ramdisk_size h) :: u64" and ?s = "ucast (second_size h) :: u64"
  have b: "unat (kernel_size h) < 2 ^ 32" "unat (ramdisk_size h) < 2 ^ 32" "unat (second_size h) < 2 ^ 32"
    using u32_bound by blast+
  have u: "unat (?k + ?r) = unat (kernel_size h) + unat (ramdisk_size h)" using b by (simp add: unat_word_ariths(1))
  then have v: "unat (?k + ?r + ?s) = unat (kernel_size h) + unat (ramdisk_size h) + unat (second_size h)"
    using b by (simp add: unat_word_ariths(1) [of "?k + ?r"])
  have a: "avb_safe_add_to ?k ?r = (True, ?k + ?r)" "avb_safe_add_to (?k + ?r) ?s = (True, ?k + ?r + ?s)"
    using u v b by (simp_all add: avb_safe_add_to_def word_less_nat_alt not_less)
  have le: "\<not> ?k + ?r + ?s > pd_data_size p"
    using image_fits_parts(3) [OF assms(2)] p(4) v by (simp add: word_less_nat_alt not_less)
  have h: "boot_img_hdr_of_mem data = Some h" "boot_magic h = BOOT_MAGIC" using assms(2) by (simp_all add: image_fits_def)
  show ?thesis using le by (simp add: check_boot_image_def p(1-3) h a)
qed

lemma boot_layout:
  assumes "pages_ok pages" "boot_partition sd data" "image_fits h data"
    and "616 \<le> unat (kernel_size h)" "SetupHeader_of_mem (kernel_part h data) = Some s" "check_setup s = None"
    and "c_read (drop 64 data) = Some c1" "sd_cmdline sd = Some c2" "length (boot_cmdline c1 c2 extra) < 2 ^ 64"
  shows "\<exists>ka kf ia fi ca cf w'. uefi_avb_boot_kernel pages sd extra w = Returned (Inr
      \<lparr>ho_setup = setup_mem ka ca ia (ramdisk_size h + second_size h) s (blit 0 (kernel_part h data) kf),
       ho_kernel_start = ucast (code32_start ka s), ho_kernel = blit 0 (kernel_part h data) kf,
       ho_initramfs = (if ramdisk_size h + second_size h = 0 then None
         else Some (blit 0 (second_part h data) (blit 0 (ramdisk_part h data) fi))),
       ho_cmdline = blit 0 (boot_cmdline c1 c2 extra) cf\<rparr>, w') \<and>
     unat (kernel_size h) \<le> length kf \<and> unat (ramdisk_size h) + unat (second_size h) \<le> length fi \<and>
     length (boot_cmdline c1 c2 extra) \<le> length cf"
proof -
  let ?n = "ucast (kernel_size h) :: u64"
  obtain ka kf w1 where p1: "pages 0x3fffffff (EFI_SIZE_TO_PAGES ?n) w = (Some (ka, kf), w1)"
    "length kf = unat (EFI_SIZE_TO_PAGES ?n) * 4096" using assms(1) unfolding pages_ok_def by metis
  then have kl: "unat (kernel_size h) \<le> length kf" using size_to_pages [of ?n] by simp
  note fits = image_fits_parts(1) [OF assms(3)]
  have k: "copy_mem kf (unat (page_size h)) data (unat (kernel_size h)) = Returned (blit 0 (kernel_part h data) kf)"
    unfolding kernel_part_def using fits kl by (rule copy_mem_ok)
  have "length (kernel_part h data) = unat (kernel_size h)" using fits by (simp add: kernel_part_def)
  then have s: "SetupHeader_of_mem (blit 0 (kernel_part h data) kf) = Some s"
    using assms(4,5) by (simp add: blit_def setup_header_append)
  let ?i = "if ramdisk_size h + second_size h = 0 then None
         else Some (blit 0 (second_part h data) (blit 0 (ramdisk_part h data) fi))"
  have "\<exists>ia fi w2. load_initramfs pages h data w1 = Returned (Inr (ia, if ramdisk_size h + second_size h = 0 then None
         else Some (blit 0 (second_part h data) (blit 0 (ramdisk_part h data) fi))), w2) \<and>
     unat (ramdisk_size h) + unat (second_size h) \<le> length fi"
  proof (cases "ramdisk_size h + second_size h = 0")
    case True
    then have "unat (ramdisk_size h) + unat (second_size h) = 0" using initramfs_sizes [OF assms(3)] by simp
    with True show ?thesis by (simp add: load_initramfs_def)
  next
    case False
    from load_initramfs_ok [OF assms(1,3) False, of w1] obtain ia fi w2 where
      "load_initramfs pages h data w1 = Returned (Inr (ia, Some (blit 0 (second_part h data) (blit 0 (ramdisk_part h data) fi))), w2)"
      "unat (ramdisk_size h) + unat (second_size h) \<le> length fi" by blast
    with False show ?thesis by (intro exI [of _ ia] exI [of _ fi] exI [of _ w2]) simp
  qed
  then obtain ia fi w2 where i: "load_initramfs pages h data w1 = Returned (Inr (ia, if ramdisk_size h + second_size h = 0 then None
         else Some (blit 0 (second_part h data) (blit 0 (ramdisk_part h data) fi))), w2)"
     "unat (ramdisk_size h) + unat (second_size h) \<le> length fi" by blast
  obtain ca cf w3 where c: "load_cmdline pages data (Some c2) extra w2 = Returned (Inr (ca, blit 0 (boot_cmdline c1 c2 extra) cf), w3)"
    "length (boot_cmdline c1 c2 extra) \<le> length cf" using load_cmdline_ok [OF assms(1,7,9)] by blast
  obtain sa sf w4 where p4: "pages 0x3fffffff (EFI_SIZE_TO_PAGES 0x4000) w3 = (Some (sa, sf), w4)"
    using assms(1) unfolding pages_ok_def by metis
  have "uefi_avb_boot_kernel pages sd extra w = Returned (Inr
      \<lparr>ho_setup = setup_mem ka ca ia (ramdisk_size h + second_size h) s (blit 0 (kernel_part h data) kf),
       ho_kernel_start = ucast (code32_start ka s), ho_kernel = blit 0 (kernel_part h data) kf,
       ho_initramfs = (if ramdisk_size h + second_size h = 0 then None
         else Some (blit 0 (second_part h data) (blit 0 (ramdisk_part h data) fi))),
       ho_cmdline = blit 0 (boot_cmdline c1 c2 extra) cf\<rparr>, w4)"
    using p4 by (simp add: uefi_avb_boot_kernel_def check_boot_image_ok [OF assms(2,3)] p1 k i(1) assms(6,8) c(1) s)
  with kl i(2) c(2) show ?thesis by blast
qed

lemma take_drop_blit:
  "off + length src \<le> length d \<Longrightarrow> take (length src) (drop off (blit off src d)) = src"
  "pos + n \<le> off \<Longrightarrow> off + length src \<le> length d \<Longrightarrow> take n (drop pos (blit off src d)) = take n (drop pos d)"
  "off + length src \<le> pos \<Longrightarrow> off + length src \<le> length d \<Longrightarrow> take n (drop pos (blit off src d)) = take n (drop pos d)"
  by (auto simp: blit_def drop_take min_def)

lemma load_blit:
  "off + 4 \<le> length d \<Longrightarrow> load32 (drop off (blit off (mem32 x) d)) = x"
  "pos + 4 \<le> off \<or> off + length src \<le> pos \<Longrightarrow> off + length src \<le> length d \<Longrightarrow>
     load32 (drop pos (blit off src d)) = load32 (drop pos d)"
proof -
  have l: "load32 m = load32 (take 4 m)" for m by (simp add: load32_def)
  show "off + 4 \<le> length d \<Longrightarrow> load32 (drop off (blit off (mem32 x) d)) = x"
    using take_drop_blit(1) [of off "mem32 x" d] by (subst l) simp
  show "pos + 4 \<le> off \<or> off + length src \<le> pos \<Longrightarrow> off + length src \<le> length d \<Longrightarrow>
     load32 (drop pos (blit off src d)) = load32 (drop pos d)"
    using take_drop_blit(2) [of pos 4 off src d] take_drop_blit(3) [of off src pos d 4] by (metis l)
qed

lemma setup_mem_fields:
  assumes "616 \<le> length k"
  shows "length (setup_mem ka ca ia n s k) = 0x4000" "load32 (drop 532 (setup_mem ka ca ia n s k)) = code32_start ka s"
    "load32 (drop 536 (setup_mem ka ca ia n s k)) = ucast ia" "load32 (drop 540 (setup_mem ka ca ia n s k)) = n"
    "load32 (drop 552 (setup_mem ka ca ia n s k)) = ucast ca"
proof -
  have b: "length (blit 0 (take 616 k) (replicate 0x4000 (0 :: u8))) = 0x4000"
    using assms by (subst length_blit) simp_all
  show "length (setup_mem ka ca ia n s k) = 0x4000" "load32 (drop 532 (setup_mem ka ca ia n s k)) = code32_start ka s"
    "load32 (drop 536 (setup_mem ka ca ia n s k)) = ucast ia" "load32 (drop 540 (setup_mem ka ca ia n s k)) = n"
    "load32 (drop 552 (setup_mem ka ca ia n s k)) = ucast ca"
    unfolding setup_mem_def by (simp_all add: b load_blit)
qed

subsection \<open>Sample images\<close>

text \<open>
  An image with pages of 1024 octets: the header, a kernel of one page, a RAM disk of four octets and
  a second one.
\<close>

definition sample_kernel :: bytes where
  "sample_kernel = octets 497 0 @ [1] @ octets 12 0 @ [0x55, 0xAA, 0, 0, 0x48, 0x64, 0x72, 0x53, 0x0B, 0x02] @
     octets 44 0 @ [1] @ octets 459 0"

definition sample_boot_header :: "u8 \<Rightarrow> bytes" where
  "sample_boot_header second = BOOT_MAGIC @ [0, 4, 0, 0, 0, 0, 0, 0, 4, 0, 0, 0, 0, 0, 0, 0, second, 0, 0, 0] @
     replicate 8 0 @ [0, 4, 0, 0] @ replicate 24 0 @ ascii ''quiet'' @ [0]"

definition boot_sample :: "bytes \<Rightarrow> bytes" where
  "boot_sample second = sample_boot_header (of_nat (length second)) @ octets 954 0 @ sample_kernel @ [1, 2, 3, 4] @
     octets 1020 0 @ second"

definition sample_boot_hdr :: "bytes \<Rightarrow> boot_img_hdr" where
  "sample_boot_hdr second = \<lparr>boot_magic = BOOT_MAGIC, kernel_size = 1024, ramdisk_size = 4,
     second_size = of_nat (length second), page_size = 1024\<rparr>"

definition sample_setup :: SetupHeader where
  "sample_setup = \<lparr>setup_secs = 1, setup_signature = 0xAA55, setup_header = SETUP_MAGIC, setup_version = 0x20b,
     relocatable_kernel = 1\<rparr>"

definition zero_pages :: "'w pages" where
  "zero_pages limit n w = (Some (0x1000, octets (unat n * 4096) 0), w)"

lemma zero_pages_ok: "pages_ok zero_pages"
  by (simp add: pages_ok_def zero_pages_def)

lemma boot_sample_lengths:
  "length (sample_boot_header b) = 70" "length sample_kernel = 1024" "length (boot_sample second) = 3072 + length second"
  by (simp_all add: sample_boot_header_def sample_kernel_def boot_sample_def BOOT_MAGIC_def ascii_def)

lemma sample_fields:
  "boot_img_hdr_of_mem (boot_sample []) = Some (sample_boot_hdr [])"
  "boot_img_hdr_of_mem (boot_sample [8, 9]) = Some (sample_boot_hdr [8, 9])"
proof -
  have "boot_img_hdr_of_mem (sample_boot_header b @ rest) = Some \<lparr>boot_magic = BOOT_MAGIC, kernel_size = 1024,
      ramdisk_size = 4, second_size = load32 [b, 0, 0, 0], page_size = 1024\<rparr>" for b rest
    by (simp add: boot_img_hdr_of_mem_def boot_sample_lengths)
      (simp add: sample_boot_header_def BOOT_MAGIC_def ascii_def load32_def)
  moreover have "load32 [0, 0, 0, 0] = 0" "load32 [2, 0, 0, 0] = 2" by code_simp+
  ultimately show "boot_img_hdr_of_mem (boot_sample []) = Some (sample_boot_hdr [])"
    "boot_img_hdr_of_mem (boot_sample [8, 9]) = Some (sample_boot_hdr [8, 9])"
    by (simp_all add: boot_sample_def sample_boot_hdr_def)
qed

lemma sample_positions:
  "ramdisk_pos (sample_boot_hdr second) = 2048" "second_pos (sample_boot_hdr second) = 3072"
  by (simp_all add: ramdisk_pos_def second_pos_def sample_boot_hdr_def padded_def)

lemma sample_parts:
  "kernel_part (sample_boot_hdr second) (boot_sample second) = sample_kernel"
  "ramdisk_part (sample_boot_hdr second) (boot_sample second) = [1, 2, 3, 4]"
  "second_part (sample_boot_hdr [8, 9]) (boot_sample [8, 9]) = [8, 9]"
  unfolding kernel_part_def ramdisk_part_def second_part_def sample_positions
  by (simp_all add: sample_boot_hdr_def boot_sample_def boot_sample_lengths)

lemma sample_kernel_header: "SetupHeader_of_mem sample_kernel = Some sample_setup" "check_setup sample_setup = None"
  by code_simp+

lemma sample_cmdline: "c_read (drop 64 (boot_sample second)) = Some (ascii ''quiet'')"
proof -
  have d: "drop 64 (boot_sample second) = ascii ''quiet'' @ 0 # (octets 954 0 @ sample_kernel @ [1, 2, 3, 4] @ octets 1020 0 @ second)"
    by (simp add: boot_sample_def boot_sample_lengths) (simp add: sample_boot_header_def BOOT_MAGIC_def ascii_def)
  show ?thesis unfolding d c_read_def by (simp add: c_str_def ascii_def)
qed

lemma sample_fits:
  "image_fits (sample_boot_hdr []) (boot_sample [])" "image_fits (sample_boot_hdr [8, 9]) (boot_sample [8, 9])"
  using sample_fields by (simp_all add: image_fits_def sample_positions boot_sample_lengths) (simp_all add: sample_boot_hdr_def)

definition sample_slot :: "bytes \<Rightarrow> AvbSlotVerifyData" where
  "sample_slot data = unsigned_slot\<lparr>loaded_partitions := [\<lparr>pd_partition_name = Some (ascii ''boot''), pd_data = Some data,
     pd_data_size = of_nat (length data), pd_preloaded = False\<rparr>], sd_cmdline := Some (ascii ''root'')\<rparr>"

lemma sample_boot_partition: "length data < 2 ^ 64 \<Longrightarrow> boot_partition (sample_slot data) data"
  by (simp add: boot_partition_def sample_slot_def small_word)

subsection \<open>Properties\<close>

text \<open>
  C20: a boot image without a second initial RAM disk, whose parts are in the partition and whose kernel
  has an acceptable setup header, is started: at the jump the kernel and the RAM disk are in memory,
  the command line is the image's, libavb's and the extra one with spaces between them, and the boot
  parameters give the kernel's entry and the size of the RAM disk.
\<close>
theorem boot_hands_over_image:
  assumes "pages_ok pages" and "boot_partition sd data" and "image_fits h data" and "second_size h = 0"
    and "616 \<le> unat (kernel_size h)" and "SetupHeader_of_mem (kernel_part h data) = Some s" and "check_setup s = None"
    and "c_read (drop 64 data) = Some c1" and "sd_cmdline sd = Some c2" and "length (boot_cmdline c1 c2 extra) < 2 ^ 64"
  shows "\<exists>jump w'. uefi_avb_boot_kernel pages sd extra w = Returned (Inr jump, w') \<and>
    take (unat (kernel_size h)) (ho_kernel jump) = kernel_part h data \<and>
    map_option (take (unat (ramdisk_size h))) (ho_initramfs jump) = (if ramdisk_size h = 0 then None else Some (ramdisk_part h data)) \<and>
    take (length (boot_cmdline c1 c2 extra)) (ho_cmdline jump) = boot_cmdline c1 c2 extra \<and>
    length (ho_setup jump) = 0x4000 \<and> ho_kernel_start jump = ucast (load32 (drop 532 (ho_setup jump))) \<and>
    load32 (drop 540 (ho_setup jump)) = ramdisk_size h"
proof -
  from boot_layout [OF assms(1-3,5-10), of w] obtain ka kf ia fi ca cf w' where
    b: "uefi_avb_boot_kernel pages sd extra w = Returned (Inr
      \<lparr>ho_setup = setup_mem ka ca ia (ramdisk_size h + second_size h) s (blit 0 (kernel_part h data) kf),
       ho_kernel_start = ucast (code32_start ka s), ho_kernel = blit 0 (kernel_part h data) kf,
       ho_initramfs = (if ramdisk_size h + second_size h = 0 then None
         else Some (blit 0 (second_part h data) (blit 0 (ramdisk_part h data) fi))),
       ho_cmdline = blit 0 (boot_cmdline c1 c2 extra) cf\<rparr>, w')"
    and l: "unat (kernel_size h) \<le> length kf" "unat (ramdisk_size h) + unat (second_size h) \<le> length fi"
      "length (boot_cmdline c1 c2 extra) \<le> length cf" by blast
  note fits = image_fits_parts [OF assms(3)]
  have parts: "length (kernel_part h data) = unat (kernel_size h)" "length (ramdisk_part h data) = unat (ramdisk_size h)"
    "second_part h data = []"
    using fits assms(4) by (simp_all add: kernel_part_def ramdisk_part_def second_part_def)
  have k: "616 \<le> length (blit 0 (kernel_part h data) kf)" using assms(5) l(1) parts(1) by simp
  have t: "take (unat (kernel_size h)) (blit 0 (kernel_part h data) kf) = kernel_part h data"
    "take (unat (ramdisk_size h)) (blit 0 [] (blit 0 (ramdisk_part h data) fi)) = ramdisk_part h data"
    using l parts by (auto simp: blit_def)
  show ?thesis
    by (rule exI, rule exI, rule conjI [OF b])
      (use t blit_front [OF l(3)] setup_mem_fields [OF k] parts(3) assms(4) in simp)
qed

theorem boot_hands_over_image_witness:
  "\<exists>jump w'. uefi_avb_boot_kernel zero_pages (sample_slot (boot_sample [])) (Some (ascii ''extra'')) () = Returned (Inr jump, w') \<and>
    map_option (take 4) (ho_initramfs jump) = Some [1, 2, 3, 4] \<and>
    take (length (ascii ''quiet root extra'') + 1) (ho_cmdline jump) = ascii ''quiet root extra'' @ [0]"
proof -
  have c: "boot_cmdline (ascii ''quiet'') (ascii ''root'') (Some (ascii ''extra'')) = ascii ''quiet root extra'' @ [0]"
    by code_simp
  have sd: "boot_partition (sample_slot (boot_sample [])) (boot_sample [])"
    by (rule sample_boot_partition) (simp add: boot_sample_lengths)
  have "sd_cmdline (sample_slot d) = Some (ascii ''root'')" for d by (simp add: sample_slot_def)
  moreover have "kernel_size (sample_boot_hdr []) = 1024" "ramdisk_size (sample_boot_hdr []) = 4" "second_size (sample_boot_hdr []) = 0"
    by (simp_all add: sample_boot_hdr_def)
  moreover have "length (boot_cmdline (ascii ''quiet'') (ascii ''root'') (Some (ascii ''extra''))) < 2 ^ 64"
    by (simp add: c) (simp add: ascii_def)
  ultimately have "\<exists>jump w'. uefi_avb_boot_kernel zero_pages (sample_slot (boot_sample [])) (Some (ascii ''extra'')) () = Returned (Inr jump, w') \<and>
    map_option (take 4) (ho_initramfs jump) = Some [1, 2, 3, 4] \<and>
    take (length (ascii ''quiet root extra'' @ [0])) (ho_cmdline jump) = ascii ''quiet root extra'' @ [0]"
    using boot_hands_over_image [OF zero_pages_ok sd sample_fits(1) _ _ _ sample_kernel_header(2) sample_cmdline,
        of "ascii ''root''" "Some (ascii ''extra'')" "()"] sample_kernel_header(1)
    by (simp add: sample_parts c) blast
  then show ?thesis by simp
qed

text \<open>
  The second initial RAM disk is not appended to the first, as the code's comment says: both are
  copied to the start of the buffer, so the kernel finds the second one, then what is left of the
  first, while the size it is told is the sum of both.
\<close>
theorem second_ramdisk_overwrites:
  assumes "pages_ok pages" and "boot_partition sd data" and "image_fits h data" and "second_size h \<noteq> 0"
    and "616 \<le> unat (kernel_size h)" and "SetupHeader_of_mem (kernel_part h data) = Some s" and "check_setup s = None"
    and "c_read (drop 64 data) = Some c1" and "sd_cmdline sd = Some c2" and "length (boot_cmdline c1 c2 extra) < 2 ^ 64"
  shows "\<exists>jump w' b. uefi_avb_boot_kernel pages sd extra w = Returned (Inr jump, w') \<and> ho_initramfs jump = Some b \<and>
    take (max (unat (second_size h)) (unat (ramdisk_size h))) b =
      second_part h data @ drop (unat (second_size h)) (ramdisk_part h data) \<and>
    unat (load32 (drop 540 (ho_setup jump))) = unat (ramdisk_size h) + unat (second_size h)"
proof -
  from boot_layout [OF assms(1-3,5-10), of w] obtain ka kf ia fi ca cf w' where
    b: "uefi_avb_boot_kernel pages sd extra w = Returned (Inr
      \<lparr>ho_setup = setup_mem ka ca ia (ramdisk_size h + second_size h) s (blit 0 (kernel_part h data) kf),
       ho_kernel_start = ucast (code32_start ka s), ho_kernel = blit 0 (kernel_part h data) kf,
       ho_initramfs = (if ramdisk_size h + second_size h = 0 then None
         else Some (blit 0 (second_part h data) (blit 0 (ramdisk_part h data) fi))),
       ho_cmdline = blit 0 (boot_cmdline c1 c2 extra) cf\<rparr>, w')"
    and l: "unat (kernel_size h) \<le> length kf" "unat (ramdisk_size h) + unat (second_size h) \<le> length fi" by blast
  note fits = image_fits_parts [OF assms(3)]
  have parts: "length (kernel_part h data) = unat (kernel_size h)" "length (ramdisk_part h data) = unat (ramdisk_size h)"
    "length (second_part h data) = unat (second_size h)"
    using fits assms(3) by (auto simp: kernel_part_def ramdisk_part_def second_part_def image_fits_def)
  have k: "616 \<le> length (blit 0 (kernel_part h data) kf)" using assms(5) l(1) parts(1) by simp
  note n = initramfs_sizes [OF assms(3)]
  have ne: "ramdisk_size h + second_size h \<noteq> 0"
  proof
    assume "ramdisk_size h + second_size h = 0"
    then have "unat (second_size h) = 0" using n by simp
    with assms(4) show False by (simp add: unat_eq_0)
  qed
  have t: "take (max (unat (second_size h)) (unat (ramdisk_size h))) (blit 0 (second_part h data) (blit 0 (ramdisk_part h data) fi)) =
      second_part h data @ drop (unat (second_size h)) (ramdisk_part h data)"
    using l parts by (auto simp: blit_def max_def)
  show ?thesis
    by (rule exI, rule exI, rule exI, rule conjI [OF b]) (use t ne n setup_mem_fields [OF k] in simp)
qed

theorem second_ramdisk_overwrites_witness:
  "\<exists>jump w' b. uefi_avb_boot_kernel zero_pages (sample_slot (boot_sample [8, 9])) None () = Returned (Inr jump, w') \<and>
    ho_initramfs jump = Some b \<and> take 4 b = [8, 9, 3, 4] \<and> unat (load32 (drop 540 (ho_setup jump))) = 6"
proof -
  have sd: "boot_partition (sample_slot (boot_sample [8, 9])) (boot_sample [8, 9])"
    by (rule sample_boot_partition) (simp add: boot_sample_lengths)
  have "sd_cmdline (sample_slot d) = Some (ascii ''root'')" for d by (simp add: sample_slot_def)
  moreover have "kernel_size (sample_boot_hdr [8, 9]) = 1024" "ramdisk_size (sample_boot_hdr [8, 9]) = 4" "second_size (sample_boot_hdr [8, 9]) = 2"
    by (simp_all add: sample_boot_hdr_def)
  moreover have "length (boot_cmdline (ascii ''quiet'') (ascii ''root'') None) < 2 ^ 64" by (simp add: boot_cmdline_def ascii_def)
  ultimately show ?thesis
    using second_ramdisk_overwrites [OF zero_pages_ok sd sample_fits(2) _ _ _ sample_kernel_header(2) sample_cmdline,
        of "ascii ''root''" None "()"] sample_kernel_header(1)
    by (simp add: sample_parts)
qed

text \<open>
  The check of the sizes leaves out the page that the header takes, so an image whose kernel ends
  behind the partition passes it and \<open>uefi_avb_boot_kernel\<close> then copies from behind the loaded data.
\<close>
theorem kernel_end_unchecked:
  assumes "check_boot_image (loaded_partitions sd) = Returned (Some (h, data))"
    and "length data < unat (page_size h) + unat (kernel_size h)"
    and "pages 0x3fffffff (EFI_SIZE_TO_PAGES (ucast (kernel_size h))) w = (Some (addr, fresh), w1)"
  shows "uefi_avb_boot_kernel pages sd extra w = Faulted"
  using assms by (simp add: uefi_avb_boot_kernel_def copy_mem_def slice_def)

theorem kernel_end_unchecked_witness:
  "uefi_avb_boot_kernel zero_pages (sample_slot (BOOT_MAGIC @ [4, 0, 0, 0] @ replicate 24 0 @ [0, 4, 0, 0])) None () = Faulted"
proof (rule kernel_end_unchecked)
  let ?d = "BOOT_MAGIC @ [4, 0, 0, 0] @ replicate 24 0 @ [0, 4, 0, 0]"
  let ?h = "\<lparr>boot_magic = BOOT_MAGIC, kernel_size = 4, ramdisk_size = 0, second_size = 0, page_size = 1024\<rparr>"
  have h: "boot_img_hdr_of_mem ?d = Some ?h" by code_simp
  show "check_boot_image (loaded_partitions (sample_slot ?d)) = Returned (Some (?h, ?d))"
    by (simp add: check_boot_image_def sample_slot_def h [simplified] avb_safe_add_to_def) (simp add: BOOT_MAGIC_def ascii_def)
  show "length ?d < unat (page_size ?h) + unat (kernel_size ?h)" by (simp add: BOOT_MAGIC_def ascii_def)
  show "zero_pages 0x3fffffff (EFI_SIZE_TO_PAGES (ucast (kernel_size ?h))) () =
      (Some (0x1000, octets (unat (EFI_SIZE_TO_PAGES (ucast (kernel_size ?h))) * 4096) 0), ())"
    by (simp add: zero_pages_def)
qed

end
