(* ===== verification/UefiApp.thy ===== *)
theory UefiApp
  imports UefiBoot
begin

text \<open>
  \<open>Application/UefiAvb/main.c\<close> and \<open>uefi_avb_ops_new\<close>: the application from its start to the jump
  into the kernel, with a run of it for the witness.
\<close>

subsection \<open>The application\<close>

text \<open>
  \<open>uefi_avb_ops_new\<close>: \<open>image_ok\<close> says that the application's image has the loaded image protocol,
  \<open>boot_device_path\<close> is the fixed path \<open>BootDevicePath\<close> as the firmware converts it (the device of the
  image is not looked at).  The result of \<open>avb_calloc\<close> is used unchecked.
\<close>

definition uefi_avb_ops_new ::
  "'w alloc \<Rightarrow> (bytes \<Rightarrow> u32) \<Rightarrow> ('w efi_device \<Rightarrow> 'w AvbABOps) \<Rightarrow> bool \<Rightarrow> bytes option \<Rightarrow>
   'w disk_handle list option \<Rightarrow> 'w \<Rightarrow> ('w AvbABOps option \<times> 'w) outcome" where
  "uefi_avb_ops_new A crc make_ops image_ok boot_device_path handles w =
     (case avb_calloc A 160 w of
        (None, w1) \<Rightarrow> Faulted
      | (Some _, w1) \<Rightarrow>
          if \<not> image_ok then Returned (None, w1)
          else (case get_disk_block_io crc boot_device_path handles w1 of
              (None, w2) \<Rightarrow> Returned (None, w2)
            | (Some (dev, path0), w2) \<Rightarrow> Returned (Some (make_ops dev), w2)))"

text \<open>
  \<open>AppendCmdLine\<close>: \<open>text0\<close> is the formatted string, \<open>None\<close> for a \<open>NULL\<close> format; the flag says
  \<open>EFI_SUCCESS\<close>.
\<close>

definition MAX_OEM_CMDLINE_LENGTH :: nat where
  "MAX_OEM_CMDLINE_LENGTH = 0x200"

definition AppendCmdLine :: "bytes option \<Rightarrow> bytes option \<Rightarrow> bool \<times> bytes option" where
  "AppendCmdLine CmdLine text0 = (case (CmdLine, text0) of
     (Some c, Some t) \<Rightarrow> if length c + length t + 1 > MAX_OEM_CMDLINE_LENGTH then (False, Some c) else (True, Some (c @ t))
   | _ \<Rightarrow> (False, CmdLine))"

definition additional_cmdline :: "bytes \<Rightarrow> bytes list" where
  "additional_cmdline suffix0 = [ascii ''skip_initramfs '', ascii ''androidboot.slot='', drop 1 suffix0, ascii '' '',
     ascii ''androidboot.slot_suffix='', suffix0]"

text \<open>
  \<open>UefiMain\<close>: it ends in the kernel (\<open>Inr\<close>), returns \<open>EFI_SUCCESS\<close> (\<open>Inl\<close>) or aborts;
  \<open>avb_fatal\<close> is \<open>Aborted\<close>.  \<open>new_ops\<close> is \<open>uefi_avb_ops_new\<close> for the application's image.
\<close>

definition UefiMain ::
  "('w \<Rightarrow> ('w AvbABOps option \<times> 'w) outcome) \<Rightarrow> 'w pages \<Rightarrow> 'w \<Rightarrow> ((unit + handover) \<times> 'w) outcome" where
  "UefiMain new_ops pages w =
     obind (new_ops w) (\<lambda>(ops, w1). case ops of
       None \<Rightarrow> Aborted
     | Some ab_ops \<Rightarrow>
       (case read_is_device_unlocked (ab_base ab_ops) w1 of ((io_ret, unlocked), w2) \<Rightarrow>
        if io_ret \<noteq> AVB_IO_RESULT_OK then Aborted
        else let flags = (if unlocked then 1 else 0) in
          obind (avb_ab_flow ab_ops [ascii ''boot''] flags AVB_HASHTREE_ERROR_MODE_RESTART_AND_INVALIDATE True w2)
            (\<lambda>((ab_result, data), w3).
            if ab_result = AVB_AB_FLOW_RESULT_OK \<or> ab_result = AVB_AB_FLOW_RESULT_OK_WITH_VERIFICATION_ERROR
            then obind (checked data) (\<lambda>slot_data.
              obind (checked (sd_ab_suffix slot_data)) (\<lambda>suffix0.
              obind (avb_strdupv (ops_malloc (ab_base ab_ops)) (additional_cmdline suffix0) w3) (\<lambda>(additional, w4).
                case additional of None \<Rightarrow> Aborted
                | Some c \<Rightarrow>
                    obind (uefi_avb_boot_kernel pages slot_data (Some c) w4) (\<lambda>(boot_result, w5).
                      case boot_result of Inl _ \<Rightarrow> Aborted
                      | Inr jump \<Rightarrow> Returned (Inr jump, w5)))))
            else Aborted)))"

subsection \<open>A run\<close>

text \<open>The platform of \<open>AvbAb\<close> with a boot image in the boot partitions.\<close>

definition bootable_ops :: "bytes \<Rightarrow> 'w AvbOps" where
  "bootable_ops boot = tolerant_ops\<lparr>
     read_from_partition := \<lambda>name off n w. ((AVB_IO_RESULT_OK, if take 4 name = ascii ''boot'' then boot else unsigned_header), w),
     get_size_of_partition := Some (\<lambda>name w. ((AVB_IO_RESULT_OK, of_nat (length boot)), w))\<rparr>"

lemma sub_guids_bootable: "sub_guids (bootable_ops boot) suf ps ret w = sub_guids tolerant_ops suf ps ret w"
  by (induction ps arbitrary: ret w) (auto simp: bootable_ops_def split: option.split prod.split)

lemma short_cmdline:
  assumes "n < 2"
  shows "\<exists>c. sub_guids tolerant_ops (slot_suffixes ! n) (zip (part_name_str False) replace_str)
     (ascii ''root=PARTUUID=$(ANDROID_SYSTEM_PARTUUID)'') w = (Some c, w) \<and> length c < 100"
proof -
  have "case sub_guids tolerant_ops (slot_suffixes ! n) (zip (part_name_str False) replace_str)
     (ascii ''root=PARTUUID=$(ANDROID_SYSTEM_PARTUUID)'') w of (Some c, w') \<Rightarrow> length c < 100 | _ \<Rightarrow> False" if "n \<in> {0, 1}" for n
    using that by (elim insertE emptyE; hypsubst) code_simp+
  moreover have "snd (sub_guids tolerant_ops (slot_suffixes ! n) (zip (part_name_str False) replace_str)
     (ascii ''root=PARTUUID=$(ANDROID_SYSTEM_PARTUUID)'') w) = w"
    using sub_guids_total [OF slot_names(1) [OF assms]] by (metis snd_conv)
  ultimately show ?thesis using assms by (fastforce simp: less_2_cases_iff split: prod.splits option.splits)
qed

lemma bootable_simps [simp]:
  "ops_malloc (bootable_ops boot) = (\<lambda>n w. (True, w))" "ops_address (bootable_ops boot) w = 4096"
  "ops_stack (bootable_ops boot) w = stack0" "get_preloaded_partition (bootable_ops boot) = None"
  "read_from_partition (bootable_ops boot) nm off n w =
     ((AVB_IO_RESULT_OK, if take 4 nm = ascii ''boot'' then boot else unsigned_header), w)"
  "read_rollback_index (bootable_ops boot) loc w = ((AVB_IO_RESULT_OK, 0), w)"
  "read_is_device_unlocked (bootable_ops boot) w = ((AVB_IO_RESULT_OK, True), w)"
  "get_size_of_partition (bootable_ops boot) = Some (\<lambda>name w. ((AVB_IO_RESULT_OK, of_nat (length boot)), w))"
  by (simp_all add: bootable_ops_def) (simp_all add: tolerant_ops_def)

definition loaded_boot :: "bytes \<Rightarrow> AvbPartitionData list" where
  "loaded_boot boot = [\<lparr>pd_partition_name = Some (ascii ''boot''), pd_data = Some boot,
     pd_data_size = of_nat (length boot), pd_preloaded = False\<rparr>]"

lemma bootable_load:
  assumes "part_name_concat (ascii ''vbmeta'') suf = Some nm" "take 4 nm \<noteq> ascii ''boot''"
    and "part_name_concat (ascii ''boot'') suf = Some nb" "take 4 nb = ascii ''boot''" "length boot < 2 ^ 64"
  shows "load_and_verify_vbmeta 3 (bootable_ops boot) [ascii ''boot''] suf True 0 0 (ascii ''vbmeta'' @ [0]) 6 None 0
     \<lparr>vs_slot = empty_slot_data, vs_alg = Some 0, vs_subst = Some []\<rparr> w =
   Returned ((AVB_SLOT_VERIFY_RESULT_ERROR_VERIFICATION,
     \<lparr>vs_slot = unsigned_slot\<lparr>loaded_partitions := loaded_boot boot\<rparr>, vs_alg = Some 0, vs_subst = Some []\<rparr>), w)"
proof -
  have names: "avb_strcmp_eq (ascii ''vbmeta'' @ [0]) (ascii ''vbmeta'') = Some True"
    "slice 0 6 (ascii ''vbmeta'' @ [0]) = Some (ascii ''vbmeta'')" "avb_validate_utf8 (ascii ''vbmeta'')"
    "c_read (ascii ''vbmeta'' @ [0]) = Some (ascii ''vbmeta'')"
    by code_simp+
  have "load_full_partition (bootable_ops boot) nb (of_nat (length boot)) None False w =
      Returned ((AVB_SLOT_VERIFY_RESULT_OK, Some boot, False), w)" for w :: 'a
    using assms(4,5) by (simp add: load_full_partition_def avb_malloc_def io_failure_def small_word)
  then have "verify_loaded_vbmeta rec (bootable_ops boot) [ascii ''boot''] suf True 0 0 (ascii ''vbmeta'' @ [0]) None 0 unsigned_header
     \<lparr>vs_slot = empty_slot_data, vs_alg = Some 0, vs_subst = Some []\<rparr> w =
   Returned ((AVB_SLOT_VERIFY_RESULT_ERROR_VERIFICATION,
     \<lparr>vs_slot = unsigned_slot\<lparr>loaded_partitions := loaded_boot boot\<rparr>, vs_alg = Some 0, vs_subst = Some []\<rparr>), w)" for rec
    using assms(3)
    by (simp add: verify_loaded_vbmeta_def unsigned_verifies vbmeta_verdict_def unsigned_decoded check_public_key_def
        check_rollback_index_def io_failure_def keep_vbmeta_image_def names avb_strdup_def avb_malloc_def
        MAX_NUMBER_OF_VBMETA_IMAGES_def MAX_NUMBER_OF_LOADED_PARTITIONS_def load_requested_partitions_def
        empty_slot_data_def unsigned_vbmeta_def unsigned_slot_def loaded_boot_def)
  with assms(2) show ?thesis
    by (simp add: numeral_3_eq_3 load_and_verify_vbmeta_body_def names assms(1) locate_vbmeta_def avb_malloc_def
        VBMETA_MAX_SIZE_def unsigned_parts)
qed

definition booted_data :: "bytes \<Rightarrow> nat \<Rightarrow> AvbSlotVerifyData \<Rightarrow> bool" where
  "booted_data boot n d \<longleftrightarrow> loaded_partitions d = loaded_boot boot \<and> sd_ab_suffix d = Some (slot_suffixes ! n) \<and>
     (\<exists>c. sd_cmdline d = Some c \<and> length c < 100)"

lemma bootable_names:
  assumes "n < 2"
  shows "\<exists>nm. part_name_concat (ascii ''vbmeta'') (slot_suffixes ! n) = Some nm \<and> take 4 nm \<noteq> ascii ''boot''"
    "\<exists>nb. part_name_concat (ascii ''boot'') (slot_suffixes ! n) = Some nb \<and> take 4 nb = ascii ''boot''"
proof -
  have "\<forall>n \<in> {0, 1}. case part_name_concat (ascii ''vbmeta'') (slot_suffixes ! n) of Some nm \<Rightarrow> take 4 nm \<noteq> ascii ''boot'' | None \<Rightarrow> False"
    "\<forall>n \<in> {0, 1}. case part_name_concat (ascii ''boot'') (slot_suffixes ! n) of Some nm \<Rightarrow> take 4 nm = ascii ''boot'' | None \<Rightarrow> False"
    by code_simp+
  with assms show "\<exists>nm. part_name_concat (ascii ''vbmeta'') (slot_suffixes ! n) = Some nm \<and> take 4 nm \<noteq> ascii ''boot''"
    "\<exists>nb. part_name_concat (ascii ''boot'') (slot_suffixes ! n) = Some nb \<and> take 4 nb = ascii ''boot''"
    by (auto simp: less_2_cases_iff split: option.splits)
qed

lemma bootable_verifies:
  assumes "length boot < 2 ^ 64"
  shows "verifies_both (bootable_ops boot) [ascii ''boot''] AVB_HASHTREE_ERROR_MODE_RESTART_AND_INVALIDATE (booted_data boot)"
  unfolding verifies_both_def
proof (intro allI impI)
  fix n and w :: 'a
  assume n: "n < (2 :: nat)"
  let ?suf = "slot_suffixes ! n" and ?sd = "unsigned_slot\<lparr>loaded_partitions := loaded_boot boot\<rparr>"
  obtain c where c: "sub_guids (bootable_ops boot) ?suf (zip (part_name_str False) replace_str)
     (ascii ''root=PARTUUID=$(ANDROID_SYSTEM_PARTUUID)'') w = (Some c, w)" "length c < 100"
    by (rule exE [OF short_cmdline [OF n, of w]]) (elim conjE, rule that, simp only: sub_guids_bootable)
  have al: "allocations (\<lambda>n w. (True, w)) ns w = (True, w)" for ns and w :: 'a
    by (induction ns) (simp_all add: avb_calloc_def avb_malloc_def)
  have ne: "ascii ''vbmeta'' \<noteq> ascii ''boot''" by (simp add: ascii_def)
  obtain nm nb where nm: "part_name_concat (ascii ''vbmeta'') ?suf = Some nm" "take 4 nm \<noteq> ascii ''boot''"
    and nb: "part_name_concat (ascii ''boot'') ?suf = Some nb" "take 4 nb = ascii ''boot''"
    using bootable_names [OF n] by blast
  note load = bootable_load [OF nm nb assms]
  have "mangle_cmdline (bootable_ops boot) ?suf AVB_HASHTREE_ERROR_MODE_RESTART_AND_INVALIDATE 0 (Some []) ?sd w =
    Returned (Inr (?sd\<lparr>sd_ab_suffix := Some ?suf, sd_cmdline := Some c\<rparr>), w)"
    using ne c(1) by (simp add: mangle_cmdline_def unsigned_decoded avb_strdup_def avb_malloc_def avb_sub_cmdline_def
        unsigned_vbmeta_def empty_slot_data_def unsigned_slot_def)
  then have v: "avb_slot_verify (bootable_ops boot) [ascii ''boot''] ?suf 1 AVB_HASHTREE_ERROR_MODE_RESTART_AND_INVALIDATE True w =
     Returned ((AVB_SLOT_VERIFY_RESULT_ERROR_VERIFICATION, Some (?sd\<lparr>sd_ab_suffix := Some ?suf, sd_cmdline := Some c\<rparr>)), w)"
    by (simp add: avb_slot_verify_def al load result_should_continue_def del: load_and_verify_vbmeta.simps)
  show "\<exists>d. avb_slot_verify (bootable_ops boot) [ascii ''boot''] ?suf 1 AVB_HASHTREE_ERROR_MODE_RESTART_AND_INVALIDATE True w =
     Returned ((AVB_SLOT_VERIFY_RESULT_ERROR_VERIFICATION, Some d), w) \<and> booted_data boot n d \<and> rollback_indexes d = replicate 32 0"
    by (rule exI, rule conjI [OF v]) (simp add: booted_data_def c(2) unsigned_slot_def empty_slot_data_def)
qed

lemma booted_slot:
  assumes "booted_data (boot_sample []) n d" "length extra < 100"
  shows "\<exists>jump w'. uefi_avb_boot_kernel zero_pages d (Some extra) w = Returned (Inr jump, w')"
proof -
  from assms(1) obtain c where d: "loaded_partitions d = loaded_boot (boot_sample [])" "sd_cmdline d = Some c" "length c < 100"
    by (auto simp: booted_data_def)
  have bp: "boot_partition d (boot_sample [])"
    using d(1) by (simp add: boot_partition_def loaded_boot_def small_word boot_sample_lengths)
  have l: "length (boot_cmdline (ascii ''quiet'') c (Some extra)) < 2 ^ 64"
    using d(3) assms(2) by (cases extra) (simp_all add: boot_cmdline_def ascii_def)
  have k: "kernel_size (sample_boot_hdr []) = 1024" by (simp add: sample_boot_hdr_def)
  have s: "SetupHeader_of_mem (kernel_part (sample_boot_hdr []) (boot_sample [])) = Some sample_setup"
    by (simp add: sample_parts sample_kernel_header)
  have "616 \<le> unat (kernel_size (sample_boot_hdr []))" by (simp add: k)
  from boot_layout [OF zero_pages_ok bp sample_fits(1) this s sample_kernel_header(2) sample_cmdline d(2) l, of w]
  show ?thesis by blast
qed

subsection \<open>Properties\<close>

text \<open>
  C7: \<open>UefiMain\<close> never returns: it aborts or ends in a kernel.  The kernel comes from the slot that
  \<open>avb_ab_flow\<close> selected, and the flow was told to allow verification errors exactly when the
  platform says that the device is unlocked (the UEFI platform always does).
\<close>
theorem main_boots_selected_slot:
  assumes "UefiMain new_ops pages w = Returned (r, w')"
  shows "\<exists>ab_ops w1 unlocked w2 res data w3 extra w4 jump. new_ops w = Returned (Some ab_ops, w1) \<and>
    read_is_device_unlocked (ab_base ab_ops) w1 = ((AVB_IO_RESULT_OK, unlocked), w2) \<and>
    avb_ab_flow ab_ops [ascii ''boot''] (if unlocked then 1 else 0) AVB_HASHTREE_ERROR_MODE_RESTART_AND_INVALIDATE True w2 =
      Returned ((res, Some data), w3) \<and>
    res \<in> {AVB_AB_FLOW_RESULT_OK, AVB_AB_FLOW_RESULT_OK_WITH_VERIFICATION_ERROR} \<and>
    uefi_avb_boot_kernel pages data (Some extra) w4 = Returned (Inr jump, w') \<and> r = Inr jump"
proof -
  obtain ops w1 where n: "new_ops w = Returned (ops, w1)" using assms by (auto simp: UefiMain_def obind_Returned_iff)
  obtain io un w2 where u0: "read_is_device_unlocked (ab_base (the ops)) w1 = ((io, un), w2)" by (metis surj_pair)
  from assms n obtain ab_ops where o: "ops = Some ab_ops" by (cases ops) (auto simp: UefiMain_def)
  with u0 assms n have u: "read_is_device_unlocked (ab_base ab_ops) w1 = ((AVB_IO_RESULT_OK, un), w2)"
    by (auto simp: UefiMain_def split: if_splits)
  from assms n o u obtain res d w3 where f: "avb_ab_flow ab_ops [ascii ''boot''] (if un then 1 else 0)
      AVB_HASHTREE_ERROR_MODE_RESTART_AND_INVALIDATE True w2 = Returned ((res, d), w3)"
    by (auto simp: UefiMain_def obind_Returned_iff Let_def split: if_splits)
  with assms n o u have ok: "res = AVB_AB_FLOW_RESULT_OK \<or> res = AVB_AB_FLOW_RESULT_OK_WITH_VERIFICATION_ERROR"
    by (simp add: UefiMain_def Let_def split: if_splits)
  let ?tail = "\<lambda>slot_data suffix0. obind (avb_strdupv (ops_malloc (ab_base ab_ops)) (additional_cmdline suffix0) w3) (\<lambda>(additional, w4).
      case additional of None \<Rightarrow> Aborted
      | Some c \<Rightarrow> obind (uefi_avb_boot_kernel pages slot_data (Some c) w4) (\<lambda>(boot_result, w5).
          case boot_result of Inl _ \<Rightarrow> Aborted | Inr jump \<Rightarrow> Returned (Inr jump, w5)))"
  from assms n o u f ok have t: "obind (checked d) (\<lambda>sd. obind (checked (sd_ab_suffix sd)) (?tail sd)) = Returned (r, w')"
    by (simp add: UefiMain_def Let_def split: if_splits)
  then obtain data where d: "d = Some data" by (cases d) auto
  with t obtain s where s: "sd_ab_suffix data = Some s" by (cases "sd_ab_suffix data") auto
  from t d s obtain a w4 where a: "avb_strdupv (ops_malloc (ab_base ab_ops)) (additional_cmdline s) w3 = Returned (a, w4)"
    by (auto simp: obind_Returned_iff)
  with t d s obtain c where c: "a = Some c" by (cases a) auto
  from t d s a c obtain b w5 where b: "uefi_avb_boot_kernel pages data (Some c) w4 = Returned (b, w5)"
    by (auto simp: obind_Returned_iff)
  with t d s a c obtain jump where j: "b = Inr jump" "w5 = w'" "r = Inr jump" by (cases b) auto
  show ?thesis
    using n o u f ok d b j
    by (intro exI [of _ ab_ops] exI [of _ w1] exI [of _ un] exI [of _ w2] exI [of _ res] exI [of _ data]
        exI [of _ w3] exI [of _ c] exI [of _ w4] exI [of _ jump]) simp
qed

theorem main_boots_selected_slot_witness:
  "\<exists>jump w'. UefiMain (\<lambda>w. Returned (Some (slots_store\<lparr>ab_base := bootable_ops (boot_sample [])\<rparr>), w)) zero_pages
     [slot_of 15 7 0, slot_of 14 0 1] = Returned (Inr jump, w') \<and>
   (\<exists>res data w3. avb_ab_flow (slots_store\<lparr>ab_base := bootable_ops (boot_sample [])\<rparr>) [ascii ''boot''] 1
      AVB_HASHTREE_ERROR_MODE_RESTART_AND_INVALIDATE True [slot_of 15 7 0, slot_of 14 0 1] = Returned ((res, Some data), w3))"
proof -
  let ?ops = "slots_store\<lparr>ab_base := bootable_ops (boot_sample [])\<rparr>" and ?w = "[slot_of 15 7 0, slot_of 14 0 1]"
  have s: "select_slot (avb_ab_data_init\<lparr>slots := [slot_normalize (slot_of 15 7 0), slot_normalize (slot_of 14 0 1)]\<rparr>) = Some 0"
    by code_simp
  have len: "length (boot_sample []) < 2 ^ 64" by (simp add: boot_sample_lengths)
  from sample_flow [OF s bootable_verifies [OF len]] obtain data w1 where
    f: "avb_ab_flow ?ops [ascii ''boot''] 1 AVB_HASHTREE_ERROR_MODE_RESTART_AND_INVALIDATE True ?w =
       Returned ((AVB_AB_FLOW_RESULT_OK_WITH_VERIFICATION_ERROR, Some data), w1)"
    and d: "booted_data (boot_sample []) 0 data" by blast
  let ?extra = "concat (additional_cmdline (slot_suffixes ! 0))"
  have e: "length ?extra < 100" by code_simp
  have "strdupv_measure 0 0 (additional_cmdline (slot_suffixes ! 0)) = Returned 60" by code_simp
  then have x: "avb_strdupv (\<lambda>n w. (True, w)) (additional_cmdline (slot_suffixes ! 0)) w1 = Returned (Some ?extra, w1)"
    by (auto simp: avb_strdupv_def avb_malloc_def)
  obtain jump w' where j: "uefi_avb_boot_kernel zero_pages data (Some ?extra) w1 = Returned (Inr jump, w')"
    by (rule exE [OF booted_slot [OF d e, of w1]]) (elim exE, rule that)
  have suf: "sd_ab_suffix data = Some (slot_suffixes ! 0)" using d by (simp add: booted_data_def)
  have m: "UefiMain (\<lambda>w. Returned (Some ?ops, w)) zero_pages ?w = Returned (Inr jump, w')"
    by (simp add: UefiMain_def f suf x j)
  from main_boots_selected_slot [OF m] have "\<exists>res data w3. avb_ab_flow ?ops [ascii ''boot''] 1
      AVB_HASHTREE_ERROR_MODE_RESTART_AND_INVALIDATE True ?w = Returned ((res, Some data), w3)" by auto
  with m show ?thesis by blast
qed

end
