(* ===== verification/UefiText.thy ===== *)
theory UefiText
  imports UefiDisk
begin

text \<open>
  The two text conversions of the UEFI platform: UTF-8 partition names to the UCS-2 names of the
  partition table, and the text of a GUID.
\<close>

subsection \<open>UTF-8 to UCS-2\<close>

text \<open>The UTF-8 encoding of a character of the basic plane.\<close>

definition utf8_encode :: "u16 \<Rightarrow> bytes" where
  "utf8_encode u =
     (if u < 0x80 then [ucast u]
      else if u < 0x800 then [0xC0 OR ucast (drop_bit 6 u), 0x80 OR ucast (u AND 0x3F)]
      else [0xE0 OR ucast (drop_bit 12 u), 0x80 OR (ucast (drop_bit 6 u) AND 0x3F), 0x80 OR ucast (u AND 0x3F)])"

definition utf8_of_units :: "u16 list \<Rightarrow> bytes" where
  "utf8_of_units us = concat (map utf8_encode us)"

lemma less_16: "n < LENGTH(16) \<Longrightarrow> n \<in> {0, 1, 2, 3, 4, 5, 6, 7, 8, 9, 10, 11, 12, 13, 14, 15}"
  by simp presburger

lemma less_8: "n < LENGTH(8) \<Longrightarrow> n \<in> {0, 1, 2, 3, 4, 5, 6, 7}"
  by simp presburger

lemmas word_bits = bit_or_iff bit_and_iff bit_push_bit_iff bit_unsigned_iff bit_drop_bit_eq comp_def

lemma word16_eqI:
  assumes "\<And>n. n \<in> {0, 1, 2, 3, 4, 5, 6, 7, 8, 9, 10, 11, 12, 13, 14, 15} \<Longrightarrow> bit (a :: u16) n = bit b n"
  shows "a = b"
proof (rule bit_word_eqI)
  fix n assume "n < LENGTH(16)"
  from less_16 [OF this] show "bit a n = bit b n" by (intro assms) simp
qed

lemma word8_eqI:
  assumes "\<And>n. n \<in> {0, 1, 2, 3, 4, 5, 6, 7} \<Longrightarrow> bit (a :: u8) n = bit b n"
  shows "a = b"
proof (rule bit_word_eqI)
  fix n assume "n < LENGTH(8)"
  from less_8 [OF this] show "bit a n = bit b n" by (intro assms) simp
qed

lemma high_bits_zero:
  assumes "unat (u :: 'a::len word) < 2 ^ k" "k \<le> n"
  shows "\<not> bit u n"
proof -
  have "unat (drop_bit k u) = 0" using assms(1) by (simp add: unat_drop_bit)
  then have "drop_bit k u = 0" by (simp add: unat_eq_0)
  then have "\<not> bit (drop_bit k u) (n - k)" by simp
  with assms(2) show ?thesis by (simp add: bit_drop_bit_eq)
qed

lemma neq_bit: "bit (a :: 'a::len word) n \<noteq> bit b n \<Longrightarrow> a \<noteq> b"
  by auto

lemma decode_three:
  "push_bit 12 (ucast (0xE0 OR ucast (drop_bit 12 u) :: u8)) OR
     (push_bit 6 (ucast (0x80 OR (ucast (drop_bit 6 u) AND 0x3F) :: u8)) AND 0x0FC0) OR
     (ucast (0x80 OR ucast (u AND 0x3F) :: u8) AND 0x003F) = (u :: u16)"
  by (rule word16_eqI) (elim insertE emptyE; simp add: word_bits)

lemma lead_three:
  "(0xE0 OR ucast (drop_bit 12 (u :: u16)) :: u8) AND 0xF8 \<noteq> 0xF0"
  "(0xE0 OR ucast (drop_bit 12 (u :: u16)) :: u8) AND 0xF0 = 0xE0"
proof -
  have top: "\<not> bit u 16" by (auto dest: bit_imp_le_length)
  show "(0xE0 OR ucast (drop_bit 12 (u :: u16)) :: u8) AND 0xF8 \<noteq> 0xF0"
    using top by (intro neq_bit [where n = 4]) (simp add: word_bits)
  show "(0xE0 OR ucast (drop_bit 12 (u :: u16)) :: u8) AND 0xF0 = 0xE0"
    by (rule word8_eqI) (elim insertE emptyE; simp add: word_bits top)
qed

lemma two_bytes:
  assumes "(u :: u16) < 0x800"
  shows "(push_bit 6 (ucast (0xC0 OR ucast (drop_bit 6 u) :: u8)) AND 0x07C0) OR
     (ucast (0x80 OR ucast (u AND 0x3F) :: u8) AND 0x003F) = u"
    "(0xC0 OR ucast (drop_bit 6 u) :: u8) AND 0xF8 \<noteq> 0xF0"
    "(0xC0 OR ucast (drop_bit 6 u) :: u8) AND 0xF0 \<noteq> 0xE0"
    "(0xC0 OR ucast (drop_bit 6 u) :: u8) AND 0xE0 = 0xC0"
proof -
  have z: "\<not> bit u n" if "11 \<le> n" for n
    using assms that by (intro high_bits_zero [of u 11]) (simp_all add: word_less_nat_alt)
  show "(push_bit 6 (ucast (0xC0 OR ucast (drop_bit 6 u) :: u8)) AND 0x07C0) OR
     (ucast (0x80 OR ucast (u AND 0x3F) :: u8) AND 0x003F) = u"
    by (rule word16_eqI) (elim insertE emptyE; simp add: word_bits z)
  show "(0xC0 OR ucast (drop_bit 6 u) :: u8) AND 0xF8 \<noteq> 0xF0"
    "(0xC0 OR ucast (drop_bit 6 u) :: u8) AND 0xF0 \<noteq> 0xE0"
    by (rule neq_bit [where n = 5], simp add: word_bits z)+
  show "(0xC0 OR ucast (drop_bit 6 u) :: u8) AND 0xE0 = 0xC0"
    by (rule word8_eqI) (elim insertE emptyE; simp add: word_bits z)
qed

lemma one_byte:
  assumes "(u :: u16) < 0x80"
  shows "ucast (ucast u :: u8) AND 0x00FF = u" "(ucast u :: u8) AND 0xF8 \<noteq> 0xF0" "(ucast u :: u8) AND 0xF0 \<noteq> 0xE0"
    "(ucast u :: u8) AND 0xE0 \<noteq> 0xC0" "drop_bit 7 (ucast u :: u8) = 0"
proof -
  have z: "\<not> bit u n" if "7 \<le> n" for n
    using assms that by (intro high_bits_zero [of u 7]) (simp_all add: word_less_nat_alt)
  show "ucast (ucast u :: u8) AND 0x00FF = u"
    by (rule word16_eqI) (elim insertE emptyE; simp add: word_bits z)
  show "(ucast u :: u8) AND 0xF8 \<noteq> 0xF0" "(ucast u :: u8) AND 0xF0 \<noteq> 0xE0" "(ucast u :: u8) AND 0xE0 \<noteq> 0xC0"
    by (rule neq_bit [where n = 7], simp add: word_bits z)+
  show "drop_bit 7 (ucast u :: u8) = 0"
    by (rule word8_eqI) (elim insertE emptyE; simp add: word_bits z)
qed

lemma ucs2_char_encode: "ucs2_char (utf8_encode u @ rest) = Returned (Some (u, length (utf8_encode u)))"
proof -
  consider "u < 0x80" | "\<not> u < 0x80" "u < 0x800" | "\<not> u < 0x80" "\<not> u < 0x800" by blast
  then show ?thesis
  proof cases
    case 1
    then show ?thesis using one_byte [OF 1] by (simp add: utf8_encode_def ucs2_char_def)
  next
    case 2
    then show ?thesis using two_bytes [OF 2(2)] by (simp add: utf8_encode_def ucs2_char_def)
  next
    case 3
    then show ?thesis using decode_three lead_three by (simp add: utf8_encode_def ucs2_char_def)
  qed
qed

lemma utf8_encode_pos: "0 < length (utf8_encode u)"
  by (simp add: utf8_encode_def)

lemma utf8_of_units_length: "length us \<le> length (utf8_of_units us)"
proof (induction us)
  case (Cons u us)
  then show ?case using utf8_encode_pos [of u]
    unfolding utf8_of_units_def list.map concat.simps length_append list.size by linarith
qed (simp add: utf8_of_units_def)

lemma ucs2_loop_text:
  "us \<noteq> [] \<Longrightarrow> length out + length us \<le> n \<Longrightarrow>
     ucs2_loop (2 * (n + 1)) (length (utf8_of_units us)) (utf8_of_units us @ rest) out = Returned (Some (out @ us))"
proof (induction us arbitrary: out)
  case (Cons u us)
  have e: "utf8_of_units (u # us) = utf8_encode u @ utf8_of_units us" by (simp add: utf8_of_units_def)
  show ?case
  proof (cases "us = []")
    case True
    then show ?thesis using Cons.prems
      by (subst ucs2_loop.simps) (simp add: e ucs2_char_encode utf8_of_units_def)
  next
    case False
    then have "0 < length (utf8_of_units us)" using utf8_of_units_length [of us] by (cases us) auto
    with Cons.IH [OF False, of "out @ [u]"] Cons.prems show ?thesis
      by (subst ucs2_loop.simps) (simp add: e ucs2_char_encode)
  qed
qed simp

lemma ucs2_of_utf8:
  assumes "us \<noteq> []"
  shows "uefi_avb_utf8_to_ucs2 (utf8_of_units us @ [0]) (length (utf8_of_units us)) (2 * (length (utf8_of_units us) + 1)) = Returned (Some us)"
  using ucs2_loop_text [of us "[]" "length (utf8_of_units us)" "[0]"] utf8_of_units_length [of us] assms
  by (simp add: uefi_avb_utf8_to_ucs2_def)

subsection \<open>GUIDs\<close>

lemma set_hex_inject: "set_hex a = set_hex b \<longleftrightarrow> a = b"
proof
  assume eq: "set_hex a = set_hex b"
  have d: "distinct hex_digits" "length hex_digits = 16" by code_simp+
  have hi: "unat (drop_bit 4 v) < 16" "unat (v AND 0x0f) < 16" for v :: u8
  proof -
    show "unat (drop_bit 4 v) < 16" using unat_byte_bound [of v] by (simp add: unat_drop_bit less_mult_imp_div_less)
    have "v AND 0x0f \<le> 0x0f" by (rule word_and_le1)
    then show "unat (v AND 0x0f) < 16" by (simp add: word_le_nat_alt)
  qed
  from eq have "hex_digits ! unat (drop_bit 4 a) = hex_digits ! unat (drop_bit 4 b)"
    "hex_digits ! unat (a AND 0x0f) = hex_digits ! unat (b AND 0x0f)" by (simp_all add: set_hex_def)
  then have "drop_bit 4 a = drop_bit 4 b" and low: "a AND 0x0f = b AND 0x0f"
    using nth_eq_iff_index_eq [OF d(1)] hi d(2) by (simp_all add: word_unat_eq_iff)
  then have high: "bit a (4 + n) = bit b (4 + n)" for n by (metis bit_drop_bit_eq comp_apply)
  have "bit a n = bit b n" if "n < 4" for n
  proof -
    have "bit (a AND 0x0f) n = bit (b AND 0x0f) n" by (simp only: low)
    moreover have "bit (0x0f :: u8) n" using that by (auto simp: less_Suc_eq numeral_eq_Suc)
    ultimately show ?thesis by (simp add: bit_and_iff)
  qed
  then show "a = b" using high by (intro bit_word_eqI) (metis le_add_diff_inverse not_less)
qed simp

lemma set_hex_length: "length (set_hex v) = 2"
  by (simp add: set_hex_def)

lemma guid_text_inject:
  assumes "length g = 16" "length h = 16" "guid_text g = guid_text h"
  shows "g = h"
proof -
  have c: "set_hex a @ xs = set_hex b @ ys \<longleftrightarrow> a = b \<and> xs = ys" for a b xs ys
    using set_hex_length by (simp add: set_hex_inject)
  have dash: "ascii ''-'' @ xs = ascii ''-'' @ ys \<longleftrightarrow> xs = ys" for xs ys by simp
  from assms(3) have "\<forall>i \<in> {0, 1, 2, 3, 4, 5, 6, 7, 8, 9, 10, 11, 12, 13, 14, 15}. g ! i = h ! i"
    unfolding guid_text_def c dash append_assoc set_hex_inject by simp
  with assms(1,2) show ?thesis by (intro nth_equalityI) (simp, use less_16 in force)
qed

subsection \<open>Properties\<close>

text \<open>
  C38: a partition name whose characters are in the basic plane is converted without loss: the UTF-8
  encoding of the code units, as libavb passes it, gives back the units, and the buffer that
  \<open>find_partition_entry_by_name\<close> allocates is large enough.
\<close>
theorem partition_name_round_trip:
  assumes "us \<noteq> []"
  shows "uefi_avb_utf8_to_ucs2 (utf8_of_units us @ [0]) (length (utf8_of_units us))
     (2 * (length (utf8_of_units us) + 1)) = Returned (Some us)"
  using assms by (rule ucs2_of_utf8)

theorem partition_name_round_trip_witness:
  "uefi_avb_utf8_to_ucs2 ([0x62, 0xC3, 0xB6, 0xE2, 0x82, 0xAC] @ [0]) 6 14 = Returned (Some [0x62, 0xF6, 0x20AC])"
proof -
  have "utf8_of_units [0x62, 0xF6, 0x20AC] = [0x62, 0xC3, 0xB6, 0xE2, 0x82, 0xAC]" by code_simp
  with partition_name_round_trip [of "[0x62, 0xF6, 0x20AC]"] show ?thesis by (simp add: eval_nat_numeral)
qed

text \<open>The text of a partition's GUID identifies it: different GUIDs have different texts.\<close>
theorem guid_text_identifies:
  assumes "length g = 16" and "length h = 16" and "guid_text g = guid_text h"
  shows "g = h"
  using assms by (rule guid_text_inject)

theorem guid_text_identifies_witness: "replicate 16 7 = replicate 16 (7 :: u8)"
  by (rule guid_text_identifies) simp_all

end
