(* ===== verification/EfiBase.thy ===== *)
theory EfiBase
  imports AvbUtil
begin

text \<open>
  What the UEFI applications and drivers share: the status codes of the UEFI specification as
  64 bit integers, strings of 16 bit characters, and the string and memory routines of the EDK II
  base library the sources call (\<open>StrLen\<close>, \<open>StrSize\<close>, \<open>StrCmp\<close>, \<open>CopyMem\<close>),
  which play the part of the C standard library here.

  A string is the list of its characters before the terminator.  A pointer into a string is the
  rest of the string from there, so the terminator is the empty list.
\<close>

type_synonym EFI_STATUS = u64
type_synonym ustring = "u16 list"

abbreviation MAX_BIT :: u64 where "MAX_BIT \<equiv> 0x8000000000000000"
abbreviation EFI_SUCCESS :: EFI_STATUS where "EFI_SUCCESS \<equiv> 0"
abbreviation EFI_INVALID_PARAMETER :: EFI_STATUS where "EFI_INVALID_PARAMETER \<equiv> 0x8000000000000002"
abbreviation EFI_UNSUPPORTED :: EFI_STATUS where "EFI_UNSUPPORTED \<equiv> 0x8000000000000003"
abbreviation EFI_BUFFER_TOO_SMALL :: EFI_STATUS where "EFI_BUFFER_TOO_SMALL \<equiv> 0x8000000000000005"
abbreviation EFI_NOT_READY :: EFI_STATUS where "EFI_NOT_READY \<equiv> 0x8000000000000006"
abbreviation EFI_DEVICE_ERROR :: EFI_STATUS where "EFI_DEVICE_ERROR \<equiv> 0x8000000000000007"
abbreviation EFI_WRITE_PROTECTED :: EFI_STATUS where "EFI_WRITE_PROTECTED \<equiv> 0x8000000000000008"
abbreviation EFI_OUT_OF_RESOURCES :: EFI_STATUS where "EFI_OUT_OF_RESOURCES \<equiv> 0x8000000000000009"
abbreviation EFI_VOLUME_CORRUPTED :: EFI_STATUS where "EFI_VOLUME_CORRUPTED \<equiv> 0x800000000000000A"
abbreviation EFI_BAD_BUFFER_SIZE :: EFI_STATUS where "EFI_BAD_BUFFER_SIZE \<equiv> 0x8000000000000004"
abbreviation EFI_VOLUME_FULL :: EFI_STATUS where "EFI_VOLUME_FULL \<equiv> 0x800000000000000B"
abbreviation EFI_NOT_FOUND :: EFI_STATUS where "EFI_NOT_FOUND \<equiv> 0x800000000000000E"
abbreviation EFI_ALREADY_STARTED :: EFI_STATUS where "EFI_ALREADY_STARTED \<equiv> 0x8000000000000014"

definition EFI_ERROR :: "EFI_STATUS \<Rightarrow> bool" where
  "EFI_ERROR s \<longleftrightarrow> s \<ge> MAX_BIT"

definition wide :: "string \<Rightarrow> ustring" where
  "wide s = map of_char s"

definition StrSize :: "ustring \<Rightarrow> nat" where
  "StrSize s = 2 * (length s + 1)"

text \<open>The characters are compared up to the first difference or up to the length given.\<close>

definition StrnCmp_eq :: "ustring \<Rightarrow> ustring \<Rightarrow> nat \<Rightarrow> bool" where
  "StrnCmp_eq s t n \<longleftrightarrow> take n s = take n t"

definition is_ustring :: "ustring \<Rightarrow> bool" where
  "is_ustring s \<longleftrightarrow> 0 \<notin> set s"

lemma is_ustring_simps [simp]:
  "is_ustring []" "is_ustring (c # s) \<longleftrightarrow> c \<noteq> 0 \<and> is_ustring s"
  "is_ustring (s @ t) \<longleftrightarrow> is_ustring s \<and> is_ustring t"
  by (auto simp: is_ustring_def)

lemma efi_error_simps [simp]:
  "\<not> EFI_ERROR EFI_SUCCESS" "EFI_ERROR EFI_INVALID_PARAMETER" "EFI_ERROR EFI_NOT_FOUND"
  "EFI_ERROR EFI_OUT_OF_RESOURCES" "EFI_ERROR EFI_DEVICE_ERROR" "EFI_ERROR EFI_VOLUME_CORRUPTED"
  "EFI_ERROR EFI_NOT_READY" "EFI_ERROR EFI_UNSUPPORTED" "EFI_ERROR EFI_BUFFER_TOO_SMALL"
  "EFI_ERROR EFI_ALREADY_STARTED" "EFI_ERROR EFI_WRITE_PROTECTED" "EFI_ERROR EFI_BAD_BUFFER_SIZE"
  "EFI_ERROR EFI_VOLUME_FULL"
  by (simp_all add: EFI_ERROR_def)

end
