(* ===== verification/ConsoleText.thy ===== *)
theory ConsoleText
  imports EfiBase
begin

text \<open>
  The splitting of a command line into parameters: \<open>TrimSpaces\<close> and \<open>FindFirstCharacter\<close> of
  UefiConsole.c, and \<open>FindEndOfParameter\<close>, \<open>GetNextParameter\<close>,
  \<open>ParseCommandLineToArgs\<close>, \<open>UpdateArgcArgv\<close> and \<open>RestoreArgcArgv\<close> of
  ConsoleParameters.c.  Parameters are separated by spaces, quotes keep the spaces between them,
  and \<open>^\<close> takes the meaning from the character after it.

  Strings are shorter than \<open>2^32\<close> characters, the range of the loop counters.  The allocations
  are the parameter \<open>A\<close> as in libavb; freeing is not modelled.
\<close>

subsection \<open>Searching and trimming\<close>

definition blank :: "u16 \<Rightarrow> bool" where
  "blank c \<longleftrightarrow> c = 0x20 \<or> c = 0x09"

definition TrimSpaces :: "ustring \<Rightarrow> ustring" where
  "TrimSpaces s = rev (dropWhile blank (rev (dropWhile blank s)))"

text \<open>The rest of the string from the first character of the list, after an escape skipping one more.\<close>

function FindFirstCharacter :: "ustring \<Rightarrow> ustring \<Rightarrow> u16 \<Rightarrow> ustring" where
  "FindFirstCharacter [] cs esc = []"
| "FindFirstCharacter (c # s) cs esc =
     (if c = esc then FindFirstCharacter (drop 1 s) cs esc
      else if c \<in> set cs then c # s
      else FindFirstCharacter s cs esc)"
  by pat_completeness auto
termination by (relation "measure (length \<circ> fst)") auto

lemma FindFirstCharacter_suffix: "\<exists>pre. s = pre @ FindFirstCharacter s cs esc"
proof (induction s cs esc rule: FindFirstCharacter.induct)
  case (2 c s cs esc)
  show ?case
  proof (cases "c = esc")
    case True
    with 2(1) obtain pre where "drop 1 s = pre @ FindFirstCharacter (drop 1 s) cs esc" by blast
    with True have "c # s = (c # take 1 s @ pre) @ FindFirstCharacter (c # s) cs esc"
      by (metis append_Cons append_assoc append_take_drop_id FindFirstCharacter.simps(2))
    then show ?thesis by blast
  next
    case False
    with 2(2) show ?thesis by (auto simp: Cons_eq_append_conv)
  qed
qed simp

lemma FindFirstCharacter_length: "length (FindFirstCharacter s cs esc) \<le> length s"
  using FindFirstCharacter_suffix [of s cs esc] by (metis length_append le_add2)

lemma FindFirstCharacter_hd:
  "FindFirstCharacter s cs esc = c # r \<Longrightarrow> c \<in> set cs"
  by (induction s cs esc rule: FindFirstCharacter.induct) (auto split: if_splits)

subsection \<open>One parameter\<close>

text \<open>
  The end of the parameter that starts the string: a space outside quotes or the end of the
  string; \<open>None\<close> (\<open>NULL\<close>) when a quote is not closed.
\<close>

function FindEndOfParameter :: "ustring \<Rightarrow> ustring option" where
  "FindEndOfParameter s =
     (case FindFirstCharacter s [0x20, 0x22] 0x5E of
        [] \<Rightarrow> Some []
      | c # r \<Rightarrow> if c = 0x20 then Some (c # r)
          else (case FindFirstCharacter r [0x22] 0x5E of
                  [] \<Rightarrow> None
                | _ # r' \<Rightarrow> FindEndOfParameter r'))"
  by pat_completeness auto
termination
proof (relation "measure length")
  fix s c r x r'
  assume a: "FindFirstCharacter s [0x20, 0x22] 0x5E = c # r" "FindFirstCharacter r [0x22] 0x5E = x # r'"
  have "length (c # r) \<le> length s" "length (x # r') \<le> length r"
    using FindFirstCharacter_length [of s "[0x20, 0x22]" "0x5E"] FindFirstCharacter_length [of r "[0x22]" "0x5E"]
    by (simp_all add: a)
  then show "(r', s) \<in> measure length" by simp
qed simp

declare FindEndOfParameter.simps [simp del]

lemma FindEndOfParameter_suffix: "FindEndOfParameter s = Some e \<Longrightarrow> \<exists>pre. s = pre @ e"
proof (induction s rule: FindEndOfParameter.induct)
  case (1 s)
  show ?case
  proof (cases "FindFirstCharacter s [0x20, 0x22] 0x5E")
    case Nil
    with 1(2) show ?thesis by (simp add: FindEndOfParameter.simps [of s])
  next
    case c: (Cons c r)
    obtain p1 where p1: "s = p1 @ c # r" using FindFirstCharacter_suffix [of s "[0x20, 0x22]" "0x5E"] c by metis
    show ?thesis
    proof (cases "c = 0x20")
      case True
      with 1(2) c have "e = c # r" by (simp add: FindEndOfParameter.simps [of s])
      with p1 show ?thesis by blast
    next
      case False
      with 1(2) c obtain x r' where x: "FindFirstCharacter r [0x22] 0x5E = x # r'" "FindEndOfParameter r' = Some e"
        by (auto simp: FindEndOfParameter.simps [of s] split: list.splits)
      from 1(1) [OF c False x] obtain p2 where "r' = p2 @ e" by blast
      moreover obtain p3 where "r = p3 @ x # r'" using FindFirstCharacter_suffix [of r "[0x22]" "0x5E"] x by metis
      ultimately have "s = (p1 @ c # p3 @ x # p2) @ e" using p1 by simp
      then show ?thesis by blast
    qed
  qed
qed

text \<open>
  The loop that takes the quotes (if asked to) and the escape characters out of a parameter.
  Behind an escape that ends the parameter lies its old terminator, where the loop stops.
\<close>

fun unescape :: "bool \<Rightarrow> ustring \<Rightarrow> ustring" where
  "unescape strip [] = []"
| "unescape strip (c # s) =
     (if c = 0x5E then (case s of [] \<Rightarrow> [] | d # r \<Rightarrow> d # unescape strip r)
      else if c = 0x22 then (if strip then unescape strip s else c # unescape strip s)
      else c # unescape strip s)"

text \<open>
  \<open>GetNextParameter\<close> on a walker that is not \<open>NULL\<close>: an error, or the parameter and the walker
  after it.  After an error both callers stop, so the walker is left out.
\<close>

definition GetNextParameter :: "ustring \<Rightarrow> bool \<Rightarrow> EFI_STATUS + (ustring \<times> ustring)" where
  "GetNextParameter walker strip =
     (let w = dropWhile (\<lambda>c. c = 0x20) walker
      in if w = [] then Inl EFI_INVALID_PARAMETER
         else (case FindEndOfParameter w of
                 None \<Rightarrow> Inl EFI_NOT_FOUND
               | Some e \<Rightarrow> Inr (unescape strip (take (length w - length e) w), e)))"

lemma FindEndOfParameter_proper:
  assumes "FindEndOfParameter s = Some e" "s \<noteq> []" "hd s \<noteq> 0x20"
  shows "length e < length s"
proof -
  from FindEndOfParameter_suffix [OF assms(1)] obtain pre where pre: "s = pre @ e" by blast
  have "e \<noteq> s"
  proof
    assume "e = s"
    with assms obtain c r where cr: "s = c # r" "c \<noteq> 0x20" by (cases s) auto
    have one: "FindEndOfParameter (c # r) = Some (c # r)" using assms(1) \<open>e = s\<close> cr by simp
    show False
    proof (cases "FindFirstCharacter (c # r) [0x20, 0x22] 0x5E")
      case Nil
      with one show False by (subst (asm) FindEndOfParameter.simps) simp
    next
      case c': (Cons d q)
      show False
      proof (cases "d = 0x20")
        case True
        with one c' have "d # q = c # r" by (subst (asm) FindEndOfParameter.simps) simp
        with True cr show False by simp
      next
        case False
        with one c' obtain x r' where x: "FindFirstCharacter q [0x22] 0x5E = x # r'"
            "FindEndOfParameter r' = Some (c # r)"
          by (subst (asm) FindEndOfParameter.simps) (auto split: list.splits)
        from FindEndOfParameter_suffix [OF x(2)] obtain p where "r' = p @ c # r" by blast
        then have "length (c # r) \<le> length r'" by simp
        moreover have "length r' < length q" using FindFirstCharacter_length [of q "[0x22]" "0x5E"] x(1) by simp
        moreover have "length q < length (c # r)"
          using FindFirstCharacter_length [of "c # r" "[0x20, 0x22]" "0x5E"] c' by simp
        ultimately show False by simp
      qed
    qed
  qed
  with pre show ?thesis by auto
qed

lemma GetNextParameter_shorter: "GetNextParameter w strip = Inr (p, w') \<Longrightarrow> length w' < length w"
proof -
  assume a: "GetNextParameter w strip = Inr (p, w')"
  let ?w = "dropWhile (\<lambda>c. c = 0x20) w"
  from a have ne: "?w \<noteq> []" and e: "FindEndOfParameter ?w = Some w'"
    by (auto simp: GetNextParameter_def Let_def split: if_splits option.splits)
  have "hd ?w \<noteq> 0x20" using hd_dropWhile [OF ne] .
  then have "length w' < length ?w" by (rule FindEndOfParameter_proper [OF e ne])
  also have "\<dots> \<le> length w" by (rule length_dropWhile_le)
  finally show ?thesis .
qed

subsection \<open>The parameters of a command line\<close>

text \<open>The first loop, which counts the parameters, and the second, which copies them.\<close>

function count_parameters :: "ustring \<Rightarrow> nat" where
  "count_parameters walker =
     (if walker = [] then 0
      else (case GetNextParameter walker True of
              Inl _ \<Rightarrow> 0
            | Inr (_, walker') \<Rightarrow> Suc (count_parameters walker')))"
  by pat_completeness auto
termination by (relation "measure length") (auto dest: GetNextParameter_shorter)

function copy_parameters ::
  "'w alloc \<Rightarrow> bool \<Rightarrow> ustring \<Rightarrow> ustring list \<Rightarrow> 'w \<Rightarrow> (EFI_STATUS \<times> ustring list) \<times> 'w" where
  "copy_parameters A strip walker argv w =
     (if walker = [] then ((EFI_SUCCESS, argv), w)
      else (case GetNextParameter walker strip of
              Inl _ \<Rightarrow> ((EFI_INVALID_PARAMETER, argv), w)
            | Inr (param, walker') \<Rightarrow>
                (case A (StrSize param) w of (ok, w1) \<Rightarrow>
                 if \<not> ok then ((EFI_OUT_OF_RESOURCES, argv), w1)
                 else copy_parameters A strip walker' (argv @ [param]) w1)))"
  by pat_completeness auto
termination
  by (relation "measure (\<lambda>(A, strip, walker, argv, w). length walker)") (auto dest: GetNextParameter_shorter)

declare count_parameters.simps [simp del] copy_parameters.simps [simp del]

text \<open>
  The arguments of the shell parameters protocol: \<open>Argv\<close>, \<open>None\<close> for \<open>NULL\<close>, and \<open>Argc\<close>,
  the number of its entries that are filled.
\<close>

record shell_parameters =
  sp_argv :: "ustring list option"
  sp_argc :: nat

definition ParseCommandLineToArgs ::
  "'w alloc \<Rightarrow> ustring \<Rightarrow> bool \<Rightarrow> shell_parameters \<Rightarrow> 'w \<Rightarrow> (EFI_STATUS \<times> shell_parameters) \<times> 'w" where
  "ParseCommandLineToArgs A command_line strip sp w =
     (if command_line = [] then ((EFI_SUCCESS, \<lparr>sp_argv = None, sp_argc = 0\<rparr>), w)
      else case A (StrSize command_line) w of (ok1, w1) \<Rightarrow>
        if \<not> ok1 then ((EFI_OUT_OF_RESOURCES, sp), w1)
        else let new_command_line = TrimSpaces command_line
          in case A (StrSize new_command_line) w1 of (ok2, w2) \<Rightarrow>
            if \<not> ok2 then ((EFI_OUT_OF_RESOURCES, sp), w2)
            else (case A (count_parameters new_command_line * 8) w2 of (ok3, w3) \<Rightarrow>
              if \<not> ok3 then ((EFI_OUT_OF_RESOURCES, sp\<lparr>sp_argv := None\<rparr>), w3)
              else (case copy_parameters A strip new_command_line [] w3 of ((status, argv), w4) \<Rightarrow>
                ((status, \<lparr>sp_argv = Some argv, sp_argc = length argv\<rparr>), w4))))"

datatype SHELL_OPERATION_TYPES = Internal_Command | Script_File_Name | Efi_Application | File_Sys_Change | Unknown_Invalid

text \<open>The new parameters and, both callers asking for them, the old ones.\<close>

definition UpdateArgcArgv ::
  "'w alloc \<Rightarrow> shell_parameters \<Rightarrow> ustring \<Rightarrow> SHELL_OPERATION_TYPES \<Rightarrow> 'w \<Rightarrow>
   (EFI_STATUS \<times> shell_parameters \<times> shell_parameters) \<times> 'w" where
  "UpdateArgcArgv A sp new_command_line type w =
     (case ParseCommandLineToArgs A new_command_line (type \<noteq> Script_File_Name) sp w of ((status, sp'), w') \<Rightarrow>
        ((status, sp', sp), w'))"

definition RestoreArgcArgv :: "shell_parameters \<Rightarrow> shell_parameters \<Rightarrow> shell_parameters" where
  "RestoreArgcArgv sp old = old"


lemma copy_parameters_bound:
  "snd (fst (copy_parameters A strip walker argv w)) = argv' \<Longrightarrow>
     length argv' \<le> length argv + count_parameters walker"
proof (induction A strip walker argv w arbitrary: argv' rule: copy_parameters.induct)
  case (1 A strip walker argv w)
  have same: "GetNextParameter walker True = Inr (p', q) \<longleftrightarrow> (\<exists>e. GetNextParameter walker strip = Inr (e, q) \<and> p' = p')"
    if "GetNextParameter walker True = Inr (p', q)" for p' q
    using that by (auto simp: GetNextParameter_def Let_def split: if_splits option.splits)
  show ?case
  proof (cases "walker = [] \<or> (\<exists>e. GetNextParameter walker strip = Inl e)")
    case True
    with 1(2) show ?thesis by (auto simp: copy_parameters.simps [of A strip walker])
  next
    case False
    then obtain param walker' where g: "walker \<noteq> []" "GetNextParameter walker strip = Inr (param, walker')"
      by (metis old.prod.exhaust sum.exhaust)
    then obtain param' where g': "GetNextParameter walker True = Inr (param', walker')"
      by (auto simp: GetNextParameter_def Let_def split: if_splits option.splits)
    obtain ok w1 where A: "A (StrSize param) w = (ok, w1)" by fastforce
    show ?thesis
    proof (cases ok)
      case True
      with 1(2) g A have "snd (fst (copy_parameters A strip walker' (argv @ [param]) w1)) = argv'"
        by (simp add: copy_parameters.simps [of A strip walker])
      from 1(1) [OF g(1,2) refl A [symmetric] _ this] True
      have "length argv' \<le> length (argv @ [param]) + count_parameters walker'" by simp
      then show ?thesis using g g' by (simp add: count_parameters.simps [of walker])
    next
      case False
      with 1(2) g A show ?thesis by (simp add: copy_parameters.simps [of A strip walker])
    qed
  qed
qed

subsection \<open>Command lines that spell a list of parameters\<close>

text \<open>
  A parameter can be written in quotes, \<open>"\<close> and \<open>^\<close> escaped, or, when it is not empty and has
  no blank, quote or \<open>^\<close>, as it is.  The parameters of a line are separated by spaces.
\<close>

definition escaped :: "ustring \<Rightarrow> ustring" where
  "escaped a = concat (map (\<lambda>c. if c = 0x22 \<or> c = 0x5E then [0x5E, c] else [c]) a)"

definition spells :: "ustring \<Rightarrow> ustring \<Rightarrow> bool" where
  "spells t a \<longleftrightarrow> t = 0x22 # escaped a @ [0x22] \<or>
     t = a \<and> a \<noteq> [] \<and> list_all (\<lambda>c. \<not> blank c \<and> c \<noteq> 0x22 \<and> c \<noteq> 0x5E) a"

inductive parameter_line :: "ustring \<Rightarrow> ustring list \<Rightarrow> bool" where
  one: "spells t a \<Longrightarrow> parameter_line t [a]"
| more: "spells t a \<Longrightarrow> parameter_line line as \<Longrightarrow> parameter_line (t @ replicate (Suc k) 0x20 @ line) (a # as)"

lemma escaped_simps [simp]:
  "escaped [] = []" "escaped (c # a) = (if c = 0x22 \<or> c = 0x5E then [0x5E, c] else [c]) @ escaped a"
  by (simp_all add: escaped_def)

lemma find_close_quote: "FindFirstCharacter (escaped a @ 0x22 # rest) [0x22] 0x5E = 0x22 # rest"
  by (induction a) simp_all

lemma find_end_plain:
  "list_all (\<lambda>c. \<not> blank c \<and> c \<noteq> 0x22 \<and> c \<noteq> 0x5E) a \<Longrightarrow> rest = [] \<or> hd rest = 0x20 \<Longrightarrow>
     FindFirstCharacter (a @ rest) [0x20, 0x22] 0x5E = rest"
  by (cases rest; induction a) (auto simp: blank_def)

lemma find_end_rest: "rest = [] \<or> hd rest = 0x20 \<Longrightarrow> FindEndOfParameter rest = Some rest"
  by (subst FindEndOfParameter.simps, cases rest) auto

lemma unescape_escaped: "unescape True (escaped a @ [0x22]) = a"
  by (induction a) simp_all

lemma unescape_plain: "list_all (\<lambda>c. \<not> blank c \<and> c \<noteq> 0x22 \<and> c \<noteq> 0x5E) a \<Longrightarrow> unescape True a = a"
  by (induction a) simp_all

lemma dropWhile_hd: "xs \<noteq> [] \<Longrightarrow> \<not> P (hd xs) \<Longrightarrow> dropWhile P xs = xs"
  by (cases xs) auto

lemma find_end_spelled:
  assumes "spells t a" "rest = [] \<or> hd rest = 0x20"
  shows "FindEndOfParameter (t @ rest) = Some rest"
proof (cases "t = 0x22 # escaped a @ [0x22]")
  case True
  have "FindEndOfParameter ((0x22 # escaped a @ [0x22]) @ rest) = FindEndOfParameter rest"
    by (subst FindEndOfParameter.simps) (simp add: find_close_quote)
  with True find_end_rest [OF assms(2)] show ?thesis by simp
next
  case False
  with assms(1) have "FindFirstCharacter (t @ rest) [0x20, 0x22] 0x5E = rest"
    by (intro find_end_plain assms(2)) (simp add: spells_def)
  then show ?thesis using assms(2) by (subst FindEndOfParameter.simps, cases rest) auto
qed

lemma spells_ends:
  assumes "spells t a"
  shows "unescape True t = a" "t \<noteq> []" "\<not> blank (hd t)" "\<not> blank (last t)"
proof -
  have "t \<noteq> [] \<and> unescape True t = a \<and> \<not> blank (hd t) \<and> \<not> blank (last t)"
  proof (cases "t = 0x22 # escaped a @ [0x22]")
    case True
    then show ?thesis by (simp add: unescape_escaped blank_def)
  next
    case False
    with assms have plain: "t = a" "a \<noteq> []" "list_all (\<lambda>c. \<not> blank c \<and> c \<noteq> 0x22 \<and> c \<noteq> 0x5E) a"
      by (simp_all add: spells_def)
    then have "\<not> blank (hd a) \<and> \<not> blank (last a)" by (simp add: list_all_iff)
    with plain unescape_plain show ?thesis by simp
  qed
  then show "unescape True t = a" "t \<noteq> []" "\<not> blank (hd t)" "\<not> blank (last t)" by simp_all
qed

lemma spells_next:
  assumes "spells t a" "rest = [] \<or> hd rest = 0x20"
  shows "GetNextParameter (replicate k 0x20 @ t @ rest) True = Inr (a, rest)"
proof -
  note sp = spells_ends [OF assms(1)]
  have "dropWhile (\<lambda>c. c = 0x20) (replicate k 0x20 @ t @ rest) = dropWhile (\<lambda>c. c = 0x20) (t @ rest)"
    by (induction k) simp_all
  also have "\<dots> = t @ rest" using sp by (intro dropWhile_hd) (auto simp: blank_def)
  finally show ?thesis using sp find_end_spelled [OF assms] by (simp add: GetNextParameter_def)
qed

lemma parameter_line_ends:
  "parameter_line line as \<Longrightarrow> line \<noteq> [] \<and> \<not> blank (hd line) \<and> \<not> blank (last line)"
  by (induction rule: parameter_line.induct) (auto simp: spells_ends hd_append)

lemma copy_parameter_line:
  assumes "parameter_line line as" "\<And>n w. fst (A n w)"
  shows "\<exists>w'. copy_parameters A True (replicate k 0x20 @ line) argv w = ((EFI_SUCCESS, argv @ as), w')"
  using assms(1)
proof (induction arbitrary: k argv w rule: parameter_line.induct)
  case (one t a)
  obtain ok w1 where A: "A (StrSize a) w = (ok, w1)" by fastforce
  with assms(2) [of "StrSize a" w] have ok by simp
  with A spells_next [OF one, of "[]" k] spells_ends(2) [OF one] show ?case
    by (simp add: copy_parameters.simps [of A True "replicate k 0x20 @ t"] copy_parameters.simps [of A True "[]"])
next
  case (more t a line as j)
  obtain ok w1 where A: "A (StrSize a) w = (ok, w1)" by fastforce
  with assms(2) [of "StrSize a" w] have ok by simp
  let ?r = "replicate (Suc j) 0x20 @ line"
  have n: "GetNextParameter (replicate k 0x20 @ t @ ?r) True = Inr (a, ?r)"
    by (rule spells_next [OF more(1)]) simp
  have "copy_parameters A True (replicate k 0x20 @ t @ ?r) argv w = copy_parameters A True ?r (argv @ [a]) w1"
    using n A \<open>ok\<close> spells_ends(2) [OF more(1)]
    by (subst copy_parameters.simps) simp
  with more.IH [of "Suc j" "argv @ [a]" w1] show ?case by simp
qed

lemma TrimSpaces_line:
  assumes "parameter_line line as" "list_all blank pre" "list_all blank post"
  shows "TrimSpaces (pre @ line @ post) = line"
proof -
  note e = parameter_line_ends [OF assms(1)]
  have "dropWhile blank (pre @ line @ post) = line @ post"
    using assms(2) e dropWhile_hd [of "line @ post" blank] by (induction pre) auto
  moreover have "dropWhile blank (rev post @ rev line) = rev line"
    using assms(3) e dropWhile_hd [of "rev line" blank] by (induction post rule: rev_induct) (auto simp: hd_rev)
  ultimately show ?thesis by (simp add: TrimSpaces_def)
qed

lemma command_line_parsed:
  assumes "parameter_line line as" "list_all blank pre" "list_all blank post"
    and "\<And>n w. fst (A n w)"
  shows "\<exists>w'. ParseCommandLineToArgs A (pre @ line @ post) True sp w =
     ((EFI_SUCCESS, \<lparr>sp_argv = Some as, sp_argc = length as\<rparr>), w')"
proof -
  have ok: "\<exists>w'. A n w = (True, w')" for n w using assms(4) [of n w] by (cases "A n w") simp
  obtain w1 w2 w3 where "A (StrSize (pre @ line @ post)) w = (True, w1)" "A (StrSize line) w1 = (True, w2)"
      "A (count_parameters line * 8) w2 = (True, w3)"
    using ok by metis
  with copy_parameter_line [where A = A, OF assms(1,4), where k = 0 and argv = "[]" and w = w3] parameter_line_ends [OF assms(1)]
    TrimSpaces_line [OF assms(1-3)]
  show ?thesis by (auto simp: ParseCommandLineToArgs_def)
qed

text \<open>
  C34: when memory is available, a command line that spells a list of parameters, quoted or plain,
  with spaces between them and blanks around them, is split into exactly these parameters.
\<close>
theorem command_line_round_trip:
  assumes "parameter_line line as" "list_all blank pre" "list_all blank post"
    and "\<And>n w. fst (A n w)"
  shows "\<exists>w'. ParseCommandLineToArgs A (pre @ line @ post) True sp w =
     ((EFI_SUCCESS, \<lparr>sp_argv = Some as, sp_argc = length as\<rparr>), w')"
  using assms by (rule command_line_parsed)

theorem command_line_round_trip_witness:
  "\<exists>w'. ParseCommandLineToArgs (\<lambda>n w. (True, w + n :: nat)) (wide '' mem   1000 \"a ^\" b\"'') True
       \<lparr>sp_argv = None, sp_argc = 0\<rparr> 0 =
     ((EFI_SUCCESS, \<lparr>sp_argv = Some [wide ''mem'', wide ''1000'', wide ''a \" b''], sp_argc = 3\<rparr>), w')"
proof -
  have p: "parameter_line (wide ''mem'' @ replicate (Suc 2) 0x20 @ wide ''1000'' @ replicate (Suc 0) 0x20 @ wide ''\"a ^\" b\"'')
      [wide ''mem'', wide ''1000'', wide ''a \" b'']"
    by (intro parameter_line.intros; simp add: spells_def wide_def blank_def)
  have "list_all blank [0x20]" "list_all blank []" by (simp_all add: blank_def)
  from command_line_round_trip [OF p this, where A = "\<lambda>n w. (True, w + n :: nat)" and sp = "\<lparr>sp_argv = None, sp_argc = 0\<rparr>" and w = 0]
  show ?thesis by (simp add: wide_def numeral_3_eq_3)
qed

end
