(* ===== verification/ConsoleNumber.thy ===== *)
theory ConsoleNumber
  imports EfiBase
begin

text \<open>
  The numbers of the console's command lines: the digit and number tests and the conversions of
  ConsoleParameters.c.  No caller passes a \<open>NULL\<close> string.  A conversion gives its status and,
  where the code writes the result, the value; the character before a string, which the
  hexadecimal conversion looks at, is an argument (\<open>None\<close>: the string starts its buffer).
\<close>

subsection \<open>Digits\<close>

definition ConsoleIsHexaDecimalDigitCharacter :: "u16 \<Rightarrow> bool" where
  "ConsoleIsHexaDecimalDigitCharacter c \<longleftrightarrow>
     (c \<ge> 0x30 \<and> c \<le> 0x39) \<or> (c \<ge> 0x41 \<and> c \<le> 0x46) \<or> (c \<ge> 0x61 \<and> c \<le> 0x66)"

definition ConsoleIsDecimalDigitCharacter :: "u16 \<Rightarrow> bool" where
  "ConsoleIsDecimalDigitCharacter c \<longleftrightarrow> c \<ge> 0x30 \<and> c \<le> 0x39"

definition InternalConsoleCharToUpper :: "u16 \<Rightarrow> u16" where
  "InternalConsoleCharToUpper c = (if c \<ge> 0x61 \<and> c \<le> 0x7A then c - 0x20 else c)"

definition InternalConsoleHexCharToUintn :: "u16 \<Rightarrow> u64" where
  "InternalConsoleHexCharToUintn c =
     (if ConsoleIsDecimalDigitCharacter c then ucast c - 0x30
      else 10 + ucast (InternalConsoleCharToUpper c) - 0x41)"

subsection \<open>Number tests\<close>

text \<open>The loop over the characters up to the end or, if asked to, the first space.\<close>

definition all_digits :: "bool \<Rightarrow> bool \<Rightarrow> bool \<Rightarrow> ustring \<Rightarrow> bool" where
  "all_digits hex stop_at_space time_numbers s =
     list_all (\<lambda>c. time_numbers \<and> c = 0x3A \<or>
         (if hex then ConsoleIsHexaDecimalDigitCharacter c else ConsoleIsDecimalDigitCharacter c))
       (if stop_at_space then takeWhile (\<lambda>c. c \<noteq> 0x20) s else s)"

definition ConsoleInternalShellIsHexOrDecimalNumber :: "ustring \<Rightarrow> bool \<Rightarrow> bool \<Rightarrow> bool \<Rightarrow> bool" where
  "ConsoleInternalShellIsHexOrDecimalNumber string force_hex stop_at_space time_numbers =
     (let s = (case string of [] \<Rightarrow> [] | c # r \<Rightarrow> if c = 0x2D then r else string)
      in if s = [] then False
         else let t = dropWhile (\<lambda>c. c = 0x30) s; leading_zero = (hd s = 0x30)
           in (case t of
                 c # r \<Rightarrow> if c = 0x78 \<or> c = 0x58 then leading_zero \<and> all_digits True stop_at_space time_numbers r
                          else all_digits force_hex stop_at_space time_numbers t
               | [] \<Rightarrow> all_digits force_hex stop_at_space time_numbers t))"

definition InternalConsoleIsHexOrDecimalNumber :: "ustring \<Rightarrow> bool \<Rightarrow> bool \<Rightarrow> bool \<Rightarrow> bool" where
  "InternalConsoleIsHexOrDecimalNumber string force_hex stop_at_space time_numbers =
     (let s = (case string of [] \<Rightarrow> [] | c # r \<Rightarrow> if c = 0x2D then r else string)
      in if s = [] then False
         else let t = dropWhile (\<lambda>c. c = 0x30) s; leading_zero = (hd s = 0x30)
           in (case t of
                 c # r \<Rightarrow> if c = 0x78 \<or> c = 0x58 then leading_zero \<and> all_digits True stop_at_space time_numbers r
                          else all_digits force_hex stop_at_space time_numbers t
               | [] \<Rightarrow> all_digits force_hex stop_at_space time_numbers t))"

subsection \<open>Conversions\<close>

fun hex_number_digits :: "bool \<Rightarrow> u64 \<Rightarrow> ustring \<Rightarrow> EFI_STATUS \<times> u64 option" where
  "hex_number_digits stop_at_space result [] = (EFI_SUCCESS, Some result)"
| "hex_number_digits stop_at_space result (c # s) =
     (if \<not> ConsoleIsHexaDecimalDigitCharacter c then (EFI_SUCCESS, Some result)
      else if \<not> result \<le> drop_bit 4 (0xFFFFFFFFFFFFFFFF - InternalConsoleHexCharToUintn c)
      then (EFI_DEVICE_ERROR, None)
      else let result' = push_bit 4 result + InternalConsoleHexCharToUintn c
        in if stop_at_space \<and> s \<noteq> [] \<and> hd s = 0x20 then (EFI_SUCCESS, Some result')
           else hex_number_digits stop_at_space result' s)"

definition space_or_tab :: "u16 \<Rightarrow> bool" where
  "space_or_tab c \<longleftrightarrow> c = 0x20 \<or> c = 0x09"

definition InternalConsoleStrHexToUint64 :: "u16 option \<Rightarrow> ustring \<Rightarrow> bool \<Rightarrow> (EFI_STATUS \<times> u64 option) outcome" where
  "InternalConsoleStrHexToUint64 before string stop_at_space =
     (let pads = takeWhile space_or_tab string;
          s = dropWhile space_or_tab string;
          zeros = takeWhile (\<lambda>c. c = 0x30) s;
          t = dropWhile (\<lambda>c. c = 0x30) s;
          previous = (if zeros \<noteq> [] then Some 0x30 else if pads \<noteq> [] then Some (last pads) else before)
      in obind (if t \<noteq> [] \<and> InternalConsoleCharToUpper (hd t) = 0x58
                then obind (checked previous) (\<lambda>p. Returned (if p \<noteq> 0x30 then None else Some (drop 1 t)))
                else Returned (Some t)) (\<lambda>u. case u of
           None \<Rightarrow> Returned (EFI_SUCCESS, None)
         | Some v \<Rightarrow> Returned (if v \<noteq> [] \<and> hd v = 0x20 then (EFI_INVALID_PARAMETER, None)
                               else hex_number_digits stop_at_space 0 v)))"

fun decimal_digits :: "bool \<Rightarrow> u64 \<Rightarrow> ustring \<Rightarrow> EFI_STATUS \<times> u64 option" where
  "decimal_digits stop_at_space result [] = (EFI_SUCCESS, Some result)"
| "decimal_digits stop_at_space result (c # s) =
     (if \<not> ConsoleIsDecimalDigitCharacter c then (EFI_SUCCESS, Some result)
      else if \<not> result \<le> (0xFFFFFFFFFFFFFFFF - (ucast c - 0x30)) div 10 then (EFI_DEVICE_ERROR, None)
      else let result' = result * 10 + (ucast c - 0x30)
        in if stop_at_space \<and> s \<noteq> [] \<and> hd s = 0x20 then (EFI_SUCCESS, Some result')
           else decimal_digits stop_at_space result' s)"

definition InternalConsoleStrDecimalToUint64 :: "ustring \<Rightarrow> bool \<Rightarrow> EFI_STATUS \<times> u64 option" where
  "InternalConsoleStrDecimalToUint64 string stop_at_space =
     (let s = dropWhile (\<lambda>c. c = 0x30) (dropWhile space_or_tab string)
      in if stop_at_space \<and> s \<noteq> [] \<and> hd s = 0x20 then (EFI_SUCCESS, Some 0)
         else decimal_digits stop_at_space 0 s)"

text \<open>
  \<open>want\<close> says that \<open>Value\<close> is not \<open>NULL\<close>; \<open>garbage\<close> is what the local variable \<open>RetVal\<close>
  holds before the conversion writes it.
\<close>

definition ConsoleConvertStringToUint64 ::
  "ustring \<Rightarrow> bool \<Rightarrow> bool \<Rightarrow> bool \<Rightarrow> u64 \<Rightarrow> (EFI_STATUS \<times> u64 option) outcome" where
  "ConsoleConvertStringToUint64 string want force_hex stop_at_space garbage =
     (let hex = (force_hex \<or> \<not> InternalConsoleIsHexOrDecimalNumber string False stop_at_space False);
          walker = dropWhile (\<lambda>c. c = 0x20) string
      in if \<not> InternalConsoleIsHexOrDecimalNumber string hex stop_at_space False
         then Returned (EFI_INVALID_PARAMETER, None)
         else if walker = [] \<or> \<not> InternalConsoleIsHexOrDecimalNumber walker hex stop_at_space False
         then Returned (EFI_INVALID_PARAMETER, None)
         else obind (if hex \<or> StrnCmp_eq walker (wide ''0x'') 2 \<or> StrnCmp_eq walker (wide ''0X'') 2
                     then InternalConsoleStrHexToUint64 (if hd string = 0x20 then Some 0x20 else None) walker stop_at_space
                     else Returned (InternalConsoleStrDecimalToUint64 walker stop_at_space)) (\<lambda>(status, ret_val).
                Returned (if \<not> want \<and> \<not> EFI_ERROR status then (EFI_NOT_FOUND, None)
                          else (status, if want then Some (case ret_val of None \<Rightarrow> garbage | Some v \<Rightarrow> v) else None))))"

definition ConsoleIsHexOrDecimalNumber :: "ustring \<Rightarrow> bool \<Rightarrow> bool \<Rightarrow> bool outcome" where
  "ConsoleIsHexOrDecimalNumber string force_hex stop_at_space =
     obind (ConsoleConvertStringToUint64 string False force_hex stop_at_space 0) (\<lambda>(status, _).
       Returned (status = EFI_NOT_FOUND))"


subsection \<open>The values of the conversions\<close>

definition digit_value :: "u16 \<Rightarrow> nat" where
  "digit_value c = (if ConsoleIsDecimalDigitCharacter c then unat c - 48 else unat (InternalConsoleCharToUpper c) - 55)"

definition number_value :: "nat \<Rightarrow> nat \<Rightarrow> ustring \<Rightarrow> nat" where
  "number_value base acc s = foldl (\<lambda>v c. v * base + digit_value c) acc s"

lemma number_value_simps [simp]:
  "number_value base acc [] = acc"
  "number_value base acc (c # s) = number_value base (acc * base + digit_value c) s"
  by (simp_all add: number_value_def)

lemma number_value_mono: "0 < base \<Longrightarrow> acc \<le> number_value base acc s"
proof (induction s arbitrary: acc)
  case (Cons c s)
  from Cons.prems have "acc \<le> acc * base + digit_value c"
    by (metis Suc_leI le_add1 mult.right_neutral mult_le_mono2 order.trans One_nat_def)
  also have "\<dots> \<le> number_value base (acc * base + digit_value c) s" by (rule Cons.IH [OF Cons.prems])
  finally show ?case by simp
qed simp

lemma number_value_zeros: "number_value base 0 (dropWhile (\<lambda>c. c = 0x30) s) = number_value base 0 s"
  by (induction s) (simp_all add: digit_value_def ConsoleIsDecimalDigitCharacter_def)

lemma word_interval:
  fixes a b c :: "'a::len word"
  assumes "a \<le> c" "c \<le> b"
  shows "c \<in> set (map word_of_nat [unat a..<Suc (unat b)])"
proof -
  have "c = word_of_nat (unat c)" by simp
  moreover have "unat c \<in> set [unat a..<Suc (unat b)]" using assms by (auto simp: word_le_nat_alt)
  ultimately show ?thesis by (metis image_eqI list.set_map)
qed

lemma decimal_digit:
  assumes "ConsoleIsDecimalDigitCharacter c"
  shows "unat (ucast c - 0x30 :: u64) = digit_value c" "digit_value c < 10"
proof -
  from assms have "c \<in> set (map word_of_nat [48..<58])"
    using word_interval [of "0x30" c "0x39"] by (simp add: ConsoleIsDecimalDigitCharacter_def)
  then have "unat (ucast c - 0x30 :: u64) = digit_value c \<and> digit_value c < 10"
    by (auto simp: upt_rec digit_value_def ConsoleIsDecimalDigitCharacter_def)
  then show "unat (ucast c - 0x30 :: u64) = digit_value c" "digit_value c < 10" by simp_all
qed

lemma hex_digit:
  assumes "ConsoleIsHexaDecimalDigitCharacter c"
  shows "unat (InternalConsoleHexCharToUintn c) = digit_value c" "digit_value c < 16"
proof -
  from assms consider "ConsoleIsDecimalDigitCharacter c" | "c \<in> set (map word_of_nat [65..<71])"
    | "c \<in> set (map word_of_nat [97..<103])"
    using word_interval [of "0x41" c "0x46"] word_interval [of "0x61" c "0x66"]
    by (fastforce simp: ConsoleIsHexaDecimalDigitCharacter_def ConsoleIsDecimalDigitCharacter_def)
  then have "unat (InternalConsoleHexCharToUintn c) = digit_value c \<and> digit_value c < 16"
  proof cases
    case 1
    with decimal_digit [OF 1] show ?thesis by (simp add: InternalConsoleHexCharToUintn_def)
  next
    case 2
    then show ?thesis
      by (auto simp: upt_rec InternalConsoleHexCharToUintn_def digit_value_def ConsoleIsDecimalDigitCharacter_def
          InternalConsoleCharToUpper_def)
  next
    case 3
    then show ?thesis
      by (auto simp: upt_rec InternalConsoleHexCharToUintn_def digit_value_def ConsoleIsDecimalDigitCharacter_def
          InternalConsoleCharToUpper_def)
  qed
  then show "unat (InternalConsoleHexCharToUintn c) = digit_value c" "digit_value c < 16" by simp_all
qed

text \<open>The overflow tests are exact, so the loops convert the digits or report the overflow.\<close>

definition converted :: "nat \<Rightarrow> EFI_STATUS \<times> u64 option" where
  "converted v = (if v < 2 ^ 64 then (EFI_SUCCESS, Some (word_of_nat v)) else (EFI_DEVICE_ERROR, None))"

lemma fits_iff:
  fixes r d :: u64 and b :: nat
  assumes "0 < b" "unat d < 2 ^ 64"
  shows "unat r \<le> (2 ^ 64 - 1 - unat d) div b \<longleftrightarrow> unat r * b + unat d < 2 ^ 64"
  using assms by (auto simp: less_eq_div_iff_mult_less_eq)

lemma hex_digits_value:
  assumes "list_all ConsoleIsHexaDecimalDigitCharacter s"
  shows "hex_number_digits stop r s = converted (number_value 16 (unat r) s)"
  using assms
proof (induction s arbitrary: r)
  case Nil
  show ?case using unat_less [of r] by (simp add: converted_def)
next
  case (Cons c s)
  let ?d = "InternalConsoleHexCharToUintn c"
  have d: "unat ?d = digit_value c" "digit_value c < 16" using hex_digit [of c] Cons.prems by simp_all
  have sp: "s \<noteq> [] \<Longrightarrow> hd s \<noteq> 0x20"
    using Cons.prems by (cases s) (auto simp: ConsoleIsHexaDecimalDigitCharacter_def)
  have m: "unat (0xFFFFFFFFFFFFFFFF - ?d) = 2 ^ 64 - 1 - unat ?d"
    using d by (subst unat_sub) (simp_all add: word_le_nat_alt)
  have le: "r \<le> drop_bit 4 (0xFFFFFFFFFFFFFFFF - ?d) \<longleftrightarrow> unat r * 16 + digit_value c < 2 ^ 64"
    using fits_iff [of 16 ?d r] d by (simp add: word_le_nat_alt unat_drop_bit m)
  show ?case
  proof (cases "unat r * 16 + digit_value c < 2 ^ 64")
    case True
    have "unat (push_bit 4 r) = unat r * 2 ^ 4" by (rule unat_push_bit) (use True in simp)
    then have "unat (push_bit 4 r + ?d) = unat r * 16 + digit_value c"
      using True d by (simp add: unat_word_ariths)
    with True le sp Cons show ?thesis by (auto simp: Let_def)
  next
    case False
    then have "\<not> number_value 16 (unat r) (c # s) < 2 ^ 64"
      using number_value_mono [of 16 "unat r * 16 + digit_value c" s] by simp
    with False le Cons.prems show ?thesis by (simp add: converted_def)
  qed
qed

lemma decimal_digits_value:
  assumes "list_all ConsoleIsDecimalDigitCharacter s"
  shows "decimal_digits stop r s = converted (number_value 10 (unat r) s)"
  using assms
proof (induction s arbitrary: r)
  case Nil
  show ?case using unat_less [of r] by (simp add: converted_def)
next
  case (Cons c s)
  let ?d = "ucast c - 0x30 :: u64"
  have d: "unat ?d = digit_value c" "digit_value c < 10" using decimal_digit [of c] Cons.prems by simp_all
  have sp: "s \<noteq> [] \<Longrightarrow> hd s \<noteq> 0x20"
    using Cons.prems by (cases s) (auto simp: ConsoleIsDecimalDigitCharacter_def)
  have m: "unat (0xFFFFFFFFFFFFFFFF - ?d) = 2 ^ 64 - 1 - unat ?d"
    by (rule unat_sub [THEN trans]) (use d in \<open>simp_all add: word_le_nat_alt\<close>)
  have le: "r \<le> (0xFFFFFFFFFFFFFFFF - ?d) div 10 \<longleftrightarrow> unat r * 10 + digit_value c < 2 ^ 64"
    using fits_iff [of 10 ?d r] d m by (simp add: word_le_nat_alt unat_div)
  show ?case
  proof (cases "unat r * 10 + digit_value c < 2 ^ 64")
    case True
    then have "unat (r * 10 + ?d) = unat r * 10 + digit_value c"
      using d by (simp add: unat_word_ariths)
    with True le sp Cons show ?thesis by (auto simp: Let_def)
  next
    case False
    then have "\<not> number_value 10 (unat r) (c # s) < 2 ^ 64"
      using number_value_mono [of 10 "unat r * 10 + digit_value c" s] by simp
    with False le Cons.prems show ?thesis by (simp add: converted_def)
  qed
qed


lemma no_sign_or_x:
  assumes "list_all ConsoleIsHexaDecimalDigitCharacter s" "c \<in> set s"
  shows "c \<noteq> 0x2D" "c \<noteq> 0x78" "c \<noteq> 0x58" "c \<noteq> 0x20" "c \<noteq> 0x09" "InternalConsoleCharToUpper c \<noteq> 0x58"
  using assms by (auto simp: list_all_iff ConsoleIsHexaDecimalDigitCharacter_def InternalConsoleCharToUpper_def)

lemma decimal_is_hex: "list_all ConsoleIsDecimalDigitCharacter s \<Longrightarrow> list_all ConsoleIsHexaDecimalDigitCharacter s"
  by (auto simp: list_all_iff ConsoleIsDecimalDigitCharacter_def ConsoleIsHexaDecimalDigitCharacter_def)

lemma all_digits_list:
  "list_all (if hex then ConsoleIsHexaDecimalDigitCharacter else ConsoleIsDecimalDigitCharacter) s \<Longrightarrow>
     all_digits hex stop time s"
  by (auto simp: all_digits_def list_all_iff dest: set_takeWhileD)

lemma list_all_dropWhile: "list_all P s \<Longrightarrow> list_all P (dropWhile Q s)"
  by (induction s) auto

lemma digits_are_number:
  assumes "list_all (if hex then ConsoleIsHexaDecimalDigitCharacter else ConsoleIsDecimalDigitCharacter) s" "s \<noteq> []"
  shows "InternalConsoleIsHexOrDecimalNumber s hex stop time"
proof -
  let ?t = "dropWhile (\<lambda>c. c = 0x30) s"
  have h: "list_all ConsoleIsHexaDecimalDigitCharacter s" using assms(1) decimal_is_hex by (cases hex) auto
  then have t: "list_all ConsoleIsHexaDecimalDigitCharacter ?t" by (rule list_all_dropWhile)
  have "case u of
      c # r \<Rightarrow> if c = 0x78 \<or> c = 0x58 then hd s = 0x30 \<and> all_digits True stop time r else all_digits hex stop time u
    | [] \<Rightarrow> all_digits hex stop time u"
    if "list_all ConsoleIsHexaDecimalDigitCharacter u" "all_digits hex stop time u" for u
    using that no_sign_or_x [OF that(1), of "hd u"] by (cases u) simp_all
  note this [OF t all_digits_list [OF list_all_dropWhile [OF assms(1)]]]
  moreover have "(case s of [] \<Rightarrow> [] | c # r \<Rightarrow> if c = 0x2D then r else s) = s"
    using no_sign_or_x [OF h, of "hd s"] by (cases s) simp_all
  ultimately show ?thesis using assms(2)
    by (simp only: InternalConsoleIsHexOrDecimalNumber_def Let_def if_False)
qed

lemma prefixed_is_number:
  assumes "list_all ConsoleIsHexaDecimalDigitCharacter s"
  shows "InternalConsoleIsHexOrDecimalNumber (0x30 # 0x78 # s) hex stop time"
  using all_digits_list [of True s stop time] assms by (simp add: InternalConsoleIsHexOrDecimalNumber_def)

lemma hex_conversion:
  assumes "list_all ConsoleIsHexaDecimalDigitCharacter s"
  shows "InternalConsoleStrHexToUint64 before (0x30 # 0x78 # s) stop = Returned (converted (number_value 16 0 s))"
proof -
  have "s \<noteq> [] \<Longrightarrow> hd s \<noteq> 0x20" using no_sign_or_x [OF assms, of "hd s"] by simp
  then show ?thesis using hex_digits_value [OF assms, of stop 0]
    by (auto simp: InternalConsoleStrHexToUint64_def space_or_tab_def Let_def InternalConsoleCharToUpper_def)
qed

lemma decimal_conversion:
  assumes "list_all ConsoleIsDecimalDigitCharacter s"
  shows "InternalConsoleStrDecimalToUint64 s stop = converted (number_value 10 0 s)"
proof -
  let ?t = "dropWhile (\<lambda>c. c = 0x30) s"
  have t: "list_all ConsoleIsDecimalDigitCharacter ?t" by (rule list_all_dropWhile [OF assms])
  have "dropWhile space_or_tab s = s"
    using no_sign_or_x [OF decimal_is_hex [OF assms]] by (cases s) (auto simp: space_or_tab_def)
  moreover have "?t \<noteq> [] \<Longrightarrow> hd ?t \<noteq> 0x20" using no_sign_or_x [OF decimal_is_hex [OF t], of "hd ?t"] by simp
  ultimately show ?thesis using decimal_digits_value [OF t, of stop 0] number_value_zeros [of 10 s]
    by (auto simp: InternalConsoleStrDecimalToUint64_def Let_def)
qed

text \<open>
  a string of decimal digits, or \<open>0x\<close> and hexadecimal digits, is converted to its value when
  that fits 64 bits; otherwise the conversion reports a device error and the caller gets what the
  uninitialised local variable held.
\<close>
theorem console_numbers:
  assumes "list_all (if hex then ConsoleIsHexaDecimalDigitCharacter else ConsoleIsDecimalDigitCharacter) s" "s \<noteq> []"
  shows "ConsoleConvertStringToUint64 ((if hex then wide ''0x'' else []) @ s) True False stop garbage =
     (let v = number_value (if hex then 16 else 10) 0 s in
      if v < 2 ^ 64 then Returned (EFI_SUCCESS, Some (word_of_nat v)) else Returned (EFI_DEVICE_ERROR, Some garbage))"
proof (cases hex)
  case True
  with assms have s: "list_all ConsoleIsHexaDecimalDigitCharacter s" by simp
  show ?thesis
    using prefixed_is_number [OF s] hex_conversion [OF s] True
    by (auto simp: ConsoleConvertStringToUint64_def StrnCmp_eq_def wide_def converted_def Let_def)
next
  case False
  with assms have s: "list_all ConsoleIsDecimalDigitCharacter s" by simp
  have "\<not> StrnCmp_eq s (wide ''0x'') 2" "\<not> StrnCmp_eq s (wide ''0X'') 2"
    using no_sign_or_x [OF decimal_is_hex [OF s]]
    by (cases s; cases "tl s"; force simp: StrnCmp_eq_def wide_def)+
  moreover have "dropWhile (\<lambda>c. c = 0x20) s = s"
    using no_sign_or_x [OF decimal_is_hex [OF s]] by (cases s) auto
  ultimately show ?thesis
    using digits_are_number [of False s] decimal_conversion [OF s] False assms
    by (auto simp: ConsoleConvertStringToUint64_def converted_def Let_def)
qed

theorem console_numbers_witness:
  "ConsoleConvertStringToUint64 (wide ''0xfF'') True False False 7 = Returned (EFI_SUCCESS, Some 255) \<and>
   ConsoleConvertStringToUint64 (wide ''18446744073709551616'') True False False 7 = Returned (EFI_DEVICE_ERROR, Some 7)"
  using console_numbers [of True "wide ''fF''" False 7] console_numbers [of False "wide ''18446744073709551616''" False 7]
  by (simp add: wide_def ConsoleIsHexaDecimalDigitCharacter_def ConsoleIsDecimalDigitCharacter_def digit_value_def
      InternalConsoleCharToUpper_def)

text \<open>
  A negative number and a number with two zeros before the \<open>x\<close> pass the test for numbers and are
  converted to 0, whatever their digits.
\<close>
theorem console_number_misread:
  assumes "list_all ConsoleIsDecimalDigitCharacter s" "s \<noteq> []"
  shows "ConsoleConvertStringToUint64 (0x2D # s) True False stop garbage = Returned (EFI_SUCCESS, Some 0) \<and>
    ConsoleConvertStringToUint64 (wide ''00x'' @ s) True False stop garbage = Returned (EFI_SUCCESS, Some 0)"
proof -
  note x = no_sign_or_x [OF decimal_is_hex [OF assms(1)]]
  have n: "InternalConsoleIsHexOrDecimalNumber (0x2D # s) False stop False"
  proof (cases s)
    case (Cons c r)
    with x(1) [of c] have "InternalConsoleIsHexOrDecimalNumber (0x2D # s) False stop False =
        InternalConsoleIsHexOrDecimalNumber s False stop False"
      by (simp only: InternalConsoleIsHexOrDecimalNumber_def list.case if_True if_False list.set_intros refl)
    with digits_are_number [of False s stop False] assms show ?thesis by simp
  qed (use assms in simp)
  have z: "InternalConsoleIsHexOrDecimalNumber (wide ''00x'' @ s) False stop False"
    using all_digits_list [of True s stop False] decimal_is_hex [OF assms(1)]
    by (simp add: InternalConsoleIsHexOrDecimalNumber_def wide_def)
  show ?thesis using n z
    by (simp add: ConsoleConvertStringToUint64_def InternalConsoleStrDecimalToUint64_def StrnCmp_eq_def wide_def
        space_or_tab_def ConsoleIsDecimalDigitCharacter_def)
qed

end
