(* ===== verification/ConsoleArgs.thy ===== *)
theory ConsoleArgs
  imports ConsoleText ConsoleNumber
begin

text \<open>
  The parameter packages of ConsoleParameters.c: the arguments of a command are checked against
  the list of the flags it knows and collected, newest first, in a linked list, which the command
  asks for its flags, their values and the other arguments by position.

  \<open>StringNoCaseCompare\<close> of the EDK II sort library is the parameter \<open>nc\<close> (the strings are equal but
  for case); the entries of \<open>Argv\<close> are not \<open>NULL\<close>, as \<open>ParseCommandLineToArgs\<close> leaves them.
\<close>

datatype SHELL_PARAM_TYPE = TypeFlag | TypeValue | TypePosition | TypeStart | TypeDoubleValue | TypeMaxValue
  | TypeTimeValue | TypeMax

record SHELL_PARAM_ITEM =
  it_name :: ustring
  it_type :: SHELL_PARAM_TYPE

record SHELL_PARAM_PACKAGE =
  pk_name :: "ustring option"
  pk_type :: SHELL_PARAM_TYPE
  pk_value :: "ustring option"
  pk_position :: u64

type_synonym nocase = "ustring \<Rightarrow> ustring \<Rightarrow> bool"

subsection \<open>Appending to a string that grows\<close>

text \<open>
  The string (\<open>None\<close>: \<open>NULL\<close>) and the size it is given, \<open>None\<close> when \<open>CurrentSize\<close> is \<open>NULL\<close>.
  \<open>Source\<close> is never \<open>NULL\<close>.  The size grows by twice the characters to append until they fit; with a
  known size the callers append at least one character.
\<close>

definition grown_size :: "nat \<Rightarrow> nat \<Rightarrow> nat \<Rightarrow> nat" where
  "grown_size size0 needed step = (if size0 < needed then size0 + step * ((needed - size0 + step - 1) div step) else size0)"

definition ConsoleStrnCatGrow ::
  "'w alloc \<Rightarrow> ustring option \<Rightarrow> nat option \<Rightarrow> ustring \<Rightarrow> nat \<Rightarrow> 'w \<Rightarrow>
   (ustring option \<times> nat option) \<times> 'w" where
  "ConsoleStrnCatGrow A destination current_size source count0 w =
     (let dest = (if current_size = Some 0 then None else destination);
          start = (case dest of None \<Rightarrow> 0 | Some d \<Rightarrow> StrSize d);
          count = (if count0 = 0 then length source else count0);
          needed = start + count * 2
      in case current_size of
           Some size0 \<Rightarrow>
             let new_size = grown_size size0 needed (2 * count * 2) in
             (case (if size0 < needed then A new_size w else (True, w)) of (ok, w') \<Rightarrow>
               if \<not> ok then ((None, Some new_size), w')
               else if size0 < needed \<or> dest \<noteq> None
               then ((Some ((case dest of None \<Rightarrow> [] | Some d \<Rightarrow> d) @ take count source), Some new_size), w')
               else ((None, Some new_size), w'))
         | None \<Rightarrow>
             (case A ((count + 1) * 2) w of (ok, w') \<Rightarrow>
               ((if ok then Some (take count source) else None, None), w')))"

subsection \<open>Checking the arguments\<close>

text \<open>The type of the item of the check list (without its end mark) that matches a name.\<close>

fun check_items ::
  "'w alloc \<Rightarrow> nocase \<Rightarrow> ustring \<Rightarrow> SHELL_PARAM_ITEM list \<Rightarrow> 'w \<Rightarrow> SHELL_PARAM_TYPE option \<times> 'w" where
  "check_items A nc name [] w = (None, w)"
| "check_items A nc name (item # items) w =
     (if it_type item = TypeStart then
        if StrnCmp_eq name (it_name item) (length (it_name item)) then (Some (it_type item), w)
        else (case ConsoleStrnCatGrow A None None name (length (it_name item)) w of ((temp, _), w') \<Rightarrow>
          if (case temp of None \<Rightarrow> False | Some t \<Rightarrow> nc t (it_name item)) then (Some (it_type item), w')
          else check_items A nc name items w')
      else if nc name (it_name item) then (Some (it_type item), w)
      else check_items A nc name items w)"

definition ConsoleInternalIsOnCheckList ::
  "'w alloc \<Rightarrow> nocase \<Rightarrow> ustring \<Rightarrow> SHELL_PARAM_ITEM list \<Rightarrow> 'w \<Rightarrow> SHELL_PARAM_TYPE option \<times> 'w" where
  "ConsoleInternalIsOnCheckList A nc name check_list w =
     (if name = wide ''-?'' \<or> name = wide ''-b'' then (Some TypeFlag, w) else check_items A nc name check_list w)"

definition ConsoleInternalIsFlag :: "ustring \<Rightarrow> bool \<Rightarrow> bool \<Rightarrow> bool" where
  "ConsoleInternalIsFlag name always_allow_numbers time_numbers =
     (case name of [] \<Rightarrow> False
      | c # r \<Rightarrow>
          if (c = 0x2D \<or> c = 0x2B) \<and> ConsoleInternalShellIsHexOrDecimalNumber r False False time_numbers \<and>
             always_allow_numbers then False
          else c = 0x2F \<or> c = 0x2D \<or> c = 0x2B)"

text \<open>
  The state of the loop: the list, the last item made (\<open>CurrentItemPackage\<close>), how many values it
  still takes, the size of its value so far and the number of positional arguments.  An item that
  waits for values is put into the list when it has them or the next flag or the end comes.
\<close>

record parse_state =
  ps_package :: "SHELL_PARAM_PACKAGE list"
  ps_current :: "SHELL_PARAM_PACKAGE option"
  ps_get_value :: u64
  ps_value_size :: nat
  ps_count :: u64

definition put_pending :: "parse_state \<Rightarrow> parse_state" where
  "put_pending st =
     (if ps_get_value st \<noteq> 0
      then st\<lparr>ps_get_value := 0, ps_package := the (ps_current st) # ps_package st\<rparr> else st)"

definition values_wanted :: "SHELL_PARAM_TYPE \<Rightarrow> u64" where
  "values_wanted t = (case t of TypeValue \<Rightarrow> 1 | TypeTimeValue \<Rightarrow> 1 | TypeDoubleValue \<Rightarrow> 2 | TypeMaxValue \<Rightarrow> -1 | _ \<Rightarrow> 0)"

definition take_flag :: "'w alloc \<Rightarrow> ustring \<Rightarrow> SHELL_PARAM_TYPE \<Rightarrow> parse_state \<Rightarrow> 'w \<Rightarrow> parse_state option \<times> 'w" where
  "take_flag A arg t st w =
     (let st1 = put_pending st in
      case A 48 w of (ok, w1) \<Rightarrow> if \<not> ok then (None, w1)
      else case A (StrSize arg) w1 of (ok, w2) \<Rightarrow> if \<not> ok then (None, w2)
      else let item = \<lparr>pk_name = Some arg, pk_type = t, pk_value = None, pk_position = -1\<rparr>
        in if values_wanted t \<noteq> 0
           then (Some (st1\<lparr>ps_current := Some item, ps_get_value := values_wanted t, ps_value_size := 0\<rparr>), w2)
           else (Some (st1\<lparr>ps_current := Some item, ps_package := item # ps_package st1\<rparr>), w2))"

definition take_value :: "'w alloc \<Rightarrow> ustring \<Rightarrow> parse_state \<Rightarrow> 'w \<Rightarrow> parse_state option \<times> 'w" where
  "take_value A arg st w =
     (case A (ps_value_size st + StrSize arg + 2) w of (ok, w1) \<Rightarrow> if \<not> ok then (None, w1)
      else let item = the (ps_current st);
               item' = item\<lparr>pk_value := Some (if ps_value_size st = 0 then arg
                          else the (pk_value item) @ [0x20] @ arg)\<rparr>;
               left = ps_get_value st - 1
        in (Some (st\<lparr>ps_current := Some item', ps_value_size := ps_value_size st + StrSize arg + 2, ps_get_value := left,
                   ps_package := (if left = 0 then item' # ps_package st else ps_package st)\<rparr>), w1))"

definition without_escape :: "ustring \<Rightarrow> ustring" where
  "without_escape arg =
     (case arg of c # d # r \<Rightarrow> if c = 0x5E \<and> (d = 0x2D \<or> d = 0x2F \<or> d = 0x2B) then d # r else arg | _ \<Rightarrow> arg)"

definition take_position :: "'w alloc \<Rightarrow> ustring \<Rightarrow> parse_state \<Rightarrow> 'w \<Rightarrow> parse_state option \<times> 'w" where
  "take_position A arg st w =
     (case A 48 w of (ok, w1) \<Rightarrow> if \<not> ok then (None, w1)
      else case A (StrSize (without_escape arg)) w1 of (ok, w2) \<Rightarrow> if \<not> ok then (None, w2)
      else let item = \<lparr>pk_name = None, pk_type = TypePosition, pk_value = Some (without_escape arg),
                       pk_position = ps_count st\<rparr>
        in (Some (st\<lparr>ps_current := Some item, ps_package := item # ps_package st, ps_count := ps_count st + 1\<rparr>), w2))"

text \<open>
  The loop over the arguments: the final state, or the error with the parameter that caused it if it
  is a flag that is not known (and there is memory for its copy).
\<close>

fun parse_args ::
  "'w alloc \<Rightarrow> nocase \<Rightarrow> SHELL_PARAM_ITEM list \<Rightarrow> bool \<Rightarrow> ustring list \<Rightarrow> parse_state \<Rightarrow> 'w \<Rightarrow>
   ((EFI_STATUS \<times> ustring option) + parse_state) \<times> 'w" where
  "parse_args A nc check_list allow [] st w = (Inr st, w)"
| "parse_args A nc check_list allow (arg # args) st w =
     (case ConsoleInternalIsOnCheckList A nc arg check_list w of (found, w1) \<Rightarrow>
      let proceed = (\<lambda>(r, w2). case r of None \<Rightarrow> (Inl (EFI_OUT_OF_RESOURCES, None), w2)
                   | Some st' \<Rightarrow> parse_args A nc check_list allow args st' w2)
      in case found of
        Some t \<Rightarrow> proceed (take_flag A arg t st w1)
      | None \<Rightarrow>
          if ps_get_value st \<noteq> 0 \<and> ps_current st \<noteq> None \<and>
             \<not> ConsoleInternalIsFlag arg allow (pk_type (the (ps_current st)) = TypeTimeValue)
          then proceed (take_value A arg st w1)
          else if \<not> ConsoleInternalIsFlag arg allow False then proceed (take_position A arg st w1)
          else (case A (StrSize arg) w1 of (ok, w2) \<Rightarrow>
            (Inl (EFI_VOLUME_CORRUPTED, if ok then Some arg else None), w2)))"

definition parse_start :: parse_state where
  "parse_start = \<lparr>ps_package = [], ps_current = None, ps_get_value = 0, ps_value_size = 0, ps_count = 0\<rparr>"

text \<open>The status, the package (\<open>None\<close>: \<open>NULL\<close>) and the parameter at fault.\<close>

definition ConsoleInternalCommandLineParse ::
  "'w alloc \<Rightarrow> nocase \<Rightarrow> SHELL_PARAM_ITEM list \<Rightarrow> ustring list \<Rightarrow> bool \<Rightarrow> 'w \<Rightarrow>
   (EFI_STATUS \<times> SHELL_PARAM_PACKAGE list option \<times> ustring option) \<times> 'w" where
  "ConsoleInternalCommandLineParse A nc check_list argv allow w =
     (if argv = [] then ((EFI_SUCCESS, None, None), w)
      else case A 16 w of (ok, w1) \<Rightarrow> if \<not> ok then ((EFI_OUT_OF_RESOURCES, None, None), w1)
      else case parse_args A nc check_list allow argv parse_start w1 of
          (Inl (status, problem), w2) \<Rightarrow> ((status, None, problem), w2)
        | (Inr st, w2) \<Rightarrow> ((EFI_SUCCESS, Some (ps_package (put_pending st)), None), w2))"

text \<open>The parameters protocol exists while commands run.\<close>

definition ConsoleCommandLineParse ::
  "'w alloc \<Rightarrow> nocase \<Rightarrow> SHELL_PARAM_ITEM list \<Rightarrow> shell_parameters \<Rightarrow> 'w \<Rightarrow>
   (EFI_STATUS \<times> SHELL_PARAM_PACKAGE list option \<times> ustring option) \<times> 'w" where
  "ConsoleCommandLineParse A nc check_list sp w =
     ConsoleInternalCommandLineParse A nc check_list
       (case sp_argv sp of None \<Rightarrow> [] | Some argv \<Rightarrow> take (sp_argc sp) argv) False w"

subsection \<open>Asking a package\<close>

fun flag_in :: "'w alloc \<Rightarrow> nocase \<Rightarrow> ustring \<Rightarrow> SHELL_PARAM_PACKAGE list \<Rightarrow> 'w \<Rightarrow> ustring option option \<times> 'w" where
  "flag_in A nc key [] w = (None, w)"
| "flag_in A nc key (node # nodes) w =
     (case pk_name node of
        None \<Rightarrow> flag_in A nc key nodes w
      | Some name \<Rightarrow>
          if pk_type node = TypeStart then
            if StrnCmp_eq key name (length key) then (Some (Some (drop (length key) name)), w)
            else (case ConsoleStrnCatGrow A None None key (length name) w of ((temp, _), w') \<Rightarrow>
              if temp \<noteq> None \<and> nc key name then (Some (Some (drop (length key) name)), w')
              else flag_in A nc key nodes w')
          else if nc key name then (Some (pk_value node), w)
          else flag_in A nc key nodes w)"

text \<open>\<open>flag_in\<close> is the loop that both functions share: the node found and its value.\<close>

definition ConsoleCommandLineGetFlag ::
  "'w alloc \<Rightarrow> nocase \<Rightarrow> SHELL_PARAM_PACKAGE list option \<Rightarrow> ustring \<Rightarrow> 'w \<Rightarrow> bool \<times> 'w" where
  "ConsoleCommandLineGetFlag A nc package key w =
     (case package of None \<Rightarrow> (False, w)
      | Some nodes \<Rightarrow> (case flag_in A nc key nodes w of (r, w') \<Rightarrow> (r \<noteq> None, w')))"

definition ConsoleCommandLineGetValue ::
  "'w alloc \<Rightarrow> nocase \<Rightarrow> SHELL_PARAM_PACKAGE list option \<Rightarrow> ustring \<Rightarrow> 'w \<Rightarrow> ustring option \<times> 'w" where
  "ConsoleCommandLineGetValue A nc package key w =
     (case package of None \<Rightarrow> (None, w)
      | Some nodes \<Rightarrow> (case flag_in A nc key nodes w of (r, w') \<Rightarrow> (case r of None \<Rightarrow> None | Some v \<Rightarrow> v, w')))"

definition ConsoleCommandLineGetRawValue :: "SHELL_PARAM_PACKAGE list option \<Rightarrow> u64 \<Rightarrow> ustring option" where
  "ConsoleCommandLineGetRawValue package position =
     (case package of None \<Rightarrow> None
      | Some nodes \<Rightarrow> (case find (\<lambda>node. pk_position node = position) nodes of
            None \<Rightarrow> None | Some node \<Rightarrow> pk_value node))"

definition ConsoleCommandLineGetCount :: "SHELL_PARAM_PACKAGE list option \<Rightarrow> nat" where
  "ConsoleCommandLineGetCount package =
     (case package of None \<Rightarrow> 0 | Some nodes \<Rightarrow> length (filter (\<lambda>node. pk_name node = None) nodes))"

subsection \<open>What the packages say\<close>

text \<open>
  The specification: the argument list is read as flags, each with the values that follow it, and
  other arguments; or it has a flag that is not known.
\<close>

definition item_matches :: "nocase \<Rightarrow> ustring \<Rightarrow> SHELL_PARAM_ITEM \<Rightarrow> bool" where
  "item_matches nc name item =
     (if it_type item = TypeStart
      then take (length (it_name item)) name = it_name item \<or> nc (take (length (it_name item)) name) (it_name item)
      else nc name (it_name item))"

definition known_type :: "nocase \<Rightarrow> SHELL_PARAM_ITEM list \<Rightarrow> ustring \<Rightarrow> SHELL_PARAM_TYPE option" where
  "known_type nc check_list name =
     (if name = wide ''-?'' \<or> name = wide ''-b'' then Some TypeFlag
      else map_option it_type (find (item_matches nc name) check_list))"

datatype argument = Flag ustring SHELL_PARAM_TYPE "ustring list" | Other ustring

definition is_value :: "nocase \<Rightarrow> SHELL_PARAM_ITEM list \<Rightarrow> bool \<Rightarrow> SHELL_PARAM_TYPE \<Rightarrow> ustring \<Rightarrow> bool" where
  "is_value nc check_list allow t x \<longleftrightarrow>
     known_type nc check_list x = None \<and> \<not> ConsoleInternalIsFlag x allow (t = TypeTimeValue)"

definition values_of :: "nocase \<Rightarrow> SHELL_PARAM_ITEM list \<Rightarrow> bool \<Rightarrow> SHELL_PARAM_TYPE \<Rightarrow> nat \<Rightarrow> ustring list \<Rightarrow> ustring list" where
  "values_of nc check_list allow t n args = takeWhile (is_value nc check_list allow t) (take n args)"

function read_arguments ::
  "nocase \<Rightarrow> SHELL_PARAM_ITEM list \<Rightarrow> bool \<Rightarrow> ustring list \<Rightarrow> ustring + argument list" where
  "read_arguments nc check_list allow [] = Inr []"
| "read_arguments nc check_list allow (a # as) =
     (case known_type nc check_list a of
        Some t \<Rightarrow>
          let vs = values_of nc check_list allow t (unat (values_wanted t)) as
          in map_sum id ((#) (Flag a t vs)) (read_arguments nc check_list allow (drop (length vs) as))
      | None \<Rightarrow>
          if ConsoleInternalIsFlag a allow False then Inl a
          else map_sum id ((#) (Other (without_escape a))) (read_arguments nc check_list allow as))"
  by pat_completeness auto
termination by (relation "measure (\<lambda>(nc, check_list, allow, args). length args)") auto

fun joined :: "ustring list \<Rightarrow> ustring option" where
  "joined [] = None"
| "joined (v # vs) = Some (v @ concat (map ((#) 0x20) vs))"

fun packages :: "u64 \<Rightarrow> argument list \<Rightarrow> SHELL_PARAM_PACKAGE list" where
  "packages k [] = []"
| "packages k (Flag a t vs # items) =
     \<lparr>pk_name = Some a, pk_type = t, pk_value = joined vs, pk_position = -1\<rparr> # packages k items"
| "packages k (Other v # items) =
     \<lparr>pk_name = None, pk_type = TypePosition, pk_value = Some v, pk_position = k\<rparr> # packages (k + 1) items"

definition always :: "'w alloc \<Rightarrow> bool" where
  "always A \<longleftrightarrow> (\<forall>n w. fst (A n w))"

lemma alwaysE: "always A \<Longrightarrow> (\<And>w'. A n w = (True, w') \<Longrightarrow> P) \<Longrightarrow> P"
  unfolding always_def by (metis (full_types) prod.collapse)

lemma check_items_known:
  assumes "always A"
  shows "\<exists>w'. check_items A nc name items w = (map_option it_type (find (item_matches nc name) items), w')"
proof (induction items arbitrary: w)
  case (Cons item items)
  show ?case
  proof (cases "it_type item = TypeStart \<and> take (length (it_name item)) name \<noteq> it_name item")
    case True
    obtain w1 where g: "ConsoleStrnCatGrow A None None name (length (it_name item)) w =
        ((Some (if it_name item = [] then name else take (length (it_name item)) name), None), w1)"
      by (rule alwaysE [OF assms, of "((if it_name item = [] then length name else length (it_name item)) + 1) * 2" w])
        (simp add: ConsoleStrnCatGrow_def)
    have "it_name item \<noteq> []" using True by auto
    with True g Cons show ?thesis by (auto simp: StrnCmp_eq_def item_matches_def)
  next
    case False
    with Cons show ?thesis by (auto simp: StrnCmp_eq_def item_matches_def)
  qed
qed simp

lemma on_list_known:
  assumes "always A"
  obtains w' where "ConsoleInternalIsOnCheckList A nc name check_list w = (known_type nc check_list name, w')"
proof (cases "name = wide ''-?'' \<or> name = wide ''-b''")
  case True
  then show thesis by (intro that [of w]) (simp add: ConsoleInternalIsOnCheckList_def known_type_def)
next
  case False
  obtain w' where "check_items A nc name check_list w = (map_option it_type (find (item_matches nc name) check_list), w')"
    using check_items_known [OF assms] by blast
  with False show thesis by (intro that [of w']) (simp add: ConsoleInternalIsOnCheckList_def known_type_def)
qed

lemma all_digits_time: "all_digits hex stop False s \<Longrightarrow> all_digits hex stop time s"
  by (auto simp: all_digits_def list_all_iff)

lemma number_time:
  assumes "ConsoleInternalShellIsHexOrDecimalNumber r hex stop False"
  shows "ConsoleInternalShellIsHexOrDecimalNumber r hex stop time"
proof -
  define s where "s = (case r of [] \<Rightarrow> [] | c # q \<Rightarrow> if c = 0x2D then q else r)"
  have "ConsoleInternalShellIsHexOrDecimalNumber r hex stop time'  \<longleftrightarrow> s \<noteq> [] \<and>
      (case dropWhile (\<lambda>c. c = 0x30) s of
         [] \<Rightarrow> all_digits hex stop time' []
       | c # q \<Rightarrow> if c = 0x78 \<or> c = 0x58 then hd s = 0x30 \<and> all_digits True stop time' q
                else all_digits hex stop time' (c # q))" for time'
    unfolding ConsoleInternalShellIsHexOrDecimalNumber_def s_def [symmetric] Let_def
    by (cases "dropWhile (\<lambda>c. c = 0x30) s") (simp_all del: dropWhile_eq_Nil_conv)
  with assms show ?thesis
    by (cases "dropWhile (\<lambda>c. c = 0x30) s") (auto simp del: dropWhile_eq_Nil_conv split: if_splits intro: all_digits_time)
qed

lemma flag_time: "ConsoleInternalIsFlag x allow time \<Longrightarrow> ConsoleInternalIsFlag x allow False"
  by (cases x) (auto simp: ConsoleInternalIsFlag_def split: if_splits dest: number_time)

text \<open>The outcome of the loop, given what is in front of the list and what the arguments are read as.\<close>

definition parsed ::
  "((EFI_STATUS \<times> ustring option) + parse_state) \<Rightarrow> SHELL_PARAM_PACKAGE list \<Rightarrow> u64 \<Rightarrow> ustring + argument list \<Rightarrow> bool" where
  "parsed result before k reading \<longleftrightarrow>
     (case reading of
        Inl bad \<Rightarrow> result = Inl (EFI_VOLUME_CORRUPTED, Some bad)
      | Inr items \<Rightarrow> \<exists>st. result = Inr st \<and> ps_package (put_pending st) = rev (packages k items) @ before)"

lemma parsed_flag:
  "parsed r (\<lparr>pk_name = Some a, pk_type = t, pk_value = joined vs, pk_position = -1\<rparr> # before) k reading \<Longrightarrow>
     parsed r before k (map_sum id ((#) (Flag a t vs)) reading)"
  by (auto simp: parsed_def split: sum.splits)

lemma parsed_other:
  "parsed r (\<lparr>pk_name = None, pk_type = TypePosition, pk_value = Some v, pk_position = k\<rparr> # before) (k + 1) reading \<Longrightarrow>
     parsed r before k (map_sum id ((#) (Other v)) reading)"
  by (auto simp: parsed_def split: sum.splits)

text \<open>An item of type \<open>t\<close> waits with the values \<open>vs\<close>.\<close>

definition waiting :: "parse_state \<Rightarrow> ustring \<Rightarrow> SHELL_PARAM_TYPE \<Rightarrow> ustring list \<Rightarrow> bool" where
  "waiting st a t vs \<longleftrightarrow> ps_get_value st \<noteq> 0 \<and> (ps_value_size st = 0 \<longleftrightarrow> vs = []) \<and>
     ps_current st = Some \<lparr>pk_name = Some a, pk_type = t, pk_value = joined vs, pk_position = -1\<rparr>"

lemma joined_snoc:
  "(if vs = [] then Some x else Some (the (joined vs) @ 0x20 # x)) = joined (vs @ [x])"
  by (cases vs) simp_all

lemma put_pending_idem: "ps_get_value (put_pending st) = 0" "put_pending (put_pending st) = put_pending st"
  by (simp_all add: put_pending_def)

lemma put_pending_none: "ps_get_value st = 0 \<Longrightarrow> put_pending st = st"
  by (simp add: put_pending_def)

lemma waiting_put:
  "waiting st a t vs \<Longrightarrow> ps_package (put_pending st) =
     \<lparr>pk_name = Some a, pk_type = t, pk_value = joined vs, pk_position = -1\<rparr> # ps_package st \<and>
     ps_count (put_pending st) = ps_count st"
  by (auto simp: waiting_def put_pending_def)

lemma take_flag_run:
  assumes "always A"
  obtains st' w' where "take_flag A arg t st w = (Some st', w')" "ps_count st' = ps_count (put_pending st)"
    "values_wanted t \<noteq> 0 \<Longrightarrow> waiting st' arg t [] \<and> ps_get_value st' = values_wanted t \<and>
       ps_package st' = ps_package (put_pending st)"
    "values_wanted t = 0 \<Longrightarrow> ps_get_value st' = 0 \<and> ps_package st' =
       \<lparr>pk_name = Some arg, pk_type = t, pk_value = None, pk_position = -1\<rparr> # ps_package (put_pending st)"
proof -
  obtain w1 where 1: "A 48 w = (True, w1)" by (rule alwaysE [OF assms])
  obtain w2 where 2: "A (StrSize arg) w1 = (True, w2)" by (rule alwaysE [OF assms])
  show thesis
  proof (cases "values_wanted t = 0")
    case True
    then show thesis
      by (intro that [of "(put_pending st)\<lparr>ps_current := Some item, ps_package := item # ps_package (put_pending st)\<rparr>" for item])
        (simp_all add: take_flag_def 1 2 Let_def put_pending_idem)
  next
    case False
    then show thesis
      by (intro that [of "(put_pending st)\<lparr>ps_current := Some item, ps_get_value := values_wanted t, ps_value_size := 0\<rparr>" for item])
        (simp_all add: take_flag_def 1 2 Let_def waiting_def)
  qed
qed


lemma take_value_run:
  assumes "always A" "waiting st a t vs"
  obtains st' w' where "take_value A x st w = (Some st', w')" "ps_count st' = ps_count st"
    "ps_get_value st = 1 \<Longrightarrow> ps_get_value st' = 0 \<and> ps_package st' =
       \<lparr>pk_name = Some a, pk_type = t, pk_value = joined (vs @ [x]), pk_position = -1\<rparr> # ps_package st"
    "ps_get_value st \<noteq> 1 \<Longrightarrow> waiting st' a t (vs @ [x]) \<and> ps_get_value st' = ps_get_value st - 1 \<and>
       ps_package st' = ps_package st"
proof -
  obtain w1 where 1: "A (ps_value_size st + StrSize x + 2) w = (True, w1)" by (rule alwaysE [OF assms(1)])
  let ?item = "\<lparr>pk_name = Some a, pk_type = t, pk_value = joined (vs @ [x]), pk_position = -1\<rparr>"
  let ?st = "st\<lparr>ps_current := Some ?item, ps_value_size := ps_value_size st + StrSize x + 2,
      ps_get_value := ps_get_value st - 1,
      ps_package := (if ps_get_value st = 1 then ?item # ps_package st else ps_package st)\<rparr>"
  have "ps_value_size st = 0 \<longleftrightarrow> vs = []" using assms(2) by (simp add: waiting_def)
  moreover have "ps_current st = Some \<lparr>pk_name = Some a, pk_type = t, pk_value = joined vs, pk_position = -1\<rparr>"
    using assms(2) by (simp add: waiting_def)
  ultimately have eq: "take_value A x st w = (Some ?st, w1)"
    unfolding take_value_def 1 joined_snoc [symmetric] Let_def by simp
  show thesis using assms(2) by (intro that [OF eq]) (simp_all add: waiting_def StrSize_def)
qed

lemma take_position_run:
  assumes "always A"
  obtains st' w' where "take_position A x st w = (Some st', w')" "ps_count st' = ps_count st + 1"
    "ps_get_value st' = ps_get_value st"
    "ps_package st' = \<lparr>pk_name = None, pk_type = TypePosition, pk_value = Some (without_escape x),
       pk_position = ps_count st\<rparr> # ps_package st"
proof -
  obtain w1 where 1: "A 48 w = (True, w1)" by (rule alwaysE [OF assms])
  obtain w2 where 2: "A (StrSize (without_escape x)) w1 = (True, w2)" by (rule alwaysE [OF assms])
  have "take_position A x st w = (Some (st\<lparr>ps_current := Some item, ps_package := item # ps_package st,
      ps_count := ps_count st + 1\<rparr>), w2)"
    if "item = \<lparr>pk_name = None, pk_type = TypePosition, pk_value = Some (without_escape x), pk_position = ps_count st\<rparr>" for item
    by (simp add: take_position_def 1 2 Let_def that)
  from that [OF this [OF refl]] show thesis by simp
qed

lemma take_flag_put: "take_flag A arg t (put_pending st) w = take_flag A arg t st w"
  by (simp add: take_flag_def put_pending_idem)
lemma values_of_Cons:
  "values_of nc cl allow t (Suc n) (x # xs) =
     (if is_value nc cl allow t x then x # values_of nc cl allow t n xs else [])"
  "values_of nc cl allow t 0 xs = []" "values_of nc cl allow t n [] = []"
  by (simp_all add: values_of_def)

lemma values_of_no_value: "\<not> is_value nc cl allow t x \<Longrightarrow> values_of nc cl allow t n (x # xs) = []"
  by (cases n) (simp_all add: values_of_def)

text \<open>\<open>reads args st w\<close>: the loop does what the specification says, from a state without or with a waiting item.\<close>

definition reads ::
  "'w alloc \<Rightarrow> nocase \<Rightarrow> SHELL_PARAM_ITEM list \<Rightarrow> bool \<Rightarrow> ustring list \<Rightarrow> parse_state \<Rightarrow> 'w \<Rightarrow> bool" where
  "reads A nc cl allow args st w \<longleftrightarrow>
     parsed (fst (parse_args A nc cl allow args st w)) (ps_package st) (ps_count st) (read_arguments nc cl allow args)"

definition reads_waiting ::
  "'w alloc \<Rightarrow> nocase \<Rightarrow> SHELL_PARAM_ITEM list \<Rightarrow> bool \<Rightarrow> ustring list \<Rightarrow> parse_state \<Rightarrow> ustring \<Rightarrow> SHELL_PARAM_TYPE \<Rightarrow>
   ustring list \<Rightarrow> 'w \<Rightarrow> bool" where
  "reads_waiting A nc cl allow args st a t vs w \<longleftrightarrow>
     (let vs' = values_of nc cl allow t (unat (ps_get_value st)) args in
      parsed (fst (parse_args A nc cl allow args st w)) (ps_package st) (ps_count st)
        (map_sum id ((#) (Flag a t (vs @ vs'))) (read_arguments nc cl allow (drop (length vs') args))))"

declare parse_args.simps(2) [simp del]

lemma reads_Cons:
  assumes A: "always A" and none: "ps_get_value st = 0"
    and IH: "\<And>st w. ps_get_value st = 0 \<Longrightarrow> reads A nc cl allow xs st w"
    and IHw: "\<And>st a t vs w. waiting st a t vs \<Longrightarrow> reads_waiting A nc cl allow xs st a t vs w"
  shows "reads A nc cl allow (x # xs) st w"
proof -
  obtain w1 where k: "ConsoleInternalIsOnCheckList A nc x cl w = (known_type nc cl x, w1)"
    by (rule on_list_known [OF A])
  show ?thesis
  proof (cases "known_type nc cl x")
    case (Some t)
    obtain st' w' where f: "take_flag A x t st w1 = (Some st', w')" "ps_count st' = ps_count st"
      "values_wanted t \<noteq> 0 \<Longrightarrow> waiting st' x t [] \<and> ps_get_value st' = values_wanted t \<and> ps_package st' = ps_package st"
      "values_wanted t = 0 \<Longrightarrow> ps_get_value st' = 0 \<and> ps_package st' =
         \<lparr>pk_name = Some x, pk_type = t, pk_value = None, pk_position = -1\<rparr> # ps_package st"
      using take_flag_run [OF A, of x t st w1] put_pending_none [OF none] by metis
    have run: "parse_args A nc cl allow (x # xs) st w = parse_args A nc cl allow xs st' w'"
      by (simp add: parse_args.simps k Some f)
    show ?thesis
    proof (cases "values_wanted t = 0")
      case True
      have "parsed (fst (parse_args A nc cl allow xs st' w'))
          (\<lparr>pk_name = Some x, pk_type = t, pk_value = joined [], pk_position = -1\<rparr> # ps_package st)
          (ps_count st) (read_arguments nc cl allow xs)"
        using IH [of st' w'] f True by (simp add: reads_def)
      from parsed_flag [OF this] show ?thesis
        by (simp add: reads_def run Some True values_of_Cons)
    next
      case False
      then show ?thesis using IHw [of st' x t "[]" w'] f by (simp add: reads_def reads_waiting_def run Some Let_def)
    qed
  next
    case None
    show ?thesis
    proof (cases "ConsoleInternalIsFlag x allow False")
      case True
      obtain w2 where "A (StrSize x) w1 = (True, w2)" by (rule alwaysE [OF A])
      then show ?thesis using None True none by (simp add: parse_args.simps reads_def k parsed_def)
    next
      case False
      obtain st' w' where p: "take_position A x st w1 = (Some st', w')" "ps_count st' = ps_count st + 1"
          "ps_get_value st' = ps_get_value st"
          "ps_package st' = \<lparr>pk_name = None, pk_type = TypePosition, pk_value = Some (without_escape x),
             pk_position = ps_count st\<rparr> # ps_package st"
        by (rule take_position_run [OF A, of x st w1])
      have run: "parse_args A nc cl allow (x # xs) st w = parse_args A nc cl allow xs st' w'"
        using False none by (simp add: parse_args.simps k None p)
      show ?thesis
        using parsed_other [OF IH [of st' w', unfolded reads_def p(2,4)]] none p False
        by (simp add: reads_def run None)
    qed
  qed
qed

lemma reads_waiting_Cons:
  assumes A: "always A" and wt: "waiting st a t vs"
    and IH: "\<And>st w. ps_get_value st = 0 \<Longrightarrow> reads A nc cl allow xs st w"
    and IHw: "\<And>st a t vs w. waiting st a t vs \<Longrightarrow> reads_waiting A nc cl allow xs st a t vs w"
  shows "reads_waiting A nc cl allow (x # xs) st a t vs w"
proof -
  obtain w1 where k: "ConsoleInternalIsOnCheckList A nc x cl w = (known_type nc cl x, w1)"
    by (rule on_list_known [OF A])
  have g: "ps_get_value st \<noteq> 0" "ps_current st = Some \<lparr>pk_name = Some a, pk_type = t, pk_value = joined vs, pk_position = -1\<rparr>"
    using wt by (simp_all add: waiting_def)
  show ?thesis
  proof (cases "is_value nc cl allow t x")
    case val: True
    then have none: "known_type nc cl x = None" "\<not> ConsoleInternalIsFlag x allow (t = TypeTimeValue)"
      by (simp_all add: is_value_def)
    obtain st' w' where v: "take_value A x st w1 = (Some st', w')" "ps_count st' = ps_count st"
      "ps_get_value st = 1 \<Longrightarrow> ps_get_value st' = 0 \<and> ps_package st' =
         \<lparr>pk_name = Some a, pk_type = t, pk_value = joined (vs @ [x]), pk_position = -1\<rparr> # ps_package st"
      "ps_get_value st \<noteq> 1 \<Longrightarrow> waiting st' a t (vs @ [x]) \<and> ps_get_value st' = ps_get_value st - 1 \<and>
         ps_package st' = ps_package st"
      using take_value_run [OF A wt, of x w1] by metis
    have run: "parse_args A nc cl allow (x # xs) st w = parse_args A nc cl allow xs st' w'"
      using none g by (simp add: parse_args.simps k v)
    have n: "unat (ps_get_value st) = Suc (unat (ps_get_value st - 1))"
      using g(1) by (metis Suc_pred' unat_gt_0 unat_minus_one)
    show ?thesis
    proof (cases "ps_get_value st = 1")
      case True
      have "parsed (fst (parse_args A nc cl allow xs st' w'))
          (\<lparr>pk_name = Some a, pk_type = t, pk_value = joined (vs @ [x]), pk_position = -1\<rparr> # ps_package st)
          (ps_count st) (read_arguments nc cl allow xs)"
        using IH [of st' w'] v True by (simp add: reads_def)
      from parsed_flag [OF this] show ?thesis
        using val by (simp add: reads_waiting_def run n values_of_Cons True Let_def)
    next
      case False
      then show ?thesis using IHw [of st' a t "vs @ [x]" w'] v val
        by (simp add: reads_waiting_def run n values_of_Cons Let_def)
    qed
  next
    case val: False
    have vo: "values_of nc cl allow t (unat (ps_get_value st)) (x # xs) = []" by (rule values_of_no_value [OF val])
    show ?thesis
    proof (cases "known_type nc cl x")
      case (Some t')
      have "parse_args A nc cl allow (x # xs) st w = parse_args A nc cl allow (x # xs) (put_pending st) w"
        by (simp add: parse_args.simps k Some take_flag_put)
      moreover have "reads A nc cl allow (x # xs) (put_pending st) w"
        by (rule reads_Cons [OF A put_pending_idem(1) IH IHw])
      ultimately have "parsed (fst (parse_args A nc cl allow (x # xs) st w))
          (\<lparr>pk_name = Some a, pk_type = t, pk_value = joined vs, pk_position = -1\<rparr> # ps_package st)
          (ps_count st) (read_arguments nc cl allow (x # xs))"
        using waiting_put [OF wt] by (simp add: reads_def)
      from parsed_flag [OF this] show ?thesis by (simp add: reads_waiting_def vo Let_def)
    next
      case None
      with val have f: "ConsoleInternalIsFlag x allow (t = TypeTimeValue)" by (simp add: is_value_def)
      then have "ConsoleInternalIsFlag x allow False" by (rule flag_time)
      moreover obtain w2 where "A (StrSize x) w1 = (True, w2)" by (rule alwaysE [OF A])
      ultimately show ?thesis using None f g by (simp add: parse_args.simps reads_waiting_def vo Let_def k parsed_def)
    qed
  qed
qed

lemma parse_args_reads:
  assumes A: "always A"
  shows "(\<forall>st w. ps_get_value st = 0 \<longrightarrow> reads A nc cl allow args st w) \<and>
    (\<forall>st a t vs w. waiting st a t vs \<longrightarrow> reads_waiting A nc cl allow args st a t vs w)"
proof (induction args)
  case Nil
  show ?case
    by (auto simp: reads_def reads_waiting_def parsed_def put_pending_none values_of_Cons dest: waiting_put)
next
  case (Cons x xs)
  then show ?case using reads_Cons [OF A] reads_waiting_Cons [OF A] by metis
qed


lemma read_arguments_length: "read_arguments nc cl allow args = Inr items \<Longrightarrow> length items \<le> length args"
proof (induction nc cl allow args arbitrary: items rule: read_arguments.induct)
  case (2 nc cl allow a as)
  show ?case
  proof (cases "known_type nc cl a")
    case None
    with 2 show ?thesis by (cases "read_arguments nc cl allow as") (auto split: if_splits)
  next
    case (Some t)
    let ?r = "drop (length (values_of nc cl allow t (unat (values_wanted t)) as)) as"
    show ?thesis
    proof (cases "read_arguments nc cl allow ?r")
      case (Inr is')
      with 2(2) [OF Some refl Inr] 2(3) Some show ?thesis by (auto simp: Let_def)
    qed (use 2(3) Some in \<open>auto simp: Let_def\<close>)
  qed
qed simp

lemma arguments_parsed:
  assumes "always A" "argv \<noteq> []"
  shows "\<exists>w'. ConsoleInternalCommandLineParse A nc cl argv allow w =
     ((case read_arguments nc cl allow argv of
         Inl bad \<Rightarrow> (EFI_VOLUME_CORRUPTED, None, Some bad)
       | Inr items \<Rightarrow> (EFI_SUCCESS, Some (rev (packages 0 items)), None)), w')"
proof -
  obtain w1 where a: "A 16 w = (True, w1)" by (rule alwaysE [OF assms(1)])
  obtain res w2 where p: "parse_args A nc cl allow argv parse_start w1 = (res, w2)" by fastforce
  have "reads A nc cl allow argv parse_start w1"
    using parse_args_reads [OF assms(1)] by (simp add: parse_start_def)
  then have "parsed res [] 0 (read_arguments nc cl allow argv)"
    by (simp add: reads_def p) (simp add: parse_start_def)
  then show ?thesis using assms(2)
    by (auto simp: ConsoleInternalCommandLineParse_def a p parsed_def split: sum.splits)
qed

text \<open>
  C35: when memory is available, the packages a command gets are its arguments as the
  specification reads them: every flag of the check list with the values that follow it, and the
  other arguments numbered from 0; the first argument that looks like a flag and is not known is
  the error.
\<close>
theorem console_arguments:
  assumes "always A" "argv \<noteq> []"
  shows "\<exists>w'. ConsoleInternalCommandLineParse A nc cl argv allow w =
     ((case read_arguments nc cl allow argv of
         Inl bad \<Rightarrow> (EFI_VOLUME_CORRUPTED, None, Some bad)
       | Inr items \<Rightarrow> (EFI_SUCCESS, Some (rev (packages 0 items)), None)), w')"
  using assms by (rule arguments_parsed)

text \<open>What the getters give of such a package.\<close>

fun others :: "argument list \<Rightarrow> ustring list" where
  "others [] = []"
| "others (Flag a t vs # items) = others items"
| "others (Other v # items) = v # others items"

lemma length_others: "length (others items) \<le> length items"
  by (induction items rule: others.induct) simp_all

lemma count_packages: "ConsoleCommandLineGetCount (Some (rev (packages k items))) = length (others items)"
  by (induction k items rule: packages.induct) (simp_all add: ConsoleCommandLineGetCount_def flip: rev_filter)

lemma packages_positions:
  assumes "unat k + length (others items) < 2 ^ 64 - 1" "node \<in> set (packages k items)"
  shows "pk_position node = -1 \<or> (\<exists>i < length (others items). pk_position node = k + word_of_nat i \<and>
     pk_value node = Some (others items ! i))"
  using assms
proof (induction k items rule: packages.induct)
  case (3 k v items)
  have k1: "unat (k + 1) = unat k + 1" using 3(2) by (simp add: unat_word_ariths)
  show ?case
  proof (cases "node \<in> set (packages (k + 1) items)")
    case True
    with 3(1) 3(2) consider "pk_position node = -1" | i where "i < length (others items)"
        "pk_position node = k + 1 + word_of_nat i" "pk_value node = Some (others items ! i)"
      by (auto simp: k1)
    then show ?thesis
    proof cases
      case (2 i)
      then show ?thesis by (intro disjI2 exI [of _ "Suc i"]) (simp add: add.assoc)
    qed simp
  next
    case False
    with 3(3) show ?thesis by (intro disjI2 exI [of _ 0]) simp
  qed
qed auto


lemma packages_complete:
  "i < length (others items) \<Longrightarrow> \<exists>node \<in> set (packages k items). pk_position node = k + word_of_nat i"
proof (induction k items arbitrary: i rule: packages.induct)
  case (3 k v items)
  show ?case
  proof (cases i)
    case (Suc j)
    with 3 obtain node where "node \<in> set (packages (k + 1) items)" "pk_position node = k + 1 + word_of_nat j" by fastforce
    with Suc show ?thesis by (auto simp: add.assoc)
  qed simp
qed auto

lemma raw_value_packages:
  assumes "length items < 2 ^ 64 - 1" "i \<noteq> -1"
  shows "ConsoleCommandLineGetRawValue (Some (rev (packages 0 items))) i =
     (if unat i < length (others items) then Some (others items ! unat i) else None)"
proof -
  have l: "length (others items) < 2 ^ 64 - 1" using assms(1) length_others [of items] by simp
  let ?P = "\<lambda>node. pk_position node = i"
  have pos: "unat i < length (others items) \<and> pk_value node = Some (others items ! unat i)"
    if "node \<in> set (packages 0 items)" "?P node" for node
  proof -
    from packages_positions [OF _ that(1)] l that(2) assms(2) obtain j
      where j: "j < length (others items)" "i = word_of_nat j" "pk_value node = Some (others items ! j)" by auto
    then have "unat i = j" using l by (simp add: unat_of_nat take_bit_nat_eq_self)
    with j show ?thesis by simp
  qed
  show ?thesis
  proof (cases "find ?P (rev (packages 0 items))")
    case None
    then have "\<not> (\<exists>node \<in> set (packages 0 items). ?P node)" by (auto simp: find_None_iff)
    with packages_complete [of "unat i" items 0] have "\<not> unat i < length (others items)" by auto
    with None show ?thesis by (simp add: ConsoleCommandLineGetRawValue_def)
  next
    case (Some node)
    then have "node \<in> set (rev (packages 0 items)) \<and> ?P node" 
      using nth_mem by (fastforce simp: find_Some_iff simp del: set_rev)
    then have "node \<in> set (packages 0 items)" "?P node" by simp_all
    from pos [OF this] Some show ?thesis by (simp add: ConsoleCommandLineGetRawValue_def)
  qed
qed

theorem console_arguments_witness:
  "\<exists>w'. ConsoleInternalCommandLineParse (\<lambda>n w. (True, w + n :: nat)) (\<lambda>s t. s = t) [\<lparr>it_name = wide ''-w'', it_type = TypeValue\<rparr>]
       (map wide [''reset'', ''-w'', ''now'', ''^-x'']) False 0 =
     ((EFI_SUCCESS, Some (rev [\<lparr>pk_name = None, pk_type = TypePosition, pk_value = Some (wide ''reset''), pk_position = 0\<rparr>,
        \<lparr>pk_name = Some (wide ''-w''), pk_type = TypeValue, pk_value = Some (wide ''now''), pk_position = -1\<rparr>,
        \<lparr>pk_name = None, pk_type = TypePosition, pk_value = Some (wide ''-x''), pk_position = 1\<rparr>]), None), w')"
proof -
  let ?A = "\<lambda>n w. (True, w + n :: nat)" and ?nc = "\<lambda>s t :: ustring. s = t"
  have "always ?A" by (simp add: always_def)
  moreover have "read_arguments ?nc [\<lparr>it_name = wide ''-w'', it_type = TypeValue\<rparr>] False
       (map wide [''reset'', ''-w'', ''now'', ''^-x'']) =
     Inr [Other (wide ''reset''), Flag (wide ''-w'') TypeValue [wide ''now''], Other (wide ''-x'')]"
    by (simp add: known_type_def item_matches_def wide_def ConsoleInternalIsFlag_def values_of_def is_value_def
        values_wanted_def without_escape_def)
  ultimately show ?thesis
    using console_arguments [of ?A "map wide [''reset'', ''-w'', ''now'', ''^-x'']" ?nc
        "[\<lparr>it_name = wide ''-w'', it_type = TypeValue\<rparr>]" False 0]
    by simp
qed

end
