(* ===== verification/EfiDump.thy ===== *)
theory EfiDump
  imports EfiBase
begin

text \<open>
  The hexadecimal dump that ConsoleCommand.c, PartEdit.c and RawDataInit.c each have a copy of.
\<close>

text \<open>
  \<open>DumpHex\<close> prints one line for up to 16 octets: their offset, \<open>Val\<close> (two digits and a separator
  per octet) and \<open>Str\<close> (the octets as text), each in an array on the stack with a terminator.
\<close>

definition Hex :: bytes where
  "Hex = ascii ''0123456789ABCDEF''"

definition dump_val :: "bytes \<Rightarrow> bytes" where
  "dump_val data = concat (map (\<lambda>(i, b). [Hex ! unat (drop_bit 4 b), Hex ! unat (b AND 0xF), if i = 7 then 0x2D else 0x20])
     (enumerate 0 data))"

definition dump_str :: "bytes \<Rightarrow> bytes" where
  "dump_str data = map (\<lambda>b. if b < 0x20 \<or> b > 0x7E then 0x2E else b) data"

function DumpHex :: "u64 \<Rightarrow> bytes \<Rightarrow> (u64 \<times> bytes \<times> bytes) list" where
  "DumpHex offset data =
     (if data = [] then []
      else (offset, dump_val (take 16 data), dump_str (take 16 data)) # DumpHex (offset + of_nat (length (take 16 data))) (drop 16 data))"
  by pat_completeness auto
termination by (relation "measure (length \<circ> snd)") auto

declare DumpHex.simps [simp del]

lemma hex_digit_inject:
  assumes "x < 16" "y < 16" "Hex ! x = Hex ! y"
  shows "x = y"
proof -
  have "distinct Hex" "length Hex = 16" by (simp_all add: Hex_def ascii_def)
  with assms show ?thesis by (simp add: nth_eq_iff_index_eq)
qed

lemma low_nibble: "unat (x AND 0xF) = unat (x :: u8) mod 16"
proof -
  have "x AND 0xF = take_bit 4 x" by (simp add: take_bit_eq_mask mask_eq_exp_minus_1)
  then show ?thesis by (simp only: unsigned_take_bit_eq) (simp add: take_bit_eq_mod)
qed

lemma nibbles_inject:
  assumes "Hex ! unat (drop_bit 4 a) = Hex ! unat (drop_bit 4 b)" "Hex ! unat (a AND 0xF) = Hex ! unat (b AND 0xF)"
  shows "a = (b :: u8)"
proof -
  have "unat (drop_bit 4 a) = unat (drop_bit 4 b)"
    by (rule hex_digit_inject [OF _ _ assms(1)])
      (use unat_byte_bound [of a] unat_byte_bound [of b] in \<open>simp_all add: unat_drop_bit\<close>)
  moreover have "unat (a AND 0xF) = unat (b AND 0xF)"
    by (rule hex_digit_inject [OF _ _ assms(2)]) (simp_all add: low_nibble)
  ultimately have "unat a div 16 = unat b div 16" "unat a mod 16 = unat b mod 16"
    by (simp_all add: unat_drop_bit low_nibble)
  then show ?thesis by (metis div_mult_mod_eq unsigned_word_eqI)
qed

lemma length_dump_val: "length (dump_val data) = 3 * length data"
  by (simp add: dump_val_def length_concat comp_def split_def sum_list_triv)

lemma dump_val_nth:
  assumes "i < length data"
  shows "dump_val data ! (3 * i) = Hex ! unat (drop_bit 4 (data ! i)) \<and>
    dump_val data ! (3 * i + 1) = Hex ! unat (data ! i AND 0xF)"
proof -
  have "concat (map f (enumerate n xs)) ! (3 * i) = f (n + i, xs ! i) ! 0 \<and>
      concat (map f (enumerate n xs)) ! (3 * i + 1) = f (n + i, xs ! i) ! 1"
    if "i < length xs" "\<And>p. length (f p) = 3" for f :: "nat \<times> u8 \<Rightarrow> bytes" and n xs i
    using that
  proof (induction xs arbitrary: n i)
    case (Cons x xs)
    then show ?case by (cases i) (auto simp: nth_append)
  qed simp
  from this [OF assms, of "\<lambda>(i, b). [Hex ! unat (drop_bit 4 b), Hex ! unat (b AND 0xF), if i = 7 then 0x2D else 0x20]" 0]
  show ?thesis by (simp add: dump_val_def split_def)
qed

lemma dump_val_inject:
  assumes "length xs = length ys" "dump_val xs = dump_val ys"
  shows "xs = ys"
proof (rule nth_equalityI [OF assms(1)])
  fix i assume "i < length xs"
  note xs = dump_val_nth [OF this]
  have "i < length ys" using assms(1) \<open>i < length xs\<close> by simp
  note ys = dump_val_nth [OF this]
  show "xs ! i = ys ! i"
    by (rule nibbles_inject) (metis xs ys assms(2))+
qed

text \<open>Every line fits the arrays, and the dump shows the data: other data have another dump.\<close>

lemma DumpHex_fits: "(off, val, str) \<in> set (DumpHex offset data) \<Longrightarrow> length val < 50 \<and> length str < 20"
  by (induction offset data rule: DumpHex.induct)
    (subst (asm) (2) DumpHex.simps, auto simp: length_dump_val dump_str_def split: if_splits)

lemma DumpHex_inject: "DumpHex offset xs = DumpHex offset ys \<Longrightarrow> xs = ys"
proof (induction offset xs arbitrary: ys rule: DumpHex.induct)
  case (1 offset xs)
  show ?case
  proof (cases "xs = [] \<or> ys = []")
    case True
    with 1(2) show ?thesis by (auto simp: DumpHex.simps split: if_splits)
  next
    case False
    with 1(2) have h: "dump_val (take 16 xs) = dump_val (take 16 ys)"
        "DumpHex (offset + of_nat (length (take 16 xs))) (drop 16 xs) =
         DumpHex (offset + of_nat (length (take 16 ys))) (drop 16 ys)"
      by (simp_all add: DumpHex.simps [of offset xs] DumpHex.simps [of offset ys])
    have l: "length (take 16 xs) = length (take 16 ys)"
      using arg_cong [OF h(1), of length] by (simp add: length_dump_val)
    have "take 16 xs = take 16 ys" by (rule dump_val_inject [OF l h(1)])
    moreover have "drop 16 xs = drop 16 ys" using 1(1) [of "drop 16 ys"] False h(2) l by simp
    ultimately show ?thesis by (metis append_take_drop_id)
  qed
qed

end
