(* ===== verification/ConsoleCommand.thy ===== *)
theory ConsoleCommand
  imports ConsoleArgs EfiDump
begin

text \<open>
  The command registry of ConsoleCommand.c: a list of commands kept in the order of the firmware's
  case-insensitive string collation, in which a command line finds its handler, and the exit flag.

  \<open>StriColl\<close> of the unicode collation protocol is the parameter \<open>coll\<close>.  Handlers are values of a
  type \<open>'h\<close>; the registry never looks at them.  The manual page functions and HII handles that are
  stored with a command are never read and left out.
\<close>

type_synonym collation = "ustring \<Rightarrow> ustring \<Rightarrow> int"

record 'h SHELL_COMMAND =
  cm_string :: ustring
  cm_handler :: 'h
  cm_last_error :: bool

record 'h command_library =
  cl_commands :: "'h SHELL_COMMAND list"
  cl_profiles :: "ustring option"
  cl_profile_size :: nat
  cl_exit_requested :: bool
  cl_exit_code :: u64

subsection \<open>Finding and registering commands\<close>

definition ShellCommandIsCommandOnInternalList :: "collation \<Rightarrow> 'h command_library \<Rightarrow> ustring \<Rightarrow> bool" where
  "ShellCommandIsCommandOnInternalList coll lib name \<longleftrightarrow>
     list_ex (\<lambda>node. coll name (cm_string node) = 0) (cl_commands lib)"

definition ShellCommandIsCommandOnList :: "collation \<Rightarrow> 'h command_library \<Rightarrow> ustring \<Rightarrow> bool" where
  "ShellCommandIsCommandOnList coll lib name = ShellCommandIsCommandOnInternalList coll lib name"

text \<open>
  The new entry at the head of the list is swapped with its successors while it is greater.  The name
  is compared with itself first; a successor that compares equal is refused before.
\<close>

fun move_to_place :: "collation \<Rightarrow> 'h SHELL_COMMAND \<Rightarrow> 'h SHELL_COMMAND list \<Rightarrow> 'h SHELL_COMMAND list" where
  "move_to_place coll node [] = [node]"
| "move_to_place coll node (command # rest) =
     (if coll (cm_string node) (cm_string command) > 0 then command # move_to_place coll node rest
      else node # command # rest)"

definition profile_known :: "ustring \<Rightarrow> ustring \<Rightarrow> bool" where
  "profile_known profiles name = list_ex (\<lambda>n. take (length name) (drop n profiles) = name) [0..<length profiles + 1]"

definition add_profile ::
  "'w alloc \<Rightarrow> ustring \<Rightarrow> ustring option \<Rightarrow> nat \<Rightarrow> 'w \<Rightarrow> (ustring option \<times> nat) \<times> 'w" where
  "add_profile A name profiles size0 w =
     (let grow = (\<lambda>text ((profiles, size0), w).
            case ConsoleStrnCatGrow A profiles (Some size0) text 0 w of ((p, s), w') \<Rightarrow> ((p, the s), w'))
      in if name \<noteq> [] \<and> (case profiles of None \<Rightarrow> True | Some p \<Rightarrow> \<not> profile_known p name)
         then let start = (if profiles = None then grow (wide '';'') ((profiles, size0), w) else ((profiles, size0), w))
           in grow (wide '';'') (grow name start)
         else ((profiles, size0), w))"

definition ConsoleCommandRegisterCommandName ::
  "'w alloc \<Rightarrow> collation \<Rightarrow> ustring \<Rightarrow> 'h \<Rightarrow> ustring \<Rightarrow> bool \<Rightarrow> 'h command_library \<Rightarrow> 'w \<Rightarrow>
   (EFI_STATUS \<times> 'h command_library) \<times> 'w" where
  "ConsoleCommandRegisterCommandName A coll name handler profile can_affect_le lib w =
     (if ShellCommandIsCommandOnList coll lib name then ((EFI_ALREADY_STARTED, lib), w)
      else case A 64 w of (ok1, w1) \<Rightarrow> if \<not> ok1 then ((EFI_OUT_OF_RESOURCES, lib), w1)
      else case A (StrSize name) w1 of (ok2, w2) \<Rightarrow> if \<not> ok2 then ((EFI_OUT_OF_RESOURCES, lib), w2)
      else case add_profile A profile (cl_profiles lib) (cl_profile_size lib) w2 of ((profiles, profile_size), w3) \<Rightarrow>
        let node = \<lparr>cm_string = name, cm_handler = handler, cm_last_error = can_affect_le\<rparr>
        in ((EFI_SUCCESS, lib\<lparr>cl_profiles := profiles, cl_profile_size := profile_size,
               cl_commands := (if coll name name < 0 then node # cl_commands lib
                               else move_to_place coll node (cl_commands lib))\<rparr>), w3))"

text \<open>The command that \<open>ConsoleCommandRunCommandHandler\<close> runs.\<close>

definition find_command :: "collation \<Rightarrow> 'h command_library \<Rightarrow> ustring \<Rightarrow> 'h SHELL_COMMAND option" where
  "find_command coll lib name = find (\<lambda>node. coll name (cm_string node) = 0) (cl_commands lib)"

definition ConsoleCommandRegisterExit :: "bool \<Rightarrow> u64 \<Rightarrow> 'h command_library \<Rightarrow> 'h command_library" where
  "ConsoleCommandRegisterExit script_only error_code lib =
     lib\<lparr>cl_exit_requested := \<not> cl_exit_requested lib, cl_exit_code := error_code\<rparr>"

definition ConsoleCommandGetExit :: "'h command_library \<Rightarrow> bool" where
  "ConsoleCommandGetExit lib = cl_exit_requested lib"

definition ShellCommandGetExitCode :: "'h command_library \<Rightarrow> u64" where
  "ShellCommandGetExitCode lib = cl_exit_code lib"

text \<open>The destructor frees the list; the collation protocol it forgets is not part of the state.\<close>

definition ConsoleCommandsDestructor :: "'h command_library \<Rightarrow> 'h command_library" where
  "ConsoleCommandsDestructor lib = lib\<lparr>cl_commands := []\<rparr>"

subsection \<open>The registry is a sorted map\<close>

text \<open>What the code relies on: the collation compares like a total order up to equality.\<close>

definition total_collation :: "collation \<Rightarrow> bool" where
  "total_collation coll \<longleftrightarrow>
     (\<forall>a. coll a a = 0) \<and> (\<forall>a b. coll a b < 0 \<longleftrightarrow> coll b a > 0) \<and>
     (\<forall>a b c. coll a b \<le> 0 \<longrightarrow> coll b c \<le> 0 \<longrightarrow> coll a c \<le> 0)"

definition registry_sorted :: "collation \<Rightarrow> 'h command_library \<Rightarrow> bool" where
  "registry_sorted coll lib = sorted_wrt (\<lambda>a b. coll (cm_string a) (cm_string b) < 0) (cl_commands lib)"

lemma set_move_to_place [simp]: "set (move_to_place coll node cs) = insert node (set cs)"
  by (induction cs) auto

lemma coll_refl: "total_collation coll \<Longrightarrow> coll a a = 0"
  and coll_flip: "total_collation coll \<Longrightarrow> coll a b < 0 \<longleftrightarrow> coll b a > 0"
  and coll_trans: "total_collation coll \<Longrightarrow> coll a b \<le> 0 \<Longrightarrow> coll b c \<le> 0 \<Longrightarrow> coll a c \<le> 0"
  unfolding total_collation_def by blast+

lemma coll_equal:
  assumes "total_collation coll" "coll m a = 0" "coll m b = 0"
  shows "coll a b = 0"
proof -
  have "coll a m = 0" "coll b m = 0" using coll_flip [OF assms(1)] assms(2,3) by (metis less_irrefl linorder_neqE)+
  then have "coll a b \<le> 0" "coll b a \<le> 0"
    using coll_trans [OF assms(1), of a m b] coll_trans [OF assms(1), of b m a] assms(2,3) by simp_all
  then show ?thesis using coll_flip [OF assms(1), of a b] by linarith
qed

lemma move_to_place_sorted:
  assumes "total_collation coll" "\<And>c. c \<in> set cs \<Longrightarrow> coll (cm_string node) (cm_string c) \<noteq> 0"
    and "sorted_wrt (\<lambda>a b. coll (cm_string a) (cm_string b) < 0) cs"
  shows "sorted_wrt (\<lambda>a b. coll (cm_string a) (cm_string b) < 0) (move_to_place coll node cs)"
  using assms(2,3)
proof (induction cs)
  case (Cons c cs)
  show ?case
  proof (cases "coll (cm_string node) (cm_string c) > 0")
    case True
    then have "coll (cm_string c) (cm_string node) < 0" by (rule coll_flip [OF assms(1), THEN iffD2])
    moreover have "sorted_wrt (\<lambda>a b. coll (cm_string a) (cm_string b) < 0) (move_to_place coll node cs)"
      by (rule Cons.IH) (use Cons.prems in auto)
    ultimately show ?thesis using True Cons.prems(2) by simp
  next
    case False
    with Cons.prems(1) [of c] have lt: "coll (cm_string node) (cm_string c) < 0" by simp
    have "coll (cm_string node) (cm_string x) < 0" if x: "x \<in> set cs" for x
    proof -
      from x Cons.prems(2) have "coll (cm_string c) (cm_string x) < 0" by simp
      with lt have "coll (cm_string node) (cm_string x) \<le> 0"
        using coll_trans [OF assms(1), of "cm_string node" "cm_string c" "cm_string x"] by simp
      with Cons.prems(1) [of x] x show ?thesis by simp
    qed
    with False lt Cons.prems(2) show ?thesis by simp
  qed
qed simp

lemma find_move_to_place:
  "find P (move_to_place coll node cs) = (if P node \<and> (\<forall>c \<in> set cs. \<not> P c) then Some node else find P cs)"
  if "P node \<Longrightarrow> \<forall>c \<in> set cs. \<not> P c"
  using that by (induction cs) (auto simp: find_None_iff)

text \<open>
  C15: registering a command keeps the registry sorted; a name that is known is refused and changes
  nothing; a new one is from then on found under every name that compares equal to it, and all other
  names find what they found before.
\<close>
theorem registry_is_sorted_map:
  assumes "total_collation coll" "registry_sorted coll lib" "always A"
  shows "\<exists>lib' w'. ConsoleCommandRegisterCommandName A coll name handler profile le lib w =
      ((if find_command coll lib name = None then EFI_SUCCESS else EFI_ALREADY_STARTED, lib'), w') \<and>
    registry_sorted coll lib' \<and>
    (\<forall>n. find_command coll lib' n =
       (if coll n name = 0 \<and> find_command coll lib name = None
        then Some \<lparr>cm_string = name, cm_handler = handler, cm_last_error = le\<rparr> else find_command coll lib n)) \<and>
    cl_exit_requested lib' = cl_exit_requested lib"
proof (cases "find_command coll lib name")
  case (Some c)
  then have "ShellCommandIsCommandOnList coll lib name"
    by (auto simp: find_command_def ShellCommandIsCommandOnList_def ShellCommandIsCommandOnInternalList_def list_ex_iff
        find_Some_iff)
  with Some assms(2) show ?thesis by (simp add: ConsoleCommandRegisterCommandName_def)
next
  case None
  then have new: "coll name (cm_string c) \<noteq> 0" if "c \<in> set (cl_commands lib)" for c
    using that by (auto simp: find_command_def find_None_iff)
  then have fresh: "\<not> ShellCommandIsCommandOnList coll lib name"
    by (auto simp: ShellCommandIsCommandOnList_def ShellCommandIsCommandOnInternalList_def list_ex_iff)
  let ?node = "\<lparr>cm_string = name, cm_handler = handler, cm_last_error = le\<rparr>"
  obtain w1 where 1: "A 64 w = (True, w1)" by (rule alwaysE [OF assms(3)])
  obtain w2 where 2: "A (StrSize name) w1 = (True, w2)" by (rule alwaysE [OF assms(3)])
  obtain p n w3 where 3: "add_profile A profile (cl_profiles lib) (cl_profile_size lib) w2 = ((p, n), w3)"
    by (metis surj_pair)
  let ?lib = "lib\<lparr>cl_profiles := p, cl_profile_size := n, cl_commands := move_to_place coll ?node (cl_commands lib)\<rparr>"
  have run: "ConsoleCommandRegisterCommandName A coll name handler profile le lib w = ((EFI_SUCCESS, ?lib), w3)"
    using fresh coll_refl [OF assms(1), of name] by (simp add: ConsoleCommandRegisterCommandName_def 1 2 3)
  have "registry_sorted coll ?lib"
    using move_to_place_sorted [OF assms(1), of "cl_commands lib" ?node] new assms(2) by (simp add: registry_sorted_def)
  moreover have "find_command coll ?lib m = (if coll m name = 0 then Some ?node else find_command coll lib m)" for m
  proof -
    have "\<forall>c \<in> set (cl_commands lib). coll m (cm_string c) \<noteq> 0" if "coll m name = 0"
      using coll_equal [OF assms(1) that] new by blast
    then have "find (\<lambda>node. coll m (cm_string node) = 0) (move_to_place coll ?node (cl_commands lib)) =
        (if coll m name = 0 then Some ?node else find (\<lambda>node. coll m (cm_string node) = 0) (cl_commands lib))"
      using find_move_to_place [of "\<lambda>node. coll m (cm_string node) = 0" ?node "cl_commands lib" coll] by simp
    then show ?thesis by (simp add: find_command_def)
  qed
  ultimately show ?thesis using None by (intro exI [of _ ?lib] exI [of _ w3]) (simp add: run)
qed


text \<open>A collation for the examples: names are compared as numbers.\<close>

definition number_of_name :: "ustring \<Rightarrow> int" where
  "number_of_name s = foldl (\<lambda>v c. v * 65536 + uint c + 1) 0 s"

definition sample_coll :: collation where
  "sample_coll a b = number_of_name a - number_of_name b"

lemma sample_coll_total: "total_collation sample_coll"
  by (auto simp: total_collation_def sample_coll_def)

definition one_command :: "nat command_library" where
  "one_command = \<lparr>cl_commands = [\<lparr>cm_string = wide ''mem'', cm_handler = 0, cm_last_error = True\<rparr>],
     cl_profiles = None, cl_profile_size = 0, cl_exit_requested = False, cl_exit_code = 0\<rparr>"

theorem registry_is_sorted_map_witness:
  "\<exists>lib' w'. ConsoleCommandRegisterCommandName (\<lambda>n w. (True, w + n :: nat)) sample_coll (wide ''exit'') 1 (wide ''Debug'') True
       one_command 0 = ((EFI_SUCCESS, lib'), w') \<and>
     find_command sample_coll lib' (wide ''exit'') = Some \<lparr>cm_string = wide ''exit'', cm_handler = 1, cm_last_error = True\<rparr> \<and>
     find_command sample_coll lib' (wide ''mem'') = Some \<lparr>cm_string = wide ''mem'', cm_handler = 0, cm_last_error = True\<rparr>"
proof -
  have "registry_sorted sample_coll one_command" by (simp add: registry_sorted_def one_command_def)
  moreover have "always (\<lambda>n w. (True, w + n :: nat))" by (simp add: always_def)
  moreover have "find_command sample_coll one_command (wide ''exit'') = None"
    "find_command sample_coll one_command (wide ''mem'') = Some \<lparr>cm_string = wide ''mem'', cm_handler = 0, cm_last_error = True\<rparr>"
    "sample_coll (wide ''mem'') (wide ''exit'') \<noteq> 0" "sample_coll (wide ''exit'') (wide ''exit'') = 0"
    by (simp_all add: find_command_def one_command_def sample_coll_def number_of_name_def wide_def)
  ultimately show ?thesis
    using registry_is_sorted_map [OF sample_coll_total, of one_command "\<lambda>n w. (True, w + n :: nat)" "wide ''exit''" 1
        "wide ''Debug''" True 0]
    by auto
qed

end
