(* ===== verification/ConsoleShell.thy ===== *)
theory ConsoleShell
  imports ConsoleCommand
begin

text \<open>
  The commands of the console (Exit.c, Mem.c, Reset.c), the constructor of the registry, and the
  processing of a line: comments are cut off, the first parameter names the command, the
  parameters are published in the shell parameters protocol, the handler runs, and the parameters
  of before come back (\<open>RunShellCommand\<close>, \<open>RunInternalCommand\<close> of UefiConsole.c).

  The firmware is a record of services.  What a command shows or resets is a list of events; the
  texts it prints are left out.  A failed \<open>ASSERT\<close> is \<open>Aborted\<close>.
\<close>

datatype SHELL_STATUS = SHELL_SUCCESS | SHELL_INVALID_PARAMETER | SHELL_OUT_OF_RESOURCES | SHELL_NOT_FOUND

definition shell_status_value :: "SHELL_STATUS \<Rightarrow> u64" where
  "shell_status_value s = (case s of SHELL_SUCCESS \<Rightarrow> 0 | SHELL_INVALID_PARAMETER \<Rightarrow> 2 | SHELL_OUT_OF_RESOURCES \<Rightarrow> 9
     | SHELL_NOT_FOUND \<Rightarrow> 14)"

record 'w console_services =
  sv_alloc :: "'w alloc"
  sv_nocase :: nocase
  sv_coll :: collation
  sv_system_table :: u64
  sv_memory :: "'w \<Rightarrow> u64 \<Rightarrow> u8"
  sv_locate_pci :: "'w \<Rightarrow> bool \<times> 'w"
  sv_pci_read :: "u64 \<Rightarrow> u64 \<Rightarrow> 'w \<Rightarrow> bytes option \<times> 'w"

datatype reset_type = EfiResetCold | EfiResetWarm | EfiResetShutdown

text \<open>A dump of memory (through the PCI root bridge or not) and a reset with its data.\<close>

datatype console_event =
    Memory_dump bool u64 "(u64 \<times> bytes \<times> bytes) list"
  | Reset_system reset_type "ustring option"

datatype console_handler = ShellCommandRunMem | ShellCommandRunExit | ShellCommandRunReset

record console =
  con_lib :: "console_handler command_library"
  con_params :: shell_parameters

type_synonym 'w command_result = "((SHELL_STATUS \<times> console_event list \<times> console) \<times> 'w) outcome"

subsection \<open>The commands\<close>

text \<open>The common start: the package, \<open>Inl\<close> the status after a flag that is not known.\<close>

definition command_package ::
  "'w console_services \<Rightarrow> SHELL_PARAM_ITEM list \<Rightarrow> console \<Rightarrow> 'w \<Rightarrow>
   ((SHELL_STATUS + SHELL_PARAM_PACKAGE list option) \<times> 'w) outcome" where
  "command_package sv items con w =
     (case ConsoleCommandLineParse (sv_alloc sv) (sv_nocase sv) items (con_params con) w of ((status, package, problem), w1) \<Rightarrow>
        if EFI_ERROR status then
          if status = EFI_VOLUME_CORRUPTED \<and> problem \<noteq> None then Returned (Inl SHELL_INVALID_PARAMETER, w1)
          else Aborted
        else Returned (Inr package, w1))"

definition RunExit :: "'w console_services \<Rightarrow> console \<Rightarrow> 'w \<Rightarrow> 'w command_result" where
  "RunExit sv con w =
     obind (command_package sv [] con w) (\<lambda>(p, w1). case p of
       Inl status \<Rightarrow> Returned ((status, [], con), w1)
     | Inr package \<Rightarrow>
         (case ConsoleCommandLineGetRawValue package 1 of
            Some text0 \<Rightarrow>
              obind (ConsoleConvertStringToUint64 text0 True False False 0) (\<lambda>(status, value).
                if EFI_ERROR status then Returned ((SHELL_INVALID_PARAMETER, [], con), w1)
                else Returned ((SHELL_SUCCESS, [],
                       con\<lparr>con_lib := ConsoleCommandRegisterExit False (the value) (con_lib con)\<rparr>), w1))
          | None \<Rightarrow>
              Returned ((SHELL_SUCCESS, [], con\<lparr>con_lib := ConsoleCommandRegisterExit False 0 (con_lib con)\<rparr>), w1)))"

definition memory_octets :: "'w console_services \<Rightarrow> 'w \<Rightarrow> u64 \<Rightarrow> u64 \<Rightarrow> bytes" where
  "memory_octets sv w address size0 = map (\<lambda>i. sv_memory sv w (address + of_nat i)) [0..<unat size0]"

definition DisplayMmioMemory ::
  "'w console_services \<Rightarrow> u64 \<Rightarrow> u64 \<Rightarrow> 'w \<Rightarrow> (SHELL_STATUS \<times> console_event list) \<times> 'w" where
  "DisplayMmioMemory sv address size0 w =
     (case sv_locate_pci sv w of (found, w1) \<Rightarrow>
      if \<not> found then ((SHELL_NOT_FOUND, []), w1)
      else case sv_alloc sv (unat size0) w1 of (ok, w2) \<Rightarrow>
      if \<not> ok then ((SHELL_OUT_OF_RESOURCES, []), w2)
      else case sv_pci_read sv address size0 w2 of (data, w3) \<Rightarrow>
        (case data of None \<Rightarrow> ((SHELL_NOT_FOUND, []), w3)
         | Some buffer \<Rightarrow> ((SHELL_SUCCESS, [Memory_dump True address (DumpHex address buffer)]), w3)))"

text \<open>One numeric argument of \<open>mem\<close>: the test for a number, then the conversion as hexadecimal.\<close>

definition mem_number :: "ustring \<Rightarrow> bool \<Rightarrow> u64 option outcome" where
  "mem_number text0 force_hex =
     obind (ConsoleIsHexOrDecimalNumber text0 force_hex False) (\<lambda>is_number.
       if \<not> is_number then Returned None
       else obind (ConsoleConvertStringToUint64 text0 True True False 0) (\<lambda>(status, value).
         Returned (if EFI_ERROR status then None else value)))"

definition mem_arguments :: "u64 \<Rightarrow> SHELL_PARAM_PACKAGE list option \<Rightarrow> (u64 \<times> u64) option outcome" where
  "mem_arguments system_table package =
     (if ConsoleCommandLineGetCount package > 3 then Returned None
      else case ConsoleCommandLineGetRawValue package 1 of
          None \<Rightarrow> Returned (Some (system_table, 512))
        | Some text1 \<Rightarrow>
            obind (mem_number text1 True) (\<lambda>address.
            obind (case ConsoleCommandLineGetRawValue package 2 of
                     None \<Rightarrow> Returned (Some 512)
                   | Some text2 \<Rightarrow> mem_number text2 False) (\<lambda>size0.
            Returned (case (address, size0) of (Some a, Some s) \<Rightarrow> Some (a, s) | _ \<Rightarrow> None))))"

definition RunMem :: "'w console_services \<Rightarrow> console \<Rightarrow> 'w \<Rightarrow> 'w command_result" where
  "RunMem sv con w =
     obind (command_package sv [\<lparr>it_name = wide ''-mmio'', it_type = TypeFlag\<rparr>] con w) (\<lambda>(p, w1). case p of
       Inl status \<Rightarrow> Returned ((status, [], con), w1)
     | Inr package \<Rightarrow>
         obind (mem_arguments (sv_system_table sv) package) (\<lambda>args. case args of
           None \<Rightarrow> Returned ((SHELL_INVALID_PARAMETER, [], con), w1)
         | Some (address, size0) \<Rightarrow>
             (case ConsoleCommandLineGetFlag (sv_alloc sv) (sv_nocase sv) package (wide ''-mmio'') w1 of (mmio, w2) \<Rightarrow>
               if \<not> mmio
               then Returned ((SHELL_SUCCESS,
                      [Memory_dump False address (DumpHex address (memory_octets sv w2 address size0))], con), w2)
               else (case DisplayMmioMemory sv address size0 w2 of ((status, events), w3) \<Rightarrow>
                      Returned ((status, events, con), w3)))))"

text \<open>The flags are asked for one after the other.\<close>

definition RunReset :: "'w console_services \<Rightarrow> console \<Rightarrow> 'w \<Rightarrow> 'w command_result" where
  "RunReset sv con w =
     (let flag = (\<lambda>package key. ConsoleCommandLineGetFlag (sv_alloc sv) (sv_nocase sv) package (wide key));
          reset = (\<lambda>kind package key w.
            case ConsoleCommandLineGetValue (sv_alloc sv) (sv_nocase sv) package (wide key) w of (data, w') \<Rightarrow>
              Returned ((SHELL_SUCCESS, [Reset_system kind data], con), w'));
          too_many = (\<lambda>w. Returned ((SHELL_INVALID_PARAMETER, [], con), w))
      in obind (command_package sv (map (\<lambda>k. \<lparr>it_name = wide k, it_type = TypeValue\<rparr>) [''-w'', ''-s'', ''-c'', ''-p'']) con w)
        (\<lambda>(p, w1). case p of
           Inl status \<Rightarrow> Returned ((status, [], con), w1)
         | Inr package \<Rightarrow>
             (case flag package ''-?'' w1 of (help, w2) \<Rightarrow>
              if help then Aborted
              else if ConsoleCommandLineGetRawValue package 1 \<noteq> None then too_many w2
              else case flag package ''-w'' w2 of (warm, w3) \<Rightarrow>
              if warm then
                (case flag package ''-s'' w3 of (s, w4) \<Rightarrow> if s then too_many w4
                 else case flag package ''-c'' w4 of (c, w5) \<Rightarrow> if c then too_many w5
                 else case flag package ''-p'' w5 of (p, w6) \<Rightarrow> if p then too_many w6
                 else reset EfiResetWarm package ''-w'' w6)
              else case flag package ''-s'' w3 of (shutdown, w4) \<Rightarrow>
              if shutdown then
                (case flag package ''-c'' w4 of (c, w5) \<Rightarrow> if c then too_many w5
                 else case flag package ''-p'' w5 of (p, w6) \<Rightarrow> if p then too_many w6
                 else reset EfiResetShutdown package ''-s'' w6)
              else reset EfiResetCold package ''-c'' w4)))"

definition run_handler :: "'w console_services \<Rightarrow> console_handler \<Rightarrow> console \<Rightarrow> 'w \<Rightarrow> 'w command_result" where
  "run_handler sv handler con w =
     (case handler of ShellCommandRunMem \<Rightarrow> RunMem sv con w | ShellCommandRunExit \<Rightarrow> RunExit sv con w
      | ShellCommandRunReset \<Rightarrow> RunReset sv con w)"

subsection \<open>The constructor\<close>

text \<open>
  The first collation protocol that opens (an entry of the list that is not \<open>None\<close>) and knows the
  language of the platform.
\<close>

definition CommandInit :: "'l option \<Rightarrow> ('l \<Rightarrow> 'c \<Rightarrow> bool) \<Rightarrow> 'c option list \<Rightarrow> 'c option \<Rightarrow> EFI_STATUS \<times> 'c option" where
  "CommandInit platform_lang knows handles collation0 =
     (case platform_lang of
        None \<Rightarrow> (EFI_UNSUPPORTED, collation0)
      | Some lang \<Rightarrow>
          let chosen = (if collation0 = None
                then (case find (\<lambda>h. case h of None \<Rightarrow> False | Some c \<Rightarrow> knows lang c) handles of
                        None \<Rightarrow> None | Some h \<Rightarrow> h)
                else collation0)
          in (if chosen = None then EFI_UNSUPPORTED else EFI_SUCCESS, chosen))"

definition empty_library :: "u64 \<Rightarrow> 'h command_library" where
  "empty_library code = \<lparr>cl_commands = [], cl_profiles = None, cl_profile_size = 0, cl_exit_requested = False,
     cl_exit_code = code\<rparr>"

definition console_commands :: "(string \<times> console_handler) list" where
  "console_commands = [(''mem'', ShellCommandRunMem), (''exit'', ShellCommandRunExit), (''reset'', ShellCommandRunReset)]"

fun register_all ::
  "'w alloc \<Rightarrow> collation \<Rightarrow> (string \<times> 'h) list \<Rightarrow> 'h command_library \<Rightarrow> 'w \<Rightarrow> 'h command_library \<times> 'w" where
  "register_all A coll [] lib w = (lib, w)"
| "register_all A coll ((name, handler) # rest) lib w =
     (case ConsoleCommandRegisterCommandName A coll (wide name) handler (wide ''Debug'') True lib w of ((_, lib'), w') \<Rightarrow>
        register_all A coll rest lib' w')"

definition ConsoleCommandsConstructor ::
  "'w alloc \<Rightarrow> EFI_STATUS \<times> collation option \<Rightarrow> 'w \<Rightarrow> (EFI_STATUS \<times> console_handler command_library) \<times> 'w" where
  "ConsoleCommandsConstructor A init w =
     (if EFI_ERROR (fst init) then ((EFI_DEVICE_ERROR, empty_library 0), w)
      else case register_all A (the (snd init)) console_commands (empty_library 0) w of (lib, w') \<Rightarrow>
        ((EFI_SUCCESS, lib), w'))"

subsection \<open>Running a line\<close>

text \<open>The loop that cuts a comment off: \<open>#\<close> ends the line unless \<open>^\<close> is before it.\<close>

fun strip_comment :: "ustring \<Rightarrow> ustring" where
  "strip_comment [] = []"
| "strip_comment (c # s) =
     (if c = 0x5E then (case s of [] \<Rightarrow> [c] | d # r \<Rightarrow> if d = 0x23 then c # d # strip_comment r else c # strip_comment s)
      else if c = 0x23 then []
      else c # strip_comment s)"

text \<open>The loop that takes the escape of a \<open>#\<close> away.\<close>

fun unescape_hash :: "ustring \<Rightarrow> ustring" where
  "unescape_hash [] = []"
| "unescape_hash (c # s) =
     (case s of d # r \<Rightarrow> if c = 0x5E \<and> d = 0x23 then d # unescape_hash r else c # unescape_hash s | [] \<Rightarrow> [c])"

type_synonym 'w line_result = "((EFI_STATUS \<times> console_event list \<times> console) \<times> 'w) outcome"

text \<open>The only call passes no \<open>CommandStatus\<close>.\<close>

definition RunInternalCommand :: "'w console_services \<Rightarrow> ustring \<Rightarrow> ustring \<Rightarrow> console \<Rightarrow> 'w \<Rightarrow> 'w line_result" where
  "RunInternalCommand sv cmd_line first_parameter con w =
     (case sv_alloc sv (StrSize cmd_line) w of (ok, w1) \<Rightarrow>
      if \<not> ok then Returned ((EFI_OUT_OF_RESOURCES, [], con), w1)
      else case UpdateArgcArgv (sv_alloc sv) (con_params con) (unescape_hash cmd_line) Internal_Command w1 of
        ((status, params, old), w2) \<Rightarrow>
          let con1 = con\<lparr>con_params := params\<rparr>;
              restore = (\<lambda>con. con\<lparr>con_params := RestoreArgcArgv (con_params con) old\<rparr>)
          in if EFI_ERROR status then Returned ((status, [], restore con1), w2)
             else case find_command (sv_coll sv) (con_lib con) first_parameter of
                 None \<Rightarrow> Returned ((EFI_NOT_FOUND, [], restore con1), w2)
               | Some command \<Rightarrow>
                   obind (run_handler sv (cm_handler command) con1 w2) (\<lambda>((returned, events, con2), w3).
                     Returned ((if ConsoleCommandGetExit (con_lib con2) then shell_status_value returned else EFI_SUCCESS,
                                events, restore con2), w3)))"

definition RunShellCommand :: "'w console_services \<Rightarrow> ustring \<Rightarrow> console \<Rightarrow> 'w \<Rightarrow> 'w line_result" where
  "RunShellCommand sv cmd_line con w =
     (if cmd_line = [] then Returned ((EFI_SUCCESS, [], con), w)
      else case ConsoleStrnCatGrow (sv_alloc sv) None None cmd_line 0 w of ((copy, _), w1) \<Rightarrow>
        (case copy of None \<Rightarrow> Returned ((EFI_OUT_OF_RESOURCES, [], con), w1)
         | Some text0 \<Rightarrow>
             let clean = TrimSpaces (strip_comment (TrimSpaces text0))
             in if clean = [] then Returned ((EFI_SUCCESS, [], con), w1)
                else case sv_alloc sv (StrSize clean) w1 of (ok, w2) \<Rightarrow>
                  if \<not> ok then Returned ((EFI_OUT_OF_RESOURCES, [], con), w2)
                  else (case GetNextParameter clean True of
                      Inl _ \<Rightarrow> Returned ((EFI_SUCCESS, [], con), w2)
                    | Inr (first_parameter, _) \<Rightarrow> RunInternalCommand sv clean first_parameter con w2)))"

definition RunCommand :: "'w console_services \<Rightarrow> ustring \<Rightarrow> console \<Rightarrow> 'w \<Rightarrow> 'w line_result" where
  "RunCommand sv cmd_line con w = RunShellCommand sv cmd_line con w"


subsection \<open>A console for the examples\<close>

definition sample_services :: "nat console_services" where
  "sample_services = \<lparr>sv_alloc = (\<lambda>n w. (True, w + n)), sv_nocase = (\<lambda>s t. s = t), sv_coll = sample_coll,
     sv_system_table = 0x1000, sv_memory = (\<lambda>w a. ucast a), sv_locate_pci = (\<lambda>w. (False, w)),
     sv_pci_read = (\<lambda>a n w. (None, w))\<rparr>"

definition sample_console :: console where
  "sample_console = \<lparr>con_lib = snd (fst (ConsoleCommandsConstructor (sv_alloc sample_services) (EFI_SUCCESS, Some sample_coll) 0)),
     con_params = \<lparr>sp_argv = None, sp_argc = 0\<rparr>\<rparr>"

lemma sample_services_always: "always (sv_alloc sample_services)"
  by (simp add: always_def sample_services_def)

lemma sample_console_finds:
  "find_command (sv_coll sample_services) (con_lib sample_console) (wide ''exit'') =
     Some \<lparr>cm_string = wide ''exit'', cm_handler = ShellCommandRunExit, cm_last_error = True\<rparr>"
  "find_command (sv_coll sample_services) (con_lib sample_console) (wide ''mem'') =
     Some \<lparr>cm_string = wide ''mem'', cm_handler = ShellCommandRunMem, cm_last_error = True\<rparr>"
  "cl_exit_requested (con_lib sample_console) = False"
  by code_simp+

lemma sample_line:
  "parameter_line (wide ''exit 42'') [wide ''exit'', wide ''42'']"
proof -
  have "parameter_line (wide ''exit'' @ replicate (Suc 0) 0x20 @ wide ''42'') [wide ''exit'', wide ''42'']"
    by (intro parameter_line.intros; simp add: spells_def wide_def blank_def)
  then show ?thesis by (simp add: wide_def)
qed

subsection \<open>Lines that run a command\<close>

declare strip_comment.simps(2) [simp del] unescape_hash.simps(2) [simp del]

lemma strip_comment_none: "0x23 \<notin> set s \<Longrightarrow> strip_comment s = s"
proof (induction s)
  case (Cons c s)
  then show ?case by (cases s) (auto simp: strip_comment.simps(2) [of c "[]"] strip_comment.simps(2) [of c "d # r" for d r])
qed simp

lemma unescape_hash_none: "0x23 \<notin> set s \<Longrightarrow> unescape_hash s = s"
proof (induction s)
  case (Cons c s)
  then show ?case by (cases s) (auto simp: unescape_hash.simps(2) [of c "[]"] unescape_hash.simps(2) [of c "d # r" for d r])
qed simp

lemma parameter_line_first:
  "parameter_line line as \<Longrightarrow> as \<noteq> [] \<and> (\<exists>rest. GetNextParameter line True = Inr (hd as, rest))"
proof (induction rule: parameter_line.induct)
  case (one t a)
  then show ?case using spells_next [of t a "[]" 0] by auto
next
  case (more t a line as k)
  then show ?case using spells_next [of t a "replicate (Suc k) 0x20 @ line" 0] by auto
qed

lemma line_runs:
  assumes "always (sv_alloc sv)" "parameter_line line as" "list_all blank pre" "list_all blank post"
    and "0x23 \<notin> set line" "find_command (sv_coll sv) (con_lib con) (hd as) = Some command"
  shows "\<exists>w'. RunCommand sv (pre @ line @ post) con w =
     obind (run_handler sv (cm_handler command) (con\<lparr>con_params := \<lparr>sp_argv = Some as, sp_argc = length as\<rparr>\<rparr>) w')
       (\<lambda>((returned, events, con'), w''). Returned
          ((if cl_exit_requested (con_lib con') then shell_status_value returned else EFI_SUCCESS, events,
            con'\<lparr>con_params := con_params con\<rparr>), w''))"
proof -
  let ?A = "sv_alloc sv" and ?text = "pre @ line @ post"
  note ends = parameter_line_ends [OF assms(2)]
  have trim: "TrimSpaces ?text = line" by (rule TrimSpaces_line [OF assms(2-4)])
  have trim': "TrimSpaces line = line" using TrimSpaces_line [OF assms(2), of "[]" "[]"] by simp
  obtain w1 where 1: "?A ((length ?text + 1) * 2) w = (True, w1)" by (rule alwaysE [OF assms(1)])
  obtain w2 where 2: "?A (StrSize line) w1 = (True, w2)" by (rule alwaysE [OF assms(1)])
  obtain w3 where 3: "?A (StrSize line) w2 = (True, w3)" by (rule alwaysE [OF assms(1)])
  obtain rest where first: "GetNextParameter line True = Inr (hd as, rest)"
    using parameter_line_first [OF assms(2)] by blast
  have ok: "\<And>n w. fst (?A n w)" using assms(1) by (simp add: always_def)
  obtain w4 where parse: "ParseCommandLineToArgs ?A line True (con_params con) w3 =
      ((EFI_SUCCESS, \<lparr>sp_argv = Some as, sp_argc = length as\<rparr>), w4)"
    using command_line_parsed [OF assms(2), of "[]" "[]" ?A "con_params con" w3] ok by auto
  have grow: "ConsoleStrnCatGrow ?A None None ?text 0 w = ((Some ?text, None), w1)"
    using 1 by (simp add: ConsoleStrnCatGrow_def)
  have "RunCommand sv ?text con w = RunInternalCommand sv line (hd as) con w2"
    using ends trim trim' by (simp add: RunCommand_def RunShellCommand_def grow strip_comment_none [OF assms(5)] 2 first Let_def)
  also have "\<dots> = obind (run_handler sv (cm_handler command) (con\<lparr>con_params := \<lparr>sp_argv = Some as, sp_argc = length as\<rparr>\<rparr>) w4)
       (\<lambda>((returned, events, con'), w''). Returned
          ((if cl_exit_requested (con_lib con') then shell_status_value returned else EFI_SUCCESS, events,
            con'\<lparr>con_params := con_params con\<rparr>), w''))"
    by (simp add: RunInternalCommand_def 3 UpdateArgcArgv_def unescape_hash_none [OF assms(5)] parse assms(6)
        ConsoleCommandGetExit_def RestoreArgcArgv_def Let_def)
  finally show ?thesis by blast
qed

text \<open>
  C32: a line that spells parameters, with no comment in it and the first one a registered command,
  runs the handler of that command with exactly these parameters published; the parameters of
  before are restored, and the status is success or, when an exit is requested, what the handler
  returned.
\<close>
theorem line_runs_command:
  assumes "always (sv_alloc sv)" "parameter_line line as" "list_all blank pre" "list_all blank post"
    and "0x23 \<notin> set line" "find_command (sv_coll sv) (con_lib con) (hd as) = Some command"
  shows "\<exists>w'. RunCommand sv (pre @ line @ post) con w =
     obind (run_handler sv (cm_handler command) (con\<lparr>con_params := \<lparr>sp_argv = Some as, sp_argc = length as\<rparr>\<rparr>) w')
       (\<lambda>((returned, events, con'), w''). Returned
          ((if cl_exit_requested (con_lib con') then shell_status_value returned else EFI_SUCCESS, events,
            con'\<lparr>con_params := con_params con\<rparr>), w''))"
  using assms by (rule line_runs)


theorem line_runs_command_witness:
  "\<exists>w'. RunCommand sample_services (wide '' mem 10 4 '') sample_console 0 =
     obind (RunMem sample_services (sample_console\<lparr>con_params := \<lparr>sp_argv = Some (map wide [''mem'', ''10'', ''4'']), sp_argc = 3\<rparr>\<rparr>) w')
       (\<lambda>((returned, events, con'), w''). Returned
          ((if cl_exit_requested (con_lib con') then shell_status_value returned else EFI_SUCCESS, events,
            con'\<lparr>con_params := con_params sample_console\<rparr>), w''))"
proof -
  have p: "parameter_line (wide ''mem'' @ replicate (Suc 0) 0x20 @ wide ''10'' @ replicate (Suc 0) 0x20 @ wide ''4'')
      [wide ''mem'', wide ''10'', wide ''4'']"
    by (intro parameter_line.intros; simp add: spells_def wide_def blank_def)
  have b: "list_all blank [0x20]" by (simp add: blank_def)
  have f: "find_command (sv_coll sample_services) (con_lib sample_console) (hd [wide ''mem'', wide ''10'', wide ''4'']) =
      Some \<lparr>cm_string = wide ''mem'', cm_handler = ShellCommandRunMem, cm_last_error = True\<rparr>"
    by (simp add: sample_console_finds)
  have "0x23 \<notin> set (wide ''mem'' @ replicate (Suc 0) 0x20 @ wide ''10'' @ replicate (Suc 0) 0x20 @ wide ''4'')"
    by (simp add: wide_def)
  from line_runs_command [OF sample_services_always p b b this f, of 0] show ?thesis
    by (simp add: wide_def run_handler_def numeral_3_eq_3)
qed

text \<open>What the \<open>exit\<close> command gets of its two parameters.\<close>

lemma digits_no_flag:
  assumes "list_all ConsoleIsDecimalDigitCharacter n" "n \<noteq> []"
  shows "known_type nc [] n = None" "\<not> ConsoleInternalIsFlag n allow time" "without_escape n = n"
proof -
  obtain c r where n: "n = c # r" using assms(2) by (cases n) auto
  have "c \<noteq> 0x2D \<and> c \<noteq> 0x2B \<and> c \<noteq> 0x2F \<and> c \<noteq> 0x5E"
    using assms(1) by (auto simp: n ConsoleIsDecimalDigitCharacter_def)
  then show "known_type nc [] n = None" "\<not> ConsoleInternalIsFlag n allow time" "without_escape n = n"
    by (auto simp: n known_type_def wide_def ConsoleInternalIsFlag_def without_escape_def split: list.splits)
qed

text \<open>
  \<open>exit\<close> with a decimal number that fits 64 bits requests the exit with this code and ends with
  success, when no exit was requested before; registry, parameters and everything else are as before.
\<close>
theorem exit_with_code:
  assumes "always (sv_alloc sv)" "parameter_line line [a, n]" "list_all blank pre" "list_all blank post"
    and "0x23 \<notin> set line" "find_command (sv_coll sv) (con_lib con) a = Some command"
    and "cm_handler command = ShellCommandRunExit" "a \<noteq> wide ''-?''" "a \<noteq> wide ''-b''"
    and "\<not> ConsoleInternalIsFlag a False False"
    and "list_all ConsoleIsDecimalDigitCharacter n" "n \<noteq> []" "number_value 10 0 n < 2 ^ 64"
    and "\<not> cl_exit_requested (con_lib con)"
  shows "\<exists>w'. RunCommand sv (pre @ line @ post) con w = Returned ((EFI_SUCCESS, [],
     con\<lparr>con_lib := (con_lib con)\<lparr>cl_exit_requested := True, cl_exit_code := word_of_nat (number_value 10 0 n)\<rparr>\<rparr>), w')"
proof -
  let ?con = "con\<lparr>con_params := \<lparr>sp_argv = Some [a, n], sp_argc = length [a, n]\<rparr>\<rparr>"
  have "\<exists>w'. RunCommand sv (pre @ line @ post) con w =
     obind (run_handler sv (cm_handler command) ?con w')
       (\<lambda>((returned, events, con'), w''). Returned
          ((if cl_exit_requested (con_lib con') then shell_status_value returned else EFI_SUCCESS, events,
            con'\<lparr>con_params := con_params con\<rparr>), w''))"
    by (rule line_runs) (use assms in simp_all)
  then obtain w1 where run: "RunCommand sv (pre @ line @ post) con w =
     obind (RunExit sv ?con w1)
       (\<lambda>((returned, events, con'), w''). Returned
          ((if cl_exit_requested (con_lib con') then shell_status_value returned else EFI_SUCCESS, events,
            con'\<lparr>con_params := con_params con\<rparr>), w''))"
    by (auto simp: run_handler_def assms(7))
  note dig = digits_no_flag [OF assms(11,12)]
  have "read_arguments (sv_nocase sv) [] False [a, n] = Inr [Other (without_escape a), Other n]"
    using assms(8-10) dig by (simp add: known_type_def)
  with arguments_parsed [OF assms(1), of "[a, n]" "sv_nocase sv" "[]" False w1] obtain w2
    where parse: "ConsoleInternalCommandLineParse (sv_alloc sv) (sv_nocase sv) [] [a, n] False w1 =
      ((EFI_SUCCESS, Some (rev (packages 0 [Other (without_escape a), Other n])), None), w2)" by auto
  have raw: "ConsoleCommandLineGetRawValue (Some (rev (packages 0 [Other (without_escape a), Other n]))) 1 = Some n"
    using raw_value_packages [of "[Other (without_escape a), Other n]" 1] by simp
  have conv: "ConsoleConvertStringToUint64 n True False False 0 = Returned (EFI_SUCCESS, Some (word_of_nat (number_value 10 0 n)))"
    using console_numbers [of False n False 0] assms(11-13) by simp
  have "RunExit sv ?con w1 = Returned ((SHELL_SUCCESS, [],
      ?con\<lparr>con_lib := ConsoleCommandRegisterExit False (word_of_nat (number_value 10 0 n)) (con_lib con)\<rparr>), w2)"
    unfolding RunExit_def command_package_def ConsoleCommandLineParse_def
    by (simp add: parse [simplified] raw [simplified] conv)
  then show ?thesis using assms(14) by (simp add: run ConsoleCommandRegisterExit_def shell_status_value_def)
qed


theorem exit_with_code_witness:
  "\<exists>w'. RunCommand sample_services (wide ''exit 42'') sample_console 0 = Returned ((EFI_SUCCESS, [],
     sample_console\<lparr>con_lib := (con_lib sample_console)\<lparr>cl_exit_requested := True, cl_exit_code := 42\<rparr>\<rparr>), w')"
proof -
  have "\<exists>w'. RunCommand sample_services ([] @ wide ''exit 42'' @ []) sample_console 0 = Returned ((EFI_SUCCESS, [],
     sample_console\<lparr>con_lib := (con_lib sample_console)\<lparr>cl_exit_requested := True,
        cl_exit_code := word_of_nat (number_value 10 0 (wide ''42''))\<rparr>\<rparr>), w')"
    by (rule exit_with_code [OF sample_services_always sample_line _ _ _ sample_console_finds(1)])
      (simp_all add: wide_def ConsoleInternalIsFlag_def ConsoleIsDecimalDigitCharacter_def digit_value_def sample_console_finds)
  then show ?thesis by (simp add: wide_def digit_value_def ConsoleIsDecimalDigitCharacter_def)
qed

text \<open>Asking \<open>reset\<close> for help ends in a failed assertion.\<close>

theorem reset_help_aborts:
  "RunCommand sample_services (wide ''reset -?'') sample_console 0 = Aborted"
  by code_simp

end
