(* ===== verification/ConsoleEditor.thy ===== *)
theory ConsoleEditor
  imports EfiBase
begin

text \<open>
  The line editor of UefiConsole.c: \<open>UefiConsoleInRead\<close> reads keys and edits a line in the caller's
  buffer, with cursor keys and the lines of before.  The keys are a list of what
  \<open>ReadKeyStroke\<close> gives; waiting for a key that is not there is \<open>Unfinished\<close>.  What is printed is
  left out, but the cursor position the code computes is kept: columns and rows are 64 bit.

  The buffer is the list of its 16 bit cells; reading or writing outside it is \<open>Faulted\<close>.  The
  console reports at least one column, so the divisions by their number are defined.
\<close>

record EFI_INPUT_KEY =
  key_scan :: u16
  key_char :: u16

record console_screen =
  sc_columns :: u64
  sc_rows :: u64
  sc_start_column :: u64
  sc_start_row :: u64
  sc_set_cursor :: "u64 \<Rightarrow> u64 \<Rightarrow> EFI_STATUS"

text \<open>
  \<open>ed_update\<close> is the index to print from (\<open>None\<close> for -1), \<open>ed_line\<close> the line of the history last
  recalled, oldest first (\<open>None\<close>: the head of the list).
\<close>

record editor =
  ed_buffer :: "u16 list"
  ed_len :: nat
  ed_pos :: nat
  ed_update :: "nat option"
  ed_delete :: nat
  ed_output :: nat
  ed_column :: u64
  ed_row :: u64
  ed_line :: "nat option"

subsection \<open>The history\<close>

definition AddLineToCommandHistory :: "'w alloc \<Rightarrow> ustring \<Rightarrow> ustring list \<Rightarrow> 'w \<Rightarrow> ustring list \<times> 'w" where
  "AddLineToCommandHistory A buffer history w =
     (case A 24 w of (ok1, w1) \<Rightarrow> if \<not> ok1 then (history, w1)
      else case A (StrSize buffer) w1 of (ok2, w2) \<Rightarrow> if \<not> ok2 then (history, w2)
      else let count = (of_nat (length history) :: u16)
        in (if count < 0x20 then history @ [buffer] else drop 1 history @ [buffer], w2))"

text \<open>The nodes before and after one in the ring of the lines and the list head.\<close>

definition previous_line :: "ustring list \<Rightarrow> nat option \<Rightarrow> nat option" where
  "previous_line history p = (case p of
     None \<Rightarrow> if history = [] then None else Some (length history - 1)
   | Some i \<Rightarrow> if i = 0 then None else Some (i - 1))"

definition next_line :: "ustring list \<Rightarrow> nat option \<Rightarrow> nat option" where
  "next_line history p = (case p of
     None \<Rightarrow> if history = [] then None else Some 0
   | Some i \<Rightarrow> if Suc i < length history then Some (Suc i) else None)"

subsection \<open>The cursor\<close>

definition MoveCursorBackward :: "u64 \<Rightarrow> u64 \<times> u64 \<Rightarrow> u64 \<times> u64" where
  "MoveCursorBackward line_length cr =
     (case cr of (column, row) \<Rightarrow>
        if column = 0 then (line_length - 1, if row > 0 then row - 1 else row) else (column - 1, row))"

definition MoveCursorForward :: "u64 \<Rightarrow> u64 \<Rightarrow> u64 \<times> u64 \<Rightarrow> u64 \<times> u64" where
  "MoveCursorForward line_length total_row cr =
     (case cr of (column, row) \<Rightarrow>
        if column + 1 \<ge> line_length then (0, if row < total_row - 1 then row + 1 else row) else (column + 1, row))"

definition at_cursor :: "u64 \<times> u64 \<Rightarrow> editor \<Rightarrow> editor" where
  "at_cursor cr st = st\<lparr>ed_column := fst cr, ed_row := snd cr\<rparr>"

subsection \<open>Access to the buffer\<close>

definition StrLen_of :: "u16 list \<Rightarrow> nat outcome" where
  "StrLen_of buf = (if 0 \<in> set buf then Returned (length (takeWhile (\<lambda>c. c \<noteq> 0) buf)) else Faulted)"

definition put_char :: "nat \<Rightarrow> u16 \<Rightarrow> u16 list \<Rightarrow> u16 list outcome" where
  "put_char i c buf = (if i < length buf then Returned (buf[i := c]) else Faulted)"

definition copy_chars :: "nat \<Rightarrow> ustring \<Rightarrow> u16 list \<Rightarrow> u16 list outcome" where
  "copy_chars i cs buf =
     (if i + length cs \<le> length buf then Returned (take i buf @ cs @ drop (i + length cs) buf) else Faulted)"

text \<open>\<open>CopyMem (CurrentString + i, CurrentString + i + 1, n characters)\<close>.\<close>

definition move_chars :: "nat \<Rightarrow> nat \<Rightarrow> u16 list \<Rightarrow> u16 list outcome" where
  "move_chars i n buf = obind (checked (slice (i + 1) n buf)) (\<lambda>cs. copy_chars i cs buf)"

subsection \<open>The keys\<close>

text \<open>The rows the text before the cursor takes.\<close>

definition rows_before :: "console_screen \<Rightarrow> editor \<Rightarrow> u64" where
  "rows_before scr st = (of_nat (ed_pos st) + sc_start_column scr) div sc_columns scr"

definition key_backspace :: "console_screen \<Rightarrow> editor \<Rightarrow> editor outcome" where
  "key_backspace scr st =
     (if ed_pos st \<noteq> 0 then
        let pos = ed_pos st - 1 in
        obind (move_chars pos (ed_len st - pos) (ed_buffer st)) (\<lambda>buf.
        Returned (at_cursor (MoveCursorBackward (sc_columns scr) (ed_column st, ed_row st))
          (st\<lparr>ed_pos := pos, ed_update := Some pos, ed_delete := 1, ed_buffer := buf\<rparr>)))
      else Returned st)"

definition key_printable :: "u64 \<Rightarrow> u16 \<Rightarrow> editor \<Rightarrow> editor outcome" where
  "key_printable max_str c st =
     (if c \<ge> 0x20 then
        if of_nat (ed_len st) = max_str - 1 \<and> ed_pos st = ed_len st then Returned st
        else obind (put_char (ed_pos st) c (ed_buffer st)) (\<lambda>buf.
          Returned (st\<lparr>ed_buffer := buf, ed_update := Some (ed_pos st), ed_pos := ed_pos st + 1, ed_output := 1\<rparr>))
      else Returned st)"

definition key_delete :: "editor \<Rightarrow> editor outcome" where
  "key_delete st =
     (if ed_len st \<noteq> 0 then
        obind (move_chars (ed_pos st) (ed_len st - ed_pos st) (ed_buffer st)) (\<lambda>buf.
        Returned (st\<lparr>ed_update := Some (ed_pos st), ed_delete := 1, ed_buffer := buf\<rparr>))
      else Returned st)"

definition key_left :: "console_screen \<Rightarrow> editor \<Rightarrow> editor" where
  "key_left scr st =
     (if ed_pos st \<noteq> 0 then
        at_cursor (MoveCursorBackward (sc_columns scr) (ed_column st, ed_row st)) (st\<lparr>ed_pos := ed_pos st - 1\<rparr>)
      else st)"

definition key_right :: "console_screen \<Rightarrow> editor \<Rightarrow> editor" where
  "key_right scr st =
     (if ed_pos st < ed_len st then
        at_cursor (MoveCursorForward (sc_columns scr) (sc_rows scr) (ed_column st, ed_row st)) (st\<lparr>ed_pos := ed_pos st + 1\<rparr>)
      else st)"

definition key_home :: "console_screen \<Rightarrow> editor \<Rightarrow> editor" where
  "key_home scr st = st\<lparr>ed_row := ed_row st - rows_before scr st, ed_column := sc_start_column scr, ed_pos := 0\<rparr>"

definition tail_cells :: "editor \<Rightarrow> u64" where
  "tail_cells st = of_nat (ed_len st) - of_nat (ed_pos st) + ed_column st"

definition key_end :: "console_screen \<Rightarrow> editor \<Rightarrow> editor" where
  "key_end scr st = st\<lparr>ed_row := ed_row st + tail_cells st div sc_columns scr,
     ed_column := tail_cells st mod sc_columns scr, ed_pos := ed_len st\<rparr>"

definition key_esc :: "console_screen \<Rightarrow> editor \<Rightarrow> editor outcome" where
  "key_esc scr st =
     obind (put_char 0 0 (ed_buffer st)) (\<lambda>buf.
     Returned (st\<lparr>ed_buffer := buf, ed_update := Some 0, ed_delete := ed_len st,
       ed_row := ed_row st - rows_before scr st, ed_column := sc_start_column scr, ed_output := 0\<rparr>))"

text \<open>
  The switch over the key, but for the carriage return: the new state and, for the up and down keys,
  the line to recall.  Both keys stop at the ends of the history.
\<close>

definition press_key ::
  "console_screen \<Rightarrow> ustring list \<Rightarrow> u64 \<Rightarrow> EFI_INPUT_KEY \<Rightarrow> editor \<Rightarrow> (editor \<times> nat option) outcome" where
  "press_key scr history max_str key st =
     (let stay = (\<lambda>st. Returned (st, None)); scan = key_scan key in
      if key_char key = 0x08 then obind (key_backspace scr st) stay
      else if key_char key \<noteq> 0 then obind (key_printable max_str (key_char key) st) stay
      else if scan = 0x08 then obind (key_delete st) stay
      else if scan = 0x01 then Returned (st, previous_line history (ed_line st))
      else if scan = 0x02 then Returned (st, next_line history (ed_line st))
      else if scan = 0x04 then stay (key_left scr st)
      else if scan = 0x03 then stay (key_right scr st)
      else if scan = 0x05 then stay (key_home scr st)
      else if scan = 0x06 then stay (key_end scr st)
      else if scan = 0x17 then obind (key_esc scr st) stay
      else stay st)"

definition recall_line :: "console_screen \<Rightarrow> ustring list \<Rightarrow> u64 \<Rightarrow> nat option \<Rightarrow> editor \<Rightarrow> editor outcome" where
  "recall_line scr history max_str new_pos st =
     (case new_pos of None \<Rightarrow> Returned st
      | Some i \<Rightarrow>
          let line = history ! i;
              output = (if of_nat (length line) < max_str - 1 then length line else unat (max_str - 1))
          in obind (copy_chars 0 (take output line) (ed_buffer st)) (\<lambda>buf1.
             obind (put_char output 0 buf1) (\<lambda>buf2.
             Returned (st\<lparr>ed_column := sc_start_column scr, ed_row := ed_row st - rows_before scr st, ed_line := Some i,
               ed_output := output, ed_buffer := buf2, ed_pos := output, ed_update := Some 0,
               ed_delete := (if ed_len st > output then ed_len st - output else ed_delete st)\<rparr>))))"

text \<open>The cursor after the text printed last; the screen rolls when its end is reached.\<close>

definition advance_cursor :: "console_screen \<Rightarrow> editor \<Rightarrow> editor" where
  "advance_cursor scr st =
     (let total = sc_columns scr; output = of_nat (ed_output st) :: u64;
          tail_row = ed_row st + (tail_cells st + output) div total;
          tail_column = (tail_cells st + output) mod total;
          row = (if tail_column = 0 \<and> tail_row \<ge> sc_rows scr \<and> ed_row st \<noteq> tail_row then ed_row st - 1 else ed_row st)
      in if ed_column st + output \<ge> total
         then let skip = output - (total - ed_column st); row' = row + (skip div total + 1)
           in st\<lparr>ed_row := (if row' > sc_rows scr - 1 then sc_rows scr - 1 else row'), ed_column := skip mod total\<rparr>
         else st\<lparr>ed_row := row, ed_column := ed_column st + output\<rparr>)"

definition update_line :: "console_screen \<Rightarrow> EFI_INPUT_KEY \<Rightarrow> editor \<Rightarrow> editor outcome" where
  "update_line scr key st =
     (if ed_update st = None then Returned st
      else obind (StrLen_of (ed_buffer st)) (\<lambda>len.
        obind (if ed_delete st \<noteq> 0 then copy_chars len (replicate (ed_delete st) 0) (ed_buffer st)
               else Returned (ed_buffer st)) (\<lambda>buf.
        let st1 = st\<lparr>ed_len := len, ed_buffer := buf, ed_pos := (if ed_pos st > len then len else ed_pos st),
                     ed_update := None\<rparr>;
            st2 = (if key_char key \<noteq> 0x08 \<and> \<not> (key_char key = 0 \<and> key_scan key = 0x08) then advance_cursor scr st1 else st1)
        in Returned (st2\<lparr>ed_delete := 0\<rparr>))))"

definition editor_key :: "console_screen \<Rightarrow> ustring list \<Rightarrow> u64 \<Rightarrow> EFI_INPUT_KEY \<Rightarrow> editor \<Rightarrow> editor outcome" where
  "editor_key scr history max_str key st =
     obind (press_key scr history max_str key st) (\<lambda>(st1, new_pos).
     obind (recall_line scr history max_str new_pos st1) (\<lambda>st2. update_line scr key st2))"

text \<open>The carriage return moves the cursor behind the line; its status is the one returned.\<close>

definition enter_status :: "console_screen \<Rightarrow> editor \<Rightarrow> EFI_STATUS" where
  "enter_status scr st =
     (if ed_column st \<noteq> -1 \<and> ed_row st \<noteq> -1
      then sc_set_cursor scr (tail_cells st mod sc_columns scr) (ed_row st + tail_cells st div sc_columns scr)
      else EFI_SUCCESS)"

fun edit_keys ::
  "console_screen \<Rightarrow> ustring list \<Rightarrow> u64 \<Rightarrow> (EFI_STATUS \<times> EFI_INPUT_KEY) list \<Rightarrow> editor \<Rightarrow> (EFI_STATUS \<times> editor) outcome" where
  "edit_keys scr history max_str [] st = Unfinished"
| "edit_keys scr history max_str ((status, key) # keys) st =
     (if EFI_ERROR status then
        if status = EFI_NOT_READY then edit_keys scr history max_str keys st
        else obind (copy_chars 0 (replicate (unat max_str) 0) (ed_buffer st)) (\<lambda>buf.
          Returned (status, st\<lparr>ed_buffer := buf, ed_len := 0\<rparr>))
      else if key_char key = 0x0D then Returned (enter_status scr st, st)
      else obind (editor_key scr history max_str key st) (edit_keys scr history max_str keys))"

definition max_line :: "console_screen \<Rightarrow> nat \<Rightarrow> u64" where
  "max_line scr cells =
     (let m = sc_columns scr * (sc_rows scr - 1) - sc_start_column scr in if m > of_nat cells then of_nat cells else m)"

definition start_editor :: "console_screen \<Rightarrow> u16 list \<Rightarrow> editor" where
  "start_editor scr buf = \<lparr>ed_buffer = buf, ed_len = 0, ed_pos = 0, ed_update = Some 0, ed_delete = 0, ed_output = 0,
     ed_column = sc_start_column scr, ed_row = sc_start_row scr, ed_line = None\<rparr>"

text \<open>
  \<open>buffer\<close> holds \<open>BufferSize\<close> bytes.  The result is the status, the buffer, the new \<open>BufferSize\<close> and
  the history.
\<close>

definition UefiConsoleInRead ::
  "'w alloc \<Rightarrow> console_screen \<Rightarrow> ustring list \<Rightarrow> u16 list \<Rightarrow> (EFI_STATUS \<times> EFI_INPUT_KEY) list \<Rightarrow> 'w \<Rightarrow>
   ((EFI_STATUS \<times> u16 list \<times> nat \<times> ustring list) \<times> 'w) outcome" where
  "UefiConsoleInRead A scr history buffer keys w =
     (if length buffer < 2 then Returned ((EFI_BUFFER_TOO_SMALL, buffer, 4, history), w)
      else let max_str = max_line scr (length buffer)
        in obind (copy_chars 0 (replicate (unat max_str) 0) buffer) (\<lambda>buf.
           obind (edit_keys scr history max_str keys (start_editor scr buf)) (\<lambda>(status, st).
           obind (StrLen_of (ed_buffer st)) (\<lambda>len.
             case (if len > 0 then AddLineToCommandHistory A (take len (ed_buffer st)) history w else (history, w)) of
               (history', w') \<Rightarrow> Returned ((status, ed_buffer st, 2 * ed_len st, history'), w')))))"
subsection \<open>The line that is edited\<close>

text \<open>The specification: a text, the place of the cursor in it and the line recalled last.\<close>

record line =
  ln_text :: ustring
  ln_pos :: nat
  ln_line :: "nat option"

definition recalled :: "ustring list \<Rightarrow> nat \<Rightarrow> nat option \<Rightarrow> line \<Rightarrow> line" where
  "recalled history n new l =
     (case new of None \<Rightarrow> l
      | Some i \<Rightarrow> let t = take (n - 1) (history ! i) in \<lparr>ln_text = t, ln_pos = length t, ln_line = Some i\<rparr>)"

definition line_key :: "ustring list \<Rightarrow> nat \<Rightarrow> EFI_INPUT_KEY \<Rightarrow> line \<Rightarrow> line" where
  "line_key history n key l =
     (let t = ln_text l; p = ln_pos l; c = key_char key; scan = key_scan key in
      if c = 0x08 then (if p = 0 then l else l\<lparr>ln_text := take (p - 1) t @ drop p t, ln_pos := p - 1\<rparr>)
      else if c \<ge> 0x20 then
        (if length t = n - 1 \<and> p = length t then l
         else l\<lparr>ln_text := take p t @ c # drop (p + 1) t, ln_pos := p + 1\<rparr>)
      else if c \<noteq> 0 then l
      else if scan = 0x08 then l\<lparr>ln_text := take p t @ drop (p + 1) t\<rparr>
      else if scan = 0x01 then recalled history n (previous_line history (ln_line l)) l
      else if scan = 0x02 then recalled history n (next_line history (ln_line l)) l
      else if scan = 0x04 then l\<lparr>ln_pos := p - 1\<rparr>
      else if scan = 0x03 then l\<lparr>ln_pos := min (p + 1) (length t)\<rparr>
      else if scan = 0x05 then l\<lparr>ln_pos := 0\<rparr>
      else if scan = 0x06 then l\<lparr>ln_pos := length t\<rparr>
      else if scan = 0x17 then l\<lparr>ln_text := [], ln_pos := 0\<rparr>
      else l)"

text \<open>
  The editor holds a line: the first \<open>n\<close> cells of the buffer are its text and zeros, at least one,
  and nothing is left to delete.  While a key is processed, the text is already there with a
  terminator, and what is not zero behind it is about to be deleted.
\<close>

definition holds :: "nat \<Rightarrow> editor \<Rightarrow> line \<Rightarrow> bool" where
  "holds n st l \<longleftrightarrow>
     (\<exists>rest. ed_buffer st = ln_text l @ replicate (n - length (ln_text l)) 0 @ rest) \<and>
     is_ustring (ln_text l) \<and> length (ln_text l) < n \<and> ed_len st = length (ln_text l) \<and>
     ed_pos st = ln_pos l \<and> ln_pos l \<le> length (ln_text l) \<and> ed_delete st = 0 \<and> ed_line st = ln_line l"

definition becomes :: "nat \<Rightarrow> editor \<Rightarrow> line \<Rightarrow> bool" where
  "becomes n st l \<longleftrightarrow>
     (\<exists>z rest. ed_buffer st = ln_text l @ 0 # z @ rest \<and> length (ln_text l) + 1 + length z = n \<and>
        ed_delete st \<le> length z + 1 \<and> drop (ed_delete st) (0 # z) = replicate (length z + 1 - ed_delete st) 0) \<and>
     is_ustring (ln_text l) \<and> min (ed_pos st) (length (ln_text l)) = ln_pos l \<and> ed_line st = ln_line l \<and>
     (ed_update st = None \<longrightarrow> holds n st l)"

lemma holds_becomes: "holds n st l \<Longrightarrow> becomes n st l"
proof -
  assume h: "holds n st l"
  then obtain rest where b: "ed_buffer st = ln_text l @ replicate (n - length (ln_text l)) 0 @ rest"
    and d: "length (ln_text l) < n" "ed_delete st = 0" by (auto simp: holds_def)
  obtain k where k: "n - length (ln_text l) = Suc k" using d(1) by (metis Suc_diff_Suc)
  have "ed_buffer st = ln_text l @ 0 # replicate k 0 @ rest" using b k by simp
  then show ?thesis using h k d
    unfolding becomes_def
    by (intro conjI exI [of _ "replicate k 0"] exI [of _ rest]) (auto simp: holds_def)
qed

lemma StrLen_of_text: "is_ustring t \<Longrightarrow> StrLen_of (t @ 0 # r) = Returned (length t)"
  by (induction t) (auto simp: StrLen_of_def)

lemma update_line_holds:
  assumes "becomes n st l"
  shows "\<exists>st'. update_line scr key st = Returned st' \<and> holds n st' l"
proof (cases "ed_update st = None")
  case True
  with assms show ?thesis by (simp add: becomes_def update_line_def)
next
  case False
  from assms obtain z rest where b: "ed_buffer st = ln_text l @ 0 # z @ rest" "length (ln_text l) + 1 + length z = n"
    "ed_delete st \<le> length z + 1" "drop (ed_delete st) (0 # z) = replicate (length z + 1 - ed_delete st) 0"
    and t: "is_ustring (ln_text l)" "min (ed_pos st) (length (ln_text l)) = ln_pos l" "ed_line st = ln_line l"
    by (auto simp: becomes_def)
  let ?buf = "ln_text l @ replicate (n - length (ln_text l)) 0 @ rest"
  have n: "n - length (ln_text l) = Suc (length z)" using b(2) by simp
  have buf: "(if ed_delete st \<noteq> 0 then copy_chars (length (ln_text l)) (replicate (ed_delete st) 0) (ed_buffer st)
       else Returned (ed_buffer st)) = Returned ?buf"
  proof (cases "ed_delete st = 0")
    case True
    with b(4) have "0 # z = replicate (Suc (length z)) 0" by simp
    then show ?thesis using True b(1) by (simp add: n)
  next
    case False
    define zz where "zz = 0 # z"
    have "ed_buffer st = ln_text l @ zz @ rest" "ed_delete st \<le> length zz" using b(1,3) by (simp_all add: zz_def)
    then have "drop (length (ln_text l) + ed_delete st) (ed_buffer st) = drop (ed_delete st) (0 # z) @ rest"
      by (simp add: zz_def [symmetric])
    also have "\<dots> = replicate (Suc (length z) - ed_delete st) 0 @ rest" using b(4) by simp
    finally have d: "drop (length (ln_text l) + ed_delete st) (ed_buffer st) =
        replicate (Suc (length z) - ed_delete st) 0 @ rest" .
    have "replicate (ed_delete st) 0 @ replicate (Suc (length z) - ed_delete st) 0 = replicate (Suc (length z)) (0 :: u16)"
      using b(3) by (simp flip: replicate_add)
    with False d b(1,3) show ?thesis by (simp add: copy_chars_def n flip: append_assoc)
  qed
  show ?thesis
    using False buf t b(2) StrLen_of_text [OF t(1), of "z @ rest"] b(1)
    by (auto simp: update_line_def holds_def Let_def advance_cursor_def min_def split: if_splits)
qed
lemma becomesI:
  assumes "ed_buffer st = ln_text l @ 0 # z @ rest" "length (ln_text l) + 1 + length z = n"
    and "ed_delete st \<le> length z + 1" "drop (ed_delete st) (0 # z) = replicate (length z + 1 - ed_delete st) 0"
    and "is_ustring (ln_text l)" "min (ed_pos st) (length (ln_text l)) = ln_pos l" "ed_line st = ln_line l"
    and "ed_update st \<noteq> None"
  shows "becomes n st l"
  using assms unfolding becomes_def by blast

lemma holdsE:
  assumes "holds n st l"
  obtains k rest where "ed_buffer st = ln_text l @ 0 # replicate k 0 @ rest" "length (ln_text l) + 1 + k = n"
    "is_ustring (ln_text l)" "ed_len st = length (ln_text l)" "ed_pos st = ln_pos l" "ln_pos l \<le> length (ln_text l)"
    "ed_delete st = 0" "ed_line st = ln_line l"
proof -
  from assms obtain rest where b: "ed_buffer st = ln_text l @ replicate (n - length (ln_text l)) 0 @ rest"
    and d: "length (ln_text l) < n" by (auto simp: holds_def)
  obtain k where "n - length (ln_text l) = Suc k" using d by (metis Suc_diff_Suc)
  with that [of k rest] b d assms show thesis by (simp add: holds_def)
qed

lemma move_text:
  assumes "p < length t"
  shows "move_chars p (length t - p) (t @ 0 # r) = Returned (take p t @ drop (p + 1) t @ 0 # 0 # r)"
proof -
  have "take (length t - p) (drop (p + 1) (t @ 0 # r)) = drop (p + 1) t @ [0]"
    using assms by (simp add: take_Cons')
  then show ?thesis using assms by (simp add: move_chars_def slice_def copy_chars_def)
qed

lemma move_nothing: "move_chars (length t) 0 (t @ 0 # r) = Returned (t @ 0 # r)"
  by (simp add: move_chars_def slice_def copy_chars_def)

lemma put_text:
  "p < length t \<Longrightarrow> put_char p c (t @ 0 # r) = Returned (take p t @ c # drop (p + 1) t @ 0 # r)"
  "put_char (length t) c (t @ 0 # d # r) = Returned ((t @ [c]) @ d # r)"
  by (simp_all add: put_char_def list_update_append upd_conv_take_nth_drop)

lemma is_ustring_take_drop: "is_ustring t \<Longrightarrow> is_ustring (take p t)" "is_ustring t \<Longrightarrow> is_ustring (drop p t)"
  by (auto simp: is_ustring_def dest: in_set_takeD in_set_dropD)

lemma backspace_becomes:
  assumes "holds n st l"
  shows "\<exists>st'. key_backspace scr st = Returned st' \<and>
    becomes n st' (if ln_pos l = 0 then l else l\<lparr>ln_text := take (ln_pos l - 1) (ln_text l) @ drop (ln_pos l) (ln_text l),
      ln_pos := ln_pos l - 1\<rparr>)"
proof (cases "ln_pos l = 0")
  case True
  with assms show ?thesis using holds_becomes [OF assms] by (auto simp: key_backspace_def holds_def)
next
  case False
  obtain k rest where h: "ed_buffer st = ln_text l @ 0 # replicate k 0 @ rest" "length (ln_text l) + 1 + k = n"
    "is_ustring (ln_text l)" "ed_len st = length (ln_text l)" "ed_pos st = ln_pos l" "ln_pos l \<le> length (ln_text l)"
    "ed_delete st = 0" "ed_line st = ln_line l" by (rule holdsE [OF assms])
  have "move_chars (ln_pos l - 1) (length (ln_text l) - (ln_pos l - 1)) (ln_text l @ 0 # replicate k 0 @ rest) =
      Returned (take (ln_pos l - 1) (ln_text l) @ drop (ln_pos l) (ln_text l) @ 0 # 0 # replicate k 0 @ rest)"
    using move_text [of "ln_pos l - 1" "ln_text l" "replicate k 0 @ rest"] False h(6) by simp
  with False h show ?thesis
    by (auto simp: key_backspace_def Let_def at_cursor_def is_ustring_take_drop
        intro!: becomesI [where z = "0 # replicate k 0" and rest = rest])
qed

lemma delete_becomes:
  assumes "holds n st l"
  shows "\<exists>st'. key_delete st = Returned st' \<and>
    becomes n st' (l\<lparr>ln_text := take (ln_pos l) (ln_text l) @ drop (ln_pos l + 1) (ln_text l)\<rparr>)"
proof -
  obtain k rest where h: "ed_buffer st = ln_text l @ 0 # replicate k 0 @ rest" "length (ln_text l) + 1 + k = n"
    "is_ustring (ln_text l)" "ed_len st = length (ln_text l)" "ed_pos st = ln_pos l" "ln_pos l \<le> length (ln_text l)"
    "ed_delete st = 0" "ed_line st = ln_line l" by (rule holdsE [OF assms])
  consider "ln_text l = []" | "ln_text l \<noteq> []" "ln_pos l = length (ln_text l)" | "ln_pos l < length (ln_text l)"
    using h(6) by linarith
  then show ?thesis
  proof cases
    case 1
    then have same: "l\<lparr>ln_text := []\<rparr> = l" by (cases l) simp
    have "becomes n st (l\<lparr>ln_text := []\<rparr>)" by (subst same) (rule holds_becomes [OF assms])
    with 1 h(4) show ?thesis by (simp add: key_delete_def)
  next
    case 2
    with h move_nothing [of "ln_text l" "replicate k 0 @ rest"] show ?thesis
      by (auto simp: key_delete_def intro!: becomesI [where z = "replicate k 0" and rest = rest])
  next
    case 3
    with h move_text [OF 3, of "replicate k 0 @ rest"] show ?thesis
      by (auto simp: key_delete_def is_ustring_take_drop intro!: becomesI [where z = "0 # replicate k 0" and rest = rest])
  qed
qed

lemma esc_becomes:
  assumes "holds n st l"
  shows "\<exists>st'. key_esc scr st = Returned st' \<and> becomes n st' (l\<lparr>ln_text := [], ln_pos := 0\<rparr>)"
proof -
  obtain k rest where h: "ed_buffer st = ln_text l @ 0 # replicate k 0 @ rest" "length (ln_text l) + 1 + k = n"
    "is_ustring (ln_text l)" "ed_len st = length (ln_text l)" "ed_pos st = ln_pos l" "ln_pos l \<le> length (ln_text l)"
    "ed_delete st = 0" "ed_line st = ln_line l" by (rule holdsE [OF assms])
  show ?thesis
  proof (cases "ln_text l")
    case Nil
    with h show ?thesis
      by (auto simp: key_esc_def put_char_def intro!: becomesI [where z = "replicate k 0" and rest = rest])
  next
    case (Cons c t)
    with h show ?thesis
      by (auto simp: key_esc_def put_char_def intro!: becomesI [where z = "t @ 0 # replicate k 0" and rest = rest])
  qed
qed

lemma printable_becomes:
  assumes "holds (unat m) st l" "c \<noteq> 0"
  shows "\<exists>st'. key_printable m c st = Returned st' \<and>
    becomes (unat m) st' (if c < 0x20 \<or> length (ln_text l) = unat m - 1 \<and> ln_pos l = length (ln_text l) then l
      else l\<lparr>ln_text := take (ln_pos l) (ln_text l) @ c # drop (ln_pos l + 1) (ln_text l), ln_pos := ln_pos l + 1\<rparr>)"
proof -
  obtain k rest where h: "ed_buffer st = ln_text l @ 0 # replicate k 0 @ rest" "length (ln_text l) + 1 + k = unat m"
    "is_ustring (ln_text l)" "ed_len st = length (ln_text l)" "ed_pos st = ln_pos l" "ln_pos l \<le> length (ln_text l)"
    "ed_delete st = 0" "ed_line st = ln_line l" by (rule holdsE [OF assms(1)])
  have "m \<noteq> 0" using h(2) by auto
  then have "unat (m - 1) = unat m - 1" by (rule unat_minus_one)
  moreover have "length (ln_text l) < 2 ^ 64" using h(2) unat_less [of m] by simp
  ultimately have full: "(of_nat (length (ln_text l)) = m - 1) = (length (ln_text l) = unat m - 1)"
    by (simp add: word_unat_eq_iff unat_of_nat take_bit_nat_eq_self)
  show ?thesis
  proof (cases "c < 0x20 \<or> length (ln_text l) = unat m - 1 \<and> ln_pos l = length (ln_text l)")
    case True
    with holds_becomes [OF assms(1)] h full show ?thesis by (auto simp: key_printable_def not_le)
  next
    case False
    then have c: "0x20 \<le> c" by (simp add: not_less)
    show ?thesis
    proof (cases "ln_pos l < length (ln_text l)")
      case True
      with h False c full assms(2) put_text(1) [OF True, of c "replicate k 0 @ rest"] show ?thesis
        by (auto simp: key_printable_def is_ustring_take_drop intro!: becomesI [where z = "replicate k 0" and rest = rest])
    next
      case p: False
      with h(6) have p: "ln_pos l = length (ln_text l)" by simp
      with False h(2) obtain j where j: "k = Suc j" by (cases k) auto
      with h False c full assms(2) p put_text(2) [of "ln_text l" c 0 "replicate j 0 @ rest"] show ?thesis
        by (auto simp: key_printable_def intro!: becomesI [where z = "replicate j 0" and rest = rest])
    qed
  qed
qed


lemma recall_becomes:
  assumes "becomes (unat m) st l" "new \<noteq> None \<Longrightarrow> holds (unat m) st l" "\<And>h. h \<in> set history \<Longrightarrow> is_ustring h \<and> length h < 2 ^ 64"
    and "\<And>i. new = Some i \<Longrightarrow> i < length history"
  shows "\<exists>st'. recall_line scr history m new st = Returned st' \<and> becomes (unat m) st' (recalled history (unat m) new l)"
proof (cases new)
  case None
  with assms(1) show ?thesis by (simp add: recall_line_def recalled_def)
next
  case (Some i)
  with assms(2) have hold: "holds (unat m) st l" by simp
  obtain k rest where h: "ed_buffer st = ln_text l @ 0 # replicate k 0 @ rest" "length (ln_text l) + 1 + k = unat m"
    "is_ustring (ln_text l)" "ed_len st = length (ln_text l)" "ed_pos st = ln_pos l" "ln_pos l \<le> length (ln_text l)"
    "ed_delete st = 0" "ed_line st = ln_line l" by (rule holdsE [OF hold])
  let ?line = "history ! i"
  let ?t = "take (unat m - 1) ?line"
  have "m \<noteq> 0" using h(2) by auto
  then have m1: "unat (m - 1) = unat m - 1" by (rule unat_minus_one)
  have line: "is_ustring ?line" "length ?line < 2 ^ 64" using assms(3) assms(4) [OF Some] nth_mem by blast+
  have out: "(if of_nat (length ?line) < m - 1 then length ?line else unat (m - 1)) = length ?t"
    using line(2) by (auto simp: word_less_nat_alt unat_of_nat take_bit_nat_eq_self m1)
  have taken: "take (length ?t) ?line = ?t" by (simp add: min_def)
  have t: "is_ustring ?t" "length ?t + 1 \<le> unat m" using line(1) h(2) by (simp_all add: is_ustring_take_drop)
  show ?thesis
  proof (cases "length ?t < length (ln_text l)")
    case True
    obtain c q where q: "drop (length ?t) (ln_text l) = c # q"
      using True by (cases "drop (length ?t) (ln_text l)") (auto simp del: length_take)
    then have "length (ln_text l) - length ?t = Suc (length q)" by (metis length_Cons length_drop)
    with True have lq: "length (ln_text l) = length ?t + 1 + length q" by linarith
    have "drop (length ?t) (ed_buffer st) = c # q @ 0 # replicate k 0 @ rest"
      using q True h(1) by (simp del: length_take)
    then have "copy_chars 0 ?t (ed_buffer st) = Returned (?t @ c # q @ 0 # replicate k 0 @ rest)"
      using True h(1) by (simp add: copy_chars_def del: length_take)
    moreover have "put_char (length ?t) 0 (?t @ c # q @ 0 # replicate k 0 @ rest) =
        Returned (?t @ 0 # (q @ 0 # replicate k 0) @ rest)"
      by (simp add: put_char_def list_update_append del: length_take)
    ultimately show ?thesis using t h(2,4,7) lq
      unfolding recall_line_def Some Let_def option.case out taken
      by (auto simp: recalled_def Let_def simp del: length_take
          intro!: becomesI [where z = "q @ 0 # replicate k 0" and rest = rest])
  next
    case False
    obtain j where j: "unat m = length ?t + 1 + j" using t(2) le_Suc_ex by metis
    have "drop (length ?t) (ed_buffer st) = replicate (Suc j) 0 @ rest"
    proof -
      obtain d where d: "length ?t = length (ln_text l) + d" using False le_Suc_ex not_less by metis
      with h(2) j have "Suc k = d + Suc j" by linarith
      then have "0 # replicate k 0 = replicate d 0 @ replicate (Suc j) (0 :: u16)"
        by (simp only: replicate_add [symmetric] replicate_Suc [symmetric])
      then have "ed_buffer st = ln_text l @ replicate d 0 @ replicate (Suc j) 0 @ rest"
        using h(1) by (metis append_Cons append_assoc)
      then show ?thesis unfolding d by simp
    qed
    then have "copy_chars 0 ?t (ed_buffer st) = Returned (?t @ 0 # replicate j 0 @ rest)"
      using h(1,2) j by (simp add: copy_chars_def del: length_take)
    moreover have "put_char (length ?t) 0 (?t @ 0 # replicate j 0 @ rest) = Returned (?t @ 0 # replicate j 0 @ rest)"
      by (simp add: put_char_def list_update_append del: length_take)
    ultimately show ?thesis using t h(2,4,7) j False
      unfolding recall_line_def Some Let_def option.case out taken
      by (auto simp: recalled_def Let_def simp del: length_take
          intro!: becomesI [where z = "replicate j 0" and rest = rest])
  qed
qed


subsection \<open>The editor edits the line\<close>

definition history_ok :: "ustring list \<Rightarrow> bool" where
  "history_ok history \<longleftrightarrow> length history \<le> 32 \<and> (\<forall>h \<in> set history. is_ustring h \<and> length h < 2 ^ 64)"

definition line_valid :: "ustring list \<Rightarrow> line \<Rightarrow> bool" where
  "line_valid history l \<longleftrightarrow> (\<forall>i. ln_line l = Some i \<longrightarrow> i < length history)"

lemma line_valid_updates [simp]:
  "line_valid history (l\<lparr>ln_text := t\<rparr>) = line_valid history l"
  "line_valid history (l\<lparr>ln_pos := p\<rparr>) = line_valid history l"
  by (simp_all add: line_valid_def)

lemma recalled_valid:
  "line_valid history l \<Longrightarrow> line_valid history (recalled history n (previous_line history (ln_line l)) l)"
  "line_valid history l \<Longrightarrow> line_valid history (recalled history n (next_line history (ln_line l)) l)"
  by (auto simp: line_valid_def recalled_def Let_def previous_line_def next_line_def split: option.splits if_splits)

lemma line_key_valid: "line_valid history l \<Longrightarrow> line_valid history (line_key history n key l)"
  by (simp add: line_key_def Let_def recalled_valid)

lemma move_keys_becomes:
  assumes "holds n st l"
  shows "becomes n (key_left scr st) (l\<lparr>ln_pos := ln_pos l - 1\<rparr>)"
    "becomes n (key_right scr st) (l\<lparr>ln_pos := min (ln_pos l + 1) (length (ln_text l))\<rparr>)"
    "becomes n (key_home scr st) (l\<lparr>ln_pos := 0\<rparr>)"
    "becomes n (key_end scr st) (l\<lparr>ln_pos := length (ln_text l)\<rparr>)"
  using assms
  by (auto simp: holds_def key_left_def key_right_def key_home_def key_end_def at_cursor_def intro!: holds_becomes)

lemma editor_key_line:
  assumes "holds (unat m) st l" "history_ok history" "line_valid history l"
  shows "\<exists>st'. editor_key scr history m key st = Returned st' \<and> holds (unat m) st' (line_key history (unat m) key l)"
proof -
  have settle: "\<exists>st'. obind (recall_line scr history m None st1) (update_line scr key) = Returned st' \<and> holds (unat m) st' l1"
    if "becomes (unat m) st1 l1" for st1 l1
    using update_line_holds [OF that] by (simp add: recall_line_def)
  have recall: "\<exists>st'. obind (recall_line scr history m new st) (update_line scr key) = Returned st' \<and>
      holds (unat m) st' (recalled history (unat m) new l)"
    if v: "\<And>i. new = Some i \<Longrightarrow> i < length history" for new
  proof -
    obtain st1 where "recall_line scr history m new st = Returned st1" "becomes (unat m) st1 (recalled history (unat m) new l)"
      using recall_becomes [OF holds_becomes [OF assms(1)] assms(1) _ v, where scr = scr] assms(1,2) by (auto simp: history_ok_def)
    with update_line_holds show ?thesis by auto
  qed
  have ln: "ed_line st = ln_line l" using assms(1) by (simp add: holds_def)
  have nb: "previous_line history (ln_line l) = Some i \<Longrightarrow> i < length history"
    "next_line history (ln_line l) = Some i \<Longrightarrow> i < length history" for i
    using assms(3) by (auto simp: line_valid_def previous_line_def next_line_def split: option.splits if_splits)
  note keys = backspace_becomes [OF assms(1), of scr] delete_becomes [OF assms(1)] esc_becomes [OF assms(1), of scr]
    printable_becomes [OF assms(1), of "key_char key"] move_keys_becomes [OF assms(1), of scr] holds_becomes [OF assms(1)]
  show ?thesis
  proof (cases "key_char key = 0")
    case False
    show ?thesis
    proof (cases "key_char key = 0x08")
      case True
      with keys(1) settle show ?thesis by (auto simp: editor_key_def press_key_def line_key_def Let_def)
    next
      case nb: False
      obtain st1 where "key_printable m (key_char key) st = Returned st1" and b: "becomes (unat m) st1
          (if key_char key < 0x20 \<or> length (ln_text l) = unat m - 1 \<and> ln_pos l = length (ln_text l) then l
           else l\<lparr>ln_text := take (ln_pos l) (ln_text l) @ key_char key # drop (ln_pos l + 1) (ln_text l), ln_pos := ln_pos l + 1\<rparr>)"
        using keys(4) [OF False] by blast
      moreover have "line_key history (unat m) key l =
          (if key_char key < 0x20 \<or> length (ln_text l) = unat m - 1 \<and> ln_pos l = length (ln_text l) then l
           else l\<lparr>ln_text := take (ln_pos l) (ln_text l) @ key_char key # drop (ln_pos l + 1) (ln_text l), ln_pos := ln_pos l + 1\<rparr>)"
        using False nb by (simp add: line_key_def Let_def not_le)
      ultimately show ?thesis using settle [OF b] False nb by (simp add: editor_key_def press_key_def Let_def)
    qed
  next
    case True
    then show ?thesis
      using keys(2,3,5-9) settle recall [OF nb(1)] recall [OF nb(2)]
      by (auto simp: editor_key_def press_key_def line_key_def Let_def ln)
  qed
qed


text \<open>
  The keys as the specification reads them: \<open>None\<close> while no return and no error of the console
  came, else the error, if it was one, and the text.
\<close>

fun line_keys :: "ustring list \<Rightarrow> nat \<Rightarrow> (EFI_STATUS \<times> EFI_INPUT_KEY) list \<Rightarrow> line \<Rightarrow> (EFI_STATUS option \<times> ustring) option" where
  "line_keys history n [] l = None"
| "line_keys history n ((status, key) # keys) l =
     (if EFI_ERROR status then
        if status = EFI_NOT_READY then line_keys history n keys l else Some (Some status, [])
      else if key_char key = 0x0D then Some (None, ln_text l)
      else line_keys history n keys (line_key history n key l))"

text \<open>The status is the error of the console or, of a line that is entered, that of the last move of the cursor.\<close>

definition line_status :: "console_screen \<Rightarrow> EFI_STATUS option \<Rightarrow> EFI_STATUS \<Rightarrow> bool" where
  "line_status scr err status \<longleftrightarrow> (case err of Some e \<Rightarrow> status = e
     | None \<Rightarrow> status = EFI_SUCCESS \<or> (\<exists>c r. status = sc_set_cursor scr c r))"

lemma line_status_enter: "line_status scr None (enter_status scr st)"
  by (auto simp: line_status_def enter_status_def)

text \<open>What the editor leaves in the buffer.\<close>

definition leaves :: "nat \<Rightarrow> ustring \<Rightarrow> editor \<Rightarrow> bool" where
  "leaves n t st \<longleftrightarrow> (\<exists>rest. ed_buffer st = t @ replicate (n - length t) 0 @ rest) \<and> is_ustring t \<and> length t < n \<and>
     ed_len st = length t"

lemma copy_chars_length: "copy_chars i cs buf = Returned buf' \<Longrightarrow> length buf' = length buf"
  by (auto simp: copy_chars_def split: if_splits)

lemma key_lengths:
  "key_backspace scr st = Returned st' \<Longrightarrow> length (ed_buffer st') = length (ed_buffer st)"
  "key_delete st = Returned st' \<Longrightarrow> length (ed_buffer st') = length (ed_buffer st)"
  "key_printable m c st = Returned st' \<Longrightarrow> length (ed_buffer st') = length (ed_buffer st)"
  "key_esc scr st = Returned st' \<Longrightarrow> length (ed_buffer st') = length (ed_buffer st)"
  "ed_buffer (key_left scr st) = ed_buffer st" "ed_buffer (key_right scr st) = ed_buffer st"
  "ed_buffer (key_home scr st) = ed_buffer st" "ed_buffer (key_end scr st) = ed_buffer st"
  by (auto simp: key_backspace_def key_delete_def key_printable_def key_esc_def key_left_def key_right_def key_home_def
      key_end_def move_chars_def put_char_def at_cursor_def obind_Returned_iff Let_def split: if_splits dest!: copy_chars_length)

lemma press_key_length:
  "press_key scr history m key st = Returned (st', new) \<Longrightarrow> length (ed_buffer st') = length (ed_buffer st)"
  by (simp add: press_key_def Let_def obind_Returned_iff split: if_split_asm)
    (auto simp: key_lengths(5-8) dest: key_lengths(1-4))

lemma advance_cursor_buffer [simp]: "ed_buffer (advance_cursor scr st) = ed_buffer st"
  by (simp add: advance_cursor_def Let_def)

lemma editor_key_length:
  assumes "editor_key scr history m key st = Returned st'"
  shows "length (ed_buffer st') = length (ed_buffer st)"
proof -
  have r: "length (ed_buffer st2) = length (ed_buffer st1)" if "recall_line scr history m new st1 = Returned st2" for st1 st2 new
    using that by (auto simp: recall_line_def put_char_def obind_Returned_iff Let_def split: option.splits if_splits dest!: copy_chars_length)
  have u: "length (ed_buffer st2) = length (ed_buffer st1)" if "update_line scr key st1 = Returned st2" for st1 st2
    using that
    by (simp add: update_line_def obind_Returned_iff Let_def split: if_split_asm)
      (auto simp: advance_cursor_buffer dest: copy_chars_length)
  from assms obtain st1 new st2 where "press_key scr history m key st = Returned (st1, new)"
      "recall_line scr history m new st1 = Returned st2" "update_line scr key st2 = Returned st'"
    by (auto simp: editor_key_def obind_Returned_iff)
  with press_key_length r u show ?thesis by metis
qed

lemma edit_keys_line:
  assumes "holds (unat m) st l" "history_ok history" "line_valid history l"
  shows "case line_keys history (unat m) keys l of
      None \<Rightarrow> edit_keys scr history m keys st = Unfinished
    | Some (err, t) \<Rightarrow> \<exists>status st'. edit_keys scr history m keys st = Returned (status, st') \<and>
        leaves (unat m) t st' \<and> length (ed_buffer st') = length (ed_buffer st) \<and> line_status scr err status"
  using assms(1,3)
proof (induction keys arbitrary: st l)
  case (Cons e keys)
  obtain status key where e: "e = (status, key)" by fastforce
  consider "EFI_ERROR status" "status = EFI_NOT_READY" | "EFI_ERROR status" "status \<noteq> EFI_NOT_READY"
    | "\<not> EFI_ERROR status" "key_char key = 0x0D" | "\<not> EFI_ERROR status" "key_char key \<noteq> 0x0D" by blast
  then show ?case
  proof cases
    case 1
    then have "line_keys history (unat m) (e # keys) l = line_keys history (unat m) keys l"
        "edit_keys scr history m (e # keys) st = edit_keys scr history m keys st"
      unfolding e by simp_all
    with Cons.IH [OF Cons.prems] show ?thesis by (simp only:)
  next
    case 2
    from Cons.prems(1) obtain rest where b: "ed_buffer st = ln_text l @ replicate (unat m - length (ln_text l)) 0 @ rest"
      "length (ln_text l) < unat m" by (auto simp: holds_def)
    then have "copy_chars 0 (replicate (unat m) 0) (ed_buffer st) = Returned (replicate (unat m) 0 @ rest)"
      by (simp add: copy_chars_def)
    with 2 b show ?thesis by (auto simp: e leaves_def line_status_def)
  next
    case 3
    with Cons.prems(1) show ?thesis by (auto simp: e leaves_def holds_def line_status_enter)
  next
    case 4
    obtain st1 where k: "editor_key scr history m key st = Returned st1" "holds (unat m) st1 (line_key history (unat m) key l)"
      using editor_key_line [OF Cons.prems(1) assms(2) Cons.prems(2)] by blast
    from Cons.IH [OF k(2) line_key_valid [OF Cons.prems(2)]] editor_key_length [OF k(1)] 4 show ?thesis
      by (auto simp: e k(1) split: option.splits)
  qed
qed simp


lemma unat_max_line: "length buffer < 2 ^ 64 \<Longrightarrow> unat (max_line scr (length buffer)) \<le> length buffer"
  by (auto simp: max_line_def Let_def not_less word_le_nat_alt unat_of_nat take_bit_nat_eq_self)

lemma add_line_ok:
  assumes "history_ok history" "is_ustring t" "length t < 2 ^ 64"
    and "AddLineToCommandHistory A t history w = (history', w')"
  shows "history_ok history' \<and> set history' \<subseteq> insert t (set history)"
proof -
  have small: "(of_nat (length history) :: u16) < 0x20 \<longleftrightarrow> length history < 32"
    using assms(1) by (simp add: history_ok_def word_less_nat_alt unat_of_nat take_bit_nat_eq_self)
  have "set (drop 1 history) \<subseteq> set history" by (rule set_drop_subset)
  with assms small show ?thesis
    by (auto simp: AddLineToCommandHistory_def history_ok_def Let_def split: prod.splits if_splits)
qed

definition empty_line :: line where
  "empty_line = \<lparr>ln_text = [], ln_pos = 0, ln_line = None\<rparr>"

lemma line_edited:
  assumes "2 \<le> length buffer" "length buffer < 2 ^ 64" "max_line scr (length buffer) \<noteq> 0" "history_ok history"
  shows "case line_keys history (unat (max_line scr (length buffer))) keys empty_line of
      None \<Rightarrow> UefiConsoleInRead A scr history buffer keys w = Unfinished
    | Some (err, t) \<Rightarrow> \<exists>status buf history' w'.
        UefiConsoleInRead A scr history buffer keys w = Returned ((status, buf, 2 * length t, history'), w') \<and>
        length buf = length buffer \<and> length t < length buffer \<and> take (length t) buf = t \<and> buf ! length t = 0 \<and>
        is_ustring t \<and> history_ok history' \<and> set history' \<subseteq> insert t (set history) \<and>
        line_status scr err status"
proof -
  let ?m = "max_line scr (length buffer)"
  let ?b = "replicate (unat ?m) 0 @ drop (unat ?m) buffer"
  have n: "unat ?m \<le> length buffer" "0 < unat ?m"
    using unat_max_line [OF assms(2)] assms(3) by (simp_all add: unat_gt_0)
  have zero: "copy_chars 0 (replicate (unat ?m) 0) buffer = Returned ?b" using n by (simp add: copy_chars_def)
  have start: "holds (unat ?m) (start_editor scr ?b) empty_line" "line_valid history empty_line"
    using n by (simp_all add: holds_def start_editor_def empty_line_def line_valid_def)
  have run: "UefiConsoleInRead A scr history buffer keys w =
      obind (edit_keys scr history ?m keys (start_editor scr ?b)) (\<lambda>(status, st).
        obind (StrLen_of (ed_buffer st)) (\<lambda>len.
          case (if len > 0 then AddLineToCommandHistory A (take len (ed_buffer st)) history w else (history, w)) of
            (history', w') \<Rightarrow> Returned ((status, ed_buffer st, 2 * ed_len st, history'), w')))"
    using assms(1) zero by (simp add: UefiConsoleInRead_def Let_def)
  have len: "length (ed_buffer (start_editor scr ?b)) = length buffer" using n by (simp add: start_editor_def)
  show ?thesis
  proof (cases "line_keys history (unat ?m) keys empty_line")
    case None
    with edit_keys_line [OF start(1) assms(4) start(2), where keys = keys and scr = scr] show ?thesis by (simp add: run)
  next
    case (Some r)
    obtain err t where r: "r = (err, t)" by fastforce
    with Some edit_keys_line [OF start(1) assms(4) start(2), where keys = keys and scr = scr] len obtain status st
      where e: "edit_keys scr history ?m keys (start_editor scr ?b) = Returned (status, st)" "leaves (unat ?m) t st"
        "length (ed_buffer st) = length buffer" "line_status scr err status" by auto
    then obtain rest where b: "ed_buffer st = t @ replicate (unat ?m - length t) 0 @ rest" "is_ustring t"
      "length t < unat ?m" "ed_len st = length t" by (auto simp: leaves_def)
    then obtain k where k: "unat ?m - length t = Suc k" by (metis Suc_diff_Suc)
    have sl: "StrLen_of (ed_buffer st) = Returned (length t)"
      using StrLen_of_text [OF b(2), of "replicate k 0 @ rest"] b(1) k by simp
    obtain history' w' where h: "(if length t > 0 then AddLineToCommandHistory A (take (length t) (ed_buffer st)) history w
        else (history, w)) = (history', w')" by fastforce
    have "history_ok history' \<and> set history' \<subseteq> insert t (set history)"
      using h b n(1) assms(2,4) add_line_ok [of history t A w history' w'] by (auto split: if_splits)
    moreover have "UefiConsoleInRead A scr history buffer keys w = Returned ((status, ed_buffer st, 2 * length t, history'), w')"
      using h by (simp add: run e(1) sl b(4))
    moreover have "take (length t) (ed_buffer st) = t" "ed_buffer st ! length t = 0" using b(1) k by (simp_all add: nth_append)
    ultimately show ?thesis using e(3,4) b(2,3) n(1) unfolding Some r by fastforce
  qed
qed

text \<open>
  C8: in a buffer for at least two characters, on a screen that leaves room for a character, the
  editor follows the specification of the line for all keys and never leaves the buffer: it waits
  while the line is not entered, and then the buffer holds the text and its terminator, the size
  is that of the text, the status the error of the console or that of the last move of the cursor,
  and the history, of at most 32 lines, has no line but those of before and the text.
\<close>
theorem console_line_edited:
  assumes "2 \<le> length buffer" "length buffer < 2 ^ 64" "max_line scr (length buffer) \<noteq> 0" "history_ok history"
  shows "case line_keys history (unat (max_line scr (length buffer))) keys empty_line of
      None \<Rightarrow> UefiConsoleInRead A scr history buffer keys w = Unfinished
    | Some (err, t) \<Rightarrow> \<exists>status buf history' w'.
        UefiConsoleInRead A scr history buffer keys w = Returned ((status, buf, 2 * length t, history'), w') \<and>
        length buf = length buffer \<and> length t < length buffer \<and> take (length t) buf = t \<and> buf ! length t = 0 \<and>
        is_ustring t \<and> history_ok history' \<and> set history' \<subseteq> insert t (set history) \<and>
        line_status scr err status"
  using assms by (rule line_edited)

theorem console_line_edited_witness:
  "let scr = \<lparr>sc_columns = 80, sc_rows = 25, sc_start_column = 11, sc_start_row = 3, sc_set_cursor = (\<lambda>c r. EFI_SUCCESS)\<rparr>;
       typed = map (\<lambda>c. (EFI_SUCCESS, \<lparr>key_scan = 0, key_char = c\<rparr>)) in
   \<exists>status buf history' w'.
     UefiConsoleInRead (\<lambda>n w. (True, w + n :: nat)) scr [wide ''mem''] (replicate 4 7)
       (typed (wide ''rex'') @ [(EFI_NOT_READY, \<lparr>key_scan = 0, key_char = 0\<rparr>), (EFI_SUCCESS, \<lparr>key_scan = 4, key_char = 0\<rparr>)] @
        typed [0x08, 0x73, 0x0D]) 0 =
       Returned ((status, buf, 4, history'), w') \<and> take 2 buf = wide ''rs'' \<and> buf ! 2 = 0"
proof -
  let ?scr = "\<lparr>sc_columns = 80, sc_rows = 25, sc_start_column = 11, sc_start_row = 3, sc_set_cursor = (\<lambda>c r. EFI_SUCCESS)\<rparr>"
  let ?typed = "map (\<lambda>c. (EFI_SUCCESS, \<lparr>key_scan = 0, key_char = c\<rparr>))"
  let ?keys = "?typed (wide ''rex'') @ [(EFI_NOT_READY, \<lparr>key_scan = 0, key_char = 0\<rparr>), (EFI_SUCCESS, \<lparr>key_scan = 4, key_char = 0\<rparr>)] @
        ?typed [0x08, 0x73, 0x0D]"
  have keys: "line_keys [wide ''mem''] (unat (max_line ?scr (length (replicate 4 (7 :: u16))))) ?keys empty_line = Some (None, wide ''rs'')"
    by (simp add: max_line_def wide_def empty_line_def line_key_def Let_def)
  have m: "max_line ?scr (length (replicate 4 (7 :: u16))) \<noteq> 0" by (simp add: max_line_def)
  have old: "history_ok [wide ''mem'']" by (simp add: history_ok_def wide_def)
  have cells: "2 \<le> length (replicate 4 (7 :: u16))" "length (replicate 4 (7 :: u16)) < 2 ^ 64" by simp_all
  obtain status buf history' w' where r: "UefiConsoleInRead (\<lambda>n w. (True, w + n :: nat)) ?scr [wide ''mem''] (replicate 4 7) ?keys 0 =
      Returned ((status, buf, 2 * length (wide ''rs''), history'), w')" "take (length (wide ''rs'')) buf = wide ''rs''"
      "buf ! length (wide ''rs'') = 0"
    using console_line_edited [OF cells m old, where keys = ?keys and A = "\<lambda>n w. (True, w + n :: nat)" and w = 0]
    unfolding keys option.case prod.case by blast
  show ?thesis unfolding Let_def using r by (simp add: wide_def numeral_2_eq_2)
qed

end
