(* ===== verification/UefiConsole.thy ===== *)
theory UefiConsole
  imports ConsoleShell ConsoleEditor
begin

text \<open>
  The console as a whole (UefiConsole.c): a prompt reads a line and runs it (\<open>DoConsolePrompt\<close>),
  the hot key starts a loop of prompts that ends when an exit is requested
  (\<open>NotificationFunction\<close>), and the entry point builds the state (\<open>UefiConsoleEntry\<close>).

  A prompt is given with what the user does at it: the screen at the time it is shown and the keys
  read while it is.  A session that wants another prompt than those given is \<open>Unfinished\<close>.
\<close>

record EFI_KEY_DATA =
  kd_key :: EFI_INPUT_KEY
  kd_shift :: u32

record console_state =
  cs_history :: "ustring list"
  cs_console :: console
  cs_events :: "console_event list"

type_synonym prompt = "console_screen \<times> (EFI_STATUS \<times> EFI_INPUT_KEY) list"

text \<open>The cells of a command line: \<open>BufferSize\<close> is computed in 64 bits.\<close>

definition prompt_size :: "console_screen \<Rightarrow> nat" where
  "prompt_size scr = unat (sc_columns scr * sc_rows scr * 2)"

definition DoConsolePrompt ::
  "'w console_services \<Rightarrow> prompt \<Rightarrow> console_state \<Rightarrow> 'w \<Rightarrow> ((EFI_STATUS \<times> console_state) \<times> 'w) outcome" where
  "DoConsolePrompt sv prompt st w =
     (case prompt of (scr, keys) \<Rightarrow>
      case sv_alloc sv (prompt_size scr) w of (ok, w1) \<Rightarrow>
      if \<not> ok then Returned ((EFI_OUT_OF_RESOURCES, st), w1)
      else obind (UefiConsoleInRead (sv_alloc sv) scr (cs_history st) (replicate (prompt_size scr div 2) 0) keys w1)
        (\<lambda>((status, buf, size0, history'), w2).
          let st1 = st\<lparr>cs_history := history'\<rparr> in
          if EFI_ERROR status then Returned ((status, st1), w2)
          else obind (put_char (size0 div 2) 0 buf) (\<lambda>buf'. obind (StrLen_of buf') (\<lambda>len.
            obind (RunCommand sv (take len buf') (cs_console st1) w2) (\<lambda>((status', events, con'), w3).
              Returned ((status', st1\<lparr>cs_console := con', cs_events := cs_events st1 @ events\<rparr>), w3))))))"

text \<open>The \<open>do\<close> loop: the status of a prompt is not looked at.\<close>

fun prompt_loop ::
  "'w console_services \<Rightarrow> prompt list \<Rightarrow> console_state \<Rightarrow> 'w \<Rightarrow> (console_state \<times> 'w) outcome" where
  "prompt_loop sv [] st w = Unfinished"
| "prompt_loop sv (p # prompts) st w =
     obind (DoConsolePrompt sv p st w) (\<lambda>((status, st'), w').
       if ConsoleCommandGetExit (con_lib (cs_console st')) then Returned (st', w')
       else prompt_loop sv prompts st' w')"

definition CONSOLE_KEY :: u16 where "CONSOLE_KEY = 0x72"

text \<open>\<open>EFI_SHIFT_STATE_VALID\<close> with the left and with the right control key.\<close>

definition LEFT_CONTROL :: u32 where "LEFT_CONTROL = 0x80000008"
definition RIGHT_CONTROL :: u32 where "RIGHT_CONTROL = 0x80000004"

definition is_hot_key :: "EFI_KEY_DATA \<Rightarrow> bool" where
  "is_hot_key k \<longleftrightarrow>
     key_char (kd_key k) = CONSOLE_KEY \<and> (kd_shift k = LEFT_CONTROL \<or> kd_shift k = RIGHT_CONTROL) \<or>
     key_char (kd_key k) = CONSOLE_KEY - 0x61 + 1"

text \<open>
  \<open>timer\<close> is what \<open>CheckEvent\<close> says of the event that holds the hot key off after a session.  The
  result tells if the timer was set again.
\<close>

definition NotificationFunction ::
  "'w console_services \<Rightarrow> EFI_STATUS \<Rightarrow> EFI_KEY_DATA \<Rightarrow> prompt list \<Rightarrow> console_state \<Rightarrow> 'w \<Rightarrow>
   ((bool \<times> console_state) \<times> 'w) outcome" where
  "NotificationFunction sv timer key prompts st w =
     (if is_hot_key key \<and> timer \<noteq> EFI_NOT_READY then
        let con = cs_console st;
            st1 = st\<lparr>cs_console := con\<lparr>con_lib := (con_lib con)\<lparr>cl_exit_requested := False\<rparr>\<rparr>\<rparr>
        in obind (prompt_loop sv prompts st1 w) (\<lambda>(st2, w'). Returned ((True, st2), w'))
      else Returned ((False, st), w))"

subsection \<open>Starting and stopping\<close>

text \<open>
  The keys the monitor registers, in order: \<open>register\<close> answers for each; the first error stops the
  registration.  \<open>create\<close> and \<open>signal\<close> are the statuses of the timer event.
\<close>

definition monitor_keys :: "EFI_KEY_DATA list" where
  "monitor_keys = [\<lparr>kd_key = \<lparr>key_scan = 0, key_char = CONSOLE_KEY\<rparr>, kd_shift = LEFT_CONTROL\<rparr>,
     \<lparr>kd_key = \<lparr>key_scan = 0, key_char = CONSOLE_KEY\<rparr>, kd_shift = RIGHT_CONTROL\<rparr>,
     \<lparr>kd_key = \<lparr>key_scan = 0, key_char = CONSOLE_KEY - 0x61 + 1\<rparr>, kd_shift = LEFT_CONTROL\<rparr>,
     \<lparr>kd_key = \<lparr>key_scan = 0, key_char = CONSOLE_KEY - 0x61 + 1\<rparr>, kd_shift = RIGHT_CONTROL\<rparr>]"

fun register_keys :: "(EFI_KEY_DATA \<Rightarrow> EFI_STATUS) \<Rightarrow> EFI_KEY_DATA list \<Rightarrow> EFI_STATUS \<times> EFI_KEY_DATA list" where
  "register_keys register [] = (EFI_SUCCESS, [])"
| "register_keys register (k # ks) =
     (if EFI_ERROR (register k) then (register k, [])
      else case register_keys register ks of (status, done) \<Rightarrow> (status, k # done))"

definition UefiConsoleStartMonitor ::
  "EFI_STATUS \<Rightarrow> (EFI_KEY_DATA \<Rightarrow> EFI_STATUS) \<Rightarrow> EFI_STATUS \<Rightarrow> EFI_STATUS \<Rightarrow> EFI_STATUS \<times> EFI_KEY_DATA list" where
  "UefiConsoleStartMonitor open_input register create signal =
     (if EFI_ERROR open_input then (open_input, [])
      else case register_keys register monitor_keys of (status, done) \<Rightarrow>
        (if EFI_ERROR status then status else if EFI_ERROR create then create else signal, done))"

definition UefiConsoleEntry ::
  "'w alloc \<Rightarrow> EFI_STATUS \<times> collation option \<Rightarrow> EFI_STATUS \<times> EFI_KEY_DATA list \<Rightarrow> 'w \<Rightarrow>
   ((EFI_STATUS \<times> console_state option) \<times> 'w)" where
  "UefiConsoleEntry A init monitor w =
     (case ConsoleCommandsConstructor A init w of ((_, lib), w1) \<Rightarrow>
      let st = \<lparr>cs_history = [], cs_console = \<lparr>con_lib = lib, con_params = \<lparr>sp_argv = None, sp_argc = 0\<rparr>\<rparr>, cs_events = []\<rparr>
      in case A 40 w1 of (ok, w2) \<Rightarrow>
        if \<not> ok then ((EFI_OUT_OF_RESOURCES, None), w2)
        else if EFI_ERROR (fst monitor) then ((fst monitor, None), w2)
        else ((EFI_SUCCESS, Some st), w2))"

subsection \<open>A line that is typed\<close>

definition typed :: "ustring \<Rightarrow> (EFI_STATUS \<times> EFI_INPUT_KEY) list" where
  "typed t = map (\<lambda>c. (EFI_SUCCESS, \<lparr>key_scan = 0, key_char = c\<rparr>)) (t @ [0x0D])"

definition printable :: "ustring \<Rightarrow> bool" where
  "printable t \<longleftrightarrow> list_all (\<lambda>c. c \<ge> 0x20) t"

lemma typed_text:
  "printable t \<Longrightarrow> length u + length t < n \<Longrightarrow>
   line_keys history n (typed t) \<lparr>ln_text = u, ln_pos = length u, ln_line = p\<rparr> = Some (None, u @ t)"
proof (induction t arbitrary: u)
  case (Cons c t)
  from Cons.prems have c: "c \<noteq> 0x08" "c \<noteq> 0x0D" "c \<ge> 0x20" "printable t" by (auto simp: printable_def)
  have "line_keys history n (typed (c # t)) \<lparr>ln_text = u, ln_pos = length u, ln_line = p\<rparr> =
      line_keys history n (typed t) \<lparr>ln_text = u @ [c], ln_pos = length (u @ [c]), ln_line = p\<rparr>"
  proof -
    have "length u \<noteq> n - 1" using Cons.prems(2) by simp
    with c(1-3) show ?thesis by (simp add: typed_def line_key_def Let_def)
  qed
  with Cons.IH [of "u @ [c]"] c Cons.prems show ?case by simp
qed (simp add: typed_def)

text \<open>A screen on which a line of this length can be typed, and whose cursor can be moved.\<close>

definition roomy :: "console_screen \<Rightarrow> nat \<Rightarrow> bool" where
  "roomy scr n \<longleftrightarrow> 2 \<le> prompt_size scr div 2 \<and> n < unat (max_line scr (prompt_size scr div 2)) \<and>
     sc_set_cursor scr = (\<lambda>c r. EFI_SUCCESS)"

lemma typed_prompt:
  assumes "always (sv_alloc sv)" "roomy scr (length t)" "printable t" "history_ok (cs_history st)"
  obtains history' w' where "history_ok history'" "DoConsolePrompt sv (scr, typed t) st w =
    obind (RunCommand sv t (cs_console st) w') (\<lambda>((status, events, con'), w'').
      Returned ((status, st\<lparr>cs_history := history', cs_console := con', cs_events := cs_events st @ events\<rparr>), w''))"
proof -
  let ?A = "sv_alloc sv" and ?buf = "replicate (prompt_size scr div 2) (0 :: u16)"
  obtain w1 where w1: "?A (prompt_size scr) w = (True, w1)" by (rule alwaysE [OF assms(1)])
  have size0: "length ?buf < 2 ^ 64"
    using unat_less [of "sc_columns scr * sc_rows scr * 2"] by (simp add: prompt_size_def)
  have r: "2 \<le> length ?buf" "max_line scr (length ?buf) \<noteq> 0" using assms(2) by (auto simp: roomy_def)
  have keys: "line_keys (cs_history st) (unat (max_line scr (length ?buf))) (typed t) empty_line = Some (None, t)"
    using typed_text [of t "[]" "unat (max_line scr (length ?buf))" "cs_history st" None] assms(2,3)
    by (simp add: empty_line_def roomy_def)
  obtain status buf history' w2 where e: "UefiConsoleInRead ?A scr (cs_history st) ?buf (typed t) w1 =
      Returned ((status, buf, 2 * length t, history'), w2)" "length t < length buf" "take (length t) buf = t"
      "buf ! length t = 0" "is_ustring t" "history_ok history'" "line_status scr None status"
    using line_edited [OF r(1) size0 r(2) assms(4), where keys = "typed t" and A = ?A and w = w1]
    unfolding keys option.case prod.case by metis
  have ok: "\<not> EFI_ERROR status" using e(7) assms(2) by (auto simp: line_status_def roomy_def)
  have "buf[length t := 0] = buf" using e(4) list_update_id [of buf "length t"] by simp
  then have put: "put_char (length t) 0 buf = Returned buf" using e(2) by (simp add: put_char_def)
  have "buf = t @ 0 # drop (Suc (length t)) buf" using id_take_nth_drop [OF e(2)] e(3,4) by simp
  then have len: "StrLen_of buf = Returned (length t)" using StrLen_of_text [OF e(5)] by metis
  show ?thesis
  proof (rule that [OF e(6)])
    show "DoConsolePrompt sv (scr, typed t) st w =
    obind (RunCommand sv t (cs_console st) w2) (\<lambda>((status, events, con'), w'').
      Returned ((status, st\<lparr>cs_history := history', cs_console := con', cs_events := cs_events st @ events\<rparr>), w''))"
      by (simp add: DoConsolePrompt_def w1 e(1,3) ok put len)
  qed
qed

text \<open>Lines of blanks and comments.\<close>

definition idle :: "ustring \<Rightarrow> bool" where
  "idle t \<longleftrightarrow> TrimSpaces (strip_comment (TrimSpaces t)) = []"

lemma idle_line:
  assumes "always (sv_alloc sv)" "idle t"
  shows "\<exists>w'. RunCommand sv t con w = Returned ((EFI_SUCCESS, [], con), w')"
proof (cases "t = []")
  case False
  obtain w1 where "sv_alloc sv ((length t + 1) * 2) w = (True, w1)" by (rule alwaysE [OF assms(1)])
  with assms(2) False show ?thesis
    by (simp add: RunCommand_def RunShellCommand_def ConsoleStrnCatGrow_def idle_def Let_def)
qed (simp add: RunCommand_def RunShellCommand_def)

lemma idle_prompts:
  assumes "always (sv_alloc sv)" "list_all (\<lambda>(scr, t). roomy scr (length t) \<and> printable t \<and> idle t) lines"
    and "history_ok (cs_history st)" "\<not> cl_exit_requested (con_lib (cs_console st))"
  obtains history' w' where "history_ok history'"
    "prompt_loop sv (map (\<lambda>(scr, t). (scr, typed t)) lines @ prompts) st w = prompt_loop sv prompts (st\<lparr>cs_history := history'\<rparr>) w'"
  using assms(2-4)
proof (induction lines arbitrary: st w thesis)
  case Nil
  from Nil.prems(1) [of "cs_history st" w] Nil.prems(3) show ?case by simp
next
  case (Cons l lines)
  obtain scr t where l: "l = (scr, t)" by fastforce
  with Cons.prems(2) have t: "roomy scr (length t)" "printable t" "idle t" by auto
  obtain h1 w1 where 1: "history_ok h1" "DoConsolePrompt sv (scr, typed t) st w =
    obind (RunCommand sv t (cs_console st) w1) (\<lambda>((status, events, con'), w'').
      Returned ((status, st\<lparr>cs_history := h1, cs_console := con', cs_events := cs_events st @ events\<rparr>), w''))"
    by (rule typed_prompt [OF assms(1) t(1,2) Cons.prems(3)])
  obtain w2 where 2: "RunCommand sv t (cs_console st) w1 = Returned ((EFI_SUCCESS, [], cs_console st), w2)"
    using idle_line [OF assms(1) t(3)] by blast
  have "prompt_loop sv (map (\<lambda>(scr, t). (scr, typed t)) (l # lines) @ prompts) st w =
      prompt_loop sv (map (\<lambda>(scr, t). (scr, typed t)) lines @ prompts) (st\<lparr>cs_history := h1\<rparr>) w2"
    using Cons.prems(4) by (simp add: l 1(2) 2 ConsoleCommandGetExit_def)
  moreover obtain h w' where "history_ok h"
     "prompt_loop sv (map (\<lambda>(scr, t). (scr, typed t)) lines @ prompts) (st\<lparr>cs_history := h1\<rparr>) w2 =
      prompt_loop sv prompts (st\<lparr>cs_history := h1\<rparr>\<lparr>cs_history := h\<rparr>) w'"
    by (rule Cons.IH [of "st\<lparr>cs_history := h1\<rparr>" w2]) (use Cons.prems 1(1) in auto)
  ultimately show ?case using Cons.prems(1) by simp
qed

text \<open>
  C9: the hot key opens a session that the user can always leave: after any number of lines of
  blanks and comments, \<open>exit\<close> with a decimal number that fits 64 bits ends the loop of prompts, with
  this number as the exit code, the registry and the parameters as before, nothing shown and a
  history of at most 32 lines; and the hot key is held off for a while.
\<close>
theorem session_left:
  assumes "always (sv_alloc sv)" "is_hot_key key" "timer \<noteq> EFI_NOT_READY"
    and "list_all (\<lambda>(scr, t). roomy scr (length t) \<and> printable t \<and> idle t) lines"
    and "parameter_line line [a, n]" "printable line" "0x23 \<notin> set line" "roomy scr (length line)"
    and "find_command (sv_coll sv) (con_lib (cs_console st)) a = Some command"
    and "cm_handler command = ShellCommandRunExit" "a \<noteq> wide ''-?''" "a \<noteq> wide ''-b''"
    and "\<not> ConsoleInternalIsFlag a False False"
    and "list_all ConsoleIsDecimalDigitCharacter n" "n \<noteq> []" "number_value 10 0 n < 2 ^ 64"
    and "history_ok (cs_history st)"
  shows "\<exists>history' w'. NotificationFunction sv timer key (map (\<lambda>(scr, t). (scr, typed t)) (lines @ [(scr, line)]) @ later) st w =
     Returned ((True, st\<lparr>cs_history := history', cs_console := (cs_console st)\<lparr>con_lib := (con_lib (cs_console st))
       \<lparr>cl_exit_requested := True, cl_exit_code := word_of_nat (number_value 10 0 n)\<rparr>\<rparr>\<rparr>), w') \<and>
     history_ok history'"
proof -
  let ?lib = "(con_lib (cs_console st))\<lparr>cl_exit_requested := False\<rparr>"
  let ?con = "(cs_console st)\<lparr>con_lib := ?lib\<rparr>"
  let ?st = "st\<lparr>cs_console := ?con\<rparr>" and ?prompts = "map (\<lambda>(scr, t). (scr, typed t))"
  have "history_ok (cs_history ?st)" "\<not> cl_exit_requested (con_lib (cs_console ?st))" using assms(17) by simp_all
  then obtain h1 w1 where 1: "history_ok h1" "prompt_loop sv (?prompts lines @ (scr, typed line) # later) ?st w =
      prompt_loop sv ((scr, typed line) # later) (?st\<lparr>cs_history := h1\<rparr>) w1"
    by (rule idle_prompts [OF assms(1,4)])
  let ?st1 = "?st\<lparr>cs_history := h1\<rparr>"
  have "history_ok (cs_history ?st1)" using 1(1) by simp
  then obtain h2 w2 where 2: "history_ok h2" "DoConsolePrompt sv (scr, typed line) ?st1 w1 =
    obind (RunCommand sv line (cs_console ?st1) w2) (\<lambda>((status, events, con'), w'').
      Returned ((status, ?st1\<lparr>cs_history := h2, cs_console := con', cs_events := cs_events ?st1 @ events\<rparr>), w''))"
    by (rule typed_prompt [OF assms(1,8,6)])
  have find: "find_command (sv_coll sv) (con_lib ?con) a = Some command"
    using assms(9) by (simp add: find_command_def)
  have "\<exists>w'. RunCommand sv ([] @ line @ []) ?con w2 = Returned ((EFI_SUCCESS, [],
      ?con\<lparr>con_lib := (con_lib ?con)\<lparr>cl_exit_requested := True, cl_exit_code := word_of_nat (number_value 10 0 n)\<rparr>\<rparr>), w')"
    by (rule exit_with_code [OF assms(1,5) _ _ assms(7) find assms(10-16)]) simp_all
  then obtain w3 where "RunCommand sv line ?con w2 = Returned ((EFI_SUCCESS, [],
      ?con\<lparr>con_lib := (con_lib ?con)\<lparr>cl_exit_requested := True, cl_exit_code := word_of_nat (number_value 10 0 n)\<rparr>\<rparr>), w3)" by auto
  with 1(2) 2 assms(2,3) show ?thesis
    by (intro exI [of _ h2] exI [of _ w3]) (simp add: NotificationFunction_def Let_def ConsoleCommandGetExit_def)
qed

text \<open>The state of the example is the one the entry point builds.\<close>

definition sample_state :: console_state where
  "sample_state = \<lparr>cs_history = [], cs_console = sample_console, cs_events = []\<rparr>"

lemma sample_state_entry:
  "\<exists>w. UefiConsoleEntry (sv_alloc sample_services) (EFI_SUCCESS, Some sample_coll)
     (UefiConsoleStartMonitor EFI_SUCCESS (\<lambda>k. EFI_SUCCESS) EFI_SUCCESS EFI_SUCCESS) 0 = ((EFI_SUCCESS, Some sample_state), w)"
  by (simp add: UefiConsoleEntry_def sample_state_def sample_console_def sample_services_def UefiConsoleStartMonitor_def
      monitor_keys_def Let_def split: prod.splits)

definition sample_screen :: console_screen where
  "sample_screen = \<lparr>sc_columns = 80, sc_rows = 25, sc_start_column = 12, sc_start_row = 3, sc_set_cursor = (\<lambda>c r. EFI_SUCCESS)\<rparr>"

theorem session_left_witness:
  "\<exists>history' w'. NotificationFunction sample_services EFI_SUCCESS (hd monitor_keys)
     [(sample_screen, typed (wide ''  # hello'')), (sample_screen, typed (wide ''exit 42''))] sample_state 0 =
     Returned ((True, sample_state\<lparr>cs_history := history', cs_console := sample_console\<lparr>con_lib := (con_lib sample_console)
       \<lparr>cl_exit_requested := True, cl_exit_code := 42\<rparr>\<rparr>\<rparr>), w') \<and> history_ok history'"
proof -
  have room: "roomy sample_screen n" if "n < 100" for n
    using that by (simp add: roomy_def sample_screen_def prompt_size_def max_line_def)
  have lines: "list_all (\<lambda>(scr, t). roomy scr (length t) \<and> printable t \<and> idle t) [(sample_screen, wide ''  # hello'')]"
    by (simp add: room wide_def printable_def idle_def TrimSpaces_def blank_def strip_comment.simps(2))
  have text0: "printable (wide ''exit 42'')" "0x23 \<notin> set (wide ''exit 42'')" "roomy sample_screen (length (wide ''exit 42''))"
    by (simp_all add: room wide_def printable_def)
  have key: "is_hot_key (hd monitor_keys)" by (simp add: is_hot_key_def monitor_keys_def LEFT_CONTROL_def)
  have find: "find_command (sv_coll sample_services) (con_lib (cs_console sample_state)) (wide ''exit'') =
     Some \<lparr>cm_string = wide ''exit'', cm_handler = ShellCommandRunExit, cm_last_error = True\<rparr>"
    by (simp add: sample_state_def sample_console_finds)
  have num: "(word_of_nat (number_value 10 0 (wide ''42'')) :: u64) = 42" "number_value 10 0 (wide ''42'') < 2 ^ 64"
    by (simp_all add: wide_def digit_value_def ConsoleIsDecimalDigitCharacter_def)
  have start: "history_ok (cs_history sample_state)" by (simp add: sample_state_def history_ok_def)
  show ?thesis
    using session_left [OF sample_services_always key _ lines sample_line text0 find _ _ _ _ _ _ num(2) start,
        of EFI_SUCCESS "[]" 0]
    by (simp add: num(1) sample_state_def)
      (simp add: wide_def ConsoleInternalIsFlag_def ConsoleIsDecimalDigitCharacter_def)
qed

text \<open>
  When a later registration fails, the entry point returns the error, and the image is unloaded, but
  the notifications registered before stay.
\<close>

theorem monitor_left_registered:
  "let monitor = UefiConsoleStartMonitor EFI_SUCCESS
        (\<lambda>k. if key_char (kd_key k) = CONSOLE_KEY then EFI_SUCCESS else EFI_OUT_OF_RESOURCES) EFI_SUCCESS EFI_SUCCESS
   in fst (fst (UefiConsoleEntry (sv_alloc sample_services) (EFI_SUCCESS, Some sample_coll) monitor 0)) = EFI_OUT_OF_RESOURCES \<and>
      length (snd monitor) = 2"
  by code_simp

end
