(* ===== verification/EfiShell.thy ===== *)
theory EfiShell
  imports EfiBase
begin

text \<open>
  The file helpers that HexToBin.c, PartEdit.c, RamDiskApp.c and UefiTool.c share:
  \<open>ReadFileFromDisk\<close> and \<open>SaveFileToDisk\<close>, over the file functions of the EDK II shell library.

  The shell is a record of functions on the world; a file handle is a value of a type \<open>'f\<close>.  A read
  gives the octets it got, which may be fewer than asked for; what the buffer holds behind them is
  never looked at.  The statuses of closing and deleting are not either.
\<close>

record ('f, 'w) shell =
  sh_alloc :: "'w alloc"
  sh_open :: "ustring \<Rightarrow> bool \<Rightarrow> 'w \<Rightarrow> (EFI_STATUS \<times> 'f) \<times> 'w"
  sh_size :: "'f \<Rightarrow> 'w \<Rightarrow> (EFI_STATUS \<times> u64) \<times> 'w"
  sh_read :: "'f \<Rightarrow> u64 \<Rightarrow> 'w \<Rightarrow> (EFI_STATUS \<times> bytes) \<times> 'w"
  sh_write :: "'f \<Rightarrow> bytes \<Rightarrow> 'w \<Rightarrow> EFI_STATUS \<times> 'w"
  sh_close :: "'f \<Rightarrow> 'w \<Rightarrow> 'w"
  sh_exists :: "ustring \<Rightarrow> 'w \<Rightarrow> EFI_STATUS \<times> 'w"
  sh_delete :: "ustring \<Rightarrow> 'w \<Rightarrow> 'w"

text \<open>The status and the octets read; the octets are there when the status is no error.\<close>

definition ReadFileFromDisk :: "('f, 'w) shell \<Rightarrow> ustring \<Rightarrow> 'w \<Rightarrow> (EFI_STATUS + bytes) \<times> 'w" where
  "ReadFileFromDisk sh name w =
     (case sh_open sh name False w of ((status, file), w1) \<Rightarrow>
      if EFI_ERROR status then (Inl status, w1)
      else case sh_size sh file w1 of ((status, size0), w2) \<Rightarrow>
      if EFI_ERROR status then (Inl status, sh_close sh file w2)
      else case sh_alloc sh (unat size0) w2 of (ok, w3) \<Rightarrow>
      if \<not> ok then (Inl EFI_OUT_OF_RESOURCES, sh_close sh file w3)
      else case sh_read sh file size0 w3 of ((status, data), w4) \<Rightarrow>
      (if EFI_ERROR status then Inl status else Inr data, sh_close sh file w4))"

text \<open>\<open>mem\<close> is the memory at the buffer, \<open>size0\<close> the octets of it to write.\<close>

definition SaveFileToDisk :: "('f, 'w) shell \<Rightarrow> ustring \<Rightarrow> u64 \<Rightarrow> bytes \<Rightarrow> 'w \<Rightarrow> (EFI_STATUS \<times> 'w) outcome" where
  "SaveFileToDisk sh name size0 mem w =
     (case sh_exists sh name w of (found, w1) \<Rightarrow>
      let w2 = (if \<not> EFI_ERROR found then sh_delete sh name w1 else w1) in
      case sh_open sh name True w2 of ((status, file), w3) \<Rightarrow>
      if EFI_ERROR status then Returned (status, w3)
      else obind (checked (slice 0 (unat size0) mem)) (\<lambda>data.
        case sh_write sh file data w3 of (status, w4) \<Rightarrow>
          Returned (if EFI_ERROR status then status else EFI_SUCCESS, sh_close sh file w4)))"

text \<open>
  A shell that deletes a file whenever it should: the query gives an error only for a file that is not
  there, and deleting never fails.
\<close>

definition deletes :: "('f, 'w) shell \<Rightarrow> ('w \<Rightarrow> ustring \<Rightarrow> bytes option) \<Rightarrow> ustring \<Rightarrow> bool" where
  "deletes sh files name \<longleftrightarrow>
     (\<forall>w status w'. sh_exists sh name w = (status, w') \<and> EFI_ERROR status \<longrightarrow> files w name = None) \<and>
     (\<forall>w. files (sh_delete sh name w) name = None)"

text \<open>
  What the shell promises of its files: \<open>files\<close> are the files there are, \<open>pos\<close> is the position of a
  handle.  A file is written and read through its handle from its position on, which is the start
  when it has just been opened; the allocator, the queries and closing leave the files alone.  A
  file that is not found is not there, while any other error of the query says nothing; and deleting
  a file removes it or fails and leaves it, which the code does not look at.
\<close>

locale shell_files =
  fixes sh :: "('f, 'w) shell" and files :: "'w \<Rightarrow> ustring \<Rightarrow> bytes option" and name_of :: "'f \<Rightarrow> ustring"
    and pos :: "'w \<Rightarrow> 'f \<Rightarrow> nat"
  assumes alloc_files: "files (snd (sh_alloc sh k w)) = files w" "pos (snd (sh_alloc sh k w)) f = pos w f"
    and open_read: "sh_open sh name False w = ((status, f), w') \<Longrightarrow> files w' = files w \<and>
      (\<not> EFI_ERROR status \<longrightarrow> name_of f = name \<and> files w name \<noteq> None \<and> pos w' f = 0)"
    and open_write: "sh_open sh name True w = ((status, f), w') \<Longrightarrow> \<not> EFI_ERROR status \<Longrightarrow>
      name_of f = name \<and> pos w' f = 0 \<and> files w' = (files w)(name := Some (case files w name of None \<Rightarrow> [] | Some d \<Rightarrow> d))"
    and size_file: "sh_size sh f w = ((status, n), w') \<Longrightarrow> files w' = files w \<and> pos w' f = pos w f \<and>
      (\<not> EFI_ERROR status \<longrightarrow> (\<exists>d. files w (name_of f) = Some d \<and> unat n = length d))"
    and read_file: "sh_read sh f n w = ((status, d), w') \<Longrightarrow> files w' = files w \<and>
      (\<not> EFI_ERROR status \<longrightarrow> (\<exists>d0. files w (name_of f) = Some d0 \<and> d = take (unat n) (drop (pos w f) d0)))"
    and write_file: "sh_write sh f d w = (status, w') \<Longrightarrow> \<not> EFI_ERROR status \<Longrightarrow>
      files w (name_of f) = Some old \<Longrightarrow> pos w f \<le> length old \<Longrightarrow>
      files w' = (files w)(name_of f := Some (take (pos w f) old @ d @ drop (pos w f + length d) old))"
    and close_files: "files (sh_close sh f w) = files w"
    and exists_files: "sh_exists sh name w = (status, w') \<Longrightarrow> files w' = files w \<and>
      (status = EFI_NOT_FOUND \<longrightarrow> files w name = None)"
    and delete_file: "files (sh_delete sh name w) = files w \<or> files (sh_delete sh name w) = (files w)(name := None)"
begin

text \<open>A file that is read is read whole.\<close>

lemma read_whole:
  assumes "ReadFileFromDisk sh name w = (Inr d, w')"
  shows "files w name = Some d \<and> files w' = files w"
proof -
  obtain s1 f w1 where 1: "sh_open sh name False w = ((s1, f), w1)" by (metis surj_pair)
  obtain s2 n w2 where 2: "sh_size sh f w1 = ((s2, n), w2)" by (metis surj_pair)
  obtain ok w3 where 3: "sh_alloc sh (unat n) w2 = (ok, w3)" by fastforce
  obtain s4 d4 w4 where 4: "sh_read sh f n w3 = ((s4, d4), w4)" by (metis surj_pair)
  from assms have e: "\<not> EFI_ERROR s1" "\<not> EFI_ERROR s2" ok "\<not> EFI_ERROR s4" "d = d4" "w' = sh_close sh f w4"
    by (auto simp: ReadFileFromDisk_def 1 2 3 4 split: if_splits)
  from open_read [OF 1] size_file [OF 2] alloc_files(1) [of "unat n" w2] alloc_files(2) [of "unat n" w2 f]
    read_file [OF 4] close_files [of f w4] e 3
  show ?thesis by auto
qed

text \<open>
  A file that is saved has what was saved, and behind it what a longer file had there when that was not
  deleted.
\<close>

lemma save_whole:
  assumes "SaveFileToDisk sh name size0 mem w = Returned (status, w')" "\<not> EFI_ERROR status"
  shows "\<exists>tail. files w' = (files w)(name := Some (take (unat size0) mem @ tail)) \<and> unat size0 \<le> length mem \<and>
    (tail = [] \<or> (\<exists>old. files w name = Some old \<and> tail = drop (unat size0) old \<and> \<not> deletes sh files name))"
proof -
  obtain s1 w1 where 1: "sh_exists sh name w = (s1, w1)" by fastforce
  define w2 where w2: "w2 = (if \<not> EFI_ERROR s1 then sh_delete sh name w1 else w1)"
  obtain s3 f w3 where 3: "sh_open sh name True w2 = ((s3, f), w3)" by (metis surj_pair)
  have w2f: "files w2 = files w \<or> files w2 = (files w)(name := None)"
    using exists_files [OF 1] delete_file [of name w1] by (auto simp: w2)
  have gone: "files w2 name = None"
    if "deletes sh files name"
  proof (cases "EFI_ERROR s1")
    case True
    with that 1 exists_files [OF 1] show ?thesis by (auto simp: w2 deletes_def)
  next
    case False
    with that show ?thesis by (simp add: w2 deletes_def)
  qed
  from assms have e3: "\<not> EFI_ERROR s3"
    by (auto simp: SaveFileToDisk_def Let_def 1 w2 [symmetric] 3 split: if_splits)
  define old where "old = (case files w2 name of None \<Rightarrow> [] | Some d \<Rightarrow> d)"
  from open_write [OF 3 e3] have f: "name_of f = name" "pos w3 f = 0" "files w3 = (files w2)(name := Some old)"
    by (simp_all add: old_def)
  obtain data where d: "slice 0 (unat size0) mem = Some data"
    using assms e3 by (cases "slice 0 (unat size0) mem") (auto simp: SaveFileToDisk_def Let_def 1 w2 [symmetric] 3)
  then have data: "data = take (unat size0) mem" "unat size0 \<le> length mem" "length data = unat size0"
    by (auto simp: slice_def split: if_splits)
  obtain s4 w4 where 4: "sh_write sh f data w3 = (s4, w4)" by fastforce
  from assms e3 have e4: "\<not> EFI_ERROR s4" "w' = sh_close sh f w4"
    by (auto simp: SaveFileToDisk_def Let_def 1 w2 [symmetric] 3 d 4 split: if_splits)
  have "files w' = (files w2)(name := Some (data @ drop (unat size0) old))"
    using write_file [OF 4 e4(1), of old] f close_files [of f w4] e4(2) data(3) by simp
  moreover have "(files w2)(name := x) = (files w)(name := x)" for x using w2f by auto
  moreover have "old = [] \<or> files w name = Some old \<and> files w2 name \<noteq> None"
    using w2f by (auto simp: old_def split: option.splits)
  ultimately show ?thesis
    using data(1,2) gone by (intro exI [of _ "drop (unat size0) old"]) (cases "deletes sh files name"; auto)
qed

end

text \<open>
  A shell whose files are a map in memory; a read and a write start at the beginning of the file, as
  they do for a handle that has just been opened.
\<close>

definition ram_shell :: "(ustring, ustring \<Rightarrow> bytes option) shell" where
  "ram_shell = \<lparr>sh_alloc = \<lambda>n m. (True, m),
     sh_open = \<lambda>name create m. (if m name \<noteq> None then ((EFI_SUCCESS, name), m)
       else if create then ((EFI_SUCCESS, name), m(name := Some [])) else ((EFI_NOT_FOUND, name), m)),
     sh_size = \<lambda>f m. ((case m f of None \<Rightarrow> (EFI_DEVICE_ERROR, 0)
       | Some d \<Rightarrow> if length d < 2 ^ 64 then (EFI_SUCCESS, word_of_nat (length d)) else (EFI_DEVICE_ERROR, 0)), m),
     sh_read = \<lambda>f n m. ((case m f of None \<Rightarrow> (EFI_DEVICE_ERROR, []) | Some d \<Rightarrow> (EFI_SUCCESS, take (unat n) d)), m),
     sh_write = \<lambda>f d m. (EFI_SUCCESS, m(f := Some (d @ drop (length d) (case m f of None \<Rightarrow> [] | Some old \<Rightarrow> old)))),
     sh_close = \<lambda>f m. m,
     sh_exists = \<lambda>name m. (if m name = None then EFI_NOT_FOUND else EFI_SUCCESS, m),
     sh_delete = \<lambda>name m. m(name := None)\<rparr>"

interpretation rs: shell_files ram_shell "\<lambda>m. m" "\<lambda>f. f" "\<lambda>m f. 0"
  by unfold_locales (auto simp: ram_shell_def unat_of_nat split: if_splits option.splits)

text \<open>The same on a medium from which nothing can be deleted.\<close>

definition kept_shell :: "(ustring, ustring \<Rightarrow> bytes option) shell" where
  "kept_shell = ram_shell\<lparr>sh_delete := \<lambda>name m. m\<rparr>"

interpretation ks: shell_files kept_shell "\<lambda>m. m" "\<lambda>f. f" "\<lambda>m f. 0"
  by unfold_locales (auto simp: kept_shell_def ram_shell_def unat_of_nat split: if_splits option.splits)

end
