(* ===== verification/PartEdit.thy ===== *)
theory PartEdit
  imports EfiShell EfiDump
begin

text \<open>
  \<open>Application/PartEdit/PartEdit.c\<close>: a tool that reads, erases and flashes the partitions of a disk,
  also from Android sparse images, and saves or erases the partition table.

  A partition or disk is the record of what its block and disk protocols do on the world; a handle
  is a value of a type \<open>'h\<close>.  Looking a protocol up has no effect on the world.  What is printed is
  left out but for the dumps.
\<close>

record 'w part_device =
  pd_block_size :: u32
  pd_last_block :: u64
  pd_read_blocks :: "u64 \<Rightarrow> u64 \<Rightarrow> 'w \<Rightarrow> (EFI_STATUS \<times> bytes) \<times> 'w"
  pd_write_blocks :: "u64 \<Rightarrow> bytes \<Rightarrow> 'w \<Rightarrow> EFI_STATUS \<times> 'w"
  pd_read_disk :: "u64 \<Rightarrow> u64 \<Rightarrow> 'w \<Rightarrow> (EFI_STATUS \<times> bytes) \<times> 'w"
  pd_write_disk :: "u64 \<Rightarrow> bytes \<Rightarrow> 'w \<Rightarrow> EFI_STATUS \<times> 'w"
  pd_flush :: "'w \<Rightarrow> 'w"

record path_node =
  dp_type :: u8
  dp_subtype :: u8
  dp_data :: bytes

text \<open>
  \<open>pe_locate\<close> gives the handle of the disk from its path; \<open>pe_hex\<close> is \<open>StrHexToUintn\<close> and
  \<open>pe_ascii\<close> what \<open>UnicodeStrToAsciiStrS\<close> leaves in the array of a partition's name.
\<close>

record ('h, 'f, 'w) part_services =
  pe_alloc :: "'w alloc"
  pe_shell :: "('f, 'w) shell"
  pe_handles :: "EFI_STATUS \<times> 'h list"
  pe_device :: "'h \<Rightarrow> 'w part_device"
  pe_block_status :: "'h \<Rightarrow> EFI_STATUS"
  pe_disk_status :: "'h \<Rightarrow> EFI_STATUS"
  pe_path_status :: "'h \<Rightarrow> EFI_STATUS"
  pe_path :: "'h \<Rightarrow> path_node list"
  pe_logical :: "'h \<Rightarrow> bool"
  pe_removable :: "'h \<Rightarrow> bool"
  pe_locate :: "path_node list \<Rightarrow> EFI_STATUS \<times> 'h"
  pe_hex :: "ustring \<Rightarrow> u64"
  pe_ascii :: "ustring \<Rightarrow> bytes"

text \<open>An entry of the partition list: the 36 characters of the name and the handle.\<close>

type_synonym 'h partition_list = "(u16 list \<times> 'h) list"

subsection \<open>Finding the disk\<close>

definition IsUsbDevice :: "path_node list \<Rightarrow> bool" where
  "IsUsbDevice path = list_ex (\<lambda>n. dp_type n = 3 \<and> dp_subtype n = 5) path"

fun scan_handles :: "('h, 'f, 'w) part_services \<Rightarrow> 'h list \<Rightarrow> (EFI_STATUS + 'h) option" where
  "scan_handles sv [] = None"
| "scan_handles sv (h # hs) =
     (if EFI_ERROR (pe_block_status sv h) then Some (Inl (pe_block_status sv h))
      else if EFI_ERROR (pe_disk_status sv h) then Some (Inl (pe_disk_status sv h))
      else if pe_logical sv h \<or> pe_removable sv h then scan_handles sv hs
      else if EFI_ERROR (pe_path_status sv h) then scan_handles sv hs
      else if IsUsbDevice (pe_path sv h) then scan_handles sv hs
      else Some (Inr h))"

text \<open>
  The index of the loop has 8 bits: behind the first 256 handles it starts again, and the lookups
  give the same again.
\<close>

definition InitDevicePath :: "('h, 'f, 'w) part_services \<Rightarrow> (EFI_STATUS + 'h) outcome" where
  "InitDevicePath sv =
     (case pe_handles sv of (status, handles) \<Rightarrow>
      if EFI_ERROR status then Returned (Inl status)
      else (case scan_handles sv (take 256 handles) of
          Some r \<Rightarrow> Returned r
        | None \<Rightarrow> if length handles < 256 then Returned (Inl EFI_DEVICE_ERROR) else Unfinished))"

subsection \<open>The partitions of the disk\<close>

definition align_value :: "u64 \<Rightarrow> u64 \<Rightarrow> u64" where
  "align_value v a = v + ((a - v) AND (a - 1))"

text \<open>
  The entries of the partition table.  When there is no memory for them, the read gets a \<open>NULL\<close>
  buffer; when the read fails, \<open>FreePool\<close> is given the address of a variable, which fails an
  assertion.
\<close>

definition ReadPartitionEntries :: "'w alloc \<Rightarrow> 'w part_device \<Rightarrow> 'w \<Rightarrow> ((EFI_STATUS + bytes) \<times> 'w) outcome" where
  "ReadPartitionEntries A dev w =
     (case A (unat (pd_block_size dev)) w of (ok, w1) \<Rightarrow>
      if \<not> ok then Returned (Inl EFI_OUT_OF_RESOURCES, w1)
      else case pd_read_blocks dev 1 (ucast (pd_block_size dev)) w1 of ((status, header), w2) \<Rightarrow>
      if EFI_ERROR status then Returned (Inl status, w2)
      else obind (checked (slice 0 92 header)) (\<lambda>h.
        if take 8 h \<noteq> ascii ''EFI PART'' \<or> load64 (drop 24 h) \<noteq> 1 then Returned (Inl EFI_DEVICE_ERROR, w2)
        else let size0 = ucast (load32 (drop 84 h)) :: u64; num = ucast (load32 (drop 80 h)) :: u64;
                 buffer_size = align_value (size0 * num) (ucast (pd_block_size dev))
          in obind (avb_assert (size0 \<noteq> 0)) (\<lambda>_. obind (avb_assert (num \<noteq> 0)) (\<lambda>_.
            case A (unat buffer_size) w2 of (ok, w3) \<Rightarrow>
            if \<not> ok then Faulted
            else case pd_read_blocks dev 2 buffer_size w3 of ((status, entries), w4) \<Rightarrow>
              if EFI_ERROR status then Aborted else Returned (Inr entries, w4)))))"

definition path_octets :: "path_node list \<Rightarrow> bytes" where
  "path_octets path = concat (map (\<lambda>n. [dp_type n, dp_subtype n] @ mem16 (word_of_nat (4 + length (dp_data n))) @ dp_data n) path)"

fun name_cells :: "bytes \<Rightarrow> u16 list" where
  "name_cells (a # b # r) = load16 [a, b] # name_cells r"
| "name_cells _ = []"

text \<open>One handle of the loop: the list with the partition that it is one of, or \<open>None\<close> without memory.\<close>

definition add_partition ::
  "('h, 'f, 'w) part_services \<Rightarrow> path_node list \<Rightarrow> bytes \<Rightarrow> 'h \<Rightarrow> 'h partition_list \<Rightarrow> 'w \<Rightarrow>
   ('h partition_list option \<times> 'w) outcome" where
  "add_partition sv disk entries h parts w =
     obind (avb_assert (\<not> EFI_ERROR (pe_path_status sv h))) (\<lambda>_.
       let path = pe_path sv h in
       if take (length (path_octets disk)) (path_octets path) \<noteq> path_octets disk then Returned (Some parts, w)
       else (case find (\<lambda>n. dp_type n = 4 \<and> dp_subtype n = 1) (tl path) of
           None \<Rightarrow> Returned (Some parts, w)
         | Some n \<Rightarrow>
             obind (checked (slice 36 1 (dp_data n))) (\<lambda>mbr. obind (avb_assert (hd mbr = 2)) (\<lambda>_.
               let number = load32 (dp_data n) in
               if number = 0 then Returned (Some parts, w)
               else case pe_alloc sv 96 w of (ok, w1) \<Rightarrow>
                 if \<not> ok then Returned (None, w1)
                 else obind (checked (slice (unat (number - 1) * 128 + 56) 72 entries)) (\<lambda>name.
                   Returned (Some (parts @ [(name_cells name, h)]), w1))))))"

fun add_partitions ::
  "('h, 'f, 'w) part_services \<Rightarrow> path_node list \<Rightarrow> bytes \<Rightarrow> 'h list \<Rightarrow> 'h partition_list \<Rightarrow> 'w \<Rightarrow>
   ((EFI_STATUS \<times> 'h partition_list) \<times> 'w) outcome" where
  "add_partitions sv disk entries [] parts w = Returned ((EFI_SUCCESS, parts), w)"
| "add_partitions sv disk entries (h # hs) parts w =
     obind (add_partition sv disk entries h parts w) (\<lambda>(r, w').
       case r of None \<Rightarrow> Returned ((EFI_OUT_OF_RESOURCES, []), w')
       | Some parts' \<Rightarrow> add_partitions sv disk entries hs parts' w')"

definition InitDiskPartition ::
  "('h, 'f, 'w) part_services \<Rightarrow> path_node list \<Rightarrow> 'w \<Rightarrow> ((EFI_STATUS \<times> 'h partition_list) \<times> 'w) outcome" where
  "InitDiskPartition sv disk w =
     (case pe_locate sv disk of (status, flash) \<Rightarrow>
      if EFI_ERROR status then Returned ((EFI_SUCCESS, []), w)
      else if EFI_ERROR (pe_block_status sv flash) then Returned ((EFI_DEVICE_ERROR, []), w)
      else obind (ReadPartitionEntries (pe_alloc sv) (pe_device sv flash) w) (\<lambda>(r, w1). case r of
          Inl _ \<Rightarrow> Returned ((EFI_SUCCESS, []), w1)
        | Inr entries \<Rightarrow>
            obind (avb_assert (\<not> EFI_ERROR (fst (pe_handles sv)))) (\<lambda>_.
              add_partitions sv disk entries (snd (pe_handles sv)) [] w1)))"

subsection \<open>Reading and writing a partition\<close>

text \<open>\<open>StrCmp\<close> of a name of the list, which need not have a terminator, with a string.\<close>

fun same_name :: "u16 list \<Rightarrow> ustring \<Rightarrow> bool outcome" where
  "same_name [] t = Faulted"
| "same_name (c # cs) [] = Returned (c = 0)"
| "same_name (c # cs) (d # ds) = (if c = d then same_name cs ds else Returned False)"

fun find_partition :: "'h partition_list \<Rightarrow> ustring \<Rightarrow> 'h option outcome" where
  "find_partition [] name = Returned None"
| "find_partition ((cells, h) # parts) name =
     obind (same_name cells name) (\<lambda>same. if same then Returned (Some h) else find_partition parts name)"

definition OpenPartition :: "('h, 'f, 'w) part_services \<Rightarrow> 'h partition_list \<Rightarrow> bytes \<Rightarrow> (EFI_STATUS + 'w part_device) outcome" where
  "OpenPartition sv parts name =
     obind (find_partition parts (map ucast name)) (\<lambda>found. Returned (case found of
       None \<Rightarrow> Inl EFI_NOT_FOUND
     | Some h \<Rightarrow>
         if EFI_ERROR (pe_block_status sv h) then Inl (pe_block_status sv h)
         else if EFI_ERROR (pe_disk_status sv h) then Inl (pe_disk_status sv h)
         else Inr (pe_device sv h)))"

definition part_size :: "'w part_device \<Rightarrow> u64" where
  "part_size dev = (pd_last_block dev + 1) * ucast (pd_block_size dev)"

definition ReadPartition ::
  "('h, 'f, 'w) part_services \<Rightarrow> 'h partition_list \<Rightarrow> bytes \<Rightarrow> u64 \<Rightarrow> u64 \<Rightarrow> 'w \<Rightarrow> ((EFI_STATUS + bytes) \<times> 'w) outcome" where
  "ReadPartition sv parts name offset size0 w =
     obind (OpenPartition sv parts name) (\<lambda>r. Returned (case r of
       Inl status \<Rightarrow> (Inl status, w)
     | Inr dev \<Rightarrow>
         if part_size dev < size0 then (Inl EFI_VOLUME_FULL, w)
         else (case pd_read_disk dev offset size0 w of ((status, data), w1) \<Rightarrow>
           (if EFI_ERROR status then Inl status else Inr data, w1))))"

text \<open>\<open>mem\<close> is the memory at the buffer to write from.\<close>

definition WritePartition ::
  "('h, 'f, 'w) part_services \<Rightarrow> 'h partition_list \<Rightarrow> bytes \<Rightarrow> u64 \<Rightarrow> bytes \<Rightarrow> u64 \<Rightarrow> 'w \<Rightarrow> (EFI_STATUS \<times> 'w) outcome" where
  "WritePartition sv parts name offset mem size0 w =
     obind (OpenPartition sv parts name) (\<lambda>r. case r of
       Inl status \<Rightarrow> Returned (status, w)
     | Inr dev \<Rightarrow>
         if part_size dev < size0 then Returned (EFI_VOLUME_FULL, w)
         else obind (checked (slice 0 (unat size0) mem)) (\<lambda>data.
           case pd_write_disk dev offset data w of (status, w1) \<Rightarrow>
             Returned (if EFI_ERROR status then (status, w1) else (EFI_SUCCESS, pd_flush dev w1))))"

definition SavePartitionData ::
  "('h, 'f, 'w) part_services \<Rightarrow> 'h partition_list \<Rightarrow> bytes \<Rightarrow> ustring \<Rightarrow> 'w \<Rightarrow> (EFI_STATUS \<times> 'w) outcome" where
  "SavePartitionData sv parts name file w =
     obind (OpenPartition sv parts name) (\<lambda>r. case r of
       Inl status \<Rightarrow> Returned (status, w)
     | Inr dev \<Rightarrow>
         if part_size dev > 0x80000000 then Returned (EFI_VOLUME_FULL, w)
         else (case pe_alloc sv (unat (part_size dev)) w of (ok, w1) \<Rightarrow>
           if \<not> ok then Returned (EFI_OUT_OF_RESOURCES, w1)
           else case pd_read_disk dev 0 (part_size dev) w1 of ((status, data), w2) \<Rightarrow>
             if EFI_ERROR status then Returned (status, w2)
             else obind (SaveFileToDisk (pe_shell sv) file (part_size dev) data w2) (\<lambda>(status, w3).
               Returned (if EFI_ERROR status then status else EFI_SUCCESS, w3))))"

subsection \<open>Sparse images\<close>

definition SPARSE_HEADER_MAGIC :: u32 where "SPARSE_HEADER_MAGIC = 0xED26FF3A"
definition CHUNK_TYPE_RAW :: u16 where "CHUNK_TYPE_RAW = 0xCAC1"
definition CHUNK_TYPE_FILL :: u16 where "CHUNK_TYPE_FILL = 0xCAC2"
definition CHUNK_TYPE_DONT_CARE :: u16 where "CHUNK_TYPE_DONT_CARE = 0xCAC3"
definition FILL_BUF_SIZE :: u64 where "FILL_BUF_SIZE = 0x1000000"

record SPARSE_HEADER =
  sx_magic :: u32
  sx_major :: u16
  sx_minor :: u16
  sx_file_header_size :: u16
  sx_chunk_header_size :: u16
  sx_block_size :: u32
  sx_total_blocks :: u32
  sx_total_chunks :: u32
  sx_checksum :: u32

definition sparse_header_of_mem :: "bytes \<Rightarrow> SPARSE_HEADER" where
  "sparse_header_of_mem m = \<lparr>sx_magic = load32 m, sx_major = load16 (drop 4 m), sx_minor = load16 (drop 6 m),
     sx_file_header_size = load16 (drop 8 m), sx_chunk_header_size = load16 (drop 10 m), sx_block_size = load32 (drop 12 m),
     sx_total_blocks = load32 (drop 16 m), sx_total_chunks = load32 (drop 20 m), sx_checksum = load32 (drop 24 m)\<rparr>"

record CHUNK_HEADER =
  ck_type :: u16
  ck_reserved :: u16
  ck_size :: u32
  ck_total :: u32

definition chunk_header_of_mem :: "bytes \<Rightarrow> CHUNK_HEADER" where
  "chunk_header_of_mem m = \<lparr>ck_type = load16 m, ck_reserved = load16 (drop 2 m), ck_size = load32 (drop 4 m),
     ck_total = load32 (drop 8 m)\<rparr>"

text \<open>
  The loop that fills: \<open>mem\<close> is the memory at the value.  \<open>SetMem32\<close> wants a multiple of 4.  The result
  is the status and the offset.
\<close>

function fill_loop ::
  "('h, 'f, 'w) part_services \<Rightarrow> 'h partition_list \<Rightarrow> bytes \<Rightarrow> bytes \<Rightarrow> u64 \<Rightarrow> u64 \<Rightarrow> EFI_STATUS \<Rightarrow> 'w \<Rightarrow>
   ((EFI_STATUS \<times> u64) \<times> 'w) outcome" where
  "fill_loop sv parts name mem left offset status w =
     (if left = 0 then Returned ((status, offset), w)
      else let count = (if left > FILL_BUF_SIZE then FILL_BUF_SIZE else left) in
        obind (checked (slice 0 4 mem)) (\<lambda>value.
        obind (avb_assert (count AND 3 = 0)) (\<lambda>_.
        obind (WritePartition sv parts name offset (concat (replicate (unat count div 4) value)) count w) (\<lambda>(status', w').
          if EFI_ERROR status' then Returned ((status', offset), w')
          else fill_loop sv parts name mem (left - count) (offset + count) status' w'))))"
  by pat_completeness auto
termination
  by (relation "measure (\<lambda>(sv, parts, name, mem, left, offset, status, w). unat left)")
    (auto simp: FILL_BUF_SIZE_def unat_sub word_le_nat_alt word_less_nat_alt unat_gt_0 split: if_splits)

declare fill_loop.simps [simp del]

text \<open>
  The loop over the chunks: \<open>n\<close> are left, \<open>mem\<close> is the memory at \<open>Image\<close>.  The length that a raw chunk
  is written with is a product of 32 bits.
\<close>

fun flash_chunks ::
  "('h, 'f, 'w) part_services \<Rightarrow> 'h partition_list \<Rightarrow> bytes \<Rightarrow> u32 \<Rightarrow> nat \<Rightarrow> bytes \<Rightarrow> u64 \<Rightarrow> EFI_STATUS \<Rightarrow> 'w \<Rightarrow>
   (EFI_STATUS \<times> 'w) outcome" where
  "flash_chunks sv parts name bs 0 mem offset status w = Returned (status, w)"
| "flash_chunks sv parts name bs (Suc n) mem offset status w =
     obind (checked (slice 0 12 mem)) (\<lambda>h.
       let ch = chunk_header_of_mem h; image = drop 12 mem; amount = ucast (ck_size ch) * ucast bs :: u64 in
       if ck_type ch = CHUNK_TYPE_RAW then
         obind (WritePartition sv parts name offset image (ucast (ck_size ch * bs)) w) (\<lambda>(status', w').
           if EFI_ERROR status' then Returned (status', w')
           else flash_chunks sv parts name bs n (drop (unat amount) image) (offset + amount) status' w')
       else if ck_type ch = CHUNK_TYPE_FILL then
         obind (fill_loop sv parts name image amount offset status w) (\<lambda>((status', offset'), w').
           if EFI_ERROR status' then Returned (status', w')
           else flash_chunks sv parts name bs n (drop 4 image) offset' status' w')
       else if ck_type ch = CHUNK_TYPE_DONT_CARE then flash_chunks sv parts name bs n image (offset + amount) status w
       else flash_chunks sv parts name bs n image offset status w)"

definition FlashSparseImage ::
  "('h, 'f, 'w) part_services \<Rightarrow> 'h partition_list \<Rightarrow> bytes \<Rightarrow> bytes \<Rightarrow> 'w \<Rightarrow> (EFI_STATUS \<times> 'w) outcome" where
  "FlashSparseImage sv parts name img w =
     obind (checked (slice 0 28 img)) (\<lambda>h.
       let header = sparse_header_of_mem h in
       case pe_alloc sv (unat FILL_BUF_SIZE) w of (ok, w1) \<Rightarrow>
       if \<not> ok then Returned (EFI_OUT_OF_RESOURCES, w1)
       else flash_chunks sv parts name (sx_block_size header) (unat (sx_total_chunks header))
              (drop (unat (sx_file_header_size header)) img) 0 EFI_SUCCESS w1)"

definition FlashPartition ::
  "('h, 'f, 'w) part_services \<Rightarrow> 'h partition_list \<Rightarrow> bytes \<Rightarrow> u64 \<Rightarrow> bytes option \<Rightarrow> 'w \<Rightarrow> (EFI_STATUS \<times> 'w) outcome" where
  "FlashPartition sv parts name size0 buffer w =
     (case buffer of None \<Rightarrow> Returned (EFI_INVALID_PARAMETER, w)
      | Some img \<Rightarrow>
          obind (checked (slice 0 4 img)) (\<lambda>m.
            if load32 m = SPARSE_HEADER_MAGIC then
              obind (checked (slice 0 28 img)) (\<lambda>h.
                if sx_major (sparse_header_of_mem h) \<noteq> 1 then Returned (EFI_INVALID_PARAMETER, w)
                else FlashSparseImage sv parts name img w)
            else WritePartition sv parts name 0 img size0 w))"

end
