(* ===== verification/PartEditApp.thy ===== *)
theory PartEditApp
  imports PartEdit
begin

text \<open>
  The rest of PartEdit.c: erasing a partition, saving and erasing the partition table, reading and
  writing the disk, and the application with its command line.
\<close>

subsection \<open>Erasing a partition\<close>

function erase_loop :: "'w part_device \<Rightarrow> u64 \<Rightarrow> u64 \<Rightarrow> 'w \<Rightarrow> EFI_STATUS \<times> 'w" where
  "erase_loop dev left offset w =
     (if left = 0 then (EFI_SUCCESS, w)
      else let count = (if left > FILL_BUF_SIZE then FILL_BUF_SIZE else left) in
        case pd_write_blocks dev offset (replicate (unat count) 0) w of (status, w') \<Rightarrow>
        if EFI_ERROR status then (status, w')
        else erase_loop dev (left - count) (offset + count div ucast (pd_block_size dev)) w')"
  by pat_completeness auto
termination
  by (relation "measure (\<lambda>(dev, left, offset, w). unat left)")
    (auto simp: FILL_BUF_SIZE_def unat_sub word_le_nat_alt word_less_nat_alt unat_gt_0 split: if_splits)

declare erase_loop.simps [simp del]

definition ErasePartition ::
  "('h, 'f, 'w) part_services \<Rightarrow> 'h partition_list \<Rightarrow> bytes \<Rightarrow> 'w \<Rightarrow> (EFI_STATUS \<times> 'w) outcome" where
  "ErasePartition sv parts name w =
     obind (OpenPartition sv parts name) (\<lambda>r. Returned (case r of
       Inl status \<Rightarrow> (status, w)
     | Inr dev \<Rightarrow>
         (case pe_alloc sv (unat FILL_BUF_SIZE) w of (ok, w1) \<Rightarrow>
          if \<not> ok then (EFI_OUT_OF_RESOURCES, w1)
          else case erase_loop dev (part_size dev) 0 w1 of (status, w2) \<Rightarrow>
            if EFI_ERROR status then (status, w2) else (EFI_SUCCESS, pd_flush dev w2))))"

subsection \<open>The partition table\<close>

definition GPT_ENTRIES_SIZE :: u64 where "GPT_ENTRIES_SIZE = 128 * 128"

text \<open>
  Where the two tables are and how long; twice the size of a block is computed in 32 bits.  The disk
  has blocks, so the division by their size is defined.
\<close>

definition primary_size :: "'w part_device \<Rightarrow> u64" where
  "primary_size dev = ucast (2 * pd_block_size dev) + GPT_ENTRIES_SIZE"

definition secondary_size :: "'w part_device \<Rightarrow> u64" where
  "secondary_size dev = ucast (pd_block_size dev) + GPT_ENTRIES_SIZE"

definition secondary_offset :: "'w part_device \<Rightarrow> u64" where
  "secondary_offset dev = (pd_last_block dev - GPT_ENTRIES_SIZE div ucast (pd_block_size dev)) * ucast (pd_block_size dev)"

definition erase_area :: "'w alloc \<Rightarrow> 'w part_device \<Rightarrow> u64 \<Rightarrow> u64 \<Rightarrow> 'w \<Rightarrow> EFI_STATUS \<times> 'w" where
  "erase_area A dev offset size0 w =
     (case A (unat size0) w of (ok, w1) \<Rightarrow>
      if \<not> ok then (EFI_OUT_OF_RESOURCES, w1) else pd_write_disk dev offset (replicate (unat size0) 0) w1)"

definition EraseGptTable :: "'w alloc \<Rightarrow> 'w part_device \<Rightarrow> 'w \<Rightarrow> EFI_STATUS \<times> 'w" where
  "EraseGptTable A dev w =
     (case erase_area A dev 0 (primary_size dev) w of (status, w1) \<Rightarrow>
      if EFI_ERROR status then (status, w1)
      else case erase_area A dev (secondary_offset dev) (secondary_size dev) w1 of (status, w2) \<Rightarrow>
        if EFI_ERROR status then (status, w2) else (status, pd_flush dev w2))"

text \<open>\<open>SaveDiskData\<close>; \<open>SaveGptTable\<close> repeats its steps for the two tables.\<close>

definition SaveDiskData ::
  "'w alloc \<Rightarrow> ('f, 'w) shell \<Rightarrow> 'w part_device \<Rightarrow> ustring \<Rightarrow> u64 \<Rightarrow> u64 \<Rightarrow> 'w \<Rightarrow> (EFI_STATUS \<times> 'w) outcome" where
  "SaveDiskData A sh dev file offset size0 w =
     (case A (unat size0) w of (ok, w1) \<Rightarrow>
      if \<not> ok then Returned (EFI_OUT_OF_RESOURCES, w1)
      else case pd_read_disk dev offset size0 w1 of ((status, data), w2) \<Rightarrow>
        if EFI_ERROR status then Returned (status, w2)
        else SaveFileToDisk sh file size0 data w2)"

definition SaveGptTable :: "'w alloc \<Rightarrow> ('f, 'w) shell \<Rightarrow> 'w part_device \<Rightarrow> 'w \<Rightarrow> (EFI_STATUS \<times> 'w) outcome" where
  "SaveGptTable A sh dev w =
     obind (SaveDiskData A sh dev (wide ''PrimarySave.bin'') 0 (primary_size dev) w) (\<lambda>(status, w1).
       if EFI_ERROR status then Returned (status, w1)
       else obind (SaveDiskData A sh dev (wide ''SecondarySave.bin'') (secondary_offset dev) (secondary_size dev) w1)
         (\<lambda>(status, w2). Returned (if EFI_ERROR status then (status, w2) else (status, pd_flush dev w2))))"

subsection \<open>The disk\<close>

definition WriteDataToDisk ::
  "('f, 'w) shell \<Rightarrow> 'w part_device \<Rightarrow> ustring \<Rightarrow> u64 \<Rightarrow> u64 \<Rightarrow> 'w \<Rightarrow> (EFI_STATUS \<times> 'w) outcome" where
  "WriteDataToDisk sh dev file offset size0 w =
     (case ReadFileFromDisk sh file w of (r, w1) \<Rightarrow> case r of
        Inl status \<Rightarrow> Returned (status, w1)
      | Inr data \<Rightarrow>
          let temp_size = (if size0 = 0 then word_of_nat (length data) else size0) in
          obind (checked (slice 0 (unat temp_size) data)) (\<lambda>d.
            case pd_write_disk dev offset d w1 of (status, w2) \<Rightarrow>
              Returned (if EFI_ERROR status then (status, w2) else (EFI_SUCCESS, pd_flush dev w2))))"

type_synonym dump = "(u64 \<times> bytes \<times> bytes) list"

definition DumpDiskData :: "'w alloc \<Rightarrow> 'w part_device \<Rightarrow> u64 \<Rightarrow> bool \<Rightarrow> 'w \<Rightarrow> (EFI_STATUS \<times> dump option) \<times> 'w" where
  "DumpDiskData A dev offset is_lba w =
     (let size0 = ucast (pd_block_size dev) :: u64; dump_offset = (if is_lba then offset * size0 else offset) in
      case A (unat size0) w of (ok, w1) \<Rightarrow>
      if \<not> ok then ((EFI_OUT_OF_RESOURCES, None), w1)
      else case pd_read_disk dev dump_offset size0 w1 of ((status, data), w2) \<Rightarrow>
        if EFI_ERROR status then ((status, None), w2) else ((EFI_SUCCESS, Some (DumpHex 0 data)), w2))"

subsection \<open>The application\<close>

definition said :: "ustring \<Rightarrow> string \<Rightarrow> string \<Rightarrow> bool" where
  "said arg s t \<longleftrightarrow> arg = wide s \<or> arg = wide t"

text \<open>
  The actions after the disk and its partitions are found, by the number of arguments.  The name of
  the file of a saved partition is formatted into 36 octets, which hold 17 characters.
\<close>

definition two_arguments ::
  "('h, 'f, 'w) part_services \<Rightarrow> 'w part_device \<Rightarrow> 'h partition_list \<Rightarrow> ustring \<Rightarrow> ustring \<Rightarrow> 'w \<Rightarrow>
   ((EFI_STATUS \<times> dump option) \<times> 'w) outcome" where
  "two_arguments sv disk parts a1 a2 w =
     (let plain = (\<lambda>m. obind m (\<lambda>(status, w'). Returned ((status, None), w'))) in
      if said a1 ''gpt'' ''GPT'' \<and> said a2 ''erase'' ''ERASE'' then
        plain (Returned (case EraseGptTable (pe_alloc sv) disk w of (status, w') \<Rightarrow>
          (if EFI_ERROR status then status else EFI_SUCCESS, w')))
      else if said a1 ''gpt'' ''GPT'' \<and> said a2 ''save'' ''SAVE'' then
        plain (obind (SaveGptTable (pe_alloc sv) (pe_shell sv) disk w) (\<lambda>(status, w').
          Returned (if EFI_ERROR status then status else EFI_SUCCESS, w')))
      else if said a1 ''erase'' ''ERASE'' then plain (ErasePartition sv parts (pe_ascii sv a2) w)
      else if said a1 ''dump'' ''DUMP'' then Returned (DumpDiskData (pe_alloc sv) disk (pe_hex sv a2) False w)
      else if said a1 ''lba'' ''LBA'' then Returned (DumpDiskData (pe_alloc sv) disk (pe_hex sv a2) True w)
      else if said a1 ''savepart'' ''SAVEPART'' then
        plain (SavePartitionData sv parts (pe_ascii sv a2) (take 17 (a2 @ wide ''.bin'')) w)
      else Returned ((0, None), w))"

definition flash_argument ::
  "('h, 'f, 'w) part_services \<Rightarrow> 'h partition_list \<Rightarrow> ustring \<Rightarrow> ustring \<Rightarrow> 'w \<Rightarrow> (EFI_STATUS \<times> 'w) outcome" where
  "flash_argument sv parts name file w =
     (case ReadFileFromDisk (pe_shell sv) file w of (r, w1) \<Rightarrow> case r of
        Inl status \<Rightarrow> Returned (status, w1)
      | Inr data \<Rightarrow> FlashPartition sv parts (pe_ascii sv name) (word_of_nat (length data)) (Some data) w1)"

definition read_argument ::
  "('h, 'f, 'w) part_services \<Rightarrow> 'h partition_list \<Rightarrow> ustring \<Rightarrow> u64 \<Rightarrow> u64 \<Rightarrow> 'w \<Rightarrow>
   ((EFI_STATUS \<times> dump option) \<times> 'w) outcome" where
  "read_argument sv parts name offset size0 w =
     (case pe_alloc sv (unat size0) w of (ok, w1) \<Rightarrow>
      if \<not> ok then Returned ((EFI_OUT_OF_RESOURCES, None), w1)
      else obind (ReadPartition sv parts (pe_ascii sv name) offset size0 w1) (\<lambda>(r, w2). Returned (case r of
          Inl status \<Rightarrow> ((status, None), w2)
        | Inr data \<Rightarrow> ((EFI_SUCCESS, Some (DumpHex 0 data)), w2))))"

definition four_arguments ::
  "('h, 'f, 'w) part_services \<Rightarrow> 'w part_device \<Rightarrow> 'h partition_list \<Rightarrow> ustring list \<Rightarrow> 'w \<Rightarrow>
   ((EFI_STATUS \<times> dump option) \<times> 'w) outcome" where
  "four_arguments sv disk parts args w =
     (let a1 = args ! 1; plain = (\<lambda>m. obind m (\<lambda>(status, w'). Returned ((status, None), w'))) in
      if said a1 ''read'' ''READ'' then read_argument sv parts (args ! 2) (pe_hex sv (args ! 3)) (pe_hex sv (args ! 4)) w
      else if said a1 ''save'' ''SAVE'' then
        plain (obind (SaveDiskData (pe_alloc sv) (pe_shell sv) disk (args ! 4) (pe_hex sv (args ! 2)) (pe_hex sv (args ! 3)) w)
          (\<lambda>(status, w'). Returned (if EFI_ERROR status then status else EFI_SUCCESS, w')))
      else if said a1 ''write'' ''WRITE'' then
        plain (WriteDataToDisk (pe_shell sv) disk (args ! 4) (pe_hex sv (args ! 2)) (pe_hex sv (args ! 3)) w)
      else Returned ((0, None), w))"

definition PartEditMain ::
  "('h, 'f, 'w) part_services \<Rightarrow> ustring list \<Rightarrow> 'w \<Rightarrow> ((EFI_STATUS \<times> dump option) \<times> 'w) outcome" where
  "PartEditMain sv args w =
     (if length args = 1 then Returned ((EFI_INVALID_PARAMETER, None), w)
      else case pe_alloc sv 24 w of (ok, w1) \<Rightarrow>
      if \<not> ok then Returned ((EFI_OUT_OF_RESOURCES, None), w1)
      else obind (InitDevicePath sv) (\<lambda>r. case r of
          Inl status \<Rightarrow> Returned ((status, None), w1)
        | Inr h \<Rightarrow>
            obind (InitDiskPartition sv (pe_path sv h) w1) (\<lambda>((status, parts), w2).
              if EFI_ERROR status then Returned ((status, None), w2)
              else if length args = 2 \<and> said (args ! 1) ''-d'' ''/d'' then Returned ((EFI_SUCCESS, None), w2)
              else if length args = 3 then two_arguments sv (pe_device sv h) parts (args ! 1) (args ! 2) w2
              else if length args = 4 \<and> said (args ! 1) ''flash'' ''FLASH'' then
                obind (flash_argument sv parts (args ! 2) (args ! 3) w2) (\<lambda>(status, w3). Returned ((status, None), w3))
              else if length args = 5 then four_arguments sv (pe_device sv h) parts args w2
              else Returned ((0, None), w2))))"

end
