(* ===== verification/PartEditFlash.thy ===== *)
theory PartEditFlash
  imports PartEditApp
begin

text \<open>
  What PartEdit does to a disk.  The locale \<open>part_disk\<close> states what the block and disk protocols
  promise about the contents of a partition; a call that reports an error promises nothing.
\<close>

locale part_disk =
  fixes dev :: "'w part_device" and A :: "'w alloc" and contents :: "'w \<Rightarrow> bytes"
  assumes alloc_contents: "contents (snd (A n w)) = contents w"
    and write_disk_contents: "pd_write_disk dev off b w = (status, w') \<Longrightarrow> \<not> EFI_ERROR status \<Longrightarrow>
      unat off + length b \<le> length (contents w) \<and> contents w' = overwrite (unat off) b (contents w)"
    and write_blocks_contents: "pd_write_blocks dev off b w = (status, w') \<Longrightarrow> \<not> EFI_ERROR status \<Longrightarrow>
      unat off * unat (pd_block_size dev) + length b \<le> length (contents w) \<and>
      contents w' = overwrite (unat off * unat (pd_block_size dev)) b (contents w)"
    and flush_contents: "contents (pd_flush dev w) = contents w"
    and size: "length (contents w) = (unat (pd_last_block dev) + 1) * unat (pd_block_size dev)"
      "(unat (pd_last_block dev) + 1) * unat (pd_block_size dev) < 2 ^ 64" "0 < unat (pd_block_size dev)"
begin

lemma unat_part_size: "unat (part_size dev) = length (contents w)"
proof -
  have b: "unat (ucast (pd_block_size dev) :: u64) = unat (pd_block_size dev)" by (rule unat_ucast_up) simp
  have "unat (pd_last_block dev) + 1 \<le> (unat (pd_last_block dev) + 1) * unat (pd_block_size dev)"
    using size(3) mult_le_mono2 [of 1 "unat (pd_block_size dev)" "unat (pd_last_block dev) + 1"] by simp
  then have "unat (pd_last_block dev + 1) = unat (pd_last_block dev) + 1"
    using size(2) by (simp add: unat_word_ariths)
  then show ?thesis using size(1,2) by (simp add: part_size_def unat_word_ariths b)
qed

lemma WritePartition_result:
  assumes "OpenPartition sv parts name = Returned (Inr dev)" "unat size0 \<le> length mem"
  shows "\<exists>status w'. WritePartition sv parts name off mem size0 w = Returned (status, w') \<and>
    (\<not> EFI_ERROR status \<longrightarrow> unat off + unat size0 \<le> length (contents w) \<and>
       contents w' = overwrite (unat off) (take (unat size0) mem) (contents w))"
proof -
  obtain status w1 where p: "pd_write_disk dev off (take (unat size0) mem) w = (status, w1)" by fastforce
  have "WritePartition sv parts name off mem size0 w =
    (if part_size dev < size0 then Returned (EFI_VOLUME_FULL, w)
     else Returned (if EFI_ERROR status then (status, w1) else (EFI_SUCCESS, pd_flush dev w1)))"
    using assms p by (simp add: WritePartition_def slice_Some)
  with write_disk_contents [OF p] flush_contents [of w1] assms(2) show ?thesis by auto
qed

lemma fill_loop_result:
  assumes "OpenPartition sv parts name = Returned (Inr dev)" "length value = 4" "4 dvd unat left"
    and "unat off + unat left < 2 ^ 64" "\<not> EFI_ERROR status"
  shows "\<exists>status' off' w'. fill_loop sv parts name (value @ rest) left off status w = Returned ((status', off'), w') \<and>
    (\<not> EFI_ERROR status' \<longrightarrow> off' = off + left \<and> (left \<noteq> 0 \<longrightarrow> unat off + unat left \<le> length (contents w)) \<and>
       contents w' = overwrite (unat off) (concat (replicate (unat left div 4) value)) (contents w))"
  using assms(3-5)
proof (induction "unat left" arbitrary: left off status w rule: less_induct)
  case less
  show ?case
  proof (cases "left = 0")
    case True
    then show ?thesis using less.prems(3) by (simp add: fill_loop.simps)
  next
    case False
    define count where "count = (if left > FILL_BUF_SIZE then FILL_BUF_SIZE else left)"
    have c: "0 < unat count" "unat count \<le> unat left" "4 dvd unat count"
      using False less.prems(1) by (auto simp: count_def FILL_BUF_SIZE_def word_less_nat_alt unat_gt_0)
    have d: "unat (left - count) = unat left - unat count" using c(2) by (simp add: unat_sub word_le_nat_alt)
    have o: "unat (off + count) = unat off + unat count" using c(2) less.prems(2) by (simp add: unat_word_ariths)
    have align: "count AND 3 = 0"
    proof -
      have "(3 :: u64) = mask 2" by (simp add: mask_eq_exp_minus_1)
      then have "unat (count AND 3) = unat count mod 4"
        by (simp only: take_bit_eq_mask [symmetric] unsigned_take_bit_eq) (simp add: take_bit_eq_mod)
      with c(3) show ?thesis by (simp add: unat_eq_0 [symmetric])
    qed
    let ?fill = "concat (replicate (unat count div 4) value)"
    have len: "length ?fill = unat count" using assms(2) c(3) by (simp add: length_concat sum_list_replicate)
    obtain status1 w1 where 1: "WritePartition sv parts name off ?fill count w = Returned (status1, w1)"
      "\<not> EFI_ERROR status1 \<longrightarrow> unat off + unat count \<le> length (contents w) \<and> contents w1 = overwrite (unat off) ?fill (contents w)"
      using WritePartition_result [OF assms(1), of count ?fill off w] len by auto
    have step: "fill_loop sv parts name (value @ rest) left off status w =
      (if EFI_ERROR status1 then Returned ((status1, off), w1)
       else fill_loop sv parts name (value @ rest) (left - count) (off + count) status1 w1)"
      using False assms(2) align by (subst fill_loop.simps) (simp add: Let_def count_def [symmetric] slice_Some 1(1))
    show ?thesis
    proof (cases "EFI_ERROR status1")
      case True
      with step show ?thesis by simp
    next
      case ok: False
      have l: "unat (left - count) < unat left" "4 dvd unat (left - count)"
        "unat (off + count) + unat (left - count) < 2 ^ 64"
        using c d o less.prems(1,2) by simp_all
      from less.hyps [OF l ok, of w1] obtain status' off' w' where r:
        "fill_loop sv parts name (value @ rest) (left - count) (off + count) status1 w1 = Returned ((status', off'), w')"
        "\<not> EFI_ERROR status' \<longrightarrow> off' = off + count + (left - count) \<and>
          (left - count \<noteq> 0 \<longrightarrow> unat (off + count) + unat (left - count) \<le> length (contents w1)) \<and>
          contents w' = overwrite (unat (off + count)) (concat (replicate (unat (left - count) div 4) value)) (contents w1)"
        by blast
      have total: "unat off + unat left \<le> length (contents w)" if "\<not> EFI_ERROR status'"
        using r(2) 1(2) ok that c d o len by (cases "left = count") auto
      have sum: "unat count div 4 + unat (left - count) div 4 = unat left div 4"
        using c d by (metis div_add dvd_diff_nat le_add_diff_inverse less.prems(1))
      have "contents w' = overwrite (unat off) (concat (replicate (unat left div 4) value)) (contents w)"
        if "\<not> EFI_ERROR status'"
      proof -
        have "length (concat (replicate (unat (left - count) div 4) value)) = unat left - unat count"
          using assms(2) l(2) d by (simp add: length_concat sum_list_replicate)
        then show ?thesis
          using r(2) 1(2) ok that o total [OF that] c(2) len
            overwrite_append [of "unat off" ?fill "concat (replicate (unat (left - count) div 4) value)" "contents w"]
          by (simp add: sum [symmetric] replicate_add)
      qed
      with r step ok total show ?thesis by auto
    qed
  qed
qed

lemma erase_loop_result:
  assumes "unat (pd_block_size dev) dvd unat FILL_BUF_SIZE" "unat (pd_block_size dev) dvd unat left"
    and "unat off * unat (pd_block_size dev) + unat left = length (contents w)"
    and "take (unat off * unat (pd_block_size dev)) (contents w) = replicate (unat off * unat (pd_block_size dev)) 0"
    and "erase_loop dev left off w = (status, w')" "\<not> EFI_ERROR status"
  shows "contents w' = replicate (length (contents w)) 0"
  using assms(2-5)
proof (induction "unat left" arbitrary: left off w rule: less_induct)
  case less
  let ?bs = "unat (pd_block_size dev)"
  show ?case
  proof (cases "left = 0")
    case True
    with less.prems show ?thesis by (simp add: erase_loop.simps)
  next
    case False
    define count where "count = (if left > FILL_BUF_SIZE then FILL_BUF_SIZE else left)"
    have c: "0 < unat count" "unat count \<le> unat left" "?bs dvd unat count"
      using False less.prems(1) assms(1) by (auto simp: count_def FILL_BUF_SIZE_def word_less_nat_alt unat_gt_0)
    have d: "unat (left - count) = unat left - unat count" using c(2) by (simp add: unat_sub word_le_nat_alt)
    have b: "unat (ucast (pd_block_size dev) :: u64) = ?bs" by (rule unat_ucast_up) simp
    have div0: "unat (count div ucast (pd_block_size dev)) = unat count div ?bs" by (simp add: unat_div b)
    have lt: "length (contents w) < 2 ^ 64" using size(1,2) by simp
    have "unat off + unat count div ?bs \<le> (unat off + unat count div ?bs) * ?bs" using size(3) by simp
    also have "\<dots> = unat off * ?bs + unat count" using c(3) by (simp add: algebra_simps)
    also have "\<dots> < 2 ^ 64" using less.prems(2) c(2) lt by linarith
    finally have o: "unat (off + count div ucast (pd_block_size dev)) = unat off + unat count div ?bs"
      by (simp add: unat_word_ariths b)
    then have o': "unat (off + count div ucast (pd_block_size dev)) * ?bs = unat off * ?bs + unat count"
      using c(3) by (simp add: algebra_simps)
    obtain status1 w1 where 1: "pd_write_blocks dev off (replicate (unat count) 0) w = (status1, w1)" by fastforce
    from less.prems(4) have step: "(if EFI_ERROR status1 then (status1, w1)
        else erase_loop dev (left - count) (off + count div ucast (pd_block_size dev)) w1) = (status, w')"
      using False by (subst (asm) erase_loop.simps) (simp add: Let_def count_def [symmetric] 1)
    with assms(6) have ok: "\<not> EFI_ERROR status1" by (auto split: if_splits)
    note w1 = write_blocks_contents [OF 1 ok]
    have rest: "erase_loop dev (left - count) (off + count div ucast (pd_block_size dev)) w1 = (status, w')"
      using step ok by simp
    have "contents w' = replicate (length (contents w1)) 0"
    proof (rule less.hyps [OF _ _ _ _ rest])
      show "unat (left - count) < unat left" "?bs dvd unat (left - count)"
        using c d less.prems(1) by (simp_all add: dvd_diff_nat)
      show "unat (off + count div ucast (pd_block_size dev)) * ?bs + unat (left - count) = length (contents w1)"
        using w1 o' d c(2) less.prems(2) by simp
      show "take (unat (off + count div ucast (pd_block_size dev)) * ?bs) (contents w1) =
          replicate (unat (off + count div ucast (pd_block_size dev)) * ?bs) 0"
        using w1 less.prems(3) by (simp add: o' overwrite_def replicate_add)
    qed
    with w1 show ?thesis by simp
  qed
qed

end

subsection \<open>Sparse images\<close>

text \<open>The chunks of an image, their octets, and what they make of a partition.\<close>

datatype chunk = Raw bytes | Fill bytes nat | Dont_care nat

definition chunk_header :: "u16 \<Rightarrow> nat \<Rightarrow> nat \<Rightarrow> bytes" where
  "chunk_header t n len0 = mem16 t @ mem16 0 @ mem32 (word_of_nat n) @ mem32 (word_of_nat len0)"

fun chunk_octets :: "nat \<Rightarrow> chunk \<Rightarrow> bytes" where
  "chunk_octets bs (Raw d) = chunk_header CHUNK_TYPE_RAW (length d div bs) (12 + length d) @ d"
| "chunk_octets bs (Fill v n) = chunk_header CHUNK_TYPE_FILL n 16 @ v"
| "chunk_octets bs (Dont_care n) = chunk_header CHUNK_TYPE_DONT_CARE n 12"

fun chunk_size :: "nat \<Rightarrow> chunk \<Rightarrow> nat" where
  "chunk_size bs (Raw d) = length d"
| "chunk_size bs (Fill v n) = n * bs"
| "chunk_size bs (Dont_care n) = n * bs"

fun chunk_ok :: "nat \<Rightarrow> chunk \<Rightarrow> bool" where
  "chunk_ok bs (Raw d) \<longleftrightarrow> bs dvd length d \<and> length d < 2 ^ 32"
| "chunk_ok bs (Fill v n) \<longleftrightarrow> length v = 4 \<and> n < 2 ^ 32"
| "chunk_ok bs (Dont_care n) \<longleftrightarrow> n < 2 ^ 32"

definition sparse_image :: "nat \<Rightarrow> chunk list \<Rightarrow> bytes" where
  "sparse_image bs chunks = mem32 SPARSE_HEADER_MAGIC @ mem16 1 @ mem16 0 @ mem16 28 @ mem16 12 @ mem32 (word_of_nat bs) @
     mem32 (word_of_nat (sum_list (map (chunk_size bs) chunks) div bs)) @ mem32 (word_of_nat (length chunks)) @ mem32 0 @
     concat (map (chunk_octets bs) chunks)"

fun expand :: "nat \<Rightarrow> nat \<Rightarrow> chunk list \<Rightarrow> bytes \<Rightarrow> bytes" where
  "expand bs off [] c = c"
| "expand bs off (ch # chunks) c = expand bs (off + chunk_size bs ch) chunks (case ch of
       Raw d \<Rightarrow> overwrite off d c
     | Fill v n \<Rightarrow> overwrite off (concat (replicate (n * bs div 4) v)) c
     | Dont_care n \<Rightarrow> c)"

lemma load_append:
  "length a = 2 \<Longrightarrow> load16 (a @ r) = load16 a" "length b = 4 \<Longrightarrow> load32 (b @ r) = load32 b"
  by (simp_all add: load16_def load32_def)

lemma chunk_header_read:
  "chunk_header_of_mem (chunk_header t n len0) = \<lparr>ck_type = t, ck_reserved = 0, ck_size = word_of_nat n, ck_total = word_of_nat len0\<rparr>"
  by (simp add: chunk_header_of_mem_def chunk_header_def load_append)

lemma length_chunk_header [simp]: "length (chunk_header t n len0) = 12"
  by (simp add: chunk_header_def)

lemma flash_sparse_unfold:
  assumes "length chunks < 2 ^ 32"
  shows "FlashPartition sv parts name size0 (Some (sparse_image bs chunks)) w =
    (case pe_alloc sv (unat FILL_BUF_SIZE) w of (ok, w1) \<Rightarrow>
       if \<not> ok then Returned (EFI_OUT_OF_RESOURCES, w1)
       else flash_chunks sv parts name (word_of_nat bs) (length chunks) (concat (map (chunk_octets bs) chunks)) 0 EFI_SUCCESS w1)"
proof -
  let ?img = "sparse_image bs chunks" and ?m = "concat (map (chunk_octets bs) chunks)"
  have magic: "slice 0 4 ?img = Some (mem32 SPARSE_HEADER_MAGIC)" by (simp add: sparse_image_def slice_def)
  have head: "slice 0 28 ?img = Some (take 28 ?img)" by (simp add: sparse_image_def slice_def)
  have fields: "sx_major (sparse_header_of_mem (take 28 ?img)) = 1" "sx_file_header_size (sparse_header_of_mem (take 28 ?img)) = 28"
    "sx_block_size (sparse_header_of_mem (take 28 ?img)) = word_of_nat bs"
    "sx_total_chunks (sparse_header_of_mem (take 28 ?img)) = word_of_nat (length chunks)"
    by (simp_all add: sparse_header_of_mem_def sparse_image_def load_append)
  have body: "drop 28 ?img = ?m" by (simp add: sparse_image_def)
  have n: "unat (word_of_nat (length chunks) :: u32) = length chunks" using assms by (simp add: unat_of_nat)
  show ?thesis by (simp add: FlashPartition_def FlashSparseImage_def magic head fields body n Let_def split: prod.split)
qed

context part_disk
begin

lemma flash_chunks_result:
  assumes "OpenPartition sv parts name = Returned (Inr dev)" "0 < bs" "4 dvd bs" "bs < 2 ^ 32"
    and "list_all (chunk_ok bs) chunks" "unat off + sum_list (map (chunk_size bs) chunks) < 2 ^ 64" "\<not> EFI_ERROR status"
  shows "\<exists>status' w'. flash_chunks sv parts name (word_of_nat bs) (length chunks)
      (concat (map (chunk_octets bs) chunks)) off status w = Returned (status', w') \<and>
    (\<not> EFI_ERROR status' \<longrightarrow> contents w' = expand bs (unat off) chunks (contents w))"
  using assms(5-7)
proof (induction chunks arbitrary: off status w)
  case (Cons ch chunks)
  let ?rest = "concat (map (chunk_octets bs) chunks)"
  have bs: "unat (word_of_nat bs :: u32) = bs" using assms(4) by (simp add: unat_of_nat)
  have amount: "unat (ucast (word_of_nat n :: u32) * ucast (word_of_nat bs :: u32) :: u64) = n * bs" if "n < 2 ^ 32" for n
  proof -
    have "unat (ucast (word_of_nat n :: u32) :: u64) = n" "unat (ucast (word_of_nat bs :: u32) :: u64) = bs"
      using that assms(4) by (simp_all add: unat_ucast_up unat_of_nat)
    moreover have "n * bs < 2 ^ 32 * 2 ^ 32" using that assms(4) by (intro mult_strict_mono) simp_all
    ultimately show ?thesis by (simp add: unat_word_ariths)
  qed
  have size0: "unat off + chunk_size bs ch + sum_list (map (chunk_size bs) chunks) < 2 ^ 64" using Cons.prems(2) by simp
  have ok: "list_all (chunk_ok bs) chunks" using Cons.prems(1) by simp
  show ?case
  proof (cases ch)
    case (Raw d)
    then have d: "bs dvd length d" "length d < 2 ^ 32" using Cons.prems(1) by auto
    then have n: "length d div bs < 2 ^ 32" by (meson div_le_dividend le_less_trans)
    let ?a = "ucast (word_of_nat (length d div bs) :: u32) * ucast (word_of_nat bs :: u32) :: u64"
    have a: "unat ?a = length d" using amount [OF n] d(1) by simp
    have short: "unat (ucast (word_of_nat (length d div bs) * word_of_nat bs :: u32) :: u64) = length d"
      using d n assms(4) by (simp add: unat_ucast_up unat_word_ariths unat_of_nat)
    have off: "unat (off + ?a) = unat off + length d" using size0 Raw a by (simp add: unat_word_ariths)
    obtain status1 w1 where 1: "WritePartition sv parts name off (d @ ?rest)
        (ucast (word_of_nat (length d div bs) * word_of_nat bs :: u32)) w = Returned (status1, w1)"
      "\<not> EFI_ERROR status1 \<longrightarrow> contents w1 = overwrite (unat off) d (contents w)"
      using WritePartition_result [OF assms(1), of "ucast (word_of_nat (length d div bs) * word_of_nat bs :: u32)" "d @ ?rest" off w]
      by (auto simp: short)
    have step: "flash_chunks sv parts name (word_of_nat bs) (length (ch # chunks)) (concat (map (chunk_octets bs) (ch # chunks))) off status w =
      (if EFI_ERROR status1 then Returned (status1, w1)
       else flash_chunks sv parts name (word_of_nat bs) (length chunks) ?rest (off + ?a) status1 w1)"
      by (simp add: Raw slice_Some chunk_header_read Let_def 1(1) a)
    show ?thesis
    proof (cases "EFI_ERROR status1")
      case False
      then show ?thesis
        unfolding step using Cons.IH [OF ok _ False, of "off + ?a" w1] size0 Raw off 1(2) by simp
    next
      case True
      then show ?thesis unfolding step by simp
    qed
  next
    case (Fill v n)
    then have v: "length v = 4" "n < 2 ^ 32" using Cons.prems(1) by auto
    let ?a = "ucast (word_of_nat n :: u32) * ucast (word_of_nat bs :: u32) :: u64"
    note a = amount [OF v(2)]
    have off: "unat (off + ?a) = unat off + n * bs" "unat off + unat ?a < 2 ^ 64" using size0 Fill a by (simp_all add: unat_word_ariths)
    have four: "4 dvd unat ?a" using a assms(3) by simp
    obtain status1 off1 w1 where 1: "fill_loop sv parts name (v @ ?rest) ?a off status w = Returned ((status1, off1), w1)"
      "\<not> EFI_ERROR status1 \<longrightarrow> off1 = off + ?a \<and> contents w1 = overwrite (unat off) (concat (replicate (n * bs div 4) v)) (contents w)"
      using fill_loop_result [OF assms(1) v(1) four off(2) Cons.prems(3), of ?rest w] a by auto
    have step: "flash_chunks sv parts name (word_of_nat bs) (length (ch # chunks)) (concat (map (chunk_octets bs) (ch # chunks))) off status w =
      (if EFI_ERROR status1 then Returned (status1, w1)
       else flash_chunks sv parts name (word_of_nat bs) (length chunks) ?rest off1 status1 w1)"
      using v(1) by (simp add: Fill slice_Some chunk_header_read Let_def 1(1) CHUNK_TYPE_RAW_def CHUNK_TYPE_FILL_def)
    show ?thesis
    proof (cases "EFI_ERROR status1")
      case False
      then show ?thesis
        unfolding step using Cons.IH [OF ok _ False, of "off + ?a" w1] size0 Fill off 1(2) by simp
    next
      case True
      then show ?thesis unfolding step by simp
    qed
  next
    case (Dont_care n)
    then have n: "n < 2 ^ 32" using Cons.prems(1) by auto
    let ?a = "ucast (word_of_nat n :: u32) * ucast (word_of_nat bs :: u32) :: u64"
    have off: "unat (off + ?a) = unat off + n * bs" using size0 Dont_care amount [OF n] by (simp add: unat_word_ariths)
    have step: "flash_chunks sv parts name (word_of_nat bs) (length (ch # chunks)) (concat (map (chunk_octets bs) (ch # chunks))) off status w =
      flash_chunks sv parts name (word_of_nat bs) (length chunks) ?rest (off + ?a) status w"
      by (simp add: Dont_care slice_Some chunk_header_read Let_def CHUNK_TYPE_RAW_def CHUNK_TYPE_FILL_def CHUNK_TYPE_DONT_CARE_def)
    show ?thesis
      unfolding step using Cons.IH [OF ok _ Cons.prems(3), of "off + ?a" w] size0 Dont_care off by simp
  qed
qed simp

lemma flash_sparse_result:
  assumes "OpenPartition sv parts name = Returned (Inr dev)" "0 < bs" "4 dvd bs" "bs < 2 ^ 32" "length chunks < 2 ^ 32"
    and "list_all (chunk_ok bs) chunks" "sum_list (map (chunk_size bs) chunks) < 2 ^ 64" "pe_alloc sv = A"
  shows "\<exists>status w'. FlashPartition sv parts name size0 (Some (sparse_image bs chunks)) w = Returned (status, w') \<and>
    (\<not> EFI_ERROR status \<longrightarrow> contents w' = expand bs 0 chunks (contents w))"
proof -
  obtain ok w1 where a: "A (unat FILL_BUF_SIZE) w = (ok, w1)" by fastforce
  then have c: "contents w1 = contents w" using alloc_contents [of "unat FILL_BUF_SIZE" w] by simp
  have "\<exists>status w'. flash_chunks sv parts name (word_of_nat bs) (length chunks) (concat (map (chunk_octets bs) chunks)) 0 EFI_SUCCESS w1 =
      Returned (status, w') \<and> (\<not> EFI_ERROR status \<longrightarrow> contents w' = expand bs (unat (0 :: u64)) chunks (contents w1))"
    by (rule flash_chunks_result) (use assms in simp_all)
  with c a show ?thesis by (simp add: flash_sparse_unfold [OF assms(5)] assms(8))
qed

lemma erase_gpt_result:
  assumes "unat (pd_block_size dev) dvd 16384" "16384 div unat (pd_block_size dev) \<le> unat (pd_last_block dev)"
    and "EraseGptTable A dev w = (status, w')" "\<not> EFI_ERROR status"
  shows "contents w' = overwrite (length (contents w) - (unat (pd_block_size dev) + 16384))
     (replicate (unat (pd_block_size dev) + 16384) 0)
     (overwrite 0 (replicate (2 * unat (pd_block_size dev) + 16384) 0) (contents w))"
proof -
  let ?bs = "unat (pd_block_size dev)"
  have bs: "?bs \<le> 16384" using assms(1) by (auto dest: dvd_imp_le)
  have b: "unat (ucast (pd_block_size dev) :: u64) = ?bs" by (rule unat_ucast_up) simp
  have "unat (2 * pd_block_size dev) = 2 * ?bs" using bs by (simp add: unat_word_ariths)
  moreover have "unat (ucast (2 * pd_block_size dev) :: u64) = unat (2 * pd_block_size dev)" by (rule unat_ucast_up) simp
  ultimately have p: "unat (primary_size dev) = 2 * ?bs + 16384"
    using bs by (simp add: primary_size_def GPT_ENTRIES_SIZE_def unat_word_ariths)
  have s: "unat (secondary_size dev) = ?bs + 16384"
    using bs by (simp add: secondary_size_def GPT_ENTRIES_SIZE_def unat_word_ariths b)
  have q: "unat (GPT_ENTRIES_SIZE div ucast (pd_block_size dev) :: u64) = 16384 div ?bs"
    by (simp add: GPT_ENTRIES_SIZE_def unat_div b)
  have l: "unat (pd_last_block dev - GPT_ENTRIES_SIZE div ucast (pd_block_size dev)) = unat (pd_last_block dev) - 16384 div ?bs"
    using assms(2) q by (simp add: unat_sub word_le_nat_alt)
  have "(unat (pd_last_block dev) - 16384 div ?bs) * ?bs = unat (pd_last_block dev) * ?bs - 16384"
    using assms(1) by (simp add: diff_mult_distrib)
  also have "\<dots> = length (contents w) - (?bs + 16384)" by (simp add: size(1))
  finally have o: "(unat (pd_last_block dev) - 16384 div ?bs) * ?bs = length (contents w) - (?bs + 16384)" .
  have unat_mult: "unat (x * y) = unat x * unat y mod 2 ^ 64" for x y :: u64 by (simp add: unat_word_ariths)
  have "length (contents w) - (?bs + 16384) < 2 ^ 64" using size(1,2) by (metis less_imp_diff_less)
  then have off: "unat (secondary_offset dev) = length (contents w) - (?bs + 16384)"
    using unat_mult [of "pd_last_block dev - GPT_ENTRIES_SIZE div ucast (pd_block_size dev)" "ucast (pd_block_size dev)"]
    by (simp add: secondary_offset_def l b o)
  obtain ok1 w1 where 1: "A (unat (primary_size dev)) w = (ok1, w1)" by fastforce
  obtain s2 w2 where 2: "pd_write_disk dev 0 (replicate (unat (primary_size dev)) 0) w1 = (s2, w2)" by fastforce
  obtain ok3 w3 where 3: "A (unat (secondary_size dev)) w2 = (ok3, w3)" by fastforce
  obtain s4 w4 where 4: "pd_write_disk dev (secondary_offset dev) (replicate (unat (secondary_size dev)) 0) w3 = (s4, w4)" by fastforce
  from assms(3,4) have e: ok1 "\<not> EFI_ERROR s2" ok3 "\<not> EFI_ERROR s4" "w' = pd_flush dev w4"
    by (auto simp: EraseGptTable_def erase_area_def 1 2 3 4 split: if_splits)
  have c: "contents w1 = contents w" "contents w3 = contents w2"
    using alloc_contents [of "unat (primary_size dev)" w] alloc_contents [of "unat (secondary_size dev)" w2] by (simp_all add: 1 3)
  from write_disk_contents [OF 2 e(2)] write_disk_contents [OF 4 e(4)] c off p s e(5) flush_contents [of w4]
  show ?thesis by simp
qed

lemma erase_partition_result:
  assumes "OpenPartition sv parts name = Returned (Inr dev)" "unat (pd_block_size dev) dvd unat FILL_BUF_SIZE" "pe_alloc sv = A"
    and "ErasePartition sv parts name w = Returned (status, w')" "\<not> EFI_ERROR status"
  shows "contents w' = replicate (length (contents w)) 0"
proof -
  obtain ok w1 where 1: "A (unat FILL_BUF_SIZE) w = (ok, w1)" by fastforce
  obtain s2 w2 where 2: "erase_loop dev (part_size dev) 0 w1 = (s2, w2)" by fastforce
  from assms have e: ok "\<not> EFI_ERROR s2" "w' = pd_flush dev w2"
    by (auto simp: ErasePartition_def 1 2 split: if_splits)
  have c: "contents w1 = contents w" using alloc_contents [of "unat FILL_BUF_SIZE" w] by (simp add: 1)
  have "contents w2 = replicate (length (contents w1)) 0"
    by (rule erase_loop_result [OF assms(2) _ _ _ 2 e(2)]) (simp_all add: unat_part_size [of w1], simp add: size)
  with c e(3) flush_contents [of w2] show ?thesis by simp
qed

end

subsection \<open>A partition in memory\<close>

text \<open>The world is the contents, made to fit.\<close>

definition ram_contents :: "u32 \<Rightarrow> u64 \<Rightarrow> bytes \<Rightarrow> bytes" where
  "ram_contents bs last0 d = (let n = (unat last0 + 1) * unat bs in take n (d @ replicate n 0))"

definition ram_part :: "u32 \<Rightarrow> u64 \<Rightarrow> bytes part_device" where
  "ram_part bs last0 =
     (let n = (unat last0 + 1) * unat bs;
          get = (\<lambda>off k d. (case slice off k (ram_contents bs last0 d) of None \<Rightarrow> (EFI_INVALID_PARAMETER, []) | Some b \<Rightarrow> (EFI_SUCCESS, b), d));
          put = (\<lambda>off b d. if off + length b \<le> n then (EFI_SUCCESS, overwrite off b (ram_contents bs last0 d)) else (EFI_INVALID_PARAMETER, d))
      in \<lparr>pd_block_size = bs, pd_last_block = last0,
           pd_read_blocks = \<lambda>lba k. get (unat lba * unat bs) (unat k), pd_write_blocks = \<lambda>lba. put (unat lba * unat bs),
           pd_read_disk = \<lambda>off k. get (unat off) (unat k), pd_write_disk = \<lambda>off. put (unat off), pd_flush = \<lambda>d. d\<rparr>)"

lemma ram_contents_length [simp]: "length (ram_contents bs last0 d) = (unat last0 + 1) * unat bs"
  by (simp add: ram_contents_def Let_def)

lemma ram_contents_id: "length d = (unat last0 + 1) * unat bs \<Longrightarrow> ram_contents bs last0 d = d"
  by (simp add: ram_contents_def)

lemma ram_part_disk:
  "0 < unat bs \<Longrightarrow> (unat last0 + 1) * unat bs < 2 ^ 64 \<Longrightarrow> part_disk (ram_part bs last0) (\<lambda>n d. (True, d)) (ram_contents bs last0)"
  by unfold_locales (auto simp: ram_part_def Let_def ram_contents_id split: if_splits)

interpretation ramp: part_disk "ram_part 4 7" "\<lambda>n d. (True, d)" "ram_contents 4 7"
  by (rule ram_part_disk) simp_all

text \<open>A machine with this partition as \<open>boot\<close>.\<close>

definition no_files :: "(unit, bytes) shell" where
  "no_files = \<lparr>sh_alloc = \<lambda>n d. (True, d), sh_open = \<lambda>name create d. ((EFI_NOT_FOUND, ()), d),
     sh_size = \<lambda>f d. ((EFI_DEVICE_ERROR, 0), d), sh_read = \<lambda>f n d. ((EFI_DEVICE_ERROR, []), d),
     sh_write = \<lambda>f b d. (EFI_DEVICE_ERROR, d), sh_close = \<lambda>f d. d, sh_exists = \<lambda>name d. (EFI_NOT_FOUND, d),
     sh_delete = \<lambda>name d. d\<rparr>"

definition ram_machine :: "(nat, unit, bytes) part_services" where
  "ram_machine = \<lparr>pe_alloc = \<lambda>n d. (True, d), pe_shell = no_files, pe_handles = (EFI_SUCCESS, [0]),
     pe_device = \<lambda>h. ram_part 4 7, pe_block_status = \<lambda>h. EFI_SUCCESS, pe_disk_status = \<lambda>h. EFI_SUCCESS,
     pe_path_status = \<lambda>h. EFI_SUCCESS, pe_path = \<lambda>h. [], pe_logical = \<lambda>h. h \<noteq> 0, pe_removable = \<lambda>h. False,
     pe_locate = \<lambda>p. (EFI_SUCCESS, 0), pe_hex = \<lambda>s. 0, pe_ascii = map ucast\<rparr>"

definition boot_list :: "nat partition_list" where
  "boot_list = [(wide ''boot'' @ 0 # replicate 31 0, 1)]"

lemma open_boot: "OpenPartition ram_machine boot_list (ascii ''boot'') = Returned (Inr (ram_part 4 7))"
  by (simp add: OpenPartition_def boot_list_def ram_machine_def wide_def ascii_def)

lemma ram_simps [simp]:
  "pe_alloc ram_machine = (\<lambda>n d. (True, d))" "part_size (ram_part 4 7) = 32" "pd_block_size (ram_part 4 7) = 4"
  "pd_flush (ram_part 4 7) = (\<lambda>d. d)"
  "pd_write_disk (ram_part 4 7) off b d =
     (if unat off + length b \<le> 32 then (EFI_SUCCESS, overwrite (unat off) b (ram_contents 4 7 d)) else (EFI_INVALID_PARAMETER, d))"
  "pd_write_blocks (ram_part 4 7) off b d =
     (if unat off * 4 + length b \<le> 32 then (EFI_SUCCESS, overwrite (unat off * 4) b (ram_contents 4 7 d)) else (EFI_INVALID_PARAMETER, d))"
  by (simp_all add: ram_machine_def ram_part_def part_size_def Let_def)

subsection \<open>The properties\<close>

text \<open>
  C11: flashing a sparse image of raw, fill and skip chunks returns, and when it reports no error the
  partition holds what the chunks describe: raw data and fill patterns where they belong, and
  everything that is skipped as it was.
\<close>
theorem sparse_image_flashed:
  assumes "part_disk dev (pe_alloc sv) contents" "OpenPartition sv parts name = Returned (Inr dev)"
    and "0 < bs" "4 dvd bs" "bs < 2 ^ 32" "length chunks < 2 ^ 32"
    and "list_all (chunk_ok bs) chunks" "sum_list (map (chunk_size bs) chunks) < 2 ^ 64"
  shows "\<exists>status w'. FlashPartition sv parts name size0 (Some (sparse_image bs chunks)) w = Returned (status, w') \<and>
    (\<not> EFI_ERROR status \<longrightarrow> contents w' = expand bs 0 chunks (contents w))"
  using part_disk.flash_sparse_result [OF assms(1,2,3,4,5,6,7,8) refl] .

definition small_chunks :: "chunk list" where
  "small_chunks = [Raw [1, 2, 3, 4], Dont_care 1, Fill [9, 8, 7, 6] 3]"

theorem sparse_image_flashed_witness:
  "\<exists>w'. FlashPartition ram_machine boot_list (ascii ''boot'') 0 (Some (sparse_image 4 small_chunks)) (replicate 32 5) =
     Returned (EFI_SUCCESS, w') \<and>
   ram_contents 4 7 w' = [1, 2, 3, 4] @ replicate 4 5 @ [9, 8, 7, 6, 9, 8, 7, 6, 9, 8, 7, 6] @ replicate 12 5"
proof -
  have four: "4 dvd Suc (Suc (Suc (Suc 0)))" by presburger
  have three: "concat (replicate 3 [9, 8, 7, 6 :: u8]) = [9, 8, 7, 6, 9, 8, 7, 6, 9, 8, 7, 6]" by (simp add: numeral_3_eq_3)
  have run: "\<exists>w'. FlashPartition ram_machine boot_list (ascii ''boot'') 0 (Some (sparse_image 4 small_chunks)) (replicate 32 5) =
     Returned (EFI_SUCCESS, w')"
    by (simp add: flash_sparse_unfold small_chunks_def slice_Some chunk_header_read WritePartition_def open_boot fill_loop.simps
        CHUNK_TYPE_RAW_def CHUNK_TYPE_FILL_def CHUNK_TYPE_DONT_CARE_def FILL_BUF_SIZE_def Let_def three)
  have "part_disk (ram_part 4 7) (pe_alloc ram_machine) (ram_contents 4 7)"
    using ramp.part_disk_axioms by simp
  from sparse_image_flashed [OF this open_boot, of 4 small_chunks 0 "replicate 32 5"] run
  have "\<exists>w'. FlashPartition ram_machine boot_list (ascii ''boot'') 0 (Some (sparse_image 4 small_chunks)) (replicate 32 5) =
     Returned (EFI_SUCCESS, w') \<and> ram_contents 4 7 w' = expand 4 0 small_chunks (ram_contents 4 7 (replicate 32 5))"
    using four by (auto simp: small_chunks_def)
  then show ?thesis by (simp add: small_chunks_def ram_contents_id three overwrite_def)
qed

text \<open>
  C21: erasing a partition leaves nothing but zeros in it when it reports no error, for every block size
  that divides the buffer of 16 MiB.
\<close>
theorem partition_erased:
  assumes "part_disk dev (pe_alloc sv) contents" "OpenPartition sv parts name = Returned (Inr dev)"
    and "unat (pd_block_size dev) dvd unat FILL_BUF_SIZE"
    and "ErasePartition sv parts name w = Returned (status, w')" "\<not> EFI_ERROR status"
  shows "contents w' = replicate (length (contents w)) 0"
  using part_disk.erase_partition_result [OF assms(1,2,3) refl assms(4,5)] .

theorem partition_erased_witness:
  "\<exists>w'. ErasePartition ram_machine boot_list (ascii ''boot'') (replicate 32 5) = Returned (EFI_SUCCESS, w') \<and>
     ram_contents 4 7 w' = replicate 32 0"
proof -
  have "\<exists>w'. ErasePartition ram_machine boot_list (ascii ''boot'') (replicate 32 5) = Returned (EFI_SUCCESS, w')"
    by (simp add: ErasePartition_def open_boot erase_loop.simps FILL_BUF_SIZE_def Let_def)
  then obtain w' where run: "ErasePartition ram_machine boot_list (ascii ''boot'') (replicate 32 5) = Returned (EFI_SUCCESS, w')"
    by blast
  have "part_disk (ram_part 4 7) (pe_alloc ram_machine) (ram_contents 4 7)"
    using ramp.part_disk_axioms by simp
  from partition_erased [OF this open_boot _ run] have "ram_contents 4 7 w' = replicate 32 0"
    by (simp add: FILL_BUF_SIZE_def)
  with run show ?thesis by blast
qed

text \<open>
  C22: erasing the partition table fills the first two blocks and the entries behind them, and the
  entries and the header at the end of the disk, with zeros, and nothing else, for block sizes that
  divide the size of the entries.
\<close>
theorem gpt_erased:
  assumes "part_disk dev A contents" "unat (pd_block_size dev) dvd 16384"
    and "16384 div unat (pd_block_size dev) \<le> unat (pd_last_block dev)"
    and "EraseGptTable A dev w = (status, w')" "\<not> EFI_ERROR status"
  shows "contents w' = overwrite (length (contents w) - (unat (pd_block_size dev) + 16384))
     (replicate (unat (pd_block_size dev) + 16384) 0)
     (overwrite 0 (replicate (2 * unat (pd_block_size dev) + 16384) 0) (contents w))"
  using part_disk.erase_gpt_result [OF assms] .

definition marked_disk :: bytes where "marked_disk = replicate 51712 1"

theorem gpt_erased_witness:
  "\<exists>w'. EraseGptTable (\<lambda>n d. (True, d)) (ram_part 512 100) marked_disk = (EFI_SUCCESS, w') \<and>
     ram_contents 512 100 w' = overwrite 34816 (replicate 16896 0) (overwrite 0 (replicate 17408 0) (ram_contents 512 100 marked_disk))"
proof -
  have disk: "part_disk (ram_part 512 100) (\<lambda>n d. (True, d)) (ram_contents 512 100)" by (rule ram_part_disk) simp_all
  have "\<exists>w'. EraseGptTable (\<lambda>n d. (True, d)) (ram_part 512 100) marked_disk = (EFI_SUCCESS, w')"
    by (simp add: EraseGptTable_def erase_area_def ram_part_def primary_size_def secondary_size_def secondary_offset_def
        GPT_ENTRIES_SIZE_def Let_def)
  then obtain w' where run: "EraseGptTable (\<lambda>n d. (True, d)) (ram_part 512 100) marked_disk = (EFI_SUCCESS, w')" by blast
  from gpt_erased [OF disk _ _ run] have "ram_contents 512 100 w' =
      overwrite 34816 (replicate 16896 0) (overwrite 0 (replicate 17408 0) (ram_contents 512 100 marked_disk))"
    by (simp add: ram_part_def Let_def)
  with run show ?thesis by blast
qed

subsection \<open>What goes wrong\<close>

text \<open>
  With 256 block devices or more and none that fits among the first 256, the search for the disk
  never ends: its index has 8 bits.
\<close>

theorem disk_search_never_ends:
  assumes "pe_handles sv = (EFI_SUCCESS, handles)" "256 \<le> length handles"
    and "\<forall>h\<in>set handles. \<not> EFI_ERROR (pe_block_status sv h) \<and> \<not> EFI_ERROR (pe_disk_status sv h) \<and> pe_logical sv h"
  shows "InitDevicePath sv = Unfinished"
proof -
  have "scan_handles sv hs = None" if "set hs \<subseteq> set handles" for hs
    using that assms(3) by (induction hs) auto
  from this [of "take 256 handles"] assms(1,2) show ?thesis by (simp add: InitDevicePath_def set_take_subset)
qed

text \<open>
  Writing more octets to the disk than the file has reads behind the buffer of the file.
\<close>

theorem write_reads_past_file:
  assumes "ReadFileFromDisk sh file w = (Inr data, w1)" "length data < unat size0"
  shows "WriteDataToDisk sh dev file offset size0 w = Faulted"
proof -
  have "size0 \<noteq> 0" using assms(2) by auto
  with assms show ?thesis by (simp add: WriteDataToDisk_def slice_None_iff [THEN iffD2] Let_def)
qed

text \<open>A checksum chunk is not skipped: its four octets are read as the start of the next chunk.\<close>

theorem checksum_chunk_misread:
  "flash_chunks sv parts name bs (Suc n) (chunk_header 0xCAC4 k 16 @ crc @ rest) off status w =
   flash_chunks sv parts name bs n (crc @ rest) off status w"
  by (simp add: slice_Some chunk_header_read Let_def CHUNK_TYPE_RAW_def CHUNK_TYPE_FILL_def CHUNK_TYPE_DONT_CARE_def)

end
