(* ===== verification/SpiFlash.thy ===== *)
theory SpiFlash
  imports EfiShell
begin

text \<open>
  \<open>Library/PlatformFlashAccessLib\<close>, which writes an image to the flash block by block and verifies
  every block it writes, and \<open>Application/FlashTool\<close>, which updates the whole flash with it.

  The platform is a record: the mapped flash is read through memory, and the SPI protocol erases and
  writes at 32 bit offsets.  Addresses and lengths have 64 bits.  \<open>buf\<close> is always the memory at the
  buffer.  Cache maintenance and the task priority are left out.
\<close>

record 'w spi_platform =
  fl_alloc :: "'w alloc"
  fl_base :: u32
  fl_size :: u32
  fl_read :: "u64 \<Rightarrow> nat \<Rightarrow> 'w \<Rightarrow> bytes"
  fl_write :: "u32 \<Rightarrow> bytes \<Rightarrow> 'w \<Rightarrow> EFI_STATUS \<times> 'w"
  fl_erase :: "u32 \<Rightarrow> 'w \<Rightarrow> EFI_STATUS \<times> 'w"

datatype FLASH_ADDRESS_TYPE = FlashAddressTypeRelativeAddress | FlashAddressTypeAbsoluteAddress

definition BLOCK_SIZE :: u64 where "BLOCK_SIZE = 0x1000"

subsection \<open>Writing and erasing\<close>

text \<open>The loop: \<open>remaining\<close> octets of the buffer are left.  The result is the status and what remains.\<close>

function spi_write_loop :: "'w spi_platform \<Rightarrow> u64 \<Rightarrow> u32 \<Rightarrow> bytes \<Rightarrow> 'w \<Rightarrow> ((EFI_STATUS \<times> u32) \<times> 'w) outcome" where
  "spi_write_loop pf offset remaining buf w =
     (if remaining = 0 then Returned ((EFI_SUCCESS, 0), w)
      else let length0 = (if remaining > 0x1000 then 0x1000 else remaining) in
        obind (checked (slice 0 (unat length0) buf)) (\<lambda>data.
          case fl_write pf (ucast offset) data w of (status, w') \<Rightarrow>
            if EFI_ERROR status then Returned ((status, remaining), w')
            else spi_write_loop pf (offset + ucast length0) (remaining - length0) (drop (unat length0) buf) w'))"
  by pat_completeness auto
termination
  by (relation "measure (\<lambda>(pf, offset, remaining, buf, w). unat remaining)")
    (auto simp: unat_sub word_le_nat_alt word_less_nat_alt unat_gt_0 split: if_splits)

declare spi_write_loop.simps [simp del]

definition SpiFlashWrite :: "'w spi_platform \<Rightarrow> u64 \<Rightarrow> u32 \<Rightarrow> bytes \<Rightarrow> 'w \<Rightarrow> ((EFI_STATUS \<times> u32) \<times> 'w) outcome" where
  "SpiFlashWrite pf address num_bytes buf w =
     obind (avb_assert (address \<ge> ucast (fl_base pf))) (\<lambda>_.
       let offset = address - ucast (fl_base pf) in
       obind (avb_assert (ucast num_bytes + offset \<le> ucast (fl_size pf))) (\<lambda>_.
       obind (spi_write_loop pf offset num_bytes buf w) (\<lambda>((status, remaining), w').
         Returned ((status, num_bytes - remaining), w'))))"

function spi_erase_loop :: "'w spi_platform \<Rightarrow> u64 \<Rightarrow> u64 \<Rightarrow> 'w \<Rightarrow> (EFI_STATUS \<times> u64) \<times> 'w" where
  "spi_erase_loop pf offset remaining w =
     (if remaining < 0x1000 then ((EFI_SUCCESS, remaining), w)
      else case fl_erase pf (ucast offset) w of (status, w') \<Rightarrow>
        if EFI_ERROR status then ((status, remaining), w')
        else spi_erase_loop pf (offset + 0x1000) (remaining - 0x1000) w')"
  by pat_completeness auto
termination
  by (relation "measure (\<lambda>(pf, offset, remaining, w). unat remaining)")
    (auto simp: unat_sub word_le_nat_alt word_less_nat_alt not_less)

declare spi_erase_loop.simps [simp del]

text \<open>The number of octets is asserted to be a multiple of the block, so the loop ends with none left.\<close>

definition SpiFlashBlockErase :: "'w spi_platform \<Rightarrow> u64 \<Rightarrow> u64 \<Rightarrow> 'w \<Rightarrow> ((EFI_STATUS \<times> u64) \<times> 'w) outcome" where
  "SpiFlashBlockErase pf address num_bytes w =
     obind (avb_assert (address \<ge> ucast (fl_base pf))) (\<lambda>_.
       let offset = address - ucast (fl_base pf) in
       obind (avb_assert (num_bytes mod 0x1000 = 0)) (\<lambda>_.
       obind (avb_assert (num_bytes + offset \<le> ucast (fl_size pf))) (\<lambda>_.
         case spi_erase_loop pf offset num_bytes w of ((status, remaining), w') \<Rightarrow>
           Returned ((status, num_bytes - remaining), w'))))"

definition InternalEraseBlock :: "'w spi_platform \<Rightarrow> u64 \<Rightarrow> 'w \<Rightarrow> (EFI_STATUS \<times> 'w) outcome" where
  "InternalEraseBlock pf address w =
     obind (SpiFlashBlockErase pf address BLOCK_SIZE w) (\<lambda>((status, _), w'). Returned (status, w'))"

definition InternalCompareBlock :: "'w spi_platform \<Rightarrow> u64 \<Rightarrow> bytes \<Rightarrow> 'w \<Rightarrow> (EFI_STATUS \<times> 'w) outcome" where
  "InternalCompareBlock pf address buf w =
     (case fl_alloc pf (unat BLOCK_SIZE) w of (ok, w1) \<Rightarrow>
      if \<not> ok then Returned (EFI_OUT_OF_RESOURCES, w1)
      else obind (checked (slice 0 (unat BLOCK_SIZE) buf)) (\<lambda>data.
        Returned (if fl_read pf address (unat BLOCK_SIZE) w1 \<noteq> data then EFI_VOLUME_CORRUPTED else EFI_SUCCESS, w1)))"

definition InternalWriteBlock :: "'w spi_platform \<Rightarrow> u64 \<Rightarrow> bytes \<Rightarrow> u32 \<Rightarrow> 'w \<Rightarrow> (EFI_STATUS \<times> 'w) outcome" where
  "InternalWriteBlock pf address buf size0 w =
     obind (SpiFlashWrite pf address size0 buf w) (\<lambda>((status, _), w').
       if EFI_ERROR status then Returned (status, w') else InternalCompareBlock pf address buf w')"

subsection \<open>Writing an image\<close>

text \<open>
  The loop over the blocks: \<open>n\<close> are left of \<open>count\<close>.  The progress reported is a list of percentages,
  computed in 64 bits.
\<close>

fun write_blocks ::
  "'w spi_platform \<Rightarrow> (u64 \<times> u64) option \<Rightarrow> u64 \<Rightarrow> nat \<Rightarrow> u64 \<Rightarrow> bytes \<Rightarrow> u64 \<Rightarrow> EFI_STATUS \<Rightarrow> u64 list \<Rightarrow> 'w \<Rightarrow>
   ((EFI_STATUS \<times> u64 list) \<times> 'w) outcome" where
  "write_blocks pf progress count 0 address buf length0 status shown w = Returned ((status, shown), w)"
| "write_blocks pf progress count (Suc n) address buf length0 status shown w =
     (let shown' = (case progress of None \<Rightarrow> shown
            | Some (start, stop) \<Rightarrow> shown @ [start + ((count - of_nat (Suc n)) * (stop - start)) div count]);
          next = (\<lambda>status w'. write_blocks pf progress count n (address + BLOCK_SIZE) (drop (unat BLOCK_SIZE) buf)
            (if length0 > BLOCK_SIZE then length0 - BLOCK_SIZE else 0) status shown' w')
      in obind (InternalCompareBlock pf address buf w) (\<lambda>(same, w1).
        if \<not> EFI_ERROR same then next status w1
        else obind (InternalEraseBlock pf address w1) (\<lambda>(erased, w2).
          if EFI_ERROR erased then Returned ((erased, shown'), w2)
          else obind (InternalWriteBlock pf address buf (ucast (if length0 > BLOCK_SIZE then BLOCK_SIZE else length0)) w2)
            (\<lambda>(written, w3). if EFI_ERROR written then Returned ((written, shown'), w3) else next written w3))))"

definition PerformFlashWriteWithProgress ::
  "'w spi_platform \<Rightarrow> u64 \<Rightarrow> FLASH_ADDRESS_TYPE \<Rightarrow> bytes \<Rightarrow> u64 \<Rightarrow> (u64 \<times> u64) option \<Rightarrow> 'w \<Rightarrow>
   ((EFI_STATUS \<times> u64 list) \<times> 'w) outcome" where
  "PerformFlashWriteWithProgress pf flash_address type buf length0 progress w =
     (let address = (if type = FlashAddressTypeRelativeAddress then flash_address + ucast (fl_base pf) else flash_address);
          count = length0 div BLOCK_SIZE
      in obind (write_blocks pf progress count (unat count) address buf length0 EFI_SUCCESS [] w) (\<lambda>((status, shown), w').
           Returned ((status, case progress of None \<Rightarrow> shown | Some (_, stop) \<Rightarrow> shown @ [stop]), w')))"

definition PerformFlashWrite ::
  "'w spi_platform \<Rightarrow> u64 \<Rightarrow> FLASH_ADDRESS_TYPE \<Rightarrow> bytes \<Rightarrow> u64 \<Rightarrow> 'w \<Rightarrow> (EFI_STATUS \<times> 'w) outcome" where
  "PerformFlashWrite pf flash_address type buf length0 w =
     obind (PerformFlashWriteWithProgress pf flash_address type buf length0 None w) (\<lambda>((status, _), w'). Returned (status, w'))"

text \<open>
  FlashTool.c: the file has to be as large as the flash.  The name is the second argument, whether
  there is one or not, and the status of the write is printed, not returned.
\<close>

definition FlashToolMain :: "('f, 'w) shell \<Rightarrow> 'w spi_platform \<Rightarrow> ustring list \<Rightarrow> 'w \<Rightarrow> (EFI_STATUS \<times> 'w) outcome" where
  "FlashToolMain sh pf args w =
     obind (checked (slice 1 1 args)) (\<lambda>name.
      case sh_open sh (hd name) False w of ((status, file), w1) \<Rightarrow>
      if EFI_ERROR status then Returned (status, w1)
      else case sh_size sh file w1 of ((status, size0), w2) \<Rightarrow>
      if EFI_ERROR status then Returned (status, sh_close sh file w2)
      else case sh_alloc sh (unat size0) w2 of (ok, w3) \<Rightarrow>
      if \<not> ok then Returned (EFI_OUT_OF_RESOURCES, sh_close sh file w3)
      else case sh_read sh file size0 w3 of ((status, data), w4) \<Rightarrow>
      if EFI_ERROR status then Returned (status, sh_close sh file w4)
      else if length data \<noteq> unat (fl_size pf) then Returned (EFI_BAD_BUFFER_SIZE, sh_close sh file w4)
      else obind (PerformFlashWrite pf 0 FlashAddressTypeRelativeAddress data (ucast (fl_size pf)) w4) (\<lambda>(_, w5).
        Returned (EFI_SUCCESS, sh_close sh file w5)))"

subsection \<open>Verified writing\<close>

definition same_but :: "nat \<Rightarrow> nat \<Rightarrow> 'a list \<Rightarrow> 'a list \<Rightarrow> bool" where
  "same_but off n d d' \<longleftrightarrow> length d' = length d \<and> take off d' = take off d \<and> drop (off + n) d' = drop (off + n) d"

lemma same_but_refl [simp]: "same_but off n d d"
  by (simp add: same_but_def)

lemma same_but_length: "same_but off n d d' \<Longrightarrow> length d' = length d"
  by (simp add: same_but_def)

lemma take_prefix: "take n d' = take n d \<Longrightarrow> m \<le> n \<Longrightarrow> take m d' = take m d"
  by (metis min.absorb2 take_take min.commute)

lemma drop_suffix: "drop m d' = drop m d \<Longrightarrow> m \<le> n \<Longrightarrow> drop n d' = drop n d"
  by (metis drop_drop le_add_diff_inverse add.commute)

lemma same_but_trans:
  assumes "same_but a k d d1" "same_but b m d1 d2" "off \<le> a" "off \<le> b" "a + k \<le> off + n" "b + m \<le> off + n"
  shows "same_but off n d d2"
  using assms take_prefix [of b d2 d1 off] take_prefix [of a d1 d off]
    drop_suffix [of "b + m" d2 d1 "off + n"] drop_suffix [of "a + k" d1 d "off + n"]
  by (simp add: same_but_def)

lemma same_but_widen: "same_but a k d d' \<Longrightarrow> off \<le> a \<Longrightarrow> a + k \<le> off + n \<Longrightarrow> same_but off n d d'"
  using same_but_trans [of a k d d' a 0 d' off n] by simp

lemma overwrite_of_same_but:
  assumes "same_but off n d d'" "off + n \<le> length d" "take n (drop off d') = b"
  shows "d' = overwrite off b d"
proof -
  have "d' = take off d' @ take n (drop off d') @ drop (off + n) d'"
    by (metis append_take_drop_id drop_drop add.commute)
  moreover have "length b = n" using assms same_but_length [OF assms(1)] by auto
  ultimately show ?thesis using assms(1,3) by (simp add: overwrite_def same_but_def)
qed

text \<open>
  What the device promises: reading gives the contents, and erasing or writing, whatever its status,
  changes no other block than its own.  That the right data is there is not promised: the code
  verifies it.
\<close>

locale flash_device =
  fixes pf :: "'w spi_platform" and contents :: "'w \<Rightarrow> bytes"
  assumes alloc_contents: "contents (snd (fl_alloc pf n w)) = contents w"
    and size: "length (contents w) = unat (fl_size pf)"
    and read_contents: "unat a = unat (fl_base pf) + off \<Longrightarrow> off + n \<le> length (contents w) \<Longrightarrow>
      fl_read pf a n w = take n (drop off (contents w))"
    and erase_block: "fl_erase pf o32 w = (status, w') \<Longrightarrow> 4096 dvd unat o32 \<Longrightarrow> unat o32 + 4096 \<le> length (contents w) \<Longrightarrow>
      same_but (unat o32) 4096 (contents w) (contents w')"
    and write_block: "fl_write pf o32 d w = (status, w') \<Longrightarrow> unat o32 + length d \<le> length (contents w) \<Longrightarrow>
      same_but (unat o32) (length d) (contents w) (contents w')"
begin

lemma compare_block:
  assumes "unat a = unat (fl_base pf) + off" "off + 4096 \<le> length (contents w)" "4096 \<le> length buf"
  shows "\<exists>status w'. InternalCompareBlock pf a buf w = Returned (status, w') \<and> contents w' = contents w \<and>
    (\<not> EFI_ERROR status \<longrightarrow> take 4096 (drop off (contents w)) = take 4096 buf)"
proof -
  obtain ok w1 where al: "fl_alloc pf 4096 w = (ok, w1)" by fastforce
  with alloc_contents [of 4096 w] have c: "contents w1 = contents w" by simp
  with read_contents [of a off 4096 w1] assms al show ?thesis
    by (simp add: InternalCompareBlock_def BLOCK_SIZE_def slice_Some efi_error_simps)
qed

text \<open>The address of a block as an offset, in 64 and in 32 bits.\<close>

lemma block_offset:
  fixes a :: u64
  assumes "unat a = unat (fl_base pf) + off" "off + n \<le> length (contents w)"
  shows "ucast (fl_base pf) \<le> a" "unat (a - ucast (fl_base pf)) = off" "unat (ucast (a - ucast (fl_base pf)) :: u32) = off"
proof -
  have b: "unat (ucast (fl_base pf) :: u64) = unat (fl_base pf)" by (rule unat_ucast_up) simp
  then show "ucast (fl_base pf) \<le> a" using assms(1) by (simp add: word_le_nat_alt)
  then show o: "unat (a - ucast (fl_base pf)) = off" using assms(1) b by (simp add: unat_sub)
  have "off < 2 ^ 32" using assms(2) size [of w] unsigned_less [of "fl_size pf", where ?'a = nat] by simp
  with o show "unat (ucast (a - ucast (fl_base pf)) :: u32) = off" by (simp add: unsigned_ucast_eq take_bit_eq_mod)
qed

lemma erase_one:
  assumes "unat a = unat (fl_base pf) + off" "off + 4096 \<le> length (contents w)" "4096 dvd off"
  shows "\<exists>status w'. InternalEraseBlock pf a w = Returned (status, w') \<and> same_but off 4096 (contents w) (contents w')"
proof -
  note bo = block_offset [OF assms(1,2)]
  obtain status w1 where e: "fl_erase pf (ucast (a - ucast (fl_base pf))) w = (status, w1)" by fastforce
  from erase_block [OF this] bo(3) assms(2,3) have s: "same_but off 4096 (contents w) (contents w1)" by simp
  have "unat (ucast (fl_size pf) :: u64) = unat (fl_size pf)" by (rule unat_ucast_up) simp
  with assms(2) size [of w] bo(2) have "0x1000 + (a - ucast (fl_base pf)) \<le> ucast (fl_size pf)"
    using unsigned_less [of "fl_size pf", where ?'a = nat] by (simp add: word_le_nat_alt unat_word_ariths)
  with e bo(1) s show ?thesis
    by (simp add: InternalEraseBlock_def SpiFlashBlockErase_def BLOCK_SIZE_def Let_def spi_erase_loop.simps)
qed

lemma write_one:
  assumes "unat a = unat (fl_base pf) + off" "off + 4096 \<le> length (contents w)" "4096 \<le> length buf"
  shows "\<exists>status w'. InternalWriteBlock pf a buf 0x1000 w = Returned (status, w') \<and>
    same_but off 4096 (contents w) (contents w') \<and> (\<not> EFI_ERROR status \<longrightarrow> take 4096 (drop off (contents w')) = take 4096 buf)"
proof -
  note bo = block_offset [OF assms(1,2)]
  obtain status w1 where e: "fl_write pf (ucast (a - ucast (fl_base pf))) (take 4096 buf) w = (status, w1)" by fastforce
  from write_block [OF this] bo(3) assms(2,3) have s: "same_but off 4096 (contents w) (contents w1)" by simp
  have "unat (ucast (fl_size pf) :: u64) = unat (fl_size pf)" by (rule unat_ucast_up) simp
  with assms(2) size [of w] bo(2) have "0x1000 + (a - ucast (fl_base pf)) \<le> ucast (fl_size pf)"
    using unsigned_less [of "fl_size pf", where ?'a = nat] by (simp add: word_le_nat_alt unat_word_ariths)
  with e bo(1) assms(3) have run: "InternalWriteBlock pf a buf 0x1000 w =
      (if EFI_ERROR status then Returned (status, w1) else InternalCompareBlock pf a buf w1)"
    by (simp add: InternalWriteBlock_def SpiFlashWrite_def Let_def spi_write_loop.simps slice_Some)
  have "off + 4096 \<le> length (contents w1)" using assms(2) same_but_length [OF s] by simp
  from compare_block [OF assms(1) this assms(3)] s run show ?thesis by auto
qed

lemma write_blocks_result:
  fixes a :: u64
  assumes "unat a = unat (fl_base pf) + off" "off + 4096 * n \<le> length (contents w)" "4096 dvd off"
    and "4096 * n \<le> length buf" "4096 * n \<le> unat len" "\<not> EFI_ERROR status"
  shows "\<exists>status' shown' w'. write_blocks pf progress count n a buf len status shown w = Returned ((status', shown'), w') \<and>
    same_but off (4096 * n) (contents w) (contents w') \<and>
    (\<not> EFI_ERROR status' \<longrightarrow> take (4096 * n) (drop off (contents w')) = take (4096 * n) buf)"
  using assms
proof (induction n arbitrary: a off buf len status shown w)
  case 0
  then show ?case by simp
next
  case (Suc n)
  have b: "off + 4096 \<le> length (contents w)" "4096 \<le> length buf" "4096 \<le> unat len" "off + 4096 \<le> unat (fl_size pf)"
    using Suc.prems(2,4,5) size [of w] by simp_all
  define len' where "len' = (if len > BLOCK_SIZE then len - BLOCK_SIZE else 0)"
  define shown' where "shown' = (case progress of None \<Rightarrow> shown
      | Some (start, stop) \<Rightarrow> shown @ [start + ((count - of_nat (Suc n)) * (stop - start)) div count])"
  have one: "ucast (if len > BLOCK_SIZE then BLOCK_SIZE else len) = (0x1000 :: u32)"
  proof (cases "len > BLOCK_SIZE")
    case False
    with b(3) have "len = 0x1000" by (simp add: BLOCK_SIZE_def word_less_nat_alt word_unat_eq_iff)
    then show ?thesis by (simp add: BLOCK_SIZE_def)
  qed (simp add: BLOCK_SIZE_def)
  have l: "4096 * n \<le> unat len'"
    using Suc.prems(5) by (auto simp: len'_def BLOCK_SIZE_def word_less_nat_alt unat_sub word_le_nat_alt)
  have a': "unat (a + BLOCK_SIZE) = unat (fl_base pf) + (off + 4096)"
    using Suc.prems(1) b(4) unsigned_less [of "fl_size pf", where ?'a = nat] unsigned_less [of "fl_base pf", where ?'a = nat]
    by (simp add: BLOCK_SIZE_def unat_word_ariths)
  let ?go = "\<lambda>st w1. write_blocks pf progress count n (a + BLOCK_SIZE) (drop 4096 buf) len' st shown' w1"
  have next_block: "\<exists>status' shown'' w'. ?go st w1 = Returned ((status', shown''), w') \<and>
      same_but off (4096 * Suc n) (contents w) (contents w') \<and>
      (\<not> EFI_ERROR status' \<longrightarrow> take (4096 * Suc n) (drop off (contents w')) = take (4096 * Suc n) buf)"
    if s: "same_but off 4096 (contents w) (contents w1)" "take 4096 (drop off (contents w1)) = take 4096 buf" "\<not> EFI_ERROR st"
    for st w1
  proof -
    have p: "off + 4096 + 4096 * n \<le> length (contents w1)" "4096 dvd off + 4096" "4096 * n \<le> length (drop 4096 buf)"
      using Suc.prems(2,3,4) same_but_length [OF s(1)] by simp_all
    from Suc.IH [OF a' p l s(3)] obtain status' shown'' w' where r: "?go st w1 = Returned ((status', shown''), w')"
      "same_but (off + 4096) (4096 * n) (contents w1) (contents w')"
      "\<not> EFI_ERROR status' \<longrightarrow> take (4096 * n) (drop (off + 4096) (contents w')) = take (4096 * n) (drop 4096 buf)"
      by blast
    have "take 4096 (drop off (contents w')) = take 4096 buf"
      using r(2) s(2) by (metis same_but_def add.commute take_drop)
    then have "take (4096 + 4096 * n) (drop off (contents w')) = take (4096 + 4096 * n) buf" if "\<not> EFI_ERROR status'"
      using r(3) that by (simp add: take_add add.commute)
    with r(1) same_but_trans [OF s(1) r(2), of off "4096 * Suc n"] show ?thesis by simp
  qed
  obtain s1 w1 where c: "InternalCompareBlock pf a buf w = Returned (s1, w1)" "contents w1 = contents w"
    "\<not> EFI_ERROR s1 \<longrightarrow> take 4096 (drop off (contents w)) = take 4096 buf"
    using compare_block [OF Suc.prems(1) b(1,2)] by blast
  obtain s2 w2 where e: "InternalEraseBlock pf a w1 = Returned (s2, w2)" "same_but off 4096 (contents w) (contents w2)"
    using erase_one [OF Suc.prems(1) _ Suc.prems(3), of w1] b(1) c(2) by auto
  have "off + 4096 \<le> length (contents w2)" using b(1) same_but_length [OF e(2)] by simp
  from write_one [OF Suc.prems(1) this b(2)] obtain s3 w3 where wr:
    "InternalWriteBlock pf a buf 0x1000 w2 = Returned (s3, w3)" "same_but off 4096 (contents w2) (contents w3)"
    "\<not> EFI_ERROR s3 \<longrightarrow> take 4096 (drop off (contents w3)) = take 4096 buf" by blast
  have both: "same_but off 4096 (contents w) (contents w3)"
    using same_but_trans [OF e(2) wr(2)] by simp
  have step: "write_blocks pf progress count (Suc n) a buf len status shown w =
      (if \<not> EFI_ERROR s1 then ?go status w1 else if EFI_ERROR s2 then Returned ((s2, shown'), w2)
       else if EFI_ERROR s3 then Returned ((s3, shown'), w3) else ?go s3 w3)"
    by (simp only: write_blocks.simps Let_def c(1) e(1) wr(1) one obind.simps prod.case len'_def [symmetric] shown'_def [symmetric])
      (simp add: BLOCK_SIZE_def)
  show ?case
    unfolding step
    using next_block [of w1 status] next_block [of w3 s3] c Suc.prems(6) wr(3) both
      same_but_widen [OF e(2), of off "4096 * Suc n"] same_but_widen [OF both, of off "4096 * Suc n"]
    by (cases "EFI_ERROR s1"; cases "EFI_ERROR s2"; cases "EFI_ERROR s3") auto
qed

lemma flash_write_result:
  assumes "unat address = off" "off + 4096 * (unat len div 4096) \<le> length (contents w)" "4096 dvd off"
    and "unat len \<le> length buf"
  shows "\<exists>status shown w'.
    PerformFlashWriteWithProgress pf address FlashAddressTypeRelativeAddress buf len progress w = Returned ((status, shown), w') \<and>
    same_but off (4096 * (unat len div 4096)) (contents w) (contents w') \<and>
    (\<not> EFI_ERROR status \<longrightarrow> contents w' = overwrite off (take (4096 * (unat len div 4096)) buf) (contents w))"
proof -
  let ?n = "unat len div 4096"
  have n: "unat (len div BLOCK_SIZE) = ?n" by (simp add: BLOCK_SIZE_def unat_div)
  have "off \<le> unat (fl_size pf)" using assms(2) size [of w] by simp
  then have a: "unat (address + ucast (fl_base pf)) = unat (fl_base pf) + off"
    using assms(1) unsigned_less [of "fl_size pf", where ?'a = nat] unsigned_less [of "fl_base pf", where ?'a = nat]
    by (simp add: unat_word_ariths unat_ucast_up)
  have len: "4096 * ?n \<le> unat len" using div_times_less_eq_dividend [of "unat len" 4096] by simp
  then have buf: "4096 * ?n \<le> length buf" using assms(4) by simp
  have ok: "\<not> EFI_ERROR EFI_SUCCESS" by (simp add: efi_error_simps)
  obtain status shown w' where r: "write_blocks pf progress (len div BLOCK_SIZE) ?n (address + ucast (fl_base pf)) buf len EFI_SUCCESS [] w =
      Returned ((status, shown), w')" "same_but off (4096 * ?n) (contents w) (contents w')"
    "\<not> EFI_ERROR status \<longrightarrow> take (4096 * ?n) (drop off (contents w')) = take (4096 * ?n) buf"
    using write_blocks_result [OF a assms(2,3) buf len ok] by blast
  have "\<not> EFI_ERROR status \<longrightarrow> contents w' = overwrite off (take (4096 * ?n) buf) (contents w)"
    using overwrite_of_same_but [OF r(2) assms(2)] r(3) by blast
  with r(1,2) show ?thesis by (simp add: PerformFlashWriteWithProgress_def Let_def n)
qed

end

text \<open>A flash whose writes can only clear bits and whose erased octets are \<open>0xFF\<close>.\<close>

definition flash_contents :: "u32 \<Rightarrow> bytes \<Rightarrow> bytes" where
  "flash_contents sz d = take (unat sz) (d @ replicate (unat sz) 0)"

definition put_flash :: "u32 \<Rightarrow> u32 \<Rightarrow> bytes \<Rightarrow> bytes \<Rightarrow> EFI_STATUS \<times> bytes" where
  "put_flash sz off b d = (if unat off + length b \<le> unat sz
     then (EFI_SUCCESS, overwrite (unat off) b (flash_contents sz d)) else (EFI_DEVICE_ERROR, d))"

definition nor_flash :: "u32 \<Rightarrow> u32 \<Rightarrow> bytes spi_platform" where
  "nor_flash base sz = \<lparr>fl_alloc = \<lambda>n d. (True, d), fl_base = base, fl_size = sz,
     fl_read = \<lambda>a n d. take n (drop (unat a - unat base) (flash_contents sz d)),
     fl_write = \<lambda>off b d. put_flash sz off (map (\<lambda>(x, y). x AND y) (zip b (drop (unat off) (flash_contents sz d)))) d,
     fl_erase = \<lambda>off d. put_flash sz off (replicate 4096 0xFF) d\<rparr>"

lemma length_flash_contents [simp]: "length (flash_contents sz d) = unat sz"
  by (simp add: flash_contents_def)

lemma flash_contents_full: "length d = unat sz \<Longrightarrow> flash_contents sz d = d"
  by (simp add: flash_contents_def)

lemma put_flash_same_but:
  assumes "put_flash sz off b d = (status, d')" "unat off + n \<le> unat sz" "length b = n"
  shows "same_but (unat off) n (flash_contents sz d) (flash_contents sz d')"
  using assms by (auto simp: put_flash_def same_but_def overwrite_def flash_contents_full)

lemma nor_flash_device: "flash_device (nor_flash base sz) (flash_contents sz)"
  by unfold_locales (auto simp: nor_flash_def intro!: put_flash_same_but)

interpretation nor: flash_device "nor_flash 0xFF800000 0x2000" "flash_contents 0x2000"
  by (rule nor_flash_device)

text \<open>
  C12: writing an image to the flash at a block of it returns, changes nothing but the blocks of the
  image whatever the device does, and when it reports no error these blocks hold the image, also
  for a device that reports success without having written the data.
\<close>
theorem flash_verified:
  assumes "flash_device pf contents" "4096 dvd unat address" "unat len \<le> length buf" "n = 4096 * (unat len div 4096)"
    and "unat address + n \<le> unat (fl_size pf)"
  shows "\<exists>status w'. PerformFlashWrite pf address FlashAddressTypeRelativeAddress buf len w = Returned (status, w') \<and>
    same_but (unat address) n (contents w) (contents w') \<and>
    (\<not> EFI_ERROR status \<longrightarrow> contents w' = overwrite (unat address) (take n buf) (contents w))"
proof -
  have "unat address + 4096 * (unat len div 4096) \<le> length (contents w)"
    using flash_device.size [OF assms(1), of w] assms(4,5) by simp
  from flash_device.flash_write_result [OF assms(1) refl this assms(2,3), of None] show ?thesis
    by (auto simp: PerformFlashWrite_def assms(4))
qed

theorem flash_verified_witness:
  "\<exists>w'. PerformFlashWrite (nor_flash 0xFF800000 0x2000) 0x1000 FlashAddressTypeRelativeAddress (replicate 4096 0x5A) 0x1000 [] =
     Returned (EFI_SUCCESS, w') \<and> flash_contents 0x2000 w' = replicate 4096 0 @ replicate 4096 0x5A"
proof -
  let ?pf = "nor_flash 0xFF800000 0x2000" and ?a = "0xFF801000 :: u64"
  let ?e = "replicate 4096 0 @ replicate 4096 (0xFF :: u8)" and ?d = "replicate 4096 0 @ replicate 4096 (0x5A :: u8)"
  have ne: "replicate 4096 (0 :: u8) \<noteq> replicate 4096 0x5A" by (simp add: replicate_eq_replicate)
  have c1: "flash_contents 0x2000 [] = replicate 8192 0" by (simp add: flash_contents_def)
  have c2: "flash_contents 0x2000 ?e = ?e" "flash_contents 0x2000 ?d = ?d" by (rule flash_contents_full, simp)+
  have r1: "InternalCompareBlock ?pf ?a (replicate 4096 0x5A) [] = Returned (EFI_VOLUME_CORRUPTED, [])"
    using ne by (simp add: InternalCompareBlock_def BLOCK_SIZE_def slice_Some nor_flash_def c1)
  have r2: "InternalEraseBlock ?pf ?a [] = Returned (EFI_SUCCESS, ?e)"
    by (simp add: InternalEraseBlock_def SpiFlashBlockErase_def BLOCK_SIZE_def Let_def spi_erase_loop.simps nor_flash_def
        put_flash_def c1 overwrite_def)
  have r3: "InternalWriteBlock ?pf ?a (replicate 4096 0x5A) 0x1000 ?e = Returned (EFI_SUCCESS, ?d)"
    by (simp add: InternalWriteBlock_def SpiFlashWrite_def InternalCompareBlock_def BLOCK_SIZE_def Let_def spi_write_loop.simps
        slice_Some nor_flash_def put_flash_def c2 overwrite_def)
  have loop: "write_blocks ?pf None 1 (Suc 0) ?a (replicate 4096 0x5A) 0x1000 EFI_SUCCESS [] [] = Returned ((EFI_SUCCESS, []), ?d)"
    using r1 r2 r3 by (simp add: efi_error_simps BLOCK_SIZE_def)
  have address: "0x1000 + ucast (fl_base ?pf) = ?a" by (simp add: nor_flash_def)
  have run: "PerformFlashWrite ?pf 0x1000 FlashAddressTypeRelativeAddress (replicate 4096 0x5A) 0x1000 [] = Returned (EFI_SUCCESS, ?d)"
    by (simp add: PerformFlashWrite_def PerformFlashWriteWithProgress_def Let_def BLOCK_SIZE_def address loop
        del: write_blocks.simps)
  from flash_verified [OF nor.flash_device_axioms, of "0x1000" "0x1000" "replicate 4096 0x5A" 4096 "[]"] run
  have "flash_contents 0x2000 ?d = overwrite 4096 (replicate 4096 0x5A) (flash_contents 0x2000 [])"
    by (simp add: efi_error_simps nor_flash_def)
  with run show ?thesis by (auto simp: c1 overwrite_def)
qed

subsection \<open>What goes wrong\<close>

text \<open>An image that is no multiple of a block long is written without its tail, and success is reported.\<close>

theorem flash_tail_dropped:
  assumes "unat len < 4096"
  shows "PerformFlashWrite pf address type buf len w = Returned (EFI_SUCCESS, w)"
proof -
  have "len div BLOCK_SIZE = 0" using assms by (simp add: BLOCK_SIZE_def word_unat_eq_iff unat_div)
  then show ?thesis by (simp add: PerformFlashWrite_def PerformFlashWriteWithProgress_def Let_def)
qed

text \<open>The flash tool reports success whatever the status of the write is.\<close>

theorem flash_tool_reports_success:
  assumes "sh_open sh name False w = ((EFI_SUCCESS, file), w1)" "sh_size sh file w1 = ((EFI_SUCCESS, size0), w2)"
    and "sh_alloc sh (unat size0) w2 = (True, w3)" "sh_read sh file size0 w3 = ((EFI_SUCCESS, data), w4)"
    and "length data = unat (fl_size pf)"
    and "PerformFlashWrite pf 0 FlashAddressTypeRelativeAddress data (ucast (fl_size pf)) w4 = Returned (status, w5)"
  shows "FlashToolMain sh pf [tool, name] w = Returned (EFI_SUCCESS, sh_close sh file w5)"
  using assms by (simp add: FlashToolMain_def slice_Some efi_error_simps)

end
