(* ===== verification/RamDebug.thy ===== *)
theory RamDebug
  imports EfiBase
begin

text \<open>
  \<open>Library/RamDebugLib\<close>: a log of zero terminated records in a fixed region of memory, which makes
  room for a new record by removing the oldest ones.

  \<open>mem\<close> is the region: a header of 16 octets (signature, latest index and reserved ones) and the
  buffer.  Leaving it is \<open>Faulted\<close>.  The region may be read only; then writes have no effect.
  Positions in the region stay far below the 64 bits addresses have.
\<close>

record ram_debug =
  rd_base :: u32
  rd_size :: u32
  rd_read_only :: bool

definition RAM_DEBUG_HEADER_ID :: u32 where "RAM_DEBUG_HEADER_ID = 0x50444D52"
definition RAM_DEBUG_DISABLE :: u8 where "RAM_DEBUG_DISABLE = 0x5A"
definition DEBUG_PRINT_BUFFER_DFT_VALUE :: u8 where "DEBUG_PRINT_BUFFER_DFT_VALUE = 0xCC"

definition DEBUG_PRINT_BUFFER_SIZE :: "ram_debug \<Rightarrow> u64" where
  "DEBUG_PRINT_BUFFER_SIZE pf = ucast (rd_size pf) - 16"

definition MmioRead8 :: "bytes \<Rightarrow> nat \<Rightarrow> u8 outcome" where
  "MmioRead8 mem pos = (if pos < length mem then Returned (mem ! pos) else Faulted)"

definition MmioWrite8 :: "ram_debug \<Rightarrow> bytes \<Rightarrow> nat \<Rightarrow> u8 \<Rightarrow> bytes outcome" where
  "MmioWrite8 pf mem pos v =
     (if pos < length mem then Returned (if rd_read_only pf then mem else mem[pos := v]) else Faulted)"

definition MmioRead32 :: "bytes \<Rightarrow> nat \<Rightarrow> u32 outcome" where
  "MmioRead32 mem pos = obind (checked (slice pos 4 mem)) (\<lambda>b. Returned (load32 b))"

definition MmioWrite32 :: "ram_debug \<Rightarrow> bytes \<Rightarrow> nat \<Rightarrow> u32 \<Rightarrow> bytes outcome" where
  "MmioWrite32 pf mem pos v =
     (if pos + 4 \<le> length mem then Returned (if rd_read_only pf then mem else overwrite pos (mem32 v) mem) else Faulted)"

subsection \<open>The loops\<close>

text \<open>Filling \<open>n\<close> octets with the default value, moving \<open>n\<close> octets forward, and storing a list of octets.\<close>

fun fill_default :: "ram_debug \<Rightarrow> bytes \<Rightarrow> nat \<Rightarrow> nat \<Rightarrow> bytes outcome" where
  "fill_default pf mem pos 0 = Returned mem"
| "fill_default pf mem pos (Suc n) =
     obind (MmioWrite8 pf mem pos DEBUG_PRINT_BUFFER_DFT_VALUE) (\<lambda>m. fill_default pf m (Suc pos) n)"

fun move_forward :: "ram_debug \<Rightarrow> bytes \<Rightarrow> nat \<Rightarrow> nat \<Rightarrow> nat \<Rightarrow> bytes outcome" where
  "move_forward pf mem src dst 0 = Returned mem"
| "move_forward pf mem src dst (Suc n) =
     obind (MmioRead8 mem src) (\<lambda>v. obind (MmioWrite8 pf mem dst v) (\<lambda>m. move_forward pf m (Suc src) (Suc dst) n))"

fun store_octets :: "ram_debug \<Rightarrow> bytes \<Rightarrow> nat \<Rightarrow> bytes \<Rightarrow> bytes outcome" where
  "store_octets pf mem pos [] = Returned mem"
| "store_octets pf mem pos (b # bs) = obind (MmioWrite8 pf mem pos b) (\<lambda>m. store_octets pf m (Suc pos) bs)"

text \<open>The size of the record at the start of \<open>rest\<close>, the memory up to the end of the region.\<close>

fun RamDebugGetRecordSize :: "bytes \<Rightarrow> nat outcome" where
  "RamDebugGetRecordSize [] = Faulted"
| "RamDebugGetRecordSize (b # rest) =
     (if b = 0 then Returned 1 else obind (RamDebugGetRecordSize rest) (\<lambda>n. Returned (Suc n)))"

lemma record_size_positive: "RamDebugGetRecordSize rest = Returned n \<Longrightarrow> 0 < n \<and> n \<le> length rest"
  by (induction rest arbitrary: n) (auto simp: obind_Returned_iff split: if_splits)

text \<open>
  The records to remove: \<open>rest\<close> is the memory from \<open>DEBUG_PRINT_BUFFER_START + RecordOffset\<close> on.  The
  result is the offset behind them.
\<close>

function scan_records :: "bytes \<Rightarrow> u32 \<Rightarrow> u32 \<Rightarrow> u64 \<Rightarrow> u32 outcome" where
  "scan_records rest remained offset new =
     (if ucast remained < new then
        (case RamDebugGetRecordSize rest of
           Returned n \<Rightarrow> scan_records (drop n rest) (remained + word_of_nat n) (offset + word_of_nat n) new
         | _ \<Rightarrow> Faulted)
      else Returned offset)"
  by pat_completeness auto
termination
  by (relation "measure (\<lambda>(rest, remained, offset, new). length rest)") (use record_size_positive in force)+

declare scan_records.simps [simp del]

subsection \<open>The operations\<close>

definition RamDebugGetLatestIndex :: "ram_debug \<Rightarrow> bytes \<Rightarrow> ((EFI_STATUS + u32) \<times> bytes) outcome" where
  "RamDebugGetLatestIndex pf mem =
     (if rd_base pf = 0 then Returned (Inl EFI_INVALID_PARAMETER, mem)
      else if rd_size pf = 0 then Returned (Inl EFI_INVALID_PARAMETER, mem)
      else obind (MmioRead32 mem 0) (\<lambda>sig.
        let latest = (\<lambda>m. obind (MmioRead32 m 4) (\<lambda>index. Returned (Inr index, m))) in
        if sig \<noteq> RAM_DEBUG_HEADER_ID then
          obind (MmioWrite32 pf mem 0 RAM_DEBUG_HEADER_ID) (\<lambda>m1.
          obind (MmioRead32 m1 0) (\<lambda>sig1.
            if sig1 \<noteq> RAM_DEBUG_HEADER_ID then Returned (Inl EFI_WRITE_PROTECTED, m1)
            else obind (MmioWrite32 pf m1 4 0) (\<lambda>m2.
              obind (fill_default pf m2 16 (unat (DEBUG_PRINT_BUFFER_SIZE pf))) latest)))
        else latest mem))"

text \<open>\<open>latest\<close> is the latest index on entry; the new one is returned.\<close>

definition RamDebugCleanUp :: "ram_debug \<Rightarrow> u64 \<Rightarrow> u32 \<Rightarrow> bytes \<Rightarrow> (u32 \<times> bytes) outcome" where
  "RamDebugCleanUp pf new latest mem =
     obind (scan_records (drop 16 mem) (ucast (DEBUG_PRINT_BUFFER_SIZE pf - ucast latest)) 0 new) (\<lambda>offset.
     obind (move_forward pf mem (16 + unat offset) 16 (unat (latest - offset))) (\<lambda>m1.
       let latest' = latest - offset in
       obind (fill_default pf m1 (16 + unat latest') (unat (DEBUG_PRINT_BUFFER_SIZE pf - ucast latest'))) (\<lambda>m2.
         Returned (latest', m2))))"

text \<open>\<open>cmos\<close> is the octet of the CMOS that controls the log, \<open>buffer\<close> the memory at \<open>Buffer\<close>.\<close>

definition RamDebugPrint :: "ram_debug \<Rightarrow> u8 \<Rightarrow> bytes \<Rightarrow> u64 \<Rightarrow> bytes \<Rightarrow> bytes outcome" where
  "RamDebugPrint pf cmos buffer size0 mem =
     (if cmos = RAM_DEBUG_DISABLE then Returned mem
      else if size0 > DEBUG_PRINT_BUFFER_SIZE pf then Returned mem
      else obind (RamDebugGetLatestIndex pf mem) (\<lambda>(r, m1). case r of
          Inl _ \<Rightarrow> Returned m1
        | Inr latest \<Rightarrow>
            let temp = ucast size0 + 1 :: u32 in
            obind (if ucast (latest + temp) > DEBUG_PRINT_BUFFER_SIZE pf then RamDebugCleanUp pf (ucast temp) latest m1
                   else Returned (latest, m1)) (\<lambda>(latest', m2).
              if ucast (latest' + temp) \<le> DEBUG_PRINT_BUFFER_SIZE pf then
                obind (checked (slice 0 (unat temp) buffer)) (\<lambda>data.
                obind (store_octets pf m2 (16 + unat latest') data) (\<lambda>m3.
                  MmioWrite32 pf m3 4 (latest' + temp)))
              else Returned m2)))"

subsection \<open>The log as a list of records\<close>

text \<open>
  A log is a list of records, the oldest first, each followed by a zero in memory; \<open>room\<close> is the space
  they need and \<open>newest n\<close> the longest suffix that fits into \<open>n\<close> octets.
\<close>

definition encode :: "bytes list \<Rightarrow> bytes" where "encode rs = concat (map (\<lambda>r. r @ [0]) rs)"

definition room :: "bytes list \<Rightarrow> nat" where "room rs = length (encode rs)"

fun newest :: "nat \<Rightarrow> bytes list \<Rightarrow> bytes list" where
  "newest n [] = []"
| "newest n (r # rs) = (if room (r # rs) \<le> n then r # rs else newest n rs)"

lemma encode_simps [simp]: "encode [] = []" "encode (r # rs) = r @ 0 # encode rs" "encode (rs @ ss) = encode rs @ encode ss"
  by (simp_all add: encode_def)

lemma room_simps [simp]: "room [] = 0" "room (r # rs) = Suc (length r + room rs)" "room (rs @ ss) = room rs + room ss"
  by (simp_all add: room_def)

lemma length_encode [simp]: "length (encode rs) = room rs"
  by (simp add: room_def)

lemma newest_fits: "room (newest n rs) \<le> n"
  by (induction rs) auto

lemma newest_all: "room rs \<le> n \<Longrightarrow> newest n rs = rs"
  by (cases rs) auto

lemma newest_suffix: "\<exists>old. rs = old @ newest n rs"
proof (induction rs)
  case (Cons r rs)
  then obtain old where "rs = old @ newest n rs" by blast
  then have "r # rs = (r # old) @ newest n rs" by simp
  then have "\<exists>old. r # rs = old @ newest n rs" by blast
  then show ?case by simp
qed simp

lemma newest_snoc: "Suc (length m) \<le> n \<Longrightarrow> newest n (rs @ [m]) = newest (n - Suc (length m)) rs @ [m]"
  by (induction rs) auto

lemma newest_newest_snoc:
  assumes "Suc (length m) \<le> n"
  shows "newest n (newest n rs @ [m]) = newest n (rs @ [m])"
proof (induction rs)
  case Nil
  then show ?case by simp
next
  case (Cons r rs)
  then show ?case by (cases "room (r # rs) \<le> n") simp_all
qed

subsection \<open>What the loops do\<close>

lemma record_size_encoded: "0 \<notin> set r \<Longrightarrow> RamDebugGetRecordSize (r @ 0 # rest) = Returned (Suc (length r))"
  by (induction r) simp_all

lemma record_size_open: "0 \<notin> set rest \<Longrightarrow> RamDebugGetRecordSize rest = Faulted"
  by (induction rest) simp_all

lemma scan_records_result:
  assumes "\<forall>r\<in>set rs. 0 \<notin> set r" "unat new \<le> x + room rs" "x + room rs < 2 ^ 32"
  shows "scan_records (encode rs @ rest) (word_of_nat x) offset new =
    Returned (offset + word_of_nat (room rs - room (newest (x + room rs - unat new) rs)))"
  using assms
proof (induction rs arbitrary: x offset)
  case Nil
  then have "new \<le> ucast (word_of_nat x :: u32)" by (simp add: word_le_nat_alt unsigned_ucast_eq unat_of_nat take_bit_eq_mod)
  then show ?case by (simp add: scan_records.simps not_less [symmetric])
next
  case (Cons r rs)
  have x: "unat (ucast (word_of_nat x :: u32) :: u64) = x"
    using Cons.prems(3) by (simp add: unsigned_ucast_eq unat_of_nat take_bit_eq_mod)
  show ?case
  proof (cases "unat new \<le> x")
    case True
    then have "\<not> ucast (word_of_nat x :: u32) < new" by (simp add: word_less_nat_alt x)
    with True show ?thesis by (simp add: scan_records.simps)
  next
    case False
    have less: "ucast (word_of_nat x :: u32) < new" using False by (simp add: word_less_nat_alt x)
    let ?x = "x + Suc (length r)"
    have add: "(word_of_nat x :: u32) + word_of_nat (Suc (length r)) = word_of_nat ?x" by simp
    have size: "RamDebugGetRecordSize (r @ 0 # encode rs @ rest) = Returned (Suc (length r))"
      using Cons.prems(1) by (simp add: record_size_encoded)
    have rest: "drop (Suc (length r)) (r @ 0 # encode rs @ rest) = encode rs @ rest" by simp
    have "scan_records (encode (r # rs) @ rest) (word_of_nat x) offset new =
        scan_records (encode rs @ rest) (word_of_nat ?x) (offset + word_of_nat (Suc (length r))) new"
      using less by (subst scan_records.simps) (simp add: size rest add del: of_nat_Suc of_nat_add)
    also have "\<dots> = Returned (offset + word_of_nat (Suc (length r)) +
        word_of_nat (room rs - room (newest (?x + room rs - unat new) rs)))"
      using Cons.prems by (intro Cons.IH) simp_all
    also have "\<dots> = Returned (offset + word_of_nat (room (r # rs) - room (newest (x + room (r # rs) - unat new) (r # rs))))"
    proof -
      have n: "room (newest k rs) \<le> room rs" for k using newest_suffix [of rs k] by (metis le_add2 room_simps(3))
      have "\<not> room (r # rs) \<le> x + room (r # rs) - unat new" using False Cons.prems(2) by simp
      then have "newest (x + room (r # rs) - unat new) (r # rs) = newest (?x + room rs - unat new) rs"
        by (simp add: ac_simps)
      with n [of "?x + room rs - unat new"] show ?thesis by (simp add: of_nat_diff add.assoc)
    qed
    finally show ?thesis .
  qed
qed

lemma fill_default_result:
  "\<not> rd_read_only pf \<Longrightarrow> pos + n \<le> length mem \<Longrightarrow>
   fill_default pf mem pos n = Returned (overwrite pos (replicate n DEBUG_PRINT_BUFFER_DFT_VALUE) mem)"
proof (induction n arbitrary: mem pos)
  case (Suc n)
  then have "fill_default pf (mem[pos := DEBUG_PRINT_BUFFER_DFT_VALUE]) (Suc pos) n =
      Returned (overwrite (Suc pos) (replicate n DEBUG_PRINT_BUFFER_DFT_VALUE) (mem[pos := DEBUG_PRINT_BUFFER_DFT_VALUE]))"
    by simp
  with Suc.prems show ?case
    by (simp add: MmioWrite8_def overwrite_def take_Suc_conv_app_nth take_update_cancel)
qed simp

lemma store_octets_result:
  "\<not> rd_read_only pf \<Longrightarrow> pos + length bs \<le> length mem \<Longrightarrow> store_octets pf mem pos bs = Returned (overwrite pos bs mem)"
proof (induction bs arbitrary: mem pos)
  case (Cons b bs)
  then have "store_octets pf (mem[pos := b]) (Suc pos) bs = Returned (overwrite (Suc pos) bs (mem[pos := b]))" by simp
  with Cons.prems show ?case by (simp add: MmioWrite8_def overwrite_def take_Suc_conv_app_nth)
qed simp

lemma move_forward_result:
  "\<not> rd_read_only pf \<Longrightarrow> dst \<le> src \<Longrightarrow> src + n \<le> length mem \<Longrightarrow>
   move_forward pf mem src dst n = Returned (overwrite dst (take n (drop src mem)) mem)"
proof (induction n arbitrary: mem src dst)
  case (Suc n)
  let ?mem = "mem[dst := mem ! src]"
  have "drop (Suc src) ?mem = drop (Suc src) mem" using Suc.prems(2) by simp
  with Suc.IH [OF Suc.prems(1), of "Suc dst" "Suc src" ?mem] Suc.prems
  have "move_forward pf ?mem (Suc src) (Suc dst) n = Returned (overwrite (Suc dst) (take n (drop (Suc src) mem)) ?mem)" by simp
  moreover have "take (Suc n) (drop src mem) = mem ! src # take n (drop (Suc src) mem)"
    using Suc.prems(3) by (simp add: Cons_nth_drop_Suc [symmetric])
  ultimately show ?case
    using Suc.prems by (simp add: MmioRead8_def MmioWrite8_def overwrite_def take_Suc_conv_app_nth)
qed simp

subsection \<open>Refinement\<close>

text \<open>
  The region of a log: a header with its signature and the index behind its records, the records and
  the default value.  \<open>log_holds\<close> takes a region without the signature as an empty log.
\<close>

definition log_region :: "ram_debug \<Rightarrow> bytes list \<Rightarrow> bytes \<Rightarrow> bool" where
  "log_region pf rs mem \<longleftrightarrow> length mem = unat (rd_size pf) \<and> room rs + 16 \<le> length mem \<and> (\<forall>r\<in>set rs. 0 \<notin> set r) \<and>
     load32 mem = RAM_DEBUG_HEADER_ID \<and> load32 (drop 4 mem) = word_of_nat (room rs) \<and>
     drop 16 mem = encode rs @ replicate (length mem - 16 - room rs) DEBUG_PRINT_BUFFER_DFT_VALUE"

definition log_holds :: "ram_debug \<Rightarrow> bytes list \<Rightarrow> bytes \<Rightarrow> bool" where
  "log_holds pf rs mem \<longleftrightarrow> log_region pf rs mem \<or>
     (rs = [] \<and> length mem = unat (rd_size pf) \<and> load32 mem \<noteq> RAM_DEBUG_HEADER_ID)"

text \<open>A region the log can use: writable, with room for the header, and below 2 GiB.\<close>

definition usable :: "ram_debug \<Rightarrow> bool" where
  "usable pf \<longleftrightarrow> rd_base pf \<noteq> 0 \<and> \<not> rd_read_only pf \<and> 16 \<le> unat (rd_size pf) \<and> unat (rd_size pf) < 2 ^ 31"

lemma buffer_size: "usable pf \<Longrightarrow> unat (DEBUG_PRINT_BUFFER_SIZE pf) = unat (rd_size pf) - 16"
  by (simp add: usable_def DEBUG_PRINT_BUFFER_SIZE_def unat_sub word_le_nat_alt unat_ucast_up)

lemma load32_append: "length x = 4 \<Longrightarrow> load32 (x @ y) = load32 x"
  by (simp add: load32_def)

lemma latest_index_result:
  assumes "usable pf" "log_holds pf rs mem"
  shows "\<exists>m. RamDebugGetLatestIndex pf mem = Returned (Inr (word_of_nat (room rs)), m) \<and> log_region pf rs m"
proof (cases "load32 mem = RAM_DEBUG_HEADER_ID")
  case True
  then have r: "log_region pf rs mem" using assms(2) by (simp add: log_holds_def)
  have s: "rd_size pf \<noteq> 0" using assms(1) by (auto simp: usable_def)
  have "16 \<le> length mem" using r by (simp add: log_region_def)
  then have "load32 (take 4 mem) = load32 mem" "load32 (take 4 (drop 4 mem)) = load32 (drop 4 mem)" "4 + 4 \<le> length mem"
    by (simp_all add: load32_def)
  with r s assms(1) True show ?thesis
    by (auto simp: RamDebugGetLatestIndex_def MmioRead32_def slice_Some usable_def log_region_def Let_def)
next
  case False
  then have e: "rs = []" "length mem = unat (rd_size pf)" using assms(2) by (auto simp: log_holds_def log_region_def)
  have s: "rd_size pf \<noteq> 0" "16 \<le> length mem" "\<not> rd_read_only pf" using assms(1) e(2) by (auto simp: usable_def)
  define a where "a = take 4 mem" define b where "b = take 4 (drop 4 mem)"
  define c where "c = take 8 (drop 8 mem)" define d where "d = drop 16 mem"
  have mem: "mem = a @ b @ c @ d"
    using append_take_drop_id [of 8 "drop 8 mem"] append_take_drop_id [of 4 "drop 4 mem"]
    by (simp add: a_def b_def c_def d_def)
  have len: "length a = 4" "length b = 4" "length c = 8" "unat (rd_size pf) = 16 + length d"
    using s(2) e(2) by (simp_all add: a_def b_def c_def d_def)
  let ?fill = "replicate (length d) DEBUG_PRINT_BUFFER_DFT_VALUE"
  let ?m1 = "mem32 RAM_DEBUG_HEADER_ID @ b @ c @ d" and ?m2 = "mem32 RAM_DEBUG_HEADER_ID @ mem32 0 @ c @ d"
  let ?m3 = "mem32 RAM_DEBUG_HEADER_ID @ mem32 0 @ c @ ?fill"
  have w1: "MmioWrite32 pf mem 0 RAM_DEBUG_HEADER_ID = Returned ?m1" and w2: "MmioWrite32 pf ?m1 4 0 = Returned ?m2"
    using s(3) len by (simp_all add: MmioWrite32_def overwrite_def mem)
  have w3: "fill_default pf ?m2 16 (unat (DEBUG_PRINT_BUFFER_SIZE pf)) = Returned ?m3"
    using s(3) len buffer_size [OF assms(1)] by (simp add: fill_default_result overwrite_def)
  have r: "MmioRead32 mem 0 = Returned (load32 mem)" "MmioRead32 ?m1 0 = Returned RAM_DEBUG_HEADER_ID" "MmioRead32 ?m3 4 = Returned 0"
    using len by (simp_all add: MmioRead32_def slice_Some mem load32_append)
  have "RamDebugGetLatestIndex pf mem = Returned (Inr 0, ?m3)"
    using s(1) assms(1) False by (simp add: RamDebugGetLatestIndex_def usable_def r w1 w2 w3 Let_def)
  moreover have "log_region pf [] ?m3"
    using len by (simp add: log_region_def load32_append)
  ultimately show ?thesis using e(1) by auto
qed

text \<open>
  Storing a record behind the others, when there is room, and removing the oldest until there is.
\<close>

lemma region_parts:
  assumes "log_region pf rs mem"
  obtains a where "length a = 8" "mem = mem32 RAM_DEBUG_HEADER_ID @ mem32 (word_of_nat (room rs)) @ a @ encode rs @
    replicate (unat (rd_size pf) - 16 - room rs) DEBUG_PRINT_BUFFER_DFT_VALUE"
proof
  have l: "16 \<le> length mem" "length mem = unat (rd_size pf)" using assms by (auto simp: log_region_def)
  show "length (take 8 (drop 8 mem)) = 8" using l by simp
  have "take 4 mem = mem32 RAM_DEBUG_HEADER_ID" "take 4 (drop 4 mem) = mem32 (word_of_nat (room rs))"
    using assms l mem_load(2) [of "take 4 mem"] mem_load(2) [of "take 4 (drop 4 mem)"] by (auto simp: log_region_def load32_def)
  with append_take_drop_id [of 8 "drop 8 mem"] append_take_drop_id [of 4 "drop 4 mem"] append_take_drop_id [of 4 mem] assms
  show "mem = mem32 RAM_DEBUG_HEADER_ID @ mem32 (word_of_nat (room rs)) @ take 8 (drop 8 mem) @ encode rs @
    replicate (unat (rd_size pf) - 16 - room rs) DEBUG_PRINT_BUFFER_DFT_VALUE"
    by (simp add: log_region_def)
qed

lemma region_of_parts:
  assumes "length a = 8" "room rs + 16 \<le> unat (rd_size pf)" "\<forall>r\<in>set rs. 0 \<notin> set r"
  shows "log_region pf rs (mem32 RAM_DEBUG_HEADER_ID @ mem32 (word_of_nat (room rs)) @ a @ encode rs @
    replicate (unat (rd_size pf) - 16 - room rs) DEBUG_PRINT_BUFFER_DFT_VALUE)"
  using assms by (simp add: log_region_def load32_append)

text \<open>
  Cleaning up leaves the records that are kept and the default value; the index in the header is
  written later.
\<close>

definition region :: "ram_debug \<Rightarrow> u32 \<Rightarrow> bytes \<Rightarrow> bytes list \<Rightarrow> bytes" where
  "region pf index a rs = mem32 RAM_DEBUG_HEADER_ID @ mem32 index @ a @ encode rs @
     replicate (unat (rd_size pf) - 16 - room rs) DEBUG_PRINT_BUFFER_DFT_VALUE"

lemma clean_up_result:
  assumes "usable pf" "length a = 8" "\<forall>r\<in>set rs. 0 \<notin> set r" "room rs + 16 \<le> unat (rd_size pf)"
    and "unat new + 16 \<le> unat (rd_size pf)"
  defines "kept \<equiv> newest (unat (rd_size pf) - 16 - unat new) rs"
  shows "RamDebugCleanUp pf new (word_of_nat (room rs)) (region pf index a rs) =
    Returned (word_of_nat (room kept), region pf index a kept)"
proof -
  define B where "B = unat (rd_size pf) - 16"
  obtain old where old: "rs = old @ kept" unfolding kept_def using newest_suffix by blast
  have B: "unat (rd_size pf) = 16 + B" "room rs \<le> B" "B < 2 ^ 31" "unat (DEBUG_PRINT_BUFFER_SIZE pf) = B" "room old + room kept = room rs"
    using assms(1,4) buffer_size [OF assms(1)] old by (auto simp: usable_def B_def)
  have small: "unat (word_of_nat n :: u32) = n" "unat (ucast (word_of_nat n :: u32) :: u64) = n" if "n \<le> B" for n
    using that B(3) by (simp_all add: unat_of_nat unsigned_ucast_eq take_bit_eq_mod)
  have le: "room old \<le> B" "room kept \<le> B" using B(2,5) by simp_all
  have sub: "unat (DEBUG_PRINT_BUFFER_SIZE pf - ucast (word_of_nat n :: u32)) = B - n" if "n \<le> B" for n
    using that B(4) small(2) [OF that] by (simp add: unat_sub word_le_nat_alt)
  then have remained: "ucast (DEBUG_PRINT_BUFFER_SIZE pf - ucast (word_of_nat (room rs) :: u32)) = (word_of_nat (B - room rs) :: u32)"
    using B(2,3) by (simp add: word_unat_eq_iff unsigned_ucast_eq take_bit_eq_mod unat_of_nat del: of_nat_diff)
  have scan: "scan_records (encode rs @ replicate (B - room rs) DEBUG_PRINT_BUFFER_DFT_VALUE) (word_of_nat (B - room rs)) 0 new =
      Returned (word_of_nat (room old))"
  proof -
    have "B - room rs + room rs - unat new = unat (rd_size pf) - 16 - unat new" using B(1,2) by simp
    moreover have "room rs - room kept = room old" using B(5) by simp
    moreover have "unat new \<le> B - room rs + room rs" "B - room rs + room rs < 2 ^ 32" using assms(5) B(1,2,3) by simp_all
    ultimately show ?thesis using scan_records_result [OF assms(3), of new "B - room rs" _ 0] by (simp add: kept_def)
  qed
  have diff: "(word_of_nat (room rs) :: u32) - word_of_nat (room old) = word_of_nat (room kept)" using old by simp
  have w: "\<not> rd_read_only pf" using assms(1) by (simp add: usable_def)
  have shape: "region pf index a rs = (mem32 RAM_DEBUG_HEADER_ID @ mem32 index @ a) @ encode old @ encode kept @
      replicate (B - room rs) DEBUG_PRINT_BUFFER_DFT_VALUE"
  proof -
    have "encode rs = encode old @ encode kept" using old by (metis encode_simps(3))
    then show ?thesis by (simp add: region_def B_def)
  qed
  have size: "length (region pf index a rs) = 16 + B" using B(2,5) assms(2) by (simp add: shape)
  have "take (room kept) (drop (16 + room old) (region pf index a rs)) = encode kept" using assms(2) by (simp add: shape)
  then have move: "move_forward pf (region pf index a rs) (16 + room old) 16 (room kept) =
      Returned (overwrite 16 (encode kept) (region pf index a rs))"
    using move_forward_result [OF w, of 16 "16 + room old" "room kept" "region pf index a rs"] B(2,5) size by simp
  let ?m = "overwrite 16 (encode kept) (region pf index a rs)"
  have "length ?m = 16 + B" using le(2) size by simp
  moreover have "take (16 + room kept) ?m = mem32 RAM_DEBUG_HEADER_ID @ mem32 index @ a @ encode kept"
    using assms(2) by (simp add: overwrite_def shape)
  ultimately have fill: "fill_default pf ?m (16 + room kept) (B - room kept) = Returned (region pf index a kept)"
    using fill_default_result [OF w, of "16 + room kept" "B - room kept" ?m] le(2)
    by (simp add: overwrite_def [of "16 + room kept"] region_def B_def)
  have "drop 16 (region pf index a rs) = encode rs @ replicate (B - room rs) DEBUG_PRINT_BUFFER_DFT_VALUE"
    using assms(2) by (simp add: region_def B_def)
  then show ?thesis
    by (simp add: RamDebugCleanUp_def remained scan small le diff sub move fill Let_def del: of_nat_diff)
qed

text \<open>Printing a record keeps the newest records that fit, whatever there was.\<close>

lemma print_result:
  assumes "usable pf" "log_holds pf rs mem" "cmos \<noteq> RAM_DEBUG_DISABLE" "0 \<notin> set msg" "unat size0 = length msg"
    and "Suc (length msg) + 16 \<le> unat (rd_size pf)"
  shows "\<exists>m. RamDebugPrint pf cmos (msg @ 0 # rest) size0 mem = Returned m \<and>
    log_region pf (newest (unat (rd_size pf) - 16) (rs @ [msg])) m"
proof -
  define B where "B = unat (rd_size pf) - 16"
  have B: "unat (rd_size pf) = 16 + B" "B < 2 ^ 31" "unat (DEBUG_PRINT_BUFFER_SIZE pf) = B" "Suc (length msg) \<le> B"
    using assms(1,6) buffer_size [OF assms(1)] by (auto simp: usable_def B_def)
  have w: "\<not> rd_read_only pf" using assms(1) by (simp add: usable_def)
  obtain m1 where m1: "RamDebugGetLatestIndex pf mem = Returned (Inr (word_of_nat (room rs)), m1)" "log_region pf rs m1"
    using latest_index_result [OF assms(1,2)] by blast
  obtain a where a: "length a = 8" "m1 = region pf (word_of_nat (room rs)) a rs"
    using region_parts [OF m1(2)] by (auto simp: region_def)
  have rs: "room rs \<le> B" "room rs + 16 \<le> unat (rd_size pf)" "\<forall>r\<in>set rs. 0 \<notin> set r"
    using m1(2) B(1) by (auto simp: log_region_def)
  define t0 where "t0 = (ucast size0 + 1 :: u32)"
  have c: "ucast size0 = (word_of_nat (length msg) :: u32)" unfolding assms(5) [symmetric] by (rule of_nat_unat [symmetric])
  then have t: "t0 = word_of_nat (Suc (length msg))" by (simp add: t0_def)
  have small: "unat (word_of_nat n :: u32) = n" "unat (ucast (word_of_nat n :: u32) :: u64) = n" if "n < 2 ^ 32" for n
    using that by (simp_all add: unat_of_nat unsigned_ucast_eq take_bit_eq_mod)
  have sum: "word_of_nat n + t0 = word_of_nat (n + Suc (length msg))" for n by (simp add: t ac_simps)
  define kept where "kept = newest (B - Suc (length msg)) rs"
  have kept: "room kept + Suc (length msg) \<le> B" "newest B (rs @ [msg]) = kept @ [msg]" "\<forall>r\<in>set kept. 0 \<notin> set r"
    using newest_fits [of "B - Suc (length msg)" rs] B(4) newest_snoc [of msg B rs] rs(3) newest_suffix [of rs "B - Suc (length msg)"]
    unfolding kept_def by (simp, simp, metis Un_iff set_append)
  have clean: "(if ucast (word_of_nat (room rs) + t0) > DEBUG_PRINT_BUFFER_SIZE pf
      then RamDebugCleanUp pf (ucast t0) (word_of_nat (room rs)) m1 else Returned (word_of_nat (room rs), m1)) =
    Returned (word_of_nat (room kept), region pf (word_of_nat (room rs)) a kept)"
  proof (cases "room rs + Suc (length msg) \<le> B")
    case True
    then have "kept = rs" unfolding kept_def by (intro newest_all) simp
    moreover have "\<not> ucast (word_of_nat (room rs) + t0) > DEBUG_PRINT_BUFFER_SIZE pf"
      using True B(2,3) small(2) [of "room rs + Suc (length msg)"] by (simp add: sum not_less word_le_nat_alt del: of_nat_add of_nat_Suc)
    ultimately show ?thesis using a(2) by simp
  next
    case False
    then have "ucast (word_of_nat (room rs) + t0) > DEBUG_PRINT_BUFFER_SIZE pf"
      using rs(1) B small(2) [of "room rs + Suc (length msg)"] by (simp add: sum word_less_nat_alt del: of_nat_add of_nat_Suc)
    moreover have "unat (ucast t0 :: u64) = Suc (length msg)" using B(2,4) small(2) [of "Suc (length msg)"] by (simp only: t) simp
    ultimately show ?thesis
      using clean_up_result [OF assms(1) a(1) rs(3,2), of "ucast t0" "word_of_nat (room rs)"] assms(6) a(2)
      by (simp add: kept_def B_def)
  qed
  define e0 where "e0 = (word_of_nat (room (kept @ [msg])) :: u32)"
  have fits: "ucast (word_of_nat (room kept) + t0) \<le> DEBUG_PRINT_BUFFER_SIZE pf" "word_of_nat (room kept) + t0 = e0"
    using kept(1) B(2,3) small(2) [of "room kept + Suc (length msg)"] by (simp_all add: sum e0_def word_le_nat_alt del: of_nat_add of_nat_Suc)
  have store: "store_octets pf (region pf (word_of_nat (room rs)) a kept) (16 + room kept) (msg @ [0]) =
      Returned (region pf (word_of_nat (room rs)) a (kept @ [msg]))"
    using w a(1) kept(1) B by (subst store_octets_result) (simp_all add: region_def overwrite_def B_def [symmetric])
  have index: "MmioWrite32 pf (region pf (word_of_nat (room rs)) a (kept @ [msg])) 4 e0 = Returned (region pf e0 a (kept @ [msg]))"
    using w by (simp add: MmioWrite32_def region_def overwrite_def)
  have "\<not> size0 > DEBUG_PRINT_BUFFER_SIZE pf" using B(3,4) assms(5) by (simp add: not_less word_le_nat_alt)
  moreover have "unat t0 = Suc (length msg)" using B(2,4) small(1) [of "Suc (length msg)"] by (simp only: t) simp
  ultimately have "RamDebugPrint pf cmos (msg @ 0 # rest) size0 mem = Returned (region pf e0 a (kept @ [msg]))"
    using assms(3) fits small(1) [of "room kept"] kept(1) B(2)
    by (simp add: RamDebugPrint_def m1(1) Let_def t0_def [symmetric] clean slice_Some store index)
  moreover have "log_region pf (kept @ [msg]) (region pf e0 a (kept @ [msg]))"
    using region_of_parts [OF a(1), of "kept @ [msg]" pf] kept(1,3) B(1) assms(4) by (simp add: region_def e0_def)
  ultimately show ?thesis using kept(2) by (simp add: B_def)
qed

text \<open>A sequence of messages, each with its terminator, printed one after the other.\<close>

primrec print_messages :: "ram_debug \<Rightarrow> u8 \<Rightarrow> bytes list \<Rightarrow> bytes \<Rightarrow> bytes outcome" where
  "print_messages pf cmos [] mem = Returned mem"
| "print_messages pf cmos (m # ms) mem =
     obind (RamDebugPrint pf cmos (m @ [0]) (word_of_nat (length m)) mem) (print_messages pf cmos ms)"

lemma print_messages_result:
  assumes "usable pf" "cmos \<noteq> RAM_DEBUG_DISABLE" "log_holds pf (newest (unat (rd_size pf) - 16) old) mem"
    and "\<forall>m\<in>set msgs. 0 \<notin> set m \<and> length m + 16 < unat (rd_size pf)"
  shows "\<exists>m. print_messages pf cmos msgs mem = Returned m \<and> log_holds pf (newest (unat (rd_size pf) - 16) (old @ msgs)) m"
  using assms(3,4)
proof (induction msgs arbitrary: old mem)
  case (Cons msg msgs)
  then have msg: "0 \<notin> set msg" "length msg + 16 < unat (rd_size pf)" by simp_all
  have "unat (word_of_nat (length msg) :: u64) = length msg"
    using msg(2) assms(1) by (simp add: unat_of_nat usable_def)
  from print_result [OF assms(1) Cons.prems(1) assms(2) msg(1) this, of "[]"] msg(2) obtain m where m:
    "RamDebugPrint pf cmos (msg @ [0]) (word_of_nat (length msg)) mem = Returned m"
    "log_holds pf (newest (unat (rd_size pf) - 16) (old @ [msg])) m"
    by (auto simp: newest_newest_snoc log_holds_def)
  from Cons.IH [OF m(2)] Cons.prems(2) show ?case by (simp add: m(1))
qed simp

text \<open>
  C13: the log always holds the newest messages: printing any sequence of messages that fit into the
  buffer one by one returns, stays in the region, and leaves the longest suffix of all the messages
  so far that fits, each with its terminator, behind a matching header.
\<close>
theorem log_keeps_newest:
  assumes "usable pf" "cmos \<noteq> RAM_DEBUG_DISABLE" "log_holds pf (newest (unat (rd_size pf) - 16) old) mem"
    and "\<forall>m\<in>set msgs. 0 \<notin> set m \<and> length m + 16 < unat (rd_size pf)"
  shows "\<exists>m. print_messages pf cmos msgs mem = Returned m \<and> log_holds pf (newest (unat (rd_size pf) - 16) (old @ msgs)) m"
  by (rule print_messages_result [OF assms])

definition small_log :: ram_debug where "small_log = \<lparr>rd_base = 0x1000, rd_size = 24, rd_read_only = False\<rparr>"

theorem log_keeps_newest_witness:
  "\<exists>m. print_messages small_log 0xFF [[1, 2, 3], [4, 5], [6, 7, 8]] (replicate 24 0xFF) = Returned m \<and>
     log_holds small_log [[4, 5], [6, 7, 8]] m"
proof -
  have "replicate 4 x = [x, x, x, x]" for x :: u8 by (simp add: eval_nat_numeral)
  then have "load32 (replicate 24 0xFF) \<noteq> RAM_DEBUG_HEADER_ID"
    by (simp add: load32_def RAM_DEBUG_HEADER_ID_def)
  then have "log_holds small_log (newest (unat (rd_size small_log) - 16) []) (replicate 24 0xFF)"
    by (simp add: log_holds_def small_log_def)
  from log_keeps_newest [OF _ _ this, where msgs = "[[1, 2, 3], [4, 5], [6, 7, 8]]" and cmos = "0xFF"] show ?thesis
    by (simp add: usable_def small_log_def RAM_DEBUG_DISABLE_def)
qed

subsection \<open>What goes wrong\<close>

lemma scan_records_leaves:
  assumes "\<forall>r\<in>set rs. 0 \<notin> set r" "0 \<notin> set rest" "x + room rs < unat new" "x + room rs < 2 ^ 32"
  shows "scan_records (encode rs @ rest) (word_of_nat x) offset new = Faulted"
  using assms
proof (induction rs arbitrary: x offset)
  case Nil
  then have "ucast (word_of_nat x :: u32) < new" by (simp add: word_less_nat_alt unsigned_ucast_eq unat_of_nat take_bit_eq_mod)
  with Nil show ?case by (simp add: scan_records.simps record_size_open)
next
  case (Cons r rs)
  have "ucast (word_of_nat x :: u32) < new"
    using Cons.prems(3,4) by (simp add: word_less_nat_alt unsigned_ucast_eq unat_of_nat take_bit_eq_mod)
  moreover have "scan_records (encode rs @ rest) (word_of_nat (x + Suc (length r))) (offset + word_of_nat (Suc (length r))) new = Faulted"
    using Cons.prems by (intro Cons.IH) simp_all
  ultimately show ?case
    using Cons.prems(1) by (subst scan_records.simps) (simp add: record_size_encoded ac_simps)
qed

text \<open>
  A message as long as the buffer passes the first check although its terminator has no room: making
  room for it searches for records behind the last one and leaves the region.
\<close>

theorem full_message_leaves_region:
  assumes "usable pf" "log_holds pf rs mem" "cmos \<noteq> RAM_DEBUG_DISABLE" "size0 = DEBUG_PRINT_BUFFER_SIZE pf"
  shows "RamDebugPrint pf cmos buffer size0 mem = Faulted"
proof -
  define B where "B = unat (rd_size pf) - 16"
  have B: "unat (rd_size pf) = 16 + B" "B < 2 ^ 31" "unat (DEBUG_PRINT_BUFFER_SIZE pf) = B"
    using assms(1) buffer_size [OF assms(1)] by (auto simp: usable_def B_def)
  obtain m1 where m1: "RamDebugGetLatestIndex pf mem = Returned (Inr (word_of_nat (room rs)), m1)" "log_region pf rs m1"
    using latest_index_result [OF assms(1,2)] by blast
  have rs: "room rs \<le> B" "\<forall>r\<in>set rs. 0 \<notin> set r"
    "drop 16 m1 = encode rs @ replicate (B - room rs) DEBUG_PRINT_BUFFER_DFT_VALUE"
    using m1(2) B(1) by (auto simp: log_region_def)
  define t0 where "t0 = (ucast size0 + 1 :: u32)"
  have t: "unat t0 = Suc B" "unat (ucast t0 :: u64) = Suc B"
    using B(2,3) assms(4) by (simp_all add: t0_def unat_word_ariths unsigned_ucast_eq take_bit_eq_mod)
  have "ucast (word_of_nat (room rs) + t0) > DEBUG_PRINT_BUFFER_SIZE pf"
    using B(2,3) t(1) rs(1) by (simp add: word_less_nat_alt unsigned_ucast_eq take_bit_eq_mod unat_word_ariths unat_of_nat)
  moreover have "unat (ucast (word_of_nat (room rs) :: u32) :: u64) = room rs"
    using B(2) rs(1) by (simp add: unsigned_ucast_eq unat_of_nat take_bit_eq_mod)
  then have "ucast (DEBUG_PRINT_BUFFER_SIZE pf - ucast (word_of_nat (room rs) :: u32)) = (word_of_nat (B - room rs) :: u32)"
    using B(2,3) rs(1)
    by (simp add: word_unat_eq_iff unsigned_ucast_eq take_bit_eq_mod unat_of_nat unat_sub word_le_nat_alt del: of_nat_diff)
  moreover have "scan_records (drop 16 m1) (word_of_nat (B - room rs)) 0 (ucast t0) = Faulted"
    unfolding rs(3) using rs(1,2) B(2) t(2)
    by (intro scan_records_leaves) (auto simp: DEBUG_PRINT_BUFFER_DFT_VALUE_def)
  moreover have "\<not> size0 > DEBUG_PRINT_BUFFER_SIZE pf" using assms(4) by simp
  ultimately show ?thesis
    using assms(3) by (simp add: RamDebugPrint_def m1(1) t0_def [symmetric] Let_def RamDebugCleanUp_def del: of_nat_diff)
qed

end
