(* ===== verification/HexToBin.thy ===== *)
theory HexToBin
  imports EfiShell
begin

text \<open>
  \<open>Application/HexToBin\<close>: conversion of an Intel HEX file to a binary file.

  Pointers into the file and into the line buffer are the lists of what is at and behind them; a read
  behind the 256 octets of the line buffer and a write behind the buffer of the binary are \<open>Faulted\<close>.
  Of what is printed, the lines with a wrong checksum are part of the result.
\<close>

definition MAX_LINE_LENGTH :: nat where "MAX_LINE_LENGTH = 256"
definition INTEL_HEX_START_CODE :: u8 where "INTEL_HEX_START_CODE = 0x3A"

subsection \<open>Digits and lines\<close>

definition IntelHexCharToHex :: "u8 \<Rightarrow> u8" where
  "IntelHexCharToHex c =
     (if c \<ge> 0x30 \<and> c \<le> 0x39 then c - 0x30
      else if c \<ge> 0x61 \<and> c \<le> 0x66 then c - 0x61 + 10
      else if c \<ge> 0x41 \<and> c \<le> 0x46 then c - 0x41 + 10
      else 0)"

definition IntelHexGetByte :: "bytes \<Rightarrow> u8 outcome" where
  "IntelHexGetByte p = obind (checked (slice 0 2 p)) (\<lambda>c.
     Returned (push_bit 4 (IntelHexCharToHex (c ! 0)) OR IntelHexCharToHex (c ! 1)))"

definition IntelHexGetWord :: "bytes \<Rightarrow> u16 outcome" where
  "IntelHexGetWord p = obind (IntelHexGetByte p) (\<lambda>hi. obind (IntelHexGetByte (drop 2 p)) (\<lambda>lo.
     Returned (push_bit 8 (ucast hi) OR ucast lo)))"

text \<open>The loop that looks for a line break: how many octets there are before it.\<close>

fun before_break :: "bytes \<Rightarrow> nat" where
  "before_break [] = 0"
| "before_break (c # cs) = (if c = 0x0D \<or> c = 0x0A then 0 else Suc (before_break cs))"

text \<open>\<open>buffer\<close> is not empty; the result is the length of the line and the line buffer.\<close>

definition line_length :: "bytes \<Rightarrow> nat" where
  "line_length buffer =
     (let n = before_break buffer in
      if n \<ge> length buffer - 1 then length buffer
      else if buffer ! (n + 1) = 0x0A then n + 2
      else n + 1)"

definition IntelHexGetLine :: "bytes \<Rightarrow> nat \<Rightarrow> EFI_STATUS + nat \<times> bytes" where
  "IntelHexGetLine buffer line_size =
     (let n = line_length buffer in
      if n > line_size then Inl EFI_BUFFER_TOO_SMALL
      else Inr (n, take n buffer @ replicate (line_size - n) 0))"

lemma line_length_bounds: "buffer \<noteq> [] \<Longrightarrow> 0 < line_length buffer \<and> line_length buffer \<le> length buffer"
  by (auto simp: line_length_def Let_def)

subsection \<open>Records\<close>

text \<open>The buffer of the binary, \<open>BinLength\<close> and the lines with a wrong checksum.\<close>

record hex_state =
  hx_buffer :: bytes
  hx_length :: u64
  hx_errors :: "u64 list"

text \<open>The loop over the data of a record: \<open>n\<close> octets are left.  The result has the pointer behind them and the sum.\<close>

fun put_data :: "nat \<Rightarrow> bytes \<Rightarrow> u64 \<Rightarrow> hex_state \<Rightarrow> (bytes \<times> u64 \<times> hex_state) outcome" where
  "put_data 0 p acc st = Returned (p, acc, st)"
| "put_data (Suc n) p acc st =
     obind (IntelHexGetByte p) (\<lambda>data.
       if unat (hx_length st) < length (hx_buffer st) then
         put_data n (drop 2 p) (acc + ucast data)
           (st\<lparr>hx_buffer := (hx_buffer st)[unat (hx_length st) := data], hx_length := hx_length st + 1\<rparr>)
       else Faulted)"

text \<open>
  A record from its start code on.  \<open>None\<close> is a record without data, which ends the conversion; the
  other results are the status of it and the state.
\<close>

definition hex_record :: "u64 \<Rightarrow> bytes \<Rightarrow> hex_state \<Rightarrow> (EFI_STATUS \<times> hex_state) option outcome" where
  "hex_record line_number line st =
     (let p = drop 1 line in
      obind (IntelHexGetByte p) (\<lambda>byte_count.
        if byte_count = 0 then Returned None
        else let p = drop 2 p in
          obind (IntelHexGetWord p) (\<lambda>address.
          obind (IntelHexGetByte p) (\<lambda>a1. obind (IntelHexGetByte (drop 2 p)) (\<lambda>a2.
          let p = drop 4 p in
          obind (IntelHexGetByte p) (\<lambda>type.
          let acc = ucast byte_count + ucast a1 + ucast a2 + ucast type :: u64; p = drop 2 p in
          if type = 0 then
            obind (put_data (unat byte_count) p acc (st\<lparr>hx_length := ucast address\<rparr>)) (\<lambda>(p, acc, st').
            obind (IntelHexGetByte p) (\<lambda>c.
              Returned (Some (EFI_SUCCESS,
                if (acc + ucast c) AND 0xFF \<noteq> 0 then st'\<lparr>hx_errors := hx_errors st' @ [line_number]\<rparr> else st'))))
          else if type \<le> 5 then Returned (Some (EFI_SUCCESS, st))
          else Returned (Some (EFI_UNSUPPORTED, st))))))))"

text \<open>
  The loop over the lines.  On a line that is too long the code frees \<open>PtrLine\<close>, which points into the
  line buffer or nowhere: an assertion of the pool.
\<close>

function hex_lines :: "bytes \<Rightarrow> u64 \<Rightarrow> hex_state \<Rightarrow> (EFI_STATUS \<times> hex_state) outcome" where
  "hex_lines source line_number st =
     (if source = [] then Returned (EFI_SUCCESS, st)
      else (case IntelHexGetLine source MAX_LINE_LENGTH of
          Inl status \<Rightarrow> Aborted
        | Inr (n, line) \<Rightarrow>
            obind (hex_record line_number line st) (\<lambda>r. case r of
                None \<Rightarrow> Returned (EFI_SUCCESS, st)
              | Some (status, st') \<Rightarrow>
                  if status \<noteq> EFI_SUCCESS then Returned (status, st')
                  else hex_lines (drop n source) (line_number + 1) st')))"
  by pat_completeness auto
termination
  by (relation "measure (\<lambda>(source, line_number, st). length source)")
    (auto simp: IntelHexGetLine_def Let_def line_length_bounds split: if_splits)

declare hex_lines.simps [simp del]

text \<open>\<open>junk\<close> is what \<open>BinLength\<close> holds before it is written.  The result is the buffer, the size and the bad lines.\<close>

definition ProcessIntelHexFile ::
  "'w alloc \<Rightarrow> u64 \<Rightarrow> bytes \<Rightarrow> 'w \<Rightarrow> ((EFI_STATUS + bytes \<times> u64 \<times> u64 list) \<times> 'w) outcome" where
  "ProcessIntelHexFile A junk data w =
     (case A MAX_LINE_LENGTH w of (ok, w1) \<Rightarrow>
      if \<not> ok then Returned (Inl EFI_OUT_OF_RESOURCES, w1)
      else case A (length data) w1 of (ok, w2) \<Rightarrow>
      if \<not> ok then Returned (Inl EFI_OUT_OF_RESOURCES, w2)
      else obind (hex_lines data 0 \<lparr>hx_buffer = replicate (length data) 0xFF, hx_length = junk, hx_errors = []\<rparr>)
        (\<lambda>(status, st). Returned (if EFI_ERROR status then Inl status
           else Inr (hx_buffer st, hx_length st, hx_errors st), w2)))"

definition HexToBinMain ::
  "('f, 'w) shell \<Rightarrow> u64 \<Rightarrow> ustring list \<Rightarrow> 'w \<Rightarrow> ((EFI_STATUS \<times> u64 list) \<times> 'w) outcome" where
  "HexToBinMain sh junk args w =
     (if length args = 1 then Returned ((EFI_INVALID_PARAMETER, []), w)
      else if length args = 2 \<and> args ! 1 \<in> set (map wide [''-h'', ''-H'', ''/h'', ''/H'']) then
        Returned ((EFI_INVALID_PARAMETER, []), w)
      else if length args = 3 then
        (case ReadFileFromDisk sh (args ! 1) w of (r, w1) \<Rightarrow> case r of
            Inl status \<Rightarrow> Returned ((status, []), w1)
          | Inr data \<Rightarrow>
              obind (ProcessIntelHexFile (sh_alloc sh) junk data w1) (\<lambda>(r, w2). case r of
                  Inl status \<Rightarrow> Returned ((status, []), w2)
                | Inr (bin, size0, bad) \<Rightarrow>
                    obind (SaveFileToDisk sh (args ! 2) size0 bin w2) (\<lambda>(status, w3).
                      Returned ((if EFI_ERROR status then status else EFI_SUCCESS, bad), w3))))
      else Returned ((0, []), w))"

subsection \<open>Files to convert\<close>

text \<open>
  The text of an Intel HEX file: records of hexadecimal digits with a checksum that makes the sum of
  a record zero, the data of consecutive addresses, and the record that ends the file.
\<close>

definition hex_digit :: "u8 \<Rightarrow> u8" where "hex_digit n = (if n < 10 then 0x30 + n else 0x37 + n)"

definition hex_octet :: "u8 \<Rightarrow> bytes" where "hex_octet b = [hex_digit (drop_bit 4 b), hex_digit (take_bit 4 b)]"

definition hex_octets :: "bytes \<Rightarrow> bytes" where "hex_octets bs = concat (map hex_octet bs)"

definition record_octets :: "u8 \<Rightarrow> u16 \<Rightarrow> bytes \<Rightarrow> bytes" where
  "record_octets type address d = word_of_nat (length d) # ucast (drop_bit 8 address) # ucast address # type # d"

definition record_text :: "u8 \<Rightarrow> u16 \<Rightarrow> bytes \<Rightarrow> bytes" where
  "record_text type address d =
     0x3A # hex_octets (record_octets type address d @ [- sum_list (record_octets type address d)])"

fun hex_text :: "bytes \<Rightarrow> nat \<Rightarrow> bytes list \<Rightarrow> bytes" where
  "hex_text eol pos [] = record_text 1 0 [] @ eol"
| "hex_text eol pos (d # ds) = record_text 0 (word_of_nat pos) d @ eol @ hex_text eol (pos + length d) ds"

subsection \<open>Reading what is written\<close>

lemma nibble_cases: "n < 16 \<Longrightarrow> n \<in> {0, 1, 2, 3, 4, 5, 6, 7, 8, 9, 10, 11, 12, 13, 14, 15}" for n :: u8
proof -
  assume "n < 16"
  then have "unat n < 16" by (simp add: word_less_nat_alt)
  then have "unat n = 0 \<or> unat n = 1 \<or> unat n = 2 \<or> unat n = 3 \<or> unat n = 4 \<or> unat n = 5 \<or> unat n = 6 \<or> unat n = 7 \<or>
    unat n = 8 \<or> unat n = 9 \<or> unat n = 10 \<or> unat n = 11 \<or> unat n = 12 \<or> unat n = 13 \<or> unat n = 14 \<or> unat n = 15"
    by presburger
  then show ?thesis by (simp add: word_unat_eq_iff)
qed

lemma hex_digit_read: "n < 16 \<Longrightarrow> IntelHexCharToHex (hex_digit n) = n \<and> hex_digit n \<noteq> 0x0D \<and> hex_digit n \<noteq> 0x0A"
  by (drule nibble_cases, elim insertE emptyE; hypsubst) (simp_all add: hex_digit_def IntelHexCharToHex_def)

lemma octet_nibbles: "drop_bit 4 b < 16" "take_bit 4 b < 16" "push_bit 4 (drop_bit 4 b) OR take_bit 4 b = b" for b :: u8
proof -
  have "unat b < 256" using unsigned_less [of b, where ?'a = nat] by simp
  then show "drop_bit 4 b < 16" by (simp add: word_less_nat_alt drop_bit_eq_div unat_div)
  show "take_bit 4 b < 16" by (simp add: word_less_nat_alt take_bit_eq_mod unat_mod)
  show "push_bit 4 (drop_bit 4 b) OR take_bit 4 b = b" by (rule bit_eqI) (auto simp: bit_simps)
qed

lemma get_byte_octet [simp]: "IntelHexGetByte (hex_octet b @ rest) = Returned b"
  by (simp add: IntelHexGetByte_def hex_octet_def slice_def hex_digit_read octet_nibbles)

lemma drop_octet [simp]: "drop 2 (hex_octet b @ rest) = rest" "length (hex_octet b) = 2"
  by (simp_all add: hex_octet_def)

lemma hex_octets_simps [simp]: "hex_octets [] = []" "hex_octets (b # bs) = hex_octet b @ hex_octets bs"
    "hex_octets (bs @ cs) = hex_octets bs @ hex_octets cs"
  by (simp_all add: hex_octets_def)

lemma length_hex_octets [simp]: "length (hex_octets bs) = 2 * length bs"
  by (induction bs) simp_all

lemma get_word_octets [simp]:
  "IntelHexGetWord (hex_octet (ucast (drop_bit 8 a)) @ hex_octet (ucast a) @ rest) = Returned a"
proof -
  have "push_bit 8 (ucast (ucast (drop_bit 8 a) :: u8)) OR ucast (ucast a :: u8) = a"
    by (rule bit_eqI) (auto simp: bit_simps)
  then show ?thesis by (simp add: IntelHexGetWord_def)
qed

lemma before_break_octets: "before_break (hex_octets bs @ rest) = 2 * length bs + before_break rest"
  by (induction bs) (simp_all add: hex_octet_def hex_digit_read octet_nibbles)

text \<open>A line end, and the line that it ends.\<close>

definition line_end :: "bytes \<Rightarrow> bool" where
  "line_end eol \<longleftrightarrow> eol = [0x0D, 0x0A] \<or> eol = [0x0A] \<or> eol = [0x0D]"

lemma record_line:
  assumes "line_end eol" "rest = [] \<or> hd rest = 0x3A" "length (record_text type a d) + length eol \<le> 256"
  shows "IntelHexGetLine (record_text type a d @ eol @ rest) 256 =
    Inr (length (record_text type a d) + length eol,
      record_text type a d @ eol @ replicate (256 - (length (record_text type a d) + length eol)) 0)"
proof -
  let ?t = "record_text type a d"
  have b: "before_break (?t @ eol @ rest) = length ?t"
    unfolding record_text_def append_Cons before_break.simps before_break_octets using assms(1)
    by (auto simp: line_end_def)
  have "line_length (?t @ eol @ rest) = length ?t + length eol"
    using assms(1,2) b
    by (cases rest) (auto simp: line_length_def Let_def line_end_def nth_append)
  with assms(3) show ?thesis by (simp add: IntelHexGetLine_def Let_def)
qed

text \<open>The sum of a record as an octet.\<close>

definition ends_in :: "u64 \<Rightarrow> u8 \<Rightarrow> bool" where "ends_in acc b \<longleftrightarrow> ucast acc = b"

lemma ends_in_add: "ends_in acc b \<Longrightarrow> ends_in (acc + ucast c) (b + c)"
proof -
  assume "ends_in acc b"
  then have "unat acc mod 256 = unat b" by (auto simp: ends_in_def unsigned_ucast_eq take_bit_eq_mod)
  then have "(unat acc + unat c) mod 256 = (unat b + unat c) mod 256" by (metis mod_add_left_eq mod_mod_trivial)
  moreover have "unat (ucast c :: u64) = unat c" by (rule unat_ucast_up) simp
  ultimately show ?thesis
    by (simp add: ends_in_def word_unat_eq_iff unsigned_ucast_eq [of "_ + _"] unat_word_ariths take_bit_eq_mod mod_mod_cancel)
qed

lemma ends_in_octet: "ends_in (ucast c) c"
  unfolding ends_in_def by (rule bit_eqI) (auto simp: bit_simps)

lemma ends_in_mask: "ends_in acc b \<Longrightarrow> acc AND 0xFF = 0 \<longleftrightarrow> b = 0"
proof -
  assume e: "ends_in acc b"
  have "(0xFF :: u64) = mask 8" by (simp add: mask_eq_exp_minus_1)
  then have "acc AND 0xFF = take_bit 8 acc" by (simp add: take_bit_eq_mask)
  moreover have "uint (take_bit 8 acc) = uint b"
    using e by (auto simp: ends_in_def unsigned_take_bit_eq unsigned_ucast_eq)
  ultimately show ?thesis by (simp add: word_uint_eq_iff)
qed

lemma put_data_result:
  assumes "unat (hx_length st) + length d \<le> length (hx_buffer st)" "length (hx_buffer st) < 2 ^ 64" "ends_in acc b"
  shows "\<exists>acc'. put_data (length d) (hex_octets d @ rest) acc st = Returned (rest, acc',
      st\<lparr>hx_buffer := overwrite (unat (hx_length st)) d (hx_buffer st), hx_length := hx_length st + word_of_nat (length d)\<rparr>) \<and>
    ends_in acc' (b + sum_list d)"
  using assms
proof (induction d arbitrary: acc st b)
  case Nil
  then show ?case by simp
next
  case (Cons c d)
  let ?st = "st\<lparr>hx_buffer := (hx_buffer st)[unat (hx_length st) := c], hx_length := hx_length st + 1\<rparr>"
  have n: "unat (hx_length st + 1) = Suc (unat (hx_length st))" using Cons.prems(1,2) by (simp add: unat_word_ariths)
  with Cons.prems have p: "unat (hx_length ?st) + length d \<le> length (hx_buffer ?st)" "length (hx_buffer ?st) < 2 ^ 64" by simp_all
  from Cons.IH [OF p ends_in_add [OF Cons.prems(3), of c]] obtain acc' where
    "put_data (length d) (hex_octets d @ rest) (acc + ucast c) ?st = Returned (rest, acc',
       ?st\<lparr>hx_buffer := overwrite (unat (hx_length ?st)) d (hx_buffer ?st), hx_length := hx_length ?st + word_of_nat (length d)\<rparr>)"
    "ends_in acc' (b + c + sum_list d)" by blast
  with Cons.prems(1) n show ?case
    by (auto simp: overwrite_def take_Suc_conv_app_nth add.assoc)
qed

text \<open>A data record with any checksum \<open>k\<close>: the data is written in any case.\<close>

lemma data_record_any:
  assumes "d \<noteq> []" "length d < 256" "unat a + length d \<le> length (hx_buffer st)" "length (hx_buffer st) < 2 ^ 64"
  shows "hex_record n (0x3A # hex_octets (record_octets 0 a d @ [k]) @ rest) st = Returned (Some (EFI_SUCCESS,
    st\<lparr>hx_buffer := overwrite (unat a) d (hx_buffer st), hx_length := ucast a + word_of_nat (length d),
       hx_errors := hx_errors st @ (if sum_list (record_octets 0 a d) + k = 0 then [] else [n])\<rparr>))"
proof -
  let ?c = "word_of_nat (length d) :: u8" and ?a1 = "ucast (drop_bit 8 a) :: u8" and ?a2 = "ucast a :: u8"
  define acc where "acc = (ucast ?c + ucast ?a1 + ucast ?a2 :: u64)"
  have c: "unat ?c = length d" "?c \<noteq> 0" using assms(1,2) by (simp_all add: unat_of_nat word_unat_eq_iff)
  have line: "0x3A # hex_octets (record_octets 0 a d @ [k]) @ rest =
      0x3A # hex_octet ?c @ hex_octet ?a1 @ hex_octet ?a2 @ hex_octet 0 @ hex_octets d @ hex_octet k @ rest"
    by (simp add: record_octets_def)
  from ends_in_add [OF ends_in_add [OF ends_in_add [OF ends_in_octet [of ?c], of ?a1], of ?a2], of 0]
  have acc: "ends_in acc (?c + ?a1 + ?a2 + 0)" by (simp add: acc_def)
  have a: "unat (ucast a :: u64) = unat a" by (rule unat_ucast_up) simp
  let ?st = "st\<lparr>hx_length := ucast a\<rparr>"
  from put_data_result [of ?st d acc _ "hex_octet k @ rest"] acc assms(3,4) a obtain acc' where put:
    "put_data (length d) (hex_octets d @ hex_octet k @ rest) acc ?st = Returned (hex_octet k @ rest, acc',
      ?st\<lparr>hx_buffer := overwrite (unat a) d (hx_buffer st), hx_length := ucast a + word_of_nat (length d)\<rparr>)"
    "ends_in acc' (?c + ?a1 + ?a2 + 0 + sum_list d)" by auto
  have "(acc' + ucast k) AND 0xFF = 0 \<longleftrightarrow> sum_list (record_octets 0 a d) + k = 0"
    using ends_in_mask [OF ends_in_add [OF put(2), of k]] by (simp add: record_octets_def add.assoc)
  then show ?thesis
    using c put(1) unfolding line by (simp add: hex_record_def Let_def acc_def [symmetric])
qed

lemma data_record_result:
  assumes "d \<noteq> []" "length d < 256" "unat a + length d \<le> length (hx_buffer st)" "length (hx_buffer st) < 2 ^ 64"
  shows "hex_record n (record_text 0 a d @ rest) st = Returned (Some (EFI_SUCCESS,
    st\<lparr>hx_buffer := overwrite (unat a) d (hx_buffer st), hx_length := ucast a + word_of_nat (length d)\<rparr>))"
  using data_record_any [OF assms, of n "- sum_list (record_octets 0 a d)" rest] unfolding record_text_def
  by (simp del: hex_octets_simps(3))

text \<open>A chunk that fits into a line, and the lines of a file.\<close>

definition chunks_fit :: "bytes \<Rightarrow> bytes list \<Rightarrow> bool" where
  "chunks_fit eol ds \<longleftrightarrow> (\<forall>d\<in>set ds. d \<noteq> [] \<and> 11 + 2 * length d + length eol \<le> 256)"

lemma length_record_text [simp]: "length (record_text type a d) = 11 + 2 * length d"
  by (simp add: record_text_def record_octets_def)

lemma record_text_nonempty [simp]: "record_text type a d \<noteq> []"
  by (simp add: record_text_def)

lemma hd_hex_text: "hd (hex_text eol pos ds) = 0x3A"
  by (cases ds) (simp_all add: record_text_def)

lemma hex_text_longer: "length (concat ds) \<le> length (hex_text eol pos ds)"
  by (induction ds arbitrary: pos) (auto intro: order_trans [OF _ le_add2] simp: add_mono)

lemma hex_text_bound: "chunks_fit eol ds \<Longrightarrow> line_end eol \<Longrightarrow> length (hex_text eol pos ds) \<le> 256 * Suc (length ds)"
proof (induction ds arbitrary: pos)
  case (Cons d ds)
  then have "length (hex_text eol (pos + length d) ds) \<le> 256 * Suc (length ds)" "11 + 2 * length d + length eol \<le> 256"
    by (simp_all add: chunks_fit_def)
  then show ?case by simp
qed (auto simp: line_end_def)

lemma chunks_count: "chunks_fit eol ds \<Longrightarrow> length ds \<le> length (concat ds)"
proof (induction ds)
  case (Cons d ds)
  then have "length ds \<le> length (concat ds)" "d \<noteq> []" by (simp_all add: chunks_fit_def)
  then show ?case by (cases d) simp_all
qed simp

lemma end_record: "hex_record n (record_text 1 0 [] @ rest) st = Returned None"
  by (simp add: hex_record_def record_text_def record_octets_def)

lemma hex_lines_result:
  assumes "line_end eol" "chunks_fit eol ds" "hx_buffer st = pre @ replicate m 0xFF" "length (concat ds) \<le> m"
    and "length pre + length (concat ds) \<le> 65536" "length pre + m < 2 ^ 64"
  shows "hex_lines (hex_text eol (length pre) ds) n st = Returned (EFI_SUCCESS, st\<lparr>
    hx_buffer := pre @ concat ds @ replicate (m - length (concat ds)) 0xFF,
    hx_length := (if ds = [] then hx_length st else word_of_nat (length pre + length (concat ds)))\<rparr>)"
  using assms(2-6)
proof (induction ds arbitrary: pre m n st)
  case Nil
  have "IntelHexGetLine (record_text 1 0 [] @ eol @ []) 256 = Inr (length (record_text 1 0 []) + length eol,
      record_text 1 0 [] @ eol @ replicate (256 - (length (record_text 1 0 []) + length eol)) 0)"
    using assms(1) by (intro record_line) (auto simp: line_end_def)
  then show ?case using Nil by (subst hex_lines.simps) (cases st; simp add: MAX_LINE_LENGTH_def end_record)
next
  case (Cons d ds)
  let ?a = "word_of_nat (length pre) :: u16" and ?rest = "hex_text eol (length pre + length d) ds"
  let ?st = "st\<lparr>hx_buffer := (pre @ d) @ replicate (m - length d) 0xFF, hx_length := word_of_nat (length pre + length d)\<rparr>"
  have d: "d \<noteq> []" "11 + 2 * length d + length eol \<le> 256" "chunks_fit eol ds" using Cons.prems(1) by (auto simp: chunks_fit_def)
  have a: "unat ?a = length pre" "ucast ?a = (word_of_nat (length pre) :: u64)"
    using Cons.prems(4) d(1) by (cases d; simp add: unat_of_nat word_unat_eq_iff unsigned_ucast_eq take_bit_eq_mod)+
  have line: "IntelHexGetLine (record_text 0 ?a d @ eol @ ?rest) 256 = Inr (length (record_text 0 ?a d) + length eol,
      record_text 0 ?a d @ eol @ replicate (256 - (length (record_text 0 ?a d) + length eol)) 0)"
    using d(2) by (intro record_line) (simp_all add: assms(1) hd_hex_text)
  have fits: "length pre + length d \<le> length (hx_buffer st)" "length (hx_buffer st) < 2 ^ 64"
    using Cons.prems(2,3,5) by simp_all
  have "hex_record n (record_text 0 ?a d @ eol @ replicate (256 - (length (record_text 0 ?a d) + length eol)) 0) st =
      Returned (Some (EFI_SUCCESS, ?st))"
    using data_record_result [of d ?a st n] d(1,2) fits a Cons.prems(2) by (simp add: overwrite_def)
  moreover have "hex_lines ?rest (n + 1) ?st = Returned (EFI_SUCCESS, ?st\<lparr>
      hx_buffer := (pre @ d) @ concat ds @ replicate (m - length d - length (concat ds)) 0xFF,
      hx_length := (if ds = [] then hx_length ?st else word_of_nat (length (pre @ d) + length (concat ds)))\<rparr>)"
    using Cons.IH [of ?st "pre @ d" "m - length d" "n + 1"] d(3) Cons.prems by simp
  moreover have "hex_text eol (length pre) (d # ds) \<noteq> []" by (simp add: record_text_def)
  ultimately show ?case
    using line by (subst hex_lines.simps) (auto simp: MAX_LINE_LENGTH_def add.assoc)
qed

lemma process_result:
  assumes "line_end eol" "chunks_fit eol ds" "ds \<noteq> []" "length (concat ds) \<le> 65536" "\<And>k w. f (snd (A k w)) = f w"
  shows "\<exists>r w'. ProcessIntelHexFile A junk (hex_text eol 0 ds) w = Returned (r, w') \<and> f w' = f w \<and> (r = Inl EFI_OUT_OF_RESOURCES \<and> \<not> (\<forall>k w. fst (A k w)) \<or>
    (\<exists>rest. r = Inr (concat ds @ rest, word_of_nat (length (concat ds)), [])))"
proof -
  let ?text = "hex_text eol 0 ds"
  have m: "length (concat ds) \<le> length ?text" by (rule hex_text_longer)
  have "length ds \<le> 65536" using chunks_count [OF assms(2)] assms(4) by simp
  then have l: "length ?text < 2 ^ 64" using hex_text_bound [OF assms(2,1), of 0] by simp
  obtain ok1 w1 ok2 w2 where w: "A MAX_LINE_LENGTH w = (ok1, w1)" "A (length ?text) w1 = (ok2, w2)" by (metis surj_pair)
  have "hex_lines ?text 0 \<lparr>hx_buffer = replicate (length ?text) 0xFF, hx_length = junk, hx_errors = []\<rparr> =
      Returned (EFI_SUCCESS, \<lparr>hx_buffer = concat ds @ replicate (length ?text - length (concat ds)) 0xFF,
        hx_length = word_of_nat (length (concat ds)), hx_errors = []\<rparr>)"
    using hex_lines_result [OF assms(1,2), of _ "[]" "length ?text" 0] m l assms(3,4) by simp
  moreover have "f w1 = f w" "f w2 = f w" using assms(5) [of MAX_LINE_LENGTH w] assms(5) [of "length ?text" w1] w by simp_all
  moreover have "(\<forall>k w. fst (A k w)) \<Longrightarrow> ok1 \<and> ok2" using w by (metis fst_conv)
  ultimately show ?thesis by (auto simp: ProcessIntelHexFile_def w efi_error_simps)
qed

text \<open>A file is either saved or a status tells why not, when there is enough to write.\<close>

lemma save_returns: "unat size0 \<le> length mem \<Longrightarrow> \<exists>status w'. SaveFileToDisk sh name size0 mem w = Returned (status, w')"
  by (auto simp: SaveFileToDisk_def slice_Some Let_def split: prod.splits)

lemma read_fails: "ReadFileFromDisk sh name w = (Inl status, w') \<Longrightarrow> EFI_ERROR status"
  by (auto simp: ReadFileFromDisk_def efi_error_simps split: prod.split_asm if_split_asm)

text \<open>
  C23: converting an Intel HEX file returns, and when it reports no error, the binary file starts with
  the data of the records, no line has been reported as bad and no other file has changed.  The text
  is made of data records: any division of up to 64 KiB into records of up to 121 octets with any of
  the three line ends, without extended address records.  Behind the data there is nothing, or the
  rest of a longer file of that name which could not be deleted: the status of deleting it is not
  looked at, and nothing cuts it off.
\<close>
theorem hex_file_converted:
  assumes "shell_files sh files name_of pos" "files w src = Some (hex_text eol 0 ds)"
    and "line_end eol" "chunks_fit eol ds" "ds \<noteq> []" "length (concat ds) \<le> 65536"
  shows "\<exists>status bad w'. HexToBinMain sh junk [tool, src, dst] w = Returned ((status, bad), w') \<and>
    (\<not> EFI_ERROR status \<longrightarrow> bad = [] \<and>
       (\<exists>tail. files w' = (files w)(dst := Some (concat ds @ tail)) \<and>
          (tail = [] \<or> (\<exists>old. files w dst = Some old \<and> tail = drop (length (concat ds)) old \<and>
             \<not> deletes sh files dst))))"
proof -
  obtain r w1 where read: "ReadFileFromDisk sh src w = (r, w1)" by fastforce
  show ?thesis
  proof (cases r)
    case (Inl status)
    with read have "EFI_ERROR status" by (auto dest: read_fails)
    with Inl read show ?thesis by (simp add: HexToBinMain_def)
  next
    case (Inr d)
    with read shell_files.read_whole [OF assms(1), of src w d w1] assms(2)
    have d: "d = hex_text eol 0 ds" "files w1 = files w" by auto
    obtain r2 w2 where p: "ProcessIntelHexFile (sh_alloc sh) junk d w1 = Returned (r2, w2)" "files w2 = files w1"
      "r2 = Inl EFI_OUT_OF_RESOURCES \<or> (\<exists>rest. r2 = Inr (concat ds @ rest, word_of_nat (length (concat ds)), []))"
      using process_result [OF assms(3-6), of files "sh_alloc sh" junk w1] shell_files.alloc_files(1) [OF assms(1)]
      unfolding d(1) by blast
    show ?thesis
    proof (cases "r2 = Inl EFI_OUT_OF_RESOURCES")
      case True
      then show ?thesis using Inr read p(1) by (simp add: HexToBinMain_def efi_error_simps)
    next
      case False
      then obtain rest where r2: "r2 = Inr (concat ds @ rest, word_of_nat (length (concat ds)), [])" using p(3) by blast
      have n: "unat (word_of_nat (length (concat ds)) :: u64) = length (concat ds)" using assms(6) by (simp add: unat_of_nat)
      obtain status w3 where s: "SaveFileToDisk sh dst (word_of_nat (length (concat ds))) (concat ds @ rest) w2 = Returned (status, w3)"
        using save_returns [of "word_of_nat (length (concat ds))" "concat ds @ rest" sh dst w2] n by auto
      have "HexToBinMain sh junk [tool, src, dst] w =
          Returned ((if EFI_ERROR status then status else EFI_SUCCESS, []), w3)"
        using Inr read p(1) r2 s by (simp add: HexToBinMain_def efi_error_simps)
      moreover note shell_files.save_whole [OF assms(1) s]
      moreover have "files w2 = files w" using p(2) d(2) by simp
      ultimately show ?thesis using n by auto
    qed
  qed
qed

definition two_records :: bytes where "two_records = hex_text [0x0D, 0x0A] 0 [[1, 2, 3], [4, 5]]"

theorem hex_file_converted_witness:
  "\<exists>m. HexToBinMain ram_shell 7 [[], wide ''in'', wide ''out''] [wide ''in'' \<mapsto> two_records] = Returned ((EFI_SUCCESS, []), m) \<and>
     m (wide ''out'') = Some [1, 2, 3, 4, 5]"
proof -
  let ?m = "[wide ''in'' \<mapsto> two_records]" and ?ds = "[[1, 2, 3], [4, 5]] :: bytes list"
  have crlf: "line_end [0x0D, 0x0A]" by (simp add: line_end_def)
  have fit: "chunks_fit [0x0D, 0x0A] ?ds" by (simp add: chunks_fit_def)
  have size: "length two_records < 2 ^ 64" using hex_text_bound [OF fit crlf, of 0] by (simp add: two_records_def)
  have read: "ReadFileFromDisk ram_shell (wide ''in'') ?m = (Inr two_records, ?m)"
    using size by (simp add: ReadFileFromDisk_def ram_shell_def efi_error_simps unat_of_nat)
  have yes: "\<forall>k w. fst (sh_alloc ram_shell k w)" by (simp add: ram_shell_def)
  obtain rest m1 where p: "ProcessIntelHexFile (sh_alloc ram_shell) 7 two_records ?m = Returned (Inr ([1, 2, 3, 4, 5] @ rest, 5, []), m1)"
    using process_result [OF crlf fit, of id "sh_alloc ram_shell" 7 ?m] yes by (auto simp: two_records_def ram_shell_def)
  have "\<exists>m. SaveFileToDisk ram_shell (wide ''out'') 5 ([1, 2, 3, 4, 5] @ rest) m1 = Returned (EFI_SUCCESS, m)"
    by (auto simp: SaveFileToDisk_def ram_shell_def efi_error_simps slice_Some)
  then obtain m where run: "HexToBinMain ram_shell 7 [[], wide ''in'', wide ''out''] ?m = Returned ((EFI_SUCCESS, []), m)"
    using read p by (auto simp: HexToBinMain_def efi_error_simps)
  note hex_file_converted [OF rs.shell_files_axioms _ crlf fit, of ?m "wide ''in''" 7 "[]" "wide ''out''"] run
  moreover have "deletes ram_shell (\<lambda>m. m) (wide ''out'')" by (simp add: deletes_def ram_shell_def efi_error_simps)
  ultimately have "m (wide ''out'') = Some [1, 2, 3, 4, 5]"
    by (auto simp: two_records_def efi_error_simps)
  with run show ?thesis by blast
qed

subsection \<open>What goes wrong\<close>

text \<open>A longer file that is not deleted keeps its end, and the status is a success.\<close>

lemma old_tail_kept:
  "SaveFileToDisk kept_shell (wide ''out'') 2 [1, 2] [wide ''out'' \<mapsto> [7, 8, 9]] = Returned (EFI_SUCCESS, [wide ''out'' \<mapsto> [1, 2, 9]])"
  by (simp add: SaveFileToDisk_def kept_shell_def ram_shell_def efi_error_simps slice_def)

text \<open>A record whose checksum is wrong is converted like a right one and only reported.\<close>

theorem bad_checksum_converted:
  assumes "d \<noteq> []" "length d < 256" "unat a + length d \<le> length (hx_buffer st)" "length (hx_buffer st) < 2 ^ 64"
    and "sum_list (record_octets 0 a d) + k \<noteq> 0"
  shows "hex_record n (0x3A # hex_octets (record_octets 0 a d @ [k]) @ rest) st = Returned (Some (EFI_SUCCESS,
    st\<lparr>hx_buffer := overwrite (unat a) d (hx_buffer st), hx_length := ucast a + word_of_nat (length d), hx_errors := hx_errors st @ [n]\<rparr>))"
  using data_record_any [OF assms(1-4), of n k rest] assms(5) by (simp del: hex_octets_simps(3))

text \<open>An empty line ends the conversion with success, whatever follows.\<close>

theorem empty_line_ends:
  "hex_lines (0x0D # 0x0A # rest) n st = Returned (EFI_SUCCESS, st)"
proof -
  have get: "IntelHexGetLine (0x0D # 0x0A # rest) 256 = Inr (2, [0x0D, 0x0A] @ replicate 254 0)"
    by (simp add: IntelHexGetLine_def line_length_def Let_def)
  have "slice 0 2 (0x0A # replicate 254 0) = Some [0x0A, 0 :: u8]" by (simp add: slice_def numeral_2_eq_2 take_replicate)
  then have "hex_record n ([0x0D, 0x0A] @ replicate 254 0) st = Returned None"
    by (simp add: hex_record_def IntelHexGetByte_def IntelHexCharToHex_def)
  with get show ?thesis by (subst hex_lines.simps) (simp add: MAX_LINE_LENGTH_def)
qed

text \<open>A record whose address is behind the buffer, which is as large as the file, is written there.\<close>

theorem record_leaves_buffer:
  assumes "d \<noteq> []" "length d < 256" "length (hx_buffer st) \<le> unat a"
  shows "hex_record n (record_text 0 a d @ rest) st = Faulted"
proof -
  obtain b d' where d: "d = b # d'" using assms(1) by (cases d) auto
  let ?c = "word_of_nat (length d) :: u8"
  have "unat ?c = length d" using assms(2) by (simp add: unat_of_nat)
  then have c: "unat ?c = Suc (length d')" "?c \<noteq> 0" using d by auto
  have line: "record_text 0 a d @ rest = 0x3A # hex_octet ?c @ hex_octet (ucast (drop_bit 8 a)) @ hex_octet (ucast a) @
      hex_octet 0 @ hex_octet b @ hex_octets d' @ hex_octet (- sum_list (record_octets 0 a d)) @ rest"
    by (simp add: record_text_def record_octets_def d)
  have "unat (ucast a :: u64) = unat a" by (rule unat_ucast_up) simp
  with c assms(3) show ?thesis unfolding line by (simp add: hex_record_def Let_def)
qed

text \<open>A file without data is saved with whatever length the variable happens to hold.\<close>

theorem no_data_saves_junk:
  assumes "line_end eol" "\<forall>k w. fst (A k w)"
  shows "\<exists>bin w'. ProcessIntelHexFile A junk (hex_text eol 0 []) w = Returned (Inr (bin, junk, []), w')"
proof -
  let ?st = "\<lparr>hx_buffer = replicate (length (hex_text eol 0 [])) 0xFF, hx_length = junk, hx_errors = []\<rparr>"
  have "length (hex_text eol 0 []) < 2 ^ 64" using assms(1) by (auto simp: line_end_def)
  then have "hex_lines (hex_text eol 0 []) 0 ?st = Returned (EFI_SUCCESS, ?st)"
    using hex_lines_result [of eol "[]" ?st "[]" "length (hex_text eol 0 [])" 0] assms(1) by (simp add: chunks_fit_def)
  moreover obtain w1 w2 where "A MAX_LINE_LENGTH w = (True, w1)" "A (length (hex_text eol 0 [])) w1 = (True, w2)"
    using assms(2) by (metis prod.collapse)
  ultimately show ?thesis by (simp add: ProcessIntelHexFile_def efi_error_simps)
qed

end
