(* ===== verification/PrintScreen.thy ===== *)
theory PrintScreen
  imports EfiBase
begin

text \<open>
  \<open>Drivers/Dxe/PrintScreenLogger\<close>: a hot key that saves the screen as a bitmap file on a USB drive
  that has a file \<open>PrintScreenEnable.txt\<close>.

  The firmware is a record of functions on the world: file systems are handles of a type \<open>'h\<close>, an open
  volume is a \<open>'v\<close>, an open file a \<open>'f\<close>.  The screen is the list of its pixels, row by row from the top.
  Memory of the pool starts at a multiple of 8, so that positions in a buffer are aligned as
  addresses are.  The statuses of closing are not looked at by the code but for messages.
\<close>

datatype pixel_format = PixelRedGreenBlueReserved8BitPerColor | PixelBlueGreenRedReserved8BitPerColor | PixelBitMask | PixelBltOnly

record blt_pixel =
  px_Blue :: u8
  px_Green :: u8
  px_Red :: u8
  px_Reserved :: u8

record ('h, 'v, 'f, 'w) screen_services =
  ps_alloc :: "'w alloc"
  ps_handles :: "EFI_STATUS \<times> 'h list"
  ps_has_path :: "'h \<Rightarrow> bool"
  ps_usb :: "'h \<Rightarrow> EFI_STATUS"
  ps_block :: "'h \<Rightarrow> EFI_STATUS"
  ps_file_system :: "'h \<Rightarrow> EFI_STATUS"
  ps_open_volume :: "'h \<Rightarrow> 'w \<Rightarrow> (EFI_STATUS \<times> 'v) \<times> 'w"
  ps_open :: "'v \<Rightarrow> ustring \<Rightarrow> bool \<Rightarrow> 'w \<Rightarrow> (EFI_STATUS \<times> 'f) \<times> 'w"
  ps_write :: "'f \<Rightarrow> bytes \<Rightarrow> 'w \<Rightarrow> (EFI_STATUS \<times> u64) \<times> 'w"
  ps_close :: "'f \<Rightarrow> 'w \<Rightarrow> 'w"
  ps_close_volume :: "'v \<Rightarrow> 'w \<Rightarrow> 'w"
  ps_gop :: EFI_STATUS
  ps_format :: pixel_format
  ps_width :: u32
  ps_height :: u32
  ps_frame_buffer_size :: u64
  ps_blt :: "'w \<Rightarrow> (EFI_STATUS \<times> blt_pixel list) \<times> 'w"
  ps_check_event :: "'w \<Rightarrow> EFI_STATUS \<times> 'w"
  ps_set_timer :: "u64 \<Rightarrow> 'w \<Rightarrow> 'w"

subsection \<open>The drive\<close>

definition PRINT_SCREEN_ENABLE_FILENAME :: ustring where
  "PRINT_SCREEN_ENABLE_FILENAME = wide ''PrintScreenEnable.txt''"

text \<open>
  The loop over the file systems.  \<open>status\<close> is what the variable holds: a handle without a device path
  leaves it as it was, and when no drive fits, the last one is returned, with no volume.
\<close>

fun find_drive :: "('h, 'v, 'f, 'w) screen_services \<Rightarrow> 'h list \<Rightarrow> EFI_STATUS \<Rightarrow> 'w \<Rightarrow> (EFI_STATUS \<times> 'v option) \<times> 'w" where
  "find_drive sv [] status w = ((status, None), w)"
| "find_drive sv (h # hs) status w =
     (if \<not> ps_has_path sv h then find_drive sv hs status w
      else if EFI_ERROR (ps_usb sv h) then find_drive sv hs (ps_usb sv h) w
      else if EFI_ERROR (ps_block sv h) then find_drive sv hs (ps_block sv h) w
      else if EFI_ERROR (ps_file_system sv h) then find_drive sv hs (ps_file_system sv h) w
      else case ps_open_volume sv h w of ((status1, v), w1) \<Rightarrow>
      if EFI_ERROR status1 then find_drive sv hs status1 w1
      else case ps_open sv v PRINT_SCREEN_ENABLE_FILENAME False w1 of ((status2, f), w2) \<Rightarrow>
      if EFI_ERROR status2 then find_drive sv hs status2 (ps_close_volume sv v w2)
      else ((EFI_SUCCESS, Some v), ps_close sv f w2))"

definition FindUsbDriveForPrintScreen :: "('h, 'v, 'f, 'w) screen_services \<Rightarrow> 'w \<Rightarrow> (EFI_STATUS \<times> 'v option) \<times> 'w" where
  "FindUsbDriveForPrintScreen sv w =
     (case ps_handles sv of (status, handles) \<Rightarrow>
      if EFI_ERROR status then ((status, None), w) else find_drive sv handles status w)"

subsection \<open>The bitmap\<close>

text \<open>The header, which is packed: 54 octets; the rows start behind 56.\<close>

definition bmp_header :: "u32 \<Rightarrow> u32 \<Rightarrow> u32 \<Rightarrow> bytes" where
  "bmp_header size0 width height =
     [0x42, 0x4D] @ mem32 size0 @ mem16 0 @ mem16 0 @ mem32 56 @ mem32 40 @ mem32 width @ mem32 height @ mem16 1 @ mem16 24 @
     mem32 0 @ mem32 0 @ mem32 11000 @ mem32 11000 @ mem32 0 @ mem32 0"

fun pixel_octets :: "pixel_format \<Rightarrow> blt_pixel \<Rightarrow> bytes" where
  "pixel_octets PixelRedGreenBlueReserved8BitPerColor p = [px_Red p, px_Green p, px_Blue p]"
| "pixel_octets _ p = [px_Blue p, px_Green p, px_Red p]"

text \<open>
  The loop over the rows: \<open>n\<close> of \<open>height\<close> are left, \<open>img\<close> is the position in the buffer.  The index of
  the first pixel of a row is computed in 32 bits.
\<close>

fun bmp_rows :: "pixel_format \<Rightarrow> u32 \<Rightarrow> u32 \<Rightarrow> blt_pixel list \<Rightarrow> nat \<Rightarrow> nat \<Rightarrow> bytes \<Rightarrow> bytes outcome" where
  "bmp_rows fmt width height blt 0 img buf = Returned buf"
| "bmp_rows fmt width height blt (Suc n) img buf =
     (let row = height - of_nat (Suc n) in
      obind (checked (slice (unat ((height - row - 1) * width)) (unat width) blt)) (\<lambda>pixels.
        let octets = concat (map (pixel_octets fmt) pixels); next = img + length octets in
        if next \<le> length buf then
          bmp_rows fmt width height blt n ((next + 3) div 4 * 4) (overwrite img octets buf)
        else Faulted))"

definition data_size_per_line :: "u32 \<Rightarrow> u32" where
  "data_size_per_line width = drop_bit 3 (width * 24 + 31) AND NOT 3"

definition bmp_buffer_size :: "u32 \<Rightarrow> u32 \<Rightarrow> u64" where
  "bmp_buffer_size width height = ucast (data_size_per_line width) * ucast height + 54 + 56"

text \<open>The buffer for the pixels has the size of the frame buffer; the screen must fit into it.\<close>

definition WriteBmpToFile :: "('h, 'v, 'f, 'w) screen_services \<Rightarrow> 'f \<Rightarrow> 'w \<Rightarrow> (EFI_STATUS \<times> 'w) outcome" where
  "WriteBmpToFile sv f w =
     (if EFI_ERROR (ps_gop sv) then Returned (ps_gop sv, w)
      else if ps_format sv \<noteq> PixelRedGreenBlueReserved8BitPerColor \<and> ps_format sv \<noteq> PixelBlueGreenRedReserved8BitPerColor
      then Returned (EFI_UNSUPPORTED, w)
      else case ps_alloc sv (unat (ps_frame_buffer_size sv)) w of (ok, w1) \<Rightarrow>
      if \<not> ok then Returned (EFI_OUT_OF_RESOURCES, w1)
      else case ps_blt sv w1 of ((status, blt), w2) \<Rightarrow>
      if EFI_ERROR status then Returned (status, w2)
      else if unat (ps_frame_buffer_size sv) < 4 * length blt then Faulted
      else let size0 = bmp_buffer_size (ps_width sv) (ps_height sv) in
      if size0 > 0xFFFFFFFF then Returned (EFI_INVALID_PARAMETER, w2)
      else case ps_alloc sv (unat size0) w2 of (ok, w3) \<Rightarrow>
      if \<not> ok then Returned (EFI_OUT_OF_RESOURCES, w3)
      else obind (bmp_rows (ps_format sv) (ps_width sv) (ps_height sv) blt (unat (ps_height sv)) 56
          (bmp_header (ucast size0) (ps_width sv) (ps_height sv) @ replicate (unat size0 - 54) 0)) (\<lambda>bmp.
        case ps_write sv f bmp w3 of ((status, written), w4) \<Rightarrow>
          Returned (if written \<noteq> size0 then EFI_BAD_BUFFER_SIZE else status, w4)))"

subsection \<open>The hot key\<close>

definition MAX_PRINT_SCREEN_FILES :: nat where "MAX_PRINT_SCREEN_FILES = 512"
definition PRINT_SCREEN_DELAY :: u64 where "PRINT_SCREEN_DELAY = 3 * 1000 * 1000 * 10"

definition digit :: "nat \<Rightarrow> u16" where "digit n = 0x30 + of_nat (n mod 10)"

text \<open>\<open>UnicodeSPrint\<close> with \<open>PrtScreen%04d.bmp\<close> of a number below 10000.\<close>

definition screen_file_name :: "nat \<Rightarrow> ustring" where
  "screen_file_name n = wide ''PrtScreen'' @ map (\<lambda>k. digit (n div k)) [1000, 100, 10, 1] @ wide ''.bmp''"

text \<open>The loop that looks for a free name; \<open>n\<close> numbers are left, and the last one tried is returned.\<close>

fun free_number :: "('h, 'v, 'f, 'w) screen_services \<Rightarrow> 'v \<Rightarrow> nat \<Rightarrow> 'w \<Rightarrow> nat option \<times> 'w" where
  "free_number sv v 0 w = (None, w)"
| "free_number sv v (Suc n) w =
     (let index = MAX_PRINT_SCREEN_FILES - n in
      case ps_open sv v (screen_file_name index) False w of ((status, f), w1) \<Rightarrow>
      if \<not> EFI_ERROR status then free_number sv v n (ps_close sv f w1)
      else if status = EFI_NOT_FOUND then (Some index, w1)
      else free_number sv v n w1)"

text \<open>A drive that is reported without a volume is an uninitialised pointer.\<close>

definition capture_screen :: "('h, 'v, 'f, 'w) screen_services \<Rightarrow> 'v \<Rightarrow> 'w \<Rightarrow> 'w outcome" where
  "capture_screen sv v w =
     (case free_number sv v MAX_PRINT_SCREEN_FILES w of (number, w1) \<Rightarrow>
      obind (case number of
          None \<Rightarrow> Returned w1
        | Some n \<Rightarrow>
            (case ps_open sv v (screen_file_name n) True w1 of ((status, f), w2) \<Rightarrow>
             if EFI_ERROR status then Returned w2
             else obind (WriteBmpToFile sv f w2) (\<lambda>(_, w3). Returned (ps_close sv f w3))))
        (\<lambda>w4. Returned (ps_close_volume sv v w4)))"

definition PrintScreenCallback :: "('h, 'v, 'f, 'w) screen_services \<Rightarrow> 'w \<Rightarrow> (EFI_STATUS \<times> 'w) outcome" where
  "PrintScreenCallback sv w =
     (case ps_check_event sv w of (status, w1) \<Rightarrow>
      if status = EFI_NOT_READY then Returned (EFI_SUCCESS, w1)
      else case FindUsbDriveForPrintScreen sv w1 of ((status, volume), w2) \<Rightarrow>
      obind (if EFI_ERROR status then Returned w2
             else case volume of None \<Rightarrow> Faulted | Some v \<Rightarrow> capture_screen sv v w2) (\<lambda>w3.
        Returned (EFI_SUCCESS, ps_set_timer sv PRINT_SCREEN_DELAY w3)))"

subsection \<open>Loading and unloading\<close>

text \<open>
  The driver's state: which of the two keys have a notification, and whether there is a timer.  The
  input protocol, the registration of a key, the event and its signal give statuses.
\<close>

record screen_driver =
  sd_keys :: "nat list"
  sd_timer :: bool

definition UnRegisterNotifications :: "screen_driver \<Rightarrow> screen_driver" where
  "UnRegisterNotifications d = \<lparr>sd_keys = [], sd_timer = False\<rparr>"

definition PrintScreenLoggerUnload :: "screen_driver \<Rightarrow> EFI_STATUS \<times> screen_driver" where
  "PrintScreenLoggerUnload d = (EFI_SUCCESS, UnRegisterNotifications d)"

fun register_screen_keys :: "(nat \<Rightarrow> EFI_STATUS) \<Rightarrow> nat list \<Rightarrow> screen_driver \<Rightarrow> EFI_STATUS \<times> screen_driver" where
  "register_screen_keys reg [] d = (EFI_SUCCESS, d)"
| "register_screen_keys reg (k # ks) d =
     (if EFI_ERROR (reg k) then (reg k, d) else register_screen_keys reg ks (d\<lparr>sd_keys := sd_keys d @ [k]\<rparr>))"

definition PrintScreenLoggerEntry ::
  "EFI_STATUS option \<Rightarrow> (nat \<Rightarrow> EFI_STATUS) \<Rightarrow> EFI_STATUS \<Rightarrow> EFI_STATUS \<Rightarrow> EFI_STATUS \<times> screen_driver" where
  "PrintScreenLoggerEntry input reg create signal =
     (let none = \<lparr>sd_keys = [], sd_timer = False\<rparr>;
          status = (case input of None \<Rightarrow> EFI_NOT_FOUND | Some s \<Rightarrow> s)
      in if EFI_ERROR status then (EFI_SUCCESS, none)
         else (case register_screen_keys reg [0, 1] none of (status1, d1) \<Rightarrow>
           if EFI_ERROR status1 then (EFI_SUCCESS, UnRegisterNotifications d1)
           else if EFI_ERROR create then (EFI_SUCCESS, UnRegisterNotifications d1)
           else let d2 = d1\<lparr>sd_timer := True\<rparr> in
             if EFI_ERROR signal then (EFI_SUCCESS, UnRegisterNotifications d2) else (EFI_SUCCESS, d2)))"

subsection \<open>The picture\<close>

text \<open>
  Reading a bitmap of 24 bits as its format says: the offset of the rows, the width and the height are
  in the header, rows are padded to a multiple of 32 bits and stored from the bottom, and a pixel is
  its blue, green and red.
\<close>

definition bmp_pixel :: "bytes \<Rightarrow> nat \<Rightarrow> nat \<Rightarrow> bytes option" where
  "bmp_pixel file x y =
     (let start = unat (load32 (drop 10 file)); width = unat (load32 (drop 18 file)); height = unat (load32 (drop 22 file)) in
      if take 2 file = [0x42, 0x4D] \<and> load16 (drop 28 file) = 24 \<and> x < width \<and> y < height
      then slice (start + (height - 1 - y) * ((24 * width + 31) div 32 * 4) + 3 * x) 3 file else None)"

lemma pixel_octets_length [simp]: "length (pixel_octets fmt p) = 3"
  by (cases fmt) simp_all

lemma length_pixels [simp]: "length (concat (map (pixel_octets fmt) ps)) = 3 * length ps"
  by (induction ps) simp_all

lemma nth_pixels: "x < length ps \<Longrightarrow> take 3 (drop (3 * x) (concat (map (pixel_octets fmt) ps))) = pixel_octets fmt (ps ! x)"
proof (induction ps arbitrary: x)
  case (Cons p ps)
  then show ?case by (cases x) simp_all
qed simp

lemma take_prefix_slice: "take n b = take n c \<Longrightarrow> i + k \<le> n \<Longrightarrow> take k (drop i b) = take k (drop i c)"
proof -
  assume "take n b = take n c" "i + k \<le> n"
  then have "take (i + k) b = take (i + k) c" by (metis min.absorb1 take_take)
  then show ?thesis by (metis add.commute take_drop)
qed

lemma stride_value: "(24 * w + 31) div 32 = (3 * w + 3) div (4 :: nat)"
proof -
  have "(24 * w + 31) div 32 = (24 * w + 31) div 8 div 4" by (simp flip: div_mult2_eq)
  then show ?thesis by simp
qed

lemma data_size_value:
  assumes "24 * unat width + 31 < 2 ^ 32"
  shows "unat (data_size_per_line width) = (24 * unat width + 31) div 32 * 4"
proof -
  have "unat (drop_bit 3 (width * 24 + 31)) = 3 * unat width + 3"
    using assms by (simp add: drop_bit_eq_div unat_div unat_word_ariths)
  then have "unat (drop_bit 3 (width * 24 + 31) AND NOT (mask 2)) = (3 * unat width + 3) div 4 * 4"
    by (simp only: unat_and_not_mask) simp
  moreover have "(mask 2 :: u32) = 3" by (simp add: mask_eq_exp_minus_1)
  ultimately show ?thesis by (simp add: data_size_per_line_def stride_value)
qed

lemma bmp_rows_result:
  assumes "n \<le> unat height" "4 dvd img" "stride = (24 * unat width + 31) div 32 * 4" "img + n * stride \<le> length buf"
    and "length blt = unat height * unat width" "unat height * unat width < 2 ^ 32"
  shows "\<exists>b. bmp_rows fmt width height blt n img buf = Returned b \<and> length b = length buf \<and> take img b = take img buf \<and>
    (\<forall>y<n. \<forall>x<unat width. take 3 (drop (img + (n - 1 - y) * stride + 3 * x) b) = pixel_octets fmt (blt ! (y * unat width + x)))"
  using assms(1,2,4)
proof (induction n arbitrary: img buf)
  case 0
  then show ?case by simp
next
  case (Suc n)
  let ?W = "unat width" and ?row = "take (unat width) (drop (n * unat width) blt)"
  let ?octets = "concat (map (pixel_octets fmt) ?row)"
  have "Suc n * ?W \<le> unat height * ?W" using Suc.prems(1) by (rule mult_le_mono1)
  then have size: "n * ?W + ?W \<le> length blt" "n * ?W < 2 ^ 32" using assms(5,6) by simp_all
  have "n < 2 ^ 32" using Suc.prems(1) unsigned_less [of height, where ?'a = nat] by simp
  then have first: "unat (of_nat n * width) = n * ?W"
    using size(2) by (simp add: unat_word_ariths unat_of_nat)
  have len: "length ?octets = 3 * ?W" using size(1) by simp
  have stride: "3 * ?W \<le> stride" "(img + 3 * ?W + 3) div 4 * 4 = img + stride"
  proof -
    obtain k where "img = 4 * k" using Suc.prems(2) by (elim dvdE)
    then show "(img + 3 * ?W + 3) div 4 * 4 = img + stride" by (simp add: assms(3) stride_value add.assoc)
    show "3 * ?W \<le> stride" using div_mult_mod_eq [of "3 * ?W + 3" 4] mod_less_divisor [of 4 "3 * ?W + 3"]
      by (simp add: assms(3) stride_value)
  qed
  let ?buf = "overwrite img ?octets buf"
  have fits: "img + 3 * ?W \<le> length buf" "img + stride + n * stride \<le> length ?buf" "4 dvd img + stride"
    using Suc.prems(2,3) stride(1) len assms(3) by (simp_all add: overwrite_def)
  have step: "bmp_rows fmt width height blt (Suc n) img buf = bmp_rows fmt width height blt n (img + stride) ?buf"
    using size(1) fits(1) len stride(2) by (simp add: Let_def first slice_Some)
  from Suc.IH [of "img + stride" ?buf] Suc.prems(1) fits(2,3) obtain b where b:
    "bmp_rows fmt width height blt n (img + stride) ?buf = Returned b" "length b = length ?buf"
    "take (img + stride) b = take (img + stride) ?buf"
    "\<forall>y<n. \<forall>x<?W. take 3 (drop (img + stride + (n - 1 - y) * stride + 3 * x) b) = pixel_octets fmt (blt ! (y * ?W + x))"
    by auto
  have top: "take 3 (drop (img + 3 * x) b) = pixel_octets fmt (blt ! (n * ?W + x))" if x: "x < ?W" for x
  proof -
    have "take 3 (drop (img + 3 * x) b) = take 3 (drop (img + 3 * x) ?buf)"
      using x stride(1) take_prefix_slice [OF b(3), of "img + 3 * x" 3] by simp
    also have "\<dots> = take 3 (drop (3 * x) ?octets)" using x fits(1) len by (simp add: overwrite_def)
    also have "\<dots> = pixel_octets fmt (?row ! x)" using x size(1) by (intro nth_pixels) simp
    finally show ?thesis using x size(1) by simp
  qed
  have "take img b = take img ?buf" using take_prefix_slice [OF b(3), of 0 img] by simp
  then have "take img b = take img buf" using fits(1) by (simp add: overwrite_def)
  moreover have "take 3 (drop (img + (n - y) * stride + 3 * x) b) = pixel_octets fmt (blt ! (y * ?W + x))"
    if "y < Suc n" "x < ?W" for x y
  proof (cases "y = n")
    case False
    then have "y < n" "n - y = Suc (n - 1 - y)" using that(1) by simp_all
    then show ?thesis using b(4) that(2) by (simp add: add.assoc)
  qed (use top that(2) in simp)
  ultimately show ?case using step b(1,2) fits(1) len by simp
qed

text \<open>What a screen service has to fulfil for a picture: a 24 bit header describes it, and it fits.\<close>

definition screen_fits :: "('h, 'v, 'f, 'w) screen_services \<Rightarrow> bool" where
  "screen_fits sv \<longleftrightarrow> 24 * unat (ps_width sv) + 31 < 2 ^ 32 \<and> unat (ps_height sv) * unat (ps_width sv) < 2 ^ 32 \<and>
     unat (ps_height sv) * ((24 * unat (ps_width sv) + 31) div 32 * 4) + 110 < 2 ^ 32 \<and>
     4 * (unat (ps_height sv) * unat (ps_width sv)) \<le> unat (ps_frame_buffer_size sv)"

lemma header_fields:
  assumes "take 56 b = bmp_header size0 width height @ [0, 0]"
  shows "take 2 b = [0x42, 0x4D]" "load32 (drop 10 b) = 56" "load32 (drop 18 b) = width" "load32 (drop 22 b) = height"
    "load16 (drop 28 b) = 24"
proof -
  have part: "take k (drop i b) = take k (drop i (bmp_header size0 width height @ [0, 0]))" if "i + k \<le> 56" for i k
    by (rule take_prefix_slice [OF _ that]) (simp add: assms [symmetric])
  show "take 2 b = [0x42, 0x4D]" using part [of 0 2] by (simp add: bmp_header_def)
  have load: "load32 m = load32 (take 4 m)" "load16 m = load16 (take 2 m)" for m by (simp_all add: load32_def load16_def)
  have "take 4 (drop 10 b) = mem32 56" "take 4 (drop 18 b) = mem32 width" "take 4 (drop 22 b) = mem32 height"
    "take 2 (drop 28 b) = mem16 24"
    using part [of 10 4] part [of 18 4] part [of 22 4] part [of 28 2] by (simp_all add: bmp_header_def)
  then show "load32 (drop 10 b) = 56" "load32 (drop 18 b) = width" "load32 (drop 22 b) = height" "load16 (drop 28 b) = 24"
    by (subst load, simp)+
qed

lemma buffer_size_value:
  assumes "screen_fits sv"
  shows "unat (bmp_buffer_size (ps_width sv) (ps_height sv)) =
    unat (ps_height sv) * ((24 * unat (ps_width sv) + 31) div 32 * 4) + 110"
proof -
  have "unat (ucast (data_size_per_line (ps_width sv)) :: u64) = (24 * unat (ps_width sv) + 31) div 32 * 4"
    "unat (ucast (ps_height sv) :: u64) = unat (ps_height sv)"
    using assms data_size_value [of "ps_width sv"] by (simp_all add: screen_fits_def unat_ucast_up)
  then show ?thesis using assms by (simp add: bmp_buffer_size_def screen_fits_def unat_word_ariths mult.commute)
qed

lemma write_bmp_result:
  assumes "screen_fits sv" "ps_gop sv = EFI_SUCCESS"
    and format: "ps_format sv \<in> {PixelRedGreenBlueReserved8BitPerColor, PixelBlueGreenRedReserved8BitPerColor}"
    and "ps_alloc sv (unat (ps_frame_buffer_size sv)) w = (True, w1)" "ps_blt sv w1 = ((EFI_SUCCESS, blt), w2)"
    and "length blt = unat (ps_height sv) * unat (ps_width sv)"
    and "ps_alloc sv (unat (bmp_buffer_size (ps_width sv) (ps_height sv))) w2 = (True, w3)"
  shows "\<exists>bmp. WriteBmpToFile sv f w = (case ps_write sv f bmp w3 of ((status, written), w4) \<Rightarrow>
      Returned (if written \<noteq> bmp_buffer_size (ps_width sv) (ps_height sv) then EFI_BAD_BUFFER_SIZE else status, w4)) \<and>
    length bmp = unat (bmp_buffer_size (ps_width sv) (ps_height sv)) \<and>
    (\<forall>x<unat (ps_width sv). \<forall>y<unat (ps_height sv). bmp_pixel bmp x y =
       Some (pixel_octets (ps_format sv) (blt ! (y * unat (ps_width sv) + x))))"
proof -
  define W H where "W = unat (ps_width sv)" and "H = unat (ps_height sv)"
  define stride where "stride = (24 * W + 31) div 32 * 4"
  define size0 where "size0 = bmp_buffer_size (ps_width sv) (ps_height sv)"
  note defs = W_def H_def
  have size: "unat size0 = H * stride + 110" "H * stride + 110 < 2 ^ 32" "H * W < 2 ^ 32" "24 * W + 31 < 2 ^ 32"
    "4 * length blt \<le> unat (ps_frame_buffer_size sv)"
    using assms(1,6) buffer_size_value [OF assms(1)] by (simp_all add: screen_fits_def size0_def stride_def defs)
  let ?buf = "bmp_header (ucast size0) (ps_width sv) (ps_height sv) @ replicate (unat size0 - 54) 0"
  have hdr: "length (bmp_header (ucast size0) (ps_width sv) (ps_height sv)) = 54" by (simp add: bmp_header_def)
  have len: "length ?buf = H * stride + 110" "56 + H * stride \<le> length ?buf" using size(1) hdr by simp_all
  from bmp_rows_result [of H "ps_height sv" 56 stride "ps_width sv" ?buf blt "ps_format sv"] len(2) size(3) assms(6)
  obtain b where b: "bmp_rows (ps_format sv) (ps_width sv) (ps_height sv) blt H 56 ?buf = Returned b" "length b = length ?buf"
    "take 56 b = take 56 ?buf"
    "\<forall>y<H. \<forall>x<W. take 3 (drop (56 + (H - 1 - y) * stride + 3 * x) b) = pixel_octets (ps_format sv) (blt ! (y * W + x))"
    by (auto simp: stride_def defs)
  have "take 2 (replicate (unat size0 - 54) (0 :: u8)) = [0, 0]" using size(1) by (simp add: numeral_2_eq_2)
  then have "take 56 b = bmp_header (ucast size0) (ps_width sv) (ps_height sv) @ [0, 0]" using b(3) hdr by simp
  note fields = header_fields [OF this]
  have pixel: "bmp_pixel b x y = Some (pixel_octets (ps_format sv) (blt ! (y * W + x)))" if "x < W" "y < H" for x y
  proof -
    have "(H - 1 - y) * stride + 3 * x + 3 \<le> H * stride"
    proof -
      have "3 * x + 3 \<le> stride" using that(1) div_mult_mod_eq [of "3 * W + 3" 4] mod_less_divisor [of 4 "3 * W + 3"]
        by (simp add: stride_def stride_value)
      moreover have "(H - 1 - y) * stride + stride \<le> H * stride"
      proof -
        have "Suc (H - 1 - y) \<le> H" using that(2) by simp
        from mult_le_mono1 [OF this, of stride] show ?thesis by simp
      qed
      ultimately show ?thesis by simp
    qed
    then have "slice (56 + (H - 1 - y) * stride + 3 * x) 3 b = Some (take 3 (drop (56 + (H - 1 - y) * stride + 3 * x) b))"
      using b(2) len(1) by (intro slice_Some) simp
    with b(4) that show ?thesis by (simp add: bmp_pixel_def fields stride_def defs Let_def)
  qed
  have "\<not> size0 > 0xFFFFFFFF" using size(1,2) by (simp add: word_less_nat_alt)
  then have "WriteBmpToFile sv f w = (case ps_write sv f b w3 of ((status, written), w4) \<Rightarrow>
      Returned (if written \<noteq> size0 then EFI_BAD_BUFFER_SIZE else status, w4))"
    using assms(2-5,7) size(5) b(1) by (auto simp: WriteBmpToFile_def size0_def [symmetric] H_def [symmetric] Let_def)
  with b(2) len(1) size(1) pixel show ?thesis by (auto simp: size0_def [symmetric] defs)
qed

subsection \<open>The files of a drive\<close>

text \<open>
  What the file systems promise: \<open>files\<close> gives the files of each volume and \<open>file_of\<close> the file behind a
  handle.  Opening to read changes nothing, creating a file that is not there makes an empty one, and
  writing changes no other file.
\<close>

locale picture_drives =
  fixes sv :: "('h, 'v, 'f, 'w) screen_services"
    and files :: "'w \<Rightarrow> 'v \<Rightarrow> ustring \<Rightarrow> bytes option" and file_of :: "'f \<Rightarrow> 'v \<times> ustring"
  assumes quiet: "files (snd (ps_alloc sv k w)) = files w" "files (snd (ps_blt sv w)) = files w"
      "files (snd (ps_check_event sv w)) = files w" "files (ps_set_timer sv t w) = files w" "files (ps_close sv f w) = files w"
      "files (ps_close_volume sv v w) = files w" "files (snd (ps_open_volume sv h w)) = files w"
    and open_to_read: "ps_open sv v name False w = ((status, f), w') \<Longrightarrow>
      files w' = files w \<and> (status = EFI_NOT_FOUND \<longrightarrow> files w v name = None)"
    and create_new: "ps_open sv v name True w = ((status, f), w') \<Longrightarrow> files w v name = None \<Longrightarrow>
      (if EFI_ERROR status then files w' = files w
       else file_of f = (v, name) \<and> files w' = (files w)(v := (files w v)(name := Some [])))"
    and write_own: "ps_write sv f d w = ((status, n), w') \<Longrightarrow> file_of f = (v, name) \<Longrightarrow>
      \<exists>d'. files w' = (files w)(v := (files w v)(name := Some d')) \<and>
        (files w v name = Some [] \<and> \<not> EFI_ERROR status \<and> unat n = length d \<longrightarrow> d' = d)"
begin

lemma find_drive_files: "files (snd (find_drive sv hs status w)) = files w"
proof (induction hs arbitrary: status w)
  case (Cons h hs)
  obtain s1 v w1 where 1: "ps_open_volume sv h w = ((s1, v), w1)" by (metis surj_pair)
  obtain s2 f w2 where 2: "ps_open sv v PRINT_SCREEN_ENABLE_FILENAME False w1 = ((s2, f), w2)" by (metis surj_pair)
  have "files w2 = files w" using quiet(7) [of h w] open_to_read [OF 2] 1 by simp
  then show ?case using Cons.IH quiet(5,6) quiet(7) [of h w] 1 2 by simp
qed simp

lemma free_number_result:
  assumes "free_number sv v n w = (r, w')"
  shows "files w' = files w \<and> (\<forall>k. r = Some k \<longrightarrow> files w v (screen_file_name k) = None)"
  using assms
proof (induction n arbitrary: w)
  case (Suc n)
  let ?name = "screen_file_name (MAX_PRINT_SCREEN_FILES - n)"
  obtain s f w1 where o: "ps_open sv v ?name False w = ((s, f), w1)" by (metis surj_pair)
  note r = open_to_read [OF o]
  consider "\<not> EFI_ERROR s" | "s = EFI_NOT_FOUND" | "EFI_ERROR s" "s \<noteq> EFI_NOT_FOUND" by blast
  then show ?case
  proof cases
    case 1
    with Suc.prems o have "free_number sv v n (ps_close sv f w1) = (r, w')" by (simp add: Let_def)
    from Suc.IH [OF this] r show ?thesis by (simp add: quiet)
  next
    case 2
    with Suc.prems o r show ?thesis by (auto simp: Let_def)
  next
    case 3
    with Suc.prems o have "free_number sv v n w1 = (r, w')" by (simp add: Let_def)
    from Suc.IH [OF this] r show ?thesis by simp
  qed
qed simp

lemma write_bmp_files:
  assumes "WriteBmpToFile sv f w = Returned (status, w')" "file_of f = (v, name)" "(u, other) \<noteq> (v, name)"
  shows "files w' u other = files w u other"
proof -
  obtain ok1 w1 where 1: "ps_alloc sv (unat (ps_frame_buffer_size sv)) w = (ok1, w1)" by fastforce
  obtain s blt w2 where 2: "ps_blt sv w1 = ((s, blt), w2)" by (metis surj_pair)
  obtain ok3 w3 where 3: "ps_alloc sv (unat (bmp_buffer_size (ps_width sv) (ps_height sv))) w2 = (ok3, w3)" by fastforce
  have q: "files w1 = files w" "files w2 = files w" "files w3 = files w"
    using quiet(1) [of "unat (ps_frame_buffer_size sv)" w] quiet(2) [of w1]
      quiet(1) [of "unat (bmp_buffer_size (ps_width sv) (ps_height sv))" w2] 1 2 3 by simp_all
  have w: "files w4 u other = files w u other" if "ps_write sv f b w3 = ((s4, n), w4)" for b s4 n w4
  proof -
    from write_own [OF that assms(2)] obtain d' where "files w4 = (files w3)(v := (files w3 v)(name := Some d'))" by blast
    then show ?thesis using assms(3) q(3) by (cases "u = v") auto
  qed
  define rows where "rows = bmp_rows (ps_format sv) (ps_width sv) (ps_height sv) blt (unat (ps_height sv)) 56
    (bmp_header (ucast (bmp_buffer_size (ps_width sv) (ps_height sv))) (ps_width sv) (ps_height sv) @
     replicate (unat (bmp_buffer_size (ps_width sv) (ps_height sv)) - 54) 0)"
  have "w' = w \<or> w' = w1 \<or> w' = w2 \<or> w' = w3 \<or> (\<exists>b s4 n. ps_write sv f b w3 = ((s4, n), w'))"
  proof (cases rows)
    case (Returned b)
    obtain s4 n w4 where "ps_write sv f b w3 = ((s4, n), w4)" by (metis surj_pair)
    then show ?thesis using assms(1) Returned
      by (auto simp: WriteBmpToFile_def 1 2 3 Let_def rows_def split: if_split_asm)
  qed (use assms(1) in \<open>auto simp: WriteBmpToFile_def 1 2 3 Let_def rows_def split: if_split_asm\<close>)
  with q w show ?thesis by auto
qed

lemma capture_files:
  assumes "capture_screen sv v w = Returned w'" "files w u name = Some d"
  shows "files w' u name = Some d"
proof -
  obtain number w1 where n: "free_number sv v MAX_PRINT_SCREEN_FILES w = (number, w1)" by fastforce
  note free = free_number_result [OF n]
  show ?thesis
  proof (cases number)
    case None
    with assms n free show ?thesis by (auto simp: capture_screen_def quiet)
  next
    case (Some k)
    obtain s f w2 where o: "ps_open sv v (screen_file_name k) True w1 = ((s, f), w2)" by (metis surj_pair)
    have none: "files w1 v (screen_file_name k) = None" using free Some by auto
    then have other: "(u, name) \<noteq> (v, screen_file_name k)" using free assms(2) by auto
    note c = create_new [OF o none]
    show ?thesis
    proof (cases "EFI_ERROR s")
      case True
      with assms n Some o c free show ?thesis by (auto simp: capture_screen_def quiet)
    next
      case False
      with c have f: "file_of f = (v, screen_file_name k)" "files w2 u name = Some d"
        using other free assms(2) by (auto simp: fun_upd_def)
      from assms(1) n Some o False obtain s3 w3 where b: "WriteBmpToFile sv f w2 = Returned (s3, w3)"
        "w' = ps_close_volume sv v (ps_close sv f w3)"
        by (auto simp: capture_screen_def obind_Returned_iff)
      from write_bmp_files [OF b(1) f(1) other] f(2) b(2) show ?thesis by (simp add: quiet)
    qed
  qed
qed

lemma callback_files:
  assumes "PrintScreenCallback sv w = Returned (status, w')" "files w u name = Some d"
  shows "files w' u name = Some d"
proof -
  obtain s1 w1 where 1: "ps_check_event sv w = (s1, w1)" by fastforce
  obtain s2 volume w2 where 2: "FindUsbDriveForPrintScreen sv w1 = ((s2, volume), w2)" by (metis surj_pair)
  have q: "files w1 = files w" "files w2 = files w1"
    using quiet(3) [of w] 1 find_drive_files [of "snd (ps_handles sv)" _ w1] 2
    by (auto simp: FindUsbDriveForPrintScreen_def split: prod.splits if_splits) (metis snd_conv)
  show ?thesis
  proof (cases "s1 = EFI_NOT_READY \<or> EFI_ERROR s2")
    case True
    with assms 1 2 q show ?thesis by (auto simp: PrintScreenCallback_def quiet split: if_splits)
  next
    case False
    with assms(1) 1 2 obtain v w3 where "capture_screen sv v w2 = Returned w3" "w' = ps_set_timer sv PRINT_SCREEN_DELAY w3"
      by (cases volume) (auto simp: PrintScreenCallback_def obind_Returned_iff)
    with capture_files [of v w2 w3 u name d] assms(2) q show ?thesis by (simp add: quiet)
  qed
qed

end

text \<open>A machine with one drive, whose files are a map, and a screen of three by two pixels.\<close>

definition small_screen :: "blt_pixel list" where
  "small_screen = map (\<lambda>k. \<lparr>px_Blue = k, px_Green = k + 1, px_Red = k + 2, px_Reserved = 0\<rparr>) [0, 10, 20, 30, 40, 50]"

definition usb_machine :: "pixel_format \<Rightarrow> (unit, unit, ustring, ustring \<Rightarrow> bytes option) screen_services" where
  "usb_machine fmt = \<lparr>ps_alloc = \<lambda>n m. (True, m), ps_handles = (EFI_SUCCESS, [()]), ps_has_path = \<lambda>h. True,
     ps_usb = \<lambda>h. EFI_SUCCESS, ps_block = \<lambda>h. EFI_SUCCESS, ps_file_system = \<lambda>h. EFI_SUCCESS,
     ps_open_volume = \<lambda>h m. ((EFI_SUCCESS, ()), m),
     ps_open = \<lambda>v name create m. (if m name \<noteq> None then ((EFI_SUCCESS, name), m)
       else if create then ((EFI_SUCCESS, name), m(name := Some [])) else ((EFI_NOT_FOUND, name), m)),
     ps_write = \<lambda>f d m. ((EFI_SUCCESS, of_nat (length d)), m(f := Some d)),
     ps_close = \<lambda>f m. m, ps_close_volume = \<lambda>v m. m, ps_gop = EFI_SUCCESS, ps_format = fmt, ps_width = 3, ps_height = 2,
     ps_frame_buffer_size = 24, ps_blt = \<lambda>m. ((EFI_SUCCESS, small_screen), m),
     ps_check_event = \<lambda>m. (EFI_SUCCESS, m), ps_set_timer = \<lambda>t m. m\<rparr>"

interpretation usb: picture_drives "usb_machine PixelBlueGreenRedReserved8BitPerColor" "\<lambda>m v. m" "\<lambda>f. ((), f)"
proof (unfold_locales, goal_cases)
  case (10 f d w status n w' v name)
  then show ?case by (auto simp: usb_machine_def intro!: exI [of _ d] ext)
qed (auto simp: usb_machine_def split: if_splits)

text \<open>
  C25: a screen shot never changes or removes a file that is there, on any drive, whatever the statuses
  of the firmware's calls and the numbers already used are.
\<close>
theorem screen_shots_keep_files:
  assumes "picture_drives sv files file_of" "PrintScreenCallback sv w = Returned (status, w')" "files w v name = Some d"
  shows "files w' v name = Some d"
  using picture_drives.callback_files [OF assms] .

definition used_drive :: "ustring \<Rightarrow> bytes option" where
  "used_drive = [PRINT_SCREEN_ENABLE_FILENAME \<mapsto> [], screen_file_name 1 \<mapsto> [7]]"

lemma screen_file_names:
  "screen_file_name (Suc 0) \<noteq> PRINT_SCREEN_ENABLE_FILENAME" "screen_file_name 2 \<noteq> PRINT_SCREEN_ENABLE_FILENAME"
  "screen_file_name 2 \<noteq> screen_file_name (Suc 0)"
  by (simp_all add: screen_file_name_def PRINT_SCREEN_ENABLE_FILENAME_def wide_def digit_def)

theorem screen_shots_keep_files_witness:
  "\<exists>m. PrintScreenCallback (usb_machine PixelBlueGreenRedReserved8BitPerColor) used_drive = Returned (EFI_SUCCESS, m) \<and>
     m (screen_file_name 1) = Some [7] \<and> m (screen_file_name 2) \<noteq> None"
proof -
  let ?sv = "usb_machine PixelBlueGreenRedReserved8BitPerColor"
  have fits: "screen_fits ?sv" by (simp add: screen_fits_def usb_machine_def)
  have "ps_gop ?sv = EFI_SUCCESS" "ps_format ?sv \<in> {PixelRedGreenBlueReserved8BitPerColor, PixelBlueGreenRedReserved8BitPerColor}"
    "\<And>k m. ps_alloc ?sv k m = (True, m)" "\<And>m. ps_blt ?sv m = ((EFI_SUCCESS, small_screen), m)"
    "length small_screen = unat (ps_height ?sv) * unat (ps_width ?sv)"
    by (simp_all add: usb_machine_def small_screen_def)
  note bmp = write_bmp_result [OF fits this(1,2) this(3) this(4,5) this(3)]
  have two: "free_number ?sv () MAX_PRINT_SCREEN_FILES used_drive = (Some 2, used_drive)"
    using free_number.simps(2) [of ?sv "()" 511 used_drive] free_number.simps(2) [of ?sv "()" 510 used_drive]
    by (simp add: MAX_PRINT_SCREEN_FILES_def usb_machine_def used_drive_def screen_file_names Let_def)
  have open_two: "ps_open ?sv () (screen_file_name 2) True used_drive = ((EFI_SUCCESS, screen_file_name 2), used_drive(screen_file_name 2 := Some []))"
    by (simp add: usb_machine_def used_drive_def screen_file_names)
  have find: "FindUsbDriveForPrintScreen ?sv used_drive = ((EFI_SUCCESS, Some ()), used_drive)"
    by (simp add: FindUsbDriveForPrintScreen_def usb_machine_def used_drive_def)
  have quiet: "ps_check_event ?sv m = (EFI_SUCCESS, m)" "ps_set_timer ?sv t m = m" "ps_close ?sv f m = m" "ps_close_volume ?sv v m = m" for t f v m
    by (simp_all add: usb_machine_def)
  obtain b where "WriteBmpToFile ?sv (screen_file_name 2) (used_drive(screen_file_name 2 := Some [])) =
      Returned (EFI_SUCCESS, used_drive(screen_file_name 2 := Some b))"
    using bmp [of "screen_file_name 2" "used_drive(screen_file_name 2 := Some [])"]
    by (auto simp: usb_machine_def)
  then have "\<exists>m. PrintScreenCallback ?sv used_drive = Returned (EFI_SUCCESS, m) \<and> m (screen_file_name 2) \<noteq> None"
    using two open_two find quiet by (simp add: PrintScreenCallback_def capture_screen_def)
  then obtain m where m: "PrintScreenCallback ?sv used_drive = Returned (EFI_SUCCESS, m)" "m (screen_file_name 2) \<noteq> None" by blast
  have "used_drive (screen_file_name 1) = Some [7]" by (simp add: used_drive_def)
  from screen_shots_keep_files [OF usb.picture_drives_axioms m(1), of "screen_file_name 1" "[7]"] this m show ?thesis by blast
qed

text \<open>
  C24: the bitmap that is written shows the screen, for both formats of the frame buffer that the
  driver supports: read as its format says, every pixel of the picture is the pixel of the screen at
  that place.  For a frame buffer in blue, green, red order the colours are those of the screen; for
  one in red, green, blue order the picture has red and blue exchanged.
\<close>
theorem bitmap_shows_screen:
  assumes "screen_fits sv" "ps_gop sv = EFI_SUCCESS"
    and "ps_format sv \<in> {PixelBlueGreenRedReserved8BitPerColor, PixelRedGreenBlueReserved8BitPerColor}"
    and "ps_alloc sv (unat (ps_frame_buffer_size sv)) w = (True, w1)" "ps_blt sv w1 = ((EFI_SUCCESS, blt), w2)"
    and "length blt = unat (ps_height sv) * unat (ps_width sv)"
    and "ps_alloc sv (unat (bmp_buffer_size (ps_width sv) (ps_height sv))) w2 = (True, w3)"
  shows "\<exists>bmp. WriteBmpToFile sv f w = (case ps_write sv f bmp w3 of ((status, written), w4) \<Rightarrow>
      Returned (if written \<noteq> bmp_buffer_size (ps_width sv) (ps_height sv) then EFI_BAD_BUFFER_SIZE else status, w4)) \<and>
    (\<forall>x<unat (ps_width sv). \<forall>y<unat (ps_height sv). bmp_pixel bmp x y =
       (let p = blt ! (y * unat (ps_width sv) + x)
        in if ps_format sv = PixelBlueGreenRedReserved8BitPerColor
           then Some [px_Blue p, px_Green p, px_Red p]
           else Some [px_Red p, px_Green p, px_Blue p]))"
  using write_bmp_result [OF assms(1,2) _ assms(4-7), of f] assms(3) by (auto simp: Let_def)

theorem bitmap_shows_screen_witness:
  "(\<exists>bmp. WriteBmpToFile (usb_machine PixelBlueGreenRedReserved8BitPerColor) (wide ''shot'') Map.empty =
       Returned (EFI_SUCCESS, [wide ''shot'' \<mapsto> bmp]) \<and>
     bmp_pixel bmp 1 0 = Some [10, 11, 12] \<and> bmp_pixel bmp 2 1 = Some [50, 51, 52]) \<and>
   (\<exists>bmp. WriteBmpToFile (usb_machine PixelRedGreenBlueReserved8BitPerColor) (wide ''shot'') Map.empty =
       Returned (EFI_SUCCESS, [wide ''shot'' \<mapsto> bmp]) \<and>
     bmp_pixel bmp 1 0 = Some [12, 11, 10] \<and> bmp_pixel bmp 2 1 = Some [52, 51, 50])"
proof -
  have "\<exists>bmp. WriteBmpToFile (usb_machine fmt) (wide ''shot'') Map.empty = Returned (EFI_SUCCESS, [wide ''shot'' \<mapsto> bmp]) \<and>
      (\<forall>x<3. \<forall>y<2. bmp_pixel bmp x y = (let p = small_screen ! (y * 3 + x)
        in if fmt = PixelBlueGreenRedReserved8BitPerColor then Some [px_Blue p, px_Green p, px_Red p]
           else Some [px_Red p, px_Green p, px_Blue p]))"
    if fmt: "fmt \<in> {PixelBlueGreenRedReserved8BitPerColor, PixelRedGreenBlueReserved8BitPerColor}" for fmt
  proof -
    let ?sv = "usb_machine fmt"
    have sv: "screen_fits ?sv" "ps_gop ?sv = EFI_SUCCESS" "ps_format ?sv = fmt" "unat (ps_width ?sv) = 3" "unat (ps_height ?sv) = 2"
      "\<And>k m. ps_alloc ?sv k m = (True, m)" "\<And>m. ps_blt ?sv m = ((EFI_SUCCESS, small_screen), m)"
      "length small_screen = unat (ps_height ?sv) * unat (ps_width ?sv)"
      by (simp_all add: screen_fits_def usb_machine_def small_screen_def)
    obtain bmp where b: "length bmp = unat (bmp_buffer_size (ps_width ?sv) (ps_height ?sv))"
      "WriteBmpToFile ?sv (wide ''shot'') Map.empty = Returned (EFI_SUCCESS, [wide ''shot'' \<mapsto> bmp])"
      using write_bmp_result [OF sv(1,2) _ sv(6,7,8,6), of "wide ''shot''" Map.empty] sv(3) fmt by (auto simp: usb_machine_def)
    from fmt have fmt': "ps_format ?sv \<in> {PixelBlueGreenRedReserved8BitPerColor, PixelRedGreenBlueReserved8BitPerColor}"
      by (simp only: sv(3))
    obtain bmp' where b': "WriteBmpToFile ?sv (wide ''shot'') Map.empty = (case ps_write ?sv (wide ''shot'') bmp' Map.empty of
        ((status, written), w4) \<Rightarrow> Returned (if written \<noteq> bmp_buffer_size (ps_width ?sv) (ps_height ?sv) then EFI_BAD_BUFFER_SIZE else status, w4))"
      "\<forall>x<3. \<forall>y<2. bmp_pixel bmp' x y = (let p = small_screen ! (y * 3 + x)
        in if fmt = PixelBlueGreenRedReserved8BitPerColor then Some [px_Blue p, px_Green p, px_Red p]
           else Some [px_Red p, px_Green p, px_Blue p])"
      using bitmap_shows_screen [OF sv(1,2) fmt' sv(6,7,8,6), of "wide ''shot''" Map.empty] unfolding sv(3,4,5) by blast
    have "[wide ''shot'' \<mapsto> bmp'] = [wide ''shot'' \<mapsto> bmp]"
      using b(2) b'(1) by (simp add: usb_machine_def)
    then have "bmp' = bmp" by (metis fun_upd_same option.inject)
    with b(2) b'(2) show ?thesis by blast
  qed
  note picture = this
  obtain b1 where b1: "WriteBmpToFile (usb_machine PixelBlueGreenRedReserved8BitPerColor) (wide ''shot'') Map.empty =
      Returned (EFI_SUCCESS, [wide ''shot'' \<mapsto> b1])"
    "\<And>x y. x < 3 \<Longrightarrow> y < 2 \<Longrightarrow> bmp_pixel b1 x y = (let p = small_screen ! (y * 3 + x) in Some [px_Blue p, px_Green p, px_Red p])"
    using picture [of PixelBlueGreenRedReserved8BitPerColor] by auto
  obtain b2 where b2: "WriteBmpToFile (usb_machine PixelRedGreenBlueReserved8BitPerColor) (wide ''shot'') Map.empty =
      Returned (EFI_SUCCESS, [wide ''shot'' \<mapsto> b2])"
    "\<And>x y. x < 3 \<Longrightarrow> y < 2 \<Longrightarrow> bmp_pixel b2 x y = (let p = small_screen ! (y * 3 + x) in Some [px_Red p, px_Green p, px_Blue p])"
    using picture [of PixelRedGreenBlueReserved8BitPerColor] by auto
  have "bmp_pixel b1 1 0 = Some [10, 11, 12]" "bmp_pixel b1 2 1 = Some [50, 51, 52]"
    "bmp_pixel b2 1 0 = Some [12, 11, 10]" "bmp_pixel b2 2 1 = Some [52, 51, 50]"
    by (simp_all add: b1(2) b2(2) small_screen_def)
  with b1(1) b2(1) show ?thesis by blast
qed

text \<open>For a frame buffer in red, green, blue order the colours of the picture are swapped: the pixels that
  the firmware copies always start with blue.\<close>

theorem red_and_blue_swapped:
  assumes "screen_fits sv" "ps_gop sv = EFI_SUCCESS" "ps_format sv = PixelRedGreenBlueReserved8BitPerColor"
    and "ps_alloc sv (unat (ps_frame_buffer_size sv)) w = (True, w1)" "ps_blt sv w1 = ((EFI_SUCCESS, blt), w2)"
    and "length blt = unat (ps_height sv) * unat (ps_width sv)"
    and "ps_alloc sv (unat (bmp_buffer_size (ps_width sv) (ps_height sv))) w2 = (True, w3)"
  shows "\<exists>bmp. WriteBmpToFile sv f w = (case ps_write sv f bmp w3 of ((status, written), w4) \<Rightarrow>
      Returned (if written \<noteq> bmp_buffer_size (ps_width sv) (ps_height sv) then EFI_BAD_BUFFER_SIZE else status, w4)) \<and>
    (\<forall>x<unat (ps_width sv). \<forall>y<unat (ps_height sv). bmp_pixel bmp x y =
       (let p = blt ! (y * unat (ps_width sv) + x) in Some [px_Red p, px_Green p, px_Blue p]))"
  using write_bmp_result [OF assms(1,2) _ assms(4-7), of f] assms(3) by (auto simp: Let_def)

text \<open>When the only file system has no device path, the success of the search before it is reported, and
  the volume that is then used was never set.\<close>

theorem volume_uninitialised:
  assumes "ps_check_event sv w = (EFI_SUCCESS, w1)" "ps_handles sv = (EFI_SUCCESS, [h])" "\<not> ps_has_path sv h"
  shows "PrintScreenCallback sv w = Faulted"
  using assms by (simp add: PrintScreenCallback_def FindUsbDriveForPrintScreen_def)

end
