(* ===== verification/DebugShell.thy ===== *)
theory DebugShell
  imports EfiBase
begin

text \<open>
  \<open>Library/DebugShellLib\<close>: a debug shell on the serial port that reads and writes model specific
  registers.

  The serial port is a stream: the octets still to be received and the octets sent.  The processor is
  a record of functions on the world.  When nothing is received any more the shell waits for ever,
  which is \<open>Unfinished\<close>.  A command line is the list of its octets before the terminator.
\<close>

record 'w msr_services =
  ms_read :: "u32 \<Rightarrow> 'w \<Rightarrow> u64 \<times> 'w"
  ms_write :: "u32 \<Rightarrow> u64 \<Rightarrow> 'w \<Rightarrow> 'w"

record 'w shell_port =
  po_input :: bytes
  po_output :: bytes
  po_world :: 'w

definition SHELL_CMD_BUF_SIZE :: nat where "SHELL_CMD_BUF_SIZE = 128"
definition SHELL_MAX_ARGS :: nat where "SHELL_MAX_ARGS = 8"

subsection \<open>Output and numbers\<close>

definition ShellPrint :: "bytes \<Rightarrow> 'w shell_port \<Rightarrow> 'w shell_port" where
  "ShellPrint str port = port\<lparr>po_output := po_output port @ str\<rparr>"

definition hex_char :: "u8 \<Rightarrow> u8" where
  "hex_char nibble = (if nibble < 10 then 0x30 + nibble else 0x41 + nibble - 10)"

text \<open>The loop over the digits, from the last one on: \<open>n\<close> are left.\<close>

fun print_digits :: "nat \<Rightarrow> u64 \<Rightarrow> bytes \<Rightarrow> bytes" where
  "print_digits 0 v str = str"
| "print_digits (Suc n) v str = print_digits n (drop_bit 4 v) (hex_char (ucast (v AND 0xF)) # str)"

definition ShellPrintHex64 :: "u64 \<Rightarrow> 'w shell_port \<Rightarrow> 'w shell_port" where
  "ShellPrintHex64 v port = ShellPrint (ascii ''0x'' @ print_digits 16 v []) port"

definition hex_nibble :: "u8 \<Rightarrow> u8 option" where
  "hex_nibble c =
     (if c \<ge> 0x30 \<and> c \<le> 0x39 then Some (c - 0x30)
      else if c \<ge> 0x61 \<and> c \<le> 0x66 then Some (c - 0x61 + 10)
      else if c \<ge> 0x41 \<and> c \<le> 0x46 then Some (c - 0x41 + 10)
      else None)"

fun parse_digits :: "u64 \<Rightarrow> bytes \<Rightarrow> u64 option" where
  "parse_digits res [] = Some res"
| "parse_digits res (c # cs) =
     (case hex_nibble c of None \<Rightarrow> None | Some n \<Rightarrow> parse_digits (push_bit 4 res OR ucast n) cs)"

text \<open>The value, or \<open>None\<close> for \<open>FALSE\<close>.\<close>

definition ShellParseHex64 :: "bytes \<Rightarrow> u64 option" where
  "ShellParseHex64 str =
     (let digits = (if 2 \<le> length str \<and> str ! 0 = 0x30 \<and> (str ! 1 = 0x78 \<or> str ! 1 = 0x58) then drop 2 str else str)
      in if digits = [] then None else parse_digits 0 digits)"

subsection \<open>Reading a line\<close>

text \<open>The loop: \<open>buf\<close> is the buffer and \<open>pos\<close> the next position; the result is the buffer and the port.\<close>

fun read_loop :: "bytes \<Rightarrow> bytes \<Rightarrow> nat \<Rightarrow> bytes \<Rightarrow> (bytes \<times> bytes \<times> bytes) outcome" where
  "read_loop [] buf pos out = Unfinished"
| "read_loop (ch # input) buf pos out =
     (if ch = 0x0D \<or> ch = 0x0A then
        (if pos < length buf then Returned (buf[pos := 0], input, out @ [0x0D, 0x0A]) else Faulted)
      else if ch = 0x08 \<or> ch = 0x7F then
        (if pos > 0 then read_loop input buf (pos - 1) (out @ [0x08, 0x20, 0x08]) else read_loop input buf pos out)
      else if ch \<ge> 0x20 \<and> ch < 0x7F then
        (if pos < length buf - 1 then read_loop input (buf[pos := ch]) (pos + 1) (out @ [ch]) else read_loop input buf pos out)
      else read_loop input buf pos out)"

definition ShellReadLine :: "bytes \<Rightarrow> 'w shell_port \<Rightarrow> (bytes \<times> 'w shell_port) outcome" where
  "ShellReadLine buf port =
     obind (read_loop (po_input port) buf 0 (po_output port)) (\<lambda>(buf', input, out).
       Returned (buf', port\<lparr>po_input := input, po_output := out\<rparr>))"

subsection \<open>Commands\<close>

definition white :: "u8 \<Rightarrow> bool" where "white c \<longleftrightarrow> c = 0x20 \<or> c = 0x09"

text \<open>The tokens, of which \<open>n\<close> more may be taken, as strings.\<close>

fun ShellTokenize :: "bytes \<Rightarrow> nat \<Rightarrow> bytes list" where
  "ShellTokenize line 0 = []"
| "ShellTokenize line (Suc n) =
     (let rest = dropWhile white line in
      if rest = [] then []
      else takeWhile (\<lambda>c. \<not> white c) rest # ShellTokenize (drop 1 (dropWhile (\<lambda>c. \<not> white c) rest)) n)"

declare ShellTokenize.simps [simp del]

definition help_text :: bytes where
  "help_text = ascii ''Available commands:'' @ [0x0D, 0x0A] @
     ascii ''  readmsr  <index>         - Read 64-bit MSR (hex index)'' @ [0x0D, 0x0A] @
     ascii ''  writemsr <index> <value> - Write 64-bit MSR (hex index and value)'' @ [0x0D, 0x0A] @
     ascii ''  help                     - Show this message'' @ [0x0D, 0x0A] @
     ascii ''  exit                     - Leave debug shell and continue boot'' @ [0x0D, 0x0A]"

definition CmdHelp :: "'w shell_port \<Rightarrow> 'w shell_port" where
  "CmdHelp port = ShellPrint help_text port"

text \<open>The quotation mark that closes what was typed.\<close>

definition quote :: bytes where "quote = [0x27]"

definition bad_argument :: "bytes \<Rightarrow> bytes \<Rightarrow> 'w shell_port \<Rightarrow> 'w shell_port" where
  "bad_argument what arg port = ShellPrint (quote @ [0x0D, 0x0A]) (ShellPrint arg (ShellPrint (what @ quote) port))"

definition msr_index :: "bytes \<Rightarrow> u64 option" where
  "msr_index arg = (case ShellParseHex64 arg of None \<Rightarrow> None | Some i \<Rightarrow> if i > 0xFFFFFFFF then None else Some i)"

definition CmdReadMsr :: "'w msr_services \<Rightarrow> bytes list \<Rightarrow> 'w shell_port \<Rightarrow> 'w shell_port" where
  "CmdReadMsr M argv port =
     (if length argv < 2 then ShellPrint (ascii ''Usage: readmsr <index_hex>'' @ [0x0D, 0x0A]) port
      else case msr_index (argv ! 1) of
        None \<Rightarrow> bad_argument (ascii ''Error: invalid MSR index '') (argv ! 1) port
      | Some index \<Rightarrow>
          (let (v, w) = ms_read M (ucast index) (po_world port);
               port = port\<lparr>po_world := w\<rparr>;
               port = ShellPrint (ascii ''MSR['') port;
               port = ShellPrintHex64 index port;
               port = ShellPrint (ascii ''] = '') port;
               port = ShellPrintHex64 v port
           in ShellPrint [0x0D, 0x0A] port))"

definition CmdWriteMsr :: "'w msr_services \<Rightarrow> bytes list \<Rightarrow> 'w shell_port \<Rightarrow> 'w shell_port" where
  "CmdWriteMsr M argv port =
     (if length argv < 3 then ShellPrint (ascii ''Usage: writemsr <index_hex> <value_hex>'' @ [0x0D, 0x0A]) port
      else case msr_index (argv ! 1) of
        None \<Rightarrow> bad_argument (ascii ''Error: invalid MSR index '') (argv ! 1) port
      | Some index \<Rightarrow>
          (case ShellParseHex64 (argv ! 2) of
             None \<Rightarrow> bad_argument (ascii ''Error: invalid value '') (argv ! 2) port
           | Some v \<Rightarrow>
               (let port = port\<lparr>po_world := ms_write M (ucast index) v (po_world port)\<rparr>;
                    port = ShellPrint (ascii ''MSR['') port;
                    port = ShellPrintHex64 index port;
                    port = ShellPrint (ascii ''] <- '') port;
                    port = ShellPrintHex64 v port
                in ShellPrint (ascii '' (written)'' @ [0x0D, 0x0A]) port)))"

text \<open>Whether the shell is left, and the port.\<close>

definition ShellProcessCommand :: "'w msr_services \<Rightarrow> bytes \<Rightarrow> 'w shell_port \<Rightarrow> bool \<times> 'w shell_port" where
  "ShellProcessCommand M line port =
     (let argv = ShellTokenize line SHELL_MAX_ARGS in
      if argv = [] then (False, port)
      else if argv ! 0 = ascii ''help'' then (False, CmdHelp port)
      else if argv ! 0 = ascii ''readmsr'' then (False, CmdReadMsr M argv port)
      else if argv ! 0 = ascii ''writemsr'' then (False, CmdWriteMsr M argv port)
      else if argv ! 0 = ascii ''exit'' then (True, ShellPrint (ascii ''Exiting debug shell...'' @ [0x0D, 0x0A]) port)
      else
        (let port = ShellPrint (ascii ''Unknown command: '' @ quote) port;
             port = ShellPrint (argv ! 0) port
         in (False, ShellPrint (quote @ ascii ''. Type '' @ quote @ ascii ''help'' @ quote @
                      ascii '' for available commands.'' @ [0x0D, 0x0A]) port)))"

lemma ShellPrint_input [simp]: "po_input (ShellPrint s port) = po_input port"
  by (simp add: ShellPrint_def)

lemma ShellPrintHex64_input [simp]: "po_input (ShellPrintHex64 v port) = po_input port"
  by (simp add: ShellPrintHex64_def)

lemma command_keeps_input: "po_input (snd (ShellProcessCommand M line port)) = po_input port"
  by (auto simp: ShellProcessCommand_def Let_def CmdHelp_def CmdReadMsr_def CmdWriteMsr_def bad_argument_def
      split: option.splits prod.splits)

lemma read_loop_consumes: "read_loop input buf pos out = Returned (buf', rest, out') \<Longrightarrow> length rest < length input"
  by (induction input buf pos out rule: read_loop.induct) (auto split: if_splits dest: less_SucI)

lemma ShellReadLine_consumes:
  "ShellReadLine buf port = Returned (buf', port') \<Longrightarrow> length (po_input port') < length (po_input port)"
  by (auto simp: ShellReadLine_def obind_Returned_iff dest: read_loop_consumes)

subsection \<open>The shell\<close>

text \<open>
  The loop of the shell; every line takes octets from the port.  The separators that the tokenizer
  overwrites in the buffer are not read again.
\<close>

function shell_loop :: "'w msr_services \<Rightarrow> bytes \<Rightarrow> bytes \<Rightarrow> 'w shell_port \<Rightarrow> 'w shell_port outcome" where
  "shell_loop M prompt buf port =
     (case ShellReadLine buf (ShellPrint prompt port) of
        Returned (buf', port1) \<Rightarrow>
          (case ShellProcessCommand M (c_str buf') port1 of
             (leave, port2) \<Rightarrow> if leave then Returned port2 else shell_loop M prompt buf' port2)
      | Aborted \<Rightarrow> Aborted | Faulted \<Rightarrow> Faulted | Unfinished \<Rightarrow> Unfinished)"
  by pat_completeness auto
termination
  by (relation "measure (\<lambda>(M, prompt, buf, port). length (po_input port))")
    (auto dest!: ShellReadLine_consumes, metis command_keeps_input snd_conv)

declare shell_loop.simps [simp del]

text \<open>\<open>stack\<close> is what the buffer of the line holds when the function is entered.\<close>

definition RunDebugShell :: "'w msr_services \<Rightarrow> bytes option \<Rightarrow> bytes \<Rightarrow> 'w shell_port \<Rightarrow> 'w shell_port outcome" where
  "RunDebugShell M prompt stack port =
     (let active = (case prompt of None \<Rightarrow> ascii ''> '' | Some p \<Rightarrow> p);
          port = ShellPrint ([0x0D, 0x0A] @ ascii ''*** Debug Shell ***'' @ [0x0D, 0x0A]) port;
          port = ShellPrint (ascii ''Type '' @ quote @ ascii ''help'' @ quote @ ascii '' for available commands.'' @
                   [0x0D, 0x0A, 0x0D, 0x0A]) port
      in shell_loop M active stack port)"

subsection \<open>Numbers are read as they are printed\<close>

lemma print_digits_append: "print_digits n v str = print_digits n v [] @ str"
proof (induction n arbitrary: v str)
  case (Suc n)
  show ?case using Suc [of "drop_bit 4 v" "hex_char (ucast (v AND 0xF)) # str"]
      Suc [of "drop_bit 4 v" "[hex_char (ucast (v AND 0xF))]"] by simp
qed simp

lemma parse_digits_append:
  "parse_digits res (xs @ ys) = (case parse_digits res xs of None \<Rightarrow> None | Some r \<Rightarrow> parse_digits r ys)"
  by (induction xs arbitrary: res) (auto split: option.splits)

lemma nibble_read:
  assumes "n < 16"
  shows "hex_nibble (hex_char n) = Some n"
proof -
  have "\<forall>k \<in> set [0..<16]. hex_nibble (hex_char (word_of_nat k)) = Some (word_of_nat k)" by code_simp
  moreover have "unat n \<in> set [0..<16]" using assms by (simp add: word_less_nat_alt)
  ultimately have "hex_nibble (hex_char (word_of_nat (unat n))) = Some (word_of_nat (unat n))" by blast
  then show ?thesis by simp
qed

lemma nibble_mask: "(v :: 'a :: len word) AND 0xF = take_bit 4 v"
  by (simp add: take_bit_eq_mask mask_eq_exp_minus_1)

lemma nibble_bits: "ucast (v AND 0xF :: u64) < (16 :: u8)"
proof -
  have "unat (v AND 0xF) < 16" using take_bit_nat_less_exp [of 4 "unat v"] by (simp add: nibble_mask unsigned_take_bit_eq)
  then show ?thesis by (simp add: word_less_nat_alt unsigned_ucast_eq take_bit_nat_eq_self)
qed

lemma push_nibble:
  "push_bit 4 (push_bit (4 * n) res OR take_bit (4 * n) (drop_bit 4 v)) OR ucast (ucast (v AND 0xF) :: u8)
    = push_bit (4 * Suc n) res OR take_bit (4 * Suc n) (v :: u64)"
  unfolding nibble_mask
  by (rule bit_word_eqI)
    (auto simp: bit_simps algebra_simps dest: bit_imp_le_length)

lemma parse_print_digits:
  "parse_digits res (print_digits n v []) = Some (push_bit (4 * n) res OR take_bit (4 * n) v)"
proof (induction n arbitrary: v res)
  case (Suc n)
  show ?case
    by (subst print_digits.simps, subst print_digits_append)
      (simp only: parse_digits_append Suc parse_digits.simps option.case nibble_read [OF nibble_bits] push_nibble)
qed simp

definition msr_text :: "u64 \<Rightarrow> bytes" where "msr_text v = ascii ''0x'' @ print_digits 16 v []"

lemma length_print_digits [simp]: "length (print_digits n v str) = n + length str"
  by (induction n v str rule: print_digits.induct) simp_all

lemma parse_msr_text [simp]: "ShellParseHex64 (msr_text v) = Some v"
proof -
  have "drop 2 (msr_text v) = print_digits 16 v []" by (simp add: msr_text_def ascii_def numeral_2_eq_2)
  moreover have "msr_text v ! 0 = 0x30" "msr_text v ! 1 = 0x78" "2 \<le> length (msr_text v)" "print_digits 16 v [] \<noteq> []"
    by (simp_all add: msr_text_def ascii_def flip: length_greater_0_conv)
  ultimately show ?thesis using parse_print_digits [of 0 16 v] take_bit_length_eq [of v]
    by (simp add: ShellParseHex64_def)
qed

text \<open>More digits than fit are accepted and the first ones dropped.\<close>

lemma long_number_truncated: "ShellParseHex64 (ascii ''10000000000000001b'') = Some 0x1B"
  by code_simp

subsection \<open>Lines are edited\<close>

text \<open>What a key makes of the line, and what is sent back for it.\<close>

definition line_with :: "bytes \<Rightarrow> u8 \<Rightarrow> bytes" where
  "line_with l ch =
     (if ch = 0x08 \<or> ch = 0x7F then butlast l
      else if ch \<ge> 0x20 \<and> ch < 0x7F \<and> length l < 127 then l @ [ch] else l)"

definition echo_of :: "bytes \<Rightarrow> u8 \<Rightarrow> bytes" where
  "echo_of l ch =
     (if ch = 0x08 \<or> ch = 0x7F then (if l = [] then [] else [0x08, 0x20, 0x08])
      else if ch \<ge> 0x20 \<and> ch < 0x7F \<and> length l < 127 then [ch] else [])"

definition typed_line :: "bytes \<Rightarrow> bytes" where "typed_line keys = foldl line_with [] keys"

fun echo :: "bytes \<Rightarrow> bytes \<Rightarrow> bytes" where
  "echo l [] = [0x0D, 0x0A]"
| "echo l (ch # keys) = echo_of l ch @ echo (line_with l ch) keys"

definition ends_line :: "u8 \<Rightarrow> bool" where "ends_line ch \<longleftrightarrow> ch = 0x0D \<or> ch = 0x0A"

lemma line_with_length: "length l < 128 \<Longrightarrow> length (line_with l ch) < 128"
  by (auto simp: line_with_def)

lemma line_with_string: "is_c_str l \<Longrightarrow> is_c_str (line_with l ch)"
  by (auto simp: line_with_def is_c_str_def list_all_iff dest: in_set_butlastD)

lemma read_loop_edits:
  "length buf = 128 \<Longrightarrow> length l < 128 \<Longrightarrow> is_c_str l \<Longrightarrow> take (length l) buf = l \<Longrightarrow>
     list_all (\<lambda>ch. \<not> ends_line ch) keys \<Longrightarrow> ends_line nl \<Longrightarrow>
   \<exists>buf'. read_loop (keys @ nl # rest) buf (length l) out = Returned (buf', rest, out @ echo l keys) \<and>
     length buf' = 128 \<and> c_str buf' = foldl line_with l keys"
proof (induction keys arbitrary: buf l out)
  case Nil
  have "buf[length l := 0] = l @ 0 # drop (Suc (length l)) buf"
    using Nil(1,2,4) by (metis id_take_nth_drop length_list_update list_update_length upd_conv_take_nth_drop)
  with Nil show ?case by (auto simp: ends_line_def c_str_id)
next
  case (Cons ch keys)
  let ?l = "line_with l ch"
  have step: "\<exists>buf1. read_loop ((ch # keys) @ nl # rest) buf (length l) out =
      read_loop (keys @ nl # rest) buf1 (length ?l) (out @ echo_of l ch) \<and> length buf1 = 128 \<and> take (length ?l) buf1 = ?l"
    (is "\<exists>buf1. ?P buf1")
  proof (cases "ch \<ge> 0x20 \<and> ch < 0x7F \<and> length l < 127")
    case True
    then have "?P (buf[length l := ch])" using Cons.prems
      by (auto simp: line_with_def echo_of_def ends_line_def take_Suc_conv_app_nth)
    then show ?thesis by blast
  next
    case False
    have "take (length l - 1) buf = butlast l"
      using arg_cong [OF Cons.prems(4), of "take (length l - 1)"] by (simp add: butlast_conv_take)
    then have "?P buf" using Cons.prems False
      by (auto simp: line_with_def echo_of_def ends_line_def)
    then show ?thesis by blast
  qed
  then obtain buf1 where b: "?P buf1" by blast
  with Cons.IH [of buf1 ?l "out @ echo_of l ch"] Cons.prems line_with_length line_with_string show ?case by auto
qed

lemma ShellReadLine_edits:
  assumes "length buf = 128" "list_all (\<lambda>ch. \<not> ends_line ch) keys" "ends_line nl" "po_input port = keys @ nl # rest"
  shows "\<exists>buf'. ShellReadLine buf port = Returned (buf', (ShellPrint (echo [] keys) port)\<lparr>po_input := rest\<rparr>) \<and>
    length buf' = 128 \<and> c_str buf' = typed_line keys"
  using read_loop_edits [of buf "[]" keys nl rest "po_output port"] assms
  by (auto simp: ShellReadLine_def typed_line_def ShellPrint_def)

subsection \<open>Sessions\<close>

text \<open>What one asks the shell for, the line to type, and what is done.\<close>

datatype shell_request = Show_help | Read_msr u32 | Write_msr u32 u64

fun request_line :: "shell_request \<Rightarrow> bytes" where
  "request_line Show_help = ascii ''help''"
| "request_line (Read_msr i) = ascii ''readmsr'' @ 0x20 # msr_text (ucast i)"
| "request_line (Write_msr i v) = ascii ''writemsr'' @ 0x20 # msr_text (ucast i) @ 0x20 # msr_text v"

fun request_effect :: "'w msr_services \<Rightarrow> shell_request \<Rightarrow> 'w \<Rightarrow> bytes \<times> 'w" where
  "request_effect M Show_help w = (help_text, w)"
| "request_effect M (Read_msr i) w =
     (let (v, w') = ms_read M i w
      in (ascii ''MSR['' @ msr_text (ucast i) @ ascii ''] = '' @ msr_text v @ [0x0D, 0x0A], w'))"
| "request_effect M (Write_msr i v) w =
     (ascii ''MSR['' @ msr_text (ucast i) @ ascii ''] <- '' @ msr_text v @ ascii '' (written)'' @ [0x0D, 0x0A],
      ms_write M i v w)"

fun request_effects :: "'w msr_services \<Rightarrow> shell_request list \<Rightarrow> 'w \<Rightarrow> bytes list \<times> 'w" where
  "request_effects M [] w = ([], w)"
| "request_effects M (r # rs) w =
     (let (reply, w') = request_effect M r w; (replies, w'') = request_effects M rs w' in (reply # replies, w''))"

text \<open>The keys of every line, and what the shell sends back for them.\<close>

definition keys_for :: "bytes \<Rightarrow> bytes \<Rightarrow> bool" where
  "keys_for keys l \<longleftrightarrow> list_all (\<lambda>ch. \<not> ends_line ch) keys \<and> typed_line keys = l"

definition typed_input :: "bytes list \<Rightarrow> bytes" where
  "typed_input typed = concat (map (\<lambda>keys. keys @ [0x0D]) typed)"

definition session_text :: "bytes \<Rightarrow> bytes list \<Rightarrow> bytes list \<Rightarrow> bytes" where
  "session_text prompt typed replies = concat (map2 (\<lambda>keys reply. prompt @ echo [] keys @ reply) typed replies)"

definition greeting :: bytes where
  "greeting = [0x0D, 0x0A] @ ascii ''*** Debug Shell ***'' @ [0x0D, 0x0A] @ ascii ''Type '' @ quote @ ascii ''help'' @
     quote @ ascii '' for available commands.'' @ [0x0D, 0x0A, 0x0D, 0x0A]"

definition farewell :: bytes where "farewell = ascii ''Exiting debug shell...'' @ [0x0D, 0x0A]"

lemma white_no_digit: "white c \<Longrightarrow> hex_nibble c = None"
  by (auto simp: white_def hex_nibble_def)

lemma print_digits_no_white: "list_all (\<lambda>c. \<not> white c) str \<Longrightarrow> list_all (\<lambda>c. \<not> white c) (print_digits n v str)"
proof (induction n arbitrary: v str)
  case (Suc n)
  have "\<not> white (hex_char (ucast (v AND 0xF)))" using nibble_read [OF nibble_bits, of v] white_no_digit by fastforce
  with Suc show ?case by simp
qed simp

lemma msr_text_no_white: "list_all (\<lambda>c. \<not> white c) (msr_text v)"
  using print_digits_no_white [of "[]" 16 v] by (simp add: msr_text_def ascii_def white_def)

lemma msr_text_nonempty [simp]: "msr_text v \<noteq> []"
  by (simp add: msr_text_def ascii_def)

lemma tokenize_last:
  assumes "list_all (\<lambda>c. \<not> white c) w" "w \<noteq> []"
  shows "ShellTokenize w (Suc n) = [w]"
proof -
  have "dropWhile white w = w" using assms by (cases w) simp_all
  moreover have "takeWhile (\<lambda>c. \<not> white c) w = w" "drop 1 (dropWhile (\<lambda>c. \<not> white c) w) = []"
    using assms(1) by (induction w) simp_all
  moreover have "ShellTokenize [] n = []" by (cases n) (simp_all add: ShellTokenize.simps)
  ultimately show ?thesis using assms(2) by (simp only: ShellTokenize.simps Let_def if_False)
qed

lemma tokenize_word:
  assumes "list_all (\<lambda>c. \<not> white c) w" "w \<noteq> []"
  shows "ShellTokenize (w @ 0x20 # rest) (Suc n) = w # ShellTokenize rest n"
proof -
  have "dropWhile white (w @ 0x20 # rest) = w @ 0x20 # rest" using assms by (cases w) simp_all
  moreover have "takeWhile (\<lambda>c. \<not> white c) (w @ 0x20 # rest) = w" "dropWhile (\<lambda>c. \<not> white c) (w @ 0x20 # rest) = 0x20 # rest"
    using assms(1) by (induction w) (simp_all add: white_def)
  ultimately show ?thesis using assms(2) by (simp add: ShellTokenize.simps Let_def)
qed

lemma command_words:
  "list_all (\<lambda>c. \<not> white c) (ascii ''help'')" "list_all (\<lambda>c. \<not> white c) (ascii ''readmsr'')"
  "list_all (\<lambda>c. \<not> white c) (ascii ''writemsr'')" "list_all (\<lambda>c. \<not> white c) (ascii ''exit'')"
  "ascii ''help'' \<noteq> []" "ascii ''readmsr'' \<noteq> []" "ascii ''writemsr'' \<noteq> []" "ascii ''exit'' \<noteq> []"
  by code_simp+

lemma different_words:
  "ascii ''readmsr'' \<noteq> ascii ''help''" "ascii ''writemsr'' \<noteq> ascii ''help''" "ascii ''writemsr'' \<noteq> ascii ''readmsr''"
  "ascii ''exit'' \<noteq> ascii ''help''" "ascii ''exit'' \<noteq> ascii ''readmsr''" "ascii ''exit'' \<noteq> ascii ''writemsr''"
  by (simp_all add: ascii_def)

lemma msr_index_text [simp]: "msr_index (msr_text (ucast (i :: u32))) = Some (ucast i)"
proof -
  have "unat i < 2 ^ 32" using unsigned_less [of i, where ?'a = nat] by simp
  then have "\<not> (ucast i :: u64) > 0xFFFFFFFF" by (simp add: word_less_nat_alt unat_ucast_up)
  then show ?thesis by (simp add: msr_index_def)
qed

lemma u32_of_u64 [simp]: "ucast (ucast (i :: u32) :: u64) = i"
  by (rule bit_word_eqI) (auto simp: bit_simps)

lemmas shell_output = ShellPrint_def ShellPrintHex64_def msr_text_def [symmetric]

lemma request_tokens:
  "ShellTokenize (request_line r) 8 = (case r of Show_help \<Rightarrow> [ascii ''help'']
    | Read_msr i \<Rightarrow> [ascii ''readmsr'', msr_text (ucast i)]
    | Write_msr i v \<Rightarrow> [ascii ''writemsr'', msr_text (ucast i), msr_text v])"
  by (cases r) (simp_all add: eval_nat_numeral tokenize_last tokenize_word command_words msr_text_no_white)

lemma request_processed:
  "ShellProcessCommand M (request_line r) port =
    (False, (ShellPrint (fst (request_effect M r (po_world port))) port)\<lparr>po_world := snd (request_effect M r (po_world port))\<rparr>)"
  by (cases r; cases port) (simp_all del: request_line.simps add: ShellProcessCommand_def SHELL_MAX_ARGS_def request_tokens different_words CmdHelp_def
      CmdReadMsr_def CmdWriteMsr_def shell_output Let_def split: prod.splits)

lemma exit_processed: "ShellProcessCommand M (ascii ''exit'') port = (True, ShellPrint farewell port)"
proof -
  have "ShellTokenize (ascii ''exit'') 8 = [ascii ''exit'']"
    by (simp add: eval_nat_numeral tokenize_last command_words)
  then show ?thesis by (simp add: ShellProcessCommand_def SHELL_MAX_ARGS_def different_words farewell_def)
qed

lemma shell_session_loop:
  assumes "length buf = 128" "list_all2 keys_for typed (map request_line requests)" "keys_for leaving (ascii ''exit'')"
    "po_input port = typed_input (typed @ [leaving]) @ rest"
  shows "\<exists>port'. shell_loop M prompt buf port = Returned port' \<and> po_input port' = rest \<and>
    po_world port' = snd (request_effects M requests (po_world port)) \<and>
    po_output port' = po_output port @ session_text prompt (typed @ [leaving])
      (fst (request_effects M requests (po_world port)) @ [farewell])"
  using assms
proof (induction requests arbitrary: typed buf port)
  case Nil
  have "po_input (ShellPrint prompt port) = leaving @ 0x0D # rest" using Nil by (simp add: typed_input_def)
  then obtain buf' where r: "ShellReadLine buf (ShellPrint prompt port) =
      Returned (buf', (ShellPrint (echo [] leaving) (ShellPrint prompt port))\<lparr>po_input := rest\<rparr>)" "c_str buf' = ascii ''exit''"
    using ShellReadLine_edits [OF Nil.prems(1), of leaving "0x0D" "ShellPrint prompt port" rest] Nil.prems(3) by (auto simp: keys_for_def ends_line_def)
  with Nil show ?case
    by (subst shell_loop.simps) (simp add: exit_processed, simp add: ShellPrint_def session_text_def)
next
  case (Cons r requests)
  then obtain keys typed' where t: "typed = keys # typed'" "keys_for keys (request_line r)"
      "list_all2 keys_for typed' (map request_line requests)"
    by (auto simp: list_all2_Cons2)
  let ?more = "typed_input (typed' @ [leaving]) @ rest"
  have "po_input (ShellPrint prompt port) = keys @ 0x0D # ?more" using Cons.prems(4) t(1) by (simp add: typed_input_def)
  then obtain buf' where b: "ShellReadLine buf (ShellPrint prompt port) =
      Returned (buf', (ShellPrint (echo [] keys) (ShellPrint prompt port))\<lparr>po_input := ?more\<rparr>)"
      "length buf' = 128" "c_str buf' = request_line r"
    using ShellReadLine_edits [OF Cons.prems(1), of keys "0x0D" "ShellPrint prompt port" ?more] t(2) by (auto simp: keys_for_def ends_line_def)
  define port1 where "port1 = (ShellPrint (echo [] keys) (ShellPrint prompt port))\<lparr>po_input := ?more\<rparr>"
  define port2 where "port2 = snd (ShellProcessCommand M (request_line r) port1)"
  have "shell_loop M prompt buf port = shell_loop M prompt buf' port2"
    by (subst shell_loop.simps) (simp add: b request_processed port1_def port2_def)
  moreover have "po_input port2 = ?more" by (simp add: port2_def command_keeps_input port1_def)
  moreover have "po_world port2 = snd (request_effect M r (po_world port))"
      "po_output port2 = po_output port @ prompt @ echo [] keys @ fst (request_effect M r (po_world port))"
    by (simp_all add: port2_def request_processed port1_def ShellPrint_def)
  ultimately show ?case using Cons.IH [OF b(2) t(3) Cons.prems(3), of port2] t(1)
    by (simp add: session_text_def split_def Let_def)
qed

text \<open>Whatever is received, the shell stays inside the buffer of the line.\<close>

lemma read_loop_unfinished: "list_all (\<lambda>ch. \<not> ends_line ch) input \<Longrightarrow> read_loop input buf pos out = Unfinished"
  by (induction input buf pos out rule: read_loop.induct) (auto simp: ends_line_def)

lemma ShellReadLine_safe:
  assumes "length buf = 128"
  shows "ensures (\<lambda>(buf', port'). length buf' = 128) (ShellReadLine buf port) \<and> no_fault (ShellReadLine buf port)"
proof (cases "list_all (\<lambda>ch. \<not> ends_line ch) (po_input port)")
  case True
  then show ?thesis by (simp add: ShellReadLine_def ensures_def read_loop_unfinished)
next
  case False
  then obtain keys nl rest where "po_input port = keys @ nl # rest" "list_all (\<lambda>ch. \<not> ends_line ch) keys" "ends_line nl"
    using split_list_first_prop [of "po_input port" ends_line] by (auto simp: list_all_iff)
  with ShellReadLine_edits [OF assms this(2,3,1)] show ?thesis by (auto simp: ensures_def)
qed

lemma shell_loop_safe: "length buf = 128 \<Longrightarrow> no_fault (shell_loop M prompt buf port)"
proof (induction M prompt buf port rule: shell_loop.induct)
  case (1 M prompt buf port)
  note safe = ShellReadLine_safe [OF 1(2), of "ShellPrint prompt port"]
  show ?case
  proof (cases "ShellReadLine buf (ShellPrint prompt port)")
    case (Returned r)
    then obtain buf' port1 where r: "ShellReadLine buf (ShellPrint prompt port) = Returned (buf', port1)" by (cases r) simp
    with safe have "length buf' = 128" by (simp add: ensures_def)
    with 1(1) [OF r refl] show ?thesis
      by (subst shell_loop.simps) (auto simp: r split: prod.splits)
  qed (use safe in \<open>(subst shell_loop.simps, simp)+\<close>)
qed

lemma shell_never_faults:
  "length stack = SHELL_CMD_BUF_SIZE \<Longrightarrow> no_fault (RunDebugShell M prompt stack port)"
  by (simp add: RunDebugShell_def SHELL_CMD_BUF_SIZE_def shell_loop_safe Let_def)

text \<open>
  C26: A session on the serial port carries out what was asked.  The lines may be typed with
  corrections; when the edited lines are the requests and then exit, the shell returns, the registers
  have been read and written in the order of the requests, with the index and the value of each, the
  port received the greeting and for every line the prompt, the echo of its keys and the reply, and
  what was typed after the exit is left to be read.
\<close>

theorem shell_session:
  assumes "length stack = SHELL_CMD_BUF_SIZE" "list_all2 keys_for typed (map request_line requests)"
    "keys_for leaving (ascii ''exit'')" "po_input port = typed_input (typed @ [leaving]) @ rest"
  shows "\<exists>port'. RunDebugShell M (Some prompt) stack port = Returned port' \<and> po_input port' = rest \<and>
    po_world port' = snd (request_effects M requests (po_world port)) \<and>
    po_output port' = po_output port @ greeting @ session_text prompt (typed @ [leaving])
      (fst (request_effects M requests (po_world port)) @ [farewell])"
  using shell_session_loop [of stack typed requests leaving "ShellPrint greeting port" rest M prompt] assms
  by (simp add: RunDebugShell_def SHELL_CMD_BUF_SIZE_def greeting_def ShellPrint_def)

definition one_register :: "u64 msr_services" where
  "one_register = \<lparr>ms_read = \<lambda>i w. (w, w), ms_write = \<lambda>i v w. v\<rparr>"

lemma shell_session_witness:
  "\<exists>port'. RunDebugShell one_register (Some (ascii ''> '')) (replicate 128 0xCC)
      \<lparr>po_input = typed_input ([[0x41, 0x08] @ request_line (Write_msr 0x1B 5), request_line (Read_msr 0x1B)] @ [ascii ''exit'']) @ [0x42],
       po_output = [], po_world = 0\<rparr> = Returned port' \<and> po_input port' = [0x42] \<and> po_world port' = 5"
proof -
  have keys: "list_all2 keys_for [[0x41, 0x08] @ request_line (Write_msr 0x1B 5), request_line (Read_msr 0x1B)]
      (map request_line [Write_msr 0x1B 5, Read_msr 0x1B])" by code_simp
  have exit: "keys_for (ascii ''exit'') (ascii ''exit'')" by code_simp
  have world: "snd (request_effects one_register [Write_msr 0x1B 5, Read_msr 0x1B] 0) = 5"
    by (simp add: one_register_def)
  show ?thesis
    using shell_session [of "replicate 128 0xCC", OF _ keys exit, of
        "\<lparr>po_input = typed_input ([[0x41, 0x08] @ request_line (Write_msr 0x1B 5), request_line (Read_msr 0x1B)] @ [ascii ''exit'']) @ [0x42],
          po_output = [], po_world = 0\<rparr>" "[0x42]" one_register "ascii ''> ''"] world
    by (auto simp: SHELL_CMD_BUF_SIZE_def simp del: request_line.simps)
qed

end
