(* ===== verification/UefiTool.thy ===== *)
theory UefiTool
  imports EfiShell "HOL-Library.Multiset"
begin

text \<open>
  \<open>Application/UefiTool\<close>: a command line that reads and writes model specific registers, memory and
  ports on one or on all processors, and saves memory to a file.

  The machine is a record of functions on the world; what a processor does itself takes the number
  of the processor.  The result has the values that are printed: a value printed without the length
  modifier of 64 bits keeps its low 32 bits.  An argument behind the last one is \<open>Faulted\<close>.
\<close>

record cpu_location =
  lo_Package :: u32
  lo_Core :: u32
  lo_Thread :: u32

record UT_CPUID_REGISTER =
  cr_Eax :: u32
  cr_Ebx :: u32
  cr_Ecx :: u32
  cr_Edx :: u32

record ('f, 'w) tool_machine =
  um_shell :: "('f, 'w) shell"
  um_mp :: EFI_STATUS
  um_count :: "EFI_STATUS \<times> u64"
  um_info_size :: u64
  um_info :: "nat \<Rightarrow> EFI_STATUS \<times> cpu_location"
  um_who :: "EFI_STATUS \<times> u64"
  um_start_ap :: "u64 \<Rightarrow> 'w \<Rightarrow> bool \<times> 'w"
  um_rdmsr :: "u64 \<Rightarrow> u32 \<Rightarrow> 'w \<Rightarrow> u64 \<times> 'w"
  um_wrmsr :: "u64 \<Rightarrow> u32 \<Rightarrow> u64 \<Rightarrow> 'w \<Rightarrow> 'w"
  um_cpuid :: "u64 \<Rightarrow> u32 \<Rightarrow> u32 \<Rightarrow> 'w \<Rightarrow> UT_CPUID_REGISTER \<times> 'w"
  um_gdtr :: "'w \<Rightarrow> u64 \<times> u16"
  um_cr :: "nat \<Rightarrow> 'w \<Rightarrow> u64"
  um_io_read :: "nat \<Rightarrow> u64 \<Rightarrow> 'w \<Rightarrow> u64 \<times> 'w"
  um_io_write :: "nat \<Rightarrow> u64 \<Rightarrow> u64 \<Rightarrow> 'w \<Rightarrow> 'w"
  um_mem_read :: "u64 \<Rightarrow> nat \<Rightarrow> u64 \<Rightarrow> 'w \<Rightarrow> u64 \<times> 'w"
  um_mem_write :: "u64 \<Rightarrow> nat \<Rightarrow> u64 \<Rightarrow> u64 \<Rightarrow> 'w \<Rightarrow> 'w"
  um_memory :: "u64 \<Rightarrow> u64 \<Rightarrow> 'w \<Rightarrow> bytes"
  um_hex :: "ustring \<Rightarrow> u64"

subsection \<open>Strings and options\<close>

definition ToUpper :: "u16 \<Rightarrow> u16" where
  "ToUpper a = (if 0x61 \<le> a \<and> a \<le> 0x7A then a - 0x20 else a)"

definition StrUpr :: "ustring \<Rightarrow> ustring" where
  "StrUpr str = map ToUpper str"

definition OPCODE_RDMSR_BIT :: u64 where "OPCODE_RDMSR_BIT = 1"
definition OPCODE_WRMSR_BIT :: u64 where "OPCODE_WRMSR_BIT = 2"
definition OPCODE_CPUID_BIT :: u64 where "OPCODE_CPUID_BIT = 4"
definition OPCODE_ALLPROCESSOR_BIT :: u64 where "OPCODE_ALLPROCESSOR_BIT = 8"
definition OPCODE_PROCESSOR_INDEX_BIT :: u64 where "OPCODE_PROCESSOR_INDEX_BIT = 0x10"
definition OPCODE_SGDT_BIT :: u64 where "OPCODE_SGDT_BIT = 0x20"
definition OPCODE_CR_BIT :: u64 where "OPCODE_CR_BIT = 0x40"
definition OPCODE_RMM_BIT :: u64 where "OPCODE_RMM_BIT = 0x80"
definition OPCODE_WMM_BIT :: u64 where "OPCODE_WMM_BIT = 0x100"
definition OPCODE_DUMPMEM_BIT :: u64 where "OPCODE_DUMPMEM_BIT = 0x200"
definition OPCODE_UCODE_BIT :: u64 where "OPCODE_UCODE_BIT = 0x400"
definition OPCODE_READ_MEM_TEST_BIT :: u64 where "OPCODE_READ_MEM_TEST_BIT = 0x800"
definition OPCODE_WRITE_MEM_TEST_BIT :: u64 where "OPCODE_WRITE_MEM_TEST_BIT = 0x1000"

lemmas opcode_bits = OPCODE_RDMSR_BIT_def OPCODE_WRMSR_BIT_def OPCODE_CPUID_BIT_def OPCODE_ALLPROCESSOR_BIT_def
  OPCODE_PROCESSOR_INDEX_BIT_def OPCODE_SGDT_BIT_def OPCODE_CR_BIT_def OPCODE_RMM_BIT_def OPCODE_WMM_BIT_def
  OPCODE_DUMPMEM_BIT_def OPCODE_UCODE_BIT_def OPCODE_READ_MEM_TEST_BIT_def OPCODE_WRITE_MEM_TEST_BIT_def

record UEFI_TOOL_CONTEXT =
  ut_MsrIndex :: u32
  ut_MsrValue :: u64
  ut_CpuIdIndex :: u32
  ut_CpuIdSubIndex :: u32
  ut_ProcessorIndex :: u64
  ut_MmAddress :: u64
  ut_MmValue :: u64
  ut_MmWidth :: u64
  ut_MmAccessType :: u8
  ut_DumpMemAddress :: u64
  ut_DumpMemSize :: u64
  ut_DumpMemFile :: ustring

text \<open>
  One turn of the loop over the arguments.  The copy of the file name takes the size of a pointer,
  which are four characters of it; what follows a shorter name is not used.
\<close>

definition tool_argument :: "ustring list \<Rightarrow> nat \<Rightarrow> ustring outcome" where
  "tool_argument argv n = checked (if n < length argv then Some (argv ! n) else None)"

definition tool_option ::
  "('f, 'w) tool_machine \<Rightarrow> ustring list \<Rightarrow> u8 \<Rightarrow> u64 \<Rightarrow> UEFI_TOOL_CONTEXT \<Rightarrow> (u8 \<times> u64 \<times> UEFI_TOOL_CONTEXT) outcome" where
  "tool_option M argv index opcode ut =
     (let n = unat index; argc = length argv; hex = um_hex M; a = argv ! n in
      if n + 1 < argc \<and> a = wide ''RDMSR'' then
        Returned (index + 2, opcode OR OPCODE_RDMSR_BIT, ut\<lparr>ut_MsrIndex := ucast (hex (argv ! (n + 1)))\<rparr>)
      else if n + 2 < argc \<and> a = wide ''WRMSR'' then
        Returned (index + 3, opcode OR OPCODE_WRMSR_BIT,
          ut\<lparr>ut_MsrIndex := ucast (hex (argv ! (n + 1))), ut_MsrValue := hex (argv ! (n + 2))\<rparr>)
      else if n + 2 < argc \<and> a = wide ''CPUID'' then
        Returned (index + 3, opcode OR OPCODE_CPUID_BIT,
          ut\<lparr>ut_CpuIdIndex := ucast (hex (argv ! (n + 1))), ut_CpuIdSubIndex := ucast (hex (argv ! (n + 2)))\<rparr>)
      else if n < argc \<and> a = wide ''-A'' then Returned (index + 1, opcode OR OPCODE_ALLPROCESSOR_BIT, ut)
      else if n + 1 < argc \<and> a = wide ''-P'' then
        Returned (index + 2, opcode OR OPCODE_PROCESSOR_INDEX_BIT, ut\<lparr>ut_ProcessorIndex := hex (argv ! (n + 1))\<rparr>)
      else if n + 1 < argc \<and> a = wide ''-RMM'' then
        Returned (index + 2, opcode OR OPCODE_RMM_BIT, ut\<lparr>ut_MmAddress := hex (argv ! (n + 1))\<rparr>)
      else if n + 1 < argc \<and> a = wide ''-WMM'' then
        obind (tool_argument argv (n + 2)) (\<lambda>v.
          Returned (index + 3, opcode OR OPCODE_WMM_BIT, ut\<lparr>ut_MmAddress := hex (argv ! (n + 1)), ut_MmValue := hex v\<rparr>))
      else if n < argc \<and> a = wide ''-W'' then
        obind (tool_argument argv (n + 1)) (\<lambda>v. Returned (index + 2, opcode, ut\<lparr>ut_MmWidth := hex v\<rparr>))
      else if n < argc \<and> a = wide ''-MEM'' then Returned (index + 1, opcode, ut\<lparr>ut_MmAccessType := 0\<rparr>)
      else if n < argc \<and> a = wide ''-IO'' then Returned (index + 1, opcode, ut\<lparr>ut_MmAccessType := 1\<rparr>)
      else if n + 3 < argc \<and> a = wide ''DUMPMEM'' then
        Returned (index + 4, opcode OR OPCODE_DUMPMEM_BIT,
          ut\<lparr>ut_DumpMemAddress := hex (argv ! (n + 1)), ut_DumpMemSize := hex (argv ! (n + 2)),
             ut_DumpMemFile := take 4 (argv ! (n + 3))\<rparr>)
      else if n + 1 < argc \<and> a = wide ''-RT'' then
        Returned (index + 2, opcode OR OPCODE_READ_MEM_TEST_BIT, ut\<lparr>ut_MmAddress := hex (argv ! (n + 1))\<rparr>)
      else if n + 1 < argc \<and> a = wide ''-WT'' then
        obind (tool_argument argv (n + 2)) (\<lambda>v.
          Returned (index + 3, opcode OR OPCODE_WRITE_MEM_TEST_BIT,
            ut\<lparr>ut_MmAddress := hex (argv ! (n + 1)), ut_MmValue := hex v\<rparr>))
      else Returned (index + 1, opcode, ut))"

text \<open>The loop; the index is an octet, so the number of turns is limited by fuel.\<close>

fun tool_options ::
  "('f, 'w) tool_machine \<Rightarrow> nat \<Rightarrow> ustring list \<Rightarrow> u8 \<Rightarrow> u64 \<Rightarrow> UEFI_TOOL_CONTEXT \<Rightarrow> (u64 \<times> UEFI_TOOL_CONTEXT) outcome" where
  "tool_options M 0 argv index opcode ut = Unfinished"
| "tool_options M (Suc fuel) argv index opcode ut =
     (if unat index + 1 > length argv then Returned (opcode, ut)
      else
        (let argv = argv[unat index := StrUpr (argv ! unat index)]
         in obind (tool_option M argv index opcode ut) (\<lambda>(index, opcode, ut). tool_options M fuel argv index opcode ut)))"

subsection \<open>Processors\<close>

text \<open>The locations of the processors and the number of the one that boots.\<close>

fun processor_infos :: "('f, 'w) tool_machine \<Rightarrow> nat \<Rightarrow> nat \<Rightarrow> cpu_location list \<Rightarrow> (EFI_STATUS + cpu_location list) outcome" where
  "processor_infos M octets 0 infos = Returned (Inr infos)"
| "processor_infos M octets (Suc n) infos =
     (if unat (um_info_size M) * Suc (length infos) > octets then Faulted
      else case um_info M (length infos) of (status, info) \<Rightarrow>
        if EFI_ERROR status then Returned (Inl status) else processor_infos M octets n (infos @ [info]))"

definition GetProcessorsCpuLocation ::
  "('f, 'w) tool_machine \<Rightarrow> 'w \<Rightarrow> ((EFI_STATUS + cpu_location list \<times> u64) \<times> 'w) outcome" where
  "GetProcessorsCpuLocation M w =
     (if EFI_ERROR (um_mp M) then Returned (Inl EFI_UNSUPPORTED, w)
      else case um_count M of (status, processors) \<Rightarrow>
      if EFI_ERROR status then Returned (Inl status, w)
      else case sh_alloc (um_shell M) (unat (um_info_size M * processors)) w of (ok, w1) \<Rightarrow>
      if \<not> ok then Returned (Inl EFI_OUT_OF_RESOURCES, w1)
      else obind (processor_infos M (unat (um_info_size M * processors)) (unat processors) []) (\<lambda>r. case r of
          Inl status \<Rightarrow> Returned (Inl status, w1)
        | Inr infos \<Rightarrow>
            (case um_who M of (status, bsp) \<Rightarrow>
             Returned (if EFI_ERROR status then Inl status else Inr (infos, bsp), w1))))"

text \<open>
  A procedure on a processor: the booting one calls it, another one is started with it; if it is not
  started, the value is the one the variable was given before.
\<close>

definition on_processor :: "('f, 'w) tool_machine \<Rightarrow> u64 \<Rightarrow> 'a \<Rightarrow> (u64 \<Rightarrow> 'w \<Rightarrow> 'a \<times> 'w) \<Rightarrow> u64 \<Rightarrow> 'w \<Rightarrow> 'a \<times> 'w" where
  "on_processor M bsp before proc index w =
     (if index = bsp then proc index w
      else case um_start_ap M index w of (started, w1) \<Rightarrow> if started then proc index w1 else (before, w1))"

definition ApUtReadMsr :: "('f, 'w) tool_machine \<Rightarrow> UEFI_TOOL_CONTEXT \<Rightarrow> u64 \<Rightarrow> 'w \<Rightarrow> u64 \<times> 'w" where
  "ApUtReadMsr M ut cpu w = um_rdmsr M cpu (ut_MsrIndex ut) w"

definition ApUtReadCpuId :: "('f, 'w) tool_machine \<Rightarrow> UEFI_TOOL_CONTEXT \<Rightarrow> u64 \<Rightarrow> 'w \<Rightarrow> UT_CPUID_REGISTER \<times> 'w" where
  "ApUtReadCpuId M ut cpu w = um_cpuid M cpu (ut_CpuIdIndex ut) (ut_CpuIdSubIndex ut) w"

text \<open>The signature is in the upper half of the register \<open>MSR_IA32_BIOS_SIGN_ID\<close>, 0x8B.\<close>

definition GetCurrentMicrocodeSignature :: "('f, 'w) tool_machine \<Rightarrow> u64 \<Rightarrow> 'w \<Rightarrow> u32 \<times> 'w" where
  "GetCurrentMicrocodeSignature M cpu w =
     (let w1 = um_wrmsr M cpu 0x8B 0 w; w2 = snd (um_cpuid M cpu 1 0 w1); (v, w3) = um_rdmsr M cpu 0x8B w2
      in (ucast (drop_bit 32 v), w3))"

definition ReadMemoryOnEachProcessor :: "('f, 'w) tool_machine \<Rightarrow> UEFI_TOOL_CONTEXT \<Rightarrow> u64 \<Rightarrow> 'w \<Rightarrow> u64 \<times> 'w" where
  "ReadMemoryOnEachProcessor M ut cpu w = um_mem_read M cpu 8 (ut_MmAddress ut) w"

definition WriteMemoryOnEachProcessor :: "('f, 'w) tool_machine \<Rightarrow> UEFI_TOOL_CONTEXT \<Rightarrow> u64 \<Rightarrow> 'w \<Rightarrow> unit \<times> 'w" where
  "WriteMemoryOnEachProcessor M ut cpu w = ((), um_mem_write M cpu 8 (ut_MmAddress ut) (ut_MmValue ut) w)"

subsection \<open>Carrying out\<close>

datatype tool_print =
  P_rdmsr u32 u64 | P_wrmsr u64 u32 | P_cpuid u32 u32 UT_CPUID_REGISTER | P_gdtr u32 u32 | P_cr "u32 list"
| P_rdmsr_on u32 u32 cpu_location u64 | P_cpuid_on cpu_location u32 u32 UT_CPUID_REGISTER
| P_io_read u32 u32 | P_io_written u32 u32 | P_mem_read u32 u32 | P_mem_written u32 u32
| P_save_failed | P_saved ustring | P_microcode u32 cpu_location u32
| P_memory_on u64 u32 cpu_location u64 | P_memory_written_on u64 u64 u32 cpu_location

text \<open>The loop over all processors: for each a procedure, and a line from its location and its value.\<close>

fun each_processor ::
  "('f, 'w) tool_machine \<Rightarrow> u64 \<Rightarrow> 'a \<Rightarrow> (u64 \<Rightarrow> 'w \<Rightarrow> 'a \<times> 'w) \<Rightarrow> (u64 \<Rightarrow> cpu_location \<Rightarrow> 'a \<Rightarrow> tool_print) \<Rightarrow>
   u64 \<Rightarrow> cpu_location list \<Rightarrow> 'w \<Rightarrow> tool_print list \<times> 'w" where
  "each_processor M bsp before proc line index [] w = ([], w)"
| "each_processor M bsp before proc line index (loc # locs) w =
     (let (v, w1) = on_processor M bsp before proc index w;
          (out, w2) = each_processor M bsp before proc line (index + 1) locs w1
      in (line index loc v # out, w2))"

definition mm_width :: "u64 \<Rightarrow> nat outcome" where
  "mm_width width = (if width \<in> {1, 2, 4, 8} then Returned (unat width) else Aborted)"

text \<open>Reading eight octets of memory calls the routine for ports.\<close>

definition access_memory ::
  "('f, 'w) tool_machine \<Rightarrow> u64 \<Rightarrow> bool \<Rightarrow> UEFI_TOOL_CONTEXT \<Rightarrow> 'w \<Rightarrow> (tool_print list \<times> 'w) outcome" where
  "access_memory M bsp reading ut w =
     (let address = ut_MmAddress ut; v = ut_MmValue ut in
      obind (mm_width (ut_MmWidth ut)) (\<lambda>n.
        if ut_MmAccessType ut \<noteq> 0 then
          (if reading then (case um_io_read M n address w of (d, w1) \<Rightarrow> Returned ([P_io_read (ucast address) (ucast d)], w1))
           else Returned ([P_io_written (ucast v) (ucast address)], um_io_write M n address (take_bit (8 * n) v) w))
        else if reading then
          (case (if n = 8 then um_io_read M 8 address w else um_mem_read M bsp n address w) of (d, w1) \<Rightarrow>
            Returned ([P_mem_read (ucast address) (ucast d)], w1))
        else Returned ([P_mem_written (ucast v) (ucast address)], um_mem_write M bsp n address (take_bit (8 * n) v) w)))"

text \<open>
  The status, the lines and the world.  The conditions of the source exclude each other, so that the
  first one that holds decides.
\<close>

definition UefiToolRoutine ::
  "('f, 'w) tool_machine \<Rightarrow> cpu_location list \<Rightarrow> u64 \<Rightarrow> u64 \<Rightarrow> UEFI_TOOL_CONTEXT \<Rightarrow> 'w \<Rightarrow> ((EFI_STATUS \<times> tool_print list) \<times> 'w) outcome" where
  "UefiToolRoutine M locs bsp opcode ut w =
     (let msr = ut_MsrIndex ut; ret = (\<lambda>(out, w). Returned ((EFI_SUCCESS, out), w)) in
      if opcode = OPCODE_RDMSR_BIT then (case um_rdmsr M bsp msr w of (v, w1) \<Rightarrow> ret ([P_rdmsr msr v], w1))
      else if opcode = OPCODE_WRMSR_BIT then
        ret ([P_wrmsr (ut_MsrValue ut) msr], um_wrmsr M bsp msr (ut_MsrValue ut) w)
      else if opcode = OPCODE_CPUID_BIT then
        (case ApUtReadCpuId M ut bsp w of (r, w1) \<Rightarrow> ret ([P_cpuid (ut_CpuIdIndex ut) (ut_CpuIdSubIndex ut) r], w1))
      else if opcode = OPCODE_SGDT_BIT then
        (case um_gdtr M w of (base, limit) \<Rightarrow> ret ([P_gdtr (ucast base) (ucast limit)], w))
      else if opcode = OPCODE_CR_BIT then ret ([P_cr (map (\<lambda>n. ucast (um_cr M n w)) [0, 2, 3, 4])], w)
      else if opcode = OPCODE_RDMSR_BIT OR OPCODE_PROCESSOR_INDEX_BIT then
        (let index = ut_ProcessorIndex ut in
         case on_processor M bsp 0 (ApUtReadMsr M ut) index w of (v, w1) \<Rightarrow>
         obind (checked (if unat index < length locs then Some (locs ! unat index) else None)) (\<lambda>loc.
           ret ([P_rdmsr_on msr (ucast index) loc v], w1)))
      else if opcode = OPCODE_RDMSR_BIT OR OPCODE_ALLPROCESSOR_BIT then
        ret (each_processor M bsp 0 (ApUtReadMsr M ut) (\<lambda>index loc v. P_rdmsr_on msr (ucast index) loc v) 0 locs w)
      else if opcode = OPCODE_CPUID_BIT OR OPCODE_ALLPROCESSOR_BIT then
        ret (each_processor M bsp \<lparr>cr_Eax = 0, cr_Ebx = 0, cr_Ecx = 0, cr_Edx = 0\<rparr> (ApUtReadCpuId M ut)
          (\<lambda>index loc r. P_cpuid_on loc (ut_CpuIdIndex ut) (ut_CpuIdSubIndex ut) r) 0 locs w)
      else if opcode AND (OPCODE_RMM_BIT OR OPCODE_WMM_BIT) \<noteq> 0 then
        obind (access_memory M bsp (opcode AND OPCODE_RMM_BIT \<noteq> 0) ut w) ret
      else if opcode = OPCODE_DUMPMEM_BIT then
        obind (SaveFileToDisk (um_shell M) (ut_DumpMemFile ut) (ut_DumpMemSize ut)
            (um_memory M (ut_DumpMemAddress ut) (ut_DumpMemSize ut) w) w) (\<lambda>(status, w1).
          Returned (if EFI_ERROR status then (status, [P_save_failed])
            else (EFI_SUCCESS, [P_saved (ut_DumpMemFile ut)]), w1))
      else if opcode = OPCODE_UCODE_BIT then
        ret (each_processor M bsp 0 (GetCurrentMicrocodeSignature M) (\<lambda>index loc v. P_microcode (ucast index) loc v) 0 locs w)
      else if opcode = OPCODE_READ_MEM_TEST_BIT then
        ret (each_processor M bsp 0 (ReadMemoryOnEachProcessor M ut)
          (\<lambda>index loc v. P_memory_on (ut_MmAddress ut) (ucast index) loc v) 0 locs w)
      else if opcode = OPCODE_WRITE_MEM_TEST_BIT then
        ret (each_processor M bsp () (WriteMemoryOnEachProcessor M ut)
          (\<lambda>index loc v. P_memory_written_on (ut_MmAddress ut) (ut_MmValue ut) (ucast index) loc) 0 locs w)
      else ret ([], w))"

definition no_context :: UEFI_TOOL_CONTEXT where
  "no_context = \<lparr>ut_MsrIndex = 0, ut_MsrValue = 0, ut_CpuIdIndex = 0, ut_CpuIdSubIndex = 0, ut_ProcessorIndex = 0,
     ut_MmAddress = 0, ut_MmValue = 0, ut_MmWidth = 4, ut_MmAccessType = 0, ut_DumpMemAddress = 0, ut_DumpMemSize = 0,
     ut_DumpMemFile = []\<rparr>"

text \<open>A command line of one argument: the arguments, and the result or the operation it selects.\<close>

definition single_option :: "ustring \<Rightarrow> EFI_STATUS + u64" where
  "single_option a =
     (if a \<in> set (map wide [''/H'', ''-H'', ''/?'', ''-?'']) then Inl EFI_SUCCESS
      else if a \<in> set (map wide [''/SGDT'', ''-SGDT'']) then Inr OPCODE_SGDT_BIT
      else if a \<in> set (map wide [''/CR'', ''-CR'']) then Inr OPCODE_CR_BIT
      else if a \<in> set (map wide [''/MCU'', ''-MCU'']) then Inr OPCODE_UCODE_BIT
      else Inl EFI_INVALID_PARAMETER)"

text \<open>The status of the routine is not looked at.\<close>

definition UefiToolMain ::
  "('f, 'w) tool_machine \<Rightarrow> nat \<Rightarrow> ustring list \<Rightarrow> 'w \<Rightarrow> ((EFI_STATUS \<times> tool_print list) \<times> 'w) outcome" where
  "UefiToolMain M fuel argv w =
     (if length argv = 1 then Returned ((EFI_INVALID_PARAMETER, []), w)
      else
        (let argv1 = (if length argv = 2 then argv[1 := StrUpr (argv ! 1)] else argv) in
         case (if length argv = 2 then single_option (argv1 ! 1) else Inr 0) of
           Inl status \<Rightarrow> Returned ((status, []), w)
         | Inr opcode \<Rightarrow>
             obind (GetProcessorsCpuLocation M w) (\<lambda>(r, w1). case r of
                 Inl status \<Rightarrow> Returned ((status, []), w1)
               | Inr (locs, bsp) \<Rightarrow>
                   obind (tool_options M fuel argv1 1 opcode no_context) (\<lambda>(opcode, ut).
                   obind (UefiToolRoutine M locs bsp opcode ut w1) (\<lambda>((status, out), w2).
                     Returned ((0, out), w2))))))"

subsection \<open>Requests on the command line\<close>

text \<open>
  The options that there are, the words to type for each, and what the loop over the arguments makes
  of it; what the tool is to do for them is specified below.
\<close>

datatype tool_request =
  Rdmsr_of ustring | Wrmsr_of ustring ustring | Cpuid_of ustring ustring | All_processors | Processor_of ustring
| Read_at ustring | Write_at ustring ustring | Width_of ustring | In_memory | In_ports
| Dump_of ustring ustring ustring | Read_on_each ustring | Write_on_each ustring ustring

fun keyword :: "tool_request \<Rightarrow> ustring" where
  "keyword (Rdmsr_of i) = wide ''RDMSR''"
| "keyword (Wrmsr_of i v) = wide ''WRMSR''"
| "keyword (Cpuid_of i s) = wide ''CPUID''"
| "keyword All_processors = wide ''-A''"
| "keyword (Processor_of i) = wide ''-P''"
| "keyword (Read_at a) = wide ''-RMM''"
| "keyword (Write_at a v) = wide ''-WMM''"
| "keyword (Width_of n) = wide ''-W''"
| "keyword In_memory = wide ''-MEM''"
| "keyword In_ports = wide ''-IO''"
| "keyword (Dump_of a n f) = wide ''DUMPMEM''"
| "keyword (Read_on_each a) = wide ''-RT''"
| "keyword (Write_on_each a v) = wide ''-WT''"

fun operands :: "tool_request \<Rightarrow> ustring list" where
  "operands (Rdmsr_of i) = [i]"
| "operands (Wrmsr_of i v) = [i, v]"
| "operands (Cpuid_of i s) = [i, s]"
| "operands All_processors = []"
| "operands (Processor_of i) = [i]"
| "operands (Read_at a) = [a]"
| "operands (Write_at a v) = [a, v]"
| "operands (Width_of n) = [n]"
| "operands In_memory = []"
| "operands In_ports = []"
| "operands (Dump_of a n f) = [a, n, f]"
| "operands (Read_on_each a) = [a]"
| "operands (Write_on_each a v) = [a, v]"

definition spelled_as :: "tool_request \<Rightarrow> ustring list \<Rightarrow> bool" where
  "spelled_as r words \<longleftrightarrow> words \<noteq> [] \<and> StrUpr (hd words) = keyword r \<and> tl words = operands r"

fun requested :: "(ustring \<Rightarrow> u64) \<Rightarrow> tool_request \<Rightarrow> u64 \<times> UEFI_TOOL_CONTEXT \<Rightarrow> u64 \<times> UEFI_TOOL_CONTEXT" where
  "requested hex (Rdmsr_of i) (op, ut) = (op OR OPCODE_RDMSR_BIT, ut\<lparr>ut_MsrIndex := ucast (hex i)\<rparr>)"
| "requested hex (Wrmsr_of i v) (op, ut) =
     (op OR OPCODE_WRMSR_BIT, ut\<lparr>ut_MsrIndex := ucast (hex i), ut_MsrValue := hex v\<rparr>)"
| "requested hex (Cpuid_of i s) (op, ut) =
     (op OR OPCODE_CPUID_BIT, ut\<lparr>ut_CpuIdIndex := ucast (hex i), ut_CpuIdSubIndex := ucast (hex s)\<rparr>)"
| "requested hex All_processors (op, ut) = (op OR OPCODE_ALLPROCESSOR_BIT, ut)"
| "requested hex (Processor_of i) (op, ut) = (op OR OPCODE_PROCESSOR_INDEX_BIT, ut\<lparr>ut_ProcessorIndex := hex i\<rparr>)"
| "requested hex (Read_at a) (op, ut) = (op OR OPCODE_RMM_BIT, ut\<lparr>ut_MmAddress := hex a\<rparr>)"
| "requested hex (Write_at a v) (op, ut) = (op OR OPCODE_WMM_BIT, ut\<lparr>ut_MmAddress := hex a, ut_MmValue := hex v\<rparr>)"
| "requested hex (Width_of n) (op, ut) = (op, ut\<lparr>ut_MmWidth := hex n\<rparr>)"
| "requested hex In_memory (op, ut) = (op, ut\<lparr>ut_MmAccessType := 0\<rparr>)"
| "requested hex In_ports (op, ut) = (op, ut\<lparr>ut_MmAccessType := 1\<rparr>)"
| "requested hex (Dump_of a n f) (op, ut) =
     (op OR OPCODE_DUMPMEM_BIT, ut\<lparr>ut_DumpMemAddress := hex a, ut_DumpMemSize := hex n, ut_DumpMemFile := take 4 f\<rparr>)"
| "requested hex (Read_on_each a) (op, ut) = (op OR OPCODE_READ_MEM_TEST_BIT, ut\<lparr>ut_MmAddress := hex a\<rparr>)"
| "requested hex (Write_on_each a v) (op, ut) =
     (op OR OPCODE_WRITE_MEM_TEST_BIT, ut\<lparr>ut_MmAddress := hex a, ut_MmValue := hex v\<rparr>)"

lemma tool_option_request:
  assumes "argv = before @ keyword r # operands r @ behind" "length before = unat index"
  shows "tool_option M argv index opcode ut =
    Returned (index + word_of_nat (Suc (length (operands r))), requested (um_hex M) r (opcode, ut))"
  using assms(2)
  by (cases r) (simp_all add: assms(1) tool_option_def tool_argument_def Let_def nth_append wide_def flip: assms(2))

lemma tool_options_requests:
  "list_all2 spelled_as requests words \<Longrightarrow> length before = unat index \<Longrightarrow> length before + length (concat words) \<le> 255 \<Longrightarrow>
     length requests < fuel \<Longrightarrow>
   tool_options M fuel (before @ concat words) index opcode ut = Returned (fold (requested (um_hex M)) requests (opcode, ut))"
proof (induction requests arbitrary: words before index fuel opcode ut)
  case Nil
  then show ?case by (cases fuel) auto
next
  case (Cons r requests)
  then obtain ws words' n where words: "words = ws # words'" "spelled_as r ws" "list_all2 spelled_as requests words'"
      and fuel: "fuel = Suc n" "length requests < n"
    by (cases fuel) (auto simp: list_all2_Cons1)
  then obtain k where ws: "ws = k # operands r" "StrUpr k = keyword r" by (cases ws) (auto simp: spelled_as_def)
  let ?argv = "before @ concat words" and ?argv' = "(before @ keyword r # operands r) @ concat words'"
  have here: "?argv[unat index := StrUpr (?argv ! unat index)] = before @ keyword r # operands r @ concat words'"
    using Cons.prems(2) by (simp add: words(1) ws nth_append list_update_append flip: Cons.prems(2))
  let ?next = "index + word_of_nat (Suc (length (operands r)))"
  have "length (before @ keyword r # operands r) \<le> 255" using Cons.prems(3) by (simp add: words(1) ws)
  then have next_index: "length (before @ keyword r # operands r) = unat ?next"
    using Cons.prems(2) by (simp add: unat_word_ariths unat_of_nat del: of_nat_Suc)
  obtain op' ut' where req: "requested (um_hex M) r (opcode, ut) = (op', ut')" by fastforce
  have "tool_options M n ?argv' ?next op' ut' = Returned (fold (requested (um_hex M)) requests (op', ut'))"
    using Cons.IH [OF words(3) next_index _ fuel(2)] Cons.prems(3) by (simp add: words(1) ws)
  moreover have "\<not> unat index + 1 > length ?argv" using Cons.prems(2) by (simp add: words(1) ws)
  ultimately show ?case
    by (simp add: fuel(1) here tool_option_request [OF refl Cons.prems(2)] req Let_def del: of_nat_Suc)
qed

subsection \<open>What a command line asks for\<close>

text \<open>
  The commands of the tool, as its help and its readme describe them, with numbers for what is typed;
  and what the machine does for each: registers are read and written on the processor that boots,
  on the one that is named or on all, one after the other, memory and ports are accessed in the
  given width.  The result is what is printed.
\<close>

datatype address_space = Memory_space | Port_space

datatype tool_command =
  Read_msr u32 | Read_msr_at u32 u64 | Read_msr_all u32 | Write_msr u32 u64
| Get_cpuid u32 u32 | Get_cpuid_all u32 u32
| Read_place address_space nat u64 | Write_place address_space nat u64 u64
| Save_memory u64 u64 ustring | Test_read u64 | Test_write u64 u64
| Show_gdt | Show_cr | Show_microcode

text \<open>Work on one processor, which has to be started unless it is the one that boots, and on all of them.\<close>

definition run_on :: "('f, 'w) tool_machine \<Rightarrow> u64 \<Rightarrow> 'a \<Rightarrow> (u64 \<Rightarrow> 'w \<Rightarrow> 'a \<times> 'w) \<Rightarrow> u64 \<Rightarrow> 'w \<Rightarrow> 'a \<times> 'w" where
  "run_on M bsp otherwise work cpu w =
     (if cpu = bsp then work cpu w
      else if fst (um_start_ap M cpu w) then work cpu (snd (um_start_ap M cpu w))
      else (otherwise, snd (um_start_ap M cpu w)))"

definition run_on_all ::
  "('f, 'w) tool_machine \<Rightarrow> u64 \<Rightarrow> 'a \<Rightarrow> (u64 \<Rightarrow> 'w \<Rightarrow> 'a \<times> 'w) \<Rightarrow> (u64 \<Rightarrow> cpu_location \<Rightarrow> 'a \<Rightarrow> tool_print) \<Rightarrow>
   cpu_location list \<Rightarrow> 'w \<Rightarrow> tool_print list \<times> 'w" where
  "run_on_all M bsp otherwise work line locs w =
     foldl (\<lambda>(out, w) n. case run_on M bsp otherwise work (word_of_nat n) w of
        (v, w1) \<Rightarrow> (out @ [line (word_of_nat n) (locs ! n) v], w1)) ([], w) [0..<length locs]"

fun perform ::
  "('f, 'w) tool_machine \<Rightarrow> cpu_location list \<Rightarrow> u64 \<Rightarrow> tool_command \<Rightarrow> 'w \<Rightarrow> (tool_print list \<times> 'w) outcome" where
  "perform M locs bsp (Read_msr i) w = (case um_rdmsr M bsp i w of (v, w1) \<Rightarrow> Returned ([P_rdmsr i v], w1))"
| "perform M locs bsp (Read_msr_at i p) w =
     (case run_on M bsp 0 (\<lambda>cpu. um_rdmsr M cpu i) p w of
        (v, w1) \<Rightarrow> Returned ([P_rdmsr_on i (ucast p) (locs ! unat p) v], w1))"
| "perform M locs bsp (Read_msr_all i) w =
     Returned (run_on_all M bsp 0 (\<lambda>cpu. um_rdmsr M cpu i) (\<lambda>p loc v. P_rdmsr_on i (ucast p) loc v) locs w)"
| "perform M locs bsp (Write_msr i v) w = Returned ([P_wrmsr v i], um_wrmsr M bsp i v w)"
| "perform M locs bsp (Get_cpuid i s) w = (case um_cpuid M bsp i s w of (r, w1) \<Rightarrow> Returned ([P_cpuid i s r], w1))"
| "perform M locs bsp (Get_cpuid_all i s) w =
     Returned (run_on_all M bsp \<lparr>cr_Eax = 0, cr_Ebx = 0, cr_Ecx = 0, cr_Edx = 0\<rparr> (\<lambda>cpu. um_cpuid M cpu i s)
       (\<lambda>p loc r. P_cpuid_on loc i s r) locs w)"
| "perform M locs bsp (Read_place Memory_space n a) w =
     (case um_mem_read M bsp n a w of (d, w1) \<Rightarrow> Returned ([P_mem_read (ucast a) (ucast d)], w1))"
| "perform M locs bsp (Read_place Port_space n a) w =
     (case um_io_read M n a w of (d, w1) \<Rightarrow> Returned ([P_io_read (ucast a) (ucast d)], w1))"
| "perform M locs bsp (Write_place Memory_space n a v) w =
     Returned ([P_mem_written (ucast v) (ucast a)], um_mem_write M bsp n a (take_bit (8 * n) v) w)"
| "perform M locs bsp (Write_place Port_space n a v) w =
     Returned ([P_io_written (ucast v) (ucast a)], um_io_write M n a (take_bit (8 * n) v) w)"
| "perform M locs bsp (Save_memory a n f) w =
     obind (SaveFileToDisk (um_shell M) f n (um_memory M a n w) w) (\<lambda>(status, w1).
       Returned ([if EFI_ERROR status then P_save_failed else P_saved f], w1))"
| "perform M locs bsp (Test_read a) w =
     Returned (run_on_all M bsp 0 (\<lambda>cpu. um_mem_read M cpu 8 a) (\<lambda>p loc v. P_memory_on a (ucast p) loc v) locs w)"
| "perform M locs bsp (Test_write a v) w =
     Returned (run_on_all M bsp () (\<lambda>cpu w. ((), um_mem_write M cpu 8 a v w))
       (\<lambda>p loc _. P_memory_written_on a v (ucast p) loc) locs w)"
| "perform M locs bsp Show_gdt w =
     (case um_gdtr M w of (base, limit) \<Rightarrow> Returned ([P_gdtr (ucast base) (ucast limit)], w))"
| "perform M locs bsp Show_cr w = Returned ([P_cr (map (\<lambda>n. ucast (um_cr M n w)) [0, 2, 3, 4])], w)"
| "perform M locs bsp Show_microcode w =
     Returned (run_on_all M bsp 0 (\<lambda>cpu w. case um_rdmsr M cpu 0x8B (snd (um_cpuid M cpu 1 0 (um_wrmsr M cpu 0x8B 0 w))) of
         (v, w1) \<Rightarrow> (ucast (drop_bit 32 v), w1))
       (\<lambda>p loc v. P_microcode (ucast p) loc v) locs w)"

text \<open>The options of an access: none or one for the space, none or one for the width, which is four octets else.\<close>

definition selects :: "(ustring \<Rightarrow> u64) \<Rightarrow> tool_request list \<Rightarrow> address_space \<Rightarrow> nat \<Rightarrow> bool" where
  "selects hex options space n \<longleftrightarrow>
     (\<exists>where_options width_options. options = where_options @ width_options \<and>
        (space = Memory_space \<and> where_options \<in> {[], [In_memory]} \<or> space = Port_space \<and> where_options = [In_ports]) \<and>
        (width_options = [] \<and> n = 4 \<or> (\<exists>x. width_options = [Width_of x] \<and> n = unat (hex x))))"

text \<open>The options that make up a command, in any order.\<close>

inductive asks_for :: "(ustring \<Rightarrow> u64) \<Rightarrow> tool_request list \<Rightarrow> tool_command \<Rightarrow> bool" for hex where
  "asks_for hex [Rdmsr_of i] (Read_msr (ucast (hex i)))"
| "mset rs = {#Rdmsr_of i, Processor_of p#} \<Longrightarrow> asks_for hex rs (Read_msr_at (ucast (hex i)) (hex p))"
| "mset rs = {#Rdmsr_of i, All_processors#} \<Longrightarrow> asks_for hex rs (Read_msr_all (ucast (hex i)))"
| "asks_for hex [Wrmsr_of i v] (Write_msr (ucast (hex i)) (hex v))"
| "asks_for hex [Cpuid_of i s] (Get_cpuid (ucast (hex i)) (ucast (hex s)))"
| "mset rs = {#Cpuid_of i s, All_processors#} \<Longrightarrow> asks_for hex rs (Get_cpuid_all (ucast (hex i)) (ucast (hex s)))"
| "selects hex options space n \<Longrightarrow> mset rs = mset (Read_at a # options) \<Longrightarrow> asks_for hex rs (Read_place space n (hex a))"
| "selects hex options space n \<Longrightarrow> mset rs = mset (Write_at a v # options) \<Longrightarrow>
     asks_for hex rs (Write_place space n (hex a) (hex v))"
| "asks_for hex [Dump_of a n f] (Save_memory (hex a) (hex n) f)"
| "asks_for hex [Read_on_each a] (Test_read (hex a))"
| "asks_for hex [Write_on_each a v] (Test_write (hex a) (hex v))"

inductive typed :: "(ustring \<Rightarrow> u64) \<Rightarrow> ustring list \<Rightarrow> tool_command \<Rightarrow> bool" for hex where
  "list_all2 spelled_as rs words \<Longrightarrow> asks_for hex rs c \<Longrightarrow> typed hex (concat words) c"
| "StrUpr k \<in> {wide ''/SGDT'', wide ''-SGDT''} \<Longrightarrow> typed hex [k] Show_gdt"
| "StrUpr k \<in> {wide ''/CR'', wide ''-CR''} \<Longrightarrow> typed hex [k] Show_cr"
| "StrUpr k \<in> {wide ''/MCU'', wide ''-MCU''} \<Longrightarrow> typed hex [k] Show_microcode"

text \<open>
  What the tool can do: the named processor is there, the width is one that exists, and two cases that
  it gets wrong are left out, reading eight octets of memory and a file name of more than four
  characters (\<open>eight_octets_from_port\<close>, \<open>file_name_cut\<close>).
\<close>

fun command_ok :: "nat \<Rightarrow> tool_command \<Rightarrow> bool" where
  "command_ok cpus (Read_msr_at i p) \<longleftrightarrow> unat p < cpus"
| "command_ok cpus (Read_place Memory_space n a) \<longleftrightarrow> n \<in> {1, 2, 4}"
| "command_ok cpus (Read_place Port_space n a) \<longleftrightarrow> n \<in> {1, 2, 4, 8}"
| "command_ok cpus (Write_place space n a v) \<longleftrightarrow> n \<in> {1, 2, 4, 8}"
| "command_ok cpus (Save_memory a n f) \<longleftrightarrow> length f \<le> 4"
| "command_ok cpus _ \<longleftrightarrow> True"

subsection \<open>The tool does it\<close>

lemma on_processor_run: "on_processor M bsp v work cpu w = run_on M bsp v work cpu w"
  by (simp add: on_processor_def run_on_def split_def)

lemma each_processor_from:
  "k + length ls = length locs \<Longrightarrow> drop k locs = ls \<Longrightarrow>
   (\<lambda>(out', w'). (out @ out', w')) (each_processor M bsp v work line (word_of_nat k) ls w) =
     foldl (\<lambda>(out, w) n. case run_on M bsp v work (word_of_nat n) w of
        (v, w1) \<Rightarrow> (out @ [line (word_of_nat n) (locs ! n) v], w1)) (out, w) [k..<length locs]"
proof (induction ls arbitrary: k out w)
  case (Cons loc ls)
  from Cons.prems have k: "k < length locs" "locs ! k = loc" "drop (Suc k) locs = ls"
    by (simp_all add: drop_Suc [of k] tl_drop [symmetric] hd_drop_conv_nth [symmetric])
  obtain x w1 where x: "run_on M bsp v work (word_of_nat k) w = (x, w1)" by fastforce
  have "word_of_nat k + 1 = (word_of_nat (Suc k) :: u64)" by simp
  with Cons.IH [of "Suc k" "out @ [line (word_of_nat k) loc x]" w1] Cons.prems(1) k
  show ?case by (simp add: upt_conv_Cons on_processor_run x split_def Let_def del: of_nat_Suc)
qed simp

lemma each_processor_all: "each_processor M bsp v work line 0 locs w = run_on_all M bsp v work line locs w"
  using each_processor_from [of 0 locs locs "[]" M bsp v work line w] by (simp add: run_on_all_def split_def)

lemma requested_permuted:
  assumes "mset rs = mset rs'" "\<And>r r'. r \<in> set rs' \<Longrightarrow> r' \<in> set rs' \<Longrightarrow> requested hex r \<circ> requested hex r' = requested hex r' \<circ> requested hex r"
  shows "fold (requested hex) rs st = fold (requested hex) rs' st"
  using fold_multiset_equiv [of rs' "requested hex" rs] assms by metis

text \<open>What the options make of the context, in whatever order they come.\<close>

lemma requests_fold:
  "mset rs = {#Rdmsr_of i, Processor_of p#} \<Longrightarrow> fold (requested hex) rs st =
     (case st of (op, ut) \<Rightarrow> (op OR OPCODE_RDMSR_BIT OR OPCODE_PROCESSOR_INDEX_BIT,
        ut\<lparr>ut_MsrIndex := ucast (hex i), ut_ProcessorIndex := hex p\<rparr>))"
  "mset rs = {#Rdmsr_of i, All_processors#} \<Longrightarrow> fold (requested hex) rs st =
     (case st of (op, ut) \<Rightarrow> (op OR OPCODE_RDMSR_BIT OR OPCODE_ALLPROCESSOR_BIT, ut\<lparr>ut_MsrIndex := ucast (hex i)\<rparr>))"
  "mset rs = {#Cpuid_of i s, All_processors#} \<Longrightarrow> fold (requested hex) rs st =
     (case st of (op, ut) \<Rightarrow> (op OR OPCODE_CPUID_BIT OR OPCODE_ALLPROCESSOR_BIT,
        ut\<lparr>ut_CpuIdIndex := ucast (hex i), ut_CpuIdSubIndex := ucast (hex s)\<rparr>))"
proof -
  assume "mset rs = {#Rdmsr_of i, Processor_of p#}"
  then have "fold (requested hex) rs st = fold (requested hex) [Rdmsr_of i, Processor_of p] st"
    by (intro requested_permuted) (auto simp: fun_eq_iff ac_simps)
  then show "fold (requested hex) rs st = (case st of (op, ut) \<Rightarrow> (op OR OPCODE_RDMSR_BIT OR OPCODE_PROCESSOR_INDEX_BIT,
        ut\<lparr>ut_MsrIndex := ucast (hex i), ut_ProcessorIndex := hex p\<rparr>))"
    by (simp add: or.assoc split: prod.split)
next
  assume "mset rs = {#Rdmsr_of i, All_processors#}"
  then have "fold (requested hex) rs st = fold (requested hex) [Rdmsr_of i, All_processors] st"
    by (intro requested_permuted) (auto simp: fun_eq_iff ac_simps)
  then show "fold (requested hex) rs st =
      (case st of (op, ut) \<Rightarrow> (op OR OPCODE_RDMSR_BIT OR OPCODE_ALLPROCESSOR_BIT, ut\<lparr>ut_MsrIndex := ucast (hex i)\<rparr>))"
    by (simp add: or.assoc split: prod.split)
next
  assume "mset rs = {#Cpuid_of i s, All_processors#}"
  then have "fold (requested hex) rs st = fold (requested hex) [Cpuid_of i s, All_processors] st"
    by (intro requested_permuted) (auto simp: fun_eq_iff ac_simps)
  then show "fold (requested hex) rs st = (case st of (op, ut) \<Rightarrow> (op OR OPCODE_CPUID_BIT OR OPCODE_ALLPROCESSOR_BIT,
        ut\<lparr>ut_CpuIdIndex := ucast (hex i), ut_CpuIdSubIndex := ucast (hex s)\<rparr>))"
    by (simp add: or.assoc split: prod.split)
qed

lemma access_fold:
  assumes "selects hex options space n" "access \<in> {Read_at a, Write_at a v}" "mset rs = mset (access # options)"
  shows "\<exists>ut. fold (requested hex) rs (0, no_context) =
       (case access of Read_at _ \<Rightarrow> OPCODE_RMM_BIT | _ \<Rightarrow> OPCODE_WMM_BIT, ut) \<and>
     ut_MmAddress ut = hex a \<and> (access = Write_at a v \<longrightarrow> ut_MmValue ut = hex v) \<and>
     unat (ut_MmWidth ut) = n \<and> (ut_MmAccessType ut = 0 \<longleftrightarrow> space = Memory_space)"
proof -
  have commute: "requested hex r \<circ> requested hex r' = requested hex r' \<circ> requested hex r"
    if "r \<in> set (access # options)" "r' \<in> set (access # options)" for r r'
    using that assms(1,2) by (auto simp: selects_def fun_eq_iff ac_simps)
  have "fold (requested hex) rs (0, no_context) = fold (requested hex) (access # options) (0, no_context)"
    by (rule requested_permuted [OF assms(3) commute])
  then show ?thesis using assms(1,2) by (auto simp: selects_def no_context_def)
qed

lemma asked_performed:
  assumes "asks_for (um_hex M) rs c" "command_ok (length locs) c"
    and "fold (requested (um_hex M)) rs (0, no_context) = (opcode, ut)"
  shows "obind (UefiToolRoutine M locs bsp opcode ut w) (\<lambda>((status, out), w'). Returned ((0 :: EFI_STATUS, out), w')) =
    obind (perform M locs bsp c w) (\<lambda>(out, w'). Returned ((0, out), w'))"
  using assms
proof cases
  case (2 i p)
  then show ?thesis using assms(2,3)
    by (auto simp: requests_fold(1) UefiToolRoutine_def opcode_bits Let_def on_processor_run ApUtReadMsr_def [abs_def] split: prod.splits)
next
  case (3 i)
  then show ?thesis using assms(3)
    by (auto simp: requests_fold(2) UefiToolRoutine_def opcode_bits Let_def each_processor_all ApUtReadMsr_def [abs_def] split: prod.splits)
next
  case (6 i s)
  then show ?thesis using assms(3)
    by (auto simp: requests_fold(3) UefiToolRoutine_def opcode_bits Let_def each_processor_all ApUtReadCpuId_def [abs_def] split: prod.splits)
next
  case (7 options space n a)
  from access_fold [OF 7(2) _ 7(3), of a undefined] assms(3)
  have ut: "opcode = OPCODE_RMM_BIT" "ut_MmAddress ut = um_hex M a" "unat (ut_MmWidth ut) = n" "ut_MmAccessType ut = 0 \<longleftrightarrow> space = Memory_space"
    by auto
  have w: "ut_MmWidth ut = word_of_nat n" using ut(3) by auto
  show ?thesis using assms(2) 7(1) ut w
    by (cases space) (auto simp: UefiToolRoutine_def access_memory_def mm_width_def opcode_bits Let_def split: prod.splits)
next
  case (8 options space n a v)
  from access_fold [OF 8(2) _ 8(3), of a v] assms(3)
  have ut: "opcode = OPCODE_WMM_BIT" "ut_MmAddress ut = um_hex M a" "ut_MmValue ut = um_hex M v"
      "unat (ut_MmWidth ut) = n" "ut_MmAccessType ut = 0 \<longleftrightarrow> space = Memory_space"
    by auto
  have w: "ut_MmWidth ut = word_of_nat n" using ut(4) by auto
  show ?thesis using assms(2) 8(1) ut w
    by (cases space) (auto simp: UefiToolRoutine_def access_memory_def mm_width_def opcode_bits Let_def split: prod.splits)
next
  case (9 a n f)
  then show ?thesis using assms(2,3)
    by (cases "SaveFileToDisk (um_shell M) f (um_hex M n) (um_memory M (um_hex M a) (um_hex M n) w) w")
      (auto simp: UefiToolRoutine_def opcode_bits Let_def no_context_def split: prod.splits)
qed (use assms(3) in \<open>auto simp: UefiToolRoutine_def opcode_bits Let_def no_context_def each_processor_all ApUtReadCpuId_def
    ReadMemoryOnEachProcessor_def [abs_def] WriteMemoryOnEachProcessor_def [abs_def] split: prod.splits\<close>)

lemma two_words:
  assumes "list_all2 spelled_as rs words" "asks_for hex rs c"
  shows "1 < length (concat words)"
proof -
  have "\<exists>r \<in> set rs. operands r \<noteq> []"
    using assms(2) by cases (auto simp flip: set_mset_mset)
  then obtain r where r: "r \<in> set rs" "operands r \<noteq> []" by blast
  from assms(1) r(1) obtain ws where ws: "ws \<in> set words" "spelled_as r ws"
    by (metis in_set_conv_nth list_all2_conv_all_nth)
  with r(2) have "1 < length ws" by (cases ws; cases "operands r") (auto simp: spelled_as_def)
  also have "length ws \<le> length (concat words)" using ws(1) by (induction words) auto
  finally show ?thesis .
qed

lemma requests_run:
  assumes "list_all2 spelled_as rs words" "asks_for (um_hex M) rs c" "command_ok (length locs) c" "length (concat words) < 255"
    and "GetProcessorsCpuLocation M w = Returned (Inr (locs, bsp), w1)"
  shows "UefiToolMain M 256 (tool # concat words) w =
    obind (perform M locs bsp c w1) (\<lambda>(out, w2). Returned ((0, out), w2))"
proof -
  obtain opcode ut where f: "fold (requested (um_hex M)) rs (0, no_context) = (opcode, ut)" by fastforce
  have "length rs \<le> length (concat words)"
    using assms(1) by (induction rule: list_all2_induct) (auto simp: spelled_as_def Suc_le_eq simp flip: length_greater_0_conv)
  then have "tool_options M 256 ([tool] @ concat words) 1 0 no_context = Returned (opcode, ut)"
    using tool_options_requests [OF assms(1), of "[tool]" 1 256 M 0 no_context] assms(4) f by simp
  moreover obtain a b rest where "concat words = a # b # rest"
    using two_words [OF assms(1,2)]
    by (metis One_nat_def Suc_less_eq length_Cons length_greater_0_conv less_Suc_eq_0_disj list.size(3) neq_Nil_conv not_less_zero)
  ultimately show ?thesis
    using assms(5) asked_performed [OF assms(2,3) f, of bsp w1] by (simp add: UefiToolMain_def)
qed

lemma single_word_run:
  assumes "single_option (StrUpr k) = Inr opcode" "GetProcessorsCpuLocation M w = Returned (Inr (locs, bsp), w1)"
  shows "UefiToolMain M 256 [tool, k] w = obind (UefiToolRoutine M locs bsp opcode no_context w1)
    (\<lambda>((status, out), w2). Returned ((0, out), w2))"
proof -
  have k: "StrUpr k \<in> set (map wide [''/SGDT'', ''-SGDT'', ''/CR'', ''-CR'', ''/MCU'', ''-MCU''])"
    using assms(1) by (auto simp: single_option_def split: if_splits)
  have up: "StrUpr (StrUpr k) = StrUpr k" by (auto simp: StrUpr_def ToUpper_def word_le_nat_alt unat_sub)
  have "a \<notin> set (map wide [''-A'', ''-W'', ''-MEM'', ''-IO''])"
    if "a \<in> set (map wide [''/SGDT'', ''-SGDT'', ''/CR'', ''-CR'', ''/MCU'', ''-MCU''])" for a
    using that unfolding list.map list.set by (elim insertE emptyE; hypsubst) (simp_all add: wide_def)
  from this [OF k] have "tool_option M [tool, StrUpr k] 1 opcode no_context = Returned (2, opcode, no_context)"
    by (simp add: tool_option_def Let_def)
  then have "tool_options M (Suc (Suc n)) [tool, StrUpr k] 1 opcode no_context = Returned (opcode, no_context)" for n
    by (simp add: up)
  from this [of 254] have "tool_options M 256 [tool, StrUpr k] 1 opcode no_context = Returned (opcode, no_context)"
    by (simp del: tool_options.simps)
  with assms show ?thesis by (simp add: UefiToolMain_def del: tool_options.simps)
qed

text \<open>
  C27: the tool does what the command line asks for.  A command line that spells one of its commands, in
  any case of the letters, with any hexadecimal values and its options in any order, makes the tool
  perform just that on the machine and print its result: the register, memory or port access, the
  loop over all processors, or the saved file.  Left out are what it gets wrong: eight octets of
  memory, file names of more than four characters, and processors that do not exist.
\<close>

theorem tool_requests_carried_out:
  assumes "typed (um_hex M) words command" "command_ok (length locs) command" "length words < 255"
    and "GetProcessorsCpuLocation M w = Returned (Inr (locs, bsp), w1)"
  shows "UefiToolMain M 256 (tool # words) w =
    obind (perform M locs bsp command w1) (\<lambda>(out, w2). Returned ((0, out), w2))"
  using assms(1)
proof cases
  case (1 rs ws)
  then show ?thesis using requests_run [OF 1(2,3) assms(2) _ assms(4)] assms(3) by simp
next
  case (2 k)
  then have "single_option (StrUpr k) = Inr OPCODE_SGDT_BIT" by (auto simp: single_option_def wide_def)
  from single_word_run [OF this assms(4)] 2 show ?thesis
    by (simp add: UefiToolRoutine_def opcode_bits Let_def split: prod.split)
next
  case (3 k)
  then have "single_option (StrUpr k) = Inr OPCODE_CR_BIT" by (auto simp: single_option_def wide_def)
  from single_word_run [OF this assms(4)] 3 show ?thesis
    by (simp add: UefiToolRoutine_def opcode_bits Let_def)
next
  case (4 k)
  then have "single_option (StrUpr k) = Inr OPCODE_UCODE_BIT" by (auto simp: single_option_def wide_def)
  moreover have "GetCurrentMicrocodeSignature M = (\<lambda>cpu w.
      case um_rdmsr M cpu 0x8B (snd (um_cpuid M cpu 1 0 (um_wrmsr M cpu 0x8B 0 w))) of (v, w1) \<Rightarrow> (ucast (drop_bit 32 v), w1))"
    by (simp add: fun_eq_iff GetCurrentMicrocodeSignature_def Let_def split_def)
  ultimately show ?thesis using single_word_run [OF _ assms(4), of k] 4
    by (simp add: UefiToolRoutine_def opcode_bits Let_def each_processor_all split_def)
qed

subsection \<open>Reading only\<close>

text \<open>What can be seen of the world, \<open>obs\<close>, is not changed by anything that only reads.\<close>

definition reads_quietly :: "('f, 'w) tool_machine \<Rightarrow> ('w \<Rightarrow> 'o) \<Rightarrow> bool" where
  "reads_quietly M obs \<longleftrightarrow>
     (\<forall>n w. obs (snd (sh_alloc (um_shell M) n w)) = obs w) \<and> (\<forall>i w. obs (snd (um_start_ap M i w)) = obs w) \<and>
     (\<forall>c i w. obs (snd (um_rdmsr M c i w)) = obs w) \<and> (\<forall>c i s w. obs (snd (um_cpuid M c i s w)) = obs w) \<and>
     (\<forall>n a w. obs (snd (um_io_read M n a w)) = obs w) \<and> (\<forall>c n a w. obs (snd (um_mem_read M c n a w)) = obs w)"

definition writing_words :: "ustring set" where
  "writing_words = set (map wide [''WRMSR'', ''-WMM'', ''-WT'', ''DUMPMEM'', ''-MCU'', ''/MCU''])"

definition writing_bits :: u64 where
  "writing_bits = OPCODE_WRMSR_BIT OR OPCODE_WMM_BIT OR OPCODE_DUMPMEM_BIT OR OPCODE_UCODE_BIT OR OPCODE_WRITE_MEM_TEST_BIT"

lemma option_without_writing:
  assumes "argv ! unat index \<notin> writing_words" "opcode AND writing_bits = 0"
    "tool_option M argv index opcode ut = Returned (index', opcode', ut')"
  shows "opcode' AND writing_bits = 0"
  using assms by (auto simp: tool_option_def Let_def writing_words_def obind_Returned_iff bit.conj_disj_distrib2
      writing_bits_def opcode_bits split: if_splits)

lemma StrUpr_twice [simp]: "StrUpr (StrUpr s) = StrUpr s"
  by (auto simp: StrUpr_def ToUpper_def word_le_nat_alt unat_sub)

lemma options_without_writing:
  "tool_options M fuel argv index opcode ut = Returned (opcode', ut') \<Longrightarrow> opcode AND writing_bits = 0 \<Longrightarrow>
     \<forall>a \<in> set argv. StrUpr a \<notin> writing_words \<Longrightarrow> opcode' AND writing_bits = 0"
proof (induction fuel arbitrary: argv index opcode ut)
  case (Suc fuel)
  let ?argv = "argv[unat index := StrUpr (argv ! unat index)]"
  show ?case
  proof (cases "unat index + 1 > length argv")
    case False
    with Suc.prems(1) obtain i op u where step: "tool_option M ?argv index opcode ut = Returned (i, op, u)"
        "tool_options M fuel ?argv i op u = Returned (opcode', ut')"
      by (auto simp: Let_def obind_Returned_iff)
    have words: "\<forall>a \<in> set ?argv. StrUpr a \<notin> writing_words"
      using False Suc.prems(3) set_update_subset_insert [of argv "unat index"] by fastforce
    have "?argv ! unat index \<notin> writing_words" using False Suc.prems(3) by simp
    from Suc.IH [OF step(2) option_without_writing [OF this Suc.prems(2) step(1)] words] show ?thesis .
  qed (use Suc.prems in simp)
qed simp

lemma each_processor_quiet:
  assumes "reads_quietly M obs" "\<And>i w. obs (snd (proc i w)) = obs w"
  shows "obs (snd (each_processor M bsp before proc line index locs w)) = obs w"
proof (induction locs arbitrary: index w)
  case (Cons loc locs)
  have "obs (snd (on_processor M bsp before proc index w)) = obs w"
    using assms by (auto simp: on_processor_def reads_quietly_def split: prod.splits) (metis snd_conv)+
  with Cons show ?case by (simp add: Let_def split_def)
qed simp

lemma access_memory_quiet:
  assumes "reads_quietly M obs" "access_memory M bsp True ut w = Returned (out, w')"
  shows "obs w' = obs w"
  using assms by (auto simp: access_memory_def reads_quietly_def Let_def obind_Returned_iff split: if_splits prod.splits)
    (metis snd_conv)+

lemma processors_quiet:
  assumes "reads_quietly M obs" "GetProcessorsCpuLocation M w = Returned (r, w')"
  shows "obs w' = obs w"
proof -
  have "obs (snd (sh_alloc (um_shell M) n w)) = obs w" for n using assms(1) by (simp add: reads_quietly_def)
  then have "sh_alloc (um_shell M) n w = (ok, w1) \<Longrightarrow> obs w1 = obs w" for n ok w1 by (metis snd_conv)
  with assms(2) show ?thesis
    by (auto simp: GetProcessorsCpuLocation_def obind_Returned_iff split: if_splits prod.splits)
      (auto split: sum.splits prod.splits)
qed

lemma routine_quiet:
  assumes "reads_quietly M obs" "opcode AND writing_bits = 0"
    "UefiToolRoutine M locs bsp opcode ut w = Returned (r, w')"
  shows "obs w' = obs w"
proof -
  have not: "opcode \<noteq> OPCODE_WRMSR_BIT" "opcode \<noteq> OPCODE_DUMPMEM_BIT" "opcode \<noteq> OPCODE_UCODE_BIT"
      "opcode \<noteq> OPCODE_WRITE_MEM_TEST_BIT"
    using assms(2) by (auto simp: writing_bits_def opcode_bits)
  have "opcode AND OPCODE_WMM_BIT = (opcode AND writing_bits) AND OPCODE_WMM_BIT"
    by (simp add: and.assoc writing_bits_def opcode_bits)
  with assms(2) have wmm: "opcode AND OPCODE_WMM_BIT = 0" by simp
  have q: "obs (snd (um_rdmsr M c i w)) = obs w" "obs (snd (um_cpuid M c i s w)) = obs w"
      "obs (snd (um_mem_read M c n a w)) = obs w" "obs (snd (um_start_ap M i' w)) = obs w" for c i s n a i' w
    using assms(1) by (simp_all add: reads_quietly_def)
  then have ap: "obs (snd (ApUtReadMsr M ut c w)) = obs w" "obs (snd (ApUtReadCpuId M ut c w)) = obs w"
      "obs (snd (ReadMemoryOnEachProcessor M ut c w)) = obs w" for c w
    by (simp_all add: ApUtReadMsr_def ApUtReadCpuId_def ReadMemoryOnEachProcessor_def)
  have one: "obs (snd (on_processor M bsp 0 (ApUtReadMsr M ut) i w)) = obs w" for i
    using ap(1) q(4) by (auto simp: on_processor_def split: prod.splits) (metis snd_conv)+
  have reading: "opcode AND (OPCODE_RMM_BIT OR OPCODE_WMM_BIT) \<noteq> 0 \<Longrightarrow> opcode AND OPCODE_RMM_BIT \<noteq> 0"
    using wmm by (simp add: bit.conj_disj_distrib)
  have each: "obs (snd (each_processor M bsp before (ApUtReadMsr M ut) line i locs w)) = obs w"
      "obs (snd (each_processor M bsp before' (ApUtReadCpuId M ut) line' i locs w)) = obs w"
      "obs (snd (each_processor M bsp before (ReadMemoryOnEachProcessor M ut) line i locs w)) = obs w"
      for before before' line line' i
    by (simp_all add: each_processor_quiet [OF assms(1)] ap)
  note access = access_memory_quiet [OF assms(1), of bsp ut w]
  show ?thesis using assms(3) not reading
    unfolding UefiToolRoutine_def Let_def split_def
    by (auto simp: q ap one each obind_Returned_iff split: if_splits dest!: access)
qed

text \<open>
  C28: What only reads changes nothing.  Whatever the arguments are, when none of them is a word that
  asks for writing and reading itself leaves what is observed alone, a run of the tool leaves it
  alone too: no register, port, memory or file is written.
\<close>

theorem tool_reads_only:
  assumes "reads_quietly M obs" "\<forall>a \<in> set argv. StrUpr a \<notin> writing_words"
    and "UefiToolMain M fuel argv w = Returned ((status, out), w')"
  shows "obs w' = obs w"
proof (cases "length argv = 1 \<or> length argv = 2 \<and> (\<exists>s. single_option (StrUpr (argv ! 1)) = Inl s)")
  case True
  with assms(3) show ?thesis by (auto simp: UefiToolMain_def)
next
  case False
  define argv1 where "argv1 = (if length argv = 2 then argv[1 := StrUpr (argv ! 1)] else argv)"
  have words: "\<forall>a \<in> set argv1. StrUpr a \<notin> writing_words"
  proof
    fix a assume "a \<in> set argv1"
    then consider "a \<in> set argv" | "length argv = 2" "a = StrUpr (argv ! 1)"
      using set_update_subset_insert [of argv 1 "StrUpr (argv ! 1)"] by (auto simp: argv1_def split: if_splits)
    then show "StrUpr a \<notin> writing_words" using assms(2) by cases auto
  qed
  obtain op where op: "(if length argv = 2 then single_option (argv1 ! 1) else Inr 0) = Inr op"
    using False by (cases "length argv = 2"; cases "single_option (StrUpr (argv ! 1))") (auto simp: argv1_def)
  have nw: "op AND writing_bits = 0"
  proof (cases "length argv = 2")
    case True
    then have "argv1 ! 1 \<notin> writing_words" using assms(2) by (simp add: argv1_def)
    with op True show ?thesis
      by (auto simp: single_option_def writing_words_def writing_bits_def opcode_bits split: if_splits)
  qed (use op in simp)
  from False op assms(3) obtain r w1 where p: "GetProcessorsCpuLocation M w = Returned (r, w1)"
    and rest: "(case r of Inl s \<Rightarrow> Returned ((s, []), w1)
      | Inr (locs, bsp) \<Rightarrow> obind (tool_options M fuel argv1 1 op no_context) (\<lambda>(opcode, ut).
          obind (UefiToolRoutine M locs bsp opcode ut w1) (\<lambda>((s, out), w2). Returned ((0, out), w2)))) =
        Returned ((status, out), w')"
    by (auto simp: UefiToolMain_def argv1_def [symmetric] Let_def obind_Returned_iff simp del: split_paired_Ex)
  note q = processors_quiet [OF assms(1) p]
  show ?thesis
  proof (cases r)
    case (Inr x)
    obtain locs bsp where x: "x = (locs, bsp)" by (cases x)
    from rest Inr x obtain op' ut s where run: "tool_options M fuel argv1 1 op no_context = Returned (op', ut)"
        "UefiToolRoutine M locs bsp op' ut w1 = Returned ((s, out), w')"
      by (auto simp: obind_Returned_iff)
    from routine_quiet [OF assms(1) options_without_writing [OF run(1) nw words] run(2)] q show ?thesis by simp
  qed (use rest q in simp)
qed

subsection \<open>What does not go well\<close>

text \<open>
  The index of the arguments is an octet: with 255 arguments or fewer the loop ends, with more it
  never does.
\<close>

lemma option_advances:
  assumes "tool_option M argv index opcode ut = Returned (index', r)" "unat index < length argv" "length argv \<le> 255"
  shows "unat index < unat index' \<and> unat index' \<le> length argv"
proof -
  have "index' = index + 1 \<and> unat index + 1 \<le> length argv \<or> index' = index + 2 \<and> unat index + 2 \<le> length argv \<or>
      index' = index + 3 \<and> unat index + 3 \<le> length argv \<or> index' = index + 4 \<and> unat index + 4 \<le> length argv"
    using assms(1,2) by (auto simp: tool_option_def Let_def obind_Returned_iff tool_argument_def split: if_splits)
  with assms(3) show ?thesis by (auto simp: unat_word_ariths)
qed

lemma few_arguments_end:
  "length argv \<le> 255 \<Longrightarrow> unat index \<le> length argv \<Longrightarrow> length argv - unat index < fuel \<Longrightarrow>
     tool_options M fuel argv index opcode ut \<noteq> Unfinished"
proof (induction fuel arbitrary: argv index opcode ut)
  case (Suc fuel)
  show ?case
  proof (cases "unat index + 1 > length argv")
    case False
    define argv1 where "argv1 = argv[unat index := StrUpr (argv ! unat index)]"
    have len: "length argv1 = length argv" by (simp add: argv1_def)
    show ?thesis
    proof (cases "tool_option M argv1 index opcode ut")
      case (Returned r)
      obtain i op u where r: "r = (i, op, u)" by (cases r)
      with Returned False Suc.prems(1) len have "unat index < unat i \<and> unat i \<le> length argv"
        using option_advances [of M argv1 index opcode ut i "(op, u)"] by simp
      moreover from this Suc.prems(3) have "length argv - unat i < fuel" by arith
      ultimately have "tool_options M fuel argv1 i op u \<noteq> Unfinished" using Suc.IH [of argv1 i op u] Suc.prems(1) len by simp
      with False show ?thesis by (simp add: Let_def Returned r argv1_def [symmetric])
    qed (use False in \<open>auto simp: Let_def argv1_def [symmetric] tool_option_def tool_argument_def split: if_splits\<close>)
  qed simp
qed simp

lemma many_arguments_never_end:
  "256 \<le> length argv \<Longrightarrow> tool_options M fuel argv index opcode ut \<noteq> Returned r"
proof (induction fuel arbitrary: argv index opcode ut)
  case (Suc fuel)
  moreover have "unat index < 256" using unsigned_less [of index, where ?'a = nat] by simp
  ultimately show ?case by (auto simp: Let_def obind_Returned_iff)
qed simp

text \<open>An option without its operand as the last argument reads behind the arguments.\<close>

lemma operand_missing:
  "tool_option M [tool, wide ''-W''] 1 opcode ut = Faulted"
  "tool_option M [tool, wide ''-WMM'', a] 1 opcode ut = Faulted"
  "tool_option M [tool, wide ''-WT'', a] 1 opcode ut = Faulted"
  by (simp_all add: tool_option_def tool_argument_def wide_def Let_def)

text \<open>The number of a processor is not compared with how many there are.\<close>

lemma processor_number_unchecked:
  "length locs \<le> unat (ut_ProcessorIndex ut) \<Longrightarrow>
     UefiToolRoutine M locs bsp (OPCODE_RDMSR_BIT OR OPCODE_PROCESSOR_INDEX_BIT) ut w = Faulted"
  by (simp add: UefiToolRoutine_def opcode_bits Let_def split: prod.splits)

text \<open>Eight octets of memory are read from the port of that address.\<close>

lemma eight_octets_from_port:
  "um_io_read M 8 (ut_MmAddress ut) w = (d, w') \<Longrightarrow> ut_MmWidth ut = 8 \<Longrightarrow> ut_MmAccessType ut = 0 \<Longrightarrow>
     access_memory M bsp True ut w = Returned ([P_mem_read (ucast (ut_MmAddress ut)) (ucast d)], w')"
  by (simp add: access_memory_def mm_width_def Let_def)

text \<open>A file name of more than four characters is cut.\<close>

lemma file_name_cut:
  "tool_option M [tool, wide ''DUMPMEM'', a, n, wide ''memory.bin''] 1 opcode ut =
     Returned (5, opcode OR OPCODE_DUMPMEM_BIT, ut\<lparr>ut_DumpMemAddress := um_hex M a, ut_DumpMemSize := um_hex M n,
       ut_DumpMemFile := wide ''memo''\<rparr>)"
  by (simp add: tool_option_def wide_def Let_def)

subsection \<open>A machine\<close>

text \<open>
  Three processors with registers, memory and ports that are maps; the world is what was written.
\<close>

definition three_cpus :: "(ustring, (u64 \<times> u32 \<times> u64) list) tool_machine" where
  "three_cpus = \<lparr>um_shell = \<lparr>sh_alloc = \<lambda>n w. (True, w), sh_open = \<lambda>name c w. ((EFI_NOT_FOUND, name), w),
       sh_size = \<lambda>f w. ((EFI_DEVICE_ERROR, 0), w), sh_read = \<lambda>f n w. ((EFI_DEVICE_ERROR, []), w),
       sh_write = \<lambda>f d w. (EFI_DEVICE_ERROR, w), sh_close = \<lambda>f w. w, sh_exists = \<lambda>name w. (EFI_NOT_FOUND, w),
       sh_delete = \<lambda>name w. w\<rparr>,
     um_mp = EFI_SUCCESS, um_count = (EFI_SUCCESS, 3), um_info_size = 24,
     um_info = \<lambda>n. (EFI_SUCCESS, \<lparr>lo_Package = 0, lo_Core = word_of_nat n, lo_Thread = 0\<rparr>),
     um_who = (EFI_SUCCESS, 0), um_start_ap = \<lambda>i w. (i = 1, w),
     um_rdmsr = \<lambda>c i w. (c + ucast i, w), um_wrmsr = \<lambda>c i v w. (c, i, v) # w,
     um_cpuid = \<lambda>c i s w. (\<lparr>cr_Eax = i, cr_Ebx = 0, cr_Ecx = 0, cr_Edx = 0\<rparr>, w), um_gdtr = \<lambda>w. (0, 0), um_cr = \<lambda>n w. 0,
     um_io_read = \<lambda>n a w. (0, w), um_io_write = \<lambda>n a v w. w, um_mem_read = \<lambda>c n a w. (0, w),
     um_mem_write = \<lambda>c n a v w. w, um_memory = \<lambda>a n w. [], um_hex = \<lambda>s. foldl (\<lambda>v c. 16 * v + (ucast c - 0x30)) 0 s\<rparr>"

lemma three_cpus_quiet: "reads_quietly three_cpus (\<lambda>w. w)"
  by (simp add: reads_quietly_def three_cpus_def)

definition core :: "u32 \<Rightarrow> cpu_location" where
  "core n = \<lparr>lo_Package = 0, lo_Core = n, lo_Thread = 0\<rparr>"

lemma three_cpus_found:
  "GetProcessorsCpuLocation three_cpus w = Returned (Inr ([core 0, core 1, core 2], 0), w)"
proof -
  have "processor_infos three_cpus 72 (Suc (Suc (Suc 0))) [] = Returned (Inr [core 0, core 1, core 2])"
    by (simp add: three_cpus_def core_def)
  then have infos: "processor_infos three_cpus 72 3 [] = Returned (Inr [core 0, core 1, core 2])"
    by (simp only: numeral_3_eq_3)
  have "um_mp three_cpus = EFI_SUCCESS" "um_count three_cpus = (EFI_SUCCESS, 3)" "um_info_size three_cpus = 24"
      "um_who three_cpus = (EFI_SUCCESS, 0)" "sh_alloc (um_shell three_cpus) n w = (True, w)" for n
    by (simp_all add: three_cpus_def)
  with infos show ?thesis by (simp add: GetProcessorsCpuLocation_def)
qed

text \<open>
  All processors are read, with the option in front; the third one does not start, and zero is printed
  for it.  Then a register is written.
\<close>

lemma tool_requests_carried_out_witness:
  "UefiToolMain three_cpus 256 [wide ''tool'', wide ''-a'', wide ''rdmsr'', wide ''17''] [] =
     Returned ((0, [P_rdmsr_on 0x17 0 (core 0) 0x17, P_rdmsr_on 0x17 1 (core 1) 0x18, P_rdmsr_on 0x17 2 (core 2) 0]), []) \<and>
   UefiToolMain three_cpus 256 [wide ''tool'', wide ''WrMsr'', wide ''17'', wide ''5''] [] =
     Returned ((0, [P_wrmsr 5 0x17]), [(0, 0x17, 5)])"
proof
  let ?words = "[[wide ''-a''], [wide ''rdmsr'', wide ''17'']]"
  have "list_all2 spelled_as [All_processors, Rdmsr_of (wide ''17'')] ?words"
    by (simp add: spelled_as_def wide_def StrUpr_def ToUpper_def)
  moreover have "asks_for (um_hex three_cpus) [All_processors, Rdmsr_of (wide ''17'')] (Read_msr_all (ucast (um_hex three_cpus (wide ''17''))))"
    by (rule asks_for.intros(3)) simp
  ultimately have "typed (um_hex three_cpus) (concat ?words) (Read_msr_all (ucast (um_hex three_cpus (wide ''17''))))"
    by (rule typed.intros)
  moreover have "um_hex three_cpus (wide ''17'') = 0x17" by (simp add: three_cpus_def wide_def)
  ultimately have "typed (um_hex three_cpus) [wide ''-a'', wide ''rdmsr'', wide ''17''] (Read_msr_all 0x17)" by simp
  from tool_requests_carried_out [OF this _ _ three_cpus_found, of "wide ''tool''"]
  show "UefiToolMain three_cpus 256 [wide ''tool'', wide ''-a'', wide ''rdmsr'', wide ''17''] [] =
     Returned ((0, [P_rdmsr_on 0x17 0 (core 0) 0x17, P_rdmsr_on 0x17 1 (core 1) 0x18, P_rdmsr_on 0x17 2 (core 2) 0]), [])"
    by (simp add: run_on_all_def run_on_def upt_rec numeral_3_eq_3) (simp add: three_cpus_def)
next
  let ?words = "[[wide ''WrMsr'', wide ''17'', wide ''5'']]"
  have "list_all2 spelled_as [Wrmsr_of (wide ''17'') (wide ''5'')] ?words"
    by (simp add: spelled_as_def wide_def StrUpr_def ToUpper_def)
  from typed.intros(1) [OF this asks_for.intros(4), of "um_hex three_cpus"]
  have "typed (um_hex three_cpus) [wide ''WrMsr'', wide ''17'', wide ''5''] (Write_msr 0x17 5)"
    by (simp add: three_cpus_def wide_def)
  from tool_requests_carried_out [OF this _ _ three_cpus_found, of "wide ''tool''"]
  show "UefiToolMain three_cpus 256 [wide ''tool'', wide ''WrMsr'', wide ''17'', wide ''5''] [] =
     Returned ((0, [P_wrmsr 5 0x17]), [(0, 0x17, 5)])" by simp (simp add: three_cpus_def)
qed

lemma tool_reads_only_witness:
  "\<exists>r w'. UefiToolMain three_cpus 256 [wide ''tool'', wide ''RDMSR'', wide ''17'', wide ''-A''] [(0, 1, 2)] = Returned (r, w') \<and>
     w' = [(0, 1, 2)]"
proof -
  let ?argv = "[wide ''tool'', wide ''RDMSR'', wide ''17'', wide ''-A'']"
  have words: "\<forall>a \<in> set ?argv. StrUpr a \<notin> writing_words"
    by (simp add: writing_words_def wide_def StrUpr_def ToUpper_def)
  obtain status out w' where "UefiToolMain three_cpus 256 ?argv [(0, 1, 2)] = Returned ((status, out), w')"
  proof -
    have "tool_options three_cpus 256 ?argv 1 0 no_context =
        Returned (OPCODE_RDMSR_BIT OR OPCODE_ALLPROCESSOR_BIT, no_context\<lparr>ut_MsrIndex := 0x17\<rparr>)"
      using tool_options_requests [of "[Rdmsr_of (wide ''17''), All_processors]" "[[wide ''RDMSR'', wide ''17''], [wide ''-A'']]"
          "[wide ''tool'']" 1 256 three_cpus 0 no_context]
      by (simp add: spelled_as_def wide_def StrUpr_def ToUpper_def three_cpus_def)
    then show ?thesis using that
      by (simp add: UefiToolMain_def three_cpus_found UefiToolRoutine_def opcode_bits split_def)
  qed
  with tool_reads_only [OF three_cpus_quiet words this] show ?thesis by blast
qed

end
