(* ===== verification/SmallTools.thy ===== *)
theory SmallTools
  imports EfiShell EfiDump
begin

text \<open>
  The small tools: \<open>Smn\<close>, \<open>GenGuid\<close>, \<open>TscFreq\<close>, \<open>AmdCpuFreq\<close>, \<open>GopVer\<close>, \<open>RamDiskApp\<close> and the PEI driver
  \<open>RawDataInit\<close>.  Each has a record of the firmware functions it calls, or takes what they return.
  What is printed is part of a result where it is what the tool is for.
\<close>

subsection \<open>Smn: registers of the system management network\<close>

record 'w smn_services =
  sn_pci_write :: "u64 \<Rightarrow> u32 \<Rightarrow> 'w \<Rightarrow> 'w"
  sn_pci_read :: "u64 \<Rightarrow> 'w \<Rightarrow> u32 \<times> 'w"
  sn_hex :: "ustring \<Rightarrow> u64"

definition IOHC_NB_SMN_INDEX_2_BIOS :: u64 where "IOHC_NB_SMN_INDEX_2_BIOS = 0xB8"
definition IOHC_NB_SMN_DATA_2_BIOS :: u64 where "IOHC_NB_SMN_DATA_2_BIOS = 0xBC"

definition AmdSmnRead :: "'w smn_services \<Rightarrow> u32 \<Rightarrow> u32 \<Rightarrow> 'w \<Rightarrow> u32 \<times> 'w" where
  "AmdSmnRead S bus address w =
     (let w1 = sn_pci_write S (push_bit 20 (ucast bus) + IOHC_NB_SMN_INDEX_2_BIOS) address w
      in sn_pci_read S (push_bit 20 (ucast bus) + IOHC_NB_SMN_DATA_2_BIOS) w1)"

definition AmdSmnWrite :: "'w smn_services \<Rightarrow> u32 \<Rightarrow> u32 \<Rightarrow> u32 \<Rightarrow> 'w \<Rightarrow> 'w" where
  "AmdSmnWrite S bus address v w =
     (let w1 = sn_pci_write S (push_bit 20 (ucast bus) + IOHC_NB_SMN_INDEX_2_BIOS) address w
      in sn_pci_write S (push_bit 20 (ucast bus) + IOHC_NB_SMN_DATA_2_BIOS) v w1)"

definition help_switch :: "ustring \<Rightarrow> bool" where
  "help_switch a \<longleftrightarrow> a \<in> set (map wide [''-h'', ''-H'', ''/h'', ''/H''])"

text \<open>The status and what is printed: whether it was a write, the address and the value.\<close>

definition SmnMain :: "'w smn_services \<Rightarrow> ustring list \<Rightarrow> 'w \<Rightarrow> (EFI_STATUS \<times> (bool \<times> u32 \<times> u32) list) \<times> 'w" where
  "SmnMain S argv w =
     (if length argv = 1 then ((EFI_INVALID_PARAMETER, []), w)
      else if length argv = 2 then
        (if help_switch (argv ! 1) then ((EFI_INVALID_PARAMETER, []), w)
         else let address = ucast (sn_hex S (argv ! 1)); (v, w1) = AmdSmnRead S 0 address w
              in ((EFI_SUCCESS, [(False, address, v)]), w1))
      else if length argv = 3 then
        (if help_switch (argv ! 1) then ((EFI_INVALID_PARAMETER, []), w)
         else let address = ucast (sn_hex S (argv ! 1)); v = ucast (sn_hex S (argv ! 2))
              in ((EFI_SUCCESS, [(True, address, v)]), AmdSmnWrite S 0 address v w))
      else ((0, []), w))"

text \<open>
  The registers behind the pair of an index and a data register: \<open>regs\<close> are their contents and
  \<open>ix\<close> the index last written for a bus.
\<close>

locale smn_network =
  fixes S :: "'w smn_services" and regs :: "'w \<Rightarrow> u32 \<Rightarrow> u32 \<Rightarrow> u32" and ix :: "'w \<Rightarrow> u32 \<Rightarrow> u32"
  assumes write_index: "regs (sn_pci_write S (push_bit 20 (ucast bus) + IOHC_NB_SMN_INDEX_2_BIOS) a w) = regs w"
      "ix (sn_pci_write S (push_bit 20 (ucast bus) + IOHC_NB_SMN_INDEX_2_BIOS) a w) = (ix w)(bus := a)"
    and write_data: "regs (sn_pci_write S (push_bit 20 (ucast bus) + IOHC_NB_SMN_DATA_2_BIOS) v w) =
      (regs w)(bus := (regs w bus)(ix w bus := v))"
    and read_data: "sn_pci_read S (push_bit 20 (ucast bus) + IOHC_NB_SMN_DATA_2_BIOS) w = (v, w') \<Longrightarrow>
      v = regs w bus (ix w bus) \<and> regs w' = regs w"
begin

lemma smn_write: "regs (AmdSmnWrite S bus a v w) = (regs w)(bus := (regs w bus)(a := v))"
  by (simp add: AmdSmnWrite_def Let_def write_data write_index)

lemma smn_read: "AmdSmnRead S bus a w = (v, w') \<Longrightarrow> v = regs w bus a \<and> regs w' = regs w"
  by (auto simp: AmdSmnRead_def Let_def write_index dest!: read_data)

text \<open>A register written is read back, on the bus it was written on.\<close>

lemma smn_read_back: "AmdSmnRead S bus a (AmdSmnWrite S bus a v w) = (r, w') \<Longrightarrow> r = v"
  using smn_read [of bus a "AmdSmnWrite S bus a v w"] by (simp add: smn_write)

end

text \<open>The configuration space of the buses: bits 20 and up of an address are the bus, the rest the register.\<close>

definition bus_of :: "u64 \<Rightarrow> u32" where "bus_of a = ucast (drop_bit 20 a)"

definition config_space :: "((u32 \<Rightarrow> u32 \<Rightarrow> u32) \<times> (u32 \<Rightarrow> u32)) smn_services" where
  "config_space = \<lparr>
     sn_pci_write = \<lambda>a v (regs, ix).
       (if take_bit 20 a = IOHC_NB_SMN_INDEX_2_BIOS then (regs, ix(bus_of a := v))
        else if take_bit 20 a = IOHC_NB_SMN_DATA_2_BIOS then (regs(bus_of a := (regs (bus_of a))(ix (bus_of a) := v)), ix)
        else (regs, ix)),
     sn_pci_read = \<lambda>a (regs, ix). (if take_bit 20 a = IOHC_NB_SMN_DATA_2_BIOS then regs (bus_of a) (ix (bus_of a)) else 0, (regs, ix)),
     sn_hex = \<lambda>s. word_of_nat (length s)\<rparr>"

lemma config_address:
  fixes bus :: u32 and r :: u64
  assumes "take_bit 20 r = r"
  shows "take_bit 20 (push_bit 20 (ucast bus) + r) = r" "bus_of (push_bit 20 (ucast bus) + r) = bus"
proof -
  have low: "bit r n \<Longrightarrow> n < 20" for n using assms by (metis bit_take_bit_iff)
  have "push_bit 20 (ucast bus) AND r = 0" by (rule bit_word_eqI) (auto simp: bit_simps dest: low)
  then have sum: "push_bit 20 (ucast bus) + r = push_bit 20 (ucast bus) OR r" by (rule disjunctive_add_eq_or)
  show "take_bit 20 (push_bit 20 (ucast bus) + r) = r" unfolding sum
    by (rule bit_word_eqI) (auto simp: bit_simps dest: low)
  show "bus_of (push_bit 20 (ucast bus) + r) = bus" unfolding sum bus_of_def
    by (rule bit_word_eqI) (auto simp: bit_simps dest: low)
qed

interpretation cs: smn_network config_space fst snd
proof -
  have r: "take_bit 20 IOHC_NB_SMN_INDEX_2_BIOS = IOHC_NB_SMN_INDEX_2_BIOS" "take_bit 20 IOHC_NB_SMN_DATA_2_BIOS = IOHC_NB_SMN_DATA_2_BIOS"
      "IOHC_NB_SMN_DATA_2_BIOS \<noteq> IOHC_NB_SMN_INDEX_2_BIOS"
    by (simp_all add: IOHC_NB_SMN_INDEX_2_BIOS_def IOHC_NB_SMN_DATA_2_BIOS_def)
  show "smn_network config_space fst snd"
    by unfold_locales (auto simp: config_space_def config_address [OF r(1)] config_address [OF r(2)] r(3) split_def)
qed

lemma config_space_reads_back: "fst (AmdSmnRead config_space bus a (AmdSmnWrite config_space bus a v w)) = v"
  using cs.smn_read_back [of bus a v w] by (metis prod.collapse)

subsection \<open>GenGuid: a random GUID\<close>

record EFI_TIME =
  ti_Year :: u16
  ti_Day :: u8
  ti_Hour :: u8
  ti_Minute :: u8
  ti_Second :: u8
  ti_Nanosecond :: u32

record 'w clock_services =
  ck_time :: "'w \<Rightarrow> EFI_TIME \<times> 'w"
  ck_count :: "'w \<Rightarrow> u64 \<times> 'w"

record random_guid =
  rg_Data1 :: u32
  rg_Data2 :: u16
  rg_Data3 :: u16
  rg_Data4 :: bytes

definition RANDOM :: "u32 \<Rightarrow> u32" where
  "RANDOM seed = (seed * 1103515245 + 12345) mod 4294967295"

definition RandomInitSeed :: "'w clock_services \<Rightarrow> 'w \<Rightarrow> u32 \<times> 'w" where
  "RandomInitSeed C w =
     (let (t, w1) = ck_time C w;
          seed = push_bit 24 (NOT (ucast (ti_Hour t))) OR push_bit 16 (ucast (ti_Day t)) OR
            push_bit 8 (ucast (ti_Minute t)) OR ucast (ti_Second t);
          seed = seed XOR ti_Nanosecond t;
          seed = seed XOR push_bit 7 (ucast (ti_Year t));
          (count, w2) = ck_count C w1
      in (seed + ucast count, w2))"

fun GenRandom :: "'w clock_services \<Rightarrow> nat \<Rightarrow> 'w \<Rightarrow> bytes \<times> 'w" where
  "GenRandom C 0 w = ([], w)"
| "GenRandom C (Suc n) w =
     (let (seed, w1) = RandomInitSeed C w; (rest, w2) = GenRandom C n w1 in (ucast (RANDOM seed) # rest, w2))"

definition GenGuidMain :: "'w clock_services \<Rightarrow> 'w \<Rightarrow> random_guid \<times> 'w" where
  "GenGuidMain C w =
     (let (rand, w1) = GenRandom C 16 w; r0 = load64 rand; r1 = drop 8 rand
      in (\<lparr>rg_Data1 = ucast r0, rg_Data2 = ucast (drop_bit 32 r0),
           rg_Data3 = (ucast (drop_bit 48 r0) AND 0x0FFF) OR 0x4000,
           rg_Data4 = ((r1 ! 0 AND 0x3F) OR 0x80) # drop 1 r1\<rparr>, w1))"

lemma length_GenRandom [simp]: "length (fst (GenRandom C n w)) = n"
  by (induction n arbitrary: w) (simp_all add: split_def Let_def)

text \<open>The GUID says that it is a random one: its version is 4 and its variant the one of RFC 4122.\<close>

lemma guid_version_and_variant:
  "drop_bit 12 (rg_Data3 (fst (GenGuidMain C w))) = 4" "drop_bit 6 (hd (rg_Data4 (fst (GenGuidMain C w)))) = 2"
  "length (rg_Data4 (fst (GenGuidMain C w))) = 8"
proof -
  have "drop_bit 12 ((x AND 0x0FFF) OR 0x4000 :: u16) = 4" for x by (simp add: drop_bit_and drop_bit_or)
  moreover have "drop_bit 6 ((x AND 0x3F) OR 0x80 :: u8) = 2" for x by (simp add: drop_bit_and drop_bit_or)
  ultimately show "drop_bit 12 (rg_Data3 (fst (GenGuidMain C w))) = 4" "drop_bit 6 (hd (rg_Data4 (fst (GenGuidMain C w)))) = 2"
    "length (rg_Data4 (fst (GenGuidMain C w))) = 8"
    by (simp_all add: GenGuidMain_def split_def Let_def)
qed

text \<open>When the time stands still, an octet tells the next one: the count only adds one to the seed.\<close>

lemma next_octet_known:
  assumes "seed * 1103515245 + 12345 \<noteq> 4294967295" "(seed + 1) * 1103515245 + 12345 \<noteq> 4294967295"
  shows "ucast (RANDOM (seed + 1)) = (ucast (RANDOM seed) + 0x6D :: u8)"
proof -
  have r: "x \<noteq> 4294967295 \<Longrightarrow> x mod 4294967295 = x" for x :: u32
    using unsigned_less [of x, where ?'a = nat] by (simp add: word_eq_iff_unsigned unat_mod word_unat_eq_iff)
  have "RANDOM (seed + 1) = RANDOM seed + 1103515245"
    using assms by (simp add: RANDOM_def r algebra_simps)
  moreover have "ucast (a + b :: u32) = (ucast a + ucast b :: u8)" for a b
    by (simp add: word_unat_eq_iff unsigned_ucast_eq unat_word_ariths take_bit_eq_mod mod_mod_cancel mod_add_eq)
  ultimately show ?thesis by simp
qed

subsection \<open>TscFreq and AmdCpuFreq: frequencies\<close>

definition GetTscFrequency :: "u64 \<Rightarrow> u64 \<Rightarrow> u64" where
  "GetTscFrequency start stop = (stop - start) div 100"

text \<open>The two numbers that are printed before and behind the point.\<close>

definition TscFreqMain :: "u64 \<Rightarrow> u64 \<Rightarrow> u32 \<times> u32" where
  "TscFreqMain start stop =
     (let f = GetTscFrequency start stop in (ucast (f div 1000), ucast (f mod 1000 div 10)))"

text \<open>The hundredths are printed without their leading zero: 3050 MHz are shown as 3.5 GHz.\<close>

lemma leading_zero_lost: "TscFreqMain 0 305000 = (3, 5)" "TscFreqMain 0 350000 = (3, 50)"
  by (simp_all add: TscFreqMain_def GetTscFrequency_def)

text \<open>The fields of \<open>HW_PSTATE_STATUS_MSR\<close>; dividing by zero is an assertion of the library.\<close>

definition CurCpuFid :: "u64 \<Rightarrow> u64" where "CurCpuFid v = take_bit 8 v"
definition CurCpuDfsId :: "u64 \<Rightarrow> u64" where "CurCpuDfsId v = take_bit 6 (drop_bit 8 v)"

definition AmdCpuFreqMain :: "u64 \<Rightarrow> u32 outcome" where
  "AmdCpuFreqMain msr =
     (if CurCpuDfsId msr = 0 then Aborted else Returned (ucast (200 * CurCpuFid msr div CurCpuDfsId msr)))"

lemma divisor_unchecked: "AmdCpuFreqMain 0x88 = Aborted"
  by (simp add: AmdCpuFreqMain_def CurCpuDfsId_def)

subsection \<open>GopVer: the version of the graphics driver\<close>

text \<open>For every handle the status of opening it, and the status and the name it gives.\<close>

fun find_gop :: "(EFI_STATUS \<times> EFI_STATUS \<times> ustring) list \<Rightarrow> EFI_STATUS + ustring option" where
  "find_gop [] = Inr None"
| "find_gop ((open_status, name_status, name) # handles) =
     (if EFI_ERROR open_status then find_gop handles
      else if EFI_ERROR name_status then Inl name_status
      else if StrnCmp_eq name (wide ''AMD GOP '') 8 then Inr (Some name)
      else find_gop handles)"

text \<open>The status, and the driver's name if it is printed.\<close>

definition GopVerMain :: "EFI_STATUS \<Rightarrow> (EFI_STATUS \<times> EFI_STATUS \<times> ustring) list \<Rightarrow> EFI_STATUS \<times> ustring option" where
  "GopVerMain located handles =
     (if EFI_ERROR located then (located, None)
      else case find_gop handles of Inl status \<Rightarrow> (status, None) | Inr name \<Rightarrow> (0, name))"

lemma gop_found:
  "find_gop handles = Inr (Some name) \<Longrightarrow>
     (\<exists>s s'. (s, s', name) \<in> set handles \<and> \<not> EFI_ERROR s \<and> \<not> EFI_ERROR s') \<and> take 8 name = wide ''AMD GOP ''"
  by (induction handles rule: find_gop.induct) (auto simp: StrnCmp_eq_def wide_def split: if_splits)

text \<open>A driver without a name in front hides the graphics driver behind it.\<close>

lemma nameless_driver_hides:
  "GopVerMain EFI_SUCCESS ((EFI_SUCCESS, EFI_UNSUPPORTED, n) # handles) = (EFI_UNSUPPORTED, None)"
  by (simp add: GopVerMain_def)

subsection \<open>RamDiskApp: a RAM disk from a file\<close>

record 'w ram_disk_services =
  rk_located :: EFI_STATUS
  rk_register :: "bytes \<Rightarrow> u64 \<Rightarrow> 'w \<Rightarrow> EFI_STATUS \<times> 'w"

definition RamDiskAppMain :: "('f, 'w) shell \<Rightarrow> 'w ram_disk_services \<Rightarrow> ustring list \<Rightarrow> 'w \<Rightarrow> EFI_STATUS \<times> 'w" where
  "RamDiskAppMain sh D argv w =
     (if length argv = 1 then (EFI_INVALID_PARAMETER, w)
      else if length argv = 2 then
        (if help_switch (argv ! 1) then (EFI_INVALID_PARAMETER, w)
         else if EFI_ERROR (rk_located D) then (rk_located D, w)
         else case ReadFileFromDisk sh (argv ! 1) w of
             (Inl status, w1) \<Rightarrow> (status, w1)
           | (Inr data, w1) \<Rightarrow>
               (case rk_register D data (word_of_nat (length data)) w1 of (status, w2) \<Rightarrow>
                (if EFI_ERROR status then status else EFI_SUCCESS, w2)))
      else (0, w))"

text \<open>A disk that is made holds the file, whole, and the files stay as they are until it is made.\<close>

lemma ram_disk_holds_file:
  assumes "shell_files sh files name_of pos" "RamDiskAppMain sh D [tool, name] w = (EFI_SUCCESS, w')"
  shows "\<exists>data w1 status. files w name = Some data \<and> files w1 = files w \<and> \<not> EFI_ERROR status \<and>
    rk_register D data (word_of_nat (length data)) w1 = (status, w')"
proof -
  obtain r w1 where read: "ReadFileFromDisk sh name w = (r, w1)" by fastforce
  from assms(2) have run: "\<not> help_switch name" "\<not> EFI_ERROR (rk_located D)"
    by (auto simp: RamDiskAppMain_def split: if_splits)
  have "r \<noteq> Inl EFI_SUCCESS"
    using read by (auto simp: ReadFileFromDisk_def split: prod.splits if_splits)
  with assms(2) run read obtain data where r: "r = Inr data" by (cases r) (auto simp: RamDiskAppMain_def)
  obtain status w2 where reg: "rk_register D data (word_of_nat (length data)) w1 = (status, w2)" by fastforce
  from assms(2) run read r reg have "\<not> EFI_ERROR status" "w2 = w'"
    by (auto simp: RamDiskAppMain_def split: if_splits)
  with reg r read shell_files.read_whole [OF assms(1), of name w data w1] show ?thesis by blast
qed

subsection \<open>RawDataInit: a raw section of a firmware volume\<close>

text \<open>
  A section is a header and data: three octets of the size and the type, and for a size of
  0xFFFFFF the size in four more octets.  \<open>p\<close> is where the data starts in the volume.
\<close>

definition EFI_SECTION_RAW :: u8 where "EFI_SECTION_RAW = 0x19"

definition octet_before :: "bytes \<Rightarrow> nat \<Rightarrow> nat \<Rightarrow> u8 outcome" where
  "octet_before fv p k = checked (if k \<le> p \<and> p - k < length fv then Some (fv ! (p - k)) else None)"

definition section_size :: "bytes \<Rightarrow> nat \<Rightarrow> u32 outcome" where
  "section_size fv h = obind (checked (slice h 3 fv)) (\<lambda>b.
     if le_word b = (0xFFFFFF :: u32) then obind (checked (slice (h + 4) 4 fv)) (\<lambda>s. Returned (load32 s))
     else Returned (le_word b))"

definition GetSectionSize :: "u8 \<Rightarrow> bytes \<Rightarrow> nat \<Rightarrow> u64 outcome" where
  "GetSectionSize type fv p =
     obind (octet_before fv p 1) (\<lambda>t.
     let header = (if t \<noteq> type then 8 else 4) in
     obind (octet_before fv p (header - 3)) (\<lambda>t.
     if t \<noteq> type then Aborted
     else obind (section_size fv (p - header)) (\<lambda>s. Returned (ucast s - word_of_nat header))))"

text \<open>
  The volumes, and how the search for another one ends; for a volume the status of finding the file,
  and the status and the place of its raw section.
\<close>

record pei_volume =
  vo_file :: EFI_STATUS
  vo_section :: EFI_STATUS
  vo_memory :: bytes
  vo_data :: nat

fun GetRawImage :: "EFI_STATUS \<Rightarrow> pei_volume list \<Rightarrow> (EFI_STATUS + bytes \<times> nat \<times> u64) outcome" where
  "GetRawImage no_volume [] = Returned (Inl no_volume)"
| "GetRawImage no_volume (v # vs) =
     (if EFI_ERROR (vo_file v) then GetRawImage no_volume vs
      else if EFI_ERROR (vo_section v) then GetRawImage no_volume vs
      else obind (GetSectionSize EFI_SECTION_RAW (vo_memory v) (vo_data v)) (\<lambda>n. Returned (Inr (vo_memory v, vo_data v, n))))"

text \<open>The status and the lines of the dump; the length of the section is not used.\<close>

definition RawDataInitAtEndOfPei :: "EFI_STATUS \<Rightarrow> pei_volume list \<Rightarrow> (EFI_STATUS \<times> (u64 \<times> bytes \<times> bytes) list) outcome" where
  "RawDataInitAtEndOfPei no_volume vs =
     obind (GetRawImage no_volume vs) (\<lambda>r. case r of
         Inl status \<Rightarrow> Returned (status, [])
       | Inr (fv, p, n) \<Rightarrow> obind (checked (slice p 0x100 fv)) (\<lambda>d. Returned (EFI_SUCCESS, DumpHex 0 d)))"

text \<open>A section as the tools of the build make it.\<close>

definition small_section :: "u8 \<Rightarrow> bytes \<Rightarrow> bytes" where
  "small_section type d = take 3 (mem32 (word_of_nat (length d + 4))) @ [type] @ d"

definition large_section :: "u8 \<Rightarrow> bytes \<Rightarrow> bytes" where
  "large_section type d = [0xFF, 0xFF, 0xFF, type] @ mem32 (word_of_nat (length d + 8)) @ d"

lemma le_word_three: "le_word (take 3 (mem32 x)) = take_bit 24 (x :: u32)"
proof (rule bit_word_eqI)
  fix n
  assume "n < LENGTH(32)"
  have "n < 24 \<Longrightarrow> take 3 (mem32 x) ! (n div 8) = byte_of (n div 8) x"
    by (simp add: mem32_def less_mult_imp_div_less)
  moreover have "8 * (n div 8) + n mod 8 = n" by simp
  ultimately show "bit (le_word (take 3 (mem32 x)) :: u32) n = bit (take_bit 24 x) n"
    using \<open>n < LENGTH(32)\<close> by (auto simp: bit_le_word bit_byte_of bit_simps)
qed

text \<open>The size of a section is that of its data.\<close>

lemma small_section_size:
  assumes "length d + 4 < 0xFFFFFF"
  shows "GetSectionSize type (before @ small_section type d @ behind) (length before + 4) = Returned (word_of_nat (length d))"
proof -
  let ?n = "word_of_nat (length d + 4) :: u32"
  have n: "take_bit 24 ?n = ?n" "unat ?n = length d + 4"
    using assms by (simp_all add: word_unat_eq_iff unsigned_take_bit_eq unat_of_nat take_bit_nat_eq_self del: of_nat_add)
  have "?n \<noteq> 0xFFFFFF" using n(2) assms by (auto simp: word_unat_eq_iff)
  then have "section_size (before @ small_section type d @ behind) (length before) = Returned ?n"
    by (simp add: section_size_def small_section_def slice_def le_word_three n(1) del: of_nat_add)
  moreover have "octet_before (before @ small_section type d @ behind) (length before + 4) 1 = Returned type"
    by (simp add: octet_before_def small_section_def nth_append)
  moreover have "ucast ?n - 4 = (word_of_nat (length d) :: u64)"
    using n(2) assms by (simp add: word_unat_eq_iff unat_ucast_up unat_of_nat unat_sub_if' del: of_nat_add)
  ultimately show ?thesis by (simp add: GetSectionSize_def del: of_nat_add)
qed

lemma large_section_size:
  assumes "length d + 8 < 2 ^ 32" "(length d + 8) div 2 ^ 24 \<noteq> unat type"
  shows "GetSectionSize type (before @ large_section type d @ behind) (length before + 8) = Returned (word_of_nat (length d))"
proof -
  let ?n = "word_of_nat (length d + 8) :: u32" and ?fv = "before @ large_section type d @ behind"
  have n: "unat ?n = length d + 8"
    using assms(1) by (simp add: unat_of_nat take_bit_nat_eq_self del: of_nat_add)
  have last: "unat (byte_of 3 ?n) = (length d + 8) div 2 ^ 24"
    using assms(1) n by (simp add: byte_of_def unsigned_ucast_eq unat_drop_bit take_bit_nat_eq_self del: of_nat_add)
  have "octet_before ?fv (length before + 8) 1 = Returned (byte_of 3 ?n)"
    by (simp add: octet_before_def large_section_def nth_append mem32_def del: of_nat_add)
  moreover have "octet_before ?fv (length before + 8) 5 = Returned type"
    by (simp add: octet_before_def large_section_def nth_append)
  moreover have "section_size ?fv (length before) = Returned ?n"
    by (simp add: section_size_def large_section_def slice_def numeral_3_eq_3 del: of_nat_add)
  moreover have "ucast ?n - 8 = (word_of_nat (length d) :: u64)"
    using n assms(1) by (simp add: word_unat_eq_iff unat_ucast_up unat_of_nat unat_sub_if' del: of_nat_add)
  moreover have "byte_of 3 ?n \<noteq> type" using last assms(2) by auto
  ultimately show ?thesis by (simp add: GetSectionSize_def del: of_nat_add)
qed

text \<open>The image is that of the first volume that has the file with a raw section.\<close>

lemma raw_image_first:
  assumes "\<forall>v \<in> set skipped. EFI_ERROR (vo_file v) \<or> EFI_ERROR (vo_section v)"
    "\<not> EFI_ERROR (vo_file v)" "\<not> EFI_ERROR (vo_section v)"
    "vo_memory v = before @ small_section EFI_SECTION_RAW d @ behind" "vo_data v = length before + 4" "length d + 4 < 0xFFFFFF"
  shows "GetRawImage none (skipped @ v # vs) = Returned (Inr (vo_memory v, vo_data v, word_of_nat (length d)))"
  using assms(1) by (induction skipped) (auto simp: assms(2-5) small_section_size [OF assms(6)])

text \<open>The dump reads 256 octets of a section that may have fewer, at the end of the memory behind it.\<close>

lemma dump_leaves_section:
  "RawDataInitAtEndOfPei none [\<lparr>vo_file = EFI_SUCCESS, vo_section = EFI_SUCCESS,
     vo_memory = small_section EFI_SECTION_RAW [1, 2, 3], vo_data = 4\<rparr>] = Faulted"
proof -
  have "GetRawImage none [\<lparr>vo_file = EFI_SUCCESS, vo_section = EFI_SUCCESS,
      vo_memory = small_section EFI_SECTION_RAW [1, 2, 3], vo_data = 4\<rparr>] =
    Returned (Inr (small_section EFI_SECTION_RAW [1, 2, 3], 4, 3))"
    using small_section_size [of "[1, 2, 3]" EFI_SECTION_RAW "[]" "[]"] by simp
  then show ?thesis by (simp add: RawDataInitAtEndOfPei_def slice_def small_section_def)
qed

end
