(* ===== verification/TcpTransport.thy ===== *)
theory TcpTransport
  imports EfiShell
begin

text \<open>
  \<open>Application/TcpTransport\<close>: a server that puts what it receives on a connection into the file
  \<open>Download.bin\<close>.

  What the connection delivers is a list: a request to receive is refused, fails, or completes with
  data; when the list ends, the code polls for ever.  A pointer to the data is null, was never set,
  is to memory that was freed, or to memory with its contents.
\<close>

datatype rx_event = Rx_refused EFI_STATUS | Rx_failed EFI_STATUS | Rx_data bytes

datatype rx_pointer = Null | Wild | Freed | Memory bytes

definition RX_FRAGMENT_SIZE :: nat where "RX_FRAGMENT_SIZE = 2048"
definition SIZE_8MB :: u64 where "SIZE_8MB = 0x800000"

text \<open>The buffer for the next fragment: a longer one with the data so far, or the one there is.\<close>

definition next_buffer ::
  "'w alloc \<Rightarrow> rx_pointer \<Rightarrow> u64 \<Rightarrow> u64 \<Rightarrow> u64 \<Rightarrow> 'w \<Rightarrow> ((rx_pointer + rx_pointer \<times> u64) \<times> 'w) outcome" where
  "next_buffer A data total_len allocated len w =
     (if allocated < total_len + len then
        (case A (unat (allocated + SIZE_8MB)) w of (ok, w1) \<Rightarrow>
         let zeros = replicate (unat (allocated + SIZE_8MB)) 0 in
         case data of
           Null \<Rightarrow> Returned (if ok then Inr (Memory zeros, allocated + SIZE_8MB) else Inl Null, w1)
         | Memory d \<Rightarrow>
             if \<not> ok then Returned (Inl Freed, w1)
             else if unat total_len \<le> length d \<and> unat total_len \<le> length zeros then
               Returned (Inr (Memory (overwrite 0 (take (unat total_len) d) zeros), allocated + SIZE_8MB), w1)
             else Faulted
         | _ \<Rightarrow> Faulted)
      else Returned (Inr (if data = Null then Wild else data, allocated), w))"

definition append_fragment :: "rx_pointer \<Rightarrow> u64 \<Rightarrow> bytes \<Rightarrow> rx_pointer outcome" where
  "append_fragment buffer total_len d =
     (if d = [] then Returned buffer
      else case buffer of
        Memory b \<Rightarrow> if unat total_len + length d \<le> length b then Returned (Memory (overwrite (unat total_len) d b)) else Faulted
      | _ \<Rightarrow> Faulted)"

text \<open>The loop: \<open>data\<close> is the buffer that the caller gets, too.\<close>

fun receive_loop ::
  "'w alloc \<Rightarrow> rx_event list \<Rightarrow> rx_pointer \<Rightarrow> u64 \<Rightarrow> u64 \<Rightarrow> 'w \<Rightarrow> ((EFI_STATUS \<times> u64 \<times> rx_pointer) \<times> 'w) outcome" where
  "receive_loop A [] data total_len allocated w = Unfinished"
| "receive_loop A (Rx_refused status # events) data total_len allocated w = Returned ((status, total_len, data), w)"
| "receive_loop A (Rx_failed status # events) data total_len allocated w = Returned ((status, total_len, data), w)"
| "receive_loop A (Rx_data d # events) data total_len allocated w =
     obind (next_buffer A data total_len allocated (word_of_nat (length d)) w) (\<lambda>(r, w1). case r of
         Inl lost \<Rightarrow> Returned ((EFI_OUT_OF_RESOURCES, total_len, lost), w1)
       | Inr (buffer, allocated') \<Rightarrow>
           obind (append_fragment buffer total_len d) (\<lambda>buffer.
             receive_loop A events buffer (total_len + word_of_nat (length d)) allocated' w1))"

definition TcpDataReceive :: "'w alloc \<Rightarrow> rx_event list \<Rightarrow> 'w \<Rightarrow> ((EFI_STATUS \<times> u64 \<times> rx_pointer) \<times> 'w) outcome" where
  "TcpDataReceive A events w =
     (case A RX_FRAGMENT_SIZE w of (ok, w1) \<Rightarrow> if \<not> ok then Aborted else receive_loop A events Null 0 0 w1)"

text \<open>
  The connection: its status, the status of opening its protocol and of making the event, and what it
  delivers.  The file is saved as the other tools save one, also when receiving did not go well.
\<close>

record tcp_connection =
  tc_accepted :: EFI_STATUS
  tc_opened :: EFI_STATUS
  tc_event :: EFI_STATUS
  tc_events :: "rx_event list"

definition ConnectionAccepted :: "('f, 'w) shell \<Rightarrow> tcp_connection \<Rightarrow> 'w \<Rightarrow> 'w outcome" where
  "ConnectionAccepted sh c w =
     (if EFI_ERROR (tc_accepted c) then Returned w
      else if EFI_ERROR (tc_opened c) then Returned w
      else if EFI_ERROR (tc_event c) then Aborted
      else obind (TcpDataReceive (sh_alloc sh) (tc_events c) w) (\<lambda>((status, n, data), w1).
        let saved = (\<lambda>mem. obind (SaveFileToDisk sh (wide ''Download.bin'') n mem w1) (\<lambda>(status, w2). Returned w2)) in
        case data of Null \<Rightarrow> saved [] | Memory b \<Rightarrow> saved b | _ \<Rightarrow> Faulted))"

subsection \<open>Listening\<close>

text \<open>
  What the calls of the application return, in their order: the statuses, the answers to the polling of
  the address, and the address, which the code reads also when it never asked for it.
\<close>

record tcp_setup =
  st_text_out :: EFI_STATUS
  st_text_in :: EFI_STATUS
  st_handles :: EFI_STATUS
  st_binding :: EFI_STATUS
  st_child :: EFI_STATUS
  st_listener :: EFI_STATUS
  st_accept_event :: EFI_STATUS
  st_close_event :: EFI_STATUS
  st_configure :: EFI_STATUS
  st_modes :: "(EFI_STATUS \<times> bool \<times> bytes) list"
  st_accept :: EFI_STATUS
  st_finished_event :: EFI_STATUS

definition EFI_NO_MAPPING :: EFI_STATUS where "EFI_NO_MAPPING = 0x8000000000000011"

fun wait_for_address :: "(EFI_STATUS \<times> bool \<times> bytes) list \<Rightarrow> bytes outcome" where
  "wait_for_address [] = Unfinished"
| "wait_for_address ((status, configured, address) # modes) =
     (if EFI_ERROR status then Aborted else if configured then Returned address else wait_for_address modes)"

text \<open>The status and the address that is shown.  A listener that could not be opened is a null pointer.\<close>

definition TcpTransportMain :: "tcp_setup \<Rightarrow> bytes \<Rightarrow> (EFI_STATUS \<times> bytes option) outcome" where
  "TcpTransportMain s junk =
     (if EFI_ERROR (st_text_out s) then Returned (st_text_out s, None)
      else if EFI_ERROR (st_text_in s) then Returned (st_text_in s, None)
      else if EFI_ERROR (st_handles s) then Returned (st_handles s, None)
      else if EFI_ERROR (st_binding s) then Returned (st_binding s, None)
      else if EFI_ERROR (st_child s) then Returned (st_child s, None)
      else if EFI_ERROR (st_accept_event s) then Aborted
      else if EFI_ERROR (st_close_event s) then Aborted
      else if EFI_ERROR (st_listener s) then Faulted
      else if st_configure s \<noteq> EFI_NO_MAPPING \<and> EFI_ERROR (st_configure s) then Returned (st_configure s, None)
      else obind (if st_configure s = EFI_NO_MAPPING then wait_for_address (st_modes s) else Returned junk) (\<lambda>address.
        if EFI_ERROR (st_accept s) then Returned (st_accept s, Some address)
        else if EFI_ERROR (st_finished_event s) then Aborted
        else Returned (EFI_SUCCESS, Some address)))"

text \<open>An address that is there at once is never asked for, and another one is shown.\<close>

lemma address_uninitialised:
  "TcpTransportMain \<lparr>st_text_out = 0, st_text_in = 0, st_handles = 0, st_binding = 0, st_child = 0, st_listener = 0,
     st_accept_event = 0, st_close_event = 0, st_configure = EFI_SUCCESS, st_modes = modes, st_accept = 0,
     st_finished_event = 0\<rparr> junk = Returned (EFI_SUCCESS, Some junk)"
  by (simp add: TcpTransportMain_def EFI_NO_MAPPING_def)

subsection \<open>The data are put together\<close>

text \<open>The buffer holds the data so far: nothing yet, or memory that starts with them.\<close>

definition holds_data :: "bytes \<Rightarrow> rx_pointer \<Rightarrow> u64 \<Rightarrow> u64 \<Rightarrow> bool" where
  "holds_data d data total_len allocated \<longleftrightarrow> unat total_len = length d \<and>
     (if d = [] then data = Null \<and> allocated = 0
      else \<exists>b. data = Memory b \<and> length b = unat allocated \<and> take (length d) b = d \<and> length d \<le> length b)"

definition alloc_keeps :: "'w alloc \<Rightarrow> ('w \<Rightarrow> 'o) \<Rightarrow> bool" where
  "alloc_keeps A obs \<longleftrightarrow> (\<forall>n w. obs (snd (A n w)) = obs w)"

lemma overwrite_prefix: "length d + length e \<le> length b \<Longrightarrow> take (length d) b = d \<Longrightarrow>
    take (length d + length e) (overwrite (length d) e b) = d @ e"
  by (simp add: overwrite_def)

lemma fragment_appended:
  assumes "holds_data d data n a" "e \<noteq> []" "length e \<le> RX_FRAGMENT_SIZE" "length d + length e < 2 ^ 62" "alloc_keeps A obs"
    "unat a < length d + 2 ^ 24"
  shows "\<exists>w1. obs w1 = obs w \<and> ((\<exists>lost. next_buffer A data n a (word_of_nat (length e)) w = Returned (Inl lost, w1) \<and> (\<exists>k. \<not> fst (A k w))) \<or>
    (\<exists>buffer a'. next_buffer A data n a (word_of_nat (length e)) w = Returned (Inr (buffer, a'), w1) \<and>
      (\<exists>b. append_fragment buffer n e = Returned b \<and> holds_data (d @ e) b (n + word_of_nat (length e)) a' \<and>
        unat a' < length (d @ e) + 2 ^ 24)))"
proof -
  let ?l = "word_of_nat (length e) :: u64" and ?n' = "n + word_of_nat (length e)"
  have n: "unat n = length d" using assms(1) by (simp add: holds_data_def)
  have l: "unat ?l = length e" "unat (n + ?l) = length d + length e"
    using assms(3,4) n by (simp_all add: RX_FRAGMENT_SIZE_def unat_word_ariths unat_of_nat)
  have grown: "unat (a + SIZE_8MB) = unat a + 0x800000"
    using assms(4,6) by (simp add: SIZE_8MB_def unat_word_ariths)
  show ?thesis
  proof (cases "a < n + ?l")
    case True
    then have less: "unat a < length d + length e" by (simp add: word_less_nat_alt l)
    obtain ok w1 where al: "A (unat (a + SIZE_8MB)) w = (ok, w1)" by fastforce
    with assms(5) have obs: "obs w1 = obs w" by (metis alloc_keeps_def snd_conv)
    let ?z = "replicate (unat a + 0x800000) (0 :: u8)"
    show ?thesis
    proof (cases ok)
      case False
      with al have "\<exists>k. \<not> fst (A k w)" by (metis fst_conv)
      with False al True obs show ?thesis using assms(1)
        by (auto simp: next_buffer_def holds_data_def split: if_splits)
    next
      case ok: True
      have room: "length d + length e \<le> length ?z" using assms(1,3)
        by (auto simp: holds_data_def RX_FRAGMENT_SIZE_def split: if_splits)
      define b0 where "b0 = overwrite 0 d ?z"
      have b0: "length b0 = length ?z" "take (length d) b0 = d" using room by (simp_all add: b0_def overwrite_def)
      have "next_buffer A data n a ?l w = Returned (Inr (Memory b0, a + SIZE_8MB), w1)"
      proof (cases "d = []")
        case True
        with assms(1) \<open>a < n + ?l\<close> al ok show ?thesis
          by (simp add: next_buffer_def holds_data_def b0_def overwrite_def SIZE_8MB_def)
      next
        case False
        with assms(1) \<open>a < n + ?l\<close> al ok room n show ?thesis
          by (auto simp: next_buffer_def holds_data_def grown b0_def Let_def)
      qed
      moreover have "append_fragment (Memory b0) n e = Returned (Memory (overwrite (length d) e b0))"
        using assms(2) room b0(1) n by (simp add: append_fragment_def)
      moreover have "holds_data (d @ e) (Memory (overwrite (length d) e b0)) ?n' (a + SIZE_8MB)"
        using assms(2) room b0 l(2) overwrite_prefix [of d e b0]
        by (simp add: holds_data_def grown length_overwrite)
      moreover have "unat (a + SIZE_8MB) < length (d @ e) + 2 ^ 24" using less by (simp add: grown)
      ultimately show ?thesis using obs by blast
    qed
  next
    case False
    then have fits: "length d + length e \<le> unat a" by (simp add: word_less_nat_alt l not_less)
    with assms(1,2) obtain b where b: "data = Memory b" "length b = unat a" "take (length d) b = d"
      by (auto simp: holds_data_def split: if_splits)
    have "next_buffer A data n a ?l w = Returned (Inr (data, a), w)" using False b(1) by (simp add: next_buffer_def)
    moreover have "append_fragment data n e = Returned (Memory (overwrite (length d) e b))"
      using assms(2) fits b(1,2) n by (simp add: append_fragment_def)
    moreover have "holds_data (d @ e) (Memory (overwrite (length d) e b)) ?n' a"
      using assms(2) fits b l(2) overwrite_prefix [of d e b] by (simp add: holds_data_def length_overwrite)
    moreover have "unat a < length (d @ e) + 2 ^ 24" using assms(6) by simp
    ultimately show ?thesis by blast
  qed
qed

lemma fragments_received:
  "holds_data d data n a \<Longrightarrow> unat a < length d + 2 ^ 24 \<Longrightarrow> alloc_keeps A obs \<Longrightarrow>
     \<forall>e \<in> set es. e \<noteq> [] \<and> length e \<le> RX_FRAGMENT_SIZE \<Longrightarrow> length d + length (concat es) < 2 ^ 62 \<Longrightarrow>
   \<exists>st n' p w1. receive_loop A (map Rx_data es @ Rx_failed status # later) data n a w = Returned ((st, n', p), w1) \<and>
     obs w1 = obs w \<and> (st = EFI_OUT_OF_RESOURCES \<and> \<not> (\<forall>k w. fst (A k w)) \<or> st = status \<and> (\<exists>a'. holds_data (d @ concat es) p n' a'))"
proof (induction es arbitrary: d data n a w)
  case (Cons e es)
  then have e: "e \<noteq> []" "length e \<le> RX_FRAGMENT_SIZE" "length d + length e < 2 ^ 62" by auto
  from fragment_appended [OF Cons.prems(1) e Cons.prems(3,2), of w] obtain w1 where w1: "obs w1 = obs w" and
    c: "(\<exists>lost. next_buffer A data n a (word_of_nat (length e)) w = Returned (Inl lost, w1) \<and> (\<exists>k. \<not> fst (A k w))) \<or>
      (\<exists>buffer a'. next_buffer A data n a (word_of_nat (length e)) w = Returned (Inr (buffer, a'), w1) \<and>
        (\<exists>b. append_fragment buffer n e = Returned b \<and> holds_data (d @ e) b (n + word_of_nat (length e)) a' \<and>
          unat a' < length (d @ e) + 2 ^ 24))" by blast
  from c show ?case
  proof (elim disjE exE conjE)
    fix lost k assume "next_buffer A data n a (word_of_nat (length e)) w = Returned (Inl lost, w1)" "\<not> fst (A k w)"
    with w1 show ?case by auto
  next
    fix buffer a' b
    assume step: "next_buffer A data n a (word_of_nat (length e)) w = Returned (Inr (buffer, a'), w1)"
      "append_fragment buffer n e = Returned b" "holds_data (d @ e) b (n + word_of_nat (length e)) a'"
      "unat a' < length (d @ e) + 2 ^ 24"
    have "\<forall>e \<in> set es. e \<noteq> [] \<and> length e \<le> RX_FRAGMENT_SIZE" "length (d @ e) + length (concat es) < 2 ^ 62"
      using Cons.prems(4,5) by auto
    from Cons.IH [OF step(3,4) Cons.prems(3) this, of w1] step(1,2) w1 show ?case by simp
  qed
qed auto

lemma download_returns: "unat n \<le> length mem \<Longrightarrow> \<exists>status w'. SaveFileToDisk sh name n mem w = Returned (status, w')"
  by (auto simp: SaveFileToDisk_def slice_Some Let_def split_def)

text \<open>
  What a peer sends before it closes the connection is what the file starts with, in whatever fragments
  it arrives, when memory does not run out and the file can be written; behind it may be the rest of
  a longer file that was not deleted.
\<close>

lemma download_saved:
  assumes "shell_files sh files name_of pos" "\<And>k w. fst (sh_alloc sh k w)"
    "\<not> EFI_ERROR (tc_accepted c)" "\<not> EFI_ERROR (tc_opened c)" "\<not> EFI_ERROR (tc_event c)"
    "tc_events c = map Rx_data es @ Rx_failed closed # later"
    "\<forall>e \<in> set es. e \<noteq> [] \<and> length e \<le> RX_FRAGMENT_SIZE" "length (concat es) < 2 ^ 62"
  shows "\<exists>n mem w1 status w'. SaveFileToDisk sh (wide ''Download.bin'') n mem w1 = Returned (status, w') \<and>
    ConnectionAccepted sh c w = Returned w' \<and>
    (\<not> EFI_ERROR status \<longrightarrow> (\<exists>tail. files w' = (files w)(wide ''Download.bin'' := Some (concat es @ tail)) \<and>
       (tail = [] \<or> (\<exists>old. files w (wide ''Download.bin'') = Some old \<and> tail = drop (length (concat es)) old \<and>
          \<not> deletes sh files (wide ''Download.bin'')))))"
proof -
  have keeps: "alloc_keeps (sh_alloc sh) files" using shell_files.alloc_files(1) [OF assms(1)] by (simp add: alloc_keeps_def)
  obtain ok w0 where al: "sh_alloc sh RX_FRAGMENT_SIZE w = (ok, w0)" by fastforce
  then have w0: "sh_alloc sh RX_FRAGMENT_SIZE w = (True, w0)" using assms(2) [of RX_FRAGMENT_SIZE w] by simp
  have f0: "files w0 = files w" using shell_files.alloc_files(1) [OF assms(1), of RX_FRAGMENT_SIZE w] by (simp add: al)
  have "holds_data [] Null 0 0" "unat (0 :: u64) < length ([] :: bytes) + 2 ^ 24" "length ([] :: bytes) + length (concat es) < 2 ^ 62"
    using assms(8) by (simp_all add: holds_data_def)
  from fragments_received [OF this(1,2) keeps assms(7) this(3), of closed later w0] assms(2) f0
  obtain n p w1 a where r: "receive_loop (sh_alloc sh) (map Rx_data es @ Rx_failed closed # later) Null 0 0 w0 = Returned ((closed, n, p), w1)"
    "files w1 = files w" "holds_data (concat es) p n a" by auto
  define mem where "mem = (case p of Memory b \<Rightarrow> b | _ \<Rightarrow> [])"
  have mem: "take (unat n) mem = concat es" "unat n \<le> length mem" "p = Null \<and> mem = [] \<or> p = Memory mem"
    using r(3) by (auto simp: holds_data_def mem_def split: if_splits)
  have run: "ConnectionAccepted sh c w = obind (SaveFileToDisk sh (wide ''Download.bin'') n mem w1) (\<lambda>(status, w2). Returned w2)"
    using assms(3-6) w0 r(1) mem(3) by (auto simp: ConnectionAccepted_def TcpDataReceive_def)
  obtain status w' where save: "SaveFileToDisk sh (wide ''Download.bin'') n mem w1 = Returned (status, w')"
    using download_returns [OF mem(2), of sh "wide ''Download.bin''" w1] by blast
  from run save have "ConnectionAccepted sh c w = Returned w'" by simp
  moreover have "length (concat es) = unat n" using mem(1,2) by (metis length_take min.absorb2)
  ultimately show ?thesis using save shell_files.save_whole [OF assms(1) save] r(2) mem(1)
    by (intro exI [of _ n] exI [of _ mem] exI [of _ w1] exI [of _ status] exI [of _ w']) auto
qed

subsection \<open>What does not go well\<close>

text \<open>When memory runs out, the data are freed and then saved all the same.\<close>

lemma freed_data_saved:
  assumes "TcpDataReceive (sh_alloc sh) (tc_events c) w = Returned ((EFI_OUT_OF_RESOURCES, n, Freed), w1)"
    "\<not> EFI_ERROR (tc_accepted c)" "\<not> EFI_ERROR (tc_opened c)" "\<not> EFI_ERROR (tc_event c)"
  shows "ConnectionAccepted sh c w = Faulted"
  using assms by (simp add: ConnectionAccepted_def)

lemma data_freed:
  assumes "A (unat (a + SIZE_8MB)) w = (False, w1)" "a < n + word_of_nat (length d)"
  shows "receive_loop A (Rx_data d # events) (Memory b) n a w = Returned ((EFI_OUT_OF_RESOURCES, n, Freed), w1)"
  using assms by (simp add: next_buffer_def)

text \<open>An empty fragment in front leaves a pointer that was never set, which the next fragment frees.\<close>

lemma empty_fragment_first:
  "A 2048 w = (True, w1) \<Longrightarrow> TcpDataReceive A [Rx_data [], Rx_data [x]] w = Faulted"
  by (simp add: TcpDataReceive_def RX_FRAGMENT_SIZE_def next_buffer_def append_fragment_def SIZE_8MB_def split: prod.splits)

end
