(* ===== verification/Spec2Isabelle.thy ===== *)
theory Spec2Isabelle
  imports AvbSlot AvbCrc32 UefiApp UefiText UefiConsole PartEditFlash SpiFlash RamDebug HexToBin PrintScreen DebugShell UefiTool SmallTools TcpTransport
begin

text \<open>
  A verification development for the UefiToolkitPkg repository: UEFI applications, drivers and
  libraries in C.  Its core is the boot chain \<open>Application/UefiAvb\<close>: the Android Verified Boot
  library (\<open>libavb\<close>), the A/B slot selection (\<open>libavb_ab\<close>), the UEFI platform under both and the boot
  application.  The second part is the console driver \<open>Drivers/Dxe/UefiConsole\<close>, the third the tools
  and libraries around disks and files.  All paths are below \<open>src/\<close>.

  \<^bold>\<open>How the program works.\<close>  \<open>main.c\<close> builds the tables of platform operations
  (\<open>uefi_avb_ops.c\<close>), asks \<open>avb_ab_flow\<close> for a slot and boots its kernel (\<open>uefi_avb_boot.c\<close>).  The
  flow reads the A/B metadata from the \<open>misc\<close> partition, verifies every slot that may be booted with
  \<open>avb_slot_verify\<close>, picks the best one, counts down its tries, raises the stored rollback indexes and
  writes the metadata back.  Verification of a slot loads a vbmeta image, checks its header, hash
  and RSA signature (\<open>avb_vbmeta_image.c\<close>, \<open>avb_rsa.c\<close>, \<open>avb_sha256.c\<close>, \<open>avb_sha512.c\<close>), asks the platform
  if the key is trusted and the index not rolled back, and walks the descriptors: hash descriptors
  load and compare a partition, chain descriptors verify another vbmeta image with a given key,
  and the rest make up the kernel command line (\<open>avb_cmdline.c\<close>).  The console driver waits for a hot
  key, then reads lines (\<open>UefiConsoleInRead\<close>), splits them into parameters and runs one of its
  registered commands until \<open>exit\<close> is entered.  \<open>PartEdit\<close> finds the boot disk and its partitions and
  reads, erases and flashes them, also from sparse images; \<open>FlashTool\<close> writes a firmware image into the
  SPI flash block by block; \<open>HexToBin\<close> converts Intel HEX files; a hot key of \<open>PrintScreenLogger\<close> saves the
  screen as a bitmap file; \<open>RamDebugLib\<close> keeps the newest messages in a region of memory, and
  \<open>DebugShellLib\<close> reads and writes model specific registers from the serial port; \<open>UefiTool\<close> does so,
  with ports, memory and CPUID, from a command line, on one processor or on all; \<open>TcpTransport\<close> saves what a peer sends.

  \<^bold>\<open>Theories.\<close>
  \<^item> \<open>Prelude\<close>: integers of the C types, buffers and bounds-checked reads, byte orders, C strings.
  \<^item> \<open>AvbUtil\<close>: the outcomes of a C function and the helpers of \<open>avb_util.c\<close>; \<open>AvbCrc32\<close>, \<open>AvbSha256\<close>,
    \<open>AvbSha512\<close>, \<open>AvbCrypto\<close>, \<open>AvbRsa\<close>: the primitives and their tables.
  \<^item> \<open>AvbOps\<close>: the platform interface as a record of operations; \<open>AvbDescriptor\<close>: all descriptors and their
    walk; \<open>AvbVbmeta\<close>: header and verification of an image; \<open>AvbCmdline\<close>: the command line.
  \<^item> \<open>AvbSlotVerify\<close>: \<open>avb_slot_verify.c\<close>; \<open>AvbReadOnly\<close>, \<open>AvbSlotTrust\<close>, \<open>AvbSlot\<close>: what it leaves alone, the
    relation it establishes (locale \<open>slot_relation\<close>, interpreted for the chain of trust and for the
    contents of partitions), and its properties.
  \<^item> \<open>AvbAbFlow\<close>: \<open>avb_ab_flow.c\<close>; \<open>AvbAbStore\<close>: its abstract specification (\<open>boot_step\<close> on slot states) and the
    contract of the storage (locale \<open>metadata_store\<close>); \<open>AvbAb\<close>: its properties.
  \<^item> \<open>UefiAvbOps\<close>, \<open>UefiText\<close>, \<open>UefiDisk\<close>, \<open>UefiPartition\<close>: the platform operations on the partition table, the
    text conversions, the contract of the firmware's disk (locale \<open>efi_disk\<close>, which gives
    \<open>metadata_store\<close> and \<open>read_only\<close> by \<open>sublocale\<close>), and what the operations do to a disk.
  \<^item> \<open>UefiBoot\<close>, \<open>UefiApp\<close>: the kernel hand-over and the application from start to jump.
  \<^item> \<open>EfiBase\<close>: status codes and 16 bit strings; \<open>ConsoleText\<close>, \<open>ConsoleNumber\<close>, \<open>ConsoleArgs\<close>: splitting a line,
    numbers, parameter packages (\<open>ConsoleParameters.c\<close>); \<open>ConsoleCommand\<close>: the registry
    (\<open>ConsoleCommand.c\<close>); \<open>ConsoleShell\<close>: the commands and the running of a line; \<open>ConsoleEditor\<close>: the line
    editor; \<open>UefiConsole\<close>: prompts, hot key and entry point; \<open>EfiDump\<close>: the hexadecimal dump.
  \<^item> \<open>EfiShell\<close>: the file helpers of the tools and the contract of the shell's files (locale
    \<open>shell_files\<close>); \<open>PartEdit\<close>, \<open>PartEditApp\<close>: the partition editor; \<open>PartEditFlash\<close>: the contract of its disk
    (locale \<open>part_disk\<close>), sparse images and what its operations do to a disk.
  \<^item> \<open>SpiFlash\<close>: \<open>PlatformFlashAccessLib.c\<close> and \<open>FlashTool.c\<close>; \<open>RamDebug\<close>: \<open>RamDebugLib.c\<close> and the list of
    messages it implements; \<open>HexToBin\<close>: \<open>HexToBin.c\<close>; \<open>PrintScreen\<close>: \<open>PrintScreenLogger.c\<close>; \<open>DebugShell\<close>:
    \<open>DebugShellLib.c\<close> and the editing of its lines; \<open>UefiTool\<close>: \<open>UefiTool.c\<close>, its options and operations;
    \<open>TcpTransport\<close>: \<open>TcpTransport.c\<close>; \<open>SmallTools\<close>: \<open>Smn.c\<close> (locale \<open>smn_network\<close>), \<open>GenGuid.c\<close>, \<open>TscFreq.c\<close>,
    \<open>AmdCpuFreq.c\<close>, \<open>GopVer.c\<close>, \<open>RamDiskApp.c\<close> and \<open>RawDataInit.c\<close>.

  \<^bold>\<open>How code is modelled.\<close>  A C structure is a record, an enumeration a datatype, an integer a word of
  its width, so that all arithmetic wraps as in C.  Memory is a list of octets (or of 16 bit
  characters); a read or write through a pointer is checked against the list, and one that leaves
  it is \<open>Faulted\<close>; memory that the code reads without having written it is an argument.  A failed
  assertion is \<open>Aborted\<close>, and waiting for input that does not come is \<open>Unfinished\<close>.  The firmware, the disk
  and the allocator are parameters that pass a world of any type \<open>'w\<close> along, so that every allocation
  can fail; freeing memory is left out, and so is printing where it is not what the code is for.  The memory and string routines of the C and
  EDK II base libraries (\<open>memcpy\<close>, \<open>CopyMem\<close>, \<open>StrLen\<close>, linked lists) are modelled as the standard library
  of the language; the collation and case folding of the firmware are parameters.

  \<^bold>\<open>What is proved.\<close>
  \<^item> Primitives: the streaming hash is the hash of the concatenation, the table-driven CRC the serial
    one, the RSA verification accepts exactly the signatures of the padded hash.
  \<^item> Images: verification reads inside the image and accepts exactly the signed ones; all descriptors
    are enumerated, and the walk ends but for a length that wraps.
  \<^item> Slots: a result without error means a chain of trust from a trusted key to every digest and equal
    digests for every requested partition.
  \<^item> Flow: it refines \<open>boot_step\<close>, also on the UEFI disk; repeated boots reach a good slot if there is one;
    the marking operations refine their specifications; metadata is normalized.
  \<^item> Platform and application: reads and writes stay in the partition (and the one case where they do
    not), only a verified slot is booted, and the kernel gets the image and command line of it.
  \<^item> Console: lines and parameters round-trip, packages are the declarative reading of the arguments,
    the registry is a sorted map, the editor follows a specification of text and cursor for all keys and
    stays in its buffer, a line runs its command with its parameters, a session can be left.
  \<^item> Tools: a sparse image leaves in the partition what its chunks describe, erasing leaves zeros and
    nothing else changes; flash that is written without an error holds the image; the log in memory
    refines the list of the newest messages that fit; a HEX file gives back its data, in front of what is left of a file that cannot be deleted; the bitmap shows
    every pixel (red and blue exchanged for one of the two formats), and no file is overwritten; sessions of the debug shell
    and command lines of \<open>UefiTool\<close> carry out what was typed, and reading words write nothing; what a
    peer sends is saved whole in front of the same.
  \<^item> Errors: the failures of the code that the models expose, each as a theorem about a concrete or
    general input (named in the text before it).

  \<^bold>\<open>Bounds and fuel.\<close>  Loops are structural or have a termination proof, with three exceptions.  Slot
  verification recurses on chain descriptors: the model has fuel 3, and \<open>verification_depth\<close> shows that
  a fourth nested call never matters, since a chained image may not chain again.  The walk over the
  descriptors takes fuel as an argument: one step for every sixteen octets of the image is enough
  when no length at which the walk arrives wraps (\<open>foreach_terminates\<close>), and no fuel is for a length that does
  (\<open>descriptor_length_wraps\<close>); running out is \<open>Unfinished\<close>.  The options of \<open>UefiTool\<close> are counted in an octet:
  256 turns are enough for 255 arguments (\<open>few_arguments_end\<close>), and none for more
  (\<open>many_arguments_never_end\<close>).

  \<^bold>\<open>Not modelled.\<close>  The jump to the kernel (assembler), the C library services of the test host
  (\<open>avb_sysdeps_posix.c\<close>), and \<open>Cpuid\<close>, which prints the fields of the structures in EDK II headers,
  which are not in the repository.  Of the console, unloading the driver and what is printed.  The
  Python tools run on the build host.
\<close>

end
